(* ===== verification/K2_Prelude.thy ===== *)
theory K2_Prelude
  imports
    Main
    "HOL-Library.Multiset"
    "HOL-Library.Char_ord"
    "HOL-Library.List_Lexorder"
    "HOL-Library.Product_Lexorder"
    "HOL-Library.Monad_Syntax"
begin

text \<open>
  The prelude of the K2 compute development: the conventions every component shares.

  \<^item> Rust integers. Unsigned values are \<open>nat\<close>, signed ones \<open>int\<close>; every plain Rust
    operator that can leave its type is written with its wrap-around (the release profile of
    the workspace sets no \<open>overflow-checks\<close>), and the saturating operators are written out.
  \<^item> Panics (\<open>expect\<close>) are the value \<open>None\<close> of an option computation, so that
    ``this never panics'' is a theorem and not a convention.
  \<^item> Rust's iterator operations that the sources use and HOL lacks
    (\<open>min_by\<close>, a \<open>BTreeSet\<close> read in order).
  \<^item> The named collections \<open>rust_arith\<close> and \<open>opt_simps\<close>.
\<close>

named_theorems rust_arith \<open>Unfolds the machine arithmetic of the model\<close>
named_theorems opt_simps \<open>Case rules for option computations that may panic\<close>

section \<open>Machine integers\<close>

definition u64_max :: nat where
  "u64_max = 2 ^ 64 - 1"

definition as_u32 :: "nat \<Rightarrow> nat" where
  "as_u32 n = n mod 2 ^ 32"

definition u64_add :: "nat \<Rightarrow> nat \<Rightarrow> nat" where
  "u64_add a b = (a + b) mod 2 ^ 64"

definition u64_sum :: "nat list \<Rightarrow> nat" where
  "u64_sum xs = foldl u64_add 0 xs"

definition sat_add64 :: "nat \<Rightarrow> nat \<Rightarrow> nat" where
  "sat_add64 a b = min (a + b) u64_max"

definition sat_mul64 :: "nat \<Rightarrow> nat \<Rightarrow> nat" where
  "sat_mul64 a b = min (a * b) u64_max"

definition u128_add :: "nat \<Rightarrow> nat \<Rightarrow> nat" where
  "u128_add a b = (a + b) mod 2 ^ 128"

definition u128_mul :: "nat \<Rightarrow> nat \<Rightarrow> nat" where
  "u128_mul a b = (a * b) mod 2 ^ 128"

definition i64_wrap :: "int \<Rightarrow> int" where
  "i64_wrap x = (x + 2 ^ 63) mod 2 ^ 64 - 2 ^ 63"

definition i64_add :: "int \<Rightarrow> int \<Rightarrow> int" where
  "i64_add a b = i64_wrap (a + b)"

definition i64_sub :: "int \<Rightarrow> int \<Rightarrow> int" where
  "i64_sub a b = i64_wrap (a - b)"

definition as_i64 :: "nat \<Rightarrow> int" where
  "as_i64 n = i64_wrap (int n)"

definition i64_ok :: "int \<Rightarrow> bool" where
  "i64_ok x \<longleftrightarrow> - (2 ^ 63) \<le> x \<and> x < 2 ^ 63"

definition u64_ok :: "nat \<Rightarrow> bool" where
  "u64_ok n \<longleftrightarrow> n < 2 ^ 64"

definition u32_ok :: "nat \<Rightarrow> bool" where
  "u32_ok n \<longleftrightarrow> n < 2 ^ 32"

lemmas [rust_arith] = u64_max_def as_u32_def u64_add_def sat_add64_def sat_mul64_def u128_add_def
  u128_mul_def i64_add_def i64_sub_def as_i64_def i64_ok_def u64_ok_def u32_ok_def

lemma i64_wrap_id [simp]: "i64_ok x \<Longrightarrow> i64_wrap x = x"
  by (simp add: i64_wrap_def i64_ok_def)

lemma i64_wrap_range: "i64_ok (i64_wrap x)"
proof -
  have "0 \<le> (x + 2 ^ 63) mod 2 ^ 64" "(x + 2 ^ 63) mod 2 ^ 64 < (2 ^ 64 :: int)"
    by simp_all
  then show ?thesis by (simp add: i64_wrap_def i64_ok_def)
qed

lemma as_u32_le [simp]: "as_u32 n \<le> n"
  by (simp add: as_u32_def)

lemma as_u32_id [simp]: "u32_ok n \<Longrightarrow> as_u32 n = n"
  by (simp add: as_u32_def u32_ok_def)

lemma u64_add_0 [simp]: "u64_ok n \<Longrightarrow> u64_add 0 n = n"
  by (simp add: u64_add_def u64_ok_def)

lemma sat_add64_le [simp]: "u64_ok c \<Longrightarrow> sat_add64 a b \<le> c \<longleftrightarrow> a + b \<le> c \<or> c = u64_max"
  by (auto simp: sat_add64_def u64_ok_def u64_max_def min_def)

lemma foldl_u64_add: "foldl u64_add a xs = (if xs = [] then a else (a + sum_list xs) mod 2 ^ 64)"
proof (induction xs arbitrary: a)
  case Nil
  then show ?case by simp
next
  case (Cons x xs)
  then show ?case by (simp add: u64_add_def mod_simps add.assoc)
qed

lemma u64_sum_eq: "u64_sum xs = sum_list xs mod 2 ^ 64"
  by (simp add: u64_sum_def foldl_u64_add)

lemma u64_sum_id: "sum_list xs < 2 ^ 64 \<Longrightarrow> u64_sum xs = sum_list xs"
  by (simp add: u64_sum_eq)

section \<open>Iterators\<close>

text \<open>\<open>Iterator::min_by\<close>: the first of the equally small elements; \<open>None\<close> on no element.\<close>

definition min_by_key :: "('a \<Rightarrow> 'k::linorder) \<Rightarrow> 'a list \<Rightarrow> 'a option" where
  "min_by_key f xs = (if xs = [] then None else Some (arg_min_list f xs))"

lemma min_by_key_None [simp]: "min_by_key f xs = None \<longleftrightarrow> xs = []"
  by (simp add: min_by_key_def)

lemma min_by_key_in: "min_by_key f xs = Some x \<Longrightarrow> x \<in> set xs"
  by (auto simp: min_by_key_def arg_min_list_in split: if_splits)

lemma min_by_key_le: "min_by_key f xs = Some x \<Longrightarrow> y \<in> set xs \<Longrightarrow> f x \<le> f y"
  by (auto simp: min_by_key_def f_arg_min_list_f split: if_splits)

lemma min_by_key_ex: "xs \<noteq> [] \<Longrightarrow> \<exists>x. min_by_key f xs = Some x \<and> x \<in> set xs"
  by (simp add: min_by_key_def arg_min_list_in)

text \<open>\<open>Iterator::max_by_key\<close>: the last of the equally large elements.\<close>

fun max_by_key :: "('a \<Rightarrow> 'k::linorder) \<Rightarrow> 'a list \<Rightarrow> 'a option" where
  "max_by_key f [] = None"
| "max_by_key f (x # xs) =
     (case max_by_key f xs of None \<Rightarrow> Some x | Some y \<Rightarrow> if f x > f y then Some x else Some y)"

lemma max_by_key_None [simp]: "max_by_key f xs = None \<longleftrightarrow> xs = []"
  by (cases xs) (auto split: option.splits)

lemma max_by_key_in: "max_by_key f xs = Some x \<Longrightarrow> x \<in> set xs"
  by (induction xs arbitrary: x) (auto split: option.splits if_splits)

lemma max_by_key_ge: "max_by_key f xs = Some x \<Longrightarrow> y \<in> set xs \<Longrightarrow> f y \<le> f x"
  by (induction xs arbitrary: x) (fastforce split: option.splits if_splits)+

text \<open>A \<open>BTreeSet\<close> collected from an iterator, read in order.\<close>

definition btree_set :: "'a::linorder list \<Rightarrow> 'a list" where
  "btree_set xs = sort (remdups xs)"

lemma set_btree_set [simp]: "set (btree_set xs) = set xs"
  by (simp add: btree_set_def)

lemma btree_set_Nil_iff [simp]: "btree_set xs = [] \<longleftrightarrow> xs = []"
  by (metis set_btree_set set_empty)

lemma distinct_btree_set [simp]: "distinct (btree_set xs)"
  by (simp add: btree_set_def)

lemma sorted_btree_set [simp]: "sorted (btree_set xs)"
  by (simp add: btree_set_def)

section \<open>Lists and options\<close>

definition or_else :: "'a option \<Rightarrow> 'a option \<Rightarrow> 'a option" where
  "or_else a b = (case a of None \<Rightarrow> b | Some x \<Rightarrow> Some x)"

definition unwrap_or :: "'a option \<Rightarrow> 'a \<Rightarrow> 'a" where
  "unwrap_or a d = (case a of None \<Rightarrow> d | Some x \<Rightarrow> x)"

lemma or_else_simps [simp]: "or_else None b = b" "or_else (Some x) b = Some x"
  by (simp_all add: or_else_def)

lemma unwrap_or_simps [simp]: "unwrap_or None d = d" "unwrap_or (Some x) d = x"
  by (simp_all add: unwrap_or_def)

lemma find_Some_iff': "find P xs = Some x \<Longrightarrow> P x \<and> x \<in> set xs"
  by (induction xs) (auto split: if_splits)

lemma bind_Some_iff [opt_simps]: "Option.bind x f = Some y \<longleftrightarrow> (\<exists>z. x = Some z \<and> f z = Some y)"
  by (cases x) auto

lemma bind_None_iff [opt_simps]: "Option.bind x f = None \<longleftrightarrow> x = None \<or> (\<exists>z. x = Some z \<and> f z = None)"
  by (cases x) auto

lemma sorted_wrt_ConsI: "(\<And>y. y \<in> set xs \<Longrightarrow> P x y) \<Longrightarrow> sorted_wrt P xs \<Longrightarrow> sorted_wrt P (x # xs)"
  by simp

lemma mset_filter_neq:
  "distinct xs \<Longrightarrow> mset (filter (\<lambda>y. y \<noteq> x) xs) = mset xs - {#x#}"
proof -
  assume d: "distinct xs"
  have "filter (\<lambda>y. y \<noteq> x) xs = removeAll x xs"
    by (simp add: removeAll_filter_not_eq eq_commute cong: filter_cong)
  with d show ?thesis by (metis distinct_remove1_removeAll mset_remove1)
qed

end
