(* ===== verification/Rust_Str.thy ===== *)
theory Rust_Str
  imports K2_Prelude
begin

text \<open>
  Rust's \<open>str\<close> as the sources use it. A string is the list of its UTF-8 bytes (each a HOL
  \<open>char\<close>), so \<open>len\<close> and the byte order of \<open>Ord for str\<close> are those of the
  code; \<open>chars\<close> decodes it. Also here: the character classes, trimming, splitting and
  the integer parser of the standard library.
\<close>

section \<open>Characters\<close>

type_synonym codepoint = nat

definition byte :: "char \<Rightarrow> nat" where
  "byte c = of_char c"

definition utf8_extra :: "char \<Rightarrow> nat" where
  "utf8_extra c = (if byte c < 192 then 0 else if byte c < 224 then 1 else if byte c < 240 then 2 else 3)"

text \<open>The characters of a string, each as its own bytes.\<close>

fun segs :: "string \<Rightarrow> string list" where
  "segs [] = []"
| "segs (c # cs) = (c # take (utf8_extra c) cs) # segs (drop (utf8_extra c) cs)"

fun seg_tail :: "codepoint \<Rightarrow> string \<Rightarrow> codepoint" where
  "seg_tail acc [] = acc"
| "seg_tail acc (c # cs) = seg_tail (acc * 64 + byte c mod 64) cs"

fun seg_cp :: "string \<Rightarrow> codepoint" where
  "seg_cp [] = 0"
| "seg_cp (c # cs) =
     seg_tail (if byte c < 128 then byte c else if byte c < 224 then byte c mod 32
               else if byte c < 240 then byte c mod 16 else byte c mod 8) cs"

definition chars :: "string \<Rightarrow> codepoint list" where
  "chars s = map seg_cp (segs s)"

text \<open>\<open>char::is_control\<close> (category Cc) and \<open>char::is_whitespace\<close> (property White_Space).\<close>

definition is_control :: "codepoint \<Rightarrow> bool" where
  "is_control c \<longleftrightarrow> c < 32 \<or> (127 \<le> c \<and> c < 160)"

definition is_whitespace :: "codepoint \<Rightarrow> bool" where
  "is_whitespace c \<longleftrightarrow> (9 \<le> c \<and> c \<le> 13) \<or> c = 32 \<or> c = 133 \<or> c = 160 \<or> c = 5760
     \<or> (8192 \<le> c \<and> c \<le> 8202) \<or> c = 8232 \<or> c = 8233 \<or> c = 8239 \<or> c = 8287 \<or> c = 12288"

definition is_ascii_digit :: "char \<Rightarrow> bool" where
  "is_ascii_digit c \<longleftrightarrow> 48 \<le> byte c \<and> byte c \<le> 57"

definition is_ascii_lowercase :: "char \<Rightarrow> bool" where
  "is_ascii_lowercase c \<longleftrightarrow> 97 \<le> byte c \<and> byte c \<le> 122"

definition is_ascii_uppercase :: "char \<Rightarrow> bool" where
  "is_ascii_uppercase c \<longleftrightarrow> 65 \<le> byte c \<and> byte c \<le> 90"

definition is_ascii_alphanumeric :: "char \<Rightarrow> bool" where
  "is_ascii_alphanumeric c \<longleftrightarrow> is_ascii_digit c \<or> is_ascii_lowercase c \<or> is_ascii_uppercase c"

definition to_ascii_lowercase :: "string \<Rightarrow> string" where
  "to_ascii_lowercase s = map (\<lambda>c. if is_ascii_uppercase c then char_of (byte c + 32) else c) s"

section \<open>Slices\<close>

definition trim :: "string \<Rightarrow> string" where
  "trim s = (let ws = (\<lambda>g. is_whitespace (seg_cp g)) in
     concat (rev (dropWhile ws (rev (dropWhile ws (segs s))))))"

fun strip_prefix :: "string \<Rightarrow> string \<Rightarrow> string option" where
  "strip_prefix [] s = Some s"
| "strip_prefix (p # ps) [] = None"
| "strip_prefix (p # ps) (c # cs) = (if p = c then strip_prefix ps cs else None)"

definition starts_with :: "string \<Rightarrow> string \<Rightarrow> bool" where
  "starts_with s p \<longleftrightarrow> strip_prefix p s \<noteq> None"

definition strip_suffix :: "string \<Rightarrow> string \<Rightarrow> string option" where
  "strip_suffix p s = map_option rev (strip_prefix (rev p) (rev s))"

definition ends_with :: "string \<Rightarrow> string \<Rightarrow> bool" where
  "ends_with s p \<longleftrightarrow> strip_suffix p s \<noteq> None"

text \<open>\<open>str::split(char)\<close> for an ASCII separator: always at least one piece.\<close>

fun split_on :: "char \<Rightarrow> string \<Rightarrow> string list" where
  "split_on d [] = [[]]"
| "split_on d (c # cs) =
     (if c = d then [] # split_on d cs
      else (case split_on d cs of p # ps \<Rightarrow> (c # p) # ps | [] \<Rightarrow> [[c]]))"

fun split_once :: "char \<Rightarrow> string \<Rightarrow> (string \<times> string) option" where
  "split_once d [] = None"
| "split_once d (c # cs) =
     (if c = d then Some ([], cs) else map_option (\<lambda>(a, b). (c # a, b)) (split_once d cs))"

definition rsplit_once :: "char \<Rightarrow> string \<Rightarrow> (string \<times> string) option" where
  "rsplit_once d s = map_option (\<lambda>(a, b). (rev b, rev a)) (split_once d (rev s))"

fun join_with :: "string \<Rightarrow> string list \<Rightarrow> string" where
  "join_with d [] = []"
| "join_with d [p] = p"
| "join_with d (p # q # ps) = p @ d @ join_with d (q # ps)"

section \<open>Integers\<close>

definition digit_val :: "char \<Rightarrow> nat" where
  "digit_val c = byte c - 48"

definition digits_val :: "string \<Rightarrow> nat" where
  "digits_val s = foldl (\<lambda>a c. a * 10 + digit_val c) 0 s"

text \<open>\<open>str::parse\<close> to an unsigned integer: an optional \<open>+\<close>, then digits, within the type.\<close>

definition parse_unsigned :: "nat \<Rightarrow> string \<Rightarrow> nat option" where
  "parse_unsigned hi s =
     (let d = (case s of c # cs \<Rightarrow> if c = CHR ''+'' then cs else s | [] \<Rightarrow> []) in
      if d \<noteq> [] \<and> list_all is_ascii_digit d \<and> digits_val d \<le> hi then Some (digits_val d) else None)"

fun digits_of :: "nat \<Rightarrow> string" where
  "digits_of n = (if n < 10 then [char_of (48 + n)] else digits_of (n div 10) @ [char_of (48 + n mod 10)])"

declare digits_of.simps [simp del]

section \<open>Facts\<close>

lemma concat_segs [simp]: "concat (segs s) = s"
  by (induction s rule: segs.induct) auto

lemma chars_Nil_iff [simp]: "chars s = [] \<longleftrightarrow> s = []"
  by (cases s) (auto simp: chars_def)

lemma strip_prefix_Some_iff: "strip_prefix p s = Some r \<longleftrightarrow> s = p @ r"
  by (induction p s rule: strip_prefix.induct) auto

lemma strip_prefix_append [simp]: "strip_prefix p (p @ r) = Some r"
  by (simp add: strip_prefix_Some_iff)

lemma starts_with_iff: "starts_with s p \<longleftrightarrow> (\<exists>r. s = p @ r)"
  by (auto simp: starts_with_def strip_prefix_Some_iff)

lemma strip_suffix_Some_iff: "strip_suffix p s = Some r \<longleftrightarrow> s = r @ p"
proof -
  have "strip_suffix p s = Some r \<longleftrightarrow> strip_prefix (rev p) (rev s) = Some (rev r)"
    by (auto simp: strip_suffix_def)
  also have "\<dots> \<longleftrightarrow> s = r @ p"
    unfolding strip_prefix_Some_iff by (metis rev_append rev_rev_ident)
  finally show ?thesis .
qed

lemma ends_with_iff: "ends_with s p \<longleftrightarrow> (\<exists>r. s = r @ p)"
  by (auto simp: ends_with_def strip_suffix_Some_iff)

lemma split_on_not_Nil [simp]: "split_on d s \<noteq> []"
  by (cases s) (auto split: list.splits)

lemma join_split [simp]: "join_with [d] (split_on d s) = s"
proof (induction s)
  case Nil
  then show ?case by simp
next
  case (Cons c cs)
  obtain p ps where e: "split_on d cs = p # ps" by (cases "split_on d cs") auto
  then show ?case using Cons by (cases ps) auto
qed

lemma split_on_no_sep: "p \<in> set (split_on d s) \<Longrightarrow> d \<notin> set p"
  by (induction s arbitrary: p) (auto split: if_splits list.splits)

lemma split_once_Some_iff: "split_once d s = Some (a, b) \<longleftrightarrow> s = a @ d # b \<and> d \<notin> set a"
  by (induction s arbitrary: a b) (auto simp: Cons_eq_append_conv split: if_splits)

lemma split_once_None_iff: "split_once d s = None \<longleftrightarrow> d \<notin> set s"
  by (induction s) auto

lemma byte_of_char [simp]: "n < 256 \<Longrightarrow> byte (char_of n) = n"
  by (simp add: byte_def)

lemma is_ascii_digit_char_of [simp]: "d < 10 \<Longrightarrow> is_ascii_digit (char_of (48 + d :: nat))"
  by (simp add: is_ascii_digit_def)

lemma digits_of_digits: "list_all is_ascii_digit (digits_of n)"
  by (induction n rule: digits_of.induct) (subst digits_of.simps, simp)

lemma digits_of_not_Nil [simp]: "digits_of n \<noteq> []"
  by (subst digits_of.simps) auto

lemma digits_val_snoc: "digits_val (s @ [c]) = digits_val s * 10 + digit_val c"
  by (simp add: digits_val_def)

lemma digits_val_digits_of [simp]: "digits_val (digits_of n) = n"
proof (induction n rule: digits_of.induct)
  case (1 n)
  show ?case
  proof (cases "n < 10")
    case True
    then show ?thesis by (subst digits_of.simps) (simp add: digits_val_def digit_val_def)
  next
    case False
    then have "digits_val (digits_of (n div 10)) = n div 10" using 1 by simp
    with False show ?thesis
      by (subst digits_of.simps) (simp add: digits_val_snoc digit_val_def)
  qed
qed

lemma digits_of_hd: "\<exists>c cs. digits_of n = c # cs \<and> is_ascii_digit c"
  using digits_of_digits [of n] by (cases "digits_of n") auto

text \<open>Printing and parsing an integer of the type round trips.\<close>

lemma parse_digits_of: "n \<le> hi \<Longrightarrow> parse_unsigned hi (digits_of n) = Some n"
proof -
  assume le: "n \<le> hi"
  obtain c cs where e: "digits_of n = c # cs" and d: "is_ascii_digit c" using digits_of_hd by blast
  have "c \<noteq> CHR ''+''" using d by (auto simp: is_ascii_digit_def byte_def)
  then show ?thesis
    using le digits_of_digits [of n] digits_val_digits_of [of n]
    by (simp add: parse_unsigned_def e Let_def)
qed

lemma parse_unsigned_bound: "parse_unsigned hi s = Some n \<Longrightarrow> n \<le> hi"
  by (auto simp: parse_unsigned_def Let_def split: if_splits list.splits)

end
