(* ===== verification/Codes.thy ===== *)
theory Codes
  imports Rust_Str
begin

text \<open>
  The stable reason codes of the compute protocol: the strings that refusals, wait reasons and
  notices carry on the wire. The collection \<open>codes\<close> unfolds them. Modules of the
  source that re-export a code of another module (\<open>blocked::FOREIGN_LOCK\<close> and the like)
  use the one definition here.
\<close>

named_theorems codes \<open>Unfolds the reason codes to their strings\<close>

section \<open>Refusal codes (\<open>refusal.rs\<close>)\<close>

definition LOCAL_PAUSED :: string where [codes]:
  "LOCAL_PAUSED = ''local_paused''"

definition LOCAL_DRAINING :: string where [codes]:
  "LOCAL_DRAINING = ''local_draining''"

definition LOCAL_STOPPED :: string where [codes]:
  "LOCAL_STOPPED = ''local_stopped''"

definition LOCAL_RESOURCE_LIMIT :: string where [codes]:
  "LOCAL_RESOURCE_LIMIT = ''local_resource_limit''"

definition OUTSIDE_WINDOW :: string where [codes]:
  "OUTSIDE_WINDOW = ''outside_window''"

definition OWNER_ACTIVE :: string where [codes]:
  "OWNER_ACTIVE = ''owner_active''"

definition ON_BATTERY :: string where [codes]:
  "ON_BATTERY = ''on_battery''"

definition WORKSPACE_REFUSED :: string where [codes]:
  "WORKSPACE_REFUSED = ''workspace_refused''"

definition DISK_LOW :: string where [codes]:
  "DISK_LOW = ''disk_low''"

definition FOREIGN_LOCK :: string where [codes]:
  "FOREIGN_LOCK = ''foreign_lock''"

definition UPGRADE_REQUIRED :: string where [codes]:
  "UPGRADE_REQUIRED = ''upgrade_required''"

definition TOOL_MISSING :: string where [codes]:
  "TOOL_MISSING = ''tool_missing''"

definition PARALLEL_FULL :: string where [codes]:
  "PARALLEL_FULL = ''parallel_full''"

definition EXCLUSIVE_RUNNING :: string where [codes]:
  "EXCLUSIVE_RUNNING = ''exclusive_running''"

definition WAITING_FOR_IDLE :: string where [codes]:
  "WAITING_FOR_IDLE = ''waiting_for_idle''"

definition NETWORK_NONE_NOT_ENFORCED :: string where [codes]:
  "NETWORK_NONE_NOT_ENFORCED = ''network_none_not_enforced_yet''"

definition NETWORK_NONE_MESSAGE :: string where [codes]:
  "NETWORK_NONE_MESSAGE = ''network = none isn't enforced on this node: it needs k2-node 0.46.3+ with the job wall (sudo k2-node setup)''"


section \<open>Share reason codes (\<open>share.rs\<close>, module \<open>codes\<close>)\<close>

definition NODE_QUEUED :: string where [codes]:
  "NODE_QUEUED = ''node_queued''"

definition FAIR_SHARE_WAIT :: string where [codes]:
  "FAIR_SHARE_WAIT = ''fair_share_wait''"

definition TENANT_QUEUE_FULL :: string where [codes]:
  "TENANT_QUEUE_FULL = ''tenant_queue_full''"

definition SHARE_PAUSED :: string where [codes]:
  "SHARE_PAUSED = ''share_paused''"

definition SHARE_EXPIRED :: string where [codes]:
  "SHARE_EXPIRED = ''share_expired''"

definition SHARE_REVOKED :: string where [codes]:
  "SHARE_REVOKED = ''share_revoked''"

definition WITHDRAWN :: string where [codes]:
  "WITHDRAWN = ''withdrawn''"

definition SUPERSEDED :: string where [codes]:
  "SUPERSEDED = ''superseded''"

definition EXCEEDS_SHARE_CAPS :: string where [codes]:
  "EXCEEDS_SHARE_CAPS = ''exceeds_share_caps''"

definition GATE_NOT_ALLOWED :: string where [codes]:
  "GATE_NOT_ALLOWED = ''gate_not_allowed''"

definition EXCLUSIVE_NOT_ALLOWED :: string where [codes]:
  "EXCLUSIVE_NOT_ALLOWED = ''exclusive_not_allowed''"

definition TENANT_DISK_FULL :: string where [codes]:
  "TENANT_DISK_FULL = ''tenant_disk_full''"

definition INSTALLING_TOOLS :: string where [codes]:
  "INSTALLING_TOOLS = ''installing_tools''"

definition NOT_NODE_OWNER :: string where [codes]:
  "NOT_NODE_OWNER = ''not_node_owner''"

definition SERVER_NOT_APPROVED :: string where [codes]:
  "SERVER_NOT_APPROVED = ''server_not_approved''"

definition SERVER_TOO_OLD :: string where [codes]:
  "SERVER_TOO_OLD = ''server_too_old''"

definition SERVER_ADD_PENDING :: string where [codes]:
  "SERVER_ADD_PENDING = ''server_add_pending''"

definition MAX_SERVERS_REACHED :: string where [codes]:
  "MAX_SERVERS_REACHED = ''max_servers_reached''"

definition SERVER_EXISTS :: string where [codes]:
  "SERVER_EXISTS = ''server_exists''"

definition TENANT_NEEDS_JOB_WALL :: string where [codes]:
  "TENANT_NEEDS_JOB_WALL = ''tenant_needs_job_wall''"

definition TEAM_NEEDS_TENANT_WALL :: string where [codes]:
  "TEAM_NEEDS_TENANT_WALL = ''team_needs_tenant_wall''"

definition TENANT_WALL_MISSING :: string where [codes]:
  "TENANT_WALL_MISSING = ''tenant_wall_missing''"

definition NODE_UPDATE :: string where [codes]:
  "NODE_UPDATE = ''node_update''"

definition NODE_TOO_OLD :: string where [codes]:
  "NODE_TOO_OLD = ''node_too_old''"

definition JOB_STARTED :: string where [codes]:
  "JOB_STARTED = ''job_started''"

definition OWNER_NEEDS_OWN_SERVER :: string where [codes]:
  "OWNER_NEEDS_OWN_SERVER = ''owner_needs_own_server''"

definition OWNER_TARGET_NOT_READY :: string where [codes]:
  "OWNER_TARGET_NOT_READY = ''owner_target_not_ready''"


section \<open>Wait codes (\<open>share.rs\<close>, module \<open>blocked\<close>)\<close>

definition PAUSED :: string where [codes]:
  "PAUSED = ''paused''"

definition SERVER_OFFLINE :: string where [codes]:
  "SERVER_OFFLINE = ''server_offline''"

definition OVER_QUOTA :: string where [codes]:
  "OVER_QUOTA = ''over_quota''"

definition EXCEEDS_NODE_CAPS :: string where [codes]:
  "EXCEEDS_NODE_CAPS = ''exceeds_node_caps''"

definition WORKSPACE_RUNNING_FULL :: string where [codes]:
  "WORKSPACE_RUNNING_FULL = ''workspace_running_full''"

definition SERVER_RUNNING_FULL :: string where [codes]:
  "SERVER_RUNNING_FULL = ''server_running_full''"

definition SUBMITTER_RUNNING_FULL :: string where [codes]:
  "SUBMITTER_RUNNING_FULL = ''submitter_running_full''"

definition WAITING_FOR_ROOM :: string where [codes]:
  "WAITING_FOR_ROOM = ''waiting_for_room''"

definition BACKFILL_HOLD :: string where [codes]:
  "BACKFILL_HOLD = ''backfill_hold''"

definition TURN :: string where [codes]:
  "TURN = ''turn''"

definition BATCH_WINDOW :: string where [codes]:
  "BATCH_WINDOW = ''batch_window''"

definition LINGERING :: string where [codes]:
  "LINGERING = ''lingering''"


section \<open>Tier codes (\<open>tiers.rs\<close>, module \<open>codes\<close>)\<close>

definition CI_NOT_ALLOWED :: string where [codes]:
  "CI_NOT_ALLOWED = ''ci_not_allowed''"

definition REPLACED :: string where [codes]:
  "REPLACED = ''replaced''"

definition TIER_HOLD :: string where [codes]:
  "TIER_HOLD = ''tier_hold''"

definition CRITICAL_PATH_TAKEN :: string where [codes]:
  "CRITICAL_PATH_TAKEN = ''critical_path_taken''"

definition PRIORITY_DOWNGRADED :: string where [codes]:
  "PRIORITY_DOWNGRADED = ''priority_downgraded''"

definition NODE_TOO_OLD_FOR_TIERS :: string where [codes]:
  "NODE_TOO_OLD_FOR_TIERS = ''node_too_old_for_tiers''"

definition PRIORITY_NEEDS_WHY :: string where [codes]:
  "PRIORITY_NEEDS_WHY = ''priority_needs_why''"

definition PRIORITY_CAP_REACHED :: string where [codes]:
  "PRIORITY_CAP_REACHED = ''priority_cap_reached''"

definition BATCH_IDLE_ONLY :: string where [codes]:
  "BATCH_IDLE_ONLY = ''batch_idle_only''"

definition MEM_DEFAULTED :: string where [codes]:
  "MEM_DEFAULTED = ''mem_defaulted''"


section \<open>Secret-env codes (\<open>secret.rs\<close>, module \<open>codes\<close>)\<close>

definition ISOLATION_WAIT :: string where [codes]:
  "ISOLATION_WAIT = ''secret_isolation_wait''"

section \<open>The lists\<close>

definition ALL_CODES :: "string list" where
  "ALL_CODES =
    [LOCAL_PAUSED, LOCAL_DRAINING, LOCAL_STOPPED, LOCAL_RESOURCE_LIMIT,
     OUTSIDE_WINDOW, OWNER_ACTIVE, ON_BATTERY, WORKSPACE_REFUSED,
     DISK_LOW, FOREIGN_LOCK, UPGRADE_REQUIRED, TOOL_MISSING,
     PARALLEL_FULL, EXCLUSIVE_RUNNING, WAITING_FOR_IDLE, NETWORK_NONE_NOT_ENFORCED]"

definition share_codes_ALL :: "string list" where
  "share_codes_ALL =
    [NODE_QUEUED, FAIR_SHARE_WAIT, TENANT_QUEUE_FULL, SHARE_PAUSED,
     SHARE_EXPIRED, SHARE_REVOKED, WITHDRAWN, SUPERSEDED,
     EXCEEDS_SHARE_CAPS, GATE_NOT_ALLOWED, EXCLUSIVE_NOT_ALLOWED, TENANT_DISK_FULL,
     INSTALLING_TOOLS, NOT_NODE_OWNER, SERVER_NOT_APPROVED, SERVER_TOO_OLD,
     SERVER_ADD_PENDING, MAX_SERVERS_REACHED, SERVER_EXISTS, TENANT_NEEDS_JOB_WALL,
     TEAM_NEEDS_TENANT_WALL, TENANT_WALL_MISSING, NODE_UPDATE, NODE_TOO_OLD,
     JOB_STARTED, OWNER_NEEDS_OWN_SERVER, OWNER_TARGET_NOT_READY]"

definition tier_codes_ALL :: "string list" where
  "tier_codes_ALL =
    [CI_NOT_ALLOWED, REPLACED, TIER_HOLD, CRITICAL_PATH_TAKEN,
     PRIORITY_DOWNGRADED, NODE_TOO_OLD_FOR_TIERS, PRIORITY_NEEDS_WHY, PRIORITY_CAP_REACHED,
     BATCH_IDLE_ONLY, MEM_DEFAULTED]"

section \<open>What a code means for the queue\<close>

text \<open>\<open>blocked::lets_others_pass\<close>: the wait reasons that never hold the queue.\<close>

definition lets_others_pass :: "string \<Rightarrow> bool" where
  "lets_others_pass code \<longleftrightarrow> code \<in> set [WORKSPACE_RUNNING_FULL, SERVER_RUNNING_FULL,
     SUBMITTER_RUNNING_FULL, BATCH_WINDOW]"

text \<open>\<open>tiers::waits_for_room\<close>: the refusals a CI or Priority head may hold the node on.\<close>

definition waits_for_room :: "string \<Rightarrow> bool" where
  "waits_for_room code \<longleftrightarrow> code \<in> set [PARALLEL_FULL, LOCAL_RESOURCE_LIMIT, WAITING_FOR_IDLE,
     EXCLUSIVE_RUNNING]"

lemma codes_distinct: "distinct ALL_CODES" "distinct share_codes_ALL" "distinct tier_codes_ALL"
  by (simp_all add: ALL_CODES_def share_codes_ALL_def tier_codes_ALL_def codes)

lemma lets_others_pass_no_room: "lets_others_pass c \<Longrightarrow> \<not> waits_for_room c"
  by (auto simp: lets_others_pass_def waits_for_room_def codes)

end
