(* ===== verification/Share_Enums.thy ===== *)
theory Share_Enums
  imports Codes
begin

text \<open>
  The small enums of \<open>share.rs\<close>: job classes, roles, trust, network, share states and the
  options of the owner move, with their wire names and, where the code derives \<open>Ord\<close>,
  their order as an instance of \<open>linorder\<close>.
\<close>

named_theorems enum_ord \<open>Unfolds the order of an enum to its ranks\<close>

section \<open>Job classes\<close>

datatype JobClass = Class_Batch | Class_Interactive | Class_Gate

fun JobClass_as_str :: "JobClass \<Rightarrow> string" where
  "JobClass_as_str Class_Batch = ''batch''"
| "JobClass_as_str Class_Interactive = ''interactive''"
| "JobClass_as_str Class_Gate = ''gate''"

definition JobClass_parse :: "string \<Rightarrow> JobClass option" where
  "JobClass_parse s =
     (if s = ''batch'' then Some Class_Batch
      else if s = ''interactive'' then Some Class_Interactive
      else if s = ''gate'' then Some Class_Gate
      else None)"

fun class_rank :: "JobClass \<Rightarrow> nat" where
  "class_rank Class_Batch = 0"
| "class_rank Class_Interactive = 1"
| "class_rank Class_Gate = 2"

lemma class_rank_inject [simp]: "class_rank x = class_rank y \<longleftrightarrow> x = y"
  by (cases x; cases y) simp_all

instantiation JobClass :: linorder
begin

definition less_eq_JobClass :: "JobClass \<Rightarrow> JobClass \<Rightarrow> bool" where
  [enum_ord]: "x \<le> y \<longleftrightarrow> class_rank x \<le> class_rank y"

definition less_JobClass :: "JobClass \<Rightarrow> JobClass \<Rightarrow> bool" where
  [enum_ord]: "x < y \<longleftrightarrow> class_rank x < class_rank y"

instance
  by standard (auto simp: enum_ord)

end

section \<open>Slots and roles\<close>

type_synonym Slot = nat

definition OWNER_SLOT :: Slot where
  "OWNER_SLOT = 0"

definition MAX_SLOTS :: nat where
  "MAX_SLOTS = 8"

definition valid_slot :: "Slot \<Rightarrow> bool" where
  "valid_slot s \<longleftrightarrow> s < MAX_SLOTS"

datatype Role = Role_Owner | Role_Tenant

definition Role_of :: "Slot \<Rightarrow> Role" where
  "Role_of slot = (if slot = OWNER_SLOT then Role_Owner else Role_Tenant)"

fun Role_as_str :: "Role \<Rightarrow> string" where
  "Role_as_str Role_Owner = ''owner''"
| "Role_as_str Role_Tenant = ''tenant''"

section \<open>Trust and network\<close>

datatype Trust = Trust_Own | Trust_Team

fun Trust_as_str :: "Trust \<Rightarrow> string" where
  "Trust_as_str Trust_Own = ''own''"
| "Trust_as_str Trust_Team = ''team''"

definition Trust_parse :: "string \<Rightarrow> Trust option" where
  "Trust_parse s =
     (if s = ''own'' then Some Trust_Own else if s = ''team'' then Some Trust_Team else None)"

datatype Network = Net_None | Net_NoLan | Net_On

fun Network_as_str :: "Network \<Rightarrow> string" where
  "Network_as_str Net_None = ''none''"
| "Network_as_str Net_NoLan = ''no-lan''"
| "Network_as_str Net_On = ''on''"

definition Network_parse :: "string \<Rightarrow> Network option" where
  "Network_parse s =
     (if s = ''none'' then Some Net_None
      else if s = ''no-lan'' then Some Net_NoLan
      else if s = ''on'' then Some Net_On
      else None)"

definition of_policy :: "string \<Rightarrow> Network" where
  "of_policy s = unwrap_or (Network_parse s) Net_On"

fun network_rank :: "Network \<Rightarrow> nat" where
  "network_rank Net_None = 0"
| "network_rank Net_NoLan = 1"
| "network_rank Net_On = 2"

lemma network_rank_inject [simp]: "network_rank x = network_rank y \<longleftrightarrow> x = y"
  by (cases x; cases y) simp_all

instantiation Network :: linorder
begin

definition less_eq_Network :: "Network \<Rightarrow> Network \<Rightarrow> bool" where
  [enum_ord]: "x \<le> y \<longleftrightarrow> network_rank x \<le> network_rank y"

definition less_Network :: "Network \<Rightarrow> Network \<Rightarrow> bool" where
  [enum_ord]: "x < y \<longleftrightarrow> network_rank x < network_rank y"

instance
  by standard (auto simp: enum_ord)

end

section \<open>Share states\<close>

datatype ShareState = SS_Pending | SS_Active | SS_Paused | SS_Revoked

fun ShareState_as_str :: "ShareState \<Rightarrow> string" where
  "ShareState_as_str SS_Pending = ''pending''"
| "ShareState_as_str SS_Active = ''active''"
| "ShareState_as_str SS_Paused = ''paused''"
| "ShareState_as_str SS_Revoked = ''revoked''"

datatype ServerStatus = St_Pending | St_Active | St_Paused | St_Expired | St_Revoked | St_Refused

fun ServerStatus_as_str :: "ServerStatus \<Rightarrow> string" where
  "ServerStatus_as_str St_Pending = ''pending''"
| "ServerStatus_as_str St_Active = ''active''"
| "ServerStatus_as_str St_Paused = ''paused''"
| "ServerStatus_as_str St_Expired = ''expired''"
| "ServerStatus_as_str St_Revoked = ''revoked''"
| "ServerStatus_as_str St_Refused = ''refused''"

section \<open>Moving the owner\<close>

datatype OldOwner = Old_Keep | Old_Revoke

fun OldOwner_as_str :: "OldOwner \<Rightarrow> string" where
  "OldOwner_as_str Old_Keep = ''keep''"
| "OldOwner_as_str Old_Revoke = ''revoke''"

definition OldOwner_parse :: "string \<Rightarrow> OldOwner option" where
  "OldOwner_parse s =
     (if s = ''keep'' then Some Old_Keep else if s = ''revoke'' then Some Old_Revoke else None)"

datatype Caches = Caches_Move | Caches_Wipe

fun Caches_as_str :: "Caches \<Rightarrow> string" where
  "Caches_as_str Caches_Move = ''move''"
| "Caches_as_str Caches_Wipe = ''wipe''"

definition Caches_parse :: "string \<Rightarrow> Caches option" where
  "Caches_parse s =
     (if s = ''move'' then Some Caches_Move else if s = ''wipe'' then Some Caches_Wipe else None)"

section \<open>Wire names\<close>

text \<open>
  Every enum with a \<open>parse\<close> and an \<open>as_str\<close> has the same contract: parsing a
  printed value gives it back, and nothing but accepted names parses.
\<close>

locale wire_enum =
  fixes to_str :: "'a \<Rightarrow> string"
    and of_str :: "string \<Rightarrow> 'a option"
  assumes parse_print: "of_str (to_str x) = Some x"
begin

lemma print_inj: "to_str x = to_str y \<Longrightarrow> x = y"
  by (metis option.inject parse_print)

lemma parse_list: "those (map (of_str \<circ> to_str) xs) = Some xs"
  by (induction xs) (simp_all add: parse_print)

lemma parse_surj: "\<exists>s. of_str s = Some x"
  using parse_print by blast

end

interpretation class_wire: wire_enum JobClass_as_str JobClass_parse
  by unfold_locales (case_tac x, simp_all add: JobClass_parse_def)

interpretation trust_wire: wire_enum Trust_as_str Trust_parse
  by unfold_locales (case_tac x, simp_all add: Trust_parse_def)

interpretation network_wire: wire_enum Network_as_str Network_parse
  by unfold_locales (case_tac x, simp_all add: Network_parse_def)

interpretation old_owner_wire: wire_enum OldOwner_as_str OldOwner_parse
  by unfold_locales (case_tac x, simp_all add: OldOwner_parse_def)

interpretation caches_wire: wire_enum Caches_as_str Caches_parse
  by unfold_locales (case_tac x, simp_all add: Caches_parse_def)

end
