(* ===== verification/Tiers.thy ===== *)
theory Tiers
  imports Share_Enums
begin

text \<open>
  \<open>tiers.rs\<close>: the airport model. Tiers and lines, the line that starts next
  (\<open>next_line\<close>: CI, then Priority and Standard alternating, then Batch), the tier a node
  counts for a job (\<open>effective\<close>), and the checks on the submit options.
\<close>

section \<open>Constants\<close>

definition AGE_SECS :: int where
  "AGE_SECS = 3600"

definition SUPERSEDE_MAX :: nat where
  "SUPERSEDE_MAX = 120"

definition SUBMITTER_NAME_MAX :: nat where
  "SUBMITTER_NAME_MAX = 40"

definition WHY_MAX :: nat where
  "WHY_MAX = 200"

definition PRIORITY_CAP :: nat where
  "PRIORITY_CAP = 2"

definition BATCH_QUEUE_TIMEOUT_SECS :: int where
  "BATCH_QUEUE_TIMEOUT_SECS = 48 * 3600"

section \<open>Lines\<close>

datatype Line = Line_Batch | Line_Standard | Line_Priority | Line_Ci

definition line_holds :: "Line \<Rightarrow> bool" where
  "line_holds l \<longleftrightarrow> l = Line_Priority \<or> l = Line_Ci"

definition backfill_holds :: "Line \<Rightarrow> bool" where
  "backfill_holds l \<longleftrightarrow> l \<noteq> Line_Batch"

fun Line_as_str :: "Line \<Rightarrow> string" where
  "Line_as_str Line_Batch = ''batch''"
| "Line_as_str Line_Standard = ''standard''"
| "Line_as_str Line_Priority = ''priority''"
| "Line_as_str Line_Ci = ''ci''"

definition Line_parse :: "string \<Rightarrow> Line option" where
  "Line_parse s =
     (if s = ''batch'' then Some Line_Batch
      else if s = ''standard'' then Some Line_Standard
      else if s = ''priority'' then Some Line_Priority
      else if s = ''ci'' then Some Line_Ci
      else None)"

fun line_rank :: "Line \<Rightarrow> nat" where
  "line_rank Line_Batch = 0"
| "line_rank Line_Standard = 1"
| "line_rank Line_Priority = 2"
| "line_rank Line_Ci = 3"

lemma line_rank_inject [simp]: "line_rank x = line_rank y \<longleftrightarrow> x = y"
  by (cases x; cases y) simp_all

instantiation Line :: linorder
begin

definition less_eq_Line :: "Line \<Rightarrow> Line \<Rightarrow> bool" where
  [enum_ord]: "x \<le> y \<longleftrightarrow> line_rank x \<le> line_rank y"

definition less_Line :: "Line \<Rightarrow> Line \<Rightarrow> bool" where
  [enum_ord]: "x < y \<longleftrightarrow> line_rank x < line_rank y"

instance
  by standard (auto simp: enum_ord)

end

section \<open>Tiers\<close>

datatype Tier = Tier_Batch | Tier_Normal | Tier_Priority | Tier_Ci

definition Tier_ALL :: "Tier list" where
  "Tier_ALL = [Tier_Ci, Tier_Priority, Tier_Normal, Tier_Batch]"

fun Tier_as_str :: "Tier \<Rightarrow> string" where
  "Tier_as_str Tier_Batch = ''batch''"
| "Tier_as_str Tier_Normal = ''normal''"
| "Tier_as_str Tier_Priority = ''priority''"
| "Tier_as_str Tier_Ci = ''ci''"

definition Tier_parse :: "string \<Rightarrow> Tier option" where
  "Tier_parse s =
     (if s = ''batch'' then Some Tier_Batch
      else if s = ''normal'' \<or> s = ''standard'' then Some Tier_Normal
      else if s = ''priority'' then Some Tier_Priority
      else if s = ''ci'' then Some Tier_Ci
      else None)"

fun tier_rank :: "Tier \<Rightarrow> nat" where
  "tier_rank Tier_Batch = 0"
| "tier_rank Tier_Normal = 1"
| "tier_rank Tier_Priority = 2"
| "tier_rank Tier_Ci = 3"

lemma tier_rank_inject [simp]: "tier_rank x = tier_rank y \<longleftrightarrow> x = y"
  by (cases x; cases y) simp_all

instantiation Tier :: linorder
begin

definition less_eq_Tier :: "Tier \<Rightarrow> Tier \<Rightarrow> bool" where
  [enum_ord]: "x \<le> y \<longleftrightarrow> tier_rank x \<le> tier_rank y"

definition less_Tier :: "Tier \<Rightarrow> Tier \<Rightarrow> bool" where
  [enum_ord]: "x < y \<longleftrightarrow> tier_rank x < tier_rank y"

instance
  by standard (auto simp: enum_ord)

end

fun tier_word :: "Tier \<Rightarrow> string" where
  "tier_word Tier_Batch = ''Batch''"
| "tier_word Tier_Normal = ''Standard''"
| "tier_word Tier_Priority = ''Priority''"
| "tier_word Tier_Ci = ''CI''"

fun from_class :: "JobClass \<Rightarrow> Tier" where
  "from_class Class_Gate = Tier_Ci"
| "from_class Class_Interactive = Tier_Normal"
| "from_class Class_Batch = Tier_Normal"

fun tier_class :: "Tier \<Rightarrow> JobClass" where
  "tier_class Tier_Ci = Class_Gate"
| "tier_class Tier_Batch = Class_Batch"
| "tier_class Tier_Priority = Class_Interactive"
| "tier_class Tier_Normal = Class_Interactive"

definition for_peer :: "Tier \<Rightarrow> bool \<Rightarrow> Tier" where
  "for_peer t tiers2 = (if t = Tier_Batch \<and> \<not> tiers2 then Tier_Normal else t)"

fun tier_tag :: "Tier \<Rightarrow> string" where
  "tier_tag Tier_Ci = ''CI''"
| "tier_tag Tier_Priority = ''P''"
| "tier_tag Tier_Batch = ''B''"
| "tier_tag Tier_Normal = ''''"

fun tier_line :: "Tier \<Rightarrow> Line" where
  "tier_line Tier_Ci = Line_Ci"
| "tier_line Tier_Priority = Line_Priority"
| "tier_line Tier_Normal = Line_Standard"
| "tier_line Tier_Batch = Line_Batch"

section \<open>Which line starts next\<close>

definition alternate_after :: "Line option \<Rightarrow> Line" where
  "alternate_after last_line = (if last_line = Some Line_Priority then Line_Standard else Line_Priority)"

definition next_line :: "(Line \<Rightarrow> bool) \<Rightarrow> Line option \<Rightarrow> Line option" where
  "next_line has last_line =
     (if has Line_Ci then Some Line_Ci
      else let first = alternate_after last_line;
               second = (if first = Line_Priority then Line_Standard else Line_Priority)
           in find has [first, second, Line_Batch])"

definition tiers_aged :: "int \<Rightarrow> int \<Rightarrow> bool" where
  "tiers_aged waited_secs age_secs \<longleftrightarrow> waited_secs \<ge> age_secs"

fun effective :: "Tier \<Rightarrow> bool \<Rightarrow> bool \<Rightarrow> Tier" where
  "effective Tier_Ci may_ci may_priority = (if may_ci then Tier_Ci else Tier_Normal)"
| "effective Tier_Priority may_ci may_priority = (if may_priority then Tier_Priority else Tier_Normal)"
| "effective Tier_Batch may_ci may_priority = Tier_Batch"
| "effective Tier_Normal may_ci may_priority = Tier_Normal"

section \<open>Submit options\<close>

definition valid_supersede :: "string \<Rightarrow> bool" where
  "valid_supersede key \<longleftrightarrow> 1 \<le> length (chars key) \<and> length (chars key) \<le> SUPERSEDE_MAX
     \<and> list_all (\<lambda>c. \<not> is_control c) (chars key) \<and> trim key = key"

definition valid_submitter_name :: "string \<Rightarrow> bool" where
  "valid_submitter_name name \<longleftrightarrow> 1 \<le> length name \<and> length name \<le> SUBMITTER_NAME_MAX
     \<and> list_all (\<lambda>c. is_ascii_lowercase c \<or> is_ascii_digit c \<or> c \<in> set ''._-'') name"

definition valid_why :: "string \<Rightarrow> bool" where
  "valid_why why = (let t = trim why in
     3 \<le> length (chars t) \<and> length (chars t) \<le> WHY_MAX \<and> \<not> list_ex is_control (chars t))"

section \<open>Facts\<close>

lemma line_wire_parse_print: "Line_parse (Line_as_str l) = Some l"
  by (cases l) (simp_all add: Line_parse_def)

lemma tier_wire_parse_print: "Tier_parse (Tier_as_str t) = Some t"
  by (cases t) (simp_all add: Tier_parse_def)

interpretation line_wire: wire_enum Line_as_str Line_parse
  by unfold_locales (rule line_wire_parse_print)

interpretation tier_wire: wire_enum Tier_as_str Tier_parse
  by unfold_locales (rule tier_wire_parse_print)

lemma next_line_has: "next_line has last_line = Some l \<Longrightarrow> has l"
  by (auto simp: next_line_def Let_def split: if_splits)

lemma next_line_None_iff: "next_line has last_line = None \<longleftrightarrow> (\<forall>l. \<not> has l)"
proof
  assume "next_line has last_line = None"
  then have "\<not> has Line_Ci \<and> \<not> has Line_Priority \<and> \<not> has Line_Standard \<and> \<not> has Line_Batch"
    by (auto simp: next_line_def alternate_after_def Let_def split: if_splits)
  then show "\<forall>l. \<not> has l" using Line.exhaust by metis
qed (simp add: next_line_def Let_def)

lemma next_line_Some: "has l \<Longrightarrow> \<exists>m. next_line has last_line = Some m \<and> has m"
  using next_line_None_iff next_line_has by (metis not_None_eq)

lemma next_line_ci: "next_line has last_line = Some Line_Ci \<longleftrightarrow> has Line_Ci"
  by (auto simp: next_line_def alternate_after_def Let_def split: if_splits)

lemma next_line_batch: "next_line has last_line = Some Line_Batch \<Longrightarrow> has l \<Longrightarrow> l = Line_Batch"
  by (cases l) (auto simp: next_line_def alternate_after_def Let_def split: if_splits)

text \<open>The alternation: a line that got the last start starts again only if the other is empty.\<close>

lemma next_line_alternates:
  "next_line has (Some l) = Some l \<Longrightarrow> l \<in> {Line_Priority, Line_Standard} \<Longrightarrow>
   m \<in> {Line_Priority, Line_Standard} \<Longrightarrow> has m \<Longrightarrow> m = l"
  by (auto simp: next_line_def alternate_after_def Let_def split: if_splits)

lemma effective_le: "effective t a b \<le> max t Tier_Normal"
  by (cases t) (auto simp: enum_ord max_def)

lemma effective_idem: "effective (effective t a b) a b = effective t a b"
  by (cases t) auto

end
