(* ===== verification/Share.thy ===== *)
theory Share
  imports Tiers
begin

text \<open>
  \<open>share.rs\<close>, the shares: one tenant's limits (\<open>ShareLimits\<close>), partial changes
  (\<open>ShareOverrides\<close>), the narrow/widen rule, and \<open>servers.toml\<close>
  (\<open>ServerEntry\<close>, \<open>ServersFile\<close>) with its structural checks. An error message of
  the code is a constructor of an error type that carries the values the message prints.
\<close>

named_theorems share_defs \<open>Unfolds the operations on shares\<close>

section \<open>Limits\<close>

definition DEFAULT_MAX_SERVERS :: nat where
  "DEFAULT_MAX_SERVERS = 3"

definition MAC_DISK_GB :: nat where
  "MAC_DISK_GB = 20"

definition DEFAULT_DISK_GB :: nat where
  "DEFAULT_DISK_GB = 40"

definition PENDING_SECS :: int where
  "PENDING_SECS = 600"

definition MAX_QUOTES :: nat where
  "MAX_QUOTES = 4"

record ShareLimits =
  l_weight :: nat
  l_top_class :: JobClass
  l_gate :: bool
  l_exclusive :: bool
  l_max_running :: nat
  l_max_queued :: nat
  l_cpu_hours_day :: nat
  l_max_job_secs :: nat
  l_max_cpus :: nat
  l_max_mem_gb :: nat
  l_disk_gb :: nat
  l_network :: Network

definition new_server :: "Trust \<Rightarrow> bool \<Rightarrow> ShareLimits" where
  "new_server trust macos =
     \<lparr> l_weight = 1, l_top_class = Class_Interactive, l_gate = False, l_exclusive = False,
       l_max_running = 1, l_max_queued = 10, l_cpu_hours_day = 8, l_max_job_secs = 7200,
       l_max_cpus = 4, l_max_mem_gb = 8,
       l_disk_gb = (if macos then MAC_DISK_GB else DEFAULT_DISK_GB),
       l_network = (case (trust, macos) of
          (Trust_Own, _) \<Rightarrow> Net_On
        | (Trust_Team, False) \<Rightarrow> Net_NoLan
        | (Trust_Team, True) \<Rightarrow> Net_None) \<rparr>"

definition owner_limits :: "nat \<Rightarrow> nat \<Rightarrow> nat \<Rightarrow> nat \<Rightarrow> Network \<Rightarrow> ShareLimits" where
  "owner_limits max_running max_cpus max_mem_gb disk_gb network =
     \<lparr> l_weight = 1, l_top_class = Class_Gate, l_gate = True, l_exclusive = True,
       l_max_running = max_running, l_max_queued = 1000, l_cpu_hours_day = 24 * 1024,
       l_max_job_secs = 7 * 24 * 3600, l_max_cpus = max_cpus, l_max_mem_gb = max_mem_gb,
       l_disk_gb = disk_gb, l_network = network \<rparr>"

definition allows_class :: "ShareLimits \<Rightarrow> JobClass \<Rightarrow> bool" where
  "allows_class l c =
     (case c of Class_Gate \<Rightarrow> l_gate l \<and> l_top_class l = Class_Gate | _ \<Rightarrow> c \<le> l_top_class l)"

text \<open>\<open>OutOfRange name v lo hi\<close> is the message ``name is lo-hi, got v''.\<close>

datatype limits_error = OutOfRange string nat nat nat | GateNeedsTopClass

definition check_range :: "string \<Rightarrow> nat \<Rightarrow> nat \<Rightarrow> nat \<Rightarrow> limits_error option" where
  "check_range name v lo hi = (if lo \<le> v \<and> v \<le> hi then None else Some (OutOfRange name v lo hi))"

text \<open>A \<open>?\<close> chain of checks: the first error wins.\<close>

fun first_error :: "'e option list \<Rightarrow> 'e option" where
  "first_error [] = None"
| "first_error (Some e # es) = Some e"
| "first_error (None # es) = first_error es"

definition limits_validate :: "ShareLimits \<Rightarrow> limits_error option" where
  "limits_validate l = first_error
     [check_range ''weight'' (l_weight l) 1 100,
      check_range ''max_running'' (l_max_running l) 1 64,
      check_range ''max_queued'' (l_max_queued l) 1 1000,
      check_range ''cpu_hours_day'' (l_cpu_hours_day l) 1 (24 * 1024),
      check_range ''max_job_secs'' (l_max_job_secs l) 60 (7 * 24 * 3600),
      check_range ''max_cpus'' (l_max_cpus l) 1 1024,
      check_range ''max_mem_gb'' (l_max_mem_gb l) 1 4096,
      check_range ''disk_gb'' (l_disk_gb l) 1 65536,
      (if l_gate l \<and> l_top_class l \<noteq> Class_Gate then Some GateNeedsTopClass else None)]"

definition more_field :: "string \<Rightarrow> nat \<Rightarrow> nat \<Rightarrow> string list" where
  "more_field name v_now v_before = (if v_before < v_now then [name] else [])"

definition widens :: "ShareLimits \<Rightarrow> ShareLimits \<Rightarrow> string list" where
  "widens l from0 =
     more_field ''weight'' (l_weight l) (l_weight from0)
     @ more_field ''top_class'' (class_rank (l_top_class l)) (class_rank (l_top_class from0))
     @ more_field ''gate'' (of_bool (l_gate l)) (of_bool (l_gate from0))
     @ more_field ''exclusive'' (of_bool (l_exclusive l)) (of_bool (l_exclusive from0))
     @ more_field ''max_running'' (l_max_running l) (l_max_running from0)
     @ more_field ''max_queued'' (l_max_queued l) (l_max_queued from0)
     @ more_field ''cpu_hours_day'' (l_cpu_hours_day l) (l_cpu_hours_day from0)
     @ more_field ''max_job_secs'' (l_max_job_secs l) (l_max_job_secs from0)
     @ more_field ''max_cpus'' (l_max_cpus l) (l_max_cpus from0)
     @ more_field ''max_mem_gb'' (l_max_mem_gb l) (l_max_mem_gb from0)
     @ more_field ''disk_gb'' (l_disk_gb l) (l_disk_gb from0)
     @ more_field ''network'' (network_rank (l_network l)) (network_rank (l_network from0))"

section \<open>Overrides\<close>

record ShareOverrides =
  o_weight :: "nat option"
  o_top_class :: "JobClass option"
  o_gate :: "bool option"
  o_exclusive :: "bool option"
  o_max_running :: "nat option"
  o_max_queued :: "nat option"
  o_cpu_hours_day :: "nat option"
  o_max_job_secs :: "nat option"
  o_max_cpus :: "nat option"
  o_max_mem_gb :: "nat option"
  o_disk_gb :: "nat option"
  o_network :: "Network option"

definition no_overrides :: ShareOverrides where
  "no_overrides = \<lparr> o_weight = None, o_top_class = None, o_gate = None, o_exclusive = None,
     o_max_running = None, o_max_queued = None, o_cpu_hours_day = None, o_max_job_secs = None,
     o_max_cpus = None, o_max_mem_gb = None, o_disk_gb = None, o_network = None \<rparr>"

definition overrides_is_empty :: "ShareOverrides \<Rightarrow> bool" where
  "overrides_is_empty v \<longleftrightarrow> v = no_overrides"

definition check_range_opt :: "string \<Rightarrow> nat option \<Rightarrow> nat \<Rightarrow> nat \<Rightarrow> limits_error option" where
  "check_range_opt name v lo hi = (case v of None \<Rightarrow> None | Some x \<Rightarrow> check_range name x lo hi)"

definition check_ranges :: "ShareOverrides \<Rightarrow> limits_error option" where
  "check_ranges v = first_error
     [check_range_opt ''weight'' (o_weight v) 1 100,
      check_range_opt ''max_running'' (o_max_running v) 1 64,
      check_range_opt ''max_queued'' (o_max_queued v) 1 1000,
      check_range_opt ''cpu_hours_day'' (o_cpu_hours_day v) 1 (24 * 1024),
      check_range_opt ''max_job_secs'' (o_max_job_secs v) 60 (7 * 24 * 3600),
      check_range_opt ''max_cpus'' (o_max_cpus v) 1 1024,
      check_range_opt ''max_mem_gb'' (o_max_mem_gb v) 1 4096,
      check_range_opt ''disk_gb'' (o_disk_gb v) 1 65536]"

definition overrides_apply :: "ShareOverrides \<Rightarrow> ShareLimits \<Rightarrow> ShareLimits" where
  "overrides_apply v base =
     \<lparr> l_weight = unwrap_or (o_weight v) (l_weight base),
       l_top_class = unwrap_or (o_top_class v) (l_top_class base),
       l_gate = unwrap_or (o_gate v) (l_gate base),
       l_exclusive = unwrap_or (o_exclusive v) (l_exclusive base),
       l_max_running = unwrap_or (o_max_running v) (l_max_running base),
       l_max_queued = unwrap_or (o_max_queued v) (l_max_queued base),
       l_cpu_hours_day = unwrap_or (o_cpu_hours_day v) (l_cpu_hours_day base),
       l_max_job_secs = unwrap_or (o_max_job_secs v) (l_max_job_secs base),
       l_max_cpus = unwrap_or (o_max_cpus v) (l_max_cpus base),
       l_max_mem_gb = unwrap_or (o_max_mem_gb v) (l_max_mem_gb base),
       l_disk_gb = unwrap_or (o_disk_gb v) (l_disk_gb base),
       l_network = unwrap_or (o_network v) (l_network base) \<rparr>"

section \<open>Lines of \<open>servers.toml\<close>\<close>

definition SERVERS_FILE_VERSION :: nat where
  "SERVERS_FILE_VERSION = 1"

record ServerEntry =
  e_fp_prefix :: string
  e_label :: string
  e_state :: ShareState
  e_trust :: Trust
  e_slot :: Slot
  e_uid :: "nat option"
  e_weight :: nat
  e_top_class :: JobClass
  e_gate :: bool
  e_exclusive :: bool
  e_max_running :: nat
  e_max_queued :: nat
  e_cpu_hours_day :: nat
  e_max_job_secs :: nat
  e_max_cpus :: nat
  e_max_mem_gb :: nat
  e_disk_gb :: nat
  e_network :: Network
  e_expires_at :: "int option"
  e_pending_until :: int
  e_added_at :: int
  e_added_by :: string

definition entry_limits :: "ServerEntry \<Rightarrow> ShareLimits" where
  "entry_limits e =
     \<lparr> l_weight = e_weight e, l_top_class = e_top_class e, l_gate = e_gate e,
       l_exclusive = e_exclusive e, l_max_running = e_max_running e, l_max_queued = e_max_queued e,
       l_cpu_hours_day = e_cpu_hours_day e, l_max_job_secs = e_max_job_secs e,
       l_max_cpus = e_max_cpus e, l_max_mem_gb = e_max_mem_gb e, l_disk_gb = e_disk_gb e,
       l_network = e_network e \<rparr>"

definition set_limits :: "ServerEntry \<Rightarrow> ShareLimits \<Rightarrow> ServerEntry" where
  "set_limits e l = e
     \<lparr> e_weight := l_weight l, e_top_class := l_top_class l, e_gate := l_gate l,
       e_exclusive := l_exclusive l, e_max_running := l_max_running l,
       e_max_queued := l_max_queued l, e_cpu_hours_day := l_cpu_hours_day l,
       e_max_job_secs := l_max_job_secs l, e_max_cpus := l_max_cpus l,
       e_max_mem_gb := l_max_mem_gb l, e_disk_gb := l_disk_gb l, e_network := l_network l \<rparr>"

definition status :: "ServerEntry \<Rightarrow> int \<Rightarrow> ServerStatus" where
  "status e now =
     (if e_state e = SS_Revoked then St_Revoked
      else if (case e_expires_at e of Some x \<Rightarrow> now \<ge> x | None \<Rightarrow> False) then St_Expired
      else case e_state e of
        SS_Pending \<Rightarrow> if now \<ge> e_pending_until e then St_Expired else St_Pending
      | SS_Paused \<Rightarrow> St_Paused
      | _ \<Rightarrow> St_Active)"

definition usable :: "ServerEntry \<Rightarrow> int \<Rightarrow> bool" where
  "usable e now \<longleftrightarrow> status e now = St_Active"

definition may_attach :: "ServerEntry \<Rightarrow> int \<Rightarrow> bool" where
  "may_attach e now \<longleftrightarrow> status e now \<in> {St_Active, St_Paused, St_Pending}"

definition matches_fp :: "ServerEntry \<Rightarrow> string \<Rightarrow> bool" where
  "matches_fp e fp \<longleftrightarrow> e_fp_prefix e \<noteq> [] \<and> length fp = 64 \<and> starts_with fp (e_fp_prefix e)"

definition valid_label :: "string \<Rightarrow> bool" where
  "valid_label label \<longleftrightarrow> 1 \<le> length label \<and> length label \<le> 64
     \<and> list_all (\<lambda>c. is_ascii_alphanumeric c \<or> c \<in> set ''-_.'') label"

definition lower_hex :: "string \<Rightarrow> bool" where
  "lower_hex s \<longleftrightarrow> list_all (\<lambda>b. is_ascii_digit b \<or> (97 \<le> byte b \<and> byte b \<le> 102)) s"

definition valid_fp_prefix :: "string \<Rightarrow> bool" where
  "valid_fp_prefix s \<longleftrightarrow> length s = 16 \<and> lower_hex s"

definition valid_fp :: "string \<Rightarrow> bool" where
  "valid_fp s \<longleftrightarrow> length s = 64 \<and> lower_hex s"

section \<open>\<open>servers.toml\<close>\<close>

record ServersFile =
  sf_version :: nat
  sf_owner :: string
  sf_max_servers :: nat
  sf_servers :: "ServerEntry list"

definition ServersFile_new :: "string \<Rightarrow> string \<Rightarrow> ShareLimits \<Rightarrow> nat \<Rightarrow> int \<Rightarrow> string \<Rightarrow> ServersFile" where
  "ServersFile_new owner_fp owner_label owner max_servers now by0 =
     (let e = \<lparr> e_fp_prefix = owner_fp, e_label = owner_label, e_state = SS_Active,
                e_trust = Trust_Own, e_slot = OWNER_SLOT, e_uid = None, e_weight = 0,
                e_top_class = Class_Gate, e_gate = True, e_exclusive = True, e_max_running = 0,
                e_max_queued = 0, e_cpu_hours_day = 0, e_max_job_secs = 0, e_max_cpus = 0,
                e_max_mem_gb = 0, e_disk_gb = 0, e_network = Net_On, e_expires_at = None,
                e_pending_until = 0, e_added_at = now, e_added_by = by0 \<rparr>
      in \<lparr> sf_version = SERVERS_FILE_VERSION, sf_owner = owner_fp, sf_max_servers = max_servers,
           sf_servers = [set_limits e owner] \<rparr>)"

definition entry :: "ServersFile \<Rightarrow> Slot \<Rightarrow> ServerEntry option" where
  "entry f slot = find (\<lambda>e. e_slot e = slot) (sf_servers f)"

definition by_label :: "ServersFile \<Rightarrow> string \<Rightarrow> ServerEntry option" where
  "by_label f label = find (\<lambda>e. e_label e = label \<and> e_state e \<noteq> SS_Revoked) (sf_servers f)"

definition slot_arg :: "string \<Rightarrow> Slot option" where
  "slot_arg server = Option.bind (strip_prefix ''slot:'' server) (parse_unsigned 255)"

definition find_server :: "ServersFile \<Rightarrow> string \<Rightarrow> ServerEntry option" where
  "find_server f server =
     (case slot_arg server of
        Some n \<Rightarrow> entry f n
      | None \<Rightarrow> or_else (by_label f server)
          (max_by_key e_added_at
            (filter (\<lambda>e. e_label e = server \<and> e_state e = SS_Revoked) (sf_servers f))))"

definition live_pending :: "ServersFile \<Rightarrow> int \<Rightarrow> ServerEntry option" where
  "live_pending f now = find (\<lambda>e. status e now = St_Pending) (sf_servers f)"

definition active_count :: "ServersFile \<Rightarrow> int \<Rightarrow> nat" where
  "active_count f now = length (filter (\<lambda>e. status e now \<in> {St_Active, St_Paused}) (sf_servers f))"

definition shared :: "ServersFile \<Rightarrow> int \<Rightarrow> bool" where
  "shared f now \<longleftrightarrow> active_count f now \<ge> 2"

definition free_slot :: "ServersFile \<Rightarrow> Slot option" where
  "free_slot f = find (\<lambda>s. entry f s = None) [1..<MAX_SLOTS]"

datatype file_error =
    BadVersion nat
  | OwnerNotFp
  | MaxServersRange nat
  | SlotOutOfRange string nat
  | SlotTwice nat
  | BadLabel string
  | OwnerLineMismatch
  | BadFpPrefix string
  | LineLimits string limits_error
  | NoOwnerLine
  | ManyPending

text \<open>The loop over the lines; \<open>seen\<close> is the array of the slots met so far.\<close>

fun check_lines :: "ServersFile \<Rightarrow> bool list \<Rightarrow> ServerEntry list \<Rightarrow> file_error option" where
  "check_lines f seen [] = None"
| "check_lines f seen (e # es) =
     (if \<not> valid_slot (e_slot e) then Some (SlotOutOfRange (e_label e) (e_slot e))
      else if seen ! e_slot e then Some (SlotTwice (e_slot e))
      else if \<not> valid_label (e_label e) then Some (BadLabel (e_label e))
      else if e_slot e = OWNER_SLOT \<and> (e_fp_prefix e \<noteq> sf_owner f \<or> e_trust e \<noteq> Trust_Own)
        then Some OwnerLineMismatch
      else if e_slot e \<noteq> OWNER_SLOT \<and> \<not> valid_fp_prefix (e_fp_prefix e)
        then Some (BadFpPrefix (e_label e))
      else case limits_validate (entry_limits e) of
        Some m \<Rightarrow> Some (LineLimits (e_label e) m)
      | None \<Rightarrow> check_lines f (seen[e_slot e := True]) es)"

definition file_validate :: "ServersFile \<Rightarrow> file_error option" where
  "file_validate f =
     (if sf_version f \<noteq> SERVERS_FILE_VERSION then Some (BadVersion (sf_version f))
      else if length (sf_owner f) \<noteq> 64 \<or> \<not> lower_hex (sf_owner f) then Some OwnerNotFp
      else if \<not> (1 \<le> sf_max_servers f \<and> sf_max_servers f \<le> MAX_SLOTS)
        then Some (MaxServersRange (sf_max_servers f))
      else case check_lines f (replicate MAX_SLOTS False) (sf_servers f) of
        Some m \<Rightarrow> Some m
      | None \<Rightarrow>
          if entry f OWNER_SLOT = None then Some NoOwnerLine
          else if length (filter (\<lambda>e. e_state e = SS_Pending) (sf_servers f)) > 1 then Some ManyPending
          else None)"

section \<open>Facts on limits\<close>

lemma first_error_None [simp]: "first_error es = None \<longleftrightarrow> (\<forall>e \<in> set es. e = None)"
  by (induction es rule: first_error.induct) auto

lemma check_range_None [simp]: "check_range n v lo hi = None \<longleftrightarrow> lo \<le> v \<and> v \<le> hi"
  by (simp add: check_range_def)

lemma check_range_opt_None [simp]:
  "check_range_opt n v lo hi = None \<longleftrightarrow> (\<forall>x. v = Some x \<longrightarrow> lo \<le> x \<and> x \<le> hi)"
  by (auto simp: check_range_opt_def split: option.splits)

lemma more_field_Nil [simp]: "more_field n a b = [] \<longleftrightarrow> a \<le> b"
  by (simp add: more_field_def not_less)

text \<open>The order of the shares: one gives at most what the other gives, field by field.\<close>

definition limits_le :: "ShareLimits \<Rightarrow> ShareLimits \<Rightarrow> bool" where
  "limits_le a b \<longleftrightarrow> l_weight a \<le> l_weight b \<and> l_top_class a \<le> l_top_class b
     \<and> (l_gate a \<longrightarrow> l_gate b) \<and> (l_exclusive a \<longrightarrow> l_exclusive b)
     \<and> l_max_running a \<le> l_max_running b \<and> l_max_queued a \<le> l_max_queued b
     \<and> l_cpu_hours_day a \<le> l_cpu_hours_day b \<and> l_max_job_secs a \<le> l_max_job_secs b
     \<and> l_max_cpus a \<le> l_max_cpus b \<and> l_max_mem_gb a \<le> l_max_mem_gb b
     \<and> l_disk_gb a \<le> l_disk_gb b \<and> l_network a \<le> l_network b"

lemma widens_Nil_iff: "widens l from0 = [] \<longleftrightarrow> limits_le l from0"
  by (auto simp: widens_def limits_le_def enum_ord of_bool_def)

lemma limits_le_refl [simp]: "limits_le l l"
  by (simp add: limits_le_def)

lemma limits_le_trans: "limits_le a b \<Longrightarrow> limits_le b c \<Longrightarrow> limits_le a c"
  by (auto simp: limits_le_def)

lemma limits_le_antisym: "limits_le a b \<Longrightarrow> limits_le b a \<Longrightarrow> a = b"
  by (cases a; cases b) (auto simp: limits_le_def)

lemma class_rank_ge_2 [simp]: "2 \<le> class_rank c \<longleftrightarrow> c = Class_Gate"
  by (cases c) simp_all

lemma allows_class_mono:
  assumes "limits_le a b" "allows_class a c"
  shows "allows_class b c"
proof -
  have t: "l_top_class a \<le> l_top_class b" and g: "l_gate a \<longrightarrow> l_gate b"
    using assms(1) by (simp_all add: limits_le_def)
  show ?thesis using assms(2) g t by (cases c) (auto simp: allows_class_def enum_ord)
qed

lemma limits_entry_set [simp]: "entry_limits (set_limits e l) = l"
  by (cases l) (simp add: entry_limits_def set_limits_def)

lemma set_limits_entry [simp]: "set_limits e (entry_limits e) = e"
  by (cases e) (simp add: entry_limits_def set_limits_def)

lemma overrides_apply_none [simp]: "overrides_apply no_overrides base = base"
  by (cases base) (simp add: overrides_apply_def no_overrides_def)

section \<open>Facts on \<open>servers.toml\<close>\<close>

definition line_ok :: "ServersFile \<Rightarrow> ServerEntry \<Rightarrow> bool" where
  "line_ok f e \<longleftrightarrow> valid_slot (e_slot e) \<and> valid_label (e_label e)
     \<and> (if e_slot e = OWNER_SLOT then e_fp_prefix e = sf_owner f \<and> e_trust e = Trust_Own
        else valid_fp_prefix (e_fp_prefix e))
     \<and> limits_validate (entry_limits e) = None"

lemma check_lines_None_iff:
  "length seen = MAX_SLOTS \<Longrightarrow>
   check_lines f seen es = None \<longleftrightarrow>
     (\<forall>e \<in> set es. line_ok f e \<and> \<not> seen ! e_slot e) \<and> distinct (map e_slot es)"
proof (induction es arbitrary: seen)
  case Nil
  then show ?case by simp
next
  case (Cons e es)
  show ?case
  proof (cases "line_ok f e \<and> \<not> seen ! e_slot e")
    case True
    then have lt: "e_slot e < length seen"
      using Cons.prems by (simp add: line_ok_def valid_slot_def)
    have "check_lines f seen (e # es) = check_lines f (seen[e_slot e := True]) es"
      using True by (auto simp: line_ok_def split: if_splits)
    also have "\<dots> = None \<longleftrightarrow>
        (\<forall>x \<in> set es. line_ok f x \<and> \<not> seen[e_slot e := True] ! e_slot x) \<and> distinct (map e_slot es)"
      using Cons.prems by (intro Cons.IH) simp
    also have "\<dots> \<longleftrightarrow> (\<forall>x \<in> set (e # es). line_ok f x \<and> \<not> seen ! e_slot x)
        \<and> distinct (map e_slot (e # es))"
      using True lt by (auto simp: nth_list_update split: if_splits)
    finally show ?thesis .
  next
    case False
    then have "check_lines f seen (e # es) \<noteq> None"
      by (auto simp: line_ok_def split: option.splits if_splits)
    then show ?thesis using False by auto
  qed
qed

lemma entry_None_iff: "entry f s = None \<longleftrightarrow> s \<notin> e_slot ` set (sf_servers f)"
  by (auto simp: entry_def find_None_iff)

lemma entry_Some: "entry f s = Some e \<Longrightarrow> e \<in> set (sf_servers f) \<and> e_slot e = s"
  by (auto simp: entry_def dest: find_Some_iff')

lemma find_Some_ex: "find P xs = Some x \<Longrightarrow> x \<in> set xs \<and> P x"
  by (auto dest: find_Some_iff')

lemma free_slot_Some: "free_slot f = Some s \<Longrightarrow> 1 \<le> s \<and> s < MAX_SLOTS \<and> entry f s = None"
  by (auto simp: free_slot_def dest!: find_Some_ex)

lemma free_slot_None: "free_slot f = None \<longleftrightarrow> (\<forall>s. 1 \<le> s \<and> s < MAX_SLOTS \<longrightarrow> entry f s \<noteq> None)"
  by (auto simp: free_slot_def find_None_iff)

definition servers_file_ok :: "ServersFile \<Rightarrow> bool" where
  "servers_file_ok f \<longleftrightarrow> sf_version f = 1 \<and> valid_fp (sf_owner f)
     \<and> 1 \<le> sf_max_servers f \<and> sf_max_servers f \<le> 8
     \<and> (\<forall>e \<in> set (sf_servers f). line_ok f e) \<and> distinct (map e_slot (sf_servers f))
     \<and> (\<exists>e \<in> set (sf_servers f). e_slot e = 0)
     \<and> length (filter (\<lambda>e. e_state e = SS_Pending) (sf_servers f)) \<le> 1"

lemma file_validate_None: "file_validate f = None \<longleftrightarrow> servers_file_ok f"
proof -
  have seen: "\<not> replicate MAX_SLOTS False ! e_slot e" if "line_ok f e" for e
    using that by (simp add: line_ok_def valid_slot_def)
  have cl: "check_lines f (replicate MAX_SLOTS False) (sf_servers f) = None \<longleftrightarrow>
      (\<forall>e \<in> set (sf_servers f). line_ok f e) \<and> distinct (map e_slot (sf_servers f))"
    by (auto simp: check_lines_None_iff seen)
  have ow: "entry f OWNER_SLOT = None \<longleftrightarrow> \<not> (\<exists>e \<in> set (sf_servers f). e_slot e = 0)"
    by (auto simp: entry_None_iff OWNER_SLOT_def)
  show ?thesis
  proof (cases "check_lines f (replicate MAX_SLOTS False) (sf_servers f) = None")
    case True
    then show ?thesis
      unfolding file_validate_def servers_file_ok_def cl [symmetric]
      by (simp add: ow valid_fp_def SERVERS_FILE_VERSION_def MAX_SLOTS_def not_less)
        (use cl True in blast)
  next
    case False
    then have "file_validate f \<noteq> None" by (auto simp: file_validate_def)
    with False cl show ?thesis by (auto simp: servers_file_ok_def)
  qed
qed

lemma slots_le_8: "distinct ss \<Longrightarrow> \<forall>s \<in> set ss. s < (8::nat) \<Longrightarrow> length ss \<le> 8"
proof -
  assume d: "distinct ss" and b: "\<forall>s \<in> set ss. s < (8::nat)"
  have "card (set ss) \<le> card {..<8::nat}" using b by (intro card_mono) auto
  then show ?thesis by (simp add: distinct_card [OF d])
qed

end
