(* ===== verification/BTree.thy ===== *)
theory BTree
  imports K2_Prelude
begin

text \<open>
  \<open>std::collections::BTreeMap\<close> as the sources use it: key lookup, insertion, removal and
  iteration in key order. The model keeps the entries as an association list sorted by key,
  so that a \<open>for\<close> loop over the map visits the entries in the order the code does. The
  interface the components rely on is the locale \<open>ordered_map\<close>; the components use the
  facts of its interpretation \<open>bt\<close> on the sorted lists.
\<close>

type_synonym ('k, 'v) btree = "('k \<times> 'v) list"

definition bt_get :: "('k, 'v) btree \<Rightarrow> 'k \<Rightarrow> 'v option" where
  "bt_get m k = map_of m k"

fun bt_insert :: "'k::linorder \<Rightarrow> 'v \<Rightarrow> ('k, 'v) btree \<Rightarrow> ('k, 'v) btree" where
  "bt_insert k v [] = [(k, v)]"
| "bt_insert k v ((k', v') # m) =
     (if k < k' then (k, v) # (k', v') # m
      else if k = k' then (k, v) # m
      else (k', v') # bt_insert k v m)"

definition bt_remove :: "'k \<Rightarrow> ('k, 'v) btree \<Rightarrow> ('k, 'v) btree" where
  "bt_remove k m = filter (\<lambda>e. fst e \<noteq> k) m"

definition bt_keys :: "('k, 'v) btree \<Rightarrow> 'k list" where
  "bt_keys m = map fst m"

definition bt_inv :: "('k::linorder, 'v) btree \<Rightarrow> bool" where
  "bt_inv m \<longleftrightarrow> sorted_wrt (<) (bt_keys m)"

section \<open>The interface\<close>

locale ordered_map =
  fixes get :: "'m \<Rightarrow> 'k::linorder \<Rightarrow> 'v option"
    and ins :: "'k \<Rightarrow> 'v \<Rightarrow> 'm \<Rightarrow> 'm"
    and rem :: "'k \<Rightarrow> 'm \<Rightarrow> 'm"
    and ks :: "'m \<Rightarrow> 'k list"
    and emp :: "'m"
    and invar :: "'m \<Rightarrow> bool"
  assumes get_emp: "get emp k = None"
    and get_ins: "invar m \<Longrightarrow> get (ins k v m) k' = (if k' = k then Some v else get m k')"
    and get_rem: "invar m \<Longrightarrow> get (rem k m) k' = (if k' = k then None else get m k')"
    and ks_get: "invar m \<Longrightarrow> k \<in> set (ks m) \<longleftrightarrow> get m k \<noteq> None"
    and ks_sorted: "invar m \<Longrightarrow> sorted_wrt (<) (ks m)"
    and invar_emp: "invar emp"
    and invar_ins: "invar m \<Longrightarrow> invar (ins k v m)"
    and invar_rem: "invar m \<Longrightarrow> invar (rem k m)"
begin

lemma get_ins_same: "invar m \<Longrightarrow> get (ins k v m) k = Some v"
  by (simp add: get_ins)

lemma get_ins_other: "invar m \<Longrightarrow> k' \<noteq> k \<Longrightarrow> get (ins k v m) k' = get m k'"
  by (simp add: get_ins)

lemma keys_ins: "invar m \<Longrightarrow> set (ks (ins k v m)) = insert k (set (ks m))"
  by (auto simp: ks_get get_ins invar_ins split: if_splits)

lemma keys_rem: "invar m \<Longrightarrow> set (ks (rem k m)) = set (ks m) - {k}"
  by (auto simp: ks_get get_rem invar_rem split: if_splits)

lemma keys_distinct: "invar m \<Longrightarrow> distinct (ks m)"
  using ks_sorted strict_sorted_iff by auto

lemma ins_overwrites: "invar m \<Longrightarrow> get (ins k w (ins k v m)) k' = get (ins k w m) k'"
  by (simp add: get_ins invar_ins)

lemma ins_commute: "invar m \<Longrightarrow> k \<noteq> l \<Longrightarrow> get (ins k v (ins l w m)) x = get (ins l w (ins k v m)) x"
  by (simp add: get_ins invar_ins)

lemma fold_ins_invar: "invar m \<Longrightarrow> invar (fold (\<lambda>(k, v). ins k v) es m)"
  by (induction es arbitrary: m) (auto simp: invar_ins)

lemma fold_ins_other:
  "invar m \<Longrightarrow> k \<notin> fst ` set es \<Longrightarrow> get (fold (\<lambda>(k, v). ins k v) es m) k = get m k"
  by (induction es arbitrary: m) (auto simp: invar_ins get_ins)

end

section \<open>The sorted association list provides it\<close>

lemma set_bt_insert_keys: "fst ` set (bt_insert k v m) = insert k (fst ` set m)"
  by (induction k v m rule: bt_insert.induct) auto

lemma bt_inv_Nil [simp]: "bt_inv []"
  by (simp add: bt_inv_def bt_keys_def)

lemma bt_inv_Cons: "bt_inv ((k, v) # m) \<longleftrightarrow> (\<forall>k' \<in> fst ` set m. k < k') \<and> bt_inv m"
  by (auto simp: bt_inv_def bt_keys_def)

lemma bt_get_insert: "bt_get (bt_insert k v m) k' = (if k' = k then Some v else bt_get m k')"
  by (induction k v m rule: bt_insert.induct) (auto simp: bt_get_def)

lemma bt_get_remove: "bt_get (bt_remove k m) k' = (if k' = k then None else bt_get m k')"
  by (induction m) (auto simp: bt_get_def bt_remove_def)

lemma bt_inv_insert: "bt_inv m \<Longrightarrow> bt_inv (bt_insert k v m)"
  by (induction k v m rule: bt_insert.induct)
    (auto simp: bt_inv_Cons set_bt_insert_keys dest: less_trans)

lemma bt_inv_remove: "bt_inv m \<Longrightarrow> bt_inv (bt_remove k m)"
  by (induction m) (auto simp: bt_inv_def bt_keys_def bt_remove_def)

interpretation bt: ordered_map bt_get bt_insert bt_remove bt_keys "[]" bt_inv
proof (unfold_locales, goal_cases)
  case (1 k) show ?case by (simp add: bt_get_def)
next
  case (2 m k v k') show ?case by (rule bt_get_insert)
next
  case (3 m k k') show ?case by (rule bt_get_remove)
next
  case (4 m k) show ?case by (simp add: bt_get_def bt_keys_def map_of_eq_None_iff)
next
  case (5 m) then show ?case by (simp add: bt_inv_def)
next
  case 6 show ?case by simp
next
  case (7 m k v) then show ?case by (rule bt_inv_insert)
next
  case (8 m k) then show ?case by (rule bt_inv_remove)
qed

lemmas bt_simps [simp] = bt_get_insert bt_get_remove bt_inv_insert bt_inv_remove

lemma bt_get_in: "bt_get m k = Some v \<Longrightarrow> (k, v) \<in> set m"
  by (simp add: bt_get_def map_of_SomeD)

lemma bt_get_eq: "bt_inv m \<Longrightarrow> (k, v) \<in> set m \<Longrightarrow> bt_get m k = Some v"
  using bt.keys_distinct [of m] by (auto simp: bt_get_def bt_keys_def)

section \<open>Maps of lists\<close>

abbreviation bt_concat :: "('k, 'v list) btree \<Rightarrow> 'v list" where
  "bt_concat m \<equiv> concat (map snd m)"

lemma bt_remove_absent: "k \<notin> fst ` set m \<Longrightarrow> bt_remove k m = m"
  by (induction m) (auto simp: bt_remove_def)

lemma bt_inv_hd_absent: "bt_inv ((k, v) # m) \<Longrightarrow> k \<notin> fst ` set m"
  by (auto simp: bt_inv_Cons)

lemma mset_bt_insert:
  "bt_inv m \<Longrightarrow> mset (bt_concat (bt_insert k l m)) = mset l + mset (bt_concat (bt_remove k m))"
proof (induction k l m rule: bt_insert.induct)
  case (1 k v)
  then show ?case by (simp add: bt_remove_def)
next
  case (2 k v k' v' m)
  have inv: "bt_inv m" "\<forall>x \<in> fst ` set m. k' < x" using 2(2) by (auto simp: bt_inv_Cons)
  show ?case
  proof (cases k k' rule: linorder_cases)
    case less
    then have "k \<notin> fst ` set ((k', v') # m)" using inv(2) by (auto dest: less_trans)
    then show ?thesis using less by (simp add: bt_remove_absent)
  next
    case equal
    then have "k \<notin> fst ` set m" using inv(2) by auto
    then show ?thesis using equal bt_remove_absent [of k m] by (simp add: bt_remove_def)
  next
    case greater
    then show ?thesis using 2(1) inv(1) by (simp add: bt_remove_def)
  qed
qed

lemma mset_bt_get:
  "bt_inv m \<Longrightarrow> bt_get m k = Some l \<Longrightarrow> mset (bt_concat m) = mset l + mset (bt_concat (bt_remove k m))"
proof (induction m)
  case Nil
  then show ?case by (simp add: bt_get_def)
next
  case (Cons e m)
  obtain k' v' where e: "e = (k', v')" by force
  show ?case
  proof (cases "k = k'")
    case True
    then have "k \<notin> fst ` set m" using bt_inv_hd_absent [of k' v' m] Cons.prems(1) e by simp
    then show ?thesis using Cons.prems(2) e True bt_remove_absent [of k m]
      by (simp add: bt_get_def bt_remove_def)
  next
    case False
    then show ?thesis using Cons e by (simp add: bt_get_def bt_remove_def bt_inv_Cons)
  qed
qed

lemma bt_mem: "bt_inv m \<Longrightarrow> e \<in> set m \<longleftrightarrow> bt_get m (fst e) = Some (snd e)"
  by (metis bt_get_eq bt_get_in prod.collapse)

lemma set_bt_insert:
  assumes "bt_inv m"
  shows "e \<in> set (bt_insert k v m) \<longleftrightarrow> e = (k, v) \<or> (fst e \<noteq> k \<and> e \<in> set m)"
  unfolding bt_mem [OF bt_inv_insert [OF assms]] bt_mem [OF assms] bt_get_insert
  by (cases e) auto

lemma set_bt_remove: "e \<in> set (bt_remove k m) \<longleftrightarrow> fst e \<noteq> k \<and> e \<in> set m"
  by (auto simp: bt_remove_def)

end
