(* ===== verification/Queue_Defs.thy ===== *)
theory Queue_Defs
  imports Share BTree
begin

text \<open>
  \<open>queue.rs\<close>, the data and the order: one fair queue per node over every server (tenant) it
  serves. A snapshot (\<open>Input\<close>) holds the tenants, the running jobs, the queued jobs and the
  rotation; \<open>order\<close> gives the start order as indices into the queued jobs. The
  \<open>expect\<close>s of the code are \<open>None\<close>, and the \<open>while\<close> loop is a partial
  function, so that ``the order exists'' is something to prove.
\<close>

named_theorems queue_defs \<open>Unfolds the small readers of the queue model\<close>

section \<open>Data\<close>

record Config =
  c_half_life_secs :: int
  c_aging_secs :: int
  c_backfill_hold_secs :: int
  c_default_est_secs :: nat
  c_one_uid :: bool

definition Config_default :: Config where
  "Config_default = \<lparr> c_half_life_secs = 24 * 3600, c_aging_secs = AGE_SECS,
     c_backfill_hold_secs = 20 * 60, c_default_est_secs = 600, c_one_uid = False \<rparr>"

definition isolation_blocks :: "bool \<Rightarrow> Slot \<Rightarrow> string \<Rightarrow> bool \<Rightarrow> (Slot \<times> string \<times> bool) list \<Rightarrow> bool" where
  "isolation_blocks one_uid slot ws secret running \<longleftrightarrow>
     list_ex (\<lambda>(s, w, sec). (one_uid \<or> s = slot) \<and> w \<noteq> ws \<and> (secret \<or> sec)) running"

definition LINGER_JOB_PREFIX :: string where
  "LINGER_JOB_PREFIX = ''lingering:''"

record Caps =
  cap_cpu_millis :: nat
  cap_mem_bytes :: nat
  cap_parallel_max :: nat
  cap_blocked :: "string option"

definition default_cpu :: "Caps \<Rightarrow> nat" where
  "default_cpu c = cap_cpu_millis c div max (cap_parallel_max c) 1"

definition default_mem :: "Caps \<Rightarrow> nat" where
  "default_mem c = cap_mem_bytes c div max (cap_parallel_max c) 1"

record Tenant =
  t_slot :: Slot
  t_limits :: ShareLimits
  t_usage :: nat
  t_cpu_secs_today :: nat
  t_blocked :: "string option"
  t_priority :: bool

definition over_quota :: "Tenant \<Rightarrow> bool" where
  "over_quota t \<longleftrightarrow> t_cpu_secs_today t \<ge> l_cpu_hours_day (t_limits t) * 3600"

definition effective_tier :: "Tenant \<Rightarrow> Tier \<Rightarrow> Tier" where
  "effective_tier t tier = effective tier (allows_class (t_limits t) Class_Gate) (t_priority t)"

record Running =
  r_slot :: Slot
  r_job_id :: string
  r_generation :: nat
  r_workspace_id :: string
  r_session_id :: "string option"
  r_class :: JobClass
  r_tier :: Tier
  r_cpu_millis :: nat
  r_mem_bytes :: nat
  r_exclusive :: bool
  r_left_p50 :: "nat option"
  r_left_p90 :: "nat option"
  r_secret :: bool
  r_submitter :: "string option"

record Queued =
  q_slot :: Slot
  q_job_id :: string
  q_generation :: nat
  q_workspace_id :: string
  q_session_id :: "string option"
  q_class :: JobClass
  q_tier :: Tier
  q_cpu_millis :: "nat option"
  q_mem_bytes :: "nat option"
  q_exclusive :: bool
  q_enqueued_at :: int
  q_arrival :: nat
  q_est_p50 :: "nat option"
  q_est_p90 :: "nat option"
  q_ws_max_running :: "nat option"
  q_eligible :: bool
  q_secret :: bool
  q_submitter :: "string option"
  q_submitter_max_running :: "nat option"

definition turn_key :: "Queued \<Rightarrow> string" where
  "turn_key q = unwrap_or (or_else (q_submitter q) (q_session_id q)) ''''"

record Rotation =
  rot_last_slot :: "Slot option"
  rot_last_ws :: "(Slot, string) btree"
  rot_last_submitter :: "(Slot \<times> string, string) btree"
  rot_last_line :: "Line option"

definition served :: "Rotation \<Rightarrow> Queued \<Rightarrow> Line \<Rightarrow> Rotation" where
  "served r q l =
     \<lparr> rot_last_slot = Some (q_slot q),
       rot_last_ws = bt_insert (q_slot q) (q_workspace_id q) (rot_last_ws r),
       rot_last_submitter =
         bt_insert (q_slot q, q_workspace_id q) (turn_key q) (rot_last_submitter r),
       rot_last_line = (if l = Line_Priority \<or> l = Line_Standard then Some l else rot_last_line r) \<rparr>"

record Input =
  i_now :: int
  i_cfg :: Config
  i_caps :: Caps
  i_tenants :: "Tenant list"
  i_running :: "Running list"
  i_queued :: "Queued list"
  i_rotation :: Rotation

section \<open>Reading a snapshot\<close>

definition tenant_of :: "Tenant list \<Rightarrow> Slot \<Rightarrow> Tenant option" where
  "tenant_of ts s = find (\<lambda>t. t_slot t = s) ts"

definition line_of :: "Queued \<Rightarrow> Tenant \<Rightarrow> Line" where
  "line_of q t = tier_line (effective_tier t (q_tier q))"

definition is_aged :: "Queued \<Rightarrow> int \<Rightarrow> Config \<Rightarrow> bool" where
  "is_aged q now cfg = tiers_aged (i64_sub now (q_enqueued_at q)) (c_aging_secs cfg)"

definition rotate_after :: "string list \<Rightarrow> string option \<Rightarrow> string option" where
  "rotate_after keys lst =
     (let front = (case keys of k # _ \<Rightarrow> Some k | [] \<Rightarrow> None) in
      case lst of
        None \<Rightarrow> front
      | Some l \<Rightarrow> or_else (find (\<lambda>k. k > l) keys) front)"

definition arrival_key :: "Queued \<Rightarrow> int \<times> nat \<times> string" where
  "arrival_key q = (q_enqueued_at q, q_arrival q, q_job_id q)"

definition by_arrival :: "Queued list \<Rightarrow> nat list \<Rightarrow> nat option" where
  "by_arrival q v = min_by_key (\<lambda>i. arrival_key (q ! i)) v"

section \<open>The order\<close>

definition tenant_head :: "nat list \<Rightarrow> Input \<Rightarrow> Tenant \<Rightarrow> Rotation \<Rightarrow> Line \<Rightarrow> nat option" where
  "tenant_head pending inp t rot ln =
     (let q = i_queued inp;
          mine = filter (\<lambda>i. line_of (q ! i) t = ln) pending;
          old = filter (\<lambda>i. is_aged (q ! i) (i_now inp) (i_cfg inp)) mine
      in if ln = Line_Ci then by_arrival q mine
         else if old \<noteq> [] then by_arrival q old
         else do {
           ws \<leftarrow> rotate_after (btree_set (map (\<lambda>i. q_workspace_id (q ! i)) mine))
                  (bt_get (rot_last_ws rot) (t_slot t));
           let in_ws = filter (\<lambda>i. q_workspace_id (q ! i) = ws) mine;
           s \<leftarrow> rotate_after (btree_set (map (\<lambda>i. turn_key (q ! i)) in_ws))
                 (bt_get (rot_last_submitter rot) (t_slot t, ws));
           by_arrival q (filter (\<lambda>i. turn_key (q ! i) = s) in_ws)
         })"

definition slot_dist :: "Rotation \<Rightarrow> Slot \<Rightarrow> int" where
  "slot_dist rot s =
     (case rot_last_slot rot of
        Some l \<Rightarrow> (int s - int l - 1) mod int MAX_SLOTS
      | None \<Rightarrow> int s)"

definition over_today :: "(Slot, nat) btree \<Rightarrow> Tenant \<Rightarrow> bool" where
  "over_today today t \<longleftrightarrow> unwrap_or (bt_get today (t_slot t)) 0 \<ge> l_cpu_hours_day (t_limits t) * 3600"

definition before :: "Input \<Rightarrow> nat \<times> Slot \<Rightarrow> nat \<times> Slot \<Rightarrow> (Slot, nat) btree \<Rightarrow> (Slot, nat) btree
    \<Rightarrow> Rotation \<Rightarrow> bool option" where
  "before inp a b usage today rot = do {
     ta \<leftarrow> tenant_of (i_tenants inp) (snd a);
     tb \<leftarrow> tenant_of (i_tenants inp) (snd b);
     let qa = i_queued inp ! fst a;
     let qb = i_queued inp ! fst b;
     let aa = is_aged qa (i_now inp) (i_cfg inp);
     let ab = is_aged qb (i_now inp) (i_cfg inp);
     let ua = unwrap_or (bt_get usage (snd a)) 0;
     let ub = unwrap_or (bt_get usage (snd b)) 0;
     let wa = max (l_weight (t_limits ta)) 1;
     let wb = max (l_weight (t_limits tb)) 1;
     Some (if aa \<noteq> ab then aa
           else if aa \<and> ab then arrival_key qa < arrival_key qb
           else if over_today today ta \<noteq> over_today today tb then \<not> over_today today ta
           else if u128_mul ua wb \<noteq> u128_mul ub wa then u128_mul ua wb < u128_mul ub wa
           else slot_dist rot (snd a) < slot_dist rot (snd b))
   }"

record ord_state =
  os_usage :: "(Slot, nat) btree"
  os_today :: "(Slot, nat) btree"
  os_rot :: Rotation
  os_pending :: "(Slot, nat list) btree"

text \<open>Does some pending job wait in line \<open>l\<close>? (An unknown tenant panics in the pick below.)\<close>

definition line_has :: "Input \<Rightarrow> (Slot, nat list) btree \<Rightarrow> Line \<Rightarrow> bool" where
  "line_has inp pending l \<longleftrightarrow>
     list_ex (\<lambda>(slot, is). case tenant_of (i_tenants inp) slot of
         None \<Rightarrow> False
       | Some t \<Rightarrow> list_ex (\<lambda>i. line_of (i_queued inp ! i) t = l) is) pending"

fun best_pick :: "Input \<Rightarrow> ord_state \<Rightarrow> Line \<Rightarrow> (Slot, nat list) btree \<Rightarrow> (nat \<times> Slot) option
    \<Rightarrow> (nat \<times> Slot) option option" where
  "best_pick inp st ln [] best = Some best"
| "best_pick inp st ln ((slot, is) # rest) best = do {
     t \<leftarrow> tenant_of (i_tenants inp) slot;
     if \<not> list_ex (\<lambda>i. line_of (i_queued inp ! i) t = ln) is then best_pick inp st ln rest best
     else do {
       hd0 \<leftarrow> tenant_head is inp t (os_rot st) ln;
       best' \<leftarrow> (case best of
           None \<Rightarrow> Some (hd0, slot)
         | Some (b, bs) \<Rightarrow> do {
             w \<leftarrow> before inp (hd0, slot) (b, bs) (os_usage st) (os_today st) (os_rot st);
             Some (if w then (hd0, slot) else (b, bs))
           });
       best_pick inp st ln rest (Some best')
     }
   }"

definition job_cpu :: "Input \<Rightarrow> Queued \<Rightarrow> nat" where
  "job_cpu inp e = unwrap_or (q_cpu_millis e) (default_cpu (i_caps inp))"

definition job_mem :: "Input \<Rightarrow> Queued \<Rightarrow> nat" where
  "job_mem inp e = unwrap_or (q_mem_bytes e) (default_mem (i_caps inp))"

text \<open>The picked job is charged its estimated CPU and removed from its tenant's list.\<close>

definition order_charge :: "Input \<Rightarrow> ord_state \<Rightarrow> Line \<Rightarrow> nat \<Rightarrow> Slot \<Rightarrow> nat list \<Rightarrow> ord_state" where
  "order_charge inp st ln pick slot listed =
     (let e = i_queued inp ! pick;
          cpu = job_cpu inp e;
          est = unwrap_or (q_est_p50 e) (c_default_est_secs (i_cfg inp));
          is = filter (\<lambda>i. i \<noteq> pick) listed
      in \<lparr> os_usage = bt_insert slot
             (u128_add (unwrap_or (bt_get (os_usage st) slot) 0) (u128_mul cpu est)) (os_usage st),
           os_today = bt_insert slot
             (u64_add (unwrap_or (bt_get (os_today st) slot) 0) (sat_mul64 cpu est div 1000)) (os_today st),
           os_rot = served (os_rot st) e ln,
           os_pending = (if is = [] then bt_remove slot (os_pending st)
                         else bt_insert slot is (os_pending st)) \<rparr>)"

definition order_step :: "Input \<Rightarrow> ord_state \<Rightarrow> (nat \<times> ord_state) option" where
  "order_step inp st = do {
     ln \<leftarrow> next_line (line_has inp (os_pending st)) (rot_last_line (os_rot st));
     best \<leftarrow> best_pick inp st ln (os_pending st) None;
     (pick, slot) \<leftarrow> best;
     listed \<leftarrow> bt_get (os_pending st) slot;
     Some (pick, order_charge inp st ln pick slot listed)
   }"

partial_function (option) order_loop :: "Input \<Rightarrow> ord_state \<Rightarrow> nat list \<Rightarrow> (nat list \<times> ord_state) option" where
  [code]: "order_loop inp st out =
     (if os_pending st = [] then Some (out, st)
      else Option.bind (order_step inp st) (\<lambda>(pick, st'). order_loop inp st' (out @ [pick])))"

definition is_ready :: "Input \<Rightarrow> Queued \<Rightarrow> bool" where
  "is_ready inp e \<longleftrightarrow> q_eligible e \<and> tenant_of (i_tenants inp) (q_slot e) \<noteq> None"

definition push_pending :: "Slot \<Rightarrow> nat \<Rightarrow> (Slot, nat list) btree \<Rightarrow> (Slot, nat list) btree" where
  "push_pending slot i m = bt_insert slot (unwrap_or (bt_get m slot) [] @ [i]) m"

fun split_ready :: "Input \<Rightarrow> nat list \<Rightarrow> (Slot, nat list) btree \<times> nat list \<Rightarrow> (Slot, nat list) btree \<times> nat list" where
  "split_ready inp [] acc = acc"
| "split_ready inp (i # is) (pending, away) =
     split_ready inp is
       (if is_ready inp (i_queued inp ! i) then (push_pending (q_slot (i_queued inp ! i)) i pending, away)
        else (pending, away @ [i]))"

definition order_init :: "Input \<Rightarrow> (Slot, nat list) btree \<Rightarrow> ord_state" where
  "order_init inp pending =
     \<lparr> os_usage = fold (\<lambda>t. bt_insert (t_slot t) (t_usage t)) (i_tenants inp) [],
       os_today = fold (\<lambda>t. bt_insert (t_slot t) (t_cpu_secs_today t)) (i_tenants inp) [],
       os_rot = i_rotation inp,
       os_pending = pending \<rparr>"

definition order :: "Input \<Rightarrow> nat list option" where
  "order inp =
     (let (pending, away) = split_ready inp [0..<length (i_queued inp)] ([], []) in do {
        (out, _) \<leftarrow> order_loop inp (order_init inp pending) [];
        Some (out @ sort_key (\<lambda>i. arrival_key (i_queued inp ! i)) away)
      })"

end
