(* ===== verification/Queue_Order.thy ===== *)
theory Queue_Order
  imports Queue_Defs
begin

text \<open>
  The start order of the node queue: it exists for every snapshot (no panic, the loop ends), it
  is a permutation of the queued jobs, and each pick obeys the rules of the airport model. The
  rules are proved for one step of the loop and carried to the whole order by
  \<open>order_split\<close>: at any position of the order there is a loop state whose pending jobs are
  exactly the ones from that position on.
\<close>

section \<open>Heads\<close>

lemma by_arrival_Some:
  "v \<noteq> [] \<Longrightarrow> \<exists>h. by_arrival q v = Some h \<and> h \<in> set v \<and> (\<forall>y \<in> set v. arrival_key (q ! h) \<le> arrival_key (q ! y))"
  unfolding by_arrival_def by (metis min_by_key_ex min_by_key_le)

lemma rotate_after_Some: "keys \<noteq> [] \<Longrightarrow> \<exists>k. rotate_after keys l = Some k \<and> k \<in> set keys"
proof (cases l)
  case None
  assume "keys \<noteq> []"
  then show ?thesis using None by (cases keys) (auto simp: rotate_after_def)
next
  case (Some x)
  assume ne: "keys \<noteq> []"
  show ?thesis
  proof (cases "find (\<lambda>k. k > x) keys")
    case None
    then show ?thesis using Some ne by (cases keys) (auto simp: rotate_after_def)
  next
    case (Some y)
    then show ?thesis using \<open>l = Some x\<close> find_Some_iff' [OF Some] by (auto simp: rotate_after_def)
  qed
qed

text \<open>The value served last gets its next turn only when no other value waits.\<close>

lemma rotate_after_other:
  assumes "rotate_after keys (Some l) = Some l" "sorted keys" "k \<in> set keys"
  shows "k = l"
proof (cases "find (\<lambda>k. k > l) keys")
  case None
  then have le: "\<forall>k \<in> set keys. k \<le> l" by (auto simp: find_None_iff)
  from None assms(1) obtain ks where "keys = l # ks"
    by (cases keys) (auto simp: rotate_after_def)
  with assms(2,3) le show ?thesis by (auto intro: antisym)
next
  case (Some y)
  then have "y > l" using find_Some_iff' [OF Some] by simp
  moreover have "y = l" using Some assms(1) by (simp add: rotate_after_def)
  ultimately show ?thesis by simp
qed

definition job_line :: "Input \<Rightarrow> nat \<Rightarrow> Line" where
  "job_line inp i = line_of (i_queued inp ! i) (the (tenant_of (i_tenants inp) (q_slot (i_queued inp ! i))))"

abbreviation aged_at :: "Input \<Rightarrow> nat \<Rightarrow> bool" where
  "aged_at inp i \<equiv> is_aged (i_queued inp ! i) (i_now inp) (i_cfg inp)"

abbreviation key_at :: "Input \<Rightarrow> nat \<Rightarrow> int \<times> nat \<times> string" where
  "key_at inp i \<equiv> arrival_key (i_queued inp ! i)"

abbreviation ws_at :: "Input \<Rightarrow> nat \<Rightarrow> string" where
  "ws_at inp i \<equiv> q_workspace_id (i_queued inp ! i)"

abbreviation slot_at :: "Input \<Rightarrow> nat \<Rightarrow> Slot" where
  "slot_at inp i \<equiv> q_slot (i_queued inp ! i)"

text \<open>What \<open>tenant_head\<close> promises, as one predicate.\<close>

definition head_ok :: "Input \<Rightarrow> Tenant \<Rightarrow> Rotation \<Rightarrow> Line \<Rightarrow> nat list \<Rightarrow> nat \<Rightarrow> bool" where
  "head_ok inp t rot ln mine h \<longleftrightarrow> h \<in> set mine
     \<and> (ln = Line_Ci \<longrightarrow> (\<forall>y \<in> set mine. key_at inp h \<le> key_at inp y))
     \<and> (ln \<noteq> Line_Ci \<longrightarrow> (\<forall>y \<in> set mine. aged_at inp y \<longrightarrow> aged_at inp h \<and> key_at inp h \<le> key_at inp y))
     \<and> (ln \<noteq> Line_Ci \<longrightarrow> \<not> aged_at inp h \<longrightarrow> (\<forall>y \<in> set mine.
          (bt_get (rot_last_ws rot) (t_slot t) = Some (ws_at inp h) \<longrightarrow> ws_at inp y = ws_at inp h)
          \<and> (ws_at inp y = ws_at inp h \<longrightarrow>
              bt_get (rot_last_submitter rot) (t_slot t, ws_at inp h) = Some (turn_key (i_queued inp ! h)) \<longrightarrow>
              turn_key (i_queued inp ! y) = turn_key (i_queued inp ! h))
          \<and> (ws_at inp y = ws_at inp h \<longrightarrow> turn_key (i_queued inp ! y) = turn_key (i_queued inp ! h) \<longrightarrow>
              key_at inp h \<le> key_at inp y)))"

lemma tenant_head_rotation:
  assumes mine: "mine = filter (\<lambda>i. line_of (i_queued inp ! i) t = ln) pending"
    and ne: "mine \<noteq> []" and ln: "ln \<noteq> Line_Ci" and fresh: "\<forall>i \<in> set mine. \<not> aged_at inp i"
  shows "\<exists>h. tenant_head pending inp t rot ln = Some h \<and> head_ok inp t rot ln mine h"
proof -
  let ?q = "i_queued inp"
  let ?lw = "bt_get (rot_last_ws rot) (t_slot t)"
  let ?wss = "btree_set (map (ws_at inp) mine)"
  obtain ws where ws: "rotate_after ?wss ?lw = Some ws" "ws \<in> set ?wss"
    using rotate_after_Some [of ?wss ?lw] ne by auto
  define in_ws where "in_ws = filter (\<lambda>i. ws_at inp i = ws) mine"
  have ne2: "in_ws \<noteq> []" using ws(2) by (auto simp: in_ws_def filter_empty_conv)
  let ?ls = "bt_get (rot_last_submitter rot) (t_slot t, ws)"
  let ?subs = "btree_set (map (\<lambda>i. turn_key (?q ! i)) in_ws)"
  obtain s where s: "rotate_after ?subs ?ls = Some s" "s \<in> set ?subs"
    using rotate_after_Some [of ?subs ?ls] ne2 by auto
  define fin where "fin = filter (\<lambda>i. turn_key (?q ! i) = s) in_ws"
  have "fin \<noteq> []" using s(2) by (auto simp: fin_def filter_empty_conv)
  then obtain h where h: "by_arrival ?q fin = Some h" "h \<in> set fin" "\<forall>y \<in> set fin. key_at inp h \<le> key_at inp y"
    using by_arrival_Some by blast
  have old: "filter (aged_at inp) mine = []" using fresh by (simp add: filter_empty_conv)
  have "tenant_head pending inp t rot ln = Some h"
    using ln old ws(1) s(1) h(1)
    unfolding tenant_head_def Let_def mine [symmetric] in_ws_def fin_def
    by (simp del: filter_filter)
  moreover have wsh: "ws_at inp h = ws" and sh: "turn_key (?q ! h) = s" and hm: "h \<in> set mine"
    using h(2) by (auto simp: fin_def in_ws_def)
  moreover have "ws_at inp y = ws" if "?lw = Some ws" "y \<in> set mine" for y
    using rotate_after_other [of ?wss ws "ws_at inp y"] ws that by auto
  moreover have "turn_key (?q ! y) = s" if "?ls = Some s" "y \<in> set mine" "ws_at inp y = ws" for y
    using rotate_after_other [of ?subs s "turn_key (?q ! y)"] s that by (auto simp: in_ws_def)
  moreover have "key_at inp h \<le> key_at inp y"
    if "y \<in> set mine" "ws_at inp y = ws" "turn_key (?q ! y) = s" for y
    using h(3) that by (simp add: fin_def in_ws_def)
  ultimately show ?thesis using ln fresh by (auto simp: head_ok_def)
qed

lemma tenant_head_Some:
  assumes ex: "list_ex (\<lambda>i. line_of (i_queued inp ! i) t = ln) pending"
  shows "\<exists>h. tenant_head pending inp t rot ln = Some h
     \<and> head_ok inp t rot ln (filter (\<lambda>i. line_of (i_queued inp ! i) t = ln) pending) h"
proof -
  let ?q = "i_queued inp"
  define mine where "mine = filter (\<lambda>i. line_of (?q ! i) t = ln) pending"
  define old where "old = filter (aged_at inp) mine"
  have ne: "mine \<noteq> []" using ex by (auto simp: mine_def filter_empty_conv list_ex_iff)
  consider (ci) "ln = Line_Ci" | (old) "ln \<noteq> Line_Ci" "old \<noteq> []" | (fresh) "ln \<noteq> Line_Ci" "old = []"
    by blast
  then have "\<exists>h. tenant_head pending inp t rot ln = Some h \<and> head_ok inp t rot ln mine h"
  proof cases
    case ci
    then obtain h where "by_arrival ?q mine = Some h" "h \<in> set mine" "\<forall>y \<in> set mine. key_at inp h \<le> key_at inp y"
      using by_arrival_Some [OF ne] by blast
    with ci show ?thesis
      unfolding tenant_head_def Let_def mine_def [symmetric] head_ok_def by simp
  next
    case old
    then obtain h where "by_arrival ?q old = Some h" "h \<in> set old" "\<forall>y \<in> set old. key_at inp h \<le> key_at inp y"
      using by_arrival_Some by blast
    with old show ?thesis
      unfolding tenant_head_def Let_def mine_def [symmetric] head_ok_def
      by (auto simp: old_def [symmetric] simp del: filter_filter) (auto simp: old_def)
  next
    case fresh
    then have "\<forall>i \<in> set mine. \<not> aged_at inp i" by (auto simp: old_def filter_empty_conv)
    then show ?thesis using tenant_head_rotation [OF mine_def ne fresh(1)] by blast
  qed
  then show ?thesis by (simp add: mine_def)
qed

section \<open>The pick among the tenants\<close>

definition dominates :: "Input \<Rightarrow> nat \<Rightarrow> nat \<Rightarrow> bool" where
  "dominates inp x y \<longleftrightarrow> (aged_at inp y \<longrightarrow> aged_at inp x \<and> key_at inp x \<le> key_at inp y)"

lemma dominates_refl [simp]: "dominates inp x x"
  by (simp add: dominates_def)

lemma dominates_trans: "dominates inp x y \<Longrightarrow> dominates inp y z \<Longrightarrow> dominates inp x z"
  by (auto simp: dominates_def)

lemma before_known:
  assumes "tenant_of (i_tenants inp) (snd a) \<noteq> None" "tenant_of (i_tenants inp) (snd b) \<noteq> None"
  shows "\<exists>w. before inp a b u d rot = Some w
     \<and> (if w then dominates inp (fst a) (fst b) else dominates inp (fst b) (fst a))"
proof -
  obtain w0 where w: "before inp a b u d rot = Some
      (if aged_at inp (fst a) \<noteq> aged_at inp (fst b) then aged_at inp (fst a)
       else if aged_at inp (fst a) \<and> aged_at inp (fst b) then key_at inp (fst a) < key_at inp (fst b)
       else w0)"
    using assms by (auto simp: before_def Let_def simp del: not_None_eq split del: if_split)
  show ?thesis unfolding w dominates_def
    by (cases "aged_at inp (fst a)"; cases "aged_at inp (fst b)") (auto simp: not_less)
qed

definition picked_ok :: "Input \<Rightarrow> Rotation \<Rightarrow> Line \<Rightarrow> (Slot, nat list) btree \<Rightarrow> nat \<times> Slot \<Rightarrow> bool" where
  "picked_ok inp rot ln P x \<longleftrightarrow> (\<exists>l t. (snd x, l) \<in> set P \<and> tenant_of (i_tenants inp) (snd x) = Some t
     \<and> head_ok inp t rot ln (filter (\<lambda>i. line_of (i_queued inp ! i) t = ln) l) (fst x))"

definition beats_heads :: "Input \<Rightarrow> Rotation \<Rightarrow> Line \<Rightarrow> (Slot, nat list) btree \<Rightarrow> nat \<Rightarrow> bool" where
  "beats_heads inp rot ln P x \<longleftrightarrow> (\<forall>s l t. (s, l) \<in> set P \<longrightarrow> tenant_of (i_tenants inp) s = Some t \<longrightarrow>
     list_ex (\<lambda>i. line_of (i_queued inp ! i) t = ln) l \<longrightarrow>
     (\<exists>h. head_ok inp t rot ln (filter (\<lambda>i. line_of (i_queued inp ! i) t = ln) l) h \<and> dominates inp x h))"

lemma best_pick_spec:
  assumes "\<forall>e \<in> set P. tenant_of (i_tenants inp) (fst e) \<noteq> None"
    and "\<forall>x. best = Some x \<longrightarrow> tenant_of (i_tenants inp) (snd x) \<noteq> None"
    and "best \<noteq> None \<or> line_has inp P ln"
  shows "\<exists>x. best_pick inp st ln P best = Some (Some x)
     \<and> (best = Some x \<or> picked_ok inp (os_rot st) ln P x)
     \<and> (\<forall>y. best = Some y \<longrightarrow> dominates inp (fst x) (fst y))
     \<and> beats_heads inp (os_rot st) ln P (fst x)"
  using assms
proof (induction P arbitrary: best)
  case Nil
  then show ?case by (auto simp: line_has_def beats_heads_def)
next
  case (Cons e P)
  obtain slot l where e: "e = (slot, l)" by (cases e)
  obtain t where t: "tenant_of (i_tenants inp) slot = Some t" using Cons.prems(1) e by auto
  let ?has = "list_ex (\<lambda>i. line_of (i_queued inp ! i) t = ln) l"
  show ?case
  proof (cases ?has)
    case False
    then have "best \<noteq> None \<or> line_has inp P ln"
      using Cons.prems(3) t e by (auto simp: line_has_def)
    then obtain x where "best_pick inp st ln P best = Some (Some x)"
      "best = Some x \<or> picked_ok inp (os_rot st) ln P x"
      "\<forall>y. best = Some y \<longrightarrow> dominates inp (fst x) (fst y)" "beats_heads inp (os_rot st) ln P (fst x)"
      using Cons.IH [of best] Cons.prems by auto
    then show ?thesis using False t e
      by (intro exI [of _ x]) (auto simp: picked_ok_def beats_heads_def)
  next
    case True
    obtain h where h: "tenant_head l inp t (os_rot st) ln = Some h"
      "head_ok inp t (os_rot st) ln (filter (\<lambda>i. line_of (i_queued inp ! i) t = ln) l) h"
      using tenant_head_Some [OF True] by blast
    have "\<exists>b. (case best of None \<Rightarrow> Some (h, slot)
           | Some (b, bs) \<Rightarrow> Option.bind (before inp (h, slot) (b, bs) (os_usage st) (os_today st) (os_rot st))
               (\<lambda>w. Some (if w then (h, slot) else (b, bs)))) = Some b
         \<and> (b = (h, slot) \<or> best = Some b) \<and> dominates inp (fst b) h
         \<and> (\<forall>y. best = Some y \<longrightarrow> dominates inp (fst b) (fst y))"
    proof (cases best)
      case None
      then show ?thesis by simp
    next
      case (Some y)
      then show ?thesis
        using before_known [of inp "(h, slot)" y "os_usage st" "os_today st" "os_rot st"] t Cons.prems(2)
        by (cases y) (auto split: if_splits)
    qed
    then obtain b where b: "(case best of None \<Rightarrow> Some (h, slot)
           | Some (b, bs) \<Rightarrow> Option.bind (before inp (h, slot) (b, bs) (os_usage st) (os_today st) (os_rot st))
               (\<lambda>w. Some (if w then (h, slot) else (b, bs)))) = Some b"
      "b = (h, slot) \<or> best = Some b" "dominates inp (fst b) h"
      "\<forall>y. best = Some y \<longrightarrow> dominates inp (fst b) (fst y)" by blast
    have kb: "tenant_of (i_tenants inp) (snd b) \<noteq> None" using b(2) t Cons.prems(2) by (cases b) auto
    obtain x where x: "best_pick inp st ln P (Some b) = Some (Some x)"
      "b = x \<or> picked_ok inp (os_rot st) ln P x" "dominates inp (fst x) (fst b)"
      "beats_heads inp (os_rot st) ln P (fst x)"
      using Cons.IH [of "Some b"] Cons.prems(1) kb by auto
    have "best_pick inp st ln (e # P) best = Some (Some x)"
      using e t True h(1) b(1) x(1) by simp
    moreover have "best = Some x \<or> picked_ok inp (os_rot st) ln (e # P) x"
      using x(2) b(2) h(2) t e by (auto simp: picked_ok_def)
    moreover have "\<forall>y. best = Some y \<longrightarrow> dominates inp (fst x) (fst y)"
      using b(4) x(3) dominates_trans by blast
    moreover have "beats_heads inp (os_rot st) ln (e # P) (fst x)"
      using x(4) h(2) e t dominates_trans [OF x(3) b(3)] by (auto simp: beats_heads_def)
    ultimately show ?thesis by blast
  qed
qed

section \<open>One step\<close>

abbreviation pend :: "ord_state \<Rightarrow> nat list" where
  "pend st \<equiv> bt_concat (os_pending st)"

definition list_ok :: "Input \<Rightarrow> Slot \<times> nat list \<Rightarrow> bool" where
  "list_ok inp e \<longleftrightarrow> snd e \<noteq> [] \<and> distinct (snd e) \<and> tenant_of (i_tenants inp) (fst e) \<noteq> None
     \<and> (\<forall>i \<in> set (snd e). i < length (i_queued inp) \<and> slot_at inp i = fst e)"

definition os_inv :: "Input \<Rightarrow> ord_state \<Rightarrow> bool" where
  "os_inv inp st \<longleftrightarrow> bt_inv (os_pending st) \<and> (\<forall>e \<in> set (os_pending st). list_ok inp e)"

text \<open>The jobs of \<open>x\<close>'s tenant and line that are still pending.\<close>

definition rivals :: "Input \<Rightarrow> ord_state \<Rightarrow> nat \<Rightarrow> nat list" where
  "rivals inp st x = filter (\<lambda>i. job_line inp i = job_line inp x) (unwrap_or (bt_get (os_pending st) (slot_at inp x)) [])"

text \<open>What one step promises about its pick.\<close>

definition step_ok :: "Input \<Rightarrow> ord_state \<Rightarrow> nat \<Rightarrow> bool" where
  "step_ok inp st x \<longleftrightarrow> x \<in> set (pend st)
     \<and> next_line (line_has inp (os_pending st)) (rot_last_line (os_rot st)) = Some (job_line inp x)
     \<and> head_ok inp (the (tenant_of (i_tenants inp) (slot_at inp x))) (os_rot st) (job_line inp x) (rivals inp st x) x
     \<and> beats_heads inp (os_rot st) (job_line inp x) (os_pending st) x"

lemma os_inv_get:
  "os_inv inp st \<Longrightarrow> (s, l) \<in> set (os_pending st) \<Longrightarrow> bt_get (os_pending st) s = Some l \<and> list_ok inp (s, l)"
  by (auto simp: os_inv_def bt_mem)

lemma list_ok_tenant: "list_ok inp (s, l) \<Longrightarrow> \<exists>t. tenant_of (i_tenants inp) s = Some t"
  by (auto simp: list_ok_def)

lemma pend_slot:
  assumes "os_inv inp st" "i \<in> set (pend st)"
  obtains l where "(slot_at inp i, l) \<in> set (os_pending st)" "i \<in> set l" "list_ok inp (slot_at inp i, l)"
proof -
  obtain s l where sl: "(s, l) \<in> set (os_pending st)" "i \<in> set l" using assms(2) by auto
  then have "list_ok inp (s, l)" using os_inv_get [OF assms(1)] by blast
  moreover from this sl(2) have "slot_at inp i = s" by (simp add: list_ok_def)
  ultimately show ?thesis using sl that by blast
qed

lemma job_line_slot:
  "tenant_of (i_tenants inp) (slot_at inp i) = Some t \<Longrightarrow> job_line inp i = line_of (i_queued inp ! i) t"
  by (simp add: job_line_def)

lemma line_has_iff:
  assumes "os_inv inp st"
  shows "line_has inp (os_pending st) l \<longleftrightarrow> (\<exists>i \<in> set (pend st). job_line inp i = l)"
proof
  assume "line_has inp (os_pending st) l"
  then obtain s js t i where h: "(s, js) \<in> set (os_pending st)" "tenant_of (i_tenants inp) s = Some t"
    "i \<in> set js" "line_of (i_queued inp ! i) t = l"
    by (auto simp: line_has_def list_ex_iff split: option.splits)
  then have "slot_at inp i = s" using os_inv_get [OF assms h(1)] by (simp add: list_ok_def)
  then have "job_line inp i = l" using h job_line_slot by simp
  then show "\<exists>i \<in> set (pend st). job_line inp i = l" using h(1,3) by force
next
  assume "\<exists>i \<in> set (pend st). job_line inp i = l"
  then obtain i where i: "i \<in> set (pend st)" "job_line inp i = l" by blast
  obtain js where js: "(slot_at inp i, js) \<in> set (os_pending st)" "i \<in> set js" "list_ok inp (slot_at inp i, js)"
    by (rule pend_slot [OF assms i(1)])
  then obtain t where t: "tenant_of (i_tenants inp) (slot_at inp i) = Some t"
    using list_ok_tenant by blast
  then have "line_of (i_queued inp ! i) t = l" using i(2) job_line_slot by simp
  then have "list_ex (\<lambda>i. line_of (i_queued inp ! i) t = l) js" using js(2) unfolding list_ex_iff by blast
  then show "line_has inp (os_pending st) l"
    unfolding line_has_def list_ex_iff by (intro bexI [OF _ js(1)]) (simp add: t)
qed

lemma list_ok_filter:
  "list_ok inp (s, l) \<Longrightarrow> filter (\<lambda>i. i \<noteq> x) l \<noteq> [] \<Longrightarrow> list_ok inp (s, filter (\<lambda>i. i \<noteq> x) l)"
  by (auto simp: list_ok_def)

lemma order_charge_inv:
  assumes inv: "os_inv inp st" and g: "bt_get (os_pending st) s = Some l" and x: "x \<in> set l"
  shows "os_inv inp (order_charge inp st ln x s l)"
    and "mset (pend st) = add_mset x (mset (pend (order_charge inp st ln x s l)))"
    and "os_rot (order_charge inp st ln x s l) = served (os_rot st) (i_queued inp ! x) ln"
proof -
  have bi: "bt_inv (os_pending st)" using inv by (simp add: os_inv_def)
  have ok: "list_ok inp (s, l)" using inv bt_get_in [OF g] by (auto simp: os_inv_def)
  then have d: "mset (filter (\<lambda>i. i \<noteq> x) l) = mset l - {#x#}"
    by (intro mset_filter_neq) (simp add: list_ok_def)
  show "os_inv inp (order_charge inp st ln x s l)"
    using inv bi list_ok_filter [OF ok]
    by (auto simp: os_inv_def order_charge_def Let_def set_bt_insert set_bt_remove)
  have "mset (pend (order_charge inp st ln x s l))
      = mset (filter (\<lambda>i. i \<noteq> x) l) + mset (bt_concat (bt_remove s (os_pending st)))"
    using bi by (simp add: order_charge_def Let_def mset_bt_insert filter_empty_conv)
  then show "mset (pend st) = add_mset x (mset (pend (order_charge inp st ln x s l)))"
    using mset_bt_get [OF bi g] d x by (simp add: insert_DiffM flip: add_mset_add_mset_same_iff)
  show "os_rot (order_charge inp st ln x s l) = served (os_rot st) (i_queued inp ! x) ln"
    by (simp add: order_charge_def Let_def)
qed

lemma order_step_spec:
  assumes inv: "os_inv inp st" and ne: "os_pending st \<noteq> []"
  shows "\<exists>x st'. order_step inp st = Some (x, st') \<and> os_inv inp st' \<and> step_ok inp st x
     \<and> mset (pend st) = add_mset x (mset (pend st'))
     \<and> os_rot st' = served (os_rot st) (i_queued inp ! x) (job_line inp x)"
proof -
  let ?has = "line_has inp (os_pending st)"
  obtain e where e: "e \<in> set (os_pending st)" using ne by (cases "os_pending st") auto
  then have "list_ok inp e" using inv by (simp add: os_inv_def)
  then have "\<exists>l. ?has l" using e line_has_iff [OF inv] by (fastforce simp: list_ok_def neq_Nil_conv)
  then obtain ln where ln: "next_line ?has (rot_last_line (os_rot st)) = Some ln" "?has ln"
    using next_line_Some by blast
  obtain x s where b: "best_pick inp st ln (os_pending st) None = Some (Some (x, s))"
    "picked_ok inp (os_rot st) ln (os_pending st) (x, s)" "beats_heads inp (os_rot st) ln (os_pending st) x"
    using best_pick_spec [of "os_pending st" inp None ln st] ln(2) inv
    by (fastforce simp: os_inv_def list_ok_def)
  obtain l t where l: "(s, l) \<in> set (os_pending st)" "tenant_of (i_tenants inp) s = Some t"
    "head_ok inp t (os_rot st) ln (filter (\<lambda>i. line_of (i_queued inp ! i) t = ln) l) x"
    using b(2) by (auto simp: picked_ok_def)
  have g: "bt_get (os_pending st) s = Some l" and ok: "list_ok inp (s, l)"
    using os_inv_get [OF inv l(1)] by auto
  have xl: "x \<in> set l" "line_of (i_queued inp ! x) t = ln" using l(3) by (auto simp: head_ok_def)
  have sx: "slot_at inp x = s" using ok xl(1) by (simp add: list_ok_def)
  have jl: "job_line inp x = ln" using sx l(2) xl(2) by (simp add: job_line_def)
  have "rivals inp st x = filter (\<lambda>i. line_of (i_queued inp ! i) t = ln) l"
    using ok sx jl g l(2) by (auto simp: rivals_def list_ok_def job_line_def intro!: filter_cong)
  then have "step_ok inp st x"
    using l b(3) ln(1) jl sx xl(1) by (force simp: step_ok_def)
  moreover have "order_step inp st = Some (x, order_charge inp st ln x s l)"
    using ln(1) b(1) g by (simp add: order_step_def)
  ultimately show ?thesis
    using order_charge_inv [OF inv g xl(1), of ln] jl by blast
qed

section \<open>The loop\<close>

text \<open>The runs of the loop: \<open>picks inp st xs\<close> when the loop from \<open>st\<close> pushes \<open>xs\<close>.\<close>

inductive picks :: "Input \<Rightarrow> ord_state \<Rightarrow> nat list \<Rightarrow> bool" for inp :: Input where
  picks_Nil: "os_pending st = [] \<Longrightarrow> picks inp st []"
| picks_Cons: "os_pending st \<noteq> [] \<Longrightarrow> order_step inp st = Some (x, st') \<Longrightarrow> picks inp st' xs \<Longrightarrow>
    picks inp st (x # xs)"

inductive_cases picks_ConsE: "picks inp st (x # xs)"

lemma order_loop_total:
  "os_inv inp st \<Longrightarrow>
   \<exists>xs st'. order_loop inp st out = Some (out @ xs, st') \<and> picks inp st xs \<and> mset xs = mset (pend st)"
proof (induction "length (pend st)" arbitrary: st out)
  case 0
  then have "os_pending st = []"
    by (cases "os_pending st") (auto simp: os_inv_def list_ok_def)
  then show ?case by (auto simp: order_loop.simps intro: picks_Nil)
next
  case (Suc n)
  then have ne: "os_pending st \<noteq> []" by auto
  obtain x st' where s: "order_step inp st = Some (x, st')" "os_inv inp st'"
    "mset (pend st) = add_mset x (mset (pend st'))"
    using order_step_spec [OF Suc.prems ne] by blast
  then have "n = length (pend st')" using Suc.hyps(2) by (metis size_add_mset size_mset Suc_inject)
  then obtain xs st2 where r: "order_loop inp st' (out @ [x]) = Some ((out @ [x]) @ xs, st2)"
    "picks inp st' xs" "mset xs = mset (pend st')"
    using Suc.hyps(1) [of st' "out @ [x]"] s(2) by blast
  have "order_loop inp st out = Some (out @ x # xs, st2)"
    using ne s(1) r(1) by (subst order_loop.simps) simp
  then show ?case using picks_Cons [OF ne s(1) r(2)] s(3) r(3) by auto
qed

definition serve_all :: "Input \<Rightarrow> Rotation \<Rightarrow> nat list \<Rightarrow> Rotation" where
  "serve_all inp rot xs = foldl (\<lambda>r i. served r (i_queued inp ! i) (job_line inp i)) rot xs"

lemma serve_all_simps [simp]:
  "serve_all inp rot [] = rot"
  "serve_all inp rot (x # xs) = serve_all inp (served rot (i_queued inp ! x) (job_line inp x)) xs"
  "serve_all inp rot (xs @ ys) = serve_all inp (serve_all inp rot xs) ys"
  by (simp_all add: serve_all_def)

lemma picks_mset: "picks inp st xs \<Longrightarrow> os_inv inp st \<Longrightarrow> mset xs = mset (pend st)"
proof (induction rule: picks.induct)
  case (picks_Nil st)
  then show ?case by simp
next
  case (picks_Cons st x st' xs)
  then show ?case using order_step_spec [OF picks_Cons.prems picks_Cons.hyps(1)] by auto
qed

lemma picks_split:
  assumes "picks inp st (xs @ x # ys)" "os_inv inp st"
  shows "\<exists>st'. os_inv inp st' \<and> step_ok inp st' x \<and> set (pend st') = set (x # ys)
     \<and> os_rot st' = serve_all inp (os_rot st) xs"
  using assms
proof (induction xs arbitrary: st)
  case Nil
  have p: "picks inp st (x # ys)" using Nil.prems(1) by simp
  then have ne: "os_pending st \<noteq> []" "\<exists>st'. order_step inp st = Some (x, st')"
    by (auto elim: picks_ConsE)
  then have "step_ok inp st x" using order_step_spec [OF Nil.prems(2) ne(1)] by auto
  moreover have "set (pend st) = set (x # ys)"
    using picks_mset [OF p Nil.prems(2)] by (metis set_mset_mset)
  ultimately show ?case using Nil.prems(2) by (intro exI [of _ st]) simp
next
  case (Cons z zs)
  obtain st2 where st2: "os_pending st \<noteq> []" "order_step inp st = Some (z, st2)" "picks inp st2 (zs @ x # ys)"
    using Cons.prems(1) by (auto elim: picks_ConsE)
  then have "os_inv inp st2" "os_rot st2 = served (os_rot st) (i_queued inp ! z) (job_line inp z)"
    using order_step_spec [OF Cons.prems(2) st2(1)] by auto
  then show ?case using Cons.IH [OF st2(3)] by auto
qed

section \<open>The whole order\<close>

lemma push_pending_inv:
  assumes "os_inv inp st" "i < length (i_queued inp)" "i \<notin> set (pend st)"
    "tenant_of (i_tenants inp) (slot_at inp i) \<noteq> None"
  shows "os_inv inp (st \<lparr> os_pending := push_pending (slot_at inp i) i (os_pending st) \<rparr>)"
    and "mset (bt_concat (push_pending (slot_at inp i) i (os_pending st))) = add_mset i (mset (pend st))"
proof -
  let ?s = "slot_at inp i" and ?m = "os_pending st"
  let ?l = "unwrap_or (bt_get ?m ?s) []"
  have bi: "bt_inv ?m" using assms(1) by (simp add: os_inv_def)
  have sub: "set ?l \<subseteq> set (pend st)" by (cases "bt_get ?m ?s") (auto dest: bt_get_in)
  have "distinct ?l \<and> (\<forall>j \<in> set ?l. j < length (i_queued inp) \<and> slot_at inp j = ?s)"
  proof (cases "bt_get ?m ?s")
    case (Some l)
    then have "list_ok inp (?s, l)" using os_inv_get [OF assms(1) bt_get_in [OF Some]] by simp
    then show ?thesis using Some unfolding list_ok_def by simp
  qed simp
  then have "list_ok inp (?s, ?l @ [i])" using assms(2-4) sub unfolding list_ok_def by auto
  then show "os_inv inp (st \<lparr> os_pending := push_pending ?s i ?m \<rparr>)"
    using assms(1) bi by (auto simp: os_inv_def push_pending_def set_bt_insert)
  have "mset (pend st) = mset ?l + mset (bt_concat (bt_remove ?s ?m))"
  proof (cases "bt_get ?m ?s")
    case None
    then have "?s \<notin> fst ` set ?m" by (simp add: bt_get_def map_of_eq_None_iff)
    then show ?thesis using None by (simp add: bt_remove_absent)
  next
    case (Some l)
    then show ?thesis using mset_bt_get [OF bi Some] by simp
  qed
  then show "mset (bt_concat (push_pending ?s i ?m)) = add_mset i (mset (pend st))"
    using bi by (simp add: push_pending_def mset_bt_insert)
qed

lemma split_ready_spec:
  assumes "os_inv inp st" "distinct js" "\<forall>i \<in> set js. i < length (i_queued inp) \<and> i \<notin> set (pend st)"
    "split_ready inp js (os_pending st, away) = (p', a')"
  shows "os_inv inp (st \<lparr> os_pending := p' \<rparr>)
     \<and> mset (bt_concat p') = mset (pend st) + mset (filter (\<lambda>i. is_ready inp (i_queued inp ! i)) js)
     \<and> a' = away @ filter (\<lambda>i. \<not> is_ready inp (i_queued inp ! i)) js"
  using assms
proof (induction js arbitrary: st away)
  case Nil
  then show ?case by (auto simp: os_inv_def)
next
  case (Cons i js)
  show ?case
  proof (cases "is_ready inp (i_queued inp ! i)")
    case False
    then show ?thesis using Cons.IH [of st "away @ [i]"] Cons.prems by simp
  next
    case True
    let ?st = "st \<lparr> os_pending := push_pending (slot_at inp i) i (os_pending st) \<rparr>"
    have p: "os_inv inp ?st" "mset (pend ?st) = add_mset i (mset (pend st))"
      using push_pending_inv [OF Cons.prems(1), of i] Cons.prems(3) True by (auto simp: is_ready_def)
    have "set (pend ?st) = insert i (set (pend st))" using p(2) by (metis set_mset_add_mset_insert set_mset_mset)
    then show ?thesis using Cons.IH [of ?st away] Cons.prems p True by auto
  qed
qed

abbreviation ready_at :: "Input \<Rightarrow> nat \<Rightarrow> bool" where
  "ready_at inp i \<equiv> is_ready inp (i_queued inp ! i)"

text \<open>The shape of every order: the ready jobs as the loop picks them, then the others by arrival.\<close>

definition away_jobs :: "Input \<Rightarrow> nat list" where
  "away_jobs inp = sort_key (key_at inp) (filter (\<lambda>i. \<not> ready_at inp i) [0..<length (i_queued inp)])"

lemma order_shape:
  "\<exists>st ready. order inp = Some (ready @ away_jobs inp) \<and> os_inv inp st \<and> os_rot st = i_rotation inp
     \<and> picks inp st ready \<and> mset ready = mset (filter (ready_at inp) [0..<length (i_queued inp)])"
proof -
  let ?n = "[0..<length (i_queued inp)]"
  obtain p a where sr: "split_ready inp ?n ([], []) = (p, a)" by force
  have "os_inv inp (order_init inp [])" by (simp add: os_inv_def order_init_def)
  from split_ready_spec [OF this, of ?n "[]" p a] sr
  have p: "os_inv inp ((order_init inp []) \<lparr> os_pending := p \<rparr>)"
      "mset (bt_concat p) = mset (filter (ready_at inp) ?n)" "a = filter (\<lambda>i. \<not> ready_at inp i) ?n"
    by (simp_all add: order_init_def)
  have st: "(order_init inp []) \<lparr> os_pending := p \<rparr> = order_init inp p" by (simp add: order_init_def)
  obtain xs st' where l: "order_loop inp (order_init inp p) [] = Some ([] @ xs, st')"
    "picks inp (order_init inp p) xs" "mset xs = mset (pend (order_init inp p))"
    using order_loop_total p(1) unfolding st by blast
  have "order inp = Some (xs @ away_jobs inp)"
    using l(1) sr p(3) by (simp add: order_def away_jobs_def)
  then show ?thesis using l p(1,2) st by (intro exI [of _ "order_init inp p"] exI [of _ xs]) (simp add: order_init_def)
qed

lemma order_Some: "\<exists>ord. order inp = Some ord \<and> mset ord = mset [0..<length (i_queued inp)]"
proof -
  obtain ready where o: "order inp = Some (ready @ away_jobs inp)"
    "mset ready = mset (filter (ready_at inp) [0..<length (i_queued inp)])"
    using order_shape by blast
  have "mset (ready @ away_jobs inp) = mset [0..<length (i_queued inp)]"
    using o(2) multiset_partition [of "mset [0..<length (i_queued inp)]" "ready_at inp"]
    by (simp add: away_jobs_def)
  with o(1) show ?thesis by blast
qed

lemma order_facts:
  assumes "order inp = Some ord"
  shows "mset ord = mset [0..<length (i_queued inp)]" "distinct ord"
    "set ord = {..<length (i_queued inp)}" "length ord = length (i_queued inp)"
proof -
  show m: "mset ord = mset [0..<length (i_queued inp)]" using order_Some [of inp] assms by auto
  then show "distinct ord" by (metis distinct_upt mset_eq_imp_distinct_iff)
  show "set ord = {..<length (i_queued inp)}" using m by (metis atLeast_upt set_mset_mset)
  show "length ord = length (i_queued inp)" using mset_eq_length [OF m] by simp
qed

text \<open>
  At a ready job of the order there is a loop state that has exactly the ready jobs from there on
  pending and has served the jobs before it.
\<close>

lemma order_split:
  assumes o: "order inp = Some (xs @ x # ys)" and r: "ready_at inp x"
  shows "\<exists>st. os_inv inp st \<and> step_ok inp st x \<and> set (pend st) = {i \<in> set (x # ys). ready_at inp i}
     \<and> os_rot st = serve_all inp (i_rotation inp) xs \<and> (\<forall>i \<in> set xs. ready_at inp i)"
proof -
  obtain st ready where s: "order inp = Some (ready @ away_jobs inp)" "os_inv inp st"
    "os_rot st = i_rotation inp" "picks inp st ready"
    "mset ready = mset (filter (ready_at inp) [0..<length (i_queued inp)])"
    using order_shape by blast
  have rd: "\<forall>i \<in> set ready. ready_at inp i" using mset_eq_setD [OF s(5)] by auto
  have aw: "\<forall>i \<in> set (away_jobs inp). \<not> ready_at inp i" by (simp add: away_jobs_def)
  have eq: "xs @ x # ys = ready @ away_jobs inp" using o s(1) by simp
  have na: "x \<notin> set (away_jobs inp)" using aw r by blast
  obtain us where "xs @ us = ready \<and> x # ys = us @ away_jobs inp \<or> xs = ready @ us \<and> us @ x # ys = away_jobs inp"
    using eq unfolding append_eq_append_conv2 by blast
  then have "\<exists>zs. ready = xs @ x # zs \<and> ys = zs @ away_jobs inp"
  proof (elim disjE conjE)
    assume u: "xs @ us = ready" "x # ys = us @ away_jobs inp"
    show ?thesis
    proof (cases us)
      case Nil
      then show ?thesis using u(2) na by (metis append_Nil list.set_intros(1))
    next
      case (Cons z zs)
      then show ?thesis using u by auto
    qed
  next
    assume "us @ x # ys = away_jobs inp"
    then show ?thesis using na by (metis in_set_conv_decomp)
  qed
  then obtain zs where z: "ready = xs @ x # zs" "ys = zs @ away_jobs inp" by blast
  obtain st' where "os_inv inp st'" "step_ok inp st' x" "set (pend st') = set (x # zs)"
    "os_rot st' = serve_all inp (os_rot st) xs"
    using picks_split s(2,4) z(1) by blast
  then show ?thesis using s(3) z rd aw by (intro exI [of _ st']) auto
qed

end
