(* ===== verification/Queue_Example.thy ===== *)
theory Queue_Example
  imports Queue_Defs "HOL-Library.Code_Target_Numeral"
begin

text \<open>
  A small snapshot on which the theorems of the queue are exercised: an owner server (slot 0, CI
  and Priority) and a guest (slot 1), with jobs of every line, one of them aged and one whose
  server is away.
\<close>

definition ex_job :: "Slot \<Rightarrow> string \<Rightarrow> string \<Rightarrow> Tier \<Rightarrow> int \<Rightarrow> Queued" where
  "ex_job slot job ws tier at =
     \<lparr> q_slot = slot, q_job_id = job, q_generation = 1, q_workspace_id = ws, q_session_id = None,
       q_class = tier_class tier, q_tier = tier, q_cpu_millis = Some 1000, q_mem_bytes = Some 10,
       q_exclusive = False, q_enqueued_at = at, q_arrival = 0, q_est_p50 = Some 60,
       q_est_p90 = None, q_ws_max_running = None, q_eligible = True, q_secret = False,
       q_submitter = Some ''ann'', q_submitter_max_running = None \<rparr>"

definition ex_tenant :: "Slot \<Rightarrow> ShareLimits \<Rightarrow> bool \<Rightarrow> Tenant" where
  "ex_tenant slot lim prio =
     \<lparr> t_slot = slot, t_limits = lim, t_usage = 0, t_cpu_secs_today = 0, t_blocked = None, t_priority = prio \<rparr>"

definition ex_running :: "Running" where
  "ex_running = \<lparr> r_slot = 1, r_job_id = ''r0'', r_generation = 1, r_workspace_id = ''wr'',
     r_session_id = None, r_class = Class_Interactive, r_tier = Tier_Normal, r_cpu_millis = 1000,
     r_mem_bytes = 10, r_exclusive = False, r_left_p50 = Some 40, r_left_p90 = None,
     r_secret = False, r_submitter = None \<rparr>"

definition ex_rotation :: Rotation where
  "ex_rotation = \<lparr> rot_last_slot = None, rot_last_ws = [], rot_last_submitter = [], rot_last_line = Some Line_Priority \<rparr>"

definition ex_caps :: "nat \<Rightarrow> Caps" where
  "ex_caps par = \<lparr> cap_cpu_millis = 4000, cap_mem_bytes = 100, cap_parallel_max = par, cap_blocked = None \<rparr>"

definition ex_input :: "nat \<Rightarrow> Queued list \<Rightarrow> Input" where
  "ex_input par qs =
     \<lparr> i_now = 10000, i_cfg = Config_default, i_caps = ex_caps par,
       i_tenants = [ex_tenant 0 ((new_server Trust_Own False) \<lparr> l_max_running := 9 \<rparr>) True,
                    ex_tenant 1 (owner_limits 4 4 8 40 Net_On) False],
       i_running = [ex_running], i_queued = qs, i_rotation = ex_rotation \<rparr>"

definition ex_jobs :: "Queued list" where
  "ex_jobs =
     [ex_job 1 ''j0'' ''wb'' Tier_Batch 9000,
      ex_job 0 ''j1'' ''w1'' Tier_Normal 9001,
      ex_job 0 ''j2'' ''w2'' Tier_Normal 9002,
      ex_job 0 ''j3'' ''w1'' Tier_Priority 9003,
      ex_job 1 ''j4'' ''w3'' Tier_Ci 9004,
      ex_job 1 ''j5'' ''w3'' Tier_Ci 9005,
      ex_job 1 ''j6'' ''w4'' Tier_Normal 100,
      (ex_job 1 ''j7'' ''w4'' Tier_Normal 50) \<lparr> q_eligible := False \<rparr>,
      ex_job 0 ''j8'' ''w2'' Tier_Normal 9006,
      ex_job 0 ''j9'' ''w2'' Tier_Normal 9007]"

lemma ex_order: "order (ex_input 3 ex_jobs) = Some [4, 5, 6, 3, 2, 1, 8, 9, 0, 7]"
  by code_simp

end
