(* ===== verification/Queue_Rules.thy ===== *)
theory Queue_Rules
  imports Queue_Order Queue_Example
begin

text \<open>
  The rules of the airport, as theorems about the whole order of any snapshot. \<open>xs @ x # ys\<close>
  is an order in which \<open>x\<close> starts before every job of \<open>ys\<close>;
  \<open>job_line\<close> is the line a job counts in here (CI and Priority only where the tenant has them).
\<close>

section \<open>From the step to the order\<close>

lemma served_simps [simp]:
  "rot_last_slot (served r q l) = Some (q_slot q)"
  "bt_get (rot_last_ws (served r q l)) s = (if s = q_slot q then Some (q_workspace_id q) else bt_get (rot_last_ws r) s)"
  "bt_get (rot_last_submitter (served r q l)) k =
     (if k = (q_slot q, q_workspace_id q) then Some (turn_key q) else bt_get (rot_last_submitter r) k)"
  "rot_last_line (served r q l) = (if l = Line_Priority \<or> l = Line_Standard then Some l else rot_last_line r)"
  by (simp_all add: served_def)

definition turn_line :: "Line \<Rightarrow> bool" where
  "turn_line l \<longleftrightarrow> l = Line_Priority \<or> l = Line_Standard"

text \<open>The Priority-or-Standard line that started last after the jobs \<open>xs\<close>.\<close>

definition last_turn :: "Input \<Rightarrow> nat list \<Rightarrow> Line option" where
  "last_turn inp xs = fold (\<lambda>i l. if turn_line (job_line inp i) then Some (job_line inp i) else l) xs
     (rot_last_line (i_rotation inp))"

lemma serve_all_last_line: "rot_last_line (serve_all inp (i_rotation inp) xs) = last_turn inp xs"
  by (induction xs rule: rev_induct) (auto simp: last_turn_def turn_line_def)

lemma serve_all_last_ws:
  "\<forall>m \<in> set ms. slot_at inp m \<noteq> s \<Longrightarrow>
   bt_get (rot_last_ws (serve_all inp r ms)) s = bt_get (rot_last_ws r) s"
  by (induction ms rule: rev_induct) auto

lemma serve_all_last_submitter:
  "\<forall>m \<in> set ms. (slot_at inp m, ws_at inp m) \<noteq> k \<Longrightarrow>
   bt_get (rot_last_submitter (serve_all inp r ms)) k = bt_get (rot_last_submitter r) k"
  by (induction ms rule: rev_induct) auto

lemma rivals_iff:
  assumes "os_inv inp st" "x \<in> set (pend st)"
  shows "y \<in> set (rivals inp st x) \<longleftrightarrow>
    y \<in> set (pend st) \<and> slot_at inp y = slot_at inp x \<and> job_line inp y = job_line inp x"
proof -
  obtain l where l: "(slot_at inp x, l) \<in> set (os_pending st)" "x \<in> set l" "list_ok inp (slot_at inp x, l)"
    by (rule pend_slot [OF assms])
  have g: "bt_get (os_pending st) (slot_at inp x) = Some l" using os_inv_get [OF assms(1) l(1)] by simp
  have "y \<in> set l \<longleftrightarrow> y \<in> set (pend st) \<and> slot_at inp y = slot_at inp x"
  proof
    assume "y \<in> set l"
    then show "y \<in> set (pend st) \<and> slot_at inp y = slot_at inp x"
      using l(1,3) unfolding list_ok_def by force
  next
    assume y: "y \<in> set (pend st) \<and> slot_at inp y = slot_at inp x"
    then obtain l' where "(slot_at inp y, l') \<in> set (os_pending st)" "y \<in> set l'"
      using pend_slot [OF assms(1), of y] by metis
    then show "y \<in> set l" using os_inv_get [OF assms(1)] g y by (metis option.inject)
  qed
  then show ?thesis by (auto simp: rivals_def g)
qed

text \<open>The facts of one step, for every job that is still pending.\<close>

lemma step_line:
  assumes "os_inv inp st" "step_ok inp st x"
  shows "next_line (\<lambda>l. \<exists>i \<in> set (pend st). job_line inp i = l) (rot_last_line (os_rot st)) = Some (job_line inp x)"
proof -
  have "line_has inp (os_pending st) = (\<lambda>l. \<exists>i \<in> set (pend st). job_line inp i = l)"
    by (rule ext) (rule line_has_iff [OF assms(1)])
  then show ?thesis using assms(2) by (simp add: step_ok_def)
qed

lemma step_head:
  assumes "os_inv inp st" "step_ok inp st x" "y \<in> set (pend st)"
    "slot_at inp y = slot_at inp x" "job_line inp y = job_line inp x"
  shows "y \<in> set (rivals inp st x)"
    "head_ok inp (the (tenant_of (i_tenants inp) (slot_at inp x))) (os_rot st) (job_line inp x) (rivals inp st x) x"
  using assms rivals_iff [OF assms(1)] by (auto simp: step_ok_def)

definition clock_ok :: "Input \<Rightarrow> bool" where
  "clock_ok inp \<longleftrightarrow> (\<forall>q \<in> set (i_queued inp). i64_ok (i_now inp - q_enqueued_at q))"

lemma aged_mono:
  assumes "clock_ok inp" "x < length (i_queued inp)" "y < length (i_queued inp)"
    "key_at inp x \<le> key_at inp y" "aged_at inp y"
  shows "aged_at inp x"
proof -
  have le: "q_enqueued_at (i_queued inp ! x) \<le> q_enqueued_at (i_queued inp ! y)"
    using assms(4) by (auto simp: arrival_key_def)
  have "i64_ok (i_now inp - q_enqueued_at (i_queued inp ! x))" "i64_ok (i_now inp - q_enqueued_at (i_queued inp ! y))"
    using assms(1-3) by (auto simp: clock_ok_def)
  then show ?thesis using le assms(5) by (simp add: is_aged_def tiers_aged_def i64_sub_def)
qed

lemma step_aged:
  assumes inv: "os_inv inp st" and st: "step_ok inp st x" and y: "y \<in> set (pend st)"
    and ln: "job_line inp y = job_line inp x" and ag: "aged_at inp y" and ck: "clock_ok inp"
  shows "aged_at inp x \<and> key_at inp x \<le> key_at inp y"
proof -
  obtain l where l: "(slot_at inp y, l) \<in> set (os_pending st)" "y \<in> set l" "list_ok inp (slot_at inp y, l)"
    by (rule pend_slot [OF inv y])
  obtain t where t: "tenant_of (i_tenants inp) (slot_at inp y) = Some t" using list_ok_tenant [OF l(3)] by blast
  let ?mine = "filter (\<lambda>i. line_of (i_queued inp ! i) t = job_line inp x) l"
  have yl: "line_of (i_queued inp ! y) t = job_line inp x" using t ln job_line_slot by simp
  then have "list_ex (\<lambda>i. line_of (i_queued inp ! i) t = job_line inp x) l" using l(2) unfolding list_ex_iff by blast
  then obtain h where h: "head_ok inp t (os_rot st) (job_line inp x) ?mine h" "dominates inp x h"
    using st l(1) t unfolding step_ok_def beats_heads_def by blast
  have ym: "y \<in> set ?mine" using l(2) yl by simp
  have hl: "h \<in> set l" using h(1) by (simp add: head_ok_def)
  then have lt: "h < length (i_queued inp)" "y < length (i_queued inp)" using l(2,3) unfolding list_ok_def by auto
  have "aged_at inp h \<and> key_at inp h \<le> key_at inp y"
  proof (cases "job_line inp x = Line_Ci")
    case True
    then have "key_at inp h \<le> key_at inp y" using h(1) ym by (simp add: head_ok_def)
    then show ?thesis using aged_mono [OF ck lt] ag by blast
  next
    case False
    then show ?thesis using h(1) ym ag unfolding head_ok_def by blast
  qed
  then show ?thesis using h(2) by (auto simp: dominates_def)
qed

text \<open>The line of each pick is the next line of the ready jobs that are left.\<close>

definition waits :: "Input \<Rightarrow> nat list \<Rightarrow> Line \<Rightarrow> bool" where
  "waits inp ys l \<longleftrightarrow> (\<exists>i \<in> set ys. ready_at inp i \<and> job_line inp i = l)"

lemma order_next_line:
  assumes "order inp = Some (xs @ x # ys)" "ready_at inp x"
  shows "next_line (waits inp (x # ys)) (last_turn inp xs) = Some (job_line inp x)"
proof -
  obtain st where st: "os_inv inp st" "step_ok inp st x" "set (pend st) = {i \<in> set (x # ys). ready_at inp i}"
    "os_rot st = serve_all inp (i_rotation inp) xs"
    using order_split [OF assms] by blast
  have "(\<lambda>l. \<exists>i \<in> set (pend st). job_line inp i = l) = waits inp (x # ys)"
    unfolding st(3) waits_def by auto
  then show ?thesis using step_line [OF st(1,2)] st(4) serve_all_last_line by simp
qed

lemma order_lines_batch:
  assumes "order inp = Some (xs @ x # ys)" "ready_at inp x" "y \<in> set ys" "ready_at inp y"
    "job_line inp x = Line_Batch"
  shows "job_line inp y = Line_Batch"
proof -
  have "waits inp (x # ys) (job_line inp y)" using assms(3,4) by (auto simp: waits_def)
  then show ?thesis
    using order_next_line [OF assms(1,2)] next_line_batch [of "waits inp (x # ys)" "last_turn inp xs" "job_line inp y"]
      assms(5) by auto
qed

section \<open>The rules\<close>

text \<open>C36: for every snapshot \<open>order\<close> returns (it never panics and its loop ends), and what it
  returns is a permutation of the indices of the queued jobs: no job is lost and none listed twice.\<close>

theorem order_permutation:
  "\<exists>ord. order inp = Some ord \<and> mset ord = mset [0..<length (i_queued inp)]"
  by (rule order_Some)

text \<open>CI goes before every other line and Batch after every other line: a ready job ordered
  before a CI job is CI, and a job ordered after a Batch job is Batch.\<close>

theorem order_lines:
  assumes "order inp = Some (xs @ x # ys)" "ready_at inp x" "y \<in> set ys" "ready_at inp y"
  shows "(job_line inp y = Line_Ci \<longrightarrow> job_line inp x = Line_Ci)
       \<and> (job_line inp x = Line_Batch \<longrightarrow> job_line inp y = Line_Batch)"
proof -
  have y: "waits inp (x # ys) (job_line inp y)" using assms(3,4) by (auto simp: waits_def)
  show ?thesis
    using order_next_line [OF assms(1,2)] y next_line_ci [of "waits inp (x # ys)" "last_turn inp xs"]
      order_lines_batch [OF assms(1-4)]
    by auto
qed

theorem order_lines_witness: "job_line (ex_input 3 ex_jobs) 4 = Line_Ci"
proof -
  have r: "ready_at (ex_input 3 ex_jobs) 4" "ready_at (ex_input 3 ex_jobs) 5" "job_line (ex_input 3 ex_jobs) 5 = Line_Ci"
    by code_simp+
  show ?thesis
    using order_lines [of "ex_input 3 ex_jobs" "[]" 4 "[5, 6, 3, 2, 1, 8, 9, 0, 7]" 5] r by (simp add: ex_order)
qed

text \<open>C37: Priority and Standard alternate: a line that got the last start of the two gets the next
  one only when no ready job of the other line is left.\<close>

theorem order_alternates:
  assumes "order inp = Some (xs @ x # ys)" "ready_at inp x" "turn_line (job_line inp x)"
    "last_turn inp xs = Some (job_line inp x)" "y \<in> set ys" "ready_at inp y" "turn_line (job_line inp y)"
  shows "job_line inp y = job_line inp x"
proof -
  have y: "waits inp (x # ys) (job_line inp y)" using assms(5,6) by (auto simp: waits_def)
  show ?thesis
    using next_line_alternates [of "waits inp (x # ys)" "job_line inp x" "job_line inp y"]
      order_next_line [OF assms(1,2)] assms(3,4,7) y
    by (simp add: turn_line_def)
qed

theorem order_alternates_witness:
  "job_line (ex_input 3 ex_jobs) 9 = job_line (ex_input 3 ex_jobs) 8"
proof -
  let ?i = "ex_input 3 ex_jobs"
  have h: "ready_at ?i 8" "turn_line (job_line ?i 8)" "last_turn ?i [4, 5, 6, 3, 2, 1] = Some (job_line ?i 8)"
    "ready_at ?i 9" "turn_line (job_line ?i 9)" by code_simp+
  show ?thesis
    using order_alternates [of ?i "[4, 5, 6, 3, 2, 1]" 8 "[9, 0, 7]" 9] h by (simp add: ex_order)
qed

text \<open>An aged job skips the turns of its line but never the line: if a ready job ordered later
  in the same line has aged, the earlier one has aged too and arrived at the node no later. This
  holds across tenants.\<close>

theorem order_aged:
  assumes "order inp = Some (xs @ x # ys)" "ready_at inp x" "y \<in> set ys" "ready_at inp y"
    "job_line inp y = job_line inp x" "aged_at inp y" "clock_ok inp"
  shows "aged_at inp x \<and> key_at inp x \<le> key_at inp y"
proof -
  obtain st where "os_inv inp st" "step_ok inp st x" "set (pend st) = {i \<in> set (x # ys). ready_at inp i}"
    using order_split [OF assms(1,2)] by blast
  then show ?thesis using step_aged [of inp st x y] assms(3-7) by simp
qed

definition ex_aged :: "Queued list" where
  "ex_aged = [ex_job 0 ''a'' ''w1'' Tier_Normal 9000, ex_job 0 ''b'' ''w1'' Tier_Normal 200,
     ex_job 1 ''c'' ''w2'' Tier_Normal 100]"

theorem order_aged_witness:
  "aged_at (ex_input 3 ex_aged) 2 \<and> key_at (ex_input 3 ex_aged) 2 \<le> key_at (ex_input 3 ex_aged) 1"
proof -
  let ?i = "ex_input 3 ex_aged"
  have h: "order ?i = Some [2, 1, 0]" "ready_at ?i 2" "ready_at ?i 1" "job_line ?i 1 = job_line ?i 2"
    "aged_at ?i 1" "clock_ok ?i" by code_simp+
  show ?thesis using order_aged [of ?i "[]" 2 "[1, 0]" 1] h by simp
qed

text \<open>Inside a tenant, CI is strictly first come first served by the time the node received it.\<close>

theorem order_ci_fifo:
  assumes "order inp = Some (xs @ x # ys)" "ready_at inp x" "y \<in> set ys" "ready_at inp y"
    "slot_at inp y = slot_at inp x" "job_line inp x = Line_Ci" "job_line inp y = Line_Ci"
  shows "key_at inp x \<le> key_at inp y"
proof -
  obtain st where st: "os_inv inp st" "step_ok inp st x" "set (pend st) = {i \<in> set (x # ys). ready_at inp i}"
    using order_split [OF assms(1,2)] by blast
  have "y \<in> set (pend st)" using st(3) assms(3,4) by simp
  then show ?thesis using step_head [OF st(1,2)] assms(5-7) by (simp add: head_ok_def)
qed

theorem order_ci_fifo_witness: "key_at (ex_input 3 ex_jobs) 4 \<le> key_at (ex_input 3 ex_jobs) 5"
proof -
  let ?i = "ex_input 3 ex_jobs"
  have h: "ready_at ?i 4" "ready_at ?i 5" "slot_at ?i 5 = slot_at ?i 4" "job_line ?i 4 = Line_Ci"
    "job_line ?i 5 = Line_Ci" by code_simp+
  show ?thesis using order_ci_fifo [of ?i "[]" 4 "[5, 6, 3, 2, 1, 8, 9, 0, 7]" 5] h by (simp add: ex_order)
qed

text \<open>Workspaces take turns: outside CI, a workspace gets two starts of its server in a row with
  a job that has not aged only when no other workspace of that server waits in that line.\<close>

theorem order_workspace_turns:
  assumes o: "order inp = Some (xs @ a # ms @ x # ys)" and r: "ready_at inp x"
    and a: "slot_at inp a = slot_at inp x" "ws_at inp a = ws_at inp x"
    and m: "\<forall>i \<in> set ms. slot_at inp i \<noteq> slot_at inp x"
    and x: "job_line inp x \<noteq> Line_Ci" "\<not> aged_at inp x"
    and y: "y \<in> set ys" "ready_at inp y" "slot_at inp y = slot_at inp x" "job_line inp y = job_line inp x"
  shows "ws_at inp y = ws_at inp x"
proof -
  have "order inp = Some ((xs @ a # ms) @ x # ys)" using o by simp
  then obtain st where st: "os_inv inp st" "step_ok inp st x" "set (pend st) = {i \<in> set (x # ys). ready_at inp i}"
    "os_rot st = serve_all inp (i_rotation inp) (xs @ a # ms)"
    using order_split r by blast
  have ts: "t_slot (the (tenant_of (i_tenants inp) (slot_at inp x))) = slot_at inp x"
    using r by (auto simp: is_ready_def tenant_of_def dest: find_Some_iff')
  have "bt_get (rot_last_ws (os_rot st)) (slot_at inp x) = Some (ws_at inp x)"
    using st(4) serve_all_last_ws [OF m] a by simp
  then have l: "bt_get (rot_last_ws (os_rot st)) (t_slot (the (tenant_of (i_tenants inp) (slot_at inp x)))) = Some (ws_at inp x)"
    unfolding ts .
  have "y \<in> set (pend st)" using st(3) y(1,2) by simp
  from step_head [OF st(1,2) this y(3,4)] show ?thesis
    using x l unfolding head_ok_def by blast
qed

definition ex_turns :: "Queued list" where
  "ex_turns = [ex_job 0 ''a'' ''w1'' Tier_Normal 9000, ex_job 0 ''b'' ''w1'' Tier_Normal 9001,
     ex_job 0 ''c'' ''w2'' Tier_Normal 9002, ex_job 0 ''d'' ''w1'' Tier_Normal 9003]"

lemma ex_turns_order: "order (ex_input 3 ex_turns) = Some [0, 2, 1, 3]"
  by code_simp

theorem order_workspace_turns_witness: "ws_at (ex_input 3 (take 2 ex_turns @ drop 3 ex_turns)) 2 = ''w1''"
proof -
  let ?i = "ex_input 3 (take 2 ex_turns @ drop 3 ex_turns)"
  have h: "order ?i = Some [0, 1, 2]" "ready_at ?i 1" "slot_at ?i 0 = slot_at ?i 1" "ws_at ?i 0 = ws_at ?i 1"
    "job_line ?i 1 \<noteq> Line_Ci" "\<not> aged_at ?i 1" "ready_at ?i 2" "slot_at ?i 2 = slot_at ?i 1"
    "job_line ?i 2 = job_line ?i 1" "ws_at ?i 1 = ''w1''" by code_simp+
  show ?thesis using order_workspace_turns [of ?i "[]" 0 "[]" 1 "[2]" 2] h by simp
qed

text \<open>Inside a workspace and line submitters take turns: a submitter gets two starts of its
  workspace in a row with a job that has not aged only when no other submitter of that workspace
  waits in that line.\<close>

theorem order_submitter_turns:
  assumes o: "order inp = Some (xs @ a # ms @ x # ys)" and r: "ready_at inp x"
    and a: "slot_at inp a = slot_at inp x" "ws_at inp a = ws_at inp x"
      "turn_key (i_queued inp ! a) = turn_key (i_queued inp ! x)"
    and m: "\<forall>i \<in> set ms. (slot_at inp i, ws_at inp i) \<noteq> (slot_at inp x, ws_at inp x)"
    and x: "job_line inp x \<noteq> Line_Ci" "\<not> aged_at inp x"
    and y: "y \<in> set ys" "ready_at inp y" "slot_at inp y = slot_at inp x" "job_line inp y = job_line inp x"
      "ws_at inp y = ws_at inp x"
  shows "turn_key (i_queued inp ! y) = turn_key (i_queued inp ! x)"
proof -
  have "order inp = Some ((xs @ a # ms) @ x # ys)" using o by simp
  then obtain st where st: "os_inv inp st" "step_ok inp st x" "set (pend st) = {i \<in> set (x # ys). ready_at inp i}"
    "os_rot st = serve_all inp (i_rotation inp) (xs @ a # ms)"
    using order_split r by blast
  have ts: "t_slot (the (tenant_of (i_tenants inp) (slot_at inp x))) = slot_at inp x"
    using r by (auto simp: is_ready_def tenant_of_def dest: find_Some_iff')
  have "bt_get (rot_last_submitter (os_rot st)) (slot_at inp x, ws_at inp x) = Some (turn_key (i_queued inp ! x))"
    using st(4) serve_all_last_submitter [OF m] a by simp
  then have l: "bt_get (rot_last_submitter (os_rot st)) (t_slot (the (tenant_of (i_tenants inp) (slot_at inp x))), ws_at inp x)
      = Some (turn_key (i_queued inp ! x))"
    unfolding ts .
  have "y \<in> set (pend st)" using st(3) y(1,2) by simp
  from step_head [OF st(1,2) this y(3,4)] show ?thesis
    using x l y(5) unfolding head_ok_def by blast
qed

theorem order_submitter_turns_witness: "turn_key (i_queued (ex_input 3 ex_turns) ! 3) = ''ann''"
proof -
  let ?i = "ex_input 3 ex_turns"
  have h: "ready_at ?i 1" "slot_at ?i 0 = slot_at ?i 1" "ws_at ?i 0 = ws_at ?i 1"
    "turn_key (i_queued ?i ! 0) = turn_key (i_queued ?i ! 1)" "ws_at ?i 2 \<noteq> ws_at ?i 1"
    "job_line ?i 1 \<noteq> Line_Ci" "\<not> aged_at ?i 1" "ready_at ?i 3" "slot_at ?i 3 = slot_at ?i 1"
    "job_line ?i 3 = job_line ?i 1" "ws_at ?i 3 = ws_at ?i 1" "turn_key (i_queued ?i ! 1) = ''ann''"
    by code_simp+
  show ?thesis using order_submitter_turns [of ?i "[]" 0 "[2]" 1 "[3]" 3] h by (simp add: ex_turns_order)
qed

text \<open>The jobs whose server is away (or unknown here) come after every ready job, by arrival.\<close>

theorem order_away_last:
  assumes "order inp = Some (xs @ x # ys)" "\<not> ready_at inp x" "y \<in> set ys"
  shows "\<not> ready_at inp y \<and> key_at inp x \<le> key_at inp y"
proof -
  obtain ready where s: "order inp = Some (ready @ away_jobs inp)"
    "mset ready = mset (filter (ready_at inp) [0..<length (i_queued inp)])"
    using order_shape by blast
  have rd: "\<forall>i \<in> set ready. ready_at inp i" using mset_eq_setD [OF s(2)] by auto
  have aw: "\<forall>i \<in> set (away_jobs inp). \<not> ready_at inp i" by (simp add: away_jobs_def)
  have so: "sorted (map (key_at inp) (away_jobs inp))" by (simp add: away_jobs_def)
  have eq: "xs @ x # ys = ready @ away_jobs inp" using assms(1) s(1) by simp
  have "x \<notin> set ready" using rd assms(2) by blast
  then obtain us where "us @ x # ys = away_jobs inp"
    using eq by (auto simp: append_eq_append_conv2 Cons_eq_append_conv)
  then show ?thesis using so aw assms(3) by (metis (mono_tags, lifting) Un_iff set_append list.set_intros(2)
      map_append sorted_append list.simps(9) sorted_simps(2) imageI list.set_map)
qed

theorem order_away_last_witness:
  "\<not> ready_at (ex_input 3 (ex_aged @ [(ex_job 0 ''z'' ''w'' Tier_Ci 1) \<lparr> q_eligible := False \<rparr>,
      (ex_job 7 ''u'' ''w'' Tier_Ci 2)])) 4"
proof -
  let ?i = "ex_input 3 (ex_aged @ [(ex_job 0 ''z'' ''w'' Tier_Ci 1) \<lparr> q_eligible := False \<rparr>,
      (ex_job 7 ''u'' ''w'' Tier_Ci 2)])"
  have h: "order ?i = Some [2, 1, 0, 3, 4]" "\<not> ready_at ?i 3" by code_simp+
  show ?thesis using order_away_last [of ?i "[2, 1, 0]" 3 "[4]" 4] h by simp
qed

end
