(* ===== verification/Queue_Sim.thy ===== *)
theory Queue_Sim
  imports Queue_Defs
begin

text \<open>
  \<open>queue.rs\<close>, the starts: \<open>fit\<close> (may a job start beside what runs?),
  \<open>simulate\<close> (run the queue forward, with the hold), \<open>decide\<close> (order, starts,
  positions, ETAs, wait reasons and the rotation after the starts) and \<open>quote\<close>. The round
  limit of the simulation is the code's own \<open>4 * len + 8\<close>.
\<close>

section \<open>Fit\<close>

record SimRun =
  sr_slot :: Slot
  sr_ws :: string
  sr_secret :: bool
  sr_cpu :: nat
  sr_mem :: nat
  sr_exclusive :: bool
  sr_end :: "nat option"
  sr_lingering :: bool
  sr_submitter :: "string option"
  sr_counts_for_submitter :: bool

datatype Fit = FitNow | FitWait string | FitCapacity string | FitNever

definition count_as_u32 :: "('a \<Rightarrow> bool) \<Rightarrow> 'a list \<Rightarrow> nat" where
  "count_as_u32 P xs = as_u32 (length (filter P xs))"

definition ws_full :: "Queued \<Rightarrow> SimRun list \<Rightarrow> bool" where
  "ws_full e run =
     (case q_ws_max_running e of
        None \<Rightarrow> False
      | Some m \<Rightarrow> count_as_u32 (\<lambda>r. sr_slot r = q_slot e \<and> sr_ws r = q_workspace_id e) run \<ge> max m 1)"

definition submitter_full :: "Queued \<Rightarrow> Line \<Rightarrow> SimRun list \<Rightarrow> bool" where
  "submitter_full e ln run =
     (case q_submitter_max_running e of
        None \<Rightarrow> False
      | Some m \<Rightarrow> m > 0 \<and> ln \<noteq> Line_Ci
          \<and> count_as_u32 (\<lambda>r. sr_counts_for_submitter r \<and> sr_slot r = q_slot e \<and> sr_ws r = q_workspace_id e
              \<and> unwrap_or (sr_submitter r) '''' = turn_key e) run \<ge> m)"

definition blockers :: "Input \<Rightarrow> Queued \<Rightarrow> SimRun list \<Rightarrow> SimRun list" where
  "blockers inp e run = filter (\<lambda>r. isolation_blocks (c_one_uid (i_cfg inp)) (q_slot e) (q_workspace_id e)
     (q_secret e) [(sr_slot r, sr_ws r, sr_secret r)]) run"

definition fit :: "Input \<Rightarrow> Queued \<Rightarrow> Tenant \<Rightarrow> SimRun list \<Rightarrow> Fit" where
  "fit inp e t run =
     (let caps = i_caps inp; cpu = job_cpu inp e; mem = job_mem inp e; ln = line_of e t in
      if cpu > cap_cpu_millis caps \<or> mem > cap_mem_bytes caps then FitNever
      else if count_as_u32 (\<lambda>r. sr_slot r = q_slot e) run \<ge> l_max_running (t_limits t)
        then FitWait SERVER_RUNNING_FULL
      else if ws_full e run then FitWait WORKSPACE_RUNNING_FULL
      else if submitter_full e ln run then FitWait SUBMITTER_RUNNING_FULL
      else if ln = Line_Batch \<and> run \<noteq> [] then FitWait BATCH_WINDOW
      else if blockers inp e run \<noteq> [] then
        (let code = (if list_all sr_lingering (blockers inp e run) then LINGERING else ISOLATION_WAIT)
         in if line_holds ln then FitCapacity code else FitWait code)
      else if list_ex sr_exclusive run \<or> (q_exclusive e \<and> run \<noteq> []) then FitCapacity WAITING_FOR_IDLE
      else if as_u32 (length run) \<ge> cap_parallel_max caps then
        FitCapacity (if list_all sr_lingering run then LINGERING else WAITING_FOR_ROOM)
      else if sat_add64 (u64_sum (map sr_cpu run)) cpu > cap_cpu_millis caps
           \<or> sat_add64 (u64_sum (map sr_mem run)) mem > cap_mem_bytes caps
        then FitCapacity WAITING_FOR_ROOM
      else FitNow)"

section \<open>The start pass\<close>

record sim_state =
  ss_run :: "SimRun list"
  ss_start_at :: "nat option list"
  ss_blocked :: "string option list"
  ss_why_now :: "string option list"
  ss_ahead :: "(Slot \<times> string \<times> Line, string list) btree"
  ss_held :: "string option"
  ss_head_seen :: bool
  ss_started :: "nat list"

definition sim_of_running :: "bool \<Rightarrow> Running \<Rightarrow> SimRun" where
  "sim_of_running p90 r =
     \<lparr> sr_slot = r_slot r, sr_ws = r_workspace_id r, sr_secret = r_secret r, sr_cpu = r_cpu_millis r,
       sr_mem = r_mem_bytes r, sr_exclusive = r_exclusive r,
       sr_end = (if p90 then or_else (r_left_p90 r) (r_left_p50 r) else r_left_p50 r),
       sr_lingering = starts_with (r_job_id r) LINGER_JOB_PREFIX,
       sr_submitter = or_else (r_submitter r) (r_session_id r),
       sr_counts_for_submitter = (r_tier r \<noteq> Tier_Ci) \<rparr>"

definition sim_of_start :: "Input \<Rightarrow> bool \<Rightarrow> nat \<Rightarrow> Queued \<Rightarrow> Tenant \<Rightarrow> SimRun" where
  "sim_of_start inp p90 now e t =
     \<lparr> sr_slot = q_slot e, sr_ws = q_workspace_id e, sr_secret = q_secret e, sr_cpu = job_cpu inp e,
       sr_mem = job_mem inp e, sr_exclusive = q_exclusive e,
       sr_end = map_option (\<lambda>d. u64_add now (max d 1))
         (if p90 then or_else (q_est_p90 e) (q_est_p50 e) else q_est_p50 e),
       sr_lingering = False, sr_submitter = Some (turn_key e),
       sr_counts_for_submitter = (line_of e t \<noteq> Line_Ci) \<rparr>"

text \<open>Round 0 notes why a job does not start now, and who waits ahead of whom.\<close>

definition why_not :: "Fit \<Rightarrow> string option \<Rightarrow> bool \<Rightarrow> string option" where
  "why_not f held others_ahead =
     (case (f, held) of
        (FitNow, None) \<Rightarrow> None
      | (FitNever, _) \<Rightarrow> None
      | (FitNow, Some h) \<Rightarrow> Some h
      | (FitCapacity _, Some h) \<Rightarrow> Some h
      | (FitCapacity c, None) \<Rightarrow> if c = WAITING_FOR_ROOM \<and> others_ahead then Some TURN else Some c
      | (FitWait c, _) \<Rightarrow> Some c)"

definition note_round0 :: "Queued \<Rightarrow> Tenant \<Rightarrow> nat \<Rightarrow> Fit \<Rightarrow> sim_state \<Rightarrow> sim_state" where
  "note_round0 e t i f st =
     (let key = (q_slot e, q_workspace_id e, line_of e t);
          others = list_ex (\<lambda>x. x \<noteq> turn_key e) (unwrap_or (bt_get (ss_ahead st) key) []);
          st1 = st \<lparr> ss_why_now := (ss_why_now st)[i := why_not f (ss_held st) others] \<rparr>
      in if f = FitNow \<and> ss_held st = None then st1
         else st1 \<lparr> ss_ahead := bt_insert key
                (btree_set (turn_key e # unwrap_or (bt_get (ss_ahead st) key) [])) (ss_ahead st) \<rparr>)"

definition hold_on_capacity :: "Input \<Rightarrow> Queued \<Rightarrow> Tenant \<Rightarrow> nat \<Rightarrow> sim_state \<Rightarrow> sim_state" where
  "hold_on_capacity inp e t now st =
     (let first = \<not> ss_head_seen st;
          waited = i64_add (i64_sub (i_now inp) (q_enqueued_at e)) (as_i64 now);
          ln = line_of e t;
          st1 = st \<lparr> ss_head_seen := True \<rparr>
      in if line_holds ln then st1 \<lparr> ss_held := Some TIER_HOLD \<rparr>
         else if first \<and> backfill_holds ln \<and> waited \<ge> c_backfill_hold_secs (i_cfg inp)
           then st1 \<lparr> ss_held := Some BACKFILL_HOLD \<rparr>
         else st1)"

definition pass_step :: "Input \<Rightarrow> bool \<Rightarrow> nat \<Rightarrow> nat \<Rightarrow> nat \<Rightarrow> sim_state \<Rightarrow> sim_state option" where
  "pass_step inp p90 round now i st = do {
     let e = i_queued inp ! i;
     t \<leftarrow> tenant_of (i_tenants inp) (q_slot e);
     let f = fit inp e t (ss_run st);
     let st1 = (if round = 0 then note_round0 e t i f st else st);
     Some (case f of
        FitNow \<Rightarrow>
          if ss_held st = None then
            st1 \<lparr> ss_run := ss_run st @ [sim_of_start inp p90 now e t],
                  ss_start_at := (ss_start_at st)[i := Some now],
                  ss_started := ss_started st @ [i] \<rparr>
          else st1
      | FitCapacity _ \<Rightarrow> if ss_held st = None then hold_on_capacity inp e t now st1 else st1
      | FitNever \<Rightarrow> st1 \<lparr> ss_blocked := (ss_blocked st)[i := Some EXCEEDS_NODE_CAPS] \<rparr>
      | FitWait _ \<Rightarrow> st1)
   }"

fun start_pass :: "Input \<Rightarrow> bool \<Rightarrow> nat \<Rightarrow> nat \<Rightarrow> nat list \<Rightarrow> sim_state \<Rightarrow> sim_state option" where
  "start_pass inp p90 round now [] st = Some st"
| "start_pass inp p90 round now (i # js) st =
     Option.bind (pass_step inp p90 round now i st) (start_pass inp p90 round now js)"

section \<open>The simulation\<close>

definition new_pass :: "sim_state \<Rightarrow> sim_state" where
  "new_pass st = st \<lparr> ss_held := None, ss_head_seen := False, ss_started := [] \<rparr>"

definition min_end :: "SimRun list \<Rightarrow> nat option" where
  "min_end run = min_by_key (\<lambda>x. x) (List.map_filter sr_end run)"

definition still_runs :: "nat \<Rightarrow> SimRun \<Rightarrow> bool" where
  "still_runs now r = (case sr_end r of None \<Rightarrow> True | Some e \<Rightarrow> e > now)"

fun sim_rounds :: "Input \<Rightarrow> bool \<Rightarrow> nat \<Rightarrow> nat \<Rightarrow> nat \<Rightarrow> nat list \<Rightarrow> sim_state \<Rightarrow> sim_state option" where
  "sim_rounds inp p90 0 round now pending st = Some st"
| "sim_rounds inp p90 (Suc n) round now pending st = do {
     st1 \<leftarrow> start_pass inp p90 round now pending (new_pass st);
     let pending1 = filter (\<lambda>i. i \<notin> set (ss_started st1) \<and> ss_blocked st1 ! i = None) pending;
     if pending1 = [] then Some st1
     else case min_end (ss_run st1) of
         None \<Rightarrow> Some st1
       | Some nxt \<Rightarrow>
           (let now1 = max nxt now in
            sim_rounds inp p90 n (round + 1) now1 pending1
              (st1 \<lparr> ss_run := filter (still_runs now1) (ss_run st1) \<rparr>))
   }"

text \<open>Who can never start here, before the first round.\<close>

definition triage_one :: "Input \<Rightarrow> Queued \<Rightarrow> string option" where
  "triage_one inp e =
     (case tenant_of (i_tenants inp) (q_slot e) of
        None \<Rightarrow> Some SERVER_NOT_APPROVED
      | Some t \<Rightarrow> if \<not> q_eligible e then Some SERVER_OFFLINE
          else or_else (cap_blocked (i_caps inp)) (t_blocked t))"

fun triage :: "Input \<Rightarrow> nat list \<Rightarrow> string option list \<times> nat list \<Rightarrow> string option list \<times> nat list" where
  "triage inp [] acc = acc"
| "triage inp (i # js) (bl, pending) =
     triage inp js (case triage_one inp (i_queued inp ! i) of
         Some b \<Rightarrow> (bl[i := Some b], pending)
       | None \<Rightarrow> (bl, pending @ [i]))"

record Sim =
  s_start_at :: "nat option list"
  s_blocked :: "string option list"
  s_why_now :: "string option list"

definition sim_init :: "Input \<Rightarrow> bool \<Rightarrow> string option list \<Rightarrow> sim_state" where
  "sim_init inp p90 bl =
     \<lparr> ss_run = map (sim_of_running p90) (i_running inp),
       ss_start_at = replicate (length (i_queued inp)) None, ss_blocked = bl,
       ss_why_now = replicate (length (i_queued inp)) None, ss_ahead = [], ss_held = None,
       ss_head_seen = False, ss_started = [] \<rparr>"

definition simulate :: "Input \<Rightarrow> nat list \<Rightarrow> bool \<Rightarrow> Sim option" where
  "simulate inp ord p90 =
     (let (bl, pending) = triage inp ord (replicate (length (i_queued inp)) None, []) in do {
        st \<leftarrow> sim_rounds inp p90 (4 * length (i_queued inp) + 8) 0 0 pending (sim_init inp p90 bl);
        Some \<lparr> s_start_at = ss_start_at st, s_blocked = ss_blocked st, s_why_now = ss_why_now st \<rparr>
      })"

section \<open>The answer\<close>

record Info =
  inf_pos :: nat
  inf_of :: nat
  inf_starts_now :: bool
  inf_eta_secs :: "nat option"
  inf_eta_p90_secs :: "nat option"
  inf_blocked_by :: "string option"

definition Info_default :: Info where
  "Info_default = \<lparr> inf_pos = 0, inf_of = 0, inf_starts_now = False, inf_eta_secs = None,
     inf_eta_p90_secs = None, inf_blocked_by = None \<rparr>"

record Decision =
  d_order :: "nat list"
  d_start :: "nat list"
  d_info :: "Info list"
  d_rotation :: Rotation

definition blocked_by_of :: "Input \<Rightarrow> Sim \<Rightarrow> nat \<Rightarrow> string option" where
  "blocked_by_of inp fast i =
     (let e = i_queued inp ! i;
          now = (s_start_at fast ! i = Some 0);
          b0 = s_blocked fast ! i;
          b1 = (if b0 = None \<and> \<not> now then
                  (case tenant_of (i_tenants inp) (q_slot e) of
                     Some t \<Rightarrow> if over_quota t then Some OVER_QUOTA else None
                   | None \<Rightarrow> None)
                else b0)
      in if b1 = None \<and> \<not> now then s_why_now fast ! i else b1)"

definition decide_info :: "Input \<Rightarrow> Sim \<Rightarrow> Sim \<Rightarrow> nat \<Rightarrow> nat \<Rightarrow> nat \<Rightarrow> Info" where
  "decide_info inp fast slow tot pos i =
     \<lparr> inf_pos = (as_u32 pos + 1) mod 2 ^ 32, inf_of = tot,
       inf_starts_now = (s_start_at fast ! i = Some 0),
       inf_eta_secs = s_start_at fast ! i,
       inf_eta_p90_secs = or_else (s_start_at slow ! i) (s_start_at fast ! i),
       inf_blocked_by = blocked_by_of inp fast i \<rparr>"

fun decide_loop :: "Input \<Rightarrow> Sim \<Rightarrow> Sim \<Rightarrow> nat \<Rightarrow> nat \<Rightarrow> nat list \<Rightarrow> nat list \<times> Info list \<times> Rotation
    \<Rightarrow> nat list \<times> Info list \<times> Rotation" where
  "decide_loop inp fast slow tot pos [] acc = acc"
| "decide_loop inp fast slow tot pos (i # js) (start, info, rot) =
     (let e = i_queued inp ! i;
          now = (s_start_at fast ! i = Some 0);
          ln = unwrap_or (map_option (line_of e) (tenant_of (i_tenants inp) (q_slot e))) Line_Standard
      in decide_loop inp fast slow tot (pos + 1) js
           (if now then start @ [i] else start,
            info[i := decide_info inp fast slow tot pos i],
            if now then served rot e ln else rot))"

definition decide :: "Input \<Rightarrow> Decision option" where
  "decide inp = do {
     ord \<leftarrow> order inp;
     fast \<leftarrow> simulate inp ord False;
     slow \<leftarrow> simulate inp ord True;
     let (start, info, rot) = decide_loop inp fast slow (as_u32 (length ord)) 0 ord
         ([], replicate (length (i_queued inp)) Info_default, i_rotation inp);
     Some \<lparr> d_order = ord, d_start = start, d_info = info, d_rotation = rot \<rparr>
   }"

end
