(* ===== verification/Queue_Starts.thy ===== *)
theory Queue_Starts
  imports Queue_Sim Queue_Order "HOL-Library.Sublist"
begin

text \<open>
  The starts of the node queue. The jobs \<open>decide\<close> starts are those of the first start pass
  (\<open>decide_starts\<close>), each of which fitted beside what was running and what started before
  it. From that sequence follow the hard limits: the node's caps, the tenant, workspace and
  submitter limits, exclusivity, the idle rule of Batch and secret isolation.
\<close>

section \<open>One step of the start pass\<close>

definition tenant_at :: "Input \<Rightarrow> nat \<Rightarrow> Tenant" where
  "tenant_at inp i = the (tenant_of (i_tenants inp) (q_slot (i_queued inp ! i)))"

definition start_run :: "Input \<Rightarrow> bool \<Rightarrow> nat \<Rightarrow> nat \<Rightarrow> SimRun" where
  "start_run inp p90 now i = sim_of_start inp p90 now (i_queued inp ! i) (tenant_at inp i)"

abbreviation fit_at :: "Input \<Rightarrow> nat \<Rightarrow> SimRun list \<Rightarrow> Fit" where
  "fit_at inp i run \<equiv> fit inp (i_queued inp ! i) (tenant_at inp i) run"

abbreviation known :: "Input \<Rightarrow> nat \<Rightarrow> bool" where
  "known inp i \<equiv> tenant_of (i_tenants inp) (q_slot (i_queued inp ! i)) \<noteq> None"

lemma note_round0_simps [simp]:
  "ss_run (note_round0 e t i f st) = ss_run st"
  "ss_start_at (note_round0 e t i f st) = ss_start_at st"
  "ss_blocked (note_round0 e t i f st) = ss_blocked st"
  "ss_held (note_round0 e t i f st) = ss_held st"
  "ss_head_seen (note_round0 e t i f st) = ss_head_seen st"
  "ss_started (note_round0 e t i f st) = ss_started st"
  "\<exists>b. ss_why_now (note_round0 e t i f st) = (ss_why_now st)[i := why_not f (ss_held st) b]"
  by (auto simp: note_round0_def Let_def)

lemma hold_on_capacity_simps [simp]:
  "ss_run (hold_on_capacity inp e t now st) = ss_run st"
  "ss_start_at (hold_on_capacity inp e t now st) = ss_start_at st"
  "ss_blocked (hold_on_capacity inp e t now st) = ss_blocked st"
  "ss_why_now (hold_on_capacity inp e t now st) = ss_why_now st"
  "ss_started (hold_on_capacity inp e t now st) = ss_started st"
  "line_holds (line_of e t) \<Longrightarrow> ss_held (hold_on_capacity inp e t now st) \<noteq> None"
  by (simp_all add: hold_on_capacity_def Let_def)

lemma why_not_Some: "f \<noteq> FitNever \<Longrightarrow> f \<noteq> FitNow \<or> held \<noteq> None \<Longrightarrow> why_not f held b \<noteq> None"
  by (cases f; cases held) (auto simp: why_not_def)

text \<open>What a step does, by cases: the job starts, or nothing starts and (in round 0) it gets a reason.\<close>

definition starts_here :: "Input \<Rightarrow> nat \<Rightarrow> sim_state \<Rightarrow> bool" where
  "starts_here inp i st \<longleftrightarrow> fit_at inp i (ss_run st) = FitNow \<and> ss_held st = None"

lemma pass_step_Some: "known inp i \<Longrightarrow> \<exists>st'. pass_step inp p90 r now i st = Some st'"
  by (auto simp: pass_step_def Let_def)

definition noted :: "Input \<Rightarrow> nat \<Rightarrow> nat \<Rightarrow> sim_state \<Rightarrow> sim_state" where
  "noted inp r i st = (if r = 0 then note_round0 (i_queued inp ! i) (tenant_at inp i) i (fit_at inp i (ss_run st)) st else st)"

lemma noted_simps [simp]:
  "ss_run (noted inp r i st) = ss_run st"
  "ss_start_at (noted inp r i st) = ss_start_at st"
  "ss_blocked (noted inp r i st) = ss_blocked st"
  "ss_held (noted inp r i st) = ss_held st"
  "ss_started (noted inp r i st) = ss_started st"
  by (simp_all add: noted_def)

lemma noted_why:
  "if r = 0 then (\<exists>b. ss_why_now (noted inp r i st) = (ss_why_now st)[i := why_not (fit_at inp i (ss_run st)) (ss_held st) b])
   else ss_why_now (noted inp r i st) = ss_why_now st"
  using note_round0_simps(7) by (simp add: noted_def)

lemma pass_step_known: "pass_step inp p90 r now i st = Some st' \<Longrightarrow> known inp i"
  by (auto simp: pass_step_def opt_simps Let_def)

lemma pass_step_eq:
  assumes "pass_step inp p90 r now i st = Some st'"
  shows "st' = (case fit_at inp i (ss_run st) of
        FitNow \<Rightarrow>
          if ss_held st = None then
            (noted inp r i st) \<lparr> ss_run := ss_run st @ [start_run inp p90 now i],
                  ss_start_at := (ss_start_at st)[i := Some now],
                  ss_started := ss_started st @ [i] \<rparr>
          else noted inp r i st
      | FitCapacity _ \<Rightarrow> if ss_held st = None
          then hold_on_capacity inp (i_queued inp ! i) (tenant_at inp i) now (noted inp r i st) else noted inp r i st
      | FitNever \<Rightarrow> (noted inp r i st) \<lparr> ss_blocked := (ss_blocked st)[i := Some EXCEEDS_NODE_CAPS] \<rparr>
      | FitWait _ \<Rightarrow> noted inp r i st)"
proof -
  have t: "tenant_of (i_tenants inp) (q_slot (i_queued inp ! i)) = Some (tenant_at inp i)"
    using pass_step_known [OF assms] by (auto simp: tenant_at_def)
  show ?thesis
    using assms unfolding pass_step_def noted_def start_run_def Let_def t Option.bind.simps
    by (rule option.inject [THEN iffD1, symmetric])
qed

lemma pass_step_start:
  assumes "pass_step inp p90 r now i st = Some st'" "starts_here inp i st"
  shows "ss_run st' = ss_run st @ [start_run inp p90 now i] \<and> ss_start_at st' = (ss_start_at st)[i := Some now]
     \<and> ss_started st' = ss_started st @ [i] \<and> ss_blocked st' = ss_blocked st \<and> ss_held st' = None"
  using pass_step_eq [OF assms(1)] assms(2) by (simp add: starts_here_def)

lemma pass_step_stay:
  assumes "pass_step inp p90 r now i st = Some st'" "\<not> starts_here inp i st"
  shows "ss_run st' = ss_run st \<and> ss_start_at st' = ss_start_at st \<and> ss_started st' = ss_started st
     \<and> ss_blocked st' = (if fit_at inp i (ss_run st) = FitNever then (ss_blocked st)[i := Some EXCEEDS_NODE_CAPS] else ss_blocked st)
     \<and> (ss_held st \<noteq> None \<longrightarrow> ss_held st' = ss_held st)"
  using pass_step_eq [OF assms(1)] assms(2)
  by (cases "fit_at inp i (ss_run st)") (simp_all add: starts_here_def)

lemma pass_step_why:
  assumes "pass_step inp p90 r now i st = Some st'"
  shows "if r = 0 then (\<exists>b. ss_why_now st' = (ss_why_now st)[i := why_not (fit_at inp i (ss_run st)) (ss_held st) b])
     else ss_why_now st' = ss_why_now st"
  using pass_step_eq [OF assms] noted_why [of r inp i st]
  by (cases "fit_at inp i (ss_run st)"; cases "ss_held st"; cases "r = 0") simp_all

lemma pass_step_hold:
  assumes "pass_step inp p90 r now i st = Some st'" "fit_at inp i (ss_run st) = FitCapacity c"
    "line_holds (line_of (i_queued inp ! i) (tenant_at inp i))"
  shows "ss_held st' \<noteq> None"
  using pass_step_eq [OF assms(1)] assms(2,3) by (cases "ss_held st") simp_all

section \<open>The start pass\<close>

text \<open>Each job of the sequence fits beside what ran and what started before it.\<close>

fun fits :: "Input \<Rightarrow> (nat \<Rightarrow> SimRun) \<Rightarrow> SimRun list \<Rightarrow> nat list \<Rightarrow> bool" where
  "fits inp sr run [] = True"
| "fits inp sr run (i # js) = (fit_at inp i run = FitNow \<and> fits inp sr (run @ [sr i]) js)"

lemma fits_split: "fits inp sr run (xs @ i # ys) \<Longrightarrow> fit_at inp i (run @ map sr xs) = FitNow"
proof (induction xs arbitrary: run)
  case (Cons a xs)
  then show ?case using Cons.IH [of "run @ [sr a]"] by simp
qed simp

lemma list_update_Some_mono: "xs ! i \<noteq> None \<Longrightarrow> xs[k := Some y] ! i \<noteq> None"
  by (cases "k < length xs"; cases "i = k") (auto simp: list_update_beyond)

definition sim_wf :: "Input \<Rightarrow> sim_state \<Rightarrow> bool" where
  "sim_wf inp st \<longleftrightarrow> length (ss_start_at st) = length (i_queued inp)
     \<and> length (ss_blocked st) = length (i_queued inp) \<and> length (ss_why_now st) = length (i_queued inp)"

lemma pass_step_wf: "pass_step inp p90 r now i st = Some st' \<Longrightarrow> sim_wf inp st \<Longrightarrow> sim_wf inp st'"
  using pass_step_start [of inp p90 r now i st st'] pass_step_stay [of inp p90 r now i st st']
    pass_step_why [of inp p90 r now i st st']
  by (cases "starts_here inp i st"; cases "r = 0") (auto simp: sim_wf_def)

lemma start_pass_wf: "start_pass inp p90 r now js st = Some st' \<Longrightarrow> sim_wf inp st \<Longrightarrow> sim_wf inp st'"
  by (induction js arbitrary: st) (auto simp: opt_simps dest: pass_step_wf)

lemma start_pass_Some: "\<forall>i \<in> set js. known inp i \<Longrightarrow> \<exists>st'. start_pass inp p90 r now js st = Some st'"
proof (induction js arbitrary: st)
  case (Cons i js)
  then obtain st1 where "pass_step inp p90 r now i st = Some st1" using pass_step_Some by (meson list.set_intros(1))
  then show ?case using Cons by simp
qed simp

lemma start_pass_starts:
  "start_pass inp p90 r now js st = Some st' \<Longrightarrow> sim_wf inp st \<Longrightarrow> \<forall>i \<in> set js. i < length (i_queued inp) \<Longrightarrow>
   \<exists>ns. subseq ns js \<and> fits inp (start_run inp p90 now) (ss_run st) ns
     \<and> ss_run st' = ss_run st @ map (start_run inp p90 now) ns \<and> ss_started st' = ss_started st @ ns
     \<and> (\<forall>i < length (i_queued inp). ss_start_at st' ! i = (if i \<in> set ns then Some now else ss_start_at st ! i))"
proof (induction js arbitrary: st)
  case Nil
  then show ?case by auto
next
  case (Cons i js)
  obtain st1 where s: "pass_step inp p90 r now i st = Some st1" "start_pass inp p90 r now js st1 = Some st'"
    using Cons.prems(1) by (auto simp: opt_simps)
  have wf: "sim_wf inp st1" using pass_step_wf [OF s(1) Cons.prems(2)] .
  obtain ns where ns: "subseq ns js" "fits inp (start_run inp p90 now) (ss_run st1) ns"
    "ss_run st' = ss_run st1 @ map (start_run inp p90 now) ns" "ss_started st' = ss_started st1 @ ns"
    "\<forall>i < length (i_queued inp). ss_start_at st' ! i = (if i \<in> set ns then Some now else ss_start_at st1 ! i)"
    using Cons.IH [OF s(2) wf] Cons.prems(3) by auto
  show ?case
  proof (cases "starts_here inp i st")
    case True
    then show ?thesis
      using pass_step_start [OF s(1) True] ns Cons.prems(2,3)
      by (intro exI [of _ "i # ns"]) (auto simp: starts_here_def sim_wf_def nth_list_update)
  next
    case False
    then show ?thesis using pass_step_stay [OF s(1) False] ns by (intro exI [of _ ns]) auto
  qed
qed

text \<open>A job that waits for room in a holding line stops every later start of the pass.\<close>

lemma start_pass_held:
  "start_pass inp p90 r now js st = Some st' \<Longrightarrow> ss_held st \<noteq> None \<Longrightarrow> ss_started st' = ss_started st"
proof (induction js arbitrary: st)
  case (Cons i js)
  obtain st1 where s: "pass_step inp p90 r now i st = Some st1" "start_pass inp p90 r now js st1 = Some st'"
    using Cons.prems(1) by (auto simp: opt_simps)
  have "\<not> starts_here inp i st" using Cons.prems(2) by (simp add: starts_here_def)
  then show ?case using pass_step_stay [OF s(1)] Cons.IH [OF s(2)] Cons.prems(2) by simp
qed simp

lemma start_pass_app:
  "start_pass inp p90 r now (js @ ks) st = Option.bind (start_pass inp p90 r now js st) (start_pass inp p90 r now ks)"
  by (induction js arbitrary: st) (simp_all split: bind_split)

section \<open>Reasons\<close>

lemma start_pass_blocked_mono:
  "start_pass inp p90 r now js st = Some st' \<Longrightarrow> sim_wf inp st \<Longrightarrow> i < length (i_queued inp) \<Longrightarrow>
   ss_blocked st ! i \<noteq> None \<Longrightarrow> ss_blocked st' ! i \<noteq> None"
proof (induction js arbitrary: st)
  case (Cons k js)
  obtain st1 where s: "pass_step inp p90 r now k st = Some st1" "start_pass inp p90 r now js st1 = Some st'"
    using Cons.prems(1) by (auto simp: opt_simps)
  have "ss_blocked st1 ! i \<noteq> None"
    using pass_step_start [OF s(1)] pass_step_stay [OF s(1)] list_update_Some_mono [OF Cons.prems(4)] Cons.prems(4)
    by (cases "starts_here inp k st"; cases "fit_at inp k (ss_run st) = FitNever") simp_all
  then show ?case using Cons.IH [OF s(2) pass_step_wf [OF s(1) Cons.prems(2)] Cons.prems(3)] by simp
qed simp

lemma start_pass_why_other:
  "start_pass inp p90 r now js st = Some st' \<Longrightarrow> i \<notin> set js \<or> r \<noteq> 0 \<Longrightarrow> ss_why_now st' ! i = ss_why_now st ! i"
proof (induction js arbitrary: st)
  case (Cons k js)
  obtain st1 where s: "pass_step inp p90 r now k st = Some st1" "start_pass inp p90 r now js st1 = Some st'"
    using Cons.prems(1) by (auto simp: opt_simps)
  have "ss_why_now st1 ! i = ss_why_now st ! i"
    using pass_step_why [OF s(1)] Cons.prems(2) by (cases "r = 0") auto
  then show ?case using Cons.IH [OF s(2)] Cons.prems(2) by auto
qed simp

lemma start_pass_reason:
  "start_pass inp p90 0 now js st = Some st' \<Longrightarrow> sim_wf inp st \<Longrightarrow> distinct js \<Longrightarrow> i \<in> set js \<Longrightarrow>
   i < length (i_queued inp) \<Longrightarrow> \<exists>ns. ss_started st' = ss_started st @ ns \<and>
   (i \<in> set ns \<or> ss_blocked st' ! i \<noteq> None \<or> ss_why_now st' ! i \<noteq> None)"
proof (induction js arbitrary: st)
  case (Cons k js)
  obtain st1 where s: "pass_step inp p90 0 now k st = Some st1" "start_pass inp p90 0 now js st1 = Some st'"
    using Cons.prems(1) by (auto simp: opt_simps)
  have wf1: "sim_wf inp st1" using pass_step_wf [OF s(1) Cons.prems(2)] .
  have pre: "\<exists>ms. ss_started st1 = ss_started st @ ms \<and> set ms \<subseteq> {k}"
    using pass_step_start [OF s(1)] pass_step_stay [OF s(1)] by (cases "starts_here inp k st") auto
  have suf: "\<exists>ms. ss_started st' = ss_started st1 @ ms"
  proof -
    have "start_pass inp p90 0 now js st1 = Some st' \<Longrightarrow> \<exists>ms. ss_started st' = ss_started st1 @ ms" for js st1
    proof (induction js arbitrary: st1)
      case (Cons k js)
      obtain st2 where s2: "pass_step inp p90 0 now k st1 = Some st2" "start_pass inp p90 0 now js st2 = Some st'"
        using Cons.prems by (auto simp: opt_simps)
      have "\<exists>ms. ss_started st2 = ss_started st1 @ ms"
        using pass_step_start [OF s2(1)] pass_step_stay [OF s2(1)] by (cases "starts_here inp k st1") auto
      then show ?case using Cons.IH [OF s2(2)] by auto
    qed simp
    then show ?thesis using s(2) by blast
  qed
  show ?case
  proof (cases "i = k")
    case False
    then have "i \<in> set js" using Cons.prems(4) by simp
    then obtain ns where "ss_started st' = ss_started st1 @ ns"
      "i \<in> set ns \<or> ss_blocked st' ! i \<noteq> None \<or> ss_why_now st' ! i \<noteq> None"
      using Cons.IH [OF s(2) wf1 _ _ Cons.prems(5)] Cons.prems(3) by auto
    then show ?thesis using pre by auto
  next
    case True
    then have ni: "i \<notin> set js" using Cons.prems(3) by simp
    show ?thesis
    proof (cases "starts_here inp i st")
      case True
      then show ?thesis using pass_step_start [OF s(1)] suf \<open>i = k\<close> by auto
    next
      case False
      have "ss_blocked st1 ! i \<noteq> None \<or> ss_why_now st1 ! i \<noteq> None"
      proof (cases "fit_at inp i (ss_run st) = FitNever")
        case True
        then show ?thesis using pass_step_stay [OF s(1)] False \<open>i = k\<close> Cons.prems(2,5) by (simp add: sim_wf_def)
      next
        case ne: False
        then obtain b where "ss_why_now st1 = (ss_why_now st)[i := why_not (fit_at inp i (ss_run st)) (ss_held st) b]"
          using pass_step_why [OF s(1)] \<open>i = k\<close> by auto
        then show ?thesis
          using why_not_Some [OF ne] False Cons.prems(2,5) by (simp add: starts_here_def sim_wf_def) 
      qed
      then have "ss_blocked st' ! i \<noteq> None \<or> ss_why_now st' ! i \<noteq> None"
        using start_pass_blocked_mono [OF s(2) wf1 Cons.prems(5)] start_pass_why_other [OF s(2)] ni by auto
      then show ?thesis using pre suf by fastforce
    qed
  qed
qed simp

section \<open>The rounds\<close>

lemma new_pass_simps [simp]:
  "ss_run (new_pass st) = ss_run st" "ss_start_at (new_pass st) = ss_start_at st"
  "ss_blocked (new_pass st) = ss_blocked st" "ss_why_now (new_pass st) = ss_why_now st"
  "ss_held (new_pass st) = None" "ss_started (new_pass st) = []" "sim_wf inp (new_pass st) = sim_wf inp st"
  by (simp_all add: new_pass_def sim_wf_def)

lemma sim_wf_run [simp]: "sim_wf inp (st \<lparr> ss_run := r \<rparr>) = sim_wf inp st"
  by (simp add: sim_wf_def)

lemma sim_rounds_Some:
  "\<forall>i \<in> set pending. known inp i \<Longrightarrow> \<exists>st'. sim_rounds inp p90 n r now pending st = Some st'"
proof (induction n arbitrary: r now pending st)
  case (Suc n)
  obtain st1 where "start_pass inp p90 r now pending (new_pass st) = Some st1"
    using start_pass_Some [OF Suc.prems] by blast
  then show ?case using Suc by (auto simp: Let_def split: option.splits)
qed simp

text \<open>One round: a start pass, then either the end or a later round at a later time.\<close>

lemma sim_rounds_Suc:
  assumes "sim_rounds inp p90 (Suc n) r now pending st = Some st'"
  shows "\<exists>st1. start_pass inp p90 r now pending (new_pass st) = Some st1 \<and>
    (st' = st1 \<or> (\<exists>nxt run1. min_end (ss_run st1) = Some nxt \<and>
       sim_rounds inp p90 n (r + 1) (max nxt now)
         (filter (\<lambda>i. i \<notin> set (ss_started st1) \<and> ss_blocked st1 ! i = None) pending)
         (st1 \<lparr> ss_run := run1 \<rparr>) = Some st'))"
  using assms by (auto simp: opt_simps Let_def split: if_splits option.splits)

lemma sim_rounds_late:
  "sim_rounds inp p90 n r now pending st = Some st' \<Longrightarrow> 0 < now \<Longrightarrow> sim_wf inp st \<Longrightarrow>
   \<forall>i \<in> set pending. i < length (i_queued inp) \<Longrightarrow> i < length (i_queued inp) \<Longrightarrow>
   ss_start_at st' ! i = ss_start_at st ! i \<or> (i \<in> set pending \<and> (\<exists>m > 0. ss_start_at st' ! i = Some m))"
proof (induction n arbitrary: r now pending st)
  case (Suc n)
  obtain st1 where s: "start_pass inp p90 r now pending (new_pass st) = Some st1"
    and alt: "st' = st1 \<or> (\<exists>nxt run1. min_end (ss_run st1) = Some nxt \<and>
       sim_rounds inp p90 n (r + 1) (max nxt now)
         (filter (\<lambda>i. i \<notin> set (ss_started st1) \<and> ss_blocked st1 ! i = None) pending)
         (st1 \<lparr> ss_run := run1 \<rparr>) = Some st')"
    using sim_rounds_Suc [OF Suc.prems(1)] by blast
  have wf: "sim_wf inp (new_pass st)" "sim_wf inp st1" using Suc.prems(3) start_pass_wf [OF s] by auto
  obtain ns where ns: "subseq ns pending"
    "\<forall>i < length (i_queued inp). ss_start_at st1 ! i = (if i \<in> set ns then Some now else ss_start_at st ! i)"
    using start_pass_starts [OF s wf(1) Suc.prems(4)] by auto
  have one: "ss_start_at st1 ! i = ss_start_at st ! i \<or> (i \<in> set pending \<and> (\<exists>m > 0. ss_start_at st1 ! i = Some m))"
    using ns(2) Suc.prems(2,5) list_emb_set [OF ns(1)] by auto
  from alt show ?case
  proof
    assume "st' = st1"
    then show ?thesis using one by simp
  next
    assume "\<exists>nxt run1. min_end (ss_run st1) = Some nxt \<and>
       sim_rounds inp p90 n (r + 1) (max nxt now)
         (filter (\<lambda>i. i \<notin> set (ss_started st1) \<and> ss_blocked st1 ! i = None) pending)
         (st1 \<lparr> ss_run := run1 \<rparr>) = Some st'"
    then obtain nxt run1 where "sim_rounds inp p90 n (r + 1) (max nxt now)
         (filter (\<lambda>i. i \<notin> set (ss_started st1) \<and> ss_blocked st1 ! i = None) pending)
         (st1 \<lparr> ss_run := run1 \<rparr>) = Some st'" by blast
    from Suc.IH [OF this] show ?thesis using one wf(2) Suc.prems(2,4,5) by (auto simp: less_max_iff_disj)
  qed
qed simp

lemma sim_rounds_frame:
  "sim_rounds inp p90 n r now pending st = Some st' \<Longrightarrow> 0 < r \<Longrightarrow> sim_wf inp st \<Longrightarrow> i < length (i_queued inp) \<Longrightarrow>
   (ss_blocked st ! i \<noteq> None \<longrightarrow> ss_blocked st' ! i \<noteq> None) \<and> ss_why_now st' ! i = ss_why_now st ! i"
proof (induction n arbitrary: r now pending st)
  case (Suc n)
  obtain st1 where s: "start_pass inp p90 r now pending (new_pass st) = Some st1"
    and alt: "st' = st1 \<or> (\<exists>nxt run1. min_end (ss_run st1) = Some nxt \<and>
       sim_rounds inp p90 n (r + 1) (max nxt now)
         (filter (\<lambda>i. i \<notin> set (ss_started st1) \<and> ss_blocked st1 ! i = None) pending)
         (st1 \<lparr> ss_run := run1 \<rparr>) = Some st')"
    using sim_rounds_Suc [OF Suc.prems(1)] by blast
  have wf: "sim_wf inp (new_pass st)" "sim_wf inp st1" using Suc.prems(3) start_pass_wf [OF s] by auto
  have one: "(ss_blocked st ! i \<noteq> None \<longrightarrow> ss_blocked st1 ! i \<noteq> None) \<and> ss_why_now st1 ! i = ss_why_now st ! i"
    using start_pass_blocked_mono [OF s wf(1) Suc.prems(4)] start_pass_why_other [OF s] Suc.prems(2) by simp
  then show ?case using alt Suc.IH wf(2) Suc.prems(4) by fastforce
qed simp

lemma sim_rounds_other:
  "sim_rounds inp p90 n r now pending st = Some st' \<Longrightarrow> sim_wf inp st \<Longrightarrow>
   \<forall>i \<in> set pending. i < length (i_queued inp) \<Longrightarrow> i < length (i_queued inp) \<Longrightarrow> i \<notin> set pending \<Longrightarrow>
   ss_start_at st' ! i = ss_start_at st ! i"
proof (induction n arbitrary: r now pending st)
  case (Suc n)
  obtain st1 where s: "start_pass inp p90 r now pending (new_pass st) = Some st1"
    and alt: "st' = st1 \<or> (\<exists>nxt run1. min_end (ss_run st1) = Some nxt \<and>
       sim_rounds inp p90 n (r + 1) (max nxt now)
         (filter (\<lambda>i. i \<notin> set (ss_started st1) \<and> ss_blocked st1 ! i = None) pending)
         (st1 \<lparr> ss_run := run1 \<rparr>) = Some st')"
    using sim_rounds_Suc [OF Suc.prems(1)] by blast
  have wf: "sim_wf inp (new_pass st)" "sim_wf inp st1" using Suc.prems(2) start_pass_wf [OF s] by auto
  obtain ns where ns: "subseq ns pending"
    "\<forall>i < length (i_queued inp). ss_start_at st1 ! i = (if i \<in> set ns then Some now else ss_start_at st ! i)"
    using start_pass_starts [OF s wf(1) Suc.prems(3)] by auto
  have "i \<notin> set ns" using list_emb_set [OF ns(1)] Suc.prems(5) by blast
  then have one: "ss_start_at st1 ! i = ss_start_at st ! i" using ns(2) Suc.prems(4) by simp
  from alt show ?case
  proof (elim disjE exE conjE)
    assume "st' = st1"
    then show ?thesis using one by simp
  next
    fix nxt run1
    assume "sim_rounds inp p90 n (r + 1) (max nxt now)
         (filter (\<lambda>i. i \<notin> set (ss_started st1) \<and> ss_blocked st1 ! i = None) pending)
         (st1 \<lparr> ss_run := run1 \<rparr>) = Some st'"
    from Suc.IH [OF this] show ?thesis using one wf(2) Suc.prems(3-5) by auto
  qed
qed simp

section \<open>The first round of a simulation\<close>

lemma triage_spec:
  "length bl = n \<Longrightarrow> triage inp js (bl, p) = (bl', p') \<Longrightarrow>
   length bl' = n \<and> p' = p @ filter (\<lambda>i. triage_one inp (i_queued inp ! i) = None) js
   \<and> (\<forall>i < n. bl' ! i = (if i \<in> set js \<and> triage_one inp (i_queued inp ! i) \<noteq> None
        then triage_one inp (i_queued inp ! i) else bl ! i))"
proof (induction js arbitrary: bl p)
  case (Cons k js)
  show ?case
  proof (cases "triage_one inp (i_queued inp ! k)")
    case None
    then show ?thesis using Cons.IH [of bl "p @ [k]"] Cons.prems by auto
  next
    case (Some b)
    then show ?thesis using Cons.IH [of "bl[k := Some b]" p] Cons.prems
      by (auto simp: nth_list_update_eq) (metis nth_list_update_neq option.distinct(1))
  qed
qed auto

definition startable :: "Input \<Rightarrow> nat list \<Rightarrow> nat list" where
  "startable inp ord = filter (\<lambda>i. triage_one inp (i_queued inp ! i) = None) ord"

lemma triage_None_known: "triage_one inp (i_queued inp ! i) = None \<Longrightarrow> known inp i \<and> ready_at inp i"
  by (auto simp: triage_one_def is_ready_def split: option.splits if_splits)

lemma simulate_Some: "\<exists>sim. simulate inp ord p90 = Some sim"
proof -
  obtain bl p where t: "triage inp ord (replicate (length (i_queued inp)) None, []) = (bl, p)" by force
  then have "p = startable inp ord" using triage_spec [OF _ t, of "length (i_queued inp)"] by (simp add: startable_def)
  then have "\<forall>i \<in> set p. known inp i" using triage_None_known by (auto simp: startable_def)
  from sim_rounds_Some [OF this] show ?thesis unfolding simulate_def t by (auto simp: opt_simps)
qed

lemma simulate_first:
  assumes "simulate inp ord p90 = Some sim"
  obtains bl st1 st' where
    "length bl = length (i_queued inp)"
    "\<forall>i < length (i_queued inp). bl ! i = (if i \<in> set ord then triage_one inp (i_queued inp ! i) else None)"
    "start_pass inp p90 0 0 (startable inp ord) (sim_init inp p90 bl) = Some st1"
    "st' = st1 \<or> (\<exists>n nxt run1 js. min_end (ss_run st1) = Some nxt \<and> js \<subseteq> set (startable inp ord) - set (ss_started st1)
       \<and> (\<exists>ks. set ks = js \<and> sim_rounds inp p90 n 1 nxt ks (st1 \<lparr> ss_run := run1 \<rparr>) = Some st'))"
    "s_start_at sim = ss_start_at st'" "s_blocked sim = ss_blocked st'" "s_why_now sim = ss_why_now st'"
proof -
  obtain bl p where t: "triage inp ord (replicate (length (i_queued inp)) None, []) = (bl, p)" by force
  have bl: "length bl = length (i_queued inp)" "p = startable inp ord"
    "\<forall>i < length (i_queued inp). bl ! i = (if i \<in> set ord then triage_one inp (i_queued inp ! i) else None)"
    using triage_spec [OF _ t, of "length (i_queued inp)"] by (auto simp: startable_def)
  obtain st' where st': "sim_rounds inp p90 (Suc (4 * length (i_queued inp) + 7)) 0 0 p (sim_init inp p90 bl) = Some st'"
    "s_start_at sim = ss_start_at st'" "s_blocked sim = ss_blocked st'" "s_why_now sim = ss_why_now st'"
    using assms unfolding simulate_def t by (auto simp: opt_simps numeral_eq_Suc)
  have np: "new_pass (sim_init inp p90 bl) = sim_init inp p90 bl" by (simp add: new_pass_def sim_init_def)
  obtain st1 where s1: "start_pass inp p90 0 0 (startable inp ord) (sim_init inp p90 bl) = Some st1"
    and alt: "st' = st1 \<or> (\<exists>nxt run1. min_end (ss_run st1) = Some nxt \<and>
       sim_rounds inp p90 (4 * length (i_queued inp) + 7) (0 + 1) (max nxt 0)
         (filter (\<lambda>i. i \<notin> set (ss_started st1) \<and> ss_blocked st1 ! i = None) (startable inp ord))
         (st1 \<lparr> ss_run := run1 \<rparr>) = Some st')"
    using sim_rounds_Suc [OF st'(1)] unfolding np bl(2) by blast
  have "st' = st1 \<or> (\<exists>n nxt run1 js. min_end (ss_run st1) = Some nxt \<and> js \<subseteq> set (startable inp ord) - set (ss_started st1)
       \<and> (\<exists>ks. set ks = js \<and> sim_rounds inp p90 n 1 nxt ks (st1 \<lparr> ss_run := run1 \<rparr>) = Some st'))"
    using alt
  proof (elim disjE exE conjE)
    fix nxt run1
    let ?ks = "filter (\<lambda>i. i \<notin> set (ss_started st1) \<and> ss_blocked st1 ! i = None) (startable inp ord)"
    assume m: "min_end (ss_run st1) = Some nxt"
      and r: "sim_rounds inp p90 (4 * length (i_queued inp) + 7) (0 + 1) (max nxt 0) ?ks (st1 \<lparr> ss_run := run1 \<rparr>) = Some st'"
    have "set ?ks \<subseteq> set (startable inp ord) - set (ss_started st1)" by auto
    moreover have "sim_rounds inp p90 (4 * length (i_queued inp) + 7) 1 nxt ?ks (st1 \<lparr> ss_run := run1 \<rparr>) = Some st'"
      using r by simp
    ultimately show ?thesis using m by blast
  qed simp
  from that [OF bl(1,3) s1 this st'(2-4)] show ?thesis .
qed

section \<open>What starts\<close>

text \<open>
  The node feeds \<open>queue.rs\<close> a positive remaining time for every running job whose end is
  known (\<open>fairq.rs\<close> takes the maximum with 30 s), and estimates are \<open>u64\<close>.
\<close>

definition times_ok :: "Input \<Rightarrow> bool" where
  "times_ok inp \<longleftrightarrow> (\<forall>r \<in> set (i_running inp). r_left_p50 r \<noteq> Some 0)
     \<and> (\<forall>q \<in> set (i_queued inp). case q_est_p50 q of None \<Rightarrow> True | Some d \<Rightarrow> u64_ok d)"

abbreviation run0 :: "Input \<Rightarrow> SimRun list" where
  "run0 inp \<equiv> map (sim_of_running False) (i_running inp)"

abbreviation started_run :: "Input \<Rightarrow> nat \<Rightarrow> SimRun" where
  "started_run inp \<equiv> start_run inp False 0"

lemma min_end_in: "min_end run = Some x \<Longrightarrow> \<exists>r \<in> set run. sr_end r = Some x"
  unfolding min_end_def by (drule min_by_key_in) (auto simp: List.map_filter_def)

lemma start_run_end: "u64_ok d \<Longrightarrow> u64_add 0 (max d 1) \<noteq> 0"
  by (auto simp: u64_add_def u64_ok_def max_def)

lemma started_end:
  assumes "times_ok inp" "i < length (i_queued inp)"
  shows "sr_end (started_run inp i) \<noteq> Some 0"
proof -
  have "case q_est_p50 (i_queued inp ! i) of None \<Rightarrow> True | Some d \<Rightarrow> u64_ok d"
    using assms by (auto simp: times_ok_def)
  then show ?thesis
    using start_run_end by (cases "q_est_p50 (i_queued inp ! i)") (auto simp: start_run_def sim_of_start_def)
qed

lemma sim_init_wf [simp]: "length bl = length (i_queued inp) \<Longrightarrow> sim_wf inp (sim_init inp p90 bl)"
  by (simp add: sim_wf_def sim_init_def)

lemma simulate_starts:
  assumes sim: "simulate inp ord False = Some sim" and tm: "times_ok inp" and ix: "\<forall>i \<in> set ord. i < length (i_queued inp)"
  shows "\<exists>bl st1 ns. start_pass inp False 0 0 (startable inp ord) (sim_init inp False bl) = Some st1
     \<and> length bl = length (i_queued inp) \<and> ss_started st1 = ns
     \<and> subseq ns (startable inp ord) \<and> fits inp (started_run inp) (run0 inp) ns
     \<and> (\<forall>i < length (i_queued inp). s_start_at sim ! i = Some 0 \<longleftrightarrow> i \<in> set ns)"
proof -
  obtain bl st1 st' where f: "length bl = length (i_queued inp)"
    "start_pass inp False 0 0 (startable inp ord) (sim_init inp False bl) = Some st1"
    "st' = st1 \<or> (\<exists>n nxt run1 js. min_end (ss_run st1) = Some nxt \<and> js \<subseteq> set (startable inp ord) - set (ss_started st1)
       \<and> (\<exists>ks. set ks = js \<and> sim_rounds inp False n 1 nxt ks (st1 \<lparr> ss_run := run1 \<rparr>) = Some st'))"
    "s_start_at sim = ss_start_at st'"
    using simulate_first [OF sim] by metis
  have wf: "sim_wf inp (sim_init inp False bl)" using f(1) by simp
  have ixs: "\<forall>i \<in> set (startable inp ord). i < length (i_queued inp)" using ix by (auto simp: startable_def)
  obtain ns where ns: "subseq ns (startable inp ord)" "fits inp (started_run inp) (run0 inp) ns"
    "ss_run st1 = run0 inp @ map (started_run inp) ns" "ss_started st1 = ns"
    "\<forall>i < length (i_queued inp). ss_start_at st1 ! i = (if i \<in> set ns then Some 0 else None)"
    using start_pass_starts [OF f(2) wf ixs] by (auto simp: sim_init_def)
  have ends: "\<forall>r \<in> set (ss_run st1). sr_end r \<noteq> Some 0"
  proof -
    have "set ns \<subseteq> set (startable inp ord)" using list_emb_set [OF ns(1)] by blast
    then have "\<forall>i \<in> set ns. sr_end (started_run inp i) \<noteq> Some 0" using started_end [OF tm] ixs by blast
    moreover have "\<forall>r \<in> set (run0 inp). sr_end r \<noteq> Some 0" using tm by (auto simp: times_ok_def sim_of_running_def)
    ultimately show ?thesis unfolding ns(3) by auto
  qed
  have "s_start_at sim ! i = Some 0 \<longleftrightarrow> i \<in> set ns" if i: "i < length (i_queued inp)" for i
    using f(3)
  proof (elim disjE exE conjE)
    assume "st' = st1"
    then show ?thesis using f(4) ns(5) i by simp
  next
    fix n nxt run1 js ks
    assume h: "min_end (ss_run st1) = Some nxt" "js \<subseteq> set (startable inp ord) - set (ss_started st1)" "set ks = js"
      "sim_rounds inp False n 1 nxt ks (st1 \<lparr> ss_run := run1 \<rparr>) = Some st'"
    have "0 < nxt" using min_end_in [OF h(1)] ends by (metis neq0_conv)
    moreover have "\<forall>i \<in> set ks. i < length (i_queued inp)" using h(2,3) ixs by blast
    ultimately have "ss_start_at st' ! i = ss_start_at st1 ! i \<or> (i \<in> set ks \<and> (\<exists>m > 0. ss_start_at st' ! i = Some m))"
      using sim_rounds_late [OF h(4) _ _ _ i] start_pass_wf [OF f(2) wf] by simp
    moreover have "i \<in> set ks \<Longrightarrow> i \<notin> set ns" using h(2,3) ns(4) by blast
    ultimately show ?thesis using f(4) ns(5) i by (cases "i \<in> set ns") auto
  qed
  then show ?thesis using f(1,2) ns by blast
qed

lemma subseq_filter_mem: "subseq ns xs \<Longrightarrow> distinct xs \<Longrightarrow> filter (\<lambda>i. i \<in> set ns) xs = ns"
proof (induction xs arbitrary: ns)
  case (Cons x xs)
  show ?case
  proof (cases "x \<in> set ns")
    case True
    then obtain ms where "ns = x # ms" "subseq ms xs"
      using Cons.prems list_emb_set [of "(=)" ns "x # xs"] by (cases ns) (auto split: if_splits dest: list_emb_set)
    moreover from this have "filter (\<lambda>i. i \<in> set (x # ms)) xs = filter (\<lambda>i. i \<in> set ms) xs"
      using Cons.prems(2) by (intro filter_cong) auto
    ultimately show ?thesis using Cons by simp
  next
    case False
    then have "subseq ns xs" using Cons.prems(1) by (cases ns) (auto split: if_splits)
    then show ?thesis using False Cons by simp
  qed
qed (auto dest: list_emb_length)

lemma decide_loop_spec:
  "decide_loop inp fast slow tot pos js (start, info, rot) = (start', info', rot') \<Longrightarrow> distinct js \<Longrightarrow>
   start' = start @ filter (\<lambda>i. s_start_at fast ! i = Some 0) js \<and> length info' = length info
   \<and> (\<forall>k < length js. js ! k < length info \<longrightarrow> info' ! (js ! k) = decide_info inp fast slow tot (pos + k) (js ! k))
   \<and> (\<forall>i. i \<notin> set js \<longrightarrow> info' ! i = info ! i)"
proof (induction js arbitrary: pos start info rot)
  case (Cons i js)
  let ?info = "info[i := decide_info inp fast slow tot pos i]"
  obtain st2 rot2 where "decide_loop inp fast slow tot (pos + 1) js (st2, ?info, rot2) = (start', info', rot')"
    "st2 = (if s_start_at fast ! i = Some 0 then start @ [i] else start)"
    using Cons.prems(1) by (auto simp: Let_def)
  from Cons.IH [OF this(1)] this(2) Cons.prems(2)
  have ih: "start' = start @ filter (\<lambda>i. s_start_at fast ! i = Some 0) (i # js)" "length info' = length info"
    "\<forall>k < length js. js ! k < length info \<longrightarrow> info' ! (js ! k) = decide_info inp fast slow tot (pos + 1 + k) (js ! k)"
    "\<forall>x. x \<notin> set js \<longrightarrow> info' ! x = ?info ! x"
    by auto
  have "info' ! ((i # js) ! k) = decide_info inp fast slow tot (pos + k) ((i # js) ! k)"
    if "k < length (i # js)" "(i # js) ! k < length info" for k
    using that ih(3,4) Cons.prems(2) by (cases k) auto
  then show ?case using ih by auto
qed simp

lemma decide_parts:
  obtains ord fast slow d where "order inp = Some ord" "simulate inp ord False = Some fast"
    "simulate inp ord True = Some slow" "decide inp = Some d" "d_order d = ord"
    "d_start d = filter (\<lambda>i. s_start_at fast ! i = Some 0) ord" "length (d_info d) = length (i_queued inp)"
    "\<forall>k < length ord. d_info d ! (ord ! k) = decide_info inp fast slow (as_u32 (length ord)) k (ord ! k)"
proof -
  obtain ord where o: "order inp = Some ord" using order_Some by blast
  obtain fast slow where s: "simulate inp ord False = Some fast" "simulate inp ord True = Some slow"
    using simulate_Some by blast
  obtain start info rot where l: "decide_loop inp fast slow (as_u32 (length ord)) 0 ord
      ([], replicate (length (i_queued inp)) Info_default, i_rotation inp) = (start, info, rot)"
    using prod_cases3 by blast
  have f: "start = filter (\<lambda>i. s_start_at fast ! i = Some 0) ord" "length info = length (i_queued inp)"
    "\<forall>k < length ord. info ! (ord ! k) = decide_info inp fast slow (as_u32 (length ord)) k (ord ! k)"
    using decide_loop_spec [OF l order_facts(2) [OF o]] order_facts(3) [OF o] by (auto simp: nth_mem)
  have "decide inp = Some \<lparr> d_order = ord, d_start = start, d_info = info, d_rotation = rot \<rparr>"
    unfolding decide_def o by (simp add: s l)
  with that [OF o s this] f show ?thesis by simp
qed

lemma decide_the: "decide inp = Some (the (decide inp))"
  by (rule decide_parts [of inp]) simp

text \<open>The starts: a subsequence of the order, each fitting beside what ran and what started before it.\<close>

lemma decide_starts:
  assumes d: "decide inp = Some d" and tm: "times_ok inp"
  shows "subseq (d_start d) (startable inp (d_order d)) \<and> fits inp (started_run inp) (run0 inp) (d_start d)
    \<and> order inp = Some (d_order d)
    \<and> (\<exists>bl st1. start_pass inp False 0 0 (startable inp (d_order d)) (sim_init inp False bl) = Some st1
         \<and> length bl = length (i_queued inp) \<and> ss_started st1 = d_start d)"
proof -
  obtain ord fast where p: "order inp = Some ord" "simulate inp ord False = Some fast" "d_order d = ord"
    "d_start d = filter (\<lambda>i. s_start_at fast ! i = Some 0) ord"
    using decide_parts [of inp] d by (metis option.inject)
  have ix: "\<forall>i \<in> set ord. i < length (i_queued inp)" using order_facts(3) [OF p(1)] by auto
  obtain bl st1 ns where ns: "start_pass inp False 0 0 (startable inp ord) (sim_init inp False bl) = Some st1"
    "length bl = length (i_queued inp)" "ss_started st1 = ns" "subseq ns (startable inp ord)"
    "fits inp (started_run inp) (run0 inp) ns"
    "\<forall>i < length (i_queued inp). s_start_at fast ! i = Some 0 \<longleftrightarrow> i \<in> set ns"
    using simulate_starts [OF p(2) tm ix] by blast
  have "subseq ns ord" using ns(4) by (metis startable_def subseq_filter_left subseq_order.trans)
  then have "filter (\<lambda>i. i \<in> set ns) ord = ns" using subseq_filter_mem order_facts(2) [OF p(1)] by blast
  moreover have "filter (\<lambda>i. s_start_at fast ! i = Some 0) ord = filter (\<lambda>i. i \<in> set ns) ord"
    using ns(6) ix by (intro filter_cong) auto
  ultimately have "d_start d = ns" using p(4) by simp
  then show ?thesis using ns p by auto
qed

text \<open>A job that the simulation does not start at once has a block or a wait reason.\<close>

lemma simulate_reason:
  assumes sim: "simulate inp ord p90 = Some sim" and io: "i \<in> set ord" and il: "i < length (i_queued inp)"
    and dist: "distinct ord" and ix: "\<forall>k \<in> set ord. k < length (i_queued inp)" and ns: "s_start_at sim ! i \<noteq> Some 0"
  shows "s_blocked sim ! i \<noteq> None \<or> s_why_now sim ! i \<noteq> None"
proof -
  obtain bl st1 st' where f: "length bl = length (i_queued inp)"
    "\<forall>i < length (i_queued inp). bl ! i = (if i \<in> set ord then triage_one inp (i_queued inp ! i) else None)"
    "start_pass inp p90 0 0 (startable inp ord) (sim_init inp p90 bl) = Some st1"
    "st' = st1 \<or> (\<exists>n nxt run1 js. min_end (ss_run st1) = Some nxt \<and> js \<subseteq> set (startable inp ord) - set (ss_started st1)
       \<and> (\<exists>ks. set ks = js \<and> sim_rounds inp p90 n 1 nxt ks (st1 \<lparr> ss_run := run1 \<rparr>) = Some st'))"
    "s_start_at sim = ss_start_at st'" "s_blocked sim = ss_blocked st'" "s_why_now sim = ss_why_now st'"
    by (rule simulate_first [OF sim])
  have wf: "sim_wf inp (sim_init inp p90 bl)" using f(1) by simp
  have wf1: "sim_wf inp st1" using start_pass_wf [OF f(3) wf] .
  have ixs: "\<forall>i \<in> set (startable inp ord). i < length (i_queued inp)" using ix by (auto simp: startable_def)
  have keep: "(ss_blocked st1 ! i \<noteq> None \<longrightarrow> ss_blocked st' ! i \<noteq> None) \<and> ss_why_now st' ! i = ss_why_now st1 ! i"
    using f(4) sim_rounds_frame [of inp p90 _ 1 _ _ _ st' i] wf1 il by fastforce
  show ?thesis
  proof (cases "triage_one inp (i_queued inp ! i)")
    case (Some b)
    then have "ss_blocked (sim_init inp p90 bl) ! i \<noteq> None" using f(2) io il by (simp add: sim_init_def)
    then show ?thesis using start_pass_blocked_mono [OF f(3) wf il] keep f(6) by simp
  next
    case None
    then have is1: "i \<in> set (startable inp ord)" using io by (simp add: startable_def)
    obtain ns where n: "ss_started st1 = ns" "\<forall>i < length (i_queued inp). ss_start_at st1 ! i = (if i \<in> set ns then Some 0 else None)"
      using start_pass_starts [OF f(3) wf ixs] by (auto simp: sim_init_def)
    have "i \<notin> set ns"
    proof
      assume i: "i \<in> set ns"
      have "ss_start_at st' ! i = ss_start_at st1 ! i"
        using f(4) sim_rounds_other i n(1) il wf1 ixs by fastforce
      then show False using ns f(5) n(2) il i by simp
    qed
    then have "ss_blocked st1 ! i \<noteq> None \<or> ss_why_now st1 ! i \<noteq> None"
      using start_pass_reason [OF f(3) wf _ is1 il] dist n(1) by (auto simp: startable_def sim_init_def)
    then show ?thesis using keep f(6,7) by auto
  qed
qed

end
