(* ===== verification/Queue_Limits.thy ===== *)
theory Queue_Limits
  imports Queue_Starts Queue_Rules
begin

text \<open>
  The hard limits of the node queue, as theorems about \<open>decide\<close> on any snapshot: what a start
  implies about the node's room, the tenant, workspace and submitter limits, exclusivity, Batch
  and secret isolation; who is held back; and that every job that does not start says why.
\<close>

section \<open>What \<open>FitNow\<close> means\<close>

lemma fit_now:
  assumes "fit inp e t run = FitNow"
  shows "job_cpu inp e \<le> cap_cpu_millis (i_caps inp)" "job_mem inp e \<le> cap_mem_bytes (i_caps inp)"
    "count_as_u32 (\<lambda>r. sr_slot r = q_slot e) run < l_max_running (t_limits t)"
    "\<not> ws_full e run" "\<not> submitter_full e (line_of e t) run"
    "line_of e t = Line_Batch \<Longrightarrow> run = []" "blockers inp e run = []"
    "\<not> list_ex sr_exclusive run" "q_exclusive e \<Longrightarrow> run = []"
    "as_u32 (length run) < cap_parallel_max (i_caps inp)"
    "sat_add64 (u64_sum (map sr_cpu run)) (job_cpu inp e) \<le> cap_cpu_millis (i_caps inp)"
    "sat_add64 (u64_sum (map sr_mem run)) (job_mem inp e) \<le> cap_mem_bytes (i_caps inp)"
  using assms by (auto simp: fit_def Let_def split: if_splits)

lemma start_fit:
  assumes "decide inp = Some d" "times_ok inp" "d_start d = xs @ i # ys"
  shows "fit_at inp i (run0 inp @ map (started_run inp) xs) = FitNow"
  using decide_starts [OF assms(1,2)] fits_split assms(3) by metis

lemma started_run_simps [simp]:
  "sr_slot (start_run inp p90 now i) = slot_at inp i" "sr_ws (start_run inp p90 now i) = ws_at inp i"
  "sr_secret (start_run inp p90 now i) = q_secret (i_queued inp ! i)"
  "sr_cpu (start_run inp p90 now i) = job_cpu inp (i_queued inp ! i)"
  "sr_mem (start_run inp p90 now i) = job_mem inp (i_queued inp ! i)"
  "sr_exclusive (start_run inp p90 now i) = q_exclusive (i_queued inp ! i)"
  "sr_submitter (start_run inp p90 now i) = Some (turn_key (i_queued inp ! i))"
  by (simp_all add: start_run_def sim_of_start_def)

lemma sim_of_running_simps [simp]:
  "sr_slot (sim_of_running p90 r) = r_slot r" "sr_ws (sim_of_running p90 r) = r_workspace_id r"
  "sr_secret (sim_of_running p90 r) = r_secret r" "sr_cpu (sim_of_running p90 r) = r_cpu_millis r"
  "sr_mem (sim_of_running p90 r) = r_mem_bytes r" "sr_exclusive (sim_of_running p90 r) = r_exclusive r"
  by (simp_all add: sim_of_running_def)

lemma start_known:
  assumes "decide inp = Some d" "times_ok inp" "i \<in> set (d_start d)"
  shows "triage_one inp (i_queued inp ! i) = None" "i \<in> set (d_order d)" "i < length (i_queued inp)"
proof -
  have s: "subseq (d_start d) (startable inp (d_order d))" "order inp = Some (d_order d)"
    using decide_starts [OF assms(1,2)] by auto
  then have "i \<in> set (startable inp (d_order d))" using list_emb_set [OF s(1)] assms(3) by blast
  then show "triage_one inp (i_queued inp ! i) = None" "i \<in> set (d_order d)" by (auto simp: startable_def)
  then show "i < length (i_queued inp)" using order_facts(3) [OF s(2)] by auto
qed

lemma start_distinct:
  assumes "decide inp = Some d" "times_ok inp"
  shows "distinct (d_start d)" "length (d_start d) \<le> length (i_queued inp)"
proof -
  have s: "subseq (d_start d) (startable inp (d_order d))" "order inp = Some (d_order d)"
    using decide_starts [OF assms(1,2)] by auto
  have "distinct (startable inp (d_order d))" using order_facts(2) [OF s(2)] by (simp add: startable_def)
  then show "distinct (d_start d)" using subseq_filter_mem [OF s(1)] by (metis distinct_filter)
  have "length (startable inp (d_order d)) \<le> length (d_order d)" by (simp add: startable_def)
  then show "length (d_start d) \<le> length (i_queued inp)"
    using list_emb_length [OF s(1)] order_facts(4) [OF s(2)] by simp
qed

section \<open>Totals\<close>

text \<open>The sizes a node can have: fewer than \<open>2 ^ 32\<close> jobs and running totals within \<open>u64\<close>.\<close>

definition load_ok :: "Input \<Rightarrow> bool" where
  "load_ok inp \<longleftrightarrow> length (i_running inp) + length (i_queued inp) < 2 ^ 32
     \<and> sum_list (map r_cpu_millis (i_running inp)) < 2 ^ 64 \<and> sum_list (map r_mem_bytes (i_running inp)) < 2 ^ 64
     \<and> cap_cpu_millis (i_caps inp) < 2 ^ 64 - 1 \<and> cap_mem_bytes (i_caps inp) < 2 ^ 64 - 1"

lemma sat_add_sum:
  "sat_add64 (u64_sum xs) v \<le> c \<Longrightarrow> c < 2 ^ 64 - 1 \<Longrightarrow> sum_list xs < 2 ^ 64 \<Longrightarrow> sum_list xs + v \<le> c"
  by (auto simp: sat_add64_def u64_sum_id u64_max_def min_def split: if_splits)

text \<open>A resource that every start adds within a bound stays within it after all the starts.\<close>

lemma sum_bound:
  assumes "\<forall>xs i ys. ns = xs @ i # ys \<longrightarrow> sat_add64 (u64_sum (base @ map f xs)) (f i) \<le> c"
    and "c < 2 ^ 64 - 1" "sum_list base < 2 ^ 64" "ns \<noteq> []"
  shows "sum_list base + sum_list (map f ns) \<le> c"
  using assms(1,4)
proof (induction ns rule: rev_induct)
  case (snoc i xs)
  have s: "sat_add64 (u64_sum (base @ map f xs)) (f i) \<le> c" using snoc.prems(1) by blast
  have pre: "\<forall>ys k zs. xs = ys @ k # zs \<longrightarrow> sat_add64 (u64_sum (base @ map f ys)) (f k) \<le> c"
    using snoc.prems(1) by (metis append.assoc append_Cons)
  have "sum_list (base @ map f xs) < 2 ^ 64"
  proof (cases "xs = []")
    case True
    then show ?thesis using assms(3) by simp
  next
    case False
    then have "sum_list (base @ map f xs) \<le> c" using snoc.IH [OF pre] by simp
    also have "c < 2 ^ 64" using assms(2) by simp
    finally show ?thesis .
  qed
  from sat_add_sum [OF s assms(2) this] show ?case by simp
qed simp

text \<open>The same for a count of the jobs with a property.\<close>

lemma count_bound:
  assumes "\<forall>xs i ys. ns = xs @ i # ys \<longrightarrow> P (f i) \<longrightarrow> length (filter P (base @ map f xs)) < m"
    and "\<exists>i \<in> set ns. P (f i)"
  shows "length (filter P (base @ map f ns)) \<le> m"
  using assms
proof (induction ns rule: rev_induct)
  case (snoc i xs)
  have pre: "\<forall>ys k zs. xs = ys @ k # zs \<longrightarrow> P (f k) \<longrightarrow> length (filter P (base @ map f ys)) < m"
    using snoc.prems(1) by (metis append.assoc append_Cons)
  show ?case
  proof (cases "P (f i)")
    case True
    then have "length (filter P (base @ map f xs)) < m" using snoc.prems(1) by blast
    then show ?thesis using True by simp
  next
    case False
    then show ?thesis using snoc.IH [OF pre] snoc.prems(2) by auto
  qed
qed simp

lemma count_as_u32_id: "length xs < 2 ^ 32 \<Longrightarrow> count_as_u32 P xs = length (filter P xs)"
proof -
  assume "length xs < 2 ^ 32"
  moreover have "length (filter P xs) \<le> length xs" by simp
  ultimately have "u32_ok (length (filter P xs))" unfolding u32_ok_def by linarith
  then show ?thesis by (simp add: count_as_u32_def)
qed

lemma prefix_small:
  assumes "decide inp = Some d" "times_ok inp" "load_ok inp" "d_start d = xs @ i # ys"
  shows "length (run0 inp @ map (started_run inp) xs) < 2 ^ 32"
  using start_distinct(2) [OF assms(1,2)] assms(3,4) by (simp add: load_ok_def)

section \<open>Examples\<close>

definition ex_two :: Input where
  "ex_two = ex_input 3 [ex_job 0 ''a'' ''w1'' Tier_Normal 9000, ex_job 0 ''b'' ''w1'' Tier_Normal 9001]"

definition ex_two_d :: Decision where
  "ex_two_d = the (decide ex_two)"

lemma ex_two_facts:
  "decide ex_two = Some ex_two_d" "d_start ex_two_d = [0, 1]" "times_ok ex_two" "load_ok ex_two"
  by code_simp+

section \<open>The node's room\<close>

text \<open>C35: \<open>decide\<close> answers every snapshot: it never panics, the simulations end, the order is
  the one of \<open>order\<close> and every queued job has an answer.\<close>

theorem decide_total:
  "\<exists>d. decide inp = Some d \<and> order inp = Some (d_order d) \<and> length (d_info d) = length (i_queued inp)"
  by (rule decide_parts [of inp]) blast

lemma starts_fit:
  assumes "decide inp = Some d" "times_ok inp" "load_ok inp" "d_start d \<noteq> []"
  shows "length (i_running inp) + length (d_start d) \<le> cap_parallel_max (i_caps inp)
     \<and> sum_list (map r_cpu_millis (i_running inp)) + sum_list (map (\<lambda>i. job_cpu inp (i_queued inp ! i)) (d_start d))
         \<le> cap_cpu_millis (i_caps inp)
     \<and> sum_list (map r_mem_bytes (i_running inp)) + sum_list (map (\<lambda>i. job_mem inp (i_queued inp ! i)) (d_start d))
         \<le> cap_mem_bytes (i_caps inp)"
proof -
  obtain xs i where l: "d_start d = xs @ [i]" using assms(4) by (metis rev_exhaust)
  note last = start_fit [OF assms(1,2) l]
  have "as_u32 (length (run0 inp @ map (started_run inp) xs)) < cap_parallel_max (i_caps inp)"
    using fit_now(10) [OF last] .
  then have par: "length (i_running inp) + length (d_start d) \<le> cap_parallel_max (i_caps inp)"
    using prefix_small [OF assms(1-3) l] l by (simp add: u32_ok_def)
  have cpu: "sat_add64 (u64_sum (map r_cpu_millis (i_running inp) @ map (\<lambda>i. job_cpu inp (i_queued inp ! i)) ys))
      (job_cpu inp (i_queued inp ! k)) \<le> cap_cpu_millis (i_caps inp)"
    and mem: "sat_add64 (u64_sum (map r_mem_bytes (i_running inp) @ map (\<lambda>i. job_mem inp (i_queued inp ! i)) ys))
      (job_mem inp (i_queued inp ! k)) \<le> cap_mem_bytes (i_caps inp)"
    if "d_start d = ys @ k # zs" for ys k zs
    using fit_now(11,12) [OF start_fit [OF assms(1,2) that]] by (simp_all add: comp_def del: sat_add64_le)
  show ?thesis
    using par sum_bound [of "d_start d" "map r_cpu_millis (i_running inp)" "\<lambda>i. job_cpu inp (i_queued inp ! i)"]
      sum_bound [of "d_start d" "map r_mem_bytes (i_running inp)" "\<lambda>i. job_mem inp (i_queued inp ! i)"]
      cpu mem assms(3,4) unfolding load_ok_def by blast
qed

text \<open>C5: no start exceeds the node: with what runs, the started jobs stay within the parallel,
  CPU and memory caps.\<close>

theorem starts_within_caps:
  assumes "decide inp = Some d" "times_ok inp" "load_ok inp" "d_start d \<noteq> []"
  shows "length (i_running inp) + length (d_start d) \<le> cap_parallel_max (i_caps inp)
     \<and> sum_list (map r_cpu_millis (i_running inp)) + sum_list (map (\<lambda>i. job_cpu inp (i_queued inp ! i)) (d_start d))
         \<le> cap_cpu_millis (i_caps inp)
     \<and> sum_list (map r_mem_bytes (i_running inp)) + sum_list (map (\<lambda>i. job_mem inp (i_queued inp ! i)) (d_start d))
         \<le> cap_mem_bytes (i_caps inp)"
  by (rule starts_fit [OF assms])

theorem starts_within_caps_witness:
  "length (i_running ex_two) + length (d_start ex_two_d) \<le> cap_parallel_max (i_caps ex_two)"
  using starts_within_caps [OF ex_two_facts(1,3,4)] by (simp add: ex_two_facts(2))

text \<open>The tenant's own limit: a server that gets a start runs at most its share's
  \<open>max_running\<close> jobs here, the new ones included.\<close>

theorem starts_within_share:
  assumes "decide inp = Some d" "times_ok inp" "load_ok inp" "i \<in> set (d_start d)"
  shows "length (filter (\<lambda>r. r_slot r = slot_at inp i) (i_running inp))
       + length (filter (\<lambda>j. slot_at inp j = slot_at inp i) (d_start d))
     \<le> l_max_running (t_limits (tenant_at inp i))"
proof -
  let ?P = "\<lambda>r. sr_slot r = slot_at inp i"
  have "length (filter ?P (run0 inp @ map (started_run inp) xs)) < l_max_running (t_limits (tenant_at inp i))"
    if "d_start d = xs @ k # ys" "?P (started_run inp k)" for xs k ys
  proof -
    have t: "tenant_at inp k = tenant_at inp i" using that(2) by (simp add: tenant_at_def)
    show ?thesis
      using fit_now(3) [OF start_fit [OF assms(1,2) that(1)]] prefix_small [OF assms(1-3) that(1)] that(2) t
      by (simp add: count_as_u32_id)
  qed
  then have "length (filter ?P (run0 inp @ map (started_run inp) (d_start d))) \<le> l_max_running (t_limits (tenant_at inp i))"
    using assms(4) by (intro count_bound) auto
  then show ?thesis by (simp add: filter_map comp_def)
qed

theorem starts_within_share_witness:
  "length (filter (\<lambda>r. r_slot r = slot_at ex_two 0) (i_running ex_two))
     + length (filter (\<lambda>j. slot_at ex_two j = slot_at ex_two 0) (d_start ex_two_d))
   \<le> l_max_running (t_limits (tenant_at ex_two 0))"
  by (rule starts_within_share [OF ex_two_facts(1,3,4)]) (simp add: ex_two_facts(2))

end
