(* ===== verification/Queue_Guards.thy ===== *)
theory Queue_Guards
  imports Queue_Limits
begin

text \<open>
  The guards of a start beyond the node's room: workspace and submitter limits, exclusive jobs,
  Batch, secret isolation, blocks, the hold behind a CI or Priority job, and the reason every
  waiting job carries.
\<close>

section \<open>Workspace and submitter limits\<close>

text \<open>A job with a workspace limit starts only while fewer than that many jobs of its server
  and workspace run or started before it; and, outside CI, one with a submitter limit only while
  fewer than that many jobs of its submitter there do (CI jobs not counted).\<close>

theorem starts_within_grant:
  assumes "decide inp = Some d" "times_ok inp" "load_ok inp" "d_start d = xs @ i # ys"
    and "run = run0 inp @ map (started_run inp) xs"
  shows "(\<forall>m. q_ws_max_running (i_queued inp ! i) = Some m \<longrightarrow>
      length (filter (\<lambda>r. sr_slot r = slot_at inp i \<and> sr_ws r = ws_at inp i) run) < max m 1)
    \<and> (\<forall>m. q_submitter_max_running (i_queued inp ! i) = Some m \<longrightarrow> 0 < m \<longrightarrow>
        line_of (i_queued inp ! i) (tenant_at inp i) \<noteq> Line_Ci \<longrightarrow>
      length (filter (\<lambda>r. sr_counts_for_submitter r \<and> sr_slot r = slot_at inp i \<and> sr_ws r = ws_at inp i
        \<and> unwrap_or (sr_submitter r) '''' = turn_key (i_queued inp ! i)) run) < m)"
proof -
  have small: "length run < 2 ^ 32" using prefix_small [OF assms(1-4)] assms(5) by simp
  have "fit_at inp i run = FitNow" using start_fit [OF assms(1,2,4)] assms(5) by simp
  then show ?thesis
    using fit_now(4,5) [of inp "i_queued inp ! i" "tenant_at inp i" run] count_as_u32_id [OF small]
    by (auto simp: ws_full_def submitter_full_def)
qed

definition ex_grant :: Input where
  "ex_grant = ex_input 3 [(ex_job 0 ''a'' ''w1'' Tier_Normal 9000)
      \<lparr> q_ws_max_running := Some 1, q_submitter_max_running := Some 1 \<rparr>]"

theorem starts_within_grant_witness:
  "length (filter (\<lambda>r. sr_slot r = slot_at ex_grant 0 \<and> sr_ws r = ws_at ex_grant 0) (run0 ex_grant)) < max 1 1"
proof -
  have h: "times_ok ex_grant" "load_ok ex_grant"
    "d_start (the (decide ex_grant)) = [] @ 0 # []" "q_ws_max_running (i_queued ex_grant ! 0) = Some 1"
    by code_simp+
  show ?thesis using starts_within_grant [OF decide_the h(1-3) refl] h(4) by simp
qed

section \<open>Exclusive jobs and Batch\<close>

lemma fits_run_Nil:
  assumes "decide inp = Some d" "times_ok inp" "d_start d = xs @ i # ys" "run0 inp @ map (started_run inp) xs = []"
  shows "i_running inp = [] \<and> xs = []"
  using assms(4) by simp

text \<open>Exclusive means alone: while an exclusive job runs nothing starts, and an exclusive job
  starts only on an idle node and as the only start.\<close>

theorem exclusive_alone:
  assumes "decide inp = Some d" "times_ok inp"
  shows "((\<exists>r \<in> set (i_running inp). r_exclusive r) \<longrightarrow> d_start d = [])
    \<and> (\<forall>i \<in> set (d_start d). q_exclusive (i_queued inp ! i) \<longrightarrow> i_running inp = [] \<and> d_start d = [i])"
proof (intro conjI impI ballI)
  assume ex: "\<exists>r \<in> set (i_running inp). r_exclusive r"
  show "d_start d = []"
  proof (cases "d_start d")
    case (Cons i ys)
    then have "d_start d = [] @ i # ys" by simp
    from fit_now(8) [OF start_fit [OF assms this]] ex show ?thesis by (auto simp: list_ex_iff)
  qed
next
  fix i assume i: "i \<in> set (d_start d)" and e: "q_exclusive (i_queued inp ! i)"
  obtain xs ys where s: "d_start d = xs @ i # ys" using i by (metis split_list)
  have nil: "i_running inp = []" "xs = []" using fit_now(9) [OF start_fit [OF assms s] e] by simp_all
  then show "i_running inp = []" by simp
  have "ys = []"
  proof (cases ys)
    case (Cons k zs)
    then have "d_start d = [i] @ k # zs" using s nil by simp
    from fit_now(8) [OF start_fit [OF assms this]] e show ?thesis by simp
  qed
  then show "d_start d = [i]" using s nil by simp
qed

definition ex_alone :: Input where
  "ex_alone = (ex_input 3 [(ex_job 0 ''a'' ''w1'' Tier_Normal 9000) \<lparr> q_exclusive := True \<rparr>,
      ex_job 0 ''b'' ''w1'' Tier_Normal 9001]) \<lparr> i_running := [] \<rparr>"

theorem exclusive_alone_witness: "d_start (the (decide ex_alone)) = [0]"
proof -
  have h: "times_ok ex_alone"
    "0 \<in> set (d_start (the (decide ex_alone)))" "q_exclusive (i_queued ex_alone ! 0)" by code_simp+
  show ?thesis using exclusive_alone [OF decide_the h(1)] h(2,3) by blast
qed

lemma subseq_two:
  assumes "subseq (i # k # zs) ord"
  obtains us vs where "ord = us @ i # vs" "k \<in> set vs"
proof -
  obtain us vs where u: "ord = us @ i # vs" "subseq (k # zs) vs"
    using list_emb_ConsD [OF assms] by auto
  moreover have "k \<in> set vs" using list_emb_set [OF u(2), of k] by auto
  ultimately show ?thesis using that by blast
qed

text \<open>Batch starts only on an idle node and as the only start: nothing runs, nothing of
  another line starts beside it.\<close>

theorem batch_alone:
  assumes "decide inp = Some d" "times_ok inp" "i \<in> set (d_start d)" "job_line inp i = Line_Batch"
  shows "i_running inp = [] \<and> d_start d = [i]"
proof -
  obtain xs ys where s: "d_start d = xs @ i # ys" using assms(3) by (metis split_list)
  have b: "line_of (i_queued inp ! i) (tenant_at inp i) = Line_Batch"
    using assms(4) by (simp add: job_line_def tenant_at_def)
  have nil: "i_running inp = []" "xs = []" using fit_now(6) [OF start_fit [OF assms(1,2) s] b] by simp_all
  have "ys = []"
  proof (cases ys)
    case (Cons k zs)
    then have sk: "d_start d = [i] @ k # zs" using s nil by simp
    have sub: "subseq (d_start d) (d_order d)" and o: "order inp = Some (d_order d)"
      using decide_starts [OF assms(1,2)] by (auto simp: startable_def intro: subseq_order.trans subseq_filter_left)
    have "subseq (i # k # zs) (d_order d)" using sub sk by simp
    then obtain us vs where uv: "d_order d = us @ i # vs" "k \<in> set vs" by (rule subseq_two)
    have kn: "i \<in> set (d_start d)" "k \<in> set (d_start d)" using sk by simp_all
    have "ready_at inp i" "ready_at inp k" using start_known(1) [OF assms(1,2)] kn triage_None_known by blast+
    then have "job_line inp k = Line_Batch"
      using order_lines_batch [of inp us i vs k] o uv assms(4) by simp
    then have "line_of (i_queued inp ! k) (tenant_at inp k) = Line_Batch" by (simp add: job_line_def tenant_at_def)
    from fit_now(6) [OF start_fit [OF assms(1,2) sk] this] show ?thesis by simp
  qed
  then show ?thesis using s nil by simp
qed

definition ex_batch :: Input where
  "ex_batch = (ex_input 3 [ex_job 0 ''a'' ''w1'' Tier_Batch 9000, ex_job 0 ''b'' ''w1'' Tier_Batch 9001]) \<lparr> i_running := [] \<rparr>"

theorem batch_alone_witness: "i_running ex_batch = [] \<and> d_start (the (decide ex_batch)) = [0]"
proof -
  have h: "times_ok ex_batch"
    "0 \<in> set (d_start (the (decide ex_batch)))" "job_line ex_batch 0 = Line_Batch" by code_simp+
  show ?thesis using batch_alone [OF decide_the h] .
qed

lemma subseq_set: "subseq ns xs \<Longrightarrow> set ns \<subseteq> set xs"
  using list_emb_set [of "(=)" ns xs] by blast

section \<open>Secret isolation\<close>

text \<open>Two jobs under one uid, of different workspaces, one of which gets vault secrets.\<close>

definition conflict :: "bool \<Rightarrow> Slot \<times> string \<times> bool \<Rightarrow> Slot \<times> string \<times> bool \<Rightarrow> bool" where
  "conflict one_uid a b \<longleftrightarrow> (one_uid \<or> fst a = fst b) \<and> fst (snd a) \<noteq> fst (snd b) \<and> (snd (snd a) \<or> snd (snd b))"

lemma conflict_sym: "conflict u a b \<longleftrightarrow> conflict u b a"
  by (auto simp: conflict_def)

definition ident :: "Input \<Rightarrow> nat \<Rightarrow> Slot \<times> string \<times> bool" where
  "ident inp i = (slot_at inp i, ws_at inp i, q_secret (i_queued inp ! i))"

lemma no_blockers:
  "blockers inp (i_queued inp ! i) run = [] \<Longrightarrow> r \<in> set run \<Longrightarrow>
   \<not> conflict (c_one_uid (i_cfg inp)) (ident inp i) (sr_slot r, sr_ws r, sr_secret r)"
  by (auto simp: blockers_def isolation_blocks_def filter_empty_conv conflict_def ident_def)

text \<open>C10: secret isolation: no job starts beside another workspace's job under the same uid when
  either of the two gets vault secrets, whether the other one runs already or starts in the same pass.\<close>

theorem starts_isolated:
  assumes "decide inp = Some d" "times_ok inp" "i \<in> set (d_start d)"
  shows "(\<forall>r \<in> set (i_running inp). \<not> conflict (c_one_uid (i_cfg inp)) (ident inp i) (r_slot r, r_workspace_id r, r_secret r))
    \<and> (\<forall>j \<in> set (d_start d). \<not> conflict (c_one_uid (i_cfg inp)) (ident inp i) (ident inp j))"
proof -
  have earlier: "\<not> conflict (c_one_uid (i_cfg inp)) (ident inp k) (sr_slot r, sr_ws r, sr_secret r)"
    if "d_start d = xs @ k # ys" "r \<in> set (run0 inp @ map (started_run inp) xs)" for xs k ys r
    using no_blockers [OF fit_now(7) [OF start_fit [OF assms(1,2) that(1)]] that(2)] .
  obtain xs ys where s: "d_start d = xs @ i # ys" using assms(3) by (metis split_list)
  have run: "\<not> conflict (c_one_uid (i_cfg inp)) (ident inp i) (r_slot r, r_workspace_id r, r_secret r)"
    if "r \<in> set (i_running inp)" for r
    using earlier [OF s, of "sim_of_running False r"] that by simp
  have "\<not> conflict (c_one_uid (i_cfg inp)) (ident inp i) (ident inp j)" if j: "j \<in> set (d_start d)" for j
  proof -
    consider "j = i" | "j \<in> set xs" | "j \<in> set ys" using j s by auto
    then show ?thesis
    proof cases
      case 1
      then show ?thesis by (simp add: conflict_def)
    next
      case 2
      then show ?thesis using earlier [OF s, of "started_run inp j"] by (simp add: ident_def)
    next
      case 3
      then obtain us vs where "ys = us @ j # vs" by (metis split_list)
      then have "d_start d = (xs @ i # us) @ j # vs" using s by simp
      from earlier [OF this, of "started_run inp i"] show ?thesis by (simp add: ident_def conflict_sym)
    qed
  qed
  then show ?thesis using run by blast
qed

theorem starts_isolated_witness: "\<not> conflict False (ident ex_two 0) (ident ex_two 1)"
proof -
  have "c_one_uid (i_cfg ex_two) = False" by code_simp
  then show ?thesis using starts_isolated [OF ex_two_facts(1,3), of 0] by (simp add: ex_two_facts(2))
qed

section \<open>Blocks\<close>

text \<open>Nothing starts on a blocked node, no job of a blocked tenant starts, and a job starts only
  when its server is known here and up.\<close>

theorem starts_unblocked:
  assumes "decide inp = Some d" "times_ok inp" "i \<in> set (d_start d)"
  shows "cap_blocked (i_caps inp) = None \<and> q_eligible (i_queued inp ! i)
     \<and> (\<exists>t. tenant_of (i_tenants inp) (slot_at inp i) = Some t \<and> t_blocked t = None)"
proof -
  have "triage_one inp (i_queued inp ! i) = None" using start_known(1) [OF assms] .
  then show ?thesis
    by (auto simp: triage_one_def or_else_def split: option.splits if_splits)
qed

theorem starts_unblocked_witness: "cap_blocked (i_caps ex_two) = None \<and> q_eligible (i_queued ex_two ! 1)"
  using starts_unblocked [OF ex_two_facts(1,3), of 1] by (simp add: ex_two_facts(2))

section \<open>The hold\<close>

text \<open>C9: ``next free slot'': when a CI or Priority job does not start because it waits for room
  (what runs and what starts before it leave none), no job ordered after it starts.\<close>

theorem holding_line_holds:
  assumes d: "decide inp = Some d" and tm: "times_ok inp"
    and o: "startable inp (d_order d) = xs @ i # ys"
    and h: "line_holds (job_line inp i)"
    and f: "fit_at inp i (run0 inp @ map (started_run inp) (filter (\<lambda>j. j \<in> set (d_start d)) xs)) = FitCapacity c"
    and j: "j \<in> set ys"
  shows "j \<notin> set (d_start d)"
proof -
  obtain bl st1 where sp: "start_pass inp False 0 0 (xs @ i # ys) (sim_init inp False bl) = Some st1"
    "length bl = length (i_queued inp)" "ss_started st1 = d_start d" and ord: "order inp = Some (d_order d)"
    using decide_starts [OF d tm] o by auto
  obtain sx si where p: "start_pass inp False 0 0 xs (sim_init inp False bl) = Some sx"
    "pass_step inp False 0 0 i sx = Some si" "start_pass inp False 0 0 ys si = Some st1"
    using sp(1) unfolding start_pass_app by (auto simp: opt_simps)
  have dist: "distinct (xs @ i # ys)" using order_facts(2) [OF ord] o by (metis distinct_filter startable_def)
  have ix: "\<forall>k \<in> set xs. k < length (i_queued inp)"
  proof -
    have "set xs \<subseteq> set (d_order d)" using o by (metis startable_def filter_is_subset set_append Un_subset_iff)
    then show ?thesis using order_facts(3) [OF ord] by blast
  qed
  obtain ns where ns: "subseq ns xs" "ss_run sx = run0 inp @ map (started_run inp) ns" "ss_started sx = ns"
    using start_pass_starts [OF p(1) sim_init_wf [OF sp(2)] ix] by (auto simp: sim_init_def)
  have pre: "\<exists>ms. d_start d = ns @ ms \<and> set ms \<subseteq> set (i # ys)"
  proof -
    obtain ms where "subseq ms (i # ys)" "ss_started st1 = ss_started sx @ ms"
    proof -
      have "start_pass inp False 0 0 (i # ys) sx = Some st1" using p(2,3) by simp
      moreover have "sim_wf inp sx" using start_pass_wf [OF p(1)] sp(2) by simp
      moreover have "\<forall>k \<in> set (i # ys). k < length (i_queued inp)"
      proof -
        have "set (i # ys) \<subseteq> set (d_order d)" using o by (metis startable_def filter_is_subset set_append Un_subset_iff)
        then show ?thesis using order_facts(3) [OF ord] by blast
      qed
      ultimately show ?thesis using start_pass_starts that by meson
    qed
    moreover from this(1) have "set ms \<subseteq> set (i # ys)" by (rule subseq_set)
    ultimately show ?thesis using sp(3) ns(3) by auto
  qed
  then obtain ms where ms: "d_start d = ns @ ms" "set ms \<subseteq> set (i # ys)" by blast
  have "filter (\<lambda>j. j \<in> set (d_start d)) xs = filter (\<lambda>j. j \<in> set ns) xs"
    using ms dist by (intro filter_cong) auto
  also have "\<dots> = ns" using subseq_filter_mem [OF ns(1)] dist by simp
  finally have fi: "fit_at inp i (ss_run sx) = FitCapacity c" using f ns(2) by simp
  have nst: "\<not> starts_here inp i sx" using fi by (simp add: starts_here_def)
  have "ss_held si \<noteq> None"
    using pass_step_hold [OF p(2) fi] h by (simp add: job_line_def tenant_at_def)
  then have "d_start d = ns"
    using start_pass_held [OF p(3)] pass_step_stay [OF p(2) nst] sp(3) ns(3) by simp
  then show ?thesis using list_emb_set [OF ns(1)] dist j by auto
qed

definition ex_hold :: Input where
  "ex_hold = ex_input 2 [(ex_job 0 ''a'' ''w1'' Tier_Priority 9000) \<lparr> q_cpu_millis := Some 4000 \<rparr>,
      ex_job 0 ''b'' ''w1'' Tier_Normal 9001]"

definition ex_hold_input :: Input where
  "ex_hold_input = ex_hold \<lparr> i_rotation := ex_rotation \<lparr> rot_last_line := None \<rparr>,
     i_running := [ex_running \<lparr> r_left_p50 := None \<rparr>] \<rparr>"

theorem holding_line_holds_witness: "1 \<notin> set (d_start (the (decide ex_hold_input)))"
proof -
  let ?i = "ex_hold_input"
  have h: "times_ok ?i" "startable ?i (d_order (the (decide ?i))) = [] @ 0 # [1]"
    "line_holds (job_line ?i 0)"
    "fit_at ?i 0 (run0 ?i @ map (started_run ?i) (filter (\<lambda>j. j \<in> set (d_start (the (decide ?i)))) [])) = FitCapacity WAITING_FOR_ROOM"
    by code_simp+
  show ?thesis by (rule holding_line_holds [OF decide_the h]) simp
qed

section \<open>Reasons\<close>

text \<open>Every queued job that does not start now says why.\<close>

theorem waiting_has_reason:
  assumes "decide inp = Some d" "i < length (i_queued inp)" "i \<notin> set (d_start d)"
  shows "inf_blocked_by (d_info d ! i) \<noteq> None"
proof -
  obtain ord fast slow where p: "order inp = Some ord" "simulate inp ord False = Some fast" "d_order d = ord"
    "d_start d = filter (\<lambda>i. s_start_at fast ! i = Some 0) ord"
    "\<forall>k < length ord. d_info d ! (ord ! k) = decide_info inp fast slow (as_u32 (length ord)) k (ord ! k)"
    using decide_parts [of inp] assms(1) by (metis option.inject)
  have io: "i \<in> set ord" using order_facts(3) [OF p(1)] assms(2) by simp
  then obtain k where k: "k < length ord" "ord ! k = i" by (metis in_set_conv_nth)
  have ns: "s_start_at fast ! i \<noteq> Some 0" using p(4) io assms(3) by simp
  have "s_blocked fast ! i \<noteq> None \<or> s_why_now fast ! i \<noteq> None"
    using simulate_reason [OF p(2) io assms(2) order_facts(2) [OF p(1)] _ ns] order_facts(3) [OF p(1)] by blast
  then show ?thesis using p(5) k ns
    by (auto simp: decide_info_def blocked_by_of_def Let_def split: option.splits)
qed

theorem waiting_has_reason_witness: "inf_blocked_by (d_info (the (decide ex_hold_input)) ! 1) \<noteq> None"
proof -
  have h: "1 < length (i_queued ex_hold_input)"
    "1 \<notin> set (d_start (the (decide ex_hold_input)))" by code_simp+
  show ?thesis by (rule waiting_has_reason [OF decide_the h])
qed

end
