(* ===== verification/Frames.thy ===== *)
theory Frames
  imports Share
begin

text \<open>
  The frames the queue and the refusals read (\<open>frames.rs\<close>): the node's control state, the
  job states, a refusal, and the parts of an offer the server's refusal check looks at.
\<close>

section \<open>Control and job states\<close>

datatype Control = Control_Active | Control_Paused | Control_Draining | Control_Stopped

fun Control_as_str :: "Control \<Rightarrow> string" where
  "Control_as_str Control_Active = ''active''"
| "Control_as_str Control_Paused = ''paused''"
| "Control_as_str Control_Draining = ''draining''"
| "Control_as_str Control_Stopped = ''stopped''"

definition Control_parse :: "string \<Rightarrow> Control option" where
  "Control_parse s =
     (if s = ''active'' then Some Control_Active
      else if s = ''paused'' then Some Control_Paused
      else if s = ''draining'' then Some Control_Draining
      else if s = ''stopped'' then Some Control_Stopped
      else None)"

datatype JobState = JS_Queued | JS_Assigned | JS_Preparing | JS_Running | JS_Finishing | JS_Done
  | JS_Failed | JS_Cancelled | JS_Timeout | JS_Interrupted | JS_Unknown

fun JobState_as_str :: "JobState \<Rightarrow> string" where
  "JobState_as_str JS_Queued = ''queued''"
| "JobState_as_str JS_Assigned = ''assigned''"
| "JobState_as_str JS_Preparing = ''preparing''"
| "JobState_as_str JS_Running = ''running''"
| "JobState_as_str JS_Finishing = ''finishing''"
| "JobState_as_str JS_Done = ''done''"
| "JobState_as_str JS_Failed = ''failed''"
| "JobState_as_str JS_Cancelled = ''cancelled''"
| "JobState_as_str JS_Timeout = ''timeout''"
| "JobState_as_str JS_Interrupted = ''interrupted''"
| "JobState_as_str JS_Unknown = ''unknown''"

definition JobState_parse :: "string \<Rightarrow> JobState option" where
  "JobState_parse s =
     (if s = ''queued'' then Some JS_Queued
      else if s = ''assigned'' then Some JS_Assigned
      else if s = ''preparing'' then Some JS_Preparing
      else if s = ''running'' then Some JS_Running
      else if s = ''finishing'' then Some JS_Finishing
      else if s = ''done'' then Some JS_Done
      else if s = ''failed'' then Some JS_Failed
      else if s = ''cancelled'' then Some JS_Cancelled
      else if s = ''timeout'' then Some JS_Timeout
      else if s = ''interrupted'' then Some JS_Interrupted
      else if s = ''unknown'' then Some JS_Unknown
      else None)"

definition is_terminal :: "JobState \<Rightarrow> bool" where
  "is_terminal s \<longleftrightarrow> s \<in> {JS_Done, JS_Failed, JS_Cancelled, JS_Timeout, JS_Interrupted, JS_Unknown}"

interpretation control_wire: wire_enum Control_as_str Control_parse
  by unfold_locales (case_tac x, simp_all add: Control_parse_def)

interpretation job_state_wire: wire_enum JobState_as_str JobState_parse
  by unfold_locales (case_tac x, simp_all add: JobState_parse_def)

section \<open>Refusals\<close>

text \<open>A stable code and a short sentence; \<open>rf_message\<close> is the sentence as the code builds it.\<close>

record Refusal =
  rf_code :: string
  rf_message :: string

definition Refusal_new :: "string \<Rightarrow> string \<Rightarrow> Refusal" where
  "Refusal_new code message = \<lparr> rf_code = code, rf_message = message \<rparr>"

section \<open>Offers\<close>

definition PROTOCOL :: nat where
  "PROTOCOL = 8"

definition JOBS_MIN_PROTOCOL :: nat where
  "JOBS_MIN_PROTOCOL = 2"

record Availability =
  av_ok :: bool
  av_reasons :: "string list"

record OfferCaps =
  oc_cpu_millis :: nat
  oc_mem_bytes :: nat
  oc_disk_budget_bytes :: nat
  oc_hard :: bool

record Free =
  fr_cpu_millis :: nat
  fr_mem_bytes :: nat
  fr_disk_free_bytes :: nat

record SlotInfo =
  si_project_key :: string
  si_slot :: nat
  si_busy :: bool
  si_last_sha :: "string option"

text \<open>
  The offer, less the views only other parts read (\<open>share\<close>, \<open>host\<close>,
  \<open>pkg\<close>). Labels and tools are association lists sorted by key (\<open>BTreeMap\<close>).
\<close>

record Offer =
  of_revision :: nat
  of_control :: Control
  of_control_by :: "string option"
  of_control_at :: "int option"
  of_availability :: Availability
  of_caps :: OfferCaps
  of_free :: Free
  of_slots :: "SlotInfo list"
  of_running :: nat
  of_parallel_max :: nat
  of_refusal :: "Refusal option"
  of_labels :: "(string \<times> string) list"
  of_tools :: "(string \<times> string) list"
  of_protocol :: nat
  of_boot_id :: string
  of_ledger_id :: string
  of_node_version :: string
  of_features :: "string list"

section \<open>Views on the wire\<close>

record QuoteView =
  qt_cpu_millis :: nat
  qt_mem_bytes :: nat
  qt_starts_now :: bool
  qt_eta_secs :: "nat option"
  qt_eta_p90_secs :: "nat option"
  qt_blocked_by :: "string option"

text \<open>\<open>round_eta\<close>: the precision other servers see.\<close>

definition round_eta :: "nat \<Rightarrow> nat" where
  "round_eta secs =
     (let step = (if secs < 600 then 60 else 300)
      in (max ((secs + step - 1) div step) 1 * step) mod 2 ^ 64)"

record QueueEntry =
  qe_pos :: nat
  qe_mine :: bool
  qe_class :: JobClass
  qe_tier :: "Tier option"
  qe_state :: JobState
  qe_cpu_millis :: nat
  qe_mem_bytes :: nat
  qe_eta_secs :: "nat option"
  qe_eta_p90_secs :: "nat option"
  qe_blocked_by :: "string option"
  qe_job_id :: "string option"
  qe_generation :: "nat option"
  qe_workspace_id :: "string option"
  qe_session_id :: "string option"
  qe_server_label :: "string option"

record TenantTotals =
  tt_slot :: Slot
  tt_label :: string
  tt_running :: nat
  tt_queued :: nat
  tt_cpu_secs_today :: nat

record QueueView =
  qv_request_id :: string
  qv_at :: int
  qv_entries :: "QueueEntry list"
  qv_totals :: "TenantTotals list"

lemma round_eta_ge: "secs < 2 ^ 63 \<Longrightarrow> secs \<le> round_eta secs"
proof -
  assume b: "secs < 2 ^ 63"
  define step :: nat where "step = (if secs < 600 then 60 else 300)"
  have s: "0 < step" "step \<le> 300" by (simp_all add: step_def)
  let ?q = "(secs + step - 1) div step"
  have up: "secs \<le> ?q * step"
  proof -
    have "secs + step - 1 < (?q + 1) * step" using s(1) by (simp add: dividend_less_div_times)
    then show ?thesis using s(1) by (simp add: algebra_simps)
  qed
  have dn: "?q * step \<le> secs + step"
    by (rule order_trans [OF div_times_less_eq_dividend]) simp
  have "max ?q 1 * step \<le> secs + step"
    unfolding nat_mult_max_left using dn by (intro max.boundedI) simp_all
  then have "max ?q 1 * step < 2 ^ 64" using b s by simp
  then have "round_eta secs = max ?q 1 * step" by (simp add: round_eta_def step_def [symmetric] Let_def)
  then have "round_eta secs = max (?q * step) (1 * step)" by (simp only: nat_mult_max_left)
  then show ?thesis using up by (metis max.coboundedI1)
qed

end
