(* ===== verification/Queue_View.thy ===== *)
theory Queue_View
  imports Queue_Guards Frames
begin

text \<open>
  \<open>queue.rs\<close>, what each viewer sees: \<open>quote\<close> (would a job of this size start now?)
  and \<open>view\<close>, the queue as one server may see it. The closure \<open>push\<close> of the code,
  which numbers and redacts an entry, is \<open>redact\<close> with the position.
\<close>

section \<open>Quotes\<close>

definition quote_probe :: "Input \<Rightarrow> Slot \<Rightarrow> nat \<Rightarrow> nat \<Rightarrow> Queued" where
  "quote_probe inp slot cpu_millis mem_bytes =
     \<lparr> q_slot = slot, q_job_id = char_of (0 :: nat) # ''quote'', q_generation = 0,
       q_workspace_id = char_of (0 :: nat) # ''quote'', q_session_id = None, q_class = Class_Interactive,
       q_tier = Tier_Normal, q_cpu_millis = (if cpu_millis > 0 then Some cpu_millis else None),
       q_mem_bytes = (if mem_bytes > 0 then Some mem_bytes else None), q_exclusive = False,
       q_enqueued_at = i_now inp, q_arrival = u64_max, q_est_p50 = None, q_est_p90 = None,
       q_ws_max_running = None, q_eligible = True, q_secret = False, q_submitter = None,
       q_submitter_max_running = None \<rparr>"

definition probe_input :: "Input \<Rightarrow> Slot \<Rightarrow> nat \<Rightarrow> nat \<Rightarrow> Input" where
  "probe_input inp slot cpu_millis mem_bytes =
     inp \<lparr> i_queued := i_queued inp @ [quote_probe inp slot cpu_millis mem_bytes] \<rparr>"

definition quote :: "Input \<Rightarrow> Slot \<Rightarrow> nat \<Rightarrow> nat \<Rightarrow> QuoteView option" where
  "quote inp slot cpu_millis mem_bytes = do {
     d \<leftarrow> decide (probe_input inp slot cpu_millis mem_bytes);
     let i = d_info d ! length (i_queued inp);
     Some \<lparr> qt_cpu_millis = cpu_millis, qt_mem_bytes = mem_bytes, qt_starts_now = inf_starts_now i,
       qt_eta_secs = (if inf_starts_now i then None else map_option round_eta (inf_eta_secs i)),
       qt_eta_p90_secs = (if inf_starts_now i then None else map_option round_eta (inf_eta_p90_secs i)),
       qt_blocked_by = inf_blocked_by i \<rparr>
   }"

section \<open>Views\<close>

record Viewer =
  vw_slot :: Slot
  vw_owner :: bool
  vw_labels :: "(Slot, string) btree"
  vw_tiers :: bool
  vw_tiers2 :: bool

definition redact :: "Viewer \<Rightarrow> bool \<Rightarrow> Slot \<Rightarrow> QueueEntry \<Rightarrow> string \<times> nat \<times> string \<times> string option \<Rightarrow> QueueEntry" where
  "redact v mine slot e job =
     (if mine then
        e \<lparr> qe_job_id := Some (fst job), qe_generation := Some (fst (snd job)),
            qe_workspace_id := Some (fst (snd (snd job))), qe_session_id := snd (snd (snd job)) \<rparr>
      else
        let e1 = e \<lparr> qe_eta_secs := map_option round_eta (qe_eta_secs e),
                     qe_eta_p90_secs := map_option round_eta (qe_eta_p90_secs e) \<rparr>
        in if vw_owner v then e1 \<lparr> qe_server_label := bt_get (vw_labels v) slot \<rparr>
           else e1 \<lparr> qe_blocked_by := None \<rparr>)"

definition shown_tier :: "Input \<Rightarrow> Viewer \<Rightarrow> Slot \<Rightarrow> Tier \<Rightarrow> Tier option" where
  "shown_tier inp v slot tier =
     (if vw_tiers v then
        Some (for_peer (unwrap_or (map_option (\<lambda>t. effective_tier t tier) (tenant_of (i_tenants inp) slot)) Tier_Normal)
          (vw_tiers2 v))
      else None)"

definition running_entry :: "Input \<Rightarrow> Viewer \<Rightarrow> Running \<Rightarrow> QueueEntry" where
  "running_entry inp v r =
     redact v (r_slot r = vw_slot v) (r_slot r)
       \<lparr> qe_pos = 0, qe_mine = (r_slot r = vw_slot v), qe_class = r_class r,
         qe_tier = shown_tier inp v (r_slot r) (r_tier r), qe_state = JS_Running,
         qe_cpu_millis = r_cpu_millis r, qe_mem_bytes = r_mem_bytes r, qe_eta_secs = r_left_p50 r,
         qe_eta_p90_secs = or_else (r_left_p90 r) (r_left_p50 r), qe_blocked_by = None,
         qe_job_id = None, qe_generation = None, qe_workspace_id = None, qe_session_id = None,
         qe_server_label = None \<rparr>
       (r_job_id r, r_generation r, r_workspace_id r, r_session_id r)"

definition queued_entry :: "Input \<Rightarrow> Viewer \<Rightarrow> Queued \<Rightarrow> Info \<Rightarrow> QueueEntry" where
  "queued_entry inp v q info =
     redact v (q_slot q = vw_slot v) (q_slot q)
       \<lparr> qe_pos = 0, qe_mine = (q_slot q = vw_slot v), qe_class = q_class q,
         qe_tier = shown_tier inp v (q_slot q) (q_tier q), qe_state = JS_Queued,
         qe_cpu_millis = job_cpu inp q, qe_mem_bytes = job_mem inp q, qe_eta_secs = inf_eta_secs info,
         qe_eta_p90_secs = inf_eta_p90_secs info, qe_blocked_by = inf_blocked_by info,
         qe_job_id = None, qe_generation = None, qe_workspace_id = None, qe_session_id = None,
         qe_server_label = None \<rparr>
       (q_job_id q, q_generation q, q_workspace_id q, q_session_id q)"

definition number_entries :: "QueueEntry list \<Rightarrow> QueueEntry list" where
  "number_entries es = map (\<lambda>(n, e). e \<lparr> qe_pos := as_u32 n \<rparr>) (enumerate 1 es)"

definition tenant_totals :: "Input \<Rightarrow> Viewer \<Rightarrow> Tenant \<Rightarrow> TenantTotals" where
  "tenant_totals inp v t =
     \<lparr> tt_slot = t_slot t, tt_label = unwrap_or (bt_get (vw_labels v) (t_slot t)) '''',
       tt_running = count_as_u32 (\<lambda>r. r_slot r = t_slot t) (i_running inp),
       tt_queued = count_as_u32 (\<lambda>q. q_slot q = t_slot t) (i_queued inp),
       tt_cpu_secs_today = t_cpu_secs_today t \<rparr>"

definition view :: "Input \<Rightarrow> Decision \<Rightarrow> Viewer \<Rightarrow> string \<Rightarrow> QueueView" where
  "view inp d v request_id =
     \<lparr> qv_request_id = request_id, qv_at = i_now inp,
       qv_entries = number_entries
         (map (running_entry inp v) (i_running inp)
          @ map (\<lambda>i. queued_entry inp v (i_queued inp ! i) (d_info d ! i)) (d_order d)),
       qv_totals = (if vw_owner v then map (tenant_totals inp v) (i_tenants inp) else []) \<rparr>"

section \<open>Facts\<close>

lemma number_entries_nth:
  "k < length es \<Longrightarrow> number_entries es ! k = (es ! k) \<lparr> qe_pos := as_u32 (Suc k) \<rparr>"
  by (simp add: number_entries_def nth_enumerate_eq)

lemma length_number_entries [simp]: "length (number_entries es) = length es"
  by (simp add: number_entries_def)

lemma set_number_entries: "e \<in> set (number_entries es) \<Longrightarrow> \<exists>x n. x \<in> set es \<and> e = x \<lparr> qe_pos := n \<rparr>"
  by (metis in_set_conv_nth length_number_entries number_entries_nth)

definition private_entry :: "Viewer \<Rightarrow> QueueEntry \<Rightarrow> bool" where
  "private_entry v e \<longleftrightarrow> qe_job_id e = None \<and> qe_generation e = None \<and> qe_workspace_id e = None
     \<and> qe_session_id e = None \<and> (\<not> vw_owner v \<longrightarrow> qe_server_label e = None \<and> qe_blocked_by e = None)
     \<and> (\<forall>s. qe_eta_secs e = Some s \<longrightarrow> (\<exists>x. s = round_eta x))
     \<and> (\<forall>s. qe_eta_p90_secs e = Some s \<longrightarrow> (\<exists>x. s = round_eta x))"

lemma entry_private:
  "\<not> qe_mine (running_entry inp v r) \<Longrightarrow> private_entry v (running_entry inp v r)"
  "\<not> qe_mine (queued_entry inp v q i) \<Longrightarrow> private_entry v (queued_entry inp v q i)"
  by (auto simp: running_entry_def queued_entry_def redact_def private_entry_def Let_def split: if_splits)

text \<open>Privacy: an entry of another server's job shows no job id, generation, workspace or
  session, only rounded times, and (to a viewer that is not the owner) neither a server label nor
  the reason it waits; such a viewer gets no totals either.\<close>

theorem view_private:
  assumes "e \<in> set (qv_entries (view inp d v rid))" "\<not> qe_mine e"
  shows "private_entry v e \<and> (\<not> vw_owner v \<longrightarrow> qv_totals (view inp d v rid) = [])"
proof -
  obtain x n where x: "e = x \<lparr> qe_pos := n \<rparr>"
    "x \<in> set (map (running_entry inp v) (i_running inp) @ map (\<lambda>i. queued_entry inp v (i_queued inp ! i) (d_info d ! i)) (d_order d))"
    using set_number_entries assms(1) unfolding view_def by force
  have "\<not> qe_mine x" using assms(2) x(1) by simp
  then have "private_entry v x" using x(2) entry_private by auto
  then show ?thesis using x(1) by (simp add: private_entry_def view_def)
qed

definition ex_viewer :: "Slot \<Rightarrow> Viewer" where
  "ex_viewer slot = \<lparr> vw_slot = slot, vw_owner = False, vw_labels = [(0, ''home''), (1, ''guest'')], vw_tiers = True, vw_tiers2 = True \<rparr>"

theorem view_private_witness:
  "private_entry (ex_viewer 1) (qv_entries (view ex_two ex_two_d (ex_viewer 1) ''r'') ! 1)"
proof -
  have h: "qv_entries (view ex_two ex_two_d (ex_viewer 1) ''r'') ! 1 \<in> set (qv_entries (view ex_two ex_two_d (ex_viewer 1) ''r''))"
    "\<not> qe_mine (qv_entries (view ex_two ex_two_d (ex_viewer 1) ''r'') ! 1)" by code_simp+
  show ?thesis using view_private [OF h] by simp
qed

section \<open>Noninterference\<close>

text \<open>Two snapshots that differ only in who other servers' jobs belong to (ids, workspaces, sessions,
  submitters, secrets, arrival), not in what their entries may show.\<close>

definition same_running :: "Slot \<Rightarrow> Running \<Rightarrow> Running \<Rightarrow> bool" where
  "same_running slot r r' \<longleftrightarrow> (if r_slot r = slot then r = r' else r_slot r' = r_slot r \<and> r_class r' = r_class r
     \<and> r_tier r' = r_tier r \<and> r_cpu_millis r' = r_cpu_millis r \<and> r_mem_bytes r' = r_mem_bytes r
     \<and> r_left_p50 r' = r_left_p50 r \<and> r_left_p90 r' = r_left_p90 r)"

definition same_queued :: "Slot \<Rightarrow> Queued \<Rightarrow> Queued \<Rightarrow> bool" where
  "same_queued slot q q' \<longleftrightarrow> (if q_slot q = slot then q = q' else q_slot q' = q_slot q \<and> q_class q' = q_class q
     \<and> q_tier q' = q_tier q \<and> q_cpu_millis q' = q_cpu_millis q \<and> q_mem_bytes q' = q_mem_bytes q)"

definition same_public :: "Slot \<Rightarrow> Input \<Rightarrow> Input \<Rightarrow> bool" where
  "same_public slot a b \<longleftrightarrow> i_now a = i_now b \<and> i_caps a = i_caps b \<and> i_tenants a = i_tenants b
     \<and> list_all2 (same_running slot) (i_running a) (i_running b)
     \<and> list_all2 (same_queued slot) (i_queued a) (i_queued b)"

lemma running_entry_same:
  "same_running (vw_slot v) r r' \<Longrightarrow> i_tenants a = i_tenants b \<Longrightarrow> running_entry a v r = running_entry b v r'"
  by (auto simp: same_running_def running_entry_def shown_tier_def redact_def Let_def split: if_splits)

lemma queued_entry_same:
  "same_queued (vw_slot v) q q' \<Longrightarrow> i_tenants a = i_tenants b \<Longrightarrow> i_caps a = i_caps b \<Longrightarrow>
   queued_entry a v q i = queued_entry b v q' i"
  by (auto simp: same_queued_def queued_entry_def shown_tier_def redact_def job_cpu_def job_mem_def Let_def split: if_splits)

lemma count_map: "map f xs = map f ys \<Longrightarrow> count_as_u32 (\<lambda>x. f x = s) xs = count_as_u32 (\<lambda>y. f y = s) ys"
proof -
  assume m: "map f xs = map f ys"
  have e: "length (filter (\<lambda>x. f x = s) zs) = length (filter (\<lambda>k. k = s) (map f zs))" for zs
    by (simp add: filter_map comp_def)
  show ?thesis unfolding count_as_u32_def e m ..
qed

lemma same_slots:
  "list_all2 (same_running slot) rs rs' \<Longrightarrow> count_as_u32 (\<lambda>r. r_slot r = s) rs = count_as_u32 (\<lambda>r. r_slot r = s) rs'"
  "list_all2 (same_queued slot) qs qs' \<Longrightarrow> count_as_u32 (\<lambda>q. q_slot q = s) qs = count_as_u32 (\<lambda>q. q_slot q = s) qs'"
proof -
  assume "list_all2 (same_running slot) rs rs'"
  then have "map r_slot rs = map r_slot rs'"
    by (induction rule: list_all2_induct) (auto simp: same_running_def split: if_splits)
  then show "count_as_u32 (\<lambda>r. r_slot r = s) rs = count_as_u32 (\<lambda>r. r_slot r = s) rs'" by (rule count_map)
next
  assume "list_all2 (same_queued slot) qs qs'"
  then have "map q_slot qs = map q_slot qs'"
    by (induction rule: list_all2_induct) (auto simp: same_queued_def split: if_splits)
  then show "count_as_u32 (\<lambda>q. q_slot q = s) qs = count_as_u32 (\<lambda>q. q_slot q = s) qs'" by (rule count_map)
qed


definition ex_renamed :: Input where
  "ex_renamed = ex_input 3 [(ex_job 0 ''x'' ''w9'' Tier_Normal 7) \<lparr> q_submitter := None \<rparr>, ex_job 0 ''y'' ''w8'' Tier_Normal 8]"


end
