(* ===== verification/Share_Wire.thy ===== *)
theory Share_Wire
  imports Frames "HOL-Library.Code_Target_Numeral"
begin

text \<open>
  \<open>share.rs\<close>, the wire: the views of a share, the \<open>servers.*\<close> verbs and their
  arguments with \<open>check_verb_args\<close>, and \<open>add_url_ok\<close>. Reading the JSON arguments
  is \<open>serde_json\<close>'s work: the readers are a parameter (\<open>Serde\<close>). The standard
  library's \<open>IpAddr\<close> parser, which \<open>add_url_ok\<close> relies on, is modelled.
\<close>

section \<open>Views\<close>

record ShareView =
  sv_role :: Role
  sv_slot :: Slot
  sv_shared :: bool
  sv_servers :: nat
  sv_owner_label :: "string option"
  sv_state :: ServerStatus
  sv_limits :: ShareLimits
  sv_running :: nat
  sv_queued :: nat
  sv_cpu_secs_today :: nat
  sv_expires_in_secs :: "int option"
  sv_skew_secs :: "int option"
  sv_quotes :: "QuoteView list"
  sv_priority :: "bool option"

definition SKEW_SHOW_SECS :: int where
  "SKEW_SHOW_SECS = 120"

record QueuePos =
  qp_pos :: nat
  qp_of :: "nat option"
  qp_eta_secs :: "nat option"
  qp_eta_p90_secs :: "nat option"
  qp_blocked_by :: "string option"

record QueueGet =
  qg_request_id :: string

record ServerListing =
  sl_slot :: Slot
  sl_label :: string
  sl_state :: ServerStatus
  sl_trust :: Trust
  sl_fp :: "string option"
  sl_fp_prefix :: string
  sl_limits :: ShareLimits
  sl_expires_at :: "int option"
  sl_expires_in_secs :: "int option"
  sl_added_at :: int
  sl_added_by :: string
  sl_running :: nat
  sl_queued :: nat
  sl_cpu_secs_today :: nat
  sl_sas :: "string option"
  sl_refusal :: "string option"
  sl_online :: bool
  sl_priority :: "bool option"

record ServersList =
  ls_max_servers :: nat
  ls_solo :: bool
  ls_servers :: "ServerListing list"

section \<open>Loopback addresses\<close>

definition hex_digit :: "nat \<Rightarrow> char \<Rightarrow> nat option" where
  "hex_digit radix c =
     (if is_ascii_digit c then Some (digit_val c)
      else if radix = 16 \<and> 97 \<le> byte c \<and> byte c \<le> 102 then Some (byte c - 87)
      else if radix = 16 \<and> 65 \<le> byte c \<and> byte c \<le> 70 then Some (byte c - 55)
      else None)"

text \<open>\<open>Parser::read_number\<close>: every digit that follows, at most \<open>maxd\<close> of them.\<close>

definition read_number :: "nat \<Rightarrow> nat \<Rightarrow> nat \<Rightarrow> bool \<Rightarrow> string \<Rightarrow> (nat \<times> string) option" where
  "read_number radix maxd hi zero_prefix s =
     (let ds = takeWhile (\<lambda>c. hex_digit radix c \<noteq> None) s;
          n = foldl (\<lambda>a c. a * radix + the (hex_digit radix c)) 0 ds
      in if ds = [] \<or> length ds > maxd \<or> n > hi then None
         else if \<not> zero_prefix \<and> hd ds = CHR ''0'' \<and> length ds > 1 then None
         else Some (n, drop (length ds) s))"

definition read_char :: "char \<Rightarrow> string \<Rightarrow> string option" where
  "read_char d s = (case s of c # cs \<Rightarrow> if c = d then Some cs else None | [] \<Rightarrow> None)"

definition read_separator :: "char \<Rightarrow> nat \<Rightarrow> (string \<Rightarrow> ('a \<times> string) option) \<Rightarrow> string \<Rightarrow> ('a \<times> string) option" where
  "read_separator d i p s = (if i > 0 then Option.bind (read_char d s) p else p s)"

definition read_octet :: "nat \<Rightarrow> string \<Rightarrow> (nat \<times> string) option" where
  "read_octet i = read_separator (CHR ''.'') i (read_number 10 3 255 False)"

definition read_ipv4 :: "string \<Rightarrow> (nat list \<times> string) option" where
  "read_ipv4 s = do {
     (a, s1) \<leftarrow> read_octet 0 s;
     (b, s2) \<leftarrow> read_octet 1 s1;
     (c, s3) \<leftarrow> read_octet 2 s2;
     (d, s4) \<leftarrow> read_octet 3 s3;
     Some ([a, b, c, d], s4)
   }"

text \<open>\<open>read_groups\<close>: up to \<open>limit\<close> groups, the last two may be an embedded IPv4 address.
  \<open>fuel\<close> is the number of groups left.\<close>

fun read_groups :: "nat \<Rightarrow> nat \<Rightarrow> nat list \<Rightarrow> string \<Rightarrow> nat list \<times> bool \<times> string" where
  "read_groups 0 i gs s = (gs, False, s)"
| "read_groups (Suc fuel) i gs s =
     (case (if fuel > 0 then read_separator (CHR '':'') i read_ipv4 s else None) of
        Some (v4, s1) \<Rightarrow> (gs @ [v4 ! 0 * 256 + v4 ! 1, v4 ! 2 * 256 + v4 ! 3], True, s1)
      | None \<Rightarrow>
          (case read_separator (CHR '':'') i (read_number 16 4 65535 True) s of
             Some (g, s1) \<Rightarrow> read_groups fuel (i + 1) (gs @ [g]) s1
           | None \<Rightarrow> (gs, False, s)))"

definition read_ipv6 :: "string \<Rightarrow> (nat list \<times> string) option" where
  "read_ipv6 s =
     (let (h, h4, s1) = read_groups 8 0 [] s in
      if length h = 8 then Some (h, s1)
      else if h4 then None
      else do {
        s2 \<leftarrow> read_char (CHR '':'') s1;
        s3 \<leftarrow> read_char (CHR '':'') s2;
        let (t, _, s4) = read_groups (8 - (length h + 1)) 0 [] s3;
        Some (h @ replicate (8 - length h - length t) 0 @ t, s4)
      })"

definition ip_loopback :: "string \<Rightarrow> bool" where
  "ip_loopback s =
     (case read_ipv4 s of
        Some (v4, rest) \<Rightarrow> rest = [] \<and> v4 ! 0 = 127
      | None \<Rightarrow>
          (case read_ipv6 s of
             Some (v6, rest) \<Rightarrow> rest = [] \<and> v6 = [0, 0, 0, 0, 0, 0, 0, 1]
           | None \<Rightarrow> False))"

section \<open>A new server's URL\<close>

definition url_host :: "string \<Rightarrow> string" where
  "url_host host_port =
     (case strip_prefix ''['' host_port of
        Some r \<Rightarrow> hd (split_on (CHR '']'') r)
      | None \<Rightarrow>
          (case rsplit_once (CHR '':'') host_port of
             Some (h, p) \<Rightarrow> if list_all is_ascii_digit p then h else host_port
           | None \<Rightarrow> host_port))"

definition add_url_ok :: "string \<Rightarrow> bool" where
  "add_url_ok url =
     (if starts_with url ''https://'' then length url > length ''https://''
      else case strip_prefix ''http://'' url of
        None \<Rightarrow> False
      | Some rest \<Rightarrow>
          let host_port = hd (split_on (CHR ''/'') rest) in
          if CHR ''@'' \<in> set host_port then False
          else to_ascii_lowercase (url_host host_port) = ''localhost'' \<or> ip_loopback (url_host host_port))"

section \<open>Verbs\<close>

definition VERB_LIST :: string where "VERB_LIST = ''servers.list''"
definition VERB_ADD :: string where "VERB_ADD = ''servers.add''"
definition VERB_LIMITS :: string where "VERB_LIMITS = ''servers.limits''"
definition VERB_PAUSE :: string where "VERB_PAUSE = ''servers.pause''"
definition VERB_RESUME :: string where "VERB_RESUME = ''servers.resume''"
definition VERB_REVOKE :: string where "VERB_REVOKE = ''servers.revoke''"
definition VERB_OWNER :: string where "VERB_OWNER = ''servers.owner''"

definition VERBS :: "string list" where
  "VERBS = [VERB_LIST, VERB_ADD, VERB_LIMITS, VERB_PAUSE, VERB_RESUME, VERB_REVOKE, VERB_OWNER]"

lemmas verb_names = VERB_LIST_def VERB_ADD_def VERB_LIMITS_def VERB_PAUSE_def VERB_RESUME_def VERB_REVOKE_def VERB_OWNER_def

record AddArgs =
  aa_url :: string
  aa_code_binding :: string
  aa_fp_prefix :: string
  aa_trust :: Trust
  aa_for_secs :: "int option"
  aa_limits :: ShareOverrides

record LimitsArgs =
  la_server :: string
  la_set :: ShareOverrides
  la_for_secs :: "int option"
  la_priority :: "bool option"

record ServerArgs =
  sa_server :: string

record RevokeArgs =
  ra_server :: string
  ra_now :: bool
  ra_wipe :: bool

record OwnerArgs =
  oa_server :: string
  oa_fp :: "string option"
  oa_old :: OldOwner
  oa_caches :: Caches
  oa_now :: bool

text \<open>The readers of the JSON library: \<open>None\<close> is its error.\<close>

record 'v Serde =
  sd_empty_object :: "'v \<Rightarrow> bool"
  sd_add :: "'v \<Rightarrow> AddArgs option"
  sd_limits :: "'v \<Rightarrow> LimitsArgs option"
  sd_server :: "'v \<Rightarrow> ServerArgs option"
  sd_revoke :: "'v \<Rightarrow> RevokeArgs option"
  sd_owner :: "'v \<Rightarrow> OwnerArgs option"

datatype verb_error = NotParsed | ServerArg | TakesNoArgs | UrlArg | BindingArg | FpPrefixArg | ForArg
  | LimitsArg limits_error | ChangeOne | OwnerAlready | FpArg | NotAVerb

definition server_ok :: "string \<Rightarrow> verb_error option" where
  "server_ok s =
     (let slot_ok = (case slot_arg s of Some n \<Rightarrow> valid_slot n | None \<Rightarrow> False)
      in if slot_ok \<or> valid_label s then None else Some ServerArg)"

definition for_ok :: "int option \<Rightarrow> bool" where
  "for_ok f = (case f of None \<Rightarrow> True | Some s \<Rightarrow> s = 0 \<or> (3600 \<le> s \<and> s \<le> 366 * 24 * 3600))"

definition check_add :: "AddArgs \<Rightarrow> verb_error option" where
  "check_add a =
     (if \<not> add_url_ok (aa_url a) \<or> length (aa_url a) > 512 \<or> list_ex is_whitespace (chars (aa_url a)) then Some UrlArg
      else if aa_code_binding a = [] \<or> length (aa_code_binding a) > 128 then Some BindingArg
      else if \<not> valid_fp_prefix (aa_fp_prefix a) then Some FpPrefixArg
      else if \<not> for_ok (aa_for_secs a) then Some ForArg
      else map_option LimitsArg (limits_validate (overrides_apply (aa_limits a) (new_server (aa_trust a) False))))"

definition check_limits :: "LimitsArgs \<Rightarrow> verb_error option" where
  "check_limits a =
     (case server_ok (la_server a) of
        Some e \<Rightarrow> Some e
      | None \<Rightarrow>
          if overrides_is_empty (la_set a) \<and> la_for_secs a = None \<and> la_priority a = None then Some ChangeOne
          else case check_ranges (la_set a) of
            Some e \<Rightarrow> Some (LimitsArg e)
          | None \<Rightarrow> if \<not> for_ok (la_for_secs a) then Some ForArg else None)"

definition check_owner :: "OwnerArgs \<Rightarrow> verb_error option" where
  "check_owner a =
     (case server_ok (oa_server a) of
        Some e \<Rightarrow> Some e
      | None \<Rightarrow>
          if slot_arg (oa_server a) = Some OWNER_SLOT then Some OwnerAlready
          else if (case oa_fp a of Some f \<Rightarrow> \<not> valid_fp f | None \<Rightarrow> False) then Some FpArg
          else None)"

definition parsed :: "'a option \<Rightarrow> ('a \<Rightarrow> verb_error option) \<Rightarrow> verb_error option" where
  "parsed a f = (case a of None \<Rightarrow> Some NotParsed | Some x \<Rightarrow> f x)"

definition check_verb_args :: "'v Serde \<Rightarrow> string \<Rightarrow> 'v \<Rightarrow> verb_error option" where
  "check_verb_args sd verb args =
     (if verb = VERB_LIST then (if sd_empty_object sd args then None else Some TakesNoArgs)
      else if verb = VERB_ADD then parsed (sd_add sd args) check_add
      else if verb = VERB_LIMITS then parsed (sd_limits sd args) check_limits
      else if verb = VERB_PAUSE \<or> verb = VERB_RESUME then parsed (sd_server sd args) (\<lambda>a. server_ok (sa_server a))
      else if verb = VERB_REVOKE then parsed (sd_revoke sd args) (\<lambda>a. server_ok (ra_server a))
      else if verb = VERB_OWNER then parsed (sd_owner sd args) check_owner
      else Some NotAVerb)"

section \<open>Tenant operations\<close>

definition OP_TENANT_PREPARE :: string where "OP_TENANT_PREPARE = ''tenant.prepare''"
definition OP_TENANT_WIPE :: string where "OP_TENANT_WIPE = ''tenant.wipe''"
definition OP_SERVERS_PRUNE :: string where "OP_SERVERS_PRUNE = ''servers.prune''"

record TenantPrepare =
  tp_slot :: Slot
  tp_trust :: Trust
  tp_weight :: nat
  tp_network :: Network

record TenantWipe =
  tw_slot :: Slot

end
