(* ===== verification/Share_Rules.thy ===== *)
theory Share_Rules
  imports Share_Wire
begin

text \<open>
  The rules of shares and of \<open>servers.toml\<close>: what narrowing means, what the structural check
  of the file guarantees and that adding a server keeps it, what the argument checks of the verbs
  promise, and how a line's status moves with time.
\<close>

section \<open>Narrowing\<close>

text \<open>A change is a pure narrowing (no field is reported as widened) exactly when no field of
  the new share gives more than the old one.\<close>

theorem narrowing_iff: "widens l from0 = [] \<longleftrightarrow> limits_le l from0"
  by (rule widens_Nil_iff)

text \<open>A narrowed share never allows a job class the old share refused, and narrowing composes: a
  chain of narrowings is a narrowing.\<close>

theorem narrowing_allows_less:
  assumes "widens a b = []" "widens b c = []" "allows_class a k"
  shows "allows_class c k \<and> widens a c = []"
  using assms limits_le_trans allows_class_mono unfolding widens_Nil_iff by blast

definition ex_narrow :: ShareLimits where
  "ex_narrow = (new_server Trust_Team False) \<lparr> l_max_running := 1 \<rparr>"

theorem narrowing_allows_less_witness:
  "allows_class (owner_limits 4 8 16 100 Net_On) Class_Interactive
   \<and> widens ex_narrow (owner_limits 4 8 16 100 Net_On) = []"
proof -
  have h: "widens ex_narrow (new_server Trust_Own False) = []"
    "widens (new_server Trust_Own False) (owner_limits 4 8 16 100 Net_On) = []"
    "allows_class ex_narrow Class_Interactive" by code_simp+
  show ?thesis by (rule narrowing_allows_less [OF h])
qed

section \<open>Changing a share\<close>

lemma validate_None_iff:
  "limits_validate l = None \<longleftrightarrow>
     1 \<le> l_weight l \<and> l_weight l \<le> 100 \<and> 1 \<le> l_max_running l \<and> l_max_running l \<le> 64
     \<and> 1 \<le> l_max_queued l \<and> l_max_queued l \<le> 1000 \<and> 1 \<le> l_cpu_hours_day l \<and> l_cpu_hours_day l \<le> 24 * 1024
     \<and> 60 \<le> l_max_job_secs l \<and> l_max_job_secs l \<le> 7 * 24 * 3600 \<and> 1 \<le> l_max_cpus l \<and> l_max_cpus l \<le> 1024
     \<and> 1 \<le> l_max_mem_gb l \<and> l_max_mem_gb l \<le> 4096 \<and> 1 \<le> l_disk_gb l \<and> l_disk_gb l \<le> 65536
     \<and> (l_gate l \<longrightarrow> l_top_class l = Class_Gate)"
  by (auto simp: limits_validate_def)

lemma validate_Some_gate:
  assumes "\<forall>e \<in> set [check_range ''weight'' (l_weight l) 1 100,
      check_range ''max_running'' (l_max_running l) 1 64,
      check_range ''max_queued'' (l_max_queued l) 1 1000,
      check_range ''cpu_hours_day'' (l_cpu_hours_day l) 1 (24 * 1024),
      check_range ''max_job_secs'' (l_max_job_secs l) 60 (7 * 24 * 3600),
      check_range ''max_cpus'' (l_max_cpus l) 1 1024,
      check_range ''max_mem_gb'' (l_max_mem_gb l) 1 4096,
      check_range ''disk_gb'' (l_disk_gb l) 1 65536]. e = None"
  shows "limits_validate l = (if l_gate l \<and> l_top_class l \<noteq> Class_Gate then Some GateNeedsTopClass else None)"
  using assms by (simp add: limits_validate_def del: check_range_None)

lemma check_range_unwrap:
  "check_range_opt n v lo hi = None \<Longrightarrow> check_range n b lo hi = None \<Longrightarrow> check_range n (unwrap_or v b) lo hi = None"
  by (cases v) auto

lemma overrides_keep_ranges:
  assumes "check_ranges v = None" "limits_validate base = None"
  shows "limits_validate (overrides_apply v base)
     = (if l_gate (overrides_apply v base) \<and> l_top_class (overrides_apply v base) \<noteq> Class_Gate
        then Some GateNeedsTopClass else None)"
  using assms
  by (intro validate_Some_gate)
    (simp add: check_ranges_def limits_validate_def overrides_apply_def check_range_unwrap
      del: check_range_None check_range_opt_None)

text \<open>A \<open>servers.limits\<close> change that passes the argument check keeps every number of a valid
  share in its range: applied to it, the only rule it can still break is that CI needs the gate class.\<close>

theorem limits_verb_keeps_ranges:
  assumes "check_verb_args sd VERB_LIMITS args = None" "sd_limits sd args = Some a" "limits_validate base = None"
  shows "limits_validate (overrides_apply (la_set a) base) \<in> {None, Some GateNeedsTopClass}"
proof -
  have "check_limits a = None" using assms(1,2) by (simp add: check_verb_args_def verb_names parsed_def)
  then have "check_ranges (la_set a) = None" by (auto simp: check_limits_def split: option.splits if_splits)
  then show ?thesis using overrides_keep_ranges assms(3) by simp
qed

definition ex_serde :: "LimitsArgs Serde" where
  "ex_serde = \<lparr> sd_empty_object = (\<lambda>_. False), sd_add = (\<lambda>_. None), sd_limits = Some, sd_server = (\<lambda>_. None),
     sd_revoke = (\<lambda>_. None), sd_owner = (\<lambda>_. None) \<rparr>"

definition ex_limits_args :: LimitsArgs where
  "ex_limits_args = \<lparr> la_server = ''guest'', la_set = no_overrides \<lparr> o_weight := Some 5, o_gate := Some True \<rparr>,
     la_for_secs = None, la_priority = None \<rparr>"

theorem limits_verb_keeps_ranges_witness:
  "limits_validate (overrides_apply (la_set ex_limits_args) (new_server Trust_Own True)) \<in> {None, Some GateNeedsTopClass}"
proof -
  have h: "check_verb_args ex_serde VERB_LIMITS ex_limits_args = None" "sd_limits ex_serde ex_limits_args = Some ex_limits_args"
    "limits_validate (new_server Trust_Own True) = None" by code_simp+
  show ?thesis by (rule limits_verb_keeps_ranges [OF h])
qed

section \<open>The file\<close>

text \<open>C35: \<open>ServersFile::validate\<close> accepts exactly the well-formed files: version 1, a full owner
  fingerprint, 1 to 8 servers, every line valid (slot, label, fingerprint, owner rule, ranges), slots
  distinct, an owner line and at most one pending line.\<close>

theorem file_validate_iff: "file_validate f = None \<longleftrightarrow> servers_file_ok f"
  by (rule file_validate_None)

text \<open>Adding a server keeps the file valid: a valid line appended at the slot \<open>free_slot\<close> names
  gives a file that validates (as long as it is not a second pending line), and that slot is a tenant
  slot nobody had.\<close>

theorem add_server_valid:
  assumes "file_validate f = None" "free_slot f = Some s" "e_slot e = s" "line_ok f e"
    "e_state e = SS_Pending \<longrightarrow> (\<forall>x \<in> set (sf_servers f). e_state x \<noteq> SS_Pending)"
  shows "file_validate (f \<lparr> sf_servers := sf_servers f @ [e] \<rparr>) = None \<and> entry f s = None \<and> s \<noteq> OWNER_SLOT"
proof -
  have ok: "servers_file_ok f" using assms(1) file_validate_None by simp
  have s: "1 \<le> s" "entry f s = None" using free_slot_Some [OF assms(2)] by auto
  have fresh: "e_slot e \<notin> e_slot ` set (sf_servers f)" using s(2) assms(3) by (simp add: entry_None_iff)
  have lo: "line_ok (f \<lparr> sf_servers := sf_servers f @ [e] \<rparr>) x = line_ok f x" for x by (simp add: line_ok_def)
  have pend: "length (filter (\<lambda>x. e_state x = SS_Pending) (sf_servers f @ [e])) \<le> 1"
  proof (cases "e_state e = SS_Pending")
    case True
    then have "filter (\<lambda>x. e_state x = SS_Pending) (sf_servers f) = []" using assms(5) by (simp add: filter_empty_conv)
    then show ?thesis by simp
  next
    case False
    then show ?thesis using ok by (simp add: servers_file_ok_def)
  qed
  have "servers_file_ok (f \<lparr> sf_servers := sf_servers f @ [e] \<rparr>)"
    using ok fresh pend assms(4) unfolding servers_file_ok_def lo by auto
  then show ?thesis using file_validate_None s by (simp add: OWNER_SLOT_def)
qed

definition ex_hex :: "nat \<Rightarrow> string" where
  "ex_hex n = replicate n (CHR ''a'')"

definition ex_file :: ServersFile where
  "ex_file = ServersFile_new (ex_hex 64) ''home'' (owner_limits 4 8 16 100 Net_On) 3 0 ''local:me''"

definition ex_line :: ServerEntry where
  "ex_line = set_limits ((hd (sf_servers ex_file)) \<lparr> e_fp_prefix := ex_hex 16, e_label := ''guest'', e_state := SS_Pending,
     e_trust := Trust_Team, e_slot := 1, e_pending_until := 600 \<rparr>) (new_server Trust_Team False)"

theorem add_server_valid_witness:
  "file_validate (ex_file \<lparr> sf_servers := sf_servers ex_file @ [ex_line] \<rparr>) = None"
proof -
  have h: "file_validate ex_file = None" "free_slot ex_file = Some 1" "e_slot ex_line = 1" "line_ok ex_file ex_line"
    "\<forall>x \<in> set (sf_servers ex_file). e_state x \<noteq> SS_Pending" by code_simp+
  show ?thesis using add_server_valid [OF h(1-4)] h(5) by blast
qed

section \<open>Time\<close>

text \<open>Time only takes away: a line that has expired or was revoked stays so at every later time,
  so a server that is not usable by expiry never becomes usable again by waiting.\<close>

theorem expiry_is_final:
  assumes "status e now \<in> {St_Expired, St_Revoked}" "now \<le> later"
  shows "status e later = status e now \<and> \<not> usable e later \<and> \<not> may_attach e later"
  using assms
  by (cases "e_state e"; cases "e_expires_at e") (auto simp: status_def usable_def may_attach_def split: if_splits)

theorem expiry_is_final_witness: "\<not> usable ex_line 1000"
proof -
  have h: "status ex_line 700 \<in> {St_Expired, St_Revoked}" "(700 :: int) \<le> 1000" by code_simp+
  show ?thesis using expiry_is_final [OF h] by blast
qed

section \<open>Names\<close>

text \<open>A \<open>server\<close> argument finds the line it names: \<open>slot:n\<close> the line at that slot, a label
  a line with that label, and never a revoked one while a live line has the label.\<close>

theorem find_server_right:
  assumes "find_server f server = Some e"
  shows "e \<in> set (sf_servers f) \<and>
    (case slot_arg server of Some n \<Rightarrow> e_slot e = n
     | None \<Rightarrow> e_label e = server
         \<and> (e_state e = SS_Revoked \<longrightarrow> (\<forall>x \<in> set (sf_servers f). e_label x = server \<longrightarrow> e_state x = SS_Revoked
              \<and> e_added_at x \<le> e_added_at e)))"
proof (cases "slot_arg server")
  case (Some n)
  then show ?thesis using assms entry_Some by (simp add: find_server_def)
next
  case None
  show ?thesis
  proof (cases "by_label f server")
    case (Some x)
    then have "e = x" using assms None by (simp add: find_server_def)
    then show ?thesis using Some None find_Some_ex [of _ "sf_servers f" x] by (auto simp: by_label_def)
  next
    case nl: None
    let ?rs = "filter (\<lambda>e. e_label e = server \<and> e_state e = SS_Revoked) (sf_servers f)"
    have m: "max_by_key e_added_at ?rs = Some e" using assms None nl by (simp add: find_server_def)
    have "e \<in> set ?rs" using max_by_key_in [OF m] .
    moreover have "e_state x = SS_Revoked" if "x \<in> set (sf_servers f)" "e_label x = server" for x
      using nl that by (auto simp: by_label_def find_None_iff)
    moreover have "e_added_at x \<le> e_added_at e" if "x \<in> set ?rs" for x using max_by_key_ge [OF m that] .
    ultimately show ?thesis using None by auto
  qed
qed

theorem find_server_right_witness: "e_slot (the (find_server ex_file ''slot:0'')) = 0"
proof -
  have h: "find_server ex_file ''slot:0'' = Some (the (find_server ex_file ''slot:0''))" "slot_arg ''slot:0'' = Some 0"
    by code_simp+
  show ?thesis using find_server_right [OF h(1)] h(2) by simp
qed

section \<open>URLs\<close>

lemma hd_split_on: "\<exists>t. s = hd (split_on d s) @ t \<and> (t = [] \<or> hd t = d)"
proof (induction s)
  case (Cons c cs)
  obtain p ps where e: "split_on d cs = p # ps" by (cases "split_on d cs") auto
  then show ?case using Cons by auto
qed simp

text \<open>Nothing crosses a wire in the clear: an accepted URL of a new server is \<open>https://\<close> with a
  host, or \<open>http://\<close> whose authority has no user part and names this machine's loopback.\<close>

theorem add_url_secure:
  assumes "add_url_ok url"
  shows "(\<exists>r. r \<noteq> [] \<and> url = ''https://'' @ r) \<or>
    (\<exists>hp t. url = ''http://'' @ hp @ t \<and> (t = [] \<or> hd t = CHR ''/'') \<and> CHR ''@'' \<notin> set hp
       \<and> (to_ascii_lowercase (url_host hp) = ''localhost'' \<or> ip_loopback (url_host hp)))"
proof (cases "starts_with url ''https://''")
  case True
  then obtain r where "url = ''https://'' @ r" by (auto simp: starts_with_iff)
  moreover from this have "r \<noteq> []" using assms True by (auto simp: add_url_ok_def)
  ultimately show ?thesis by blast
next
  case False
  then obtain rest where r: "strip_prefix ''http://'' url = Some rest"
    using assms by (auto simp: add_url_ok_def split: option.splits)
  let ?hp = "hd (split_on (CHR ''/'') rest)"
  obtain t where t: "rest = ?hp @ t" "t = [] \<or> hd t = CHR ''/''" using hd_split_on by blast
  have "CHR ''@'' \<notin> set ?hp" "to_ascii_lowercase (url_host ?hp) = ''localhost'' \<or> ip_loopback (url_host ?hp)"
    using assms False r by (auto simp: add_url_ok_def Let_def split: if_splits)
  then show ?thesis using t r unfolding strip_prefix_Some_iff by metis
qed

theorem add_url_secure_witness:
  "add_url_ok ''http://[::1]:8080/x'' \<and> \<not> add_url_ok ''http://127.0.0.1@evil.com'' \<and>
   ((\<exists>r. r \<noteq> [] \<and> ''https://k2.dev'' = ''https://'' @ r) \<or>
    (\<exists>hp t. ''https://k2.dev'' = ''http://'' @ hp @ t \<and> (t = [] \<or> hd t = CHR ''/'') \<and> CHR ''@'' \<notin> set hp
       \<and> (to_ascii_lowercase (url_host hp) = ''localhost'' \<or> ip_loopback (url_host hp))))"
proof -
  have h: "add_url_ok ''https://k2.dev''" "add_url_ok ''http://[::1]:8080/x''" "\<not> add_url_ok ''http://127.0.0.1@evil.com''"
    by code_simp+
  show ?thesis using add_url_secure [OF h(1)] h(2,3) by blast
qed

end
