(* ===== verification/Refusals.thy ===== *)
theory Refusals
  imports Frames BTree "HOL-Library.Code_Target_Numeral"
begin

text \<open>
  \<open>refusal.rs\<close>: the one refusal function. The node calls \<open>refusal\<close> with its live
  view when an \<open>assign\<close> arrives, the server calls \<open>offer_refusal\<close> with the node's
  last offer. \<open>offer_of_view\<close> is the part of \<open>Node::offer\<close> that fills the offer from
  the view.
\<close>

section \<open>The node's view\<close>

record NodeView =
  nv_control :: Control
  nv_unavailable :: "string list"
  nv_foreign_lock :: "string option"
  nv_disk_free_bytes :: nat
  nv_disk_floor_bytes :: nat
  nv_workspaces_allow :: "string list"
  nv_tools :: "(string, string) btree"
  nv_running :: nat
  nv_parallel_max :: nat
  nv_exclusive_running :: bool
  nv_free_cpu_millis :: nat
  nv_free_mem_bytes :: nat
  nv_network_none :: bool
  nv_network_none_enforced :: bool

record JobAsk =
  ask_workspace_id :: string
  ask_cpu_millis :: "nat option"
  ask_mem_bytes :: "nat option"
  ask_disk_bytes :: nat
  ask_exclusive :: bool
  ask_needs_git :: bool

section \<open>The refusals\<close>

fun control_refusal :: "Control \<Rightarrow> Refusal option" where
  "control_refusal Control_Active = None"
| "control_refusal Control_Paused = Some (Refusal_new LOCAL_PAUSED ''the machine's owner paused this node'')"
| "control_refusal Control_Draining = Some (Refusal_new LOCAL_DRAINING ''the machine's owner is draining this node'')"
| "control_refusal Control_Stopped = Some (Refusal_new LOCAL_STOPPED ''the machine's owner stopped this node'')"

definition availability_refusal :: "string list \<Rightarrow> Refusal option" where
  "availability_refusal reasons =
     (case reasons of
        [] \<Rightarrow> None
      | first # _ \<Rightarrow> Some (Refusal_new first
          (if first = OUTSIDE_WINDOW then ''outside the node's availability window''
           else if first = OWNER_ACTIVE then ''the machine's owner is using it''
           else if first = ON_BATTERY then ''the machine is on battery''
           else ''the node is not available right now'')))"

definition node_refusal :: "NodeView \<Rightarrow> Refusal option" where
  "node_refusal v =
     (case control_refusal (nv_control v) of
        Some r \<Rightarrow> Some r
      | None \<Rightarrow>
          if nv_network_none v \<and> \<not> nv_network_none_enforced v
            then Some (Refusal_new NETWORK_NONE_NOT_ENFORCED NETWORK_NONE_MESSAGE)
          else case availability_refusal (nv_unavailable v) of
            Some r \<Rightarrow> Some r
          | None \<Rightarrow>
              case nv_foreign_lock v of
                Some lock \<Rightarrow> Some (Refusal_new FOREIGN_LOCK (''another tool holds '' @ lock))
              | None \<Rightarrow>
                  if nv_disk_free_bytes v < nv_disk_floor_bytes v
                    then Some (Refusal_new DISK_LOW ''free disk is under the node's floor'')
                  else None)"

definition exceeds :: "nat option \<Rightarrow> nat \<Rightarrow> bool" where
  "exceeds a b = (case a of None \<Rightarrow> False | Some x \<Rightarrow> x > b)"

definition refusal :: "NodeView \<Rightarrow> JobAsk \<Rightarrow> Refusal option" where
  "refusal v ask =
     (case node_refusal v of
        Some r \<Rightarrow> Some r
      | None \<Rightarrow>
          if nv_workspaces_allow v \<noteq> [] \<and> ask_workspace_id ask \<notin> set (nv_workspaces_allow v)
            then Some (Refusal_new WORKSPACE_REFUSED ''the machine's owner doesn't allow this workspace'')
          else if ask_needs_git ask \<and> bt_get (nv_tools v) ''git'' = None
            then Some (Refusal_new TOOL_MISSING ''git is not installed on the node'')
          else if ask_disk_bytes ask > nv_disk_free_bytes v - nv_disk_floor_bytes v
            then Some (Refusal_new DISK_LOW ''not enough free disk above the floor for this job'')
          else if nv_exclusive_running v
            then Some (Refusal_new EXCLUSIVE_RUNNING ''an exclusive job is running'')
          else if ask_exclusive ask \<and> nv_running v > 0
            then Some (Refusal_new WAITING_FOR_IDLE ''an exclusive job waits until the node is idle'')
          else if nv_running v \<ge> nv_parallel_max v
            then Some (Refusal_new PARALLEL_FULL ''the node is running as many jobs as it allows'')
          else if exceeds (ask_cpu_millis ask) (nv_free_cpu_millis v) \<or> exceeds (ask_mem_bytes ask) (nv_free_mem_bytes v)
            then Some (Refusal_new LOCAL_RESOURCE_LIMIT ''not enough free CPU or memory under the node's caps'')
          else None)"

definition view_of_offer :: "Offer \<Rightarrow> nat \<Rightarrow> bool \<Rightarrow> NodeView" where
  "view_of_offer off running exclusive_running =
     \<lparr> nv_control = of_control off, nv_unavailable = [], nv_foreign_lock = None,
       nv_disk_free_bytes = fr_disk_free_bytes (of_free off), nv_disk_floor_bytes = 0,
       nv_workspaces_allow = [], nv_tools = of_tools off, nv_running = running,
       nv_parallel_max = of_parallel_max off, nv_exclusive_running = exclusive_running,
       nv_free_cpu_millis = fr_cpu_millis (of_free off), nv_free_mem_bytes = fr_mem_bytes (of_free off),
       nv_network_none = False, nv_network_none_enforced = False \<rparr>"

definition offer_refusal :: "Offer \<Rightarrow> nat \<Rightarrow> bool \<Rightarrow> JobAsk \<Rightarrow> Refusal option" where
  "offer_refusal off running exclusive_running ask =
     (if of_protocol off < JOBS_MIN_PROTOCOL
        then Some (Refusal_new UPGRADE_REQUIRED ''the node runs an older protocol; update K2 on it'')
      else case control_refusal (of_control off) of
        Some r \<Rightarrow> Some r
      | None \<Rightarrow>
          if \<not> av_ok (of_availability off) then
            (case availability_refusal (av_reasons (of_availability off)) of
               Some r \<Rightarrow> Some r
             | None \<Rightarrow> Some (Refusal_new OUTSIDE_WINDOW ''the node is not available right now''))
          else case of_refusal off of
            Some r \<Rightarrow> Some r
          | None \<Rightarrow> refusal (view_of_offer off running exclusive_running) ask)"

section \<open>The offer a node sends\<close>

text \<open>\<open>Node::offer\<close>: the fields it takes from the view; the rest comes with \<open>rest\<close>.\<close>

definition offer_of_view :: "Offer \<Rightarrow> NodeView \<Rightarrow> Offer" where
  "offer_of_view rest v = rest
     \<lparr> of_control := nv_control v,
       of_availability := \<lparr> av_ok = (nv_unavailable v = []), av_reasons = nv_unavailable v \<rparr>,
       of_free := \<lparr> fr_cpu_millis = nv_free_cpu_millis v, fr_mem_bytes = nv_free_mem_bytes v,
                    fr_disk_free_bytes = nv_disk_free_bytes v \<rparr>,
       of_running := nv_running v, of_parallel_max := nv_parallel_max v,
       of_refusal := node_refusal v, of_tools := nv_tools v, of_protocol := PROTOCOL \<rparr>"

text \<open>The one place where the two sides check in a different order.\<close>

definition wall_and_window :: "NodeView \<Rightarrow> bool" where
  "wall_and_window v \<longleftrightarrow> nv_network_none v \<and> \<not> nv_network_none_enforced v \<and> nv_unavailable v \<noteq> []"

lemma node_refusal_parts:
  "node_refusal v = None \<longleftrightarrow> nv_control v = Control_Active \<and> \<not> (nv_network_none v \<and> \<not> nv_network_none_enforced v)
     \<and> nv_unavailable v = [] \<and> nv_foreign_lock v = None \<and> nv_disk_floor_bytes v \<le> nv_disk_free_bytes v"
  by (cases "nv_control v") (auto simp: node_refusal_def availability_refusal_def split: list.splits option.splits)

lemma refusal_node: "node_refusal v = Some r \<Longrightarrow> refusal v ask = Some r"
  by (simp add: refusal_def)


definition ex_offer :: Offer where
  "ex_offer = \<lparr> of_revision = 0, of_control = Control_Active, of_control_by = None, of_control_at = None,
     of_availability = \<lparr> av_ok = True, av_reasons = [] \<rparr>,
     of_caps = \<lparr> oc_cpu_millis = 4000, oc_mem_bytes = 100, oc_disk_budget_bytes = 10, oc_hard = True \<rparr>,
     of_free = \<lparr> fr_cpu_millis = 4000, fr_mem_bytes = 100, fr_disk_free_bytes = 50 \<rparr>, of_slots = [], of_running = 0,
     of_parallel_max = 2, of_refusal = None, of_labels = [], of_tools = [(''git'', ''2'')], of_protocol = 8,
     of_boot_id = ''b'', of_ledger_id = ''l'', of_node_version = ''0'', of_features = [] \<rparr>"

definition ex_view :: NodeView where
  "ex_view = \<lparr> nv_control = Control_Active, nv_unavailable = [ON_BATTERY], nv_foreign_lock = None, nv_disk_free_bytes = 50,
     nv_disk_floor_bytes = 5, nv_workspaces_allow = [''w1''], nv_tools = [(''git'', ''2'')], nv_running = 2, nv_parallel_max = 2,
     nv_exclusive_running = False, nv_free_cpu_millis = 1000, nv_free_mem_bytes = 10, nv_network_none = False,
     nv_network_none_enforced = False \<rparr>"

definition ex_ask :: JobAsk where
  "ex_ask = \<lparr> ask_workspace_id = ''w1'', ask_cpu_millis = Some 500, ask_mem_bytes = None, ask_disk_bytes = 0,
     ask_exclusive = False, ask_needs_git = True \<rparr>"


text \<open>With both an unenforced \<open>network = none\<close> and an availability refusal the two sides
  name different codes: the node checks the network first, the server the availability.\<close>

theorem sides_differ:
  "map_option rf_code (refusal (ex_view \<lparr> nv_network_none := True \<rparr>) ex_ask) = Some NETWORK_NONE_NOT_ENFORCED
   \<and> map_option rf_code (offer_refusal (offer_of_view ex_offer (ex_view \<lparr> nv_network_none := True \<rparr>)) 2 False ex_ask)
       = Some ON_BATTERY"
  by code_simp

text \<open>A job the node accepts has room: the node is active, available, unlocked and above its disk
  floor, allows the workspace, has git when code is synced, runs nothing exclusive, has a parallel
  slot, and has the CPU and memory the job names.\<close>

theorem accepted_has_room:
  "refusal v ask = None \<longleftrightarrow>
     nv_control v = Control_Active \<and> (nv_network_none v \<longrightarrow> nv_network_none_enforced v) \<and> nv_unavailable v = []
     \<and> nv_foreign_lock v = None
     \<and> (nv_workspaces_allow v = [] \<or> ask_workspace_id ask \<in> set (nv_workspaces_allow v))
     \<and> (ask_needs_git ask \<longrightarrow> bt_get (nv_tools v) ''git'' \<noteq> None)
     \<and> nv_disk_floor_bytes v + ask_disk_bytes ask \<le> nv_disk_free_bytes v
     \<and> \<not> nv_exclusive_running v \<and> (ask_exclusive ask \<longrightarrow> nv_running v = 0) \<and> nv_running v < nv_parallel_max v
     \<and> (\<forall>c. ask_cpu_millis ask = Some c \<longrightarrow> c \<le> nv_free_cpu_millis v)
     \<and> (\<forall>m. ask_mem_bytes ask = Some m \<longrightarrow> m \<le> nv_free_mem_bytes v)"
proof -
  have e: "\<not> exceeds a b \<longleftrightarrow> (\<forall>x. a = Some x \<longrightarrow> x \<le> b)" for a b
    by (auto simp: exceeds_def split: option.splits)
  have "refusal v ask = None \<longleftrightarrow> node_refusal v = None
     \<and> (nv_workspaces_allow v = [] \<or> ask_workspace_id ask \<in> set (nv_workspaces_allow v))
     \<and> (ask_needs_git ask \<longrightarrow> bt_get (nv_tools v) ''git'' \<noteq> None)
     \<and> ask_disk_bytes ask \<le> nv_disk_free_bytes v - nv_disk_floor_bytes v
     \<and> \<not> nv_exclusive_running v \<and> (ask_exclusive ask \<longrightarrow> nv_running v = 0) \<and> nv_running v < nv_parallel_max v
     \<and> \<not> exceeds (ask_cpu_millis ask) (nv_free_cpu_millis v) \<and> \<not> exceeds (ask_mem_bytes ask) (nv_free_mem_bytes v)"
    by (cases "node_refusal v") (auto simp: refusal_def not_less split: if_splits)
  then show ?thesis unfolding node_refusal_parts e
    by (elim ssubst) (rule iffI; elim conjE; intro conjI; (assumption | linarith | blast))
qed

theorem accepted_has_room_witness:
  "refusal (ex_view \<lparr> nv_unavailable := [], nv_parallel_max := 3 \<rparr>) ex_ask = None"
proof -
  let ?v = "ex_view \<lparr> nv_unavailable := [], nv_parallel_max := 3 \<rparr>"
  have "bt_get (nv_tools ?v) ''git'' \<noteq> None" by code_simp
  then show ?thesis using accepted_has_room [of ?v ex_ask] by (simp add: ex_view_def ex_ask_def)
qed

end
