(* ===== verification/Scheduler.thy ===== *)
theory Scheduler
  imports Refusals
begin

text \<open>
  \<open>compute/scheduler.rs\<close>: the server's queue for a solo node. \<open>order_with\<close> gives the
  start order, \<open>decide_with\<close> one placement and why every other job waits. The numbers a
  message prints (\<open>f64\<close> formatting) come from a parameter, \<open>Fmt\<close>; the codes and every
  decision are independent of it. A \<open>HashMap\<close> that is only looked up and summed is a sorted
  association list.
\<close>

section \<open>Data\<close>

record QueuedJob =
  j_id :: string
  j_workspace_id :: string
  j_created_at :: int
  j_exclusive :: bool
  j_cpu_millis :: "nat option"
  j_mem_bytes :: "nat option"
  j_disk_bytes :: nat
  j_needs_git :: bool
  j_tier :: Tier
  j_submitter :: "string option"

definition job_sub :: "QueuedJob \<Rightarrow> string" where
  "job_sub j = unwrap_or (j_submitter j) ''''"

record Load =
  ld_running_by_workspace :: "(string, nat) btree"
  ld_exclusive_running :: bool
  ld_running_by_submitter :: "(string \<times> string, nat) btree"

definition load_total :: "Load \<Rightarrow> nat" where
  "load_total l = as_u32 (sum_list (map snd (ld_running_by_workspace l)))"

record Turns =
  tn_last_ws :: "string option"
  tn_last_submitter :: "(string, string) btree"
  tn_last_line :: "Line option"

definition turns_ws :: "string option \<Rightarrow> Turns" where
  "turns_ws l = \<lparr> tn_last_ws = l, tn_last_submitter = [], tn_last_line = None \<rparr>"

definition turns_note :: "Turns \<Rightarrow> string \<Rightarrow> string option \<Rightarrow> Tier \<Rightarrow> Turns" where
  "turns_note t workspace_id submitter tier =
     \<lparr> tn_last_ws = Some workspace_id,
       tn_last_submitter = bt_insert workspace_id (unwrap_or submitter '''') (tn_last_submitter t),
       tn_last_line = (if tier_line tier = Line_Priority \<or> tier_line tier = Line_Standard
          then Some (tier_line tier) else tn_last_line t) \<rparr>"

definition turns_served :: "Turns \<Rightarrow> QueuedJob \<Rightarrow> Turns" where
  "turns_served t j = turns_note t (j_workspace_id j) (j_submitter j) (j_tier j)"

record SoloDecision =
  sd_place :: "string option"
  sd_waiting :: "(string, nat \<times> Refusal) btree"

definition GRANT_PARALLEL_FULL :: string where [codes]:
  "GRANT_PARALLEL_FULL = ''grant_parallel_full''"

definition CONTROLLER_PAUSED :: string where [codes]:
  "CONTROLLER_PAUSED = ''controller_paused''"

section \<open>Refusals of the server's own\<close>

text \<open>How the language prints a size in GB (one decimal, none) and a CPU count (two decimals, one).\<close>

record Fmt =
  fmt_gb1 :: "nat \<Rightarrow> string"
  fmt_gb0 :: "nat \<Rightarrow> string"
  fmt_cpu2 :: "nat \<Rightarrow> string"
  fmt_cpu1 :: "nat \<Rightarrow> string"

text \<open>\<open>fmt_num\<close>: one decimal, dropped when it is zero.\<close>

definition fmt_num :: "Fmt \<Rightarrow> nat \<Rightarrow> string" where
  "fmt_num fm m = (let s = fmt_cpu1 fm m in unwrap_or (strip_suffix ''.0'' s) s)"

definition over_cap :: "nat option \<Rightarrow> nat \<Rightarrow> nat option" where
  "over_cap a cap = (case a of None \<Rightarrow> None | Some m \<Rightarrow> if cap > 0 \<and> m > cap then Some m else None)"

definition never_fits :: "Fmt \<Rightarrow> Offer \<Rightarrow> QueuedJob \<Rightarrow> Refusal option" where
  "never_fits fm off j =
     (case over_cap (j_mem_bytes j) (oc_mem_bytes (of_caps off)) of
        Some m \<Rightarrow> Some (Refusal_new EXCEEDS_NODE_CAPS (''the job asks for '' @ fmt_gb1 fm m
            @ '' GB of memory; the node allows at most '' @ fmt_gb1 fm (oc_mem_bytes (of_caps off)) @ '' GB''))
      | None \<Rightarrow>
          (case over_cap (j_cpu_millis j) (oc_cpu_millis (of_caps off)) of
             Some c \<Rightarrow> Some (Refusal_new EXCEEDS_NODE_CAPS (''the job asks for '' @ fmt_cpu2 fm c
                 @ '' CPUs; the node allows at most '' @ fmt_cpu2 fm (oc_cpu_millis (of_caps off))))
           | None \<Rightarrow> None))"

definition with_numbers :: "Fmt \<Rightarrow> Refusal \<Rightarrow> Offer \<Rightarrow> QueuedJob \<Rightarrow> nat \<Rightarrow> Refusal" where
  "with_numbers fm r off j running =
     (if rf_code r \<noteq> LOCAL_RESOURCE_LIMIT then r
      else
        let asks = (case j_mem_bytes j of Some m \<Rightarrow> [fmt_gb1 fm m @ '' GB''] | None \<Rightarrow> [])
                 @ (case j_cpu_millis j of Some c \<Rightarrow> [fmt_num fm c @ '' CPUs''] | None \<Rightarrow> [])
        in Refusal_new LOCAL_RESOURCE_LIMIT (''asks '' @ join_with '' and '' asks @ ''; ''
             @ fmt_gb1 fm (fr_mem_bytes (of_free off)) @ '' GB of '' @ fmt_gb0 fm (oc_mem_bytes (of_caps off)) @ '' GB and ''
             @ fmt_num fm (fr_cpu_millis (of_free off)) @ '' of '' @ fmt_num fm (oc_cpu_millis (of_caps off))
             @ '' CPUs free; '' @ digits_of running @ '' running''))"

definition job_ask :: "QueuedJob \<Rightarrow> JobAsk" where
  "job_ask j = \<lparr> ask_workspace_id = j_workspace_id j, ask_cpu_millis = j_cpu_millis j, ask_mem_bytes = j_mem_bytes j,
     ask_disk_bytes = j_disk_bytes j, ask_exclusive = j_exclusive j, ask_needs_git = j_needs_git j \<rparr>"

section \<open>The order\<close>

definition solo_aged :: "QueuedJob \<Rightarrow> int \<Rightarrow> bool" where
  "solo_aged j now = tiers_aged (i64_sub now (j_created_at j)) AGE_SECS"

definition fifo_key :: "QueuedJob \<Rightarrow> int \<times> string" where
  "fifo_key j = (j_created_at j, j_id j)"

fun position_gt :: "string \<Rightarrow> string list \<Rightarrow> nat option" where
  "position_gt l [] = None"
| "position_gt l (k # ks) = (if k > l then Some 0 else map_option Suc (position_gt l ks))"

definition rotated :: "string list \<Rightarrow> string option \<Rightarrow> string list" where
  "rotated keys lst =
     (let ks = btree_set keys in
      case lst of
        None \<Rightarrow> ks
      | Some l \<Rightarrow> (let start = unwrap_or (position_gt l ks) 0 in drop start ks @ take start ks))"

text \<open>Round-robin over the queues, given in key order: one pass pops the head of each.\<close>

function round_robin :: "'a list list \<Rightarrow> 'a list" where
  "round_robin gs =
     (let heads = concat (map (take 1) gs) in
      if heads = [] then [] else heads @ round_robin (map (drop 1) gs))"
  by pat_completeness auto

lemma round_robin_less:
  "concat (map (take 1) gs) \<noteq> [] \<Longrightarrow> sum_list (map length (map (drop 1) gs)) < sum_list (map length gs)"
proof (induction gs)
  case (Cons g gs)
  have le: "sum_list (map length (map (drop 1) gs)) \<le> sum_list (map length gs)"
    by (simp add: comp_def sum_list_mono)
  show ?case
  proof (cases g)
    case Nil
    then show ?thesis using Cons by simp
  next
    case (Cons x xs)
    then show ?thesis using le by simp
  qed
qed simp

termination round_robin
  by (relation "measure (\<lambda>gs. sum_list (map length gs))") (use round_robin_less in \<open>auto simp: Let_def\<close>)

declare round_robin.simps [simp del]

definition workspace_order :: "QueuedJob list \<Rightarrow> Turns \<Rightarrow> string \<Rightarrow> QueuedJob list" where
  "workspace_order fresh turns w =
     (let mine = filter (\<lambda>j. j_workspace_id j = w) fresh;
          subs = rotated (map job_sub mine) (bt_get (tn_last_submitter turns) w)
      in round_robin (map (\<lambda>s. filter (\<lambda>j. job_sub j = s) mine) subs))"

definition line_order :: "int \<Rightarrow> QueuedJob list \<Rightarrow> Turns \<Rightarrow> QueuedJob list" where
  "line_order now jobs turns =
     (let old = sort_key fifo_key (filter (\<lambda>j. solo_aged j now) jobs);
          fresh = sort_key fifo_key (filter (\<lambda>j. \<not> solo_aged j now) jobs);
          wss = rotated (map j_workspace_id fresh) (tn_last_ws turns)
      in old @ round_robin (map (workspace_order fresh turns) wss))"

function alternate :: "Line \<Rightarrow> 'a list \<Rightarrow> 'a list \<Rightarrow> 'a list" where
  "alternate nxt pri std =
     (if pri = [] \<and> std = [] then []
      else if nxt = Line_Priority then
        (case pri of
           j # ps \<Rightarrow> j # alternate Line_Standard ps std
         | [] \<Rightarrow> hd std # alternate Line_Standard [] (tl std))
      else
        (case std of
           j # ss \<Rightarrow> j # alternate Line_Priority pri ss
         | [] \<Rightarrow> hd pri # alternate Line_Priority (tl pri) []))"
  by pat_completeness auto

termination alternate
  by (relation "measure (\<lambda>(nxt, pri, std). length pri + length std)") auto

declare alternate.simps [simp del]

definition of_line :: "QueuedJob list \<Rightarrow> Line \<Rightarrow> QueuedJob list" where
  "of_line queue l = filter (\<lambda>j. tier_line (j_tier j) = l) queue"

definition order_with :: "int \<Rightarrow> QueuedJob list \<Rightarrow> Turns \<Rightarrow> QueuedJob list" where
  "order_with now queue turns =
     sort_key fifo_key (of_line queue Line_Ci)
     @ alternate (alternate_after (tn_last_line turns))
         (line_order now (of_line queue Line_Priority) turns)
         (line_order now (of_line queue Line_Standard) turns)
     @ line_order now (of_line queue Line_Batch) turns"

definition solo_order :: "int \<Rightarrow> QueuedJob list \<Rightarrow> string option \<Rightarrow> QueuedJob list" where
  "solo_order now queue last_workspace = order_with now queue (turns_ws last_workspace)"

section \<open>One placement\<close>

definition hold_reason :: "QueuedJob \<Rightarrow> Line \<Rightarrow> Refusal" where
  "hold_reason j l =
     (if l = Line_Ci then Refusal_new TIER_HOLD ''a CI job ahead of it takes the next free slot''
      else if l = Line_Priority then Refusal_new TIER_HOLD ''a Priority job ahead of it takes the next free slot''
      else if j_exclusive j then Refusal_new WAITING_FOR_IDLE ''an exclusive job ahead of it waits for an idle node''
      else Refusal_new TIER_HOLD ''a job ahead of it takes the next free slot'')"

record Limits =
  lm_grant_max_parallel :: "string \<Rightarrow> nat"
  lm_submitter_max_running :: "string \<Rightarrow> nat"

definition within_grant :: "QueuedJob \<Rightarrow> Load \<Rightarrow> (string \<Rightarrow> nat) \<Rightarrow> bool" where
  "within_grant j load cap \<longleftrightarrow>
     unwrap_or (bt_get (ld_running_by_workspace load) (j_workspace_id j)) 0 < max (cap (j_workspace_id j)) 1"

definition within_submitter_cap :: "QueuedJob \<Rightarrow> Load \<Rightarrow> (string \<Rightarrow> nat) \<Rightarrow> bool" where
  "within_submitter_cap j load cap \<longleftrightarrow>
     (let c = cap (j_workspace_id j) in c = 0 \<or> j_tier j = Tier_Ci
        \<or> unwrap_or (bt_get (ld_running_by_submitter load) (j_workspace_id j, job_sub j)) 0 < c)"

definition submitter_full_refusal :: "QueuedJob \<Rightarrow> (string \<Rightarrow> nat) \<Rightarrow> Refusal" where
  "submitter_full_refusal j cap = Refusal_new SUBMITTER_RUNNING_FULL
     (''this submitter already runs '' @ digits_of (cap (j_workspace_id j))
      @ '' job(s) here (the grant's per-submitter cap); jobs behind it may start first'')"

definition grant_full :: Refusal where
  "grant_full = Refusal_new GRANT_PARALLEL_FULL ''this workspace already runs as many jobs on the node as its grant allows''"

text \<open>The verdict on one job: \<open>None\<close> is \<open>Ok\<close>. \<open>placed\<close>: something is placed already.\<close>

definition verdict :: "Fmt \<Rightarrow> Offer \<Rightarrow> Load \<Rightarrow> Limits \<Rightarrow> bool \<Rightarrow> QueuedJob \<Rightarrow> Refusal option" where
  "verdict fm off load caps placed j =
     (case offer_refusal off (load_total load) (ld_exclusive_running load) (job_ask j) of
        Some r \<Rightarrow> Some (with_numbers fm r off j (load_total load))
      | None \<Rightarrow>
          if \<not> within_grant j load (lm_grant_max_parallel caps) then Some grant_full
          else if \<not> within_submitter_cap j load (lm_submitter_max_running caps)
            then Some (submitter_full_refusal j (lm_submitter_max_running caps))
          else if tier_line (j_tier j) = Line_Batch \<and> (load_total load > 0 \<or> placed)
            then Some (Refusal_new BATCH_WINDOW
              ''Batch: it starts when the node is idle (nothing running, nothing else ready)'')
          else None)"

record solo_state =
  so_place :: "string option"
  so_hold :: "Refusal option"
  so_head_seen :: bool
  so_seen :: "(string \<times> string \<times> Line) list"
  so_waiting :: "(string, nat \<times> Refusal) btree"

definition put_wait :: "QueuedJob \<Rightarrow> nat \<Rightarrow> Refusal \<Rightarrow> solo_state \<Rightarrow> solo_state" where
  "put_wait j pos r st = st \<lparr> so_waiting := bt_insert (j_id j) (pos, r) (so_waiting st) \<rparr>"

definition fifo_line :: "Line \<Rightarrow> bool" where
  "fifo_line l \<longleftrightarrow> l = Line_Standard \<or> l = Line_Batch"

definition judge :: "Fmt \<Rightarrow> Offer \<Rightarrow> Load \<Rightarrow> Limits \<Rightarrow> bool \<Rightarrow> nat \<Rightarrow> QueuedJob \<Rightarrow> solo_state \<Rightarrow> solo_state" where
  "judge fm off load caps is_head pos j st =
     (case verdict fm off load caps (so_place st \<noteq> None) j of
        None \<Rightarrow>
          if so_place st = None then st \<lparr> so_place := Some (j_id j) \<rparr>
          else put_wait j pos (Refusal_new ''next_in_turn'' ''next in turn'') st
      | Some r \<Rightarrow>
          let ln = tier_line (j_tier j);
              st1 = (if waits_for_room (rf_code r) \<and> (line_holds ln \<or> (is_head \<and> j_exclusive j \<and> ln \<noteq> Line_Batch))
                     then st \<lparr> so_hold := Some (hold_reason j ln) \<rparr> else st)
          in put_wait j pos r st1)"

definition solo_step :: "Fmt \<Rightarrow> Offer \<Rightarrow> Load \<Rightarrow> Limits \<Rightarrow> nat \<Rightarrow> QueuedJob \<Rightarrow> solo_state \<Rightarrow> solo_state" where
  "solo_step fm off load caps pos j st =
     (case never_fits fm off j of
        Some r \<Rightarrow> put_wait j pos r st
      | None \<Rightarrow>
          let is_head = \<not> so_head_seen st;
              st1 = st \<lparr> so_head_seen := True \<rparr>;
              key = (j_workspace_id j, job_sub j, tier_line (j_tier j))
          in case so_hold st of
               Some h \<Rightarrow> put_wait j pos h st1
             | None \<Rightarrow>
                 if fifo_line (tier_line (j_tier j)) \<and> key \<in> set (so_seen st)
                   then put_wait j pos (Refusal_new ''behind_older_job'' ''an older job from the same submitter goes first'') st1
                 else judge fm off load caps is_head pos j
                   (if fifo_line (tier_line (j_tier j)) then st1 \<lparr> so_seen := key # so_seen st \<rparr> else st1))"

text \<open>\<open>position\<close>: the code collects the 1-based positions by id, the last one of equal ids.\<close>

definition position_of :: "QueuedJob list \<Rightarrow> string \<Rightarrow> nat" where
  "position_of jobs i = unwrap_or (map_of (rev (map (\<lambda>(n, j). (j_id j, n)) (enumerate 1 jobs))) i) 0"

fun solo_loop :: "Fmt \<Rightarrow> Offer \<Rightarrow> Load \<Rightarrow> Limits \<Rightarrow> (string \<Rightarrow> nat) \<Rightarrow> QueuedJob list \<Rightarrow> solo_state \<Rightarrow> solo_state" where
  "solo_loop fm off load caps pos [] st = st"
| "solo_loop fm off load caps pos (j # js) st =
     solo_loop fm off load caps pos js (solo_step fm off load caps (pos (j_id j)) j st)"

definition wait_all :: "QueuedJob list \<Rightarrow> Refusal \<Rightarrow> SoloDecision" where
  "wait_all jobs why =
     \<lparr> sd_place = None, sd_waiting = fold (\<lambda>j. bt_insert (j_id j) (position_of jobs (j_id j), why)) jobs [] \<rparr>"

definition solo_start :: solo_state where
  "solo_start = \<lparr> so_place = None, so_hold = None, so_head_seen = False, so_seen = [], so_waiting = [] \<rparr>"

definition decide_with :: "Fmt \<Rightarrow> int \<Rightarrow> QueuedJob list \<Rightarrow> Turns \<Rightarrow> Load \<Rightarrow> Limits \<Rightarrow> Offer option \<Rightarrow> string option
    \<Rightarrow> SoloDecision" where
  "decide_with fm now queue turns load caps off controller_pause =
     (let jobs = order_with now queue turns in
      if jobs = [] then \<lparr> sd_place = None, sd_waiting = [] \<rparr>
      else case controller_pause of
        Some p \<Rightarrow> wait_all jobs (Refusal_new CONTROLLER_PAUSED (''the server's owner '' @ p @ '' this node''))
      | None \<Rightarrow>
          (case off of
             None \<Rightarrow> wait_all jobs (Refusal_new ''node_offline'' ''the node is offline; the job starts when it reconnects'')
           | Some o1 \<Rightarrow>
               let st = solo_loop fm o1 load caps (position_of jobs) jobs solo_start
               in \<lparr> sd_place = so_place st, sd_waiting = so_waiting st \<rparr>))"

definition solo_decide :: "Fmt \<Rightarrow> int \<Rightarrow> QueuedJob list \<Rightarrow> string option \<Rightarrow> Load \<Rightarrow> (string \<Rightarrow> nat) \<Rightarrow> Offer option
    \<Rightarrow> string option \<Rightarrow> SoloDecision" where
  "solo_decide fm now queue last_workspace load grant_max_parallel off controller_pause =
     decide_with fm now queue (turns_ws last_workspace) load
       \<lparr> lm_grant_max_parallel = grant_max_parallel, lm_submitter_max_running = (\<lambda>_. 0) \<rparr> off controller_pause"

section \<open>Choosing a node (\<open>--any\<close>)\<close>

definition warmth :: "Offer \<Rightarrow> string option \<Rightarrow> string option \<Rightarrow> nat" where
  "warmth off project_key commit =
     (case project_key of
        None \<Rightarrow> 0
      | Some pk \<Rightarrow>
          let slots = filter (\<lambda>s. si_project_key s = pk \<and> \<not> si_busy s) (of_slots off) in
          if commit \<noteq> None \<and> list_ex (\<lambda>s. si_last_sha s = commit) slots then 2
          else if slots \<noteq> [] then 1 else 0)"

text \<open>The loops keep the first of the best scores.\<close>

fun best_scored :: "('c \<Rightarrow> bool) \<Rightarrow> ('c \<Rightarrow> nat \<times> nat) \<Rightarrow> 'c list \<Rightarrow> 'c option \<Rightarrow> 'c option" where
  "best_scored ok score [] best = best"
| "best_scored ok score (c # cs) best =
     best_scored ok score cs
       (if \<not> ok c then best
        else case best of None \<Rightarrow> Some c | Some b \<Rightarrow> if score c > score b then Some c else best)"

definition pick_any :: "(string \<times> Offer \<times> Load) list \<Rightarrow> string option \<Rightarrow> string option \<Rightarrow> QueuedJob \<Rightarrow> string option" where
  "pick_any candidates project_key commit j =
     map_option fst (best_scored
       (\<lambda>(i, off, load). offer_refusal off (load_total load) (ld_exclusive_running load) (job_ask j) = None)
       (\<lambda>(i, off, load). (warmth off project_key commit, fr_cpu_millis (of_free off))) candidates None)"

definition pick_any_queue :: "Fmt \<Rightarrow> (string \<times> Offer \<times> Load) list \<Rightarrow> string option \<Rightarrow> string option \<Rightarrow> QueuedJob \<Rightarrow> string option" where
  "pick_any_queue fm candidates project_key commit j =
     map_option fst (best_scored
       (\<lambda>(i, off, load). never_fits fm off j = None)
       (\<lambda>(i, off, load). (warmth off project_key commit, oc_cpu_millis (of_caps off))) candidates None)"

end
