(* ===== verification/Solo_Order.thy ===== *)
theory Solo_Order
  imports Scheduler
begin

text \<open>
  The start order of the solo scheduler: a permutation of the queue, CI first and first come first
  served, Priority and Standard in turns, Batch last, and one submitter's jobs of a workspace in
  the order they came inside a line.
\<close>

section \<open>Round-robin\<close>

lemma mset_concat_take_drop:
  "mset (concat (map (take 1) gs)) + mset (concat (map (drop 1) gs)) = mset (concat gs)"
proof (induction gs)
  case (Cons g gs)
  have "mset (take 1 g) + mset (drop 1 g) = mset g" by (metis append_take_drop_id mset_append)
  then show ?case using Cons by (simp add: ac_simps)
qed simp

lemma take_heads_Nil: "concat (map (take 1) gs) = [] \<Longrightarrow> concat gs = []"
  by (induction gs) (auto simp: take_Suc split: list.splits)

lemma mset_round_robin: "mset (round_robin gs) = mset (concat gs)"
proof (induction gs rule: round_robin.induct)
  case (1 gs)
  show ?case
  proof (cases "concat (map (take 1) gs) = []")
    case True
    then show ?thesis using take_heads_Nil [OF True] by (subst round_robin.simps) simp
  next
    case False
    then have "mset (round_robin (map (drop 1) gs)) = mset (concat (map (drop 1) gs))" using 1 by simp
    then show ?thesis using False mset_concat_take_drop [of gs] by (subst round_robin.simps) (simp add: Let_def)
  qed
qed

text \<open>If the elements with \<open>P\<close> all stand in one queue, round-robin keeps their order.\<close>

lemma filter_concat_map_Nil: "\<forall>g \<in> set gs. filter P g = [] \<Longrightarrow> filter P (concat gs) = []"
  by (induction gs) auto

lemma filter_round_robin_other: "\<forall>g \<in> set gs. filter P g = [] \<Longrightarrow> filter P (round_robin gs) = []"
proof -
  assume "\<forall>g \<in> set gs. filter P g = []"
  then have "mset (filter P (round_robin gs)) = {#}"
    using mset_round_robin [of gs] by (metis filter_concat_map_Nil mset.simps(1) mset_filter)
  then show ?thesis by simp
qed

lemma filter_round_robin:
  assumes "\<forall>x \<in> set as \<union> set bs. filter P x = []"
  shows "filter P (round_robin (as @ g # bs)) = filter P g"
  using assms
proof (induction "length (concat (as @ g # bs))" arbitrary: as g bs rule: less_induct)
  case less
  let ?gs = "as @ g # bs"
  have sub: "filter P (take 1 x) = [] \<and> filter P (drop 1 x) = []" if "filter P x = []" for x
    using that by (metis append_is_Nil_conv append_take_drop_id filter_append)
  show ?case
  proof (cases "concat (map (take 1) ?gs) = []")
    case True
    then show ?thesis using take_heads_Nil [OF True] by (subst round_robin.simps) (simp add: filter_empty_conv)
  next
    case False
    have h: "filter P (concat (map (take 1) ?gs)) = filter P (take 1 g)"
      using less.prems sub by (simp add: filter_concat_map_Nil)
    have s: "length (concat (map (drop 1) ?gs)) < length (concat ?gs)"
      using round_robin_less [OF False] by (simp add: length_concat)
    have "filter P (round_robin (map (drop 1) as @ drop 1 g # map (drop 1) bs)) = filter P (drop 1 g)"
      using less.hyps [of "map (drop 1) as" "drop 1 g" "map (drop 1) bs"] s less.prems sub by auto
    then have "filter P (round_robin ?gs) = filter P (take 1 g) @ filter P (drop 1 g)"
      using False h by (subst round_robin.simps) (simp add: Let_def del: concat_append)
    then show ?thesis by (metis append_take_drop_id filter_append)
  qed
qed

section \<open>The order is a permutation\<close>

lemma rotated_facts: "set (rotated keys l) = set keys" "distinct (rotated keys l)"
proof -
  have "set (drop n ks @ take n ks) = set ks" "distinct ks \<Longrightarrow> distinct (drop n ks @ take n ks)" for n and ks :: "string list"
    by (metis append_take_drop_id set_append sup_commute)
      (metis append_take_drop_id distinct_append inf_commute)
  then show "set (rotated keys l) = set keys" "distinct (rotated keys l)"
    by (auto simp: rotated_def Let_def split: option.splits)
qed

lemma mset_groups:
  assumes "distinct ks" "f ` set xs \<subseteq> set ks"
  shows "mset (concat (map (\<lambda>k. filter (\<lambda>x. f x = k) xs) ks)) = mset xs"
  using assms
proof (induction ks arbitrary: xs)
  case (Cons k ks)
  let ?ys = "filter (\<lambda>x. f x \<noteq> k) xs"
  have "mset (concat (map (\<lambda>k. filter (\<lambda>x. f x = k) ?ys) ks)) = mset ?ys"
    using Cons.prems by (intro Cons.IH) auto
  moreover have "map (\<lambda>k'. filter (\<lambda>x. f x = k') ?ys) ks = map (\<lambda>k'. filter (\<lambda>x. f x = k') xs) ks"
    using Cons.prems(1) by (auto intro!: map_cong filter_cong)
  ultimately have "mset (concat (map (\<lambda>k'. filter (\<lambda>x. f x = k') xs) ks)) = mset ?ys" by metis
  then show ?case using multiset_partition [of "mset xs" "\<lambda>x. f x = k"] by simp
qed simp

lemma mset_workspace_order: "mset (workspace_order fresh turns w) = mset (filter (\<lambda>j. j_workspace_id j = w) fresh)"
  unfolding workspace_order_def Let_def mset_round_robin
  by (rule mset_groups) (simp_all add: rotated_facts)

lemma mset_concat_map: "(\<And>x. x \<in> set xs \<Longrightarrow> mset (f x) = mset (g x)) \<Longrightarrow> mset (concat (map f xs)) = mset (concat (map g xs))"
  by (induction xs) auto

lemma mset_line_order: "mset (line_order now jobs turns) = mset jobs"
proof -
  let ?fresh = "sort_key fifo_key (filter (\<lambda>j. \<not> solo_aged j now) jobs)"
  let ?wss = "rotated (map j_workspace_id ?fresh) (tn_last_ws turns)"
  have "mset (round_robin (map (workspace_order ?fresh turns) ?wss))
      = mset (concat (map (\<lambda>w. filter (\<lambda>j. j_workspace_id j = w) ?fresh) ?wss))"
    unfolding mset_round_robin by (intro mset_concat_map mset_workspace_order)
  also have "\<dots> = mset ?fresh" by (rule mset_groups) (simp_all add: rotated_facts)
  finally show ?thesis
    using multiset_partition [of "mset jobs" "\<lambda>j. solo_aged j now"] by (simp add: line_order_def Let_def)
qed

lemma mset_alternate: "mset (alternate nxt pri std) = mset pri + mset std"
  by (induction nxt pri std rule: alternate.induct)
    (subst alternate.simps, auto split: list.splits simp: neq_Nil_conv)

lemma set_line_order [simp]: "set (line_order now jobs turns) = set jobs"
  using mset_line_order by (metis set_mset_mset)

lemma set_alternate [simp]: "set (alternate nxt pri std) = set pri \<union> set std"
  using mset_alternate [of nxt pri std] by (metis set_mset_mset set_mset_union)

abbreviation solo_line :: "QueuedJob \<Rightarrow> Line" where
  "solo_line j \<equiv> tier_line (j_tier j)"

lemma solo_order_mset: "mset (order_with now queue turns) = mset queue"
proof -
  have "mset (of_line queue Line_Ci) + (mset (of_line queue Line_Priority) + mset (of_line queue Line_Standard))
      + mset (of_line queue Line_Batch) = mset queue"
  proof (induction queue)
    case (Cons j js)
    then show ?case by (cases "solo_line j") (auto simp: of_line_def ac_simps)
  qed (simp add: of_line_def)
  then show ?thesis by (simp add: order_with_def mset_line_order mset_alternate add.assoc)
qed


section \<open>Lines and turns\<close>

lemma line_order_Nil_iff: "line_order now jobs turns = [] \<longleftrightarrow> jobs = []"
  using mset_line_order [of now jobs turns] by (metis mset_zero_iff)

definition line_group :: "Line \<Rightarrow> nat" where
  "line_group l = (if l = Line_Ci then 0 else if l = Line_Batch then 2 else 1)"

abbreviation solo_middle :: "int \<Rightarrow> QueuedJob list \<Rightarrow> Turns \<Rightarrow> QueuedJob list" where
  "solo_middle now queue turns \<equiv> alternate (alternate_after (tn_last_line turns))
         (line_order now (of_line queue Line_Priority) turns) (line_order now (of_line queue Line_Standard) turns)"

lemma set_of_line [simp]: "set (of_line queue l) = {j \<in> set queue. solo_line j = l}"
  by (auto simp: of_line_def)

lemma order_groups: "sorted_wrt (\<lambda>x y. line_group (solo_line x) \<le> line_group (solo_line y)) (order_with now queue turns)"
proof -
  have c: "sorted_wrt (\<lambda>x y. line_group (solo_line x) \<le> line_group (solo_line y)) js"
    if "\<forall>j \<in> set js. line_group (solo_line j) = c" for js c
    using that by (induction js) auto
  have 1: "sorted_wrt (\<lambda>x y. line_group (solo_line x) \<le> line_group (solo_line y)) (sort_key fifo_key (of_line queue Line_Ci))"
    by (rule c [of _ 0]) (simp add: line_group_def)
  have 2: "sorted_wrt (\<lambda>x y. line_group (solo_line x) \<le> line_group (solo_line y)) (solo_middle now queue turns)"
    by (rule c [of _ 1]) (auto simp: line_group_def)
  have 3: "sorted_wrt (\<lambda>x y. line_group (solo_line x) \<le> line_group (solo_line y)) (line_order now (of_line queue Line_Batch) turns)"
    by (rule c [of _ 2]) (simp add: line_group_def)
  show ?thesis unfolding order_with_def sorted_wrt_append using 1 2 3
    by (auto simp: line_group_def)
qed

lemma order_filter_Ci: "filter (\<lambda>j. solo_line j = Line_Ci) (order_with now queue turns) = sort_key fifo_key (of_line queue Line_Ci)"
  by (auto simp: order_with_def filter_empty_conv intro!: filter_True)

lemma order_filter_middle:
  "filter (\<lambda>j. solo_line j \<in> {Line_Priority, Line_Standard}) (order_with now queue turns) = solo_middle now queue turns"
  by (auto simp: order_with_def filter_empty_conv intro!: filter_True)

text \<open>The solo order lists every queued job once: a permutation of the queue, and it is empty only when the
  queue is.\<close>

theorem solo_order_permutation:
  "mset (order_with now queue turns) = mset queue \<and> (order_with now queue turns = [] \<longleftrightarrow> queue = [])"
  using solo_order_mset [of now queue turns] by (metis mset_zero_iff)

text \<open>CI jobs come before every other job, first come first served among themselves; Batch jobs come after
  every other job.\<close>

theorem solo_order_lines:
  assumes "order_with now queue turns = xs @ x # ys" "y \<in> set ys"
  shows "(tier_line (j_tier y) = Line_Ci \<longrightarrow> tier_line (j_tier x) = Line_Ci \<and> fifo_key x \<le> fifo_key y)
    \<and> (tier_line (j_tier x) = Line_Batch \<longrightarrow> tier_line (j_tier y) = Line_Batch)"
proof -
  have g: "line_group (solo_line x) \<le> line_group (solo_line y)"
    using order_groups [of now queue turns] assms by (simp add: sorted_wrt_append)
  have "fifo_key x \<le> fifo_key y" if "solo_line y = Line_Ci" "solo_line x = Line_Ci"
  proof -
    have "sorted (map fifo_key (filter (\<lambda>j. solo_line j = Line_Ci) (xs @ x # ys)))"
      using order_filter_Ci assms(1) by (metis sorted_sort_key)
    then show ?thesis using that assms(2) by (auto simp: sorted_append)
  qed
  then show ?thesis using g by (auto simp: line_group_def split: if_splits)
qed

lemma alternate_head:
  assumes "alternate nxt pri std = b # ys"
  shows "nxt = Line_Priority \<Longrightarrow> pri \<noteq> [] \<Longrightarrow> b \<in> set pri" "nxt \<noteq> Line_Priority \<Longrightarrow> std \<noteq> [] \<Longrightarrow> b \<in> set std"
  using assms by (subst (asm) alternate.simps, auto split: list.splits if_splits)+

lemma alternate_Cons:
  assumes "alternate nxt pri std = a # zs"
  obtains (pri) ps where "pri = a # ps" "zs = alternate Line_Standard ps std" 
    | (std) ss where "std = a # ss" "zs = alternate Line_Priority pri ss"
    | (only_pri) ps where "pri = a # ps" "std = []" "zs = alternate Line_Priority ps []"
    | (only_std) ss where "std = a # ss" "pri = []" "zs = alternate Line_Standard [] ss"
  using assms by (subst (asm) alternate.simps, auto split: list.splits if_splits simp: neq_Nil_conv)

lemma alternate_turns:
  assumes "alternate nxt pri std = xs @ a # b # ys" "\<forall>j \<in> set pri. f j" "\<forall>j \<in> set std. \<not> f j"
    "y \<in> set (b # ys)" "f y \<noteq> f a"
  shows "f b \<noteq> f a"
  using assms
proof (induction xs arbitrary: nxt pri std)
  case Nil
  then have e: "alternate nxt pri std = a # b # ys" by simp
  note h = Nil.prems(2-)
  show ?case
  proof (rule alternate_Cons [OF e])
    fix ps assume p: "pri = a # ps" "b # ys = alternate Line_Standard ps std"
    then have "y \<in> set std" using h set_alternate [of Line_Standard ps std] by (metis Un_iff list.set_intros)
    then show ?thesis using alternate_head(2) [OF p(2) [symmetric]] p h by fastforce
  next
    fix ss assume p: "std = a # ss" "b # ys = alternate Line_Priority pri ss"
    then have "y \<in> set pri" using h set_alternate [of Line_Priority pri ss] by (metis Un_iff list.set_intros)
    then show ?thesis using alternate_head(1) [OF p(2) [symmetric]] p h by fastforce
  next
    fix ps assume p: "pri = a # ps" "std = []" "b # ys = alternate Line_Priority ps []"
    then have "y \<in> set ps" using h set_alternate [of Line_Priority ps "[]"] by (metis Un_empty_right list.set(1))
    then show ?thesis using p h by auto
  next
    fix ss assume p: "std = a # ss" "pri = []" "b # ys = alternate Line_Standard [] ss"
    then have "y \<in> set ss" using h set_alternate [of Line_Standard "[]" ss] by (metis Un_empty_left list.set(1))
    then show ?thesis using p h by auto
  qed
next
  case (Cons z xs)
  then have e: "alternate nxt pri std = z # xs @ a # b # ys" by simp
  note IH = Cons.IH [OF sym _ _ Cons.prems(4,5)] and h = Cons.prems(2,3)
  show ?case
    by (rule alternate_Cons [OF e]; rule IH, assumption) (use h in auto)
qed

text \<open>While both Priority and Standard jobs wait, the order alternates between them: after a job of one
  line comes a job of the other as long as one is left.\<close>

theorem solo_order_alternates:
  assumes "order_with now queue turns = xs @ a # b # ys"
    "tier_line (j_tier a) \<in> {Line_Priority, Line_Standard}" "y \<in> set (b # ys)"
    "tier_line (j_tier y) \<in> {Line_Priority, Line_Standard}" "tier_line (j_tier y) \<noteq> tier_line (j_tier a)"
  shows "tier_line (j_tier b) = tier_line (j_tier y)"
proof -
  let ?P = "\<lambda>j. solo_line j \<in> {Line_Priority, Line_Standard}"
  have g: "sorted_wrt (\<lambda>x y. line_group (solo_line x) \<le> line_group (solo_line y)) (xs @ a # b # ys)"
    using order_groups assms(1) by metis
  then have "line_group (solo_line a) \<le> line_group (solo_line b)" "line_group (solo_line b) \<le> line_group (solo_line y)"
    using assms(3) by (auto simp: sorted_wrt_append)
  then have b: "?P b" using assms(2,4) by (cases "solo_line b") (auto simp: line_group_def)
  have "solo_middle now queue turns = filter ?P xs @ a # b # filter ?P ys"
    using order_filter_middle [of now queue turns] assms(1,2) b by simp
  then have "(solo_line b = Line_Priority) \<noteq> (solo_line a = Line_Priority)"
    by (rule alternate_turns [where f = "\<lambda>j. solo_line j = Line_Priority" and y = y]) (use assms in auto)
  then show ?thesis using b assms(2,4,5) by auto
qed

section \<open>First come, first served for one submitter\<close>

lemma Nil_eq_filter: "[] = filter P xs \<longleftrightarrow> (\<forall>x \<in> set xs. \<not> P x)"
  by (induction xs) auto

lemma filter_rr_map:
  assumes "distinct ks" "\<And>k. k \<noteq> w \<Longrightarrow> filter P (f k) = []"
  shows "filter P (round_robin (map f ks)) = (if w \<in> set ks then filter P (f w) else [])"
proof (cases "w \<in> set ks")
  case True
  then obtain as bs where k: "ks = as @ w # bs" by (meson split_list)
  then have "w \<notin> set as" "w \<notin> set bs" using assms(1) by auto
  then have "\<forall>x \<in> set (map f as) \<union> set (map f bs). filter P x = []" using assms(2) by force
  then show ?thesis using filter_round_robin [of "map f as" "map f bs" P "f w"] k by simp
next
  case False
  then have "\<forall>g \<in> set (map f ks). filter P g = []" using assms(2) by force
  then show ?thesis using False by (simp add: filter_round_robin_other)
qed

abbreviation same_key :: "string \<Rightarrow> string \<Rightarrow> Line \<Rightarrow> QueuedJob \<Rightarrow> bool" where
  "same_key w s l j \<equiv> j_workspace_id j = w \<and> job_sub j = s \<and> solo_line j = l"

lemma filter_workspace_order:
  "filter (same_key w s l) (workspace_order fresh turns w') = (if w' = w then filter (same_key w s l) fresh else [])"
proof (cases "w' = w")
  case True
  let ?mine = "filter (\<lambda>j. j_workspace_id j = w) fresh"
  let ?subs = "rotated (map job_sub ?mine) (bt_get (tn_last_submitter turns) w)"
  have "filter (same_key w s l) (workspace_order fresh turns w)
      = (if s \<in> set ?subs then filter (same_key w s l) (filter (\<lambda>j. job_sub j = s) ?mine) else [])"
    unfolding workspace_order_def Let_def
    by (rule filter_rr_map) (auto simp: rotated_facts filter_empty_conv)
  also have "\<dots> = filter (same_key w s l) fresh"
    by (auto simp: rotated_facts Nil_eq_filter image_iff intro!: filter_cong)
  finally show ?thesis using True by simp
next
  case False
  moreover have "set (workspace_order fresh turns w') = set (filter (\<lambda>j. j_workspace_id j = w') fresh)"
    using mset_workspace_order by (metis set_mset_mset)
  ultimately show ?thesis by (auto simp: filter_empty_conv)
qed

lemma filter_line_order:
  "filter (same_key w s l) (line_order now jobs turns)
     = filter (same_key w s l) (sort_key fifo_key (filter (\<lambda>j. solo_aged j now) jobs)
         @ sort_key fifo_key (filter (\<lambda>j. \<not> solo_aged j now) jobs))"
proof -
  let ?fresh = "sort_key fifo_key (filter (\<lambda>j. \<not> solo_aged j now) jobs)"
  let ?wss = "rotated (map j_workspace_id ?fresh) (tn_last_ws turns)"
  have "filter (same_key w s l) (round_robin (map (workspace_order ?fresh turns) ?wss))
      = (if w \<in> set ?wss then filter (same_key w s l) (workspace_order ?fresh turns w) else [])"
    by (rule filter_rr_map) (auto simp: rotated_facts filter_workspace_order)
  also have "\<dots> = filter (same_key w s l) ?fresh"
    unfolding filter_workspace_order rotated_facts by (auto simp: Nil_eq_filter)
  finally show ?thesis by (simp add: line_order_def Let_def)
qed

lemma filter_alternate:
  "\<forall>j \<in> set std. \<not> P j \<Longrightarrow> filter P (alternate nxt pri std) = filter P pri"
  "\<forall>j \<in> set pri. \<not> P j \<Longrightarrow> filter P (alternate nxt pri std) = filter P std"
  by (induction nxt pri std rule: alternate.induct; subst alternate.simps; auto split: list.splits simp: neq_Nil_conv)+


lemma filter_order:
  "filter (same_key w s l) (order_with now queue turns)
     = filter (same_key w s l) (if l = Line_Ci then sort_key fifo_key (of_line queue l)
         else sort_key fifo_key (filter (\<lambda>j. solo_aged j now) (of_line queue l))
           @ sort_key fifo_key (filter (\<lambda>j. \<not> solo_aged j now) (of_line queue l)))"
proof -
  have n: "filter (same_key w s l) xs = []" if "\<forall>x \<in> set xs. solo_line x \<noteq> l" for xs
    using that by (auto simp: filter_empty_conv)
  have a: "filter (same_key w s l) (solo_middle now queue turns)
      = (if l = Line_Priority \<or> l = Line_Standard then filter (same_key w s l) (line_order now (of_line queue l) turns) else [])"
    by (cases "l = Line_Priority"; cases "l = Line_Standard") (simp_all add: filter_alternate n)
  show ?thesis
    using a by (cases l) (simp_all add: order_with_def n filter_line_order)
qed

text \<open>The jobs of one submitter of a workspace in one line stand in the order they came: by creation time,
  then by id (times being those of a clock that has not wrapped).\<close>

theorem solo_order_fifo:
  assumes "order_with now queue turns = xs @ x # ys" "y \<in> set ys" "0 \<le> now" "i64_ok now"
    "0 \<le> j_created_at x" "i64_ok (j_created_at x)" "0 \<le> j_created_at y" "i64_ok (j_created_at y)"
    "j_workspace_id x = j_workspace_id y" "job_sub x = job_sub y" "tier_line (j_tier x) = tier_line (j_tier y)"
  shows "fifo_key x \<le> fifo_key y"
proof -
  let ?l = "solo_line y" and ?P = "same_key (j_workspace_id y) (job_sub y) (solo_line y)"
  let ?ok = "\<lambda>j. 0 \<le> j_created_at j \<and> i64_ok (j_created_at j)"
  have age: "solo_aged j now \<longleftrightarrow> now - j_created_at j \<ge> 3600" if "?ok j" for j
    using that assms(3,4) by (simp add: solo_aged_def tiers_aged_def AGE_SECS_def i64_sub_def i64_ok_def)
  have f: "filter ?P (order_with now queue turns) = filter ?P xs @ x # filter ?P ys" "y \<in> set (filter ?P ys)"
    using assms by auto
  have s: "sorted (map fifo_key (filter ?P (sort_key fifo_key js)))" for js
    by (simp add: sorted_filter)
  show ?thesis
  proof (cases "?l = Line_Ci")
    case True
    then have "sorted (map fifo_key (filter ?P (order_with now queue turns)))"
      unfolding filter_order by (simp add: sorted_filter)
    then show ?thesis using f by (auto simp: sorted_append)
  next
    case False
    let ?old = "filter ?P (sort_key fifo_key (filter (\<lambda>j. solo_aged j now) (of_line queue ?l)))"
    let ?new = "filter ?P (sort_key fifo_key (filter (\<lambda>j. \<not> solo_aged j now) (of_line queue ?l)))"
    have e: "?old @ ?new = filter ?P xs @ x # filter ?P ys"
      using f(1) False unfolding filter_order by simp
    have sxy: "sorted_wrt (\<lambda>a b. ?ok a \<longrightarrow> ?ok b \<longrightarrow> fifo_key a \<le> fifo_key b) (?old @ ?new)"
      unfolding sorted_wrt_append
    proof (intro conjI ballI impI)
      show "sorted_wrt (\<lambda>a b. ?ok a \<longrightarrow> ?ok b \<longrightarrow> fifo_key a \<le> fifo_key b) ?old"
        "sorted_wrt (\<lambda>a b. ?ok a \<longrightarrow> ?ok b \<longrightarrow> fifo_key a \<le> fifo_key b) ?new"
        using s by (auto simp: sorted_map intro: sorted_wrt_mono_rel)
    next
      fix a b assume m: "a \<in> set ?old" "b \<in> set ?new" "?ok a" "?ok b"
      then have "now - j_created_at a \<ge> 3600" "now - j_created_at b < 3600" using age [of a] age [of b] by auto
      then have "j_created_at a < j_created_at b" by linarith
      then show "fifo_key a \<le> fifo_key b" by (simp add: fifo_key_def less_eq_prod_def)
    qed
    then have "sorted_wrt (\<lambda>a b. ?ok a \<longrightarrow> ?ok b \<longrightarrow> fifo_key a \<le> fifo_key b) (filter ?P xs @ x # filter ?P ys)"
      unfolding e .
    then show ?thesis using f(2) assms(5-8) by (simp add: sorted_wrt_append)
  qed
qed

end
