(* ===== verification/Scheduler_Rules.thy ===== *)
theory Scheduler_Rules
  imports Solo_Order
begin

text \<open>
  One placement of the solo scheduler: a loop invariant per step, then the rules of the decision.
  At most one job is placed, only one the node, the grant and the caps accept, never past a job
  that takes the next free slot; every other job waits with its position and a reason.
\<close>

section \<open>The loop\<close>

lemma with_numbers_code [simp]: "rf_code (with_numbers fm r off j n) = rf_code r"
  by (simp add: with_numbers_def Refusal_new_def Let_def)

definition step_places :: "Fmt \<Rightarrow> Offer \<Rightarrow> Load \<Rightarrow> Limits \<Rightarrow> QueuedJob \<Rightarrow> bool" where
  "step_places fm off load caps j \<longleftrightarrow> never_fits fm off j = None \<and> verdict fm off load caps False j = None"

lemma solo_step_cases:
  obtains (waits) r where "so_place (solo_step fm off load caps pos j st) = so_place st"
      "so_waiting (solo_step fm off load caps pos j st) = bt_insert (j_id j) (pos, r) (so_waiting st)"
  | (placed) "so_place st = None" "so_hold st = None" "step_places fm off load caps j"
      "so_place (solo_step fm off load caps pos j st) = Some (j_id j)"
      "so_waiting (solo_step fm off load caps pos j st) = so_waiting st"
proof (cases "never_fits fm off j")
  case (Some r)
  then show thesis by (intro waits [of r]) (simp_all add: solo_step_def put_wait_def)
next
  case None
  show thesis
  proof (cases "so_hold st")
    case (Some h)
    then show thesis using None by (intro waits [of h]) (simp_all add: solo_step_def put_wait_def)
  next
    case nohold: None
    show thesis
    proof (cases "fifo_line (solo_line j) \<and> (j_workspace_id j, job_sub j, solo_line j) \<in> set (so_seen st)")
      case True
      then show thesis using None nohold
        by (intro waits [of "Refusal_new ''behind_older_job'' ''an older job from the same submitter goes first''"])
          (simp_all add: solo_step_def put_wait_def Let_def)
    next
      case False
      obtain is_head st1 where j: "solo_step fm off load caps pos j st = judge fm off load caps is_head pos j st1"
        "so_place st1 = so_place st" "so_waiting st1 = so_waiting st" "so_hold st1 = None"
        using None nohold False by (auto simp: solo_step_def Let_def split: if_splits)
      show thesis
      proof (cases "verdict fm off load caps (so_place st1 \<noteq> None) j")
        case (Some r)
        then show thesis using j by (intro waits [of r]) (simp_all add: judge_def put_wait_def Let_def)
      next
        case ok: None
        show thesis
        proof (cases "so_place st1")
          case (Some i)
          then show thesis using j ok
            by (intro waits [of "Refusal_new ''next_in_turn'' ''next in turn''"]) (simp_all add: judge_def put_wait_def)
        next
          case np: None
          then show thesis using j ok None nohold
            by (intro placed) (simp_all add: judge_def step_places_def)
        qed
      qed
    qed
  qed
qed

lemma solo_loop_append: "solo_loop fm off load caps pos (xs @ ys) st = solo_loop fm off load caps pos ys (solo_loop fm off load caps pos xs st)"
  by (induction xs arbitrary: st) auto

lemma solo_loop_keeps_place: "so_place st = Some i \<Longrightarrow> so_place (solo_loop fm off load caps pos js st) = Some i"
proof (induction js arbitrary: st)
  case (Cons j js)
  show ?case
    by (rule solo_step_cases [of fm off load caps "pos (j_id j)" j st]) (use Cons in auto)
qed simp

lemma solo_loop_place:
  assumes "so_place st = None" "so_place (solo_loop fm off load caps pos js st) = Some i"
  obtains xs j ys where "js = xs @ j # ys" "j_id j = i" "step_places fm off load caps j"
    "so_hold (solo_loop fm off load caps pos xs st) = None"
    "so_place (solo_loop fm off load caps pos xs st) = None"
  using assms
proof (induction js arbitrary: st thesis)
  case (Cons j js)
  let ?st = "solo_step fm off load caps (pos (j_id j)) j st"
  show ?case
  proof (cases "so_place ?st")
    case None
    then obtain xs k ys where "js = xs @ k # ys" "j_id k = i" "step_places fm off load caps k"
      "so_hold (solo_loop fm off load caps pos xs ?st) = None" "so_place (solo_loop fm off load caps pos xs ?st) = None"
      using Cons.IH [of ?st] Cons.prems(3) by auto
    then show ?thesis using Cons.prems(1) [of "j # xs" k ys] by simp
  next
    case (Some k)
    then have "k = i" using solo_loop_keeps_place Cons.prems(3) by fastforce
    then show ?thesis using Some Cons.prems(1) [of "[]" j js] Cons.prems(2)
      by - (rule solo_step_cases [of fm off load caps "pos (j_id j)" j st], auto)
  qed
qed simp

text \<open>A hold ends the placing.\<close>

lemma solo_step_hold: "so_hold st = Some h \<Longrightarrow> so_hold (solo_step fm off load caps pos j st) = Some h"
  by (auto simp: solo_step_def put_wait_def split: option.splits)

lemma solo_loop_hold: "so_hold st = Some h \<Longrightarrow> so_hold (solo_loop fm off load caps pos js st) = Some h"
  by (induction js arbitrary: st) (simp_all add: solo_step_hold)

lemma solo_step_holds:
  assumes "line_holds (solo_line j)" "never_fits fm off j = None" "so_place st = None"
    "verdict fm off load caps False j = Some r" "waits_for_room (rf_code r)"
  shows "so_hold (solo_step fm off load caps pos j st) \<noteq> None"
proof (cases "so_hold st")
  case None
  moreover have "\<not> fifo_line (solo_line j)" using assms(1) by (cases "solo_line j") (simp_all add: fifo_line_def line_holds_def)
  ultimately show ?thesis using assms by (simp add: solo_step_def judge_def put_wait_def Let_def)
qed (simp add: solo_step_hold)

text \<open>A job that lets others pass leaves no trace but its key and its wait.\<close>

definition passes :: "Fmt \<Rightarrow> Offer \<Rightarrow> Load \<Rightarrow> Limits \<Rightarrow> QueuedJob \<Rightarrow> bool" where
  "passes fm off load caps j \<longleftrightarrow> never_fits fm off j \<noteq> None
     \<or> (\<exists>r. verdict fm off load caps False j = Some r \<and> \<not> waits_for_room (rf_code r))"

lemma solo_step_passes:
  assumes "passes fm off load caps j" "so_place st = None" "so_hold st = None"
  shows "so_place (solo_step fm off load caps pos j st) = None \<and> so_hold (solo_step fm off load caps pos j st) = None
    \<and> set (so_seen (solo_step fm off load caps pos j st)) \<subseteq> insert (j_workspace_id j, job_sub j, solo_line j) (set (so_seen st))"
  using assms
  by (cases "never_fits fm off j") (auto simp: passes_def solo_step_def judge_def put_wait_def Let_def)

lemma solo_loop_passes:
  assumes "\<forall>j \<in> set js. passes fm off load caps j" "so_place st = None" "so_hold st = None"
  shows "so_place (solo_loop fm off load caps pos js st) = None \<and> so_hold (solo_loop fm off load caps pos js st) = None
    \<and> set (so_seen (solo_loop fm off load caps pos js st))
        \<subseteq> (\<lambda>j. (j_workspace_id j, job_sub j, solo_line j)) ` set js \<union> set (so_seen st)"
  using assms
proof (induction js arbitrary: st)
  case (Cons j js)
  let ?st = "solo_step fm off load caps (pos (j_id j)) j st"
  have s: "so_place ?st = None" "so_hold ?st = None"
    "set (so_seen ?st) \<subseteq> insert (j_workspace_id j, job_sub j, solo_line j) (set (so_seen st))"
    using solo_step_passes [of fm off load caps j st "pos (j_id j)"] Cons.prems by simp_all
  show ?case using Cons.IH [of ?st] Cons.prems(1) s by auto
qed simp


section \<open>The decision\<close>

lemma decide_with_run:
  assumes "order_with now queue turns = jobs" "jobs \<noteq> []"
  shows "decide_with fm now queue turns load caps (Some off) None
    = (let st = solo_loop fm off load caps (position_of jobs) jobs solo_start
       in \<lparr> sd_place = so_place st, sd_waiting = so_waiting st \<rparr>)"
  using assms by (simp add: decide_with_def Let_def)

lemma decide_with_place:
  assumes "sd_place (decide_with fm now queue turns load caps off pause) = Some i"
  obtains o1 jobs where "off = Some o1" "pause = None" "order_with now queue turns = jobs"
    "so_place (solo_loop fm o1 load caps (position_of jobs) jobs solo_start) = Some i"
  using assms by (auto simp: decide_with_def wait_all_def Let_def split: if_splits option.splits)

lemma step_places_facts:
  "step_places fm off load caps j \<longleftrightarrow> never_fits fm off j = None
     \<and> offer_refusal off (load_total load) (ld_exclusive_running load) (job_ask j) = None
     \<and> within_grant j load (lm_grant_max_parallel caps) \<and> within_submitter_cap j load (lm_submitter_max_running caps)
     \<and> (tier_line (j_tier j) = Line_Batch \<longrightarrow> load_total load = 0)"
  by (auto simp: step_places_def verdict_def split: option.splits if_splits)

lemma solo_start_none [simp]: "so_place solo_start = None" "so_hold solo_start = None" "so_seen solo_start = []"
    "so_waiting solo_start = []"
  by (simp_all add: solo_start_def)


lemma refused_verdict:
  "offer_refusal off (load_total load) (ld_exclusive_running load) (job_ask j) = Some r \<Longrightarrow>
     \<exists>r'. verdict fm off load caps p j = Some r' \<and> rf_code r' = rf_code r"
  by (simp add: verdict_def)

text \<open>A CI or Priority job that waits for room holds the node: nothing behind it in the order is placed.\<close>

theorem solo_holds:
  assumes "order_with now queue turns = xs @ h # ys" "distinct (map j_id (order_with now queue turns))" "j \<in> set ys"
    "line_holds (tier_line (j_tier h))" "never_fits fm off h = None"
    "offer_refusal off (load_total load) (ld_exclusive_running load) (job_ask h) = Some r" "waits_for_room (rf_code r)"
  shows "sd_place (decide_with fm now queue turns load caps (Some off) None) \<noteq> Some (j_id j)"
proof
  assume "sd_place (decide_with fm now queue turns load caps (Some off) None) = Some (j_id j)"
  then obtain jobs where o: "order_with now queue turns = jobs"
    "so_place (solo_loop fm off load caps (position_of jobs) jobs solo_start) = Some (j_id j)"
    by (rule decide_with_place) blast
  let ?loop = "\<lambda>js. solo_loop fm off load caps (position_of jobs) js solo_start"
  obtain as k bs where k: "jobs = as @ k # bs" "j_id k = j_id j" "so_hold (?loop as) = None" "so_place (?loop as) = None"
    by (rule solo_loop_place [OF solo_start_none(1) o(2)])
  have e: "xs @ h # ys = as @ k # bs" "distinct (map j_id (xs @ h # ys))" using assms(1,2) o(1) k(1) by simp_all
  then have "k = j" using k(2) assms(3) by (metis (no_types) in_set_conv_decomp list.set_intros(2) append_Cons
        append_assoc distinct_map inj_onD Un_iff set_append)
  then have "\<exists>zs. as = xs @ h # zs"
    using e assms(3) by (auto simp: append_eq_append_conv2 append_eq_Cons_conv Cons_eq_append_conv)
  then obtain zs where z: "as = xs @ h # zs" ..
  obtain r' where r': "verdict fm off load caps False h = Some r'" "waits_for_room (rf_code r')"
    using refused_verdict [OF assms(6)] assms(7) by metis
  have np: "so_place (?loop xs) = None" using k(4) solo_loop_keeps_place z
    by (metis not_None_eq solo_loop_append)
  have "so_hold (?loop (xs @ [h])) \<noteq> None"
    using solo_step_holds [OF assms(4,5) np r'] by (simp add: solo_loop_append)
  then have "so_hold (?loop as) \<noteq> None"
    using solo_loop_hold z by (fastforce simp: solo_loop_append)
  then show False using k(3) by simp
qed


text \<open>C26: no starvation by jobs that cannot use the slot: when every job ahead can never fit, or is refused for a
  reason that lets others pass, and the submitter has no older job of the line ahead, an accepted job is placed.\<close>

theorem solo_placed_in_turn:
  assumes "order_with now queue turns = xs @ j # ys"
    "\<forall>h \<in> set xs. never_fits fm off h \<noteq> None
      \<or> (\<exists>r. verdict fm off load caps False h = Some r \<and> \<not> waits_for_room (rf_code r))"
    "\<forall>h \<in> set xs. j_workspace_id h = j_workspace_id j \<longrightarrow> job_sub h \<noteq> job_sub j
      \<or> tier_line (j_tier h) \<noteq> tier_line (j_tier j)"
    "never_fits fm off j = None" "verdict fm off load caps False j = None"
  shows "sd_place (decide_with fm now queue turns load caps (Some off) None) = Some (j_id j)"
proof -
  let ?jobs = "xs @ j # ys"
  let ?pre = "solo_loop fm off load caps (position_of ?jobs) xs solo_start"
  have p: "so_place ?pre = None \<and> so_hold ?pre = None
      \<and> set (so_seen ?pre) \<subseteq> (\<lambda>j. (j_workspace_id j, job_sub j, solo_line j)) ` set xs \<union> set (so_seen solo_start)"
    by (rule solo_loop_passes) (use assms(2) in \<open>auto simp: passes_def\<close>)
  moreover have "(j_workspace_id j, job_sub j, solo_line j) \<notin> (\<lambda>j. (j_workspace_id j, job_sub j, solo_line j)) ` set xs"
    using assms(3) by auto
  ultimately have "so_place (solo_step fm off load caps (position_of ?jobs (j_id j)) j ?pre) = Some (j_id j)"
    using assms(4,5) by (auto simp: solo_step_def judge_def Let_def)
  then have "so_place (solo_loop fm off load caps (position_of ?jobs) ?jobs solo_start) = Some (j_id j)"
    by (simp add: solo_loop_append solo_loop_keeps_place)
  then show ?thesis using decide_with_run [OF assms(1)] by (simp add: Let_def)
qed

section \<open>Every job is placed or waits\<close>

lemma position_of_nth:
  assumes "distinct (map j_id (xs @ x # ys))"
  shows "position_of (xs @ x # ys) (j_id x) = Suc (length xs)"
proof -
  let ?al = "\<lambda>js. map (\<lambda>(n, j). (j_id j, n)) (enumerate 1 js)"
  have "map fst (map (\<lambda>(n, j). (j_id j, n)) (enumerate k js)) = map j_id js" for k js
    by (induction js arbitrary: k) simp_all
  then have keys: "map fst (?al js) = map j_id js" for js .
  have "(j_id x, Suc (length xs)) \<in> set (?al (xs @ x # ys))"
    by (force simp: in_set_enumerate_eq enumerate_append_eq)
  then have "map_of (rev (?al (xs @ x # ys))) (j_id x) = Some (Suc (length xs))"
    using assms keys [of "xs @ x # ys"] by (intro map_of_is_SomeI) (auto simp: rev_map [symmetric])
  then show ?thesis by (simp add: position_of_def)
qed

lemma solo_loop_other:
  "i \<notin> j_id ` set js \<Longrightarrow> bt_get (so_waiting (solo_loop fm off load caps pos js st)) i = bt_get (so_waiting st) i"
proof (induction js arbitrary: st)
  case (Cons j js)
  show ?case
    by (rule solo_step_cases [of fm off load caps "pos (j_id j)" j st]) (use Cons in auto)
qed simp

lemma solo_loop_place_old:
  "i \<notin> j_id ` set js \<Longrightarrow> so_place (solo_loop fm off load caps pos js st) = Some i \<longleftrightarrow> so_place st = Some i"
proof (induction js arbitrary: st)
  case (Cons j js)
  show ?case
    by (rule solo_step_cases [of fm off load caps "pos (j_id j)" j st]) (use Cons in auto)
qed simp

lemma solo_loop_accounts:
  assumes "distinct (map j_id (xs @ x # ys))" "so_place st \<noteq> Some (j_id x)" "bt_get (so_waiting st) (j_id x) = None"
  shows "so_place (solo_loop fm off load caps pos (xs @ x # ys) st) = Some (j_id x)
      \<and> bt_get (so_waiting (solo_loop fm off load caps pos (xs @ x # ys) st)) (j_id x) = None
    \<or> so_place (solo_loop fm off load caps pos (xs @ x # ys) st) \<noteq> Some (j_id x)
      \<and> (\<exists>r. bt_get (so_waiting (solo_loop fm off load caps pos (xs @ x # ys) st)) (j_id x) = Some (pos (j_id x), r))"
proof -
  let ?a = "solo_loop fm off load caps pos xs st"
  let ?b = "solo_step fm off load caps (pos (j_id x)) x ?a"
  have n: "j_id x \<notin> j_id ` set xs" "j_id x \<notin> j_id ` set ys" using assms(1) by auto
  have a: "so_place ?a \<noteq> Some (j_id x)" "bt_get (so_waiting ?a) (j_id x) = None"
    using solo_loop_place_old [OF n(1)] solo_loop_other [OF n(1)] assms(2,3) by simp_all
  have "so_place ?b = Some (j_id x) \<and> bt_get (so_waiting ?b) (j_id x) = None
    \<or> so_place ?b \<noteq> Some (j_id x) \<and> (\<exists>r. bt_get (so_waiting ?b) (j_id x) = Some (pos (j_id x), r))"
    by (rule solo_step_cases [of fm off load caps "pos (j_id x)" x ?a]) (use a in auto)
  then show ?thesis using solo_loop_place_old [OF n(2)] solo_loop_other [OF n(2)] by (simp add: solo_loop_append)
qed

lemma wait_all_get:
  "j \<in> set jobs \<Longrightarrow> bt_get (sd_waiting (wait_all jobs why)) (j_id j) = Some (position_of jobs (j_id j), why)"
proof -
  have "bt_get (fold (\<lambda>j. bt_insert (j_id j) (position_of jobs (j_id j), why)) js m) i
      = (if i \<in> j_id ` set js then Some (position_of jobs i, why) else bt_get m i)" for js :: "QueuedJob list" and m i
    by (induction js arbitrary: m) auto
  then show "j \<in> set jobs \<Longrightarrow> ?thesis" by (simp add: wait_all_def imageI)
qed

text \<open>The decision accounts for every queued job: a job is either the placed one and does not wait, or it waits
  with its 1-based position in the order and a reason.\<close>

theorem solo_accounts_for_all:
  assumes "order_with now queue turns = xs @ x # ys" "distinct (map j_id (order_with now queue turns))"
  shows "sd_place (decide_with fm now queue turns load caps off pause) = Some (j_id x)
      \<and> bt_get (sd_waiting (decide_with fm now queue turns load caps off pause)) (j_id x) = None
    \<or> sd_place (decide_with fm now queue turns load caps off pause) \<noteq> Some (j_id x)
      \<and> (\<exists>r. bt_get (sd_waiting (decide_with fm now queue turns load caps off pause)) (j_id x) = Some (Suc (length xs), r))"
proof -
  let ?jobs = "xs @ x # ys"
  have d: "distinct (map j_id ?jobs)" using assms by simp
  note pos = position_of_nth [OF d]
  have w: "sd_place (wait_all ?jobs why) = None
      \<and> bt_get (sd_waiting (wait_all ?jobs why)) (j_id x) = Some (Suc (length xs), why)" for why
    using wait_all_get [of x ?jobs why] pos by (simp add: wait_all_def)
  show ?thesis
  proof (cases pause)
    case (Some p)
    then show ?thesis using w assms(1) by (simp add: decide_with_def)
  next
    case None
    show ?thesis
    proof (cases off)
      case None
      then show ?thesis using w assms(1) \<open>pause = None\<close> by (simp add: decide_with_def)
    next
      case (Some o1)
      show ?thesis
        using solo_loop_accounts [OF d, of solo_start fm o1 load caps "position_of ?jobs"] pos
          decide_with_run [OF assms(1), of fm load caps o1] None Some by (simp add: Let_def bt_get_def)
    qed
  qed
qed

text \<open>Best of the candidates: the loop keeps an accepted candidate of the best score.\<close>

lemma best_scored_inv:
  assumes "best_scored ok score cs best = Some c" "\<forall>b. best = Some b \<longrightarrow> ok b"
  shows "ok c \<and> (c \<in> set cs \<or> best = Some c) \<and> (\<forall>d \<in> set cs. ok d \<longrightarrow> score d \<le> score c) \<and> (\<forall>b. best = Some b \<longrightarrow> score b \<le> score c)"
  using assms
proof (induction ok score cs best rule: best_scored.induct)
  case (2 ok score a cs best)
  then show ?case
    by (cases "ok a"; cases best) (auto simp: not_less less_imp_le split: if_splits dest: order_trans less_imp_le)
qed auto

lemma best_scored_None: "best_scored ok score cs best = None \<longleftrightarrow> best = None \<and> (\<forall>d \<in> set cs. \<not> ok d)"
  by (induction ok score cs best rule: best_scored.induct) (auto split: option.splits)

text \<open>C23: \<open>--any\<close> picks a node that accepts the job, the warmest for its project and, among equally warm
  ones, one with the most free CPU; it picks none exactly when every node refuses.\<close>

theorem pick_any_best:
  "(pick_any candidates project_key commit j = None \<longleftrightarrow>
      (\<forall>(i, off, load) \<in> set candidates.
         offer_refusal off (load_total load) (ld_exclusive_running load) (job_ask j) \<noteq> None))
   \<and> (\<forall>i. pick_any candidates project_key commit j = Some i \<longrightarrow>
      (\<exists>off load. (i, off, load) \<in> set candidates
        \<and> offer_refusal off (load_total load) (ld_exclusive_running load) (job_ask j) = None
        \<and> (\<forall>(i', off', load') \<in> set candidates.
             offer_refusal off' (load_total load') (ld_exclusive_running load') (job_ask j) = None \<longrightarrow>
             (warmth off' project_key commit, fr_cpu_millis (of_free off'))
               \<le> (warmth off project_key commit, fr_cpu_millis (of_free off)))))"
proof -
  let ?ok = "\<lambda>(i, off, load). offer_refusal off (load_total load) (ld_exclusive_running load) (job_ask j) = None"
  let ?sc = "\<lambda>(i, off, load). (warmth off project_key commit, fr_cpu_millis (of_free off))"
  have n: "pick_any candidates project_key commit j = None \<longleftrightarrow> (\<forall>d \<in> set candidates. \<not> ?ok d)"
    by (simp add: pick_any_def best_scored_None)
  have b: "\<exists>off load. (i, off, load) \<in> set candidates \<and> ?ok (i, off, load)
      \<and> (\<forall>d \<in> set candidates. ?ok d \<longrightarrow> ?sc d \<le> ?sc (i, off, load))"
    if picked: "pick_any candidates project_key commit j = Some i" for i
  proof -
    obtain off load where "best_scored ?ok ?sc candidates None = Some (i, off, load)"
      using picked by (auto simp: pick_any_def)
    then show ?thesis using best_scored_inv [of ?ok ?sc candidates None "(i, off, load)"] by auto
  qed
  show ?thesis
  proof (intro conjI allI impI)
    show "(pick_any candidates project_key commit j = None) = (\<forall>(i, off, load) \<in> set candidates.
         offer_refusal off (load_total load) (ld_exclusive_running load) (job_ask j) \<noteq> None)"
      unfolding n by (rule ball_cong) auto
  next
    fix i assume "pick_any candidates project_key commit j = Some i"
    then obtain off load where o: "(i, off, load) \<in> set candidates" "?ok (i, off, load)"
      "\<forall>d \<in> set candidates. ?ok d \<longrightarrow> ?sc d \<le> ?sc (i, off, load)" using b by blast
    from o(3) have "\<forall>(i', off', load') \<in> set candidates.
             offer_refusal off' (load_total load') (ld_exclusive_running load') (job_ask j) = None \<longrightarrow>
             (warmth off' project_key commit, fr_cpu_millis (of_free off'))
               \<le> (warmth off project_key commit, fr_cpu_millis (of_free off))" by force
    then show "\<exists>off load. (i, off, load) \<in> set candidates
        \<and> offer_refusal off (load_total load) (ld_exclusive_running load) (job_ask j) = None
        \<and> (\<forall>(i', off', load') \<in> set candidates.
             offer_refusal off' (load_total load') (ld_exclusive_running load') (job_ask j) = None \<longrightarrow>
             (warmth off' project_key commit, fr_cpu_millis (of_free off'))
               \<le> (warmth off project_key commit, fr_cpu_millis (of_free off)))"
      using o(1,2) by (intro exI [of _ off] exI [of _ load]) simp
  qed
qed

section \<open>Witnesses\<close>

definition ex_fmt :: Fmt where
  "ex_fmt = \<lparr> fmt_gb1 = (\<lambda>_. ''1.0''), fmt_gb0 = (\<lambda>_. ''1''), fmt_cpu2 = (\<lambda>_. ''1.00''), fmt_cpu1 = (\<lambda>_. ''1'') \<rparr>"

definition ex_job :: "string \<Rightarrow> string \<Rightarrow> int \<Rightarrow> Tier \<Rightarrow> nat option \<Rightarrow> QueuedJob" where
  "ex_job i w t tr cpu = \<lparr> j_id = i, j_workspace_id = w, j_created_at = t, j_exclusive = False, j_cpu_millis = cpu,
     j_mem_bytes = None, j_disk_bytes = 0, j_needs_git = False, j_tier = tr, j_submitter = None \<rparr>"

definition ex_n1 :: QueuedJob where "ex_n1 = ex_job ''n1'' ''w1'' 5 Tier_Normal None"
definition ex_n2 :: QueuedJob where "ex_n2 = ex_job ''n2'' ''w1'' 7 Tier_Normal None"
definition ex_p1 :: QueuedJob where "ex_p1 = ex_job ''p1'' ''w2'' 6 Tier_Priority None"
definition ex_c1 :: QueuedJob where "ex_c1 = ex_job ''c1'' ''w2'' 9 Tier_Ci (Some 5000)"
definition ex_c2 :: QueuedJob where "ex_c2 = ex_job ''c2'' ''w2'' 8 Tier_Ci (Some 4000)"

definition ex_solo :: "QueuedJob list" where
  "ex_solo = [ex_n1, ex_n2, ex_p1, ex_c1, ex_c2]"

definition ex_turns :: Turns where
  "ex_turns = turns_ws None"

definition ex_load :: Load where
  "ex_load = \<lparr> ld_running_by_workspace = [], ld_exclusive_running = False, ld_running_by_submitter = [] \<rparr>"

definition ex_limits :: Limits where
  "ex_limits = \<lparr> lm_grant_max_parallel = (\<lambda>_. 1), lm_submitter_max_running = (\<lambda>_. 0) \<rparr>"

definition ex_busy :: Offer where
  "ex_busy = ex_offer \<lparr> of_free := \<lparr> fr_cpu_millis = 1000, fr_mem_bytes = 100, fr_disk_free_bytes = 50 \<rparr> \<rparr>"

lemma ex_solo_order: "order_with 10 ex_solo ex_turns = [ex_c2, ex_c1, ex_p1, ex_n1, ex_n2]"
  by code_simp

theorem solo_order_lines_witness: "fifo_key ex_c2 \<le> fifo_key ex_c1"
  using solo_order_lines [of 10 ex_solo ex_turns "[]" ex_c2 "[ex_c1, ex_p1, ex_n1, ex_n2]" ex_c1] ex_solo_order
  by (simp add: ex_c1_def ex_c2_def ex_job_def)

theorem solo_order_alternates_witness: "tier_line (j_tier ex_n1) = tier_line (j_tier ex_n2)"
  by (rule solo_order_alternates [of 10 ex_solo ex_turns "[ex_c2, ex_c1]" ex_p1 ex_n1 "[ex_n2]" ex_n2])
    (simp_all add: ex_solo_order ex_p1_def ex_n1_def ex_n2_def ex_job_def)

theorem solo_order_fifo_witness: "fifo_key ex_n1 \<le> fifo_key ex_n2"
  by (rule solo_order_fifo [of 10 ex_solo ex_turns "[ex_c2, ex_c1, ex_p1]" ex_n1 "[ex_n2]" ex_n2])
    (simp_all add: ex_solo_order ex_n1_def ex_n2_def ex_job_def i64_ok_def job_sub_def)


theorem solo_holds_witness:
  "sd_place (decide_with ex_fmt 10 ex_solo ex_turns ex_load ex_limits (Some ex_busy) None) \<noteq> Some (j_id ex_p1)"
proof -
  have r: "offer_refusal ex_busy (load_total ex_load) (ld_exclusive_running ex_load) (job_ask ex_c2)
      = Some (Refusal_new LOCAL_RESOURCE_LIMIT ''not enough free CPU or memory under the node's caps'')"
    by code_simp
  show ?thesis
    by (rule solo_holds [of 10 ex_solo ex_turns "[]" ex_c2 "[ex_c1, ex_p1, ex_n1, ex_n2]" ex_p1 ex_fmt ex_busy ex_load, OF _ _ _ _ _ r])
      (simp_all add: ex_solo_order, code_simp+)
qed

theorem solo_placed_in_turn_witness:
  "sd_place (decide_with ex_fmt 10 [ex_c1, ex_n1] ex_turns ex_load ex_limits (Some ex_offer) None) = Some (j_id ex_n1)"
proof -
  have o: "order_with 10 [ex_c1, ex_n1] ex_turns = [ex_c1] @ ex_n1 # []" by code_simp
  have n: "never_fits ex_fmt ex_offer ex_c1 \<noteq> None" "never_fits ex_fmt ex_offer ex_n1 = None"
    "verdict ex_fmt ex_offer ex_load ex_limits False ex_n1 = None" "j_workspace_id ex_c1 \<noteq> j_workspace_id ex_n1"
    by code_simp+
  show ?thesis by (rule solo_placed_in_turn [OF o]) (use n in simp_all)
qed

theorem solo_accounts_for_all_witness:
  "\<exists>r. bt_get (sd_waiting (decide_with ex_fmt 10 ex_solo ex_turns ex_load ex_limits (Some ex_offer) None)) (j_id ex_p1) = Some (3, r)"
proof -
  have d: "distinct (map j_id (order_with 10 ex_solo ex_turns))" unfolding ex_solo_order by code_simp
  have p: "sd_place (decide_with ex_fmt 10 ex_solo ex_turns ex_load ex_limits (Some ex_offer) None) \<noteq> Some (j_id ex_p1)"
    by code_simp
  have "length [ex_c2, ex_c1] = 2" by simp
  then show ?thesis
    using solo_accounts_for_all [of 10 ex_solo ex_turns "[ex_c2, ex_c1]" ex_p1 "[ex_n1, ex_n2]" ex_fmt ex_load ex_limits
        "Some ex_offer" None] d p ex_solo_order by (simp add: eval_nat_numeral)
qed

theorem pick_any_best_witness:
  "pick_any [(''a'', ex_busy, ex_load), (''b'', ex_offer, ex_load)] None None ex_n1 = Some ''b''
   \<and> (\<exists>off load. (''b'', off, load) \<in> set [(''a'', ex_busy, ex_load), (''b'', ex_offer, ex_load)]
        \<and> offer_refusal off (load_total load) (ld_exclusive_running load) (job_ask ex_n1) = None)"
proof -
  have p: "pick_any [(''a'', ex_busy, ex_load), (''b'', ex_offer, ex_load)] None None ex_n1 = Some ''b''" by code_simp
  show ?thesis
    using p pick_any_best [of "[(''a'', ex_busy, ex_load), (''b'', ex_offer, ex_load)]" None None ex_n1] by blast
qed

end
