(* ===== verification/Rust_Text.thy ===== *)
theory Rust_Text
  imports Rust_Str
begin

text \<open>
  More of Rust's \<open>str\<close>: lines, words, trimming at one end, searching and replacing, and
  the facts about printable ASCII strings the parsers of needs, packages and hosts share.
\<close>

section \<open>Functions\<close>

text \<open>\<open>str::lines\<close>: a line ends at a line feed, with the carriage return before it; a last empty
  piece is no line.\<close>

definition strip_cr :: "string \<Rightarrow> string" where
  "strip_cr l = unwrap_or (strip_suffix [CHR 0x0D] l) l"

definition str_lines :: "string \<Rightarrow> string list" where
  "str_lines s = (let ps = split_on (CHR 0x0A) s in
     map strip_cr (butlast ps) @ (if last ps = [] then [] else [last ps]))"

definition seg_ws :: "string \<Rightarrow> bool" where
  "seg_ws g = is_whitespace (seg_cp g)"

definition trim_start :: "string \<Rightarrow> string" where
  "trim_start s = concat (dropWhile seg_ws (segs s))"

definition trim_end :: "string \<Rightarrow> string" where
  "trim_end s = concat (rev (dropWhile seg_ws (rev (segs s))))"

fun words_from :: "string \<Rightarrow> string list \<Rightarrow> string list" where
  "words_from w [] = (if w = [] then [] else [w])"
| "words_from w (g # gs) =
     (if seg_ws g then (if w = [] then words_from [] gs else w # words_from [] gs) else words_from (w @ g) gs)"

definition split_whitespace :: "string \<Rightarrow> string list" where
  "split_whitespace s = words_from [] (segs s)"

definition trim_start_matches :: "char \<Rightarrow> string \<Rightarrow> string" where
  "trim_start_matches c s = dropWhile (\<lambda>x. x = c) s"

fun str_contains :: "string \<Rightarrow> string \<Rightarrow> bool" where
  "str_contains p [] \<longleftrightarrow> p = []"
| "str_contains p (c # cs) \<longleftrightarrow> starts_with (c # cs) p \<or> str_contains p cs"

text \<open>\<open>str::replace\<close> for a non-empty pattern.\<close>

fun str_replace :: "string \<Rightarrow> string \<Rightarrow> string \<Rightarrow> string" where
  "str_replace p r [] = []"
| "str_replace p r (c # cs) =
     (case strip_prefix p (c # cs) of
        Some rest \<Rightarrow> r @ str_replace p r (drop (length p - 1) cs)
      | None \<Rightarrow> c # str_replace p r cs)"

text \<open>\<open>Vec::dedup\<close>: equal neighbours.\<close>

fun dedup :: "'a list \<Rightarrow> 'a list" where
  "dedup (x # y # xs) = (if x = y then dedup (y # xs) else x # dedup (y # xs))"
| "dedup xs = xs"

text \<open>\<open>retain\<close> with a set of what was seen, and pushing what is not there yet: the first of each value.\<close>

fun first_of_each :: "'a list \<Rightarrow> 'a list \<Rightarrow> 'a list" where
  "first_of_each seen [] = []"
| "first_of_each seen (x # xs) =
     (if x \<in> set seen then first_of_each seen xs else x # first_of_each (x # seen) xs)"

section \<open>Facts\<close>

lemma set_dedup [simp]: "set (dedup xs) = set xs"
  by (induction xs rule: dedup.induct) auto

lemma dedup_strict: "sorted xs \<Longrightarrow> sorted_wrt (<) (dedup (xs :: 'a :: linorder list))"
  by (induction xs rule: dedup.induct) (auto simp: less_le)

lemma distinct_dedup: "sorted xs \<Longrightarrow> distinct (dedup (xs :: 'a :: linorder list))"
  using dedup_strict strict_sorted_iff by blast

lemma dedup_distinct: "distinct xs \<Longrightarrow> dedup xs = xs"
  by (induction xs rule: dedup.induct) auto

lemma first_of_each_facts:
  "set (first_of_each seen xs) = set xs - set seen \<and> distinct (first_of_each seen xs)"
  by (induction seen xs rule: first_of_each.induct) auto

lemma first_of_each_distinct: "distinct xs \<Longrightarrow> set xs \<inter> set seen = {} \<Longrightarrow> first_of_each seen xs = xs"
  by (induction seen xs rule: first_of_each.induct) auto

text \<open>Printable ASCII.\<close>

definition ascii_char :: "char \<Rightarrow> bool" where
  "ascii_char c \<longleftrightarrow> 32 < byte c \<and> byte c < 127"

lemma utf8_extra_ascii: "ascii_char c \<Longrightarrow> utf8_extra c = 0"
  by (simp add: utf8_extra_def ascii_char_def)

lemma segs_ascii: "list_all ascii_char s \<Longrightarrow> segs s = map (\<lambda>c. [c]) s"
  by (induction s) (simp_all add: utf8_extra_ascii)

lemma seg_ws_ascii: "ascii_char c \<Longrightarrow> \<not> seg_ws [c]"
  by (auto simp: seg_ws_def is_whitespace_def ascii_char_def)

lemma trim_ascii [simp]: "list_all ascii_char s \<Longrightarrow> trim s = s"
proof -
  assume a: "list_all ascii_char s"
  have d: "dropWhile (\<lambda>g. is_whitespace (seg_cp g)) gs = gs" if "\<forall>g \<in> set gs. \<not> seg_ws g" for gs
    using that by (cases gs) (auto simp: seg_ws_def)
  have "\<forall>g \<in> set (segs s). \<not> seg_ws g" using a by (auto simp: segs_ascii list_all_iff seg_ws_ascii)
  then have "dropWhile (\<lambda>g. is_whitespace (seg_cp g)) (segs s) = segs s"
    "dropWhile (\<lambda>g. is_whitespace (seg_cp g)) (rev (segs s)) = rev (segs s)" by (simp_all add: d)
  then show ?thesis by (simp add: trim_def Let_def)
qed

lemma trim_parts: "\<exists>a b. s = a @ trim s @ b"
proof -
  let ?ws = "\<lambda>g. is_whitespace (seg_cp g)"
  have 1: "segs s = takeWhile ?ws (segs s) @ dropWhile ?ws (segs s)" by simp
  have 2: "dropWhile ?ws (segs s)
      = rev (dropWhile ?ws (rev (dropWhile ?ws (segs s)))) @ rev (takeWhile ?ws (rev (dropWhile ?ws (segs s))))"
    by (metis rev_append rev_rev_ident takeWhile_dropWhile_id)
  have "concat (segs s) = concat (takeWhile ?ws (segs s)) @ trim s @ concat (rev (takeWhile ?ws (rev (dropWhile ?ws (segs s)))))"
    unfolding trim_def Let_def by (subst 1, subst 2) (simp only: concat_append append_assoc)
  then show ?thesis by (metis concat_segs)
qed

lemma ascii_class: "is_ascii_digit c \<or> is_ascii_lowercase c \<or> is_ascii_uppercase c \<Longrightarrow> ascii_char c"
  by (auto simp: is_ascii_digit_def is_ascii_lowercase_def is_ascii_uppercase_def ascii_char_def)

lemma split_on_join:
  "ps \<noteq> [] \<Longrightarrow> \<forall>p \<in> set ps. d \<notin> set p \<Longrightarrow> split_on d (join_with [d] ps) = ps"
proof (induction ps rule: induct_list012)
  case (2 p)
  then show ?case
  proof (induction p)
    case (Cons c p)
    then show ?case by auto
  qed simp
next
  case (3 p q ps)
  have "split_on d (a @ d # b) = a # split_on d b" if "d \<notin> set a" for a b
    using that by (induction a) auto
  then show ?case using 3 by simp
qed simp

lemma split_once_append: "d \<notin> set a \<Longrightarrow> split_once d (a @ d # b) = Some (a, b)"
  by (simp add: split_once_Some_iff)

lemma length_join: "length (join_with [d] ps) = sum_list (map length ps) + (length ps - 1)"
  by (induction ps rule: induct_list012) auto

lemma starts_with_append [simp]: "starts_with (p @ r) p"
  by (auto simp: starts_with_iff)

end
