(* ===== verification/Host.thy ===== *)
theory Host
  imports BTree Rust_Text
begin

text \<open>
  \<open>host.rs\<close>: what a node is. The facts with their display forms and labels, the
  \<open>--distro\<close> filter, and the readers of \<open>/etc/os-release\<close>, of PCI vendors and of
  the NVIDIA driver's version.
\<close>

section \<open>Facts of a host\<close>

definition PROTOCOL_HOST :: nat where
  "PROTOCOL_HOST = 7"

definition FEATURE_HOST_FACTS :: string where
  "FEATURE_HOST_FACTS = ''host-facts''"

definition HOST_LABEL_KEYS :: "string list" where
  "HOST_LABEL_KEYS = [''os'', ''arch'', ''vm'', ''name'', ''distro'', ''distro_version'', ''pkg'', ''libc'', ''gpu'']"

definition shadows_host_label :: "string \<Rightarrow> bool" where
  "shadows_host_label key \<longleftrightarrow> key \<in> set HOST_LABEL_KEYS"

record HostFacts =
  hf_os :: string
  hf_arch :: string
  hf_distro :: string
  hf_distro_like :: "string list"
  hf_distro_version :: string
  hf_distro_name :: string
  hf_distro_flavor :: "string option"
  hf_pkg :: "string option"
  hf_kernel :: string
  hf_libc :: string
  hf_gpu :: "string option"
  hf_reboot_required :: bool

definition host_short :: "HostFacts \<Rightarrow> string" where
  "host_short h =
     (let d = (if hf_distro h = [] then hf_os h else hf_distro h);
          v = (if hf_distro_version h = [] \<or> hf_distro_version h = ''rolling'' then [] else hf_distro_version h)
      in d @ v @ ''-'' @ hf_arch h)"

text \<open>The separator of the \<open>host:\<close> line is U+00B7 between blanks, in UTF-8.\<close>

definition middle_dot :: string where
  "middle_dot = [CHR '' '', CHR 0xC2, CHR 0xB7, CHR '' '']"

definition host_line :: "HostFacts \<Rightarrow> string" where
  "host_line h =
     (let first = (if hf_distro_name h = [] then host_short h else hf_distro_name h);
          named = (case hf_distro_flavor h of Some f \<Rightarrow> first @ '' ('' @ f @ '')'' | None \<Rightarrow> first)
      in join_with middle_dot ([named]
           @ (case hf_pkg h of Some p \<Rightarrow> [p] | None \<Rightarrow> [])
           @ (if hf_kernel h \<noteq> [] then [''kernel '' @ hf_kernel h] else [])
           @ (if hf_libc h \<noteq> [] then [hf_libc h] else [])
           @ [hf_arch h]
           @ [case hf_gpu h of Some g \<Rightarrow> ''GPU '' @ g | None \<Rightarrow> ''no GPU'']
           @ (if hf_reboot_required h then [''reboot pending''] else [])))"

definition label_word :: "string \<Rightarrow> string \<Rightarrow> (string, string) btree \<Rightarrow> (string, string) btree" where
  "label_word k s m = (case split_whitespace s of w # _ \<Rightarrow> bt_insert k w m | [] \<Rightarrow> m)"

definition host_labels :: "HostFacts \<Rightarrow> (string, string) btree" where
  "host_labels h =
     (let m1 = (if hf_distro h \<noteq> [] then bt_insert ''distro'' (hf_distro h) [] else []);
          m2 = (if hf_distro_version h \<noteq> [] then bt_insert ''distro_version'' (hf_distro_version h) m1 else m1);
          m3 = (case hf_pkg h of Some p \<Rightarrow> bt_insert ''pkg'' p m2 | None \<Rightarrow> m2);
          m4 = label_word ''libc'' (hf_libc h) m3
      in (case hf_gpu h of Some g \<Rightarrow> label_word ''gpu'' g m4 | None \<Rightarrow> m4))"

definition is_like :: "HostFacts \<Rightarrow> string \<Rightarrow> bool" where
  "is_like h d \<longleftrightarrow> hf_distro h = d \<or> d \<in> set (hf_distro_like h)"

definition version_prefix :: "string \<Rightarrow> string \<Rightarrow> bool" where
  "version_prefix have0 want \<longleftrightarrow>
     have0 = want \<or> (case strip_prefix want have0 of Some r \<Rightarrow> starts_with r ''.'' | None \<Rightarrow> False)"

section \<open>The distro filter\<close>

record DistroSpec =
  ds_distro :: string
  ds_version :: "string option"

definition host_matches :: "HostFacts \<Rightarrow> DistroSpec \<Rightarrow> bool" where
  "host_matches h spec =
     (case ds_version spec of
        None \<Rightarrow> is_like h (ds_distro spec)
      | Some v \<Rightarrow> hf_distro h = ds_distro spec \<and> version_prefix (hf_distro_version h) v)"

definition distro_word_ok :: "string \<Rightarrow> bool" where
  "distro_word_ok x \<longleftrightarrow> x \<noteq> [] \<and> length x \<le> 32
     \<and> list_all (\<lambda>c. is_ascii_lowercase c \<or> is_ascii_digit c \<or> c \<in> set ''._-'') x"

definition parse_distro :: "string \<Rightarrow> DistroSpec option" where
  "parse_distro s =
     (let t = to_ascii_lowercase (trim s);
          (d, v) = (case split_once (CHR ''@'') t of Some (d, v) \<Rightarrow> (d, Some v) | None \<Rightarrow> (t, None))
      in if \<not> distro_word_ok d \<or> (case v of Some w \<Rightarrow> \<not> distro_word_ok w | None \<Rightarrow> False) then None
         else Some \<lparr> ds_distro = d, ds_version = v \<rparr>)"

section \<open>Files a node reads\<close>

record OsRelease =
  os_id :: string
  os_id_like :: "string list"
  os_version_id :: "string option"
  os_pretty_name :: "string option"

definition OsRelease_default :: OsRelease where
  "OsRelease_default = \<lparr> os_id = [], os_id_like = [], os_version_id = None, os_pretty_name = None \<rparr>"

definition quoted :: "char \<Rightarrow> string \<Rightarrow> string option" where
  "quoted q v = Option.bind (strip_prefix [q] v) (strip_suffix [q])"

definition unquote :: "string \<Rightarrow> string" where
  "unquote v = (case quoted (CHR 0x22) v of Some x \<Rightarrow> x | None \<Rightarrow> unwrap_or (quoted (CHR 0x27) v) v)"

text \<open>The first 80 characters that are no control characters.\<close>

definition plain80 :: "string \<Rightarrow> string" where
  "plain80 v = concat (take 80 (filter (\<lambda>g. \<not> is_control (seg_cp g)) (segs v)))"

definition os_release_line :: "OsRelease \<Rightarrow> string \<Rightarrow> OsRelease" where
  "os_release_line o1 line =
     (case split_once (CHR ''='') (trim line) of
        None \<Rightarrow> o1
      | Some (k, v0) \<Rightarrow>
          let v = plain80 (unquote (trim v0)); key = trim k
          in if key = ''ID'' then o1 \<lparr> os_id := to_ascii_lowercase v \<rparr>
             else if key = ''ID_LIKE'' then o1 \<lparr> os_id_like := map to_ascii_lowercase (split_whitespace v) \<rparr>
             else if key = ''VERSION_ID'' \<and> v \<noteq> [] then o1 \<lparr> os_version_id := Some v \<rparr>
             else if key = ''PRETTY_NAME'' \<and> v \<noteq> [] then o1 \<lparr> os_pretty_name := Some v \<rparr>
             else o1)"

definition parse_os_release :: "string \<Rightarrow> OsRelease" where
  "parse_os_release text0 = foldl os_release_line OsRelease_default (str_lines text0)"

definition gpu_vendor :: "string \<Rightarrow> string option" where
  "gpu_vendor pci_vendor =
     (let v = to_ascii_lowercase (trim pci_vendor)
      in if v = ''0x10de'' then Some ''nvidia''
         else if v = ''0x1002'' then Some ''amd''
         else if v = ''0x8086'' then Some ''intel''
         else None)"

definition nvidia_driver :: "string \<Rightarrow> string option" where
  "nvidia_driver text0 =
     (case str_lines text0 of
        [] \<Rightarrow> None
      | l # _ \<Rightarrow> find (\<lambda>w. (case w of c # _ \<Rightarrow> is_ascii_digit c | [] \<Rightarrow> False) \<and> CHR ''.'' \<in> set w) (split_whitespace l))"

section \<open>Facts\<close>

lemma label_word_get: "k' \<noteq> k \<Longrightarrow> bt_get (label_word k s m) k' = bt_get m k'"
  by (simp add: label_word_def split: list.splits)

text \<open>The labels a host sets are reserved, so an owner's label never meets one.\<close>

lemma host_labels_reserved: "bt_get (host_labels h) k \<noteq> None \<Longrightarrow> shadows_host_label k"
proof (rule ccontr)
  assume "\<not> shadows_host_label k"
  then have "k \<noteq> ''distro''" "k \<noteq> ''distro_version''" "k \<noteq> ''pkg''" "k \<noteq> ''libc''" "k \<noteq> ''gpu''"
    by (auto simp: shadows_host_label_def HOST_LABEL_KEYS_def)
  then have "bt_get (host_labels h) k = bt_get [] k"
    by (simp add: host_labels_def label_word_get Let_def split: option.splits) (simp add: bt_get_def)
  moreover assume "bt_get (host_labels h) k \<noteq> None"
  ultimately show False by (simp add: bt_get_def)
qed

text \<open>A version matches on a dot: the asked version is the host's, or the host's goes on with a dot.\<close>

lemma version_prefix_iff: "version_prefix have0 want \<longleftrightarrow> have0 = want \<or> (\<exists>r. have0 = want @ CHR ''.'' # r)"
  by (auto simp: version_prefix_def strip_prefix_Some_iff starts_with_iff split: option.splits
      dest: strip_prefix_Some_iff [THEN iffD1])

lemma version_prefix_trans: "version_prefix a b \<Longrightarrow> version_prefix b c \<Longrightarrow> version_prefix a c"
  by (auto simp: version_prefix_iff)

end
