(* ===== verification/Pkg_Rows.thy ===== *)
theory Pkg_Rows
  imports Rust_Text "HOL-Library.Code_Target_Numeral"
begin

text \<open>
  The table \<open>ROWS\<close> of \<open>pkgmap.rs\<close>, row by row: the canonical (Debian) name, then apt,
  pacman, dnf and zypper. The source has one constant; here it is three lists, in its order.
\<close>

type_synonym pkg_row = "string \<times> string \<times> string \<times> string \<times> string"

definition ROWS1 :: "pkg_row list" where
  "ROWS1 =
     [(''autoconf'', ''='', ''autoconf'', ''autoconf'', ''autoconf''),
      (''automake'', ''='', ''automake'', ''automake'', ''automake''),
      (''bison'', ''='', ''bison'', ''bison'', ''bison''),
      (''build-essential'', ''='', ''base-devel'', ''gcc gcc-c++ make'', ''gcc gcc-c++ make''),
      (''bzip2'', ''='', ''bzip2'', ''bzip2'', ''bzip2''),
      (''ca-certificates'', ''='', ''ca-certificates'', ''ca-certificates'', ''ca-certificates''),
      (''ccache'', ''='', ''ccache'', ''ccache'', ''ccache''),
      (''clang'', ''='', ''clang'', ''clang'', ''clang''),
      (''cmake'', ''='', ''cmake'', ''cmake'', ''cmake''),
      (''curl'', ''='', ''curl'', ''curl'', ''curl''),
      (''dbus-x11'', ''='', ''dbus'', ''dbus-x11'', ''dbus-1-x11''),
      (''ffmpeg'', ''='', ''ffmpeg'', ''ffmpeg-free'', ''ffmpeg''),
      (''file'', ''='', ''file'', ''file'', ''file''),
      (''flex'', ''='', ''flex'', ''flex'', ''flex''),
      (''fonts-dejavu-core'', ''='', ''ttf-dejavu'', ''dejavu-sans-fonts'', ''dejavu-fonts''),
      (''fonts-liberation'', ''='', ''ttf-liberation'', ''liberation-fonts'', ''liberation-fonts''),
      (''fonts-noto-color-emoji'', ''='', ''noto-fonts-emoji'', ''google-noto-emoji-color-fonts'', ''noto-coloremoji-fonts''),
      (''fuse3'', ''='', ''fuse3'', ''fuse3'', ''fuse3''),
      (''g++'', ''='', ''gcc'', ''gcc-c++'', ''gcc-c++''),
      (''gcc'', ''='', ''gcc'', ''gcc'', ''gcc''),
      (''gdb'', ''='', ''gdb'', ''gdb'', ''gdb''),
      (''gettext'', ''='', ''gettext'', ''gettext'', ''gettext-tools''),
      (''gfortran'', ''='', ''gcc-fortran'', ''gcc-gfortran'', ''gcc-fortran''),
      (''ghostscript'', ''='', ''ghostscript'', ''ghostscript'', ''ghostscript''),
      (''git'', ''='', ''git'', ''git'', ''git''),
      (''imagemagick'', ''='', ''imagemagick'', ''ImageMagick'', ''ImageMagick''),
      (''jq'', ''='', ''jq'', ''jq'', ''jq''),
      (''libaio-dev'', ''='', ''libaio'', ''libaio-devel'', ''libaio-devel''),
      (''libarchive-dev'', ''='', ''libarchive'', ''libarchive-devel'', ''libarchive-devel''),
      (''libasound2'', ''='', ''alsa-lib'', ''alsa-lib'', ''libasound2''),
      (''libasound2-dev'', ''='', ''alsa-lib'', ''alsa-lib-devel'', ''alsa-devel''),
      (''libasound2t64'', ''='', ''alsa-lib'', ''alsa-lib'', ''libasound2''),
      (''libatk-bridge2.0-0'', ''='', ''at-spi2-core'', ''at-spi2-atk'', ''libatk-bridge-2_0-0''),
      (''libavcodec-dev'', ''='', ''ffmpeg'', ''libavcodec-free-devel'', ''ffmpeg-7-libavcodec-devel''),
      (''libavformat-dev'', ''='', ''ffmpeg'', ''libavformat-free-devel'', ''ffmpeg-7-libavformat-devel''),
      (''libavutil-dev'', ''='', ''ffmpeg'', ''libavutil-free-devel'', ''ffmpeg-7-libavutil-devel''),
      (''libayatana-appindicator3-1'', ''='', ''libayatana-appindicator'', ''libayatana-appindicator-gtk3'', ''libayatana-appindicator3-1''),
      (''libayatana-appindicator3-dev'', ''='', ''libayatana-appindicator'', ''libayatana-appindicator-gtk3-devel'', ''libayatana-appindicator3-devel''),
      (''libblkid-dev'', ''='', ''util-linux-libs'', ''libblkid-devel'', ''libblkid-devel''),
      (''libboost-dev'', ''='', ''boost'', ''boost-devel'', ''boost-devel''),
      (''libbz2-dev'', ''='', ''bzip2'', ''bzip2-devel'', ''libbz2-devel''),
      (''libcairo2-dev'', ''='', ''cairo'', ''cairo-devel'', ''cairo-devel''),
      (''libcap-dev'', ''='', ''libcap'', ''libcap-devel'', ''libcap-devel''),
      (''libclang-dev'', ''='', ''clang'', ''clang-devel'', ''clang-devel''),
      (''libcups2'', ''='', ''libcups'', ''cups-libs'', ''libcups2''),
      (''libcurl4-openssl-dev'', ''='', ''curl'', ''libcurl-devel'', ''libcurl-devel''),
      (''libdbus-1-dev'', ''='', ''dbus'', ''dbus-devel'', ''dbus-1-devel''),
      (''libdrm-dev'', ''='', ''libdrm'', ''libdrm-devel'', ''libdrm-devel''),
      (''libdrm2'', ''='', ''libdrm'', ''libdrm'', ''libdrm2''),
      (''libegl-dev'', ''='', ''libglvnd'', ''libglvnd-devel'', ''libglvnd-devel''),
      (''libegl1'', ''='', ''libglvnd'', ''libglvnd-egl'', ''libEGL1''),
      (''libegl1-mesa-dev'', ''='', ''mesa libglvnd'', ''mesa-libEGL-devel'', ''Mesa-libEGL-devel''),
      (''libeigen3-dev'', ''='', ''eigen'', ''eigen3-devel'', ''eigen3-devel''),
      (''libelf-dev'', ''='', ''libelf'', ''elfutils-libelf-devel'', ''libelf-devel''),
      (''libevent-dev'', ''='', ''libevent'', ''libevent-devel'', ''libevent-devel''),
      (''libffi-dev'', ''='', ''libffi'', ''libffi-devel'', ''libffi-devel''),
      (''libfontconfig-dev'', ''='', ''fontconfig'', ''fontconfig-devel'', ''fontconfig-devel''),
      (''libfontconfig1'', ''='', ''fontconfig'', ''fontconfig'', ''libfontconfig1''),
      (''libfontconfig1-dev'', ''='', ''fontconfig'', ''fontconfig-devel'', ''fontconfig-devel''),
      (''libfreetype-dev'', ''='', ''freetype2'', ''freetype-devel'', ''freetype2-devel''),
      (''libfreetype6-dev'', ''='', ''freetype2'', ''freetype-devel'', ''freetype2-devel''),
      (''libfuse3-dev'', ''='', ''fuse3'', ''fuse3-devel'', ''fuse3-devel''),
      (''libgbm-dev'', ''='', ''mesa'', ''mesa-libgbm-devel'', ''libgbm-devel''),
      (''libgbm1'', ''='', ''mesa'', ''mesa-libgbm'', ''libgbm1''),
      (''libgdk-pixbuf-2.0-dev'', ''='', ''gdk-pixbuf2'', ''gdk-pixbuf2-devel'', ''gdk-pixbuf-devel'')]"

definition ROWS2 :: "pkg_row list" where
  "ROWS2 =
     [(''libgif-dev'', ''='', ''giflib'', ''giflib-devel'', ''giflib-devel''),
      (''libgit2-dev'', ''='', ''libgit2'', ''libgit2-devel'', ''libgit2-devel''),
      (''libgl-dev'', ''='', ''libglvnd'', ''libglvnd-devel'', ''libglvnd-devel''),
      (''libgl1'', ''='', ''libglvnd'', ''libglvnd-glx'', ''libGL1''),
      (''libgl1-mesa-dev'', ''='', ''mesa libglvnd'', ''mesa-libGL-devel'', ''Mesa-libGL-devel''),
      (''libgl1-mesa-dri'', ''='', ''mesa'', ''mesa-dri-drivers'', ''Mesa-dri''),
      (''libgles2-mesa-dev'', ''='', ''mesa libglvnd'', ''mesa-libGLES-devel'', ''Mesa-libGLESv2-devel''),
      (''libglib2.0-dev'', ''='', ''glib2'', ''glib2-devel'', ''glib2-devel''),
      (''libgmp-dev'', ''='', ''gmp'', ''gmp-devel'', ''gmp-devel''),
      (''libgstreamer-plugins-base1.0-dev'', ''='', ''gst-plugins-base-libs'', ''gstreamer1-plugins-base-devel'', ''gstreamer-plugins-base-devel''),
      (''libgstreamer1.0-dev'', ''='', ''gstreamer'', ''gstreamer1-devel'', ''gstreamer-devel''),
      (''libgtk-3-0'', ''='', ''gtk3'', ''gtk3'', ''libgtk-3-0''),
      (''libgtk-3-dev'', ''='', ''gtk3'', ''gtk3-devel'', ''gtk3-devel''),
      (''libgtk-4-dev'', ''='', ''gtk4'', ''gtk4-devel'', ''gtk4-devel''),
      (''libharfbuzz-dev'', ''='', ''harfbuzz'', ''harfbuzz-devel'', ''harfbuzz-devel''),
      (''libhdf5-dev'', ''='', ''hdf5'', ''hdf5-devel'', ''hdf5-devel''),
      (''libicu-dev'', ''='', ''icu'', ''libicu-devel'', ''libicu-devel''),
      (''libjavascriptcoregtk-4.1-dev'', ''='', ''webkit2gtk-4.1'', ''javascriptcoregtk4.1-devel'', ''webkit2gtk3-devel''),
      (''libjemalloc-dev'', ''='', ''jemalloc'', ''jemalloc-devel'', ''jemalloc-devel''),
      (''libjpeg-dev'', ''='', ''libjpeg-turbo'', ''libjpeg-turbo-devel'', ''libjpeg8-devel''),
      (''libkrb5-dev'', ''='', ''krb5'', ''krb5-devel'', ''krb5-devel''),
      (''libldap2-dev'', ''='', ''libldap'', ''openldap-devel'', ''openldap2-devel''),
      (''liblzma-dev'', ''='', ''xz'', ''xz-devel'', ''xz-devel''),
      (''libmagic-dev'', ''='', ''file'', ''file-devel'', ''file-devel''),
      (''libmount-dev'', ''='', ''util-linux-libs'', ''libmount-devel'', ''libmount-devel''),
      (''libncurses-dev'', ''='', ''ncurses'', ''ncurses-devel'', ''ncurses-devel''),
      (''libnotify-dev'', ''='', ''libnotify'', ''libnotify-devel'', ''libnotify-devel''),
      (''libnss3'', ''='', ''nss'', ''nss'', ''mozilla-nss''),
      (''libnuma-dev'', ''='', ''numactl'', ''numactl-devel'', ''libnuma-devel''),
      (''libopenblas-dev'', ''='', ''openblas'', ''openblas-devel'', ''openblas-devel''),
      (''libopus-dev'', ''='', ''opus'', ''opus-devel'', ''libopus-devel''),
      (''libpango1.0-dev'', ''='', ''pango'', ''pango-devel'', ''pango-devel''),
      (''libpcap-dev'', ''='', ''libpcap'', ''libpcap-devel'', ''libpcap-devel''),
      (''libpcre2-dev'', ''='', ''pcre2'', ''pcre2-devel'', ''pcre2-devel''),
      (''libpipewire-0.3-dev'', ''='', ''libpipewire'', ''pipewire-devel'', ''pipewire-devel''),
      (''libpng-dev'', ''='', ''libpng'', ''libpng-devel'', ''libpng16-devel''),
      (''libpq-dev'', ''='', ''postgresql-libs'', ''libpq-devel'', ''postgresql-devel''),
      (''libprotobuf-dev'', ''='', ''protobuf'', ''protobuf-devel'', ''protobuf-devel''),
      (''libpulse-dev'', ''='', ''libpulse'', ''pulseaudio-libs-devel'', ''libpulse-devel''),
      (''libreadline-dev'', ''='', ''readline'', ''readline-devel'', ''readline-devel''),
      (''librsvg2-dev'', ''='', ''librsvg'', ''librsvg2-devel'', ''librsvg-devel''),
      (''libsdl2-dev'', ''='', ''sdl2-compat'', ''SDL2-devel'', ''SDL2-devel''),
      (''libseccomp-dev'', ''='', ''libseccomp'', ''libseccomp-devel'', ''libseccomp-devel''),
      (''libsecret-1-dev'', ''='', ''libsecret'', ''libsecret-devel'', ''libsecret-devel''),
      (''libsodium-dev'', ''='', ''libsodium'', ''libsodium-devel'', ''libsodium-devel''),
      (''libsoup-3.0-dev'', ''='', ''libsoup3'', ''libsoup3-devel'', ''libsoup-devel''),
      (''libsqlite3-dev'', ''='', ''sqlite'', ''sqlite-devel'', ''sqlite3-devel''),
      (''libssh2-1-dev'', ''='', ''libssh2'', ''libssh2-devel'', ''libssh2-devel''),
      (''libssl-dev'', ''='', ''openssl'', ''openssl-devel'', ''libopenssl-devel''),
      (''libssl3'', ''='', ''openssl'', ''openssl-libs'', ''libopenssl3''),
      (''libswscale-dev'', ''='', ''ffmpeg'', ''libswscale-free-devel'', ''ffmpeg-7-libswscale-devel''),
      (''libsystemd-dev'', ''='', ''systemd-libs'', ''systemd-devel'', ''systemd-devel''),
      (''libtiff-dev'', ''='', ''libtiff'', ''libtiff-devel'', ''libtiff-devel''),
      (''libtool'', ''='', ''libtool'', ''libtool'', ''libtool''),
      (''libudev-dev'', ''='', ''systemd-libs'', ''systemd-devel'', ''libudev-devel''),
      (''libunwind-dev'', ''='', ''libunwind'', ''libunwind-devel'', ''libunwind-devel''),
      (''libusb-1.0-0-dev'', ''='', ''libusb'', ''libusb1-devel'', ''libusb-1_0-devel''),
      (''libuv1-dev'', ''='', ''libuv'', ''libuv-devel'', ''libuv-devel''),
      (''libvpx-dev'', ''='', ''libvpx'', ''libvpx-devel'', ''libvpx-devel''),
      (''libvulkan-dev'', ''='', ''vulkan-icd-loader vulkan-headers'', ''vulkan-loader-devel'', ''vulkan-devel''),
      (''libwayland-dev'', ''='', ''wayland'', ''wayland-devel'', ''wayland-devel''),
      (''libwebkit2gtk-4.1-0'', ''='', ''webkit2gtk-4.1'', ''webkit2gtk4.1'', ''libwebkit2gtk-4_1-0''),
      (''libwebkit2gtk-4.1-dev'', ''='', ''webkit2gtk-4.1'', ''webkit2gtk4.1-devel'', ''webkit2gtk3-devel''),
      (''libwebp-dev'', ''='', ''libwebp'', ''libwebp-devel'', ''libwebp-devel''),
      (''libx11-6'', ''='', ''libx11'', ''libX11'', ''libX11-6'')]"

definition ROWS3 :: "pkg_row list" where
  "ROWS3 =
     [(''libx11-dev'', ''='', ''libx11'', ''libX11-devel'', ''libX11-devel''),
      (''libxcb1-dev'', ''='', ''libxcb'', ''libxcb-devel'', ''libxcb-devel''),
      (''libxcomposite1'', ''='', ''libxcomposite'', ''libXcomposite'', ''libXcomposite1''),
      (''libxcursor-dev'', ''='', ''libxcursor'', ''libXcursor-devel'', ''libXcursor-devel''),
      (''libxdamage1'', ''='', ''libxdamage'', ''libXdamage'', ''libXdamage1''),
      (''libxdo-dev'', ''='', ''xdotool'', ''libxdo-devel'', ''xdotool-devel''),
      (''libxext-dev'', ''='', ''libxext'', ''libXext-devel'', ''libXext-devel''),
      (''libxfixes3'', ''='', ''libxfixes'', ''libXfixes'', ''libXfixes3''),
      (''libxi-dev'', ''='', ''libxi'', ''libXi-devel'', ''libXi-devel''),
      (''libxinerama-dev'', ''='', ''libxinerama'', ''libXinerama-devel'', ''libXinerama-devel''),
      (''libxkbcommon-dev'', ''='', ''libxkbcommon'', ''libxkbcommon-devel'', ''libxkbcommon-devel''),
      (''libxkbcommon-x11-dev'', ''='', ''libxkbcommon-x11'', ''libxkbcommon-x11-devel'', ''libxkbcommon-x11-devel''),
      (''libxml2-dev'', ''='', ''libxml2'', ''libxml2-devel'', ''libxml2-devel''),
      (''libxrandr-dev'', ''='', ''libxrandr'', ''libXrandr-devel'', ''libXrandr-devel''),
      (''libxrandr2'', ''='', ''libxrandr'', ''libXrandr'', ''libXrandr2''),
      (''libxshmfence1'', ''='', ''libxshmfence'', ''libxshmfence'', ''libxshmfence1''),
      (''libxslt1-dev'', ''='', ''libxslt'', ''libxslt-devel'', ''libxslt-devel''),
      (''libxss-dev'', ''='', ''libxss'', ''libXScrnSaver-devel'', ''libXss-devel''),
      (''libxtst-dev'', ''='', ''libxtst'', ''libXtst-devel'', ''libXtst-devel''),
      (''libxtst6'', ''='', ''libxtst'', ''libXtst'', ''libXtst6''),
      (''libyaml-dev'', ''='', ''libyaml'', ''libyaml-devel'', ''libyaml-devel''),
      (''libzstd-dev'', ''='', ''zstd'', ''libzstd-devel'', ''libzstd-devel''),
      (''lld'', ''='', ''lld'', ''lld'', ''lld''),
      (''lldb'', ''='', ''lldb'', ''lldb'', ''lldb''),
      (''llvm'', ''='', ''llvm'', ''llvm'', ''llvm''),
      (''llvm-dev'', ''='', ''llvm'', ''llvm-devel'', ''llvm-devel''),
      (''m4'', ''='', ''m4'', ''m4'', ''m4''),
      (''make'', ''='', ''make'', ''make'', ''make''),
      (''mesa-vulkan-drivers'', ''='', ''vulkan-swrast'', ''mesa-vulkan-drivers'', ''libvulkan_lvp''),
      (''mold'', ''='', ''mold'', ''mold'', ''mold''),
      (''nasm'', ''='', ''nasm'', ''nasm'', ''nasm''),
      (''ninja-build'', ''='', ''ninja'', ''ninja-build'', ''ninja''),
      (''openssl'', ''='', ''openssl'', ''openssl'', ''openssl''),
      (''patch'', ''='', ''patch'', ''patch'', ''patch''),
      (''perl'', ''='', ''perl'', ''perl'', ''perl''),
      (''pkg-config'', ''='', ''pkgconf'', ''pkgconf-pkg-config'', ''pkg-config''),
      (''poppler-utils'', ''='', ''poppler'', ''poppler-utils'', ''poppler-tools''),
      (''protobuf-compiler'', ''='', ''protobuf'', ''protobuf-compiler'', ''protobuf-devel''),
      (''python3'', ''='', ''python'', ''python3'', ''python3''),
      (''python3-dev'', ''='', ''python'', ''python3-devel'', ''python3-devel''),
      (''python3-pip'', ''='', ''python-pip'', ''python3-pip'', ''python3-pip''),
      (''python3-venv'', ''='', ''python'', ''python3'', ''python3''),
      (''rsync'', ''='', ''rsync'', ''rsync'', ''rsync''),
      (''shellcheck'', ''='', ''shellcheck'', ''ShellCheck'', ''ShellCheck''),
      (''sqlite3'', ''='', ''sqlite'', ''sqlite'', ''sqlite3''),
      (''strace'', ''='', ''strace'', ''strace'', ''strace''),
      (''unzip'', ''='', ''unzip'', ''unzip'', ''unzip''),
      (''uuid-dev'', ''='', ''util-linux-libs'', ''libuuid-devel'', ''libuuid-devel''),
      (''valgrind'', ''='', ''valgrind'', ''valgrind'', ''valgrind''),
      (''vulkan-tools'', ''='', ''vulkan-tools'', ''vulkan-tools'', ''vulkan-tools''),
      (''wayland-protocols'', ''='', ''wayland-protocols'', ''wayland-protocols-devel'', ''wayland-protocols-devel''),
      (''wget'', ''='', ''wget'', ''wget'', ''wget''),
      (''xauth'', ''='', ''xorg-xauth'', ''xorg-x11-xauth'', ''xauth''),
      (''xdg-utils'', ''='', ''xdg-utils'', ''xdg-utils'', ''xdg-utils''),
      (''xvfb'', ''='', ''xorg-server-xvfb'', ''xorg-x11-server-Xvfb'', ''xorg-x11-server-Xvfb''),
      (''xz-utils'', ''='', ''xz'', ''xz'', ''xz''),
      (''yasm'', ''='', ''yasm'', ''yasm'', ''yasm''),
      (''zip'', ''='', ''zip'', ''zip'', ''zip''),
      (''zlib1g-dev'', ''='', ''zlib'', ''zlib-devel'', ''zlib-devel''),
      (''zstd'', ''='', ''zstd'', ''zstd'', ''zstd'')]"

definition ROWS :: "pkg_row list" where
  "ROWS = ROWS1 @ ROWS2 @ ROWS3"

text \<open>The table is strictly sorted by its canonical names.\<close>

fun rising :: "string list \<Rightarrow> bool" where
  "rising (x # y # xs) \<longleftrightarrow> x < y \<and> rising (y # xs)"
| "rising xs \<longleftrightarrow> True"

lemma rising_iff: "rising xs \<longleftrightarrow> sorted_wrt (<) xs"
  by (induction xs rule: rising.induct) (auto intro: less_trans)

lemma rows_rising: "rising (map fst ROWS)"
  by code_simp

lemma rows_sorted: "sorted_wrt (<) (map fst ROWS)"
  using rows_rising by (simp only: rising_iff)

end
