(* ===== verification/Pkgmap.thy ===== *)
theory Pkgmap
  imports Host Pkg_Rows Codes
begin

text \<open>
  \<open>pkgmap.rs\<close>: distribution-neutral names of system packages. A name is canonical (Debian) or
  native to one manager; a canonical name is mapped by the per-version rows, then by the table
  (found by binary search), and only apt takes an unknown name as written.
\<close>

section \<open>Managers and names\<close>

definition FEATURE_PKG_MAP :: string where
  "FEATURE_PKG_MAP = ''pkg-map''"

datatype Mgr = Apt | Dnf | Pacman | Zypper

definition UNCHECKED_MANAGERS :: "Mgr list" where
  "UNCHECKED_MANAGERS = [Dnf, Zypper]"

definition Mgr_ALL :: "Mgr list" where
  "Mgr_ALL = [Apt, Dnf, Pacman, Zypper]"

fun mgr_name :: "Mgr \<Rightarrow> string" where
  "mgr_name Apt = ''apt''"
| "mgr_name Dnf = ''dnf''"
| "mgr_name Pacman = ''pacman''"
| "mgr_name Zypper = ''zypper''"

definition Mgr_parse :: "string \<Rightarrow> Mgr option" where
  "Mgr_parse s = find (\<lambda>m. mgr_name m = s) Mgr_ALL"

text \<open>\<open>needs::valid_package\<close>.\<close>

definition package_char :: "char \<Rightarrow> bool" where
  "package_char c \<longleftrightarrow> is_ascii_lowercase c \<or> is_ascii_digit c \<or> c \<in> set ''._+-''"

definition valid_package :: "string \<Rightarrow> bool" where
  "valid_package p \<longleftrightarrow> p \<noteq> [] \<and> length p \<le> 64
     \<and> (case p of c # _ \<Rightarrow> is_ascii_lowercase c \<or> is_ascii_digit c | [] \<Rightarrow> False) \<and> list_all package_char p"

datatype SysName = Canonical string | Native Mgr string

definition SysName_parse :: "string \<Rightarrow> SysName option" where
  "SysName_parse s =
     (case split_once (CHR '':'') s of
        Some (m, n) \<Rightarrow>
          (case Mgr_parse m of
             None \<Rightarrow> None
           | Some mgr \<Rightarrow> if valid_package n then Some (Native mgr n) else None)
      | None \<Rightarrow> if valid_package s then Some (Canonical s) else None)"

fun SysName_as_str :: "SysName \<Rightarrow> string" where
  "SysName_as_str (Canonical n) = n"
| "SysName_as_str (Native mgr name) = mgr_name mgr @ '':'' @ name"

section \<open>The mapping\<close>

definition VERSION_ROWS :: "(string \<times> string \<times> string \<times> Mgr \<times> string) list" where
  "VERSION_ROWS =
     [(''libasound2'', ''ubuntu'', ''24.04'', Apt, ''libasound2t64''),
      (''libasound2'', ''debian'', ''13'', Apt, ''libasound2t64''),
      (''libatk-bridge2.0-0'', ''ubuntu'', ''24.04'', Apt, ''libatk-bridge2.0-0t64''),
      (''libatk-bridge2.0-0'', ''debian'', ''13'', Apt, ''libatk-bridge2.0-0t64''),
      (''libcups2'', ''ubuntu'', ''24.04'', Apt, ''libcups2t64''),
      (''libcups2'', ''debian'', ''13'', Apt, ''libcups2t64''),
      (''libgtk-3-0'', ''ubuntu'', ''24.04'', Apt, ''libgtk-3-0t64''),
      (''libgtk-3-0'', ''debian'', ''13'', Apt, ''libgtk-3-0t64''),
      (''libssl3'', ''ubuntu'', ''24.04'', Apt, ''libssl3t64''),
      (''libssl3'', ''debian'', ''13'', Apt, ''libssl3t64''),
      (''libasound2t64'', ''debian'', ''12'', Apt, ''libasound2''),
      (''libasound2t64'', ''ubuntu'', ''22.04'', Apt, ''libasound2'')]"

text \<open>The standard library's binary search: the window of \<open>win\<close> elements from \<open>base\<close>.\<close>

function bsearch :: "'k :: linorder list \<Rightarrow> 'k \<Rightarrow> nat \<Rightarrow> nat \<Rightarrow> nat" where
  "bsearch ks k base win =
     (if win \<le> 1 then base
      else let half = win div 2; mid = base + half
           in bsearch ks k (if ks ! mid > k then base else mid) (win - half))"
  by pat_completeness auto

termination bsearch
  by (relation "measure (\<lambda>(ks, k, base, win). win)") auto

declare bsearch.simps [simp del]

definition binary_search :: "'k :: linorder list \<Rightarrow> 'k \<Rightarrow> nat option" where
  "binary_search ks k =
     (if ks = [] then None
      else let i = bsearch ks k 0 (length ks) in if ks ! i = k then Some i else None)"

definition row :: "string \<Rightarrow> pkg_row option" where
  "row canon = map_option (\<lambda>i. ROWS ! i) (binary_search (map fst ROWS) canon)"

definition known :: "string \<Rightarrow> bool" where
  "known canon \<longleftrightarrow> row canon \<noteq> None \<or> list_ex (\<lambda>r. fst r = canon) VERSION_ROWS"

fun row_col :: "Mgr \<Rightarrow> pkg_row \<Rightarrow> string" where
  "row_col Apt (c, apt, pacman, dnf, zypper) = apt"
| "row_col Pacman (c, apt, pacman, dnf, zypper) = pacman"
| "row_col Dnf (c, apt, pacman, dnf, zypper) = dnf"
| "row_col Zypper (c, apt, pacman, dnf, zypper) = zypper"

definition native_of :: "string \<Rightarrow> Mgr \<Rightarrow> string \<Rightarrow> string \<Rightarrow> string list option" where
  "native_of canon mgr distro version =
     (case find (\<lambda>(c, d, v, m, n). c = canon \<and> m = mgr \<and> d = distro \<and> version_prefix version v) VERSION_ROWS of
        Some (_, _, _, _, names) \<Rightarrow> Some (split_whitespace names)
      | None \<Rightarrow>
          let col = (case row canon of Some r \<Rightarrow> row_col mgr r | None \<Rightarrow> if mgr = Apt then ''='' else [])
          in if col = [] then None
             else if col = ''='' then Some [canon]
             else Some (split_whitespace col))"

fun sys_native :: "SysName \<Rightarrow> Mgr \<Rightarrow> string \<Rightarrow> string \<Rightarrow> string list option" where
  "sys_native (Native m name) mgr distro version = (if m = mgr then Some [name] else None)"
| "sys_native (Canonical c) mgr distro version = native_of c mgr distro version"

definition valid_native :: "string \<Rightarrow> bool" where
  "valid_native n \<longleftrightarrow> (case n of c # _ \<Rightarrow> is_ascii_alphanumeric c | [] \<Rightarrow> False) \<and> valid_package (to_ascii_lowercase n)"

section \<open>Virtual names\<close>

datatype Resolved = Same | Provider string | Ambiguous "string list" | Unknown

datatype showpkg_sec = SecNone | SecVersions | SecProvides | SecOther

record showpkg_state =
  sp_sec :: showpkg_sec
  sp_versions :: nat
  sp_providers :: "string list"

definition showpkg_line :: "showpkg_state \<Rightarrow> string \<Rightarrow> showpkg_state" where
  "showpkg_line st line =
     (let t = trim_end line in
      if ends_with t '':'' \<and> \<not> starts_with t '' '' then
        st \<lparr> sp_sec := (if t = ''Versions:'' then SecVersions
                       else if t = ''Reverse Provides:'' then SecProvides else SecOther) \<rparr>
      else if trim t = [] then st
      else (case sp_sec st of
              SecVersions \<Rightarrow> st \<lparr> sp_versions := sp_versions st + 1 \<rparr>
            | SecProvides \<Rightarrow>
                (case split_whitespace t of
                   n # _ \<Rightarrow> if valid_package n \<and> n \<notin> set (sp_providers st)
                              then st \<lparr> sp_providers := sp_providers st @ [n] \<rparr> else st
                 | [] \<Rightarrow> st)
            | _ \<Rightarrow> st))"

definition parse_apt_showpkg :: "string \<Rightarrow> Resolved" where
  "parse_apt_showpkg text0 =
     (let st = foldl showpkg_line \<lparr> sp_sec = SecNone, sp_versions = 0, sp_providers = [] \<rparr> (str_lines text0)
      in if sp_versions st > 0 then Same
         else (case sp_providers st of
                 [] \<Rightarrow> Unknown
               | [p] \<Rightarrow> Provider p
               | ps \<Rightarrow> Ambiguous (sort ps)))"

section \<open>Facts\<close>

lemma Mgr_parse_name [simp]: "Mgr_parse (mgr_name m) = Some m"
  by (cases m) (simp_all add: Mgr_parse_def Mgr_ALL_def)

lemma Mgr_parse_Some: "Mgr_parse s = Some m \<Longrightarrow> s = mgr_name m"
  by (auto simp: Mgr_parse_def Mgr_ALL_def split: if_splits)

lemma mgr_name_colon [simp]: "CHR '':'' \<notin> set (mgr_name m)"
  by (cases m) simp_all

lemma package_char_plain: "package_char c \<Longrightarrow> ascii_char c \<and> c \<noteq> CHR '':'' \<and> c \<noteq> CHR ''@''"
  by (auto simp: package_char_def ascii_char_def is_ascii_lowercase_def is_ascii_digit_def byte_def)

lemma valid_package_plain: "valid_package p \<Longrightarrow> list_all ascii_char p \<and> CHR '':'' \<notin> set p"
  using package_char_plain by (auto simp: valid_package_def list_all_iff)

fun valid_sysname :: "SysName \<Rightarrow> bool" where
  "valid_sysname (Canonical n) \<longleftrightarrow> valid_package n"
| "valid_sysname (Native mgr n) \<longleftrightarrow> valid_package n"

lemma SysName_round: "valid_sysname x \<Longrightarrow> SysName_parse (SysName_as_str x) = Some x"
proof (cases x)
  case (Canonical n)
  then show "valid_sysname x \<Longrightarrow> ?thesis"
    using valid_package_plain [of n] split_once_None_iff [of "CHR '':''" n] by (simp add: SysName_parse_def)
next
  case (Native mgr n)
  then show "valid_sysname x \<Longrightarrow> ?thesis"
    using split_once_append [of "CHR '':''" "mgr_name mgr" n] by (simp add: SysName_parse_def)
qed

lemma SysName_parse_valid: "SysName_parse s = Some x \<Longrightarrow> valid_sysname x \<and> SysName_as_str x = s"
  by (auto simp: SysName_parse_def split_once_Some_iff dest!: Mgr_parse_Some split: option.splits if_splits)

lemma bsearch_finds:
  assumes "sorted_wrt (<) ks" "i < length ks" "base \<le> i" "i < base + win" "base + win \<le> length ks"
  shows "bsearch ks (ks ! i) base win = i"
  using assms
proof (induction ks "ks ! i" base win rule: bsearch.induct)
  case (1 ks base win)
  show ?case
  proof (cases "win \<le> 1")
    case True
    then show ?thesis using 1 by (subst bsearch.simps) auto
  next
    case False
    let ?mid = "base + win div 2"
    have m: "?mid < length ks" using 1 False by linarith
    have o: "ks ! ?mid > ks ! i \<longleftrightarrow> i < ?mid"
      using sorted_wrt_nth_less [OF 1(2), of i ?mid] sorted_wrt_nth_less [OF 1(2), of ?mid i] 1(3) m
      by (metis linorder_neqE_nat order_less_asym order_less_irrefl)
    have "bsearch ks (ks ! i) (if ks ! ?mid > ks ! i then base else ?mid) (win - win div 2) = i"
      by (rule 1(1) [OF False refl refl 1(2,3)]) (use 1 False o in \<open>auto split: if_splits\<close>)
    then show ?thesis using False by (subst bsearch.simps) (simp add: Let_def)
  qed
qed

lemma bsearch_range: "0 < win \<Longrightarrow> bsearch ks k base win < base + win"
proof (induction ks k base win rule: bsearch.induct)
  case (1 ks k base win)
  show ?case
  proof (cases "win \<le> 1")
    case True
    then show ?thesis using 1 by (subst bsearch.simps) simp
  next
    case False
    let ?base = "if ks ! (base + win div 2) > k then base else base + win div 2"
    have "bsearch ks k ?base (win - win div 2) < ?base + (win - win div 2)"
      by (rule 1(1) [OF False refl refl]) (use False in linarith)
    then show ?thesis using False by (subst bsearch.simps) (auto simp: Let_def split: if_splits)
  qed
qed

lemma binary_search_find:
  assumes "sorted_wrt (<) (map f xs)"
  shows "map_option (\<lambda>i. xs ! i) (binary_search (map f xs) k) = find (\<lambda>x. f x = k) xs"
proof (cases "k \<in> f ` set xs")
  case True
  then obtain i where i: "i < length xs" "f (xs ! i) = k" by (metis imageE in_set_conv_nth)
  have "bsearch (map f xs) k 0 (length xs) = i"
    using bsearch_finds [OF assms, of i 0 "length xs"] i by simp
  then have b: "binary_search (map f xs) k = Some i" using i by (auto simp: binary_search_def)
  have "\<forall>j < i. f (xs ! j) \<noteq> k"
    using assms i by (metis length_map nth_map order_less_irrefl order_less_trans sorted_wrt_nth_less)
  then have "find (\<lambda>x. f x = k) xs = Some (xs ! i)" using i by (auto simp: find_Some_iff)
  then show ?thesis using b by simp
next
  case False
  then have "find (\<lambda>x. f x = k) xs = None" by (auto simp: find_None_iff)
  moreover have "binary_search (map f xs) k = None"
  proof (cases "xs = []")
    case False
    then have "bsearch (map f xs) k 0 (length xs) < length xs" using bsearch_range [of "length xs" "map f xs" k 0] by simp
    then show ?thesis using \<open>k \<notin> f ` set xs\<close> by (auto simp: binary_search_def Let_def) (metis imageI nth_mem)
  qed (simp add: binary_search_def)
  ultimately show ?thesis by simp
qed

lemma row_find: "row canon = find (\<lambda>r. fst r = canon) ROWS"
  unfolding row_def by (rule binary_search_find [OF rows_sorted])

end
