(* ===== verification/Profiles.thy ===== *)
theory Profiles
  imports Pkgmap
begin

text \<open>
  \<open>profiles.rs\<close>: the package profiles K2 ships, the newest version of a name, references with a
  version, and a profile's names and tools with those of the profiles it includes. The recursion over
  includes ends because the shipped profiles include only profiles that include nothing.
\<close>

section \<open>The shipped profiles\<close>

definition MAX_PLAN_PACKAGES :: nat where
  "MAX_PLAN_PACKAGES = 128"

definition PROFILE_UNKNOWN :: string where
  "PROFILE_UNKNOWN = ''profile_unknown''"

record Profile =
  p_name :: string
  p_version :: nat
  p_includes :: "string list"
  p_sys :: "string list"
  p_tools :: "string list"
  p_about :: string

definition BUILD_BASE :: "string list" where
  "BUILD_BASE = [''build-essential'', ''pkg-config'', ''cmake'', ''clang'', ''lld'', ''git'', ''curl'',
      ''ca-certificates'', ''unzip'', ''libssl-dev'']"

definition P_build_base :: Profile where
  "P_build_base = \<lparr> p_name = ''build-base'', p_version = 1, p_includes = [],
     p_sys = BUILD_BASE,
     p_tools = [],
     p_about = ''compilers and the common build tools'' \<rparr>"

definition P_tauri_linux :: Profile where
  "P_tauri_linux = \<lparr> p_name = ''tauri-linux'', p_version = 1, p_includes = [''build-base''],
     p_sys = [''libwebkit2gtk-4.1-dev'', ''libgtk-3-dev'', ''libayatana-appindicator3-dev'',
      ''librsvg2-dev'', ''libsoup-3.0-dev'', ''libjavascriptcoregtk-4.1-dev'', ''libxdo-dev'',
      ''llvm-dev'', ''libclang-dev'', ''python3'', ''libx11-dev'', ''libxcb1-dev'',
      ''libxkbcommon-dev'', ''libxkbcommon-x11-dev'', ''libwayland-dev'', ''libegl1-mesa-dev'',
      ''libgl1-mesa-dev'', ''libgles2-mesa-dev'', ''libfontconfig1-dev'', ''libfreetype6-dev'',
      ''libharfbuzz-dev'', ''libdbus-1-dev'', ''libudev-dev'', ''libunwind-dev'',
      ''libasound2-dev'', ''libgl1-mesa-dri'', ''mesa-vulkan-drivers'', ''xvfb'', ''libxtst6'',
      ''libx11-6'', ''libegl1'', ''libasound2t64'', ''libfontconfig1''],
     p_tools = [],
     p_about = ''build-base plus WebKitGTK, GTK and the GUI test set for Tauri apps on Linux'' \<rparr>"

definition P_rust_gui_ci :: Profile where
  "P_rust_gui_ci = \<lparr> p_name = ''rust-gui-ci'', p_version = 1, p_includes = [''build-base''],
     p_sys = [''llvm-dev'', ''libclang-dev'', ''libx11-dev'', ''libxcb1-dev'', ''libxkbcommon-dev'',
      ''libxkbcommon-x11-dev'', ''libwayland-dev'', ''libegl1-mesa-dev'', ''libgl1-mesa-dev'',
      ''libgles2-mesa-dev'', ''libfontconfig1-dev'', ''libfreetype6-dev'', ''libharfbuzz-dev'',
      ''libdbus-1-dev'', ''libudev-dev'', ''libunwind-dev'', ''libasound2-dev'',
      ''mesa-vulkan-drivers'', ''xvfb''],
     p_tools = [''rust@stable+clippy+rustfmt'', ''cargo-nextest''],
     p_about = ''build-base plus the X11/Wayland/GL/font/audio dev set, Rust with clippy and rustfmt, and nextest'' \<rparr>"

definition P_k2_workspace :: Profile where
  "P_k2_workspace = \<lparr> p_name = ''k2-workspace'', p_version = 1, p_includes = [''build-base''],
     p_sys = [''libasound2-dev'', ''libdbus-1-dev'', ''libudev-dev'', ''libgtk-3-dev'',
      ''libwebkit2gtk-4.1-dev'', ''libsoup-3.0-dev'', ''libjavascriptcoregtk-4.1-dev'',
      ''libayatana-appindicator3-dev'', ''librsvg2-dev'', ''libxdo-dev''],
     p_tools = [],
     p_about = ''what K2's own cargo --workspace build needs'' \<rparr>"

definition PROFILES :: "Profile list" where
  "PROFILES = [P_build_base, P_tauri_linux, P_rust_gui_ci, P_k2_workspace]"

section \<open>Lookup\<close>

definition latest :: "string \<Rightarrow> Profile option" where
  "latest name = max_by_key p_version (filter (\<lambda>p. p_name p = name) PROFILES)"

definition profile_get :: "string \<Rightarrow> nat option \<Rightarrow> Profile option" where
  "profile_get name version =
     (case version of
        None \<Rightarrow> latest name
      | Some v \<Rightarrow> find (\<lambda>p. p_name p = name \<and> p_version p = v) PROFILES)"

datatype profile_error = ProfileVersion | ProfileForm | ProfileVersionUnknown nat | ProfileUnknown

definition profile_char :: "char \<Rightarrow> bool" where
  "profile_char c \<longleftrightarrow> is_ascii_lowercase c \<or> is_ascii_digit c \<or> c = CHR ''-''"

definition parse_ref :: "string \<Rightarrow> profile_error + (string \<times> nat option)" where
  "parse_ref s =
     (case (case split_once (CHR ''@'') s of
              Some (n, v) \<Rightarrow>
                (case parse_unsigned (2 ^ 32 - 1) v of Some k \<Rightarrow> Inr (n, Some k) | None \<Rightarrow> Inl ProfileVersion)
            | None \<Rightarrow> Inr (s, None)) of
        Inl e \<Rightarrow> Inl e
      | Inr (n, v) \<Rightarrow>
          if n = [] \<or> length n > 40 \<or> \<not> list_all profile_char n then Inl ProfileForm else Inr (n, v))"

definition resolve :: "string \<Rightarrow> profile_error + Profile" where
  "resolve s =
     (case parse_ref s of
        Inl e \<Rightarrow> Inl e
      | Inr (n, v) \<Rightarrow>
          (case profile_get n v of
             Some p \<Rightarrow> Inr p
           | None \<Rightarrow> Inl (case v of
                 Some k \<Rightarrow> (case latest n of Some p \<Rightarrow> ProfileVersionUnknown (p_version p) | None \<Rightarrow> ProfileUnknown)
               | None \<Rightarrow> ProfileUnknown)))"

definition profile_names :: "string list" where
  "profile_names = dedup (map p_name PROFILES)"

definition profile_id :: "Profile \<Rightarrow> string" where
  "profile_id p = p_name p @ ''@'' @ digits_of (p_version p)"

section \<open>Names and tools with the included ones\<close>

lemma latest_mem: "latest n = Some p \<Longrightarrow> p \<in> set PROFILES"
  by (auto simp: latest_def dest!: max_by_key_in)

definition include_depth :: "Profile \<Rightarrow> nat" where
  "include_depth p = (if p_includes p = [] then 0 else if p \<in> set PROFILES then 1 else 2)"

lemma shipped_includes: "p \<in> set PROFILES \<Longrightarrow> n \<in> set (p_includes p) \<Longrightarrow> n = ''build-base''"
  by (auto simp: PROFILES_def P_build_base_def P_tauri_linux_def P_rust_gui_ci_def P_k2_workspace_def)

lemma latest_build_base: "latest ''build-base'' = Some P_build_base"
  by code_simp

lemma include_depth_less: "n \<in> set (p_includes p) \<Longrightarrow> latest n = Some q \<Longrightarrow> include_depth q < include_depth p"
proof -
  assume n: "n \<in> set (p_includes p)" and q: "latest n = Some q"
  have "include_depth q = 0" if "p \<in> set PROFILES"
    using shipped_includes [OF that n] q latest_build_base by (auto simp: include_depth_def P_build_base_def)
  then show ?thesis using n latest_mem [OF q] by (auto simp: include_depth_def)
qed

function all_sys :: "Profile \<Rightarrow> string list" where
  "all_sys p = dedup (sort
     (concat (map (\<lambda>n. case latest n of Some q \<Rightarrow> all_sys q | None \<Rightarrow> []) (p_includes p)) @ p_sys p))"
  by pat_completeness auto

termination all_sys
  by (relation "measure include_depth") (simp_all add: include_depth_less)

function all_tools :: "Profile \<Rightarrow> string list" where
  "all_tools p =
     (let out = concat (map (\<lambda>n. case latest n of Some q \<Rightarrow> all_tools q | None \<Rightarrow> []) (p_includes p))
      in out @ first_of_each out (p_tools p))"
  by pat_completeness auto

termination all_tools
  by (relation "measure include_depth") (simp_all add: include_depth_less)

declare all_sys.simps [simp del] all_tools.simps [simp del]

section \<open>Facts\<close>

lemma profile_char_plain: "profile_char c \<Longrightarrow> ascii_char c \<and> c \<noteq> CHR ''@''"
  by (auto simp: profile_char_def ascii_char_def is_ascii_lowercase_def is_ascii_digit_def byte_def)

definition valid_ref :: "string \<Rightarrow> nat option \<Rightarrow> bool" where
  "valid_ref n v \<longleftrightarrow> n \<noteq> [] \<and> length n \<le> 40 \<and> list_all profile_char n \<and> (\<forall>k. v = Some k \<longrightarrow> u32_ok k)"

lemma valid_ref_at: "valid_ref n v \<Longrightarrow> CHR ''@'' \<notin> set n"
  using profile_char_plain by (auto simp: valid_ref_def list_all_iff)

definition ref_str :: "string \<Rightarrow> nat option \<Rightarrow> string" where
  "ref_str n v = (case v of None \<Rightarrow> n | Some k \<Rightarrow> n @ ''@'' @ digits_of k)"

lemma parse_ref_str: "valid_ref n v \<Longrightarrow> parse_ref (ref_str n v) = Inr (n, v)"
proof -
  assume r: "valid_ref n v"
  show ?thesis
  proof (cases v)
    case None
    then show ?thesis using r valid_ref_at [OF r] split_once_None_iff [of "CHR ''@''" n]
      by (simp add: parse_ref_def ref_str_def valid_ref_def)
  next
    case (Some k)
    then have "parse_unsigned (2 ^ 32 - 1) (digits_of k) = Some k"
      using r by (intro parse_digits_of) (simp add: valid_ref_def u32_ok_def)
    then show ?thesis using r Some split_once_append [OF valid_ref_at [OF r], of "digits_of k"]
      by (simp add: parse_ref_def ref_str_def valid_ref_def)
  qed
qed

lemma parse_ref_valid: "parse_ref s = Inr (n, v) \<Longrightarrow> valid_ref n v"
  by (auto simp: parse_ref_def valid_ref_def u32_ok_def split: option.splits if_splits sum.splits prod.splits
      dest!: parse_unsigned_bound)

text \<open>A reference by a shipped profile's id names that profile.\<close>

lemma shipped_ids: "list_all (\<lambda>p. resolve (profile_id p) = Inr p \<and> latest (p_name p) = Some p) PROFILES"
  by code_simp

lemma all_sys_distinct: "distinct (all_sys p)"
  by (subst all_sys.simps) (simp add: distinct_dedup)

lemma all_sys_sorted: "sorted (all_sys p)"
  by (subst all_sys.simps) (metis dedup_strict sorted_sort strict_sorted_iff)

end
