(* ===== verification/Pkgpolicy.thy ===== *)
theory Pkgpolicy
  imports Profiles
begin

text \<open>
  \<open>pkgpolicy.rs\<close>: who may make a node install what. The levels and policies with the
  widening rule, the policy file, the deny list, the coverage of a name, the requests, and the
  arguments of the two admin verbs. The TOML and JSON readers are parameters.
\<close>

section \<open>Constants\<close>

definition POLICY_FILE :: string where "POLICY_FILE = ''/etc/k2-node-package-policy.toml''"
definition LOG_FILE :: string where "LOG_FILE = ''/var/log/k2-node/packages.log''"
definition FEATURE_PKG_STATUS :: string where "FEATURE_PKG_STATUS = ''pkg-status''"
definition FEATURE_PKG_REQUESTS :: string where "FEATURE_PKG_REQUESTS = ''pkg-requests''"
definition MAX_OPEN_PER_SERVER :: nat where "MAX_OPEN_PER_SERVER = 10"
definition REQUEST_TTL_SECS :: int where "REQUEST_TTL_SECS = 24 * 3600"
definition MAX_WHY :: nat where "MAX_WHY = 200"
definition MAX_REQUEST_NAMES :: nat where "MAX_REQUEST_NAMES = 128"
definition MAX_STATUS_NAMES :: nat where "MAX_STATUS_NAMES = 512"
definition DEFAULT_MAX_INSTALL_MB :: nat where "DEFAULT_MAX_INSTALL_MB = 2048"

definition PACKAGE_NOT_APPROVED :: string where [codes]:
  "PACKAGE_NOT_APPROVED = ''package_not_approved''"

definition NO_PACKAGE_MAPPING :: string where [codes]:
  "NO_PACKAGE_MAPPING = ''no_package_mapping''"

definition PACKAGE_AMBIGUOUS :: string where [codes]:
  "PACKAGE_AMBIGUOUS = ''package_ambiguous''"

definition PACKAGE_DENIED :: string where [codes]:
  "PACKAGE_DENIED = ''package_denied''"

definition PACKAGE_REMOVES :: string where [codes]:
  "PACKAGE_REMOVES = ''package_removes''"

definition PACKAGE_THIRD_PARTY :: string where [codes]:
  "PACKAGE_THIRD_PARTY = ''package_third_party''"

definition PACKAGE_TOO_BIG :: string where [codes]:
  "PACKAGE_TOO_BIG = ''package_too_big''"

definition PKG_SIGNING_OFF :: string where [codes]:
  "PKG_SIGNING_OFF = ''pkg_signing_off''"

definition INDEX_STALE :: string where [codes]:
  "INDEX_STALE = ''index_stale''"

definition PACKAGE_BUSY :: string where [codes]:
  "PACKAGE_BUSY = ''package_busy''"

definition PACKAGE_INSTALL_FAILED :: string where [codes]:
  "PACKAGE_INSTALL_FAILED = ''package_install_failed''"

definition TOO_MANY_PENDING :: string where [codes]:
  "TOO_MANY_PENDING = ''too_many_pending''"

definition REQUESTS_UNSUPPORTED :: string where [codes]:
  "REQUESTS_UNSUPPORTED = ''pkg_requests_unsupported''"

section \<open>Levels and policies\<close>

datatype Level = Level_List | Level_Profiles | Level_Official

fun level_rank :: "Level \<Rightarrow> nat" where
  "level_rank Level_List = 0"
| "level_rank Level_Profiles = 1"
| "level_rank Level_Official = 2"

instantiation Level :: linorder
begin

definition less_eq_Level :: "Level \<Rightarrow> Level \<Rightarrow> bool" where
  "less_eq_Level a b \<longleftrightarrow> level_rank a \<le> level_rank b"

definition less_Level :: "Level \<Rightarrow> Level \<Rightarrow> bool" where
  "less_Level a b \<longleftrightarrow> level_rank a < level_rank b"

instance
proof
  fix a b :: Level
  show "a \<le> b \<Longrightarrow> b \<le> a \<Longrightarrow> a = b" by (cases a; cases b) (simp_all add: less_eq_Level_def)
qed (auto simp: less_eq_Level_def less_Level_def)

end

fun Level_as_str :: "Level \<Rightarrow> string" where
  "Level_as_str Level_List = ''list''"
| "Level_as_str Level_Profiles = ''profiles''"
| "Level_as_str Level_Official = ''official''"

definition Level_parse :: "string \<Rightarrow> Level option" where
  "Level_parse s =
     (if trim s = ''list'' then Some Level_List
      else if trim s = ''profiles'' then Some Level_Profiles
      else if trim s = ''official'' then Some Level_Official
      else None)"

record ServerPolicy =
  sp_level :: Level
  sp_profiles :: "string list"
  sp_max_install_mb :: nat

definition policy_default :: ServerPolicy where
  "policy_default = \<lparr> sp_level = Level_List, sp_profiles = [], sp_max_install_mb = DEFAULT_MAX_INSTALL_MB \<rparr>"

definition own_default :: ServerPolicy where
  "own_default = policy_default \<lparr> sp_level := Level_Official \<rparr>"

definition team_default :: ServerPolicy where
  "team_default = policy_default \<lparr> sp_level := Level_Profiles,
     sp_profiles := map profile_id (List.map_filter latest profile_names) \<rparr>"

definition widened_by :: "ServerPolicy \<Rightarrow> ServerPolicy \<Rightarrow> bool" where
  "widened_by from0 to \<longleftrightarrow> sp_level to > sp_level from0 \<or> sp_max_install_mb to > sp_max_install_mb from0
     \<or> list_ex (\<lambda>p. p \<notin> set (sp_profiles from0)) (sp_profiles to)"

datatype policy_error = MbRange | PolicyRef profile_error | NotShipped string

fun check_profiles :: "string list \<Rightarrow> policy_error option" where
  "check_profiles [] = None"
| "check_profiles (p # ps) =
     (case parse_ref p of
        Inl e \<Rightarrow> Some (PolicyRef e)
      | Inr (n, v) \<Rightarrow> if profile_get n v = None then Some (NotShipped p) else check_profiles ps)"

definition policy_check :: "ServerPolicy \<Rightarrow> policy_error option" where
  "policy_check p =
     (if \<not> (1 \<le> sp_max_install_mb p \<and> sp_max_install_mb p \<le> 65536) then Some MbRange
      else check_profiles (sp_profiles p))"

text \<open>The sign before the size is U+2264 in UTF-8.\<close>

definition policy_summary :: "ServerPolicy \<Rightarrow> string" where
  "policy_summary s =
     (let p = (if sp_profiles s = [] \<or> sp_level s = Level_List then []
               else '' ('' @ join_with '', '' (sp_profiles s) @ '')'')
      in Level_as_str (sp_level s) @ p @ '', '' @ [CHR 0xE2, CHR 0x89, CHR 0xA4] @ '' ''
         @ digits_of (sp_max_install_mb s) @ '' MB per request'')"

section \<open>The policy file\<close>

record ServerLine =
  sv_fp :: string
  sv_policy :: ServerPolicy

record PolicyFile =
  pf_own :: "ServerPolicy option"
  pf_servers :: "(string, ServerLine) btree"

definition PolicyFile_default :: PolicyFile where
  "PolicyFile_default = \<lparr> pf_own = None, pf_servers = [] \<rparr>"

text \<open>The TOML library: reading a text, a key, a table, a policy and a server's line.\<close>

record 't Toml =
  tm_parse :: "string \<Rightarrow> 't option"
  tm_get :: "'t \<Rightarrow> string \<Rightarrow> 't option"
  tm_table :: "'t \<Rightarrow> (string \<times> 't) list option"
  tm_policy :: "'t \<Rightarrow> ServerPolicy option"
  tm_line :: "'t \<Rightarrow> ServerLine option"

datatype file_error = FileToml | FileTables | FileForm string | FilePolicy string policy_error | FileFp string

definition is_ascii_hexdigit :: "char \<Rightarrow> bool" where
  "is_ascii_hexdigit c \<longleftrightarrow> is_ascii_digit c \<or> (97 \<le> byte c \<and> byte c \<le> 102) \<or> (65 \<le> byte c \<and> byte c \<le> 70)"

fun policy_lines :: "'t Toml \<Rightarrow> (string \<times> 't) list \<Rightarrow> PolicyFile \<Rightarrow> file_error + PolicyFile" where
  "policy_lines tm [] out = Inr out"
| "policy_lines tm ((k, v) # rest) out =
     (if k = ''own'' then
        (case tm_policy tm v of
           None \<Rightarrow> Inl (FileForm k)
         | Some p \<Rightarrow>
             (case policy_check p of
                Some e \<Rightarrow> Inl (FilePolicy k e)
              | None \<Rightarrow> policy_lines tm rest (out \<lparr> pf_own := Some p \<rparr>)))
      else
        (case tm_line tm v of
           None \<Rightarrow> Inl (FileForm k)
         | Some l \<Rightarrow>
             if length (sv_fp l) < 16 \<or> \<not> list_all is_ascii_hexdigit (sv_fp l) then Inl (FileFp k)
             else (case policy_check (sv_policy l) of
                     Some e \<Rightarrow> Inl (FilePolicy k e)
                   | None \<Rightarrow> policy_lines tm rest (out \<lparr> pf_servers := bt_insert k l (pf_servers out) \<rparr>))))"

definition PolicyFile_parse :: "'t Toml \<Rightarrow> string \<Rightarrow> file_error + PolicyFile" where
  "PolicyFile_parse tm text0 =
     (case tm_parse tm text0 of
        None \<Rightarrow> Inl FileToml
      | Some t \<Rightarrow>
          (case tm_get tm t ''servers'' of
             None \<Rightarrow> Inr PolicyFile_default
           | Some s \<Rightarrow>
               (case tm_table tm s of
                  None \<Rightarrow> Inl FileTables
                | Some servers \<Rightarrow> policy_lines tm servers PolicyFile_default)))"

definition nl :: string where
  "nl = [CHR 0x0A]"

definition quote_str :: "string \<Rightarrow> string" where
  "quote_str s = [CHR 0x22] @ s @ [CHR 0x22]"

definition policy_block :: "string \<Rightarrow> string option \<Rightarrow> ServerPolicy \<Rightarrow> string" where
  "policy_block head0 fp p =
     nl @ ''[servers.'' @ head0 @ '']'' @ nl
     @ (case fp of Some f \<Rightarrow> ''fp = '' @ quote_str f @ nl | None \<Rightarrow> [])
     @ ''level = '' @ quote_str (Level_as_str (sp_level p)) @ nl
     @ (if sp_profiles p \<noteq> [] then ''profiles = ['' @ join_with '', '' (map quote_str (sp_profiles p)) @ '']'' @ nl else [])
     @ ''max_install_mb = '' @ digits_of (sp_max_install_mb p) @ nl"

definition policy_head :: string where
  "policy_head =
     ''# Which system packages each server's compute jobs may install on this'' @ nl
     @ ''# node without asking (root's file). Edit with: sudo k2-node packages policy ''
       @ [CHR 0xE2, CHR 0x80, CHR 0xA6] @ nl
     @ ''# level = list | profiles | official (official = the distro's signed repos,'' @ nl
     @ ''# minus K2's deny list). Anything else becomes a request to this node's owner.'' @ nl"

definition PolicyFile_render :: "PolicyFile \<Rightarrow> string" where
  "PolicyFile_render f =
     policy_head
     @ (case pf_own f of Some o1 \<Rightarrow> policy_block ''own'' None o1 | None \<Rightarrow> [])
     @ concat (map (\<lambda>(k, l). policy_block
         (quote_str (filter (\<lambda>c. c \<notin> {CHR 0x22, CHR 0x5C, CHR 0x0A}) k)) (Some (sv_fp l)) (sv_policy l)) (pf_servers f))"

definition for_server :: "PolicyFile \<Rightarrow> bool \<Rightarrow> string \<Rightarrow> ServerPolicy" where
  "for_server f is_owner server_fp =
     (if is_owner then unwrap_or (pf_own f) policy_default
      else case find (\<lambda>(k, l). server_fp \<noteq> []
             \<and> (starts_with server_fp (sv_fp l) \<or> starts_with (sv_fp l) server_fp)) (pf_servers f) of
        Some (k, l) \<Rightarrow> sv_policy l
      | None \<Rightarrow> policy_default)"

section \<open>The deny list\<close>

definition DENY :: "string list" where
  "DENY =
     [''linux'', ''linux-image-*'', ''linux-headers-*'', ''linux-generic*'', ''linux-modules-*'',
      ''linux-lts'', ''linux-zen'', ''linux-hardened'', ''linux-firmware*'', ''kernel'',
      ''kernel-core'', ''kernel-default*'', ''kernel-modules*'', ''grub*'', ''grub2*'', ''shim*'',
      ''systemd-boot*'', ''efibootmgr'', ''limine'', ''refind'', ''syslinux'', ''mkinitcpio'',
      ''dracut*'', ''initramfs-tools*'', ''systemd'', ''systemd-sysv'', ''init'', ''sysvinit*'',
      ''openrc'', ''runit'', ''base'', ''base-files'', ''filesystem'', ''glibc'', ''libc6'',
      ''libc-bin'', ''coreutils'', ''bash'', ''dash'', ''util-linux'', ''apt'', ''dpkg'', ''pacman'',
      ''dnf'', ''rpm'', ''zypper'', ''sudo'', ''doas'', ''opendoas'', ''polkit*'', ''policykit*'',
      ''pam'', ''libpam*'', ''pam-*'', ''shadow'', ''passwd'', ''login'', ''accountsservice'',
      ''openssh'', ''openssh-server'', ''ssh'', ''dropbear*'', ''telnetd'', ''network-manager*'',
      ''networkmanager*'', ''netplan*'', ''ifupdown*'', ''systemd-networkd'', ''iwd'',
      ''wpa_supplicant'', ''dhcpcd'', ''ufw'', ''firewalld'', ''iptables-persistent'', ''nftables'',
      ''netfilter-persistent'', ''tailscale'', ''wireguard*'', ''openvpn'', ''docker*'',
      ''containerd*'', ''podman*'', ''runc'', ''crun'', ''cri-o'', ''lxc*'', ''lxd*'', ''incus*'',
      ''libvirt*'', ''qemu-system*'', ''virtualbox*'', ''gdm'', ''gdm3'', ''sddm'', ''lightdm*'',
      ''xdm'', ''lxdm'', ''greetd'', ''apache2*'', ''httpd'', ''nginx*'', ''lighttpd'',
      ''mysql-server*'', ''mariadb-server*'', ''mariadb'', ''postgresql'', ''postgresql-1*'',
      ''postgresql-server*'', ''redis-server'', ''redis'', ''valkey'', ''mongodb*'', ''memcached'',
      ''rabbitmq-server'', ''bind9'', ''bind'', ''dnsmasq'', ''unbound'', ''postfix'', ''exim4*'',
      ''sendmail'', ''dovecot*'', ''cups'', ''cups-daemon'', ''avahi*'', ''samba'',
      ''nfs-kernel-server'', ''nfs-utils'', ''vsftpd'', ''proftpd*'', ''cron'', ''cronie'',
      ''anacron'', ''at'', ''snapd'', ''flatpak'', ''unattended-upgrades'', ''packagekit*'']"

definition deny_match :: "string \<Rightarrow> string \<Rightarrow> bool" where
  "deny_match n d = (case strip_suffix ''*'' d of Some prefix \<Rightarrow> starts_with n prefix | None \<Rightarrow> n = d)"

definition denied :: "string \<Rightarrow> string option" where
  "denied name = find (deny_match (to_ascii_lowercase name)) DENY"

section \<open>Coverage\<close>

datatype Coverage = Listed | InProfile string | OfficialRepo | Denied string | Ask

fun covered :: "Coverage \<Rightarrow> bool" where
  "covered Listed = True"
| "covered (InProfile i) = True"
| "covered OfficialRepo = True"
| "covered (Denied d) = False"
| "covered Ask = False"

definition find_map :: "('a \<Rightarrow> 'b option) \<Rightarrow> 'a list \<Rightarrow> 'b option" where
  "find_map f xs = (case List.map_filter f xs of y # _ \<Rightarrow> Some y | [] \<Rightarrow> None)"

definition profile_covers :: "string \<Rightarrow> string \<Rightarrow> string option" where
  "profile_covers name p =
     (case parse_ref p of
        Inl _ \<Rightarrow> None
      | Inr (n, v) \<Rightarrow>
          (case profile_get n v of
             None \<Rightarrow> None
           | Some pr \<Rightarrow> if name \<in> set (all_sys pr) then Some (profile_id pr) else None))"

definition coverage :: "ServerPolicy \<Rightarrow> string list \<Rightarrow> string \<Rightarrow> string list \<Rightarrow> Coverage" where
  "coverage policy approved name natives =
     (case or_else (denied name) (find_map denied natives) of
        Some d \<Rightarrow> Denied d
      | None \<Rightarrow>
          if name \<in> set approved then Listed
          else case (if sp_level policy \<ge> Level_Profiles then find_map (profile_covers name) (sp_profiles policy) else None) of
            Some i \<Rightarrow> InProfile i
          | None \<Rightarrow> if sp_level policy = Level_Official then OfficialRepo else Ask)"

section \<open>The offer and the requests\<close>

record PkgStatus =
  ps_manager :: string
  ps_level :: Level
  ps_profiles :: "string list"
  ps_max_install_mb :: nat
  ps_approved :: "string list"
  ps_installed :: "string list"
  ps_index_age_secs :: "nat option"
  ps_open_requests :: nat

definition status_policy :: "PkgStatus \<Rightarrow> ServerPolicy" where
  "status_policy s = \<lparr> sp_level = ps_level s, sp_profiles = ps_profiles s, sp_max_install_mb = ps_max_install_mb s \<rparr>"

record PkgRequest =
  pr_id :: string
  pr_names :: "string list"
  pr_job_id :: "string option"
  pr_why :: "string option"
  pr_asked_by :: string

record DrySummary =
  dr_installs :: "string list"
  dr_size_mb :: "nat option"
  dr_resolved :: "string list"
  dr_already :: "string list"
  dr_refusal :: "string option"

record PkgRequestFwd =
  fw_id :: string
  fw_server :: string
  fw_server_request :: string
  fw_names :: "string list"
  fw_natives :: "(string, string list) btree"
  fw_job_id :: "string option"
  fw_why :: "string option"
  fw_asked_by :: string
  fw_host :: string
  fw_dry :: "DrySummary option"
  fw_created_at :: int
  fw_expires_at :: int

record PkgRequestDecide =
  rd_id :: string
  rd_note :: "string option"

definition REQUEST_PENDING :: string where [codes]:
  "REQUEST_PENDING = ''pending''"

definition REQUEST_INSTALLED :: string where [codes]:
  "REQUEST_INSTALLED = ''installed''"

definition REQUEST_DENIED :: string where [codes]:
  "REQUEST_DENIED = ''denied''"

definition REQUEST_FAILED :: string where [codes]:
  "REQUEST_FAILED = ''failed''"

definition REQUEST_EXPIRED :: string where [codes]:
  "REQUEST_EXPIRED = ''expired''"

record PkgRequestDone =
  do_server_request :: string
  do_state :: string
  do_note :: "string option"
  do_installed :: "string list"
  do_owner :: string

datatype request_error = RequestCount | RequestProfile profile_error | RequestName string | RequestWhy

definition unsys :: "string \<Rightarrow> string" where
  "unsys n = unwrap_or (strip_prefix ''sys:'' n) n"

definition check_name :: "string \<Rightarrow> request_error option" where
  "check_name n =
     (case strip_prefix ''profile:'' n of
        Some p \<Rightarrow> (case resolve p of Inl e \<Rightarrow> Some (RequestProfile e) | Inr _ \<Rightarrow> None)
      | None \<Rightarrow> if SysName_parse (unsys n) = None then Some (RequestName n) else None)"

definition check_request :: "string list \<Rightarrow> string option \<Rightarrow> request_error option" where
  "check_request names why =
     (if names = [] \<or> length names > MAX_REQUEST_NAMES then Some RequestCount
      else case find_map check_name names of
        Some e \<Rightarrow> Some e
      | None \<Rightarrow>
          (case why of
             Some w \<Rightarrow> if length (chars w) > MAX_WHY \<or> list_ex is_control (chars w) then Some RequestWhy else None
           | None \<Rightarrow> None))"

fun expand_all :: "string list \<Rightarrow> profile_error + string list" where
  "expand_all [] = Inr []"
| "expand_all (n # ns) =
     (case (case strip_prefix ''profile:'' n of
              Some p \<Rightarrow> (case resolve p of Inl e \<Rightarrow> Inl e | Inr pr \<Rightarrow> Inr (all_sys pr))
            | None \<Rightarrow> Inr [unsys n]) of
        Inl e \<Rightarrow> Inl e
      | Inr xs \<Rightarrow> (case expand_all ns of Inl e \<Rightarrow> Inl e | Inr ys \<Rightarrow> Inr (xs @ ys)))"

definition expand_names :: "string list \<Rightarrow> profile_error + string list" where
  "expand_names names = (case expand_all names of Inl e \<Rightarrow> Inl e | Inr out \<Rightarrow> Inr (first_of_each [] out))"

section \<open>Arguments of the admin verbs\<close>

record AllowArgs =
  al_package :: "string option"
  al_packages :: "string list"
  al_install :: bool
  al_add :: bool
  al_request :: "string option"

definition allow_names :: "AllowArgs \<Rightarrow> string list" where
  "allow_names a = (case al_package a of Some p \<Rightarrow> [p] | None \<Rightarrow> []) @ al_packages a"

datatype allow_error = AllowNotParsed | AllowBoth | AllowCount | AllowName string | AllowOldForm | AllowWhat | AllowRequestId

definition check_allow_args :: "('v \<Rightarrow> AllowArgs option) \<Rightarrow> 'v \<Rightarrow> allow_error + AllowArgs" where
  "check_allow_args read0 args =
     (case read0 args of
        None \<Rightarrow> Inl AllowNotParsed
      | Some a \<Rightarrow>
          if al_package a \<noteq> None \<and> al_packages a \<noteq> [] then Inl AllowBoth
          else if allow_names a = [] \<or> length (allow_names a) > MAX_REQUEST_NAMES then Inl AllowCount
          else case find (\<lambda>n. SysName_parse n = None) (allow_names a) of
            Some n \<Rightarrow> Inl (AllowName n)
          | None \<Rightarrow>
              if al_package a \<noteq> None \<and> (al_install a \<or> al_add a \<or> al_request a \<noteq> None) then Inl AllowOldForm
              else if \<not> al_install a \<and> \<not> al_add a \<and> al_package a = None then Inl AllowWhat
              else if (case al_request a of
                         None \<Rightarrow> False
                       | Some r \<Rightarrow> r = [] \<or> length r > 64 \<or> \<not> list_all (\<lambda>c. is_ascii_alphanumeric c \<or> c \<in> set ''_-'') r)
                then Inl AllowRequestId
              else Inr a)"

record PolicyArgs =
  pa_server :: string
  pa_level :: "Level option"
  pa_profiles :: "string list option"
  pa_max_install_mb :: "nat option"

definition pin_newest :: "string \<Rightarrow> string" where
  "pin_newest x =
     (case parse_ref x of
        Inr (n, None) \<Rightarrow> (case latest n of Some p \<Rightarrow> profile_id p | None \<Rightarrow> x)
      | _ \<Rightarrow> x)"

definition policy_apply :: "PolicyArgs \<Rightarrow> ServerPolicy \<Rightarrow> ServerPolicy" where
  "policy_apply a current =
     \<lparr> sp_level = unwrap_or (pa_level a) (sp_level current),
       sp_profiles = (case pa_profiles a of Some pr \<Rightarrow> map pin_newest pr | None \<Rightarrow> sp_profiles current),
       sp_max_install_mb = unwrap_or (pa_max_install_mb a) (sp_max_install_mb current) \<rparr>"

datatype policy_args_error = ArgsNotParsed | ArgsServer | ArgsNothing | ArgsCheck policy_error

definition check_policy_args :: "('v \<Rightarrow> PolicyArgs option) \<Rightarrow> 'v \<Rightarrow> policy_args_error + PolicyArgs" where
  "check_policy_args read0 args =
     (case read0 args of
        None \<Rightarrow> Inl ArgsNotParsed
      | Some a \<Rightarrow>
          if pa_server a = [] \<or> length (pa_server a) > 253
             \<or> list_ex (\<lambda>c. is_control c \<or> c = 34 \<or> c = 92) (chars (pa_server a)) then Inl ArgsServer
          else if pa_level a = None \<and> pa_profiles a = None \<and> pa_max_install_mb a = None then Inl ArgsNothing
          else case policy_check (policy_apply a policy_default) of
            Some e \<Rightarrow> Inl (ArgsCheck e)
          | None \<Rightarrow> Inr a)"

end
