(* ===== verification/Pkg_Rules.thy ===== *)
theory Pkg_Rules
  imports Pkgpolicy
begin

text \<open>
  The rules of packages: what is covered and that narrowing a policy never covers more, that a
  denied name never installs, that a checked request expands to valid names, that a checked change
  keeps a policy valid, and that the shipped profiles map on every package manager.
\<close>

section \<open>Coverage\<close>

lemma find_map_None: "find_map f xs = None \<longleftrightarrow> (\<forall>x \<in> set xs. f x = None)"
  by (induction xs) (auto simp: find_map_def List.map_filter_simps split: option.splits)

lemma find_map_Some: "find_map f xs = Some y \<Longrightarrow> \<exists>x \<in> set xs. f x = Some y"
  by (induction xs) (auto simp: find_map_def List.map_filter_simps split: option.splits)

lemma denied_or: "or_else (denied name) (find_map denied natives) = None \<longleftrightarrow>
    denied name = None \<and> (\<forall>n \<in> set natives. denied n = None)"
  by (cases "denied name") (simp_all add: find_map_None)

lemma covered_iff:
  "covered (coverage p approved name natives) \<longleftrightarrow>
     denied name = None \<and> (\<forall>n \<in> set natives. denied n = None)
     \<and> (name \<in> set approved
        \<or> (sp_level p \<ge> Level_Profiles \<and> (\<exists>q \<in> set (sp_profiles p). profile_covers name q \<noteq> None))
        \<or> sp_level p = Level_Official)"
proof (cases "or_else (denied name) (find_map denied natives)")
  case (Some d)
  then have "coverage p approved name natives = Denied d" by (simp add: coverage_def)
  moreover have "\<not> (denied name = None \<and> (\<forall>n \<in> set natives. denied n = None))"
    unfolding denied_or [symmetric] Some by simp
  ultimately show ?thesis by (simp only: covered.simps) blast
next
  case None
  have f: "find_map (profile_covers name) (sp_profiles p) \<noteq> None
      \<longleftrightarrow> (\<exists>q \<in> set (sp_profiles p). profile_covers name q \<noteq> None)"
    unfolding find_map_None by simp
  let ?c = "if sp_level p \<ge> Level_Profiles then find_map (profile_covers name) (sp_profiles p) else None"
  have "covered (coverage p approved name natives) \<longleftrightarrow> name \<in> set approved \<or> ?c \<noteq> None \<or> sp_level p = Level_Official"
    using None by (simp add: coverage_def split: option.split)
  also have "?c \<noteq> None \<longleftrightarrow> sp_level p \<ge> Level_Profiles \<and> (\<exists>q \<in> set (sp_profiles p). profile_covers name q \<noteq> None)"
    unfolding f [symmetric] by simp
  finally show ?thesis using None denied_or [of name natives] by metis
qed

text \<open>C24: the deny list is absolute: a package the list names, or one that would install as a denied native
  package, is covered by no policy, no profile and no approved list.\<close>

theorem denied_never_covered:
  assumes "denied name \<noteq> None \<or> (\<exists>n \<in> set natives. denied n \<noteq> None)"
  shows "\<not> covered (coverage policy approved name natives)
    \<and> (\<exists>d \<in> set DENY. coverage policy approved name natives = Denied d)"
proof -
  obtain d where d: "or_else (denied name) (find_map denied natives) = Some d"
    using assms denied_or [of name natives] by (metis not_None_eq)
  have "d \<in> set DENY"
  proof (cases "denied name")
    case None
    then obtain n where "denied n = Some d" using d find_map_Some [of denied natives d] by auto
    then show ?thesis by (auto simp: denied_def dest: find_Some_iff')
  next
    case (Some e)
    then show ?thesis using d by (auto simp: denied_def dest: find_Some_iff')
  qed
  then show ?thesis using d by (simp add: coverage_def)
qed

theorem denied_never_covered_witness:
  "\<not> covered (coverage own_default [''openssh-server''] ''openssh-server'' [''openssh-server''])"
proof -
  have h: "denied ''openssh-server'' \<noteq> None" by code_simp
  show ?thesis using denied_never_covered [OF disjI1 [OF h]] by blast
qed

text \<open>A change that widens nothing covers nothing new: whatever installs without asking under the new policy
  did so under the old one, for every list of approved names, and the size cap does not grow.\<close>

theorem narrowing_covers_no_more:
  assumes "\<not> widened_by old new" "covered (coverage new approved name natives)"
  shows "covered (coverage old approved name natives) \<and> sp_max_install_mb new \<le> sp_max_install_mb old"
proof -
  have n: "sp_level new \<le> sp_level old" "sp_max_install_mb new \<le> sp_max_install_mb old"
    "set (sp_profiles new) \<subseteq> set (sp_profiles old)"
    using assms(1) by (auto simp: widened_by_def list_ex_iff)
  have "Level_Official \<le> l \<Longrightarrow> l = Level_Official" for l by (cases l) (simp_all add: less_eq_Level_def)
  then show ?thesis using assms(2) n unfolding covered_iff by (metis order_trans subsetD)
qed

theorem narrowing_covers_no_more_witness:
  "covered (coverage team_default [] ''cmake'' [''cmake''])"
proof -
  have h: "\<not> widened_by team_default (team_default \<lparr> sp_profiles := [''build-base@1''], sp_max_install_mb := 100 \<rparr>)"
    "covered (coverage (team_default \<lparr> sp_profiles := [''build-base@1''], sp_max_install_mb := 100 \<rparr>) [] ''cmake'' [''cmake''])"
    by code_simp+
  show ?thesis using narrowing_covers_no_more [OF h] by blast
qed

section \<open>Changing a policy\<close>

text \<open>C38: a checked \<open>packages.policy\<close> change keeps a valid policy valid, whatever the server's current
  policy is: the size stays in range and every profile is one K2 ships.\<close>

theorem policy_change_keeps_valid:
  assumes "check_policy_args read0 args = Inr a" "policy_check current = None"
  shows "policy_check (policy_apply a current) = None"
proof -
  have d: "policy_check (policy_apply a policy_default) = None"
    using assms(1) by (auto simp: check_policy_args_def split: option.splits if_splits)
  show ?thesis using d assms(2)
    by (cases "pa_profiles a"; cases "pa_max_install_mb a")
      (auto simp: policy_check_def policy_apply_def policy_default_def split: if_splits)
qed

definition ex_policy_args :: PolicyArgs where
  "ex_policy_args = \<lparr> pa_server = ''own'', pa_level = None, pa_profiles = Some [''tauri-linux'', ''build-base@1''],
     pa_max_install_mb = None \<rparr>"

theorem policy_change_keeps_valid_witness:
  "policy_check (policy_apply ex_policy_args team_default) = None
   \<and> sp_profiles (policy_apply ex_policy_args team_default) = [''tauri-linux@1'', ''build-base@1'']"
proof -
  have h: "check_policy_args Some ex_policy_args = Inr ex_policy_args" "policy_check team_default = None" by code_simp+
  have p: "sp_profiles (policy_apply ex_policy_args team_default) = [''tauri-linux@1'', ''build-base@1'']" by code_simp
  show ?thesis using policy_change_keeps_valid [OF h] p by blast
qed

section \<open>The shipped profiles\<close>

lemma set_all_sys: "set (all_sys p) = set (p_sys p)
    \<union> (\<Union>n \<in> set (p_includes p). case latest n of Some q \<Rightarrow> set (all_sys q) | None \<Rightarrow> {})"
  by (subst all_sys.simps) (auto split: option.splits)

lemma all_sys_from_shipped:
  "p \<in> set PROFILES \<Longrightarrow> set (all_sys p) \<subseteq> set (concat (map p_sys PROFILES))"
proof (induction p rule: all_sys.induct)
  case (1 p)
  have "set (all_sys q) \<subseteq> set (concat (map p_sys PROFILES))" if "n \<in> set (p_includes p)" "latest n = Some q" for n q
    using 1(1) [OF that] latest_mem [OF that(2)] by blast
  then show ?case using 1(2) unfolding set_all_sys [of p] by (fastforce split: option.splits)
qed

lemma shipped_valid: "list_all valid_package (concat (map p_sys PROFILES))"
  by code_simp

definition shipped1 :: "string list" where
  "shipped1 =
     [''build-essential'', ''cmake'', ''clang'', ''git'', ''curl'', ''ca-certificates'',
      ''libayatana-appindicator3-dev'', ''libclang-dev'', ''libegl1-mesa-dev'',
      ''libfontconfig1-dev'', ''libfreetype6-dev'', ''libdbus-1-dev'', ''libasound2-dev'',
      ''libegl1'', ''libasound2t64'', ''libfontconfig1'']"

lemma shipped1_rows: "set shipped1 \<subseteq> set (map fst ROWS1)"
  by (simp add: shipped1_def ROWS1_def)

definition shipped2 :: "string list" where
  "shipped2 =
     [''libssl-dev'', ''libwebkit2gtk-4.1-dev'', ''libgtk-3-dev'', ''librsvg2-dev'',
      ''libsoup-3.0-dev'', ''libjavascriptcoregtk-4.1-dev'', ''libwayland-dev'',
      ''libgl1-mesa-dev'', ''libgles2-mesa-dev'', ''libharfbuzz-dev'', ''libudev-dev'',
      ''libunwind-dev'', ''libgl1-mesa-dri'', ''libx11-6'']"

lemma shipped2_rows: "set shipped2 \<subseteq> set (map fst ROWS2)"
  by (simp add: shipped2_def ROWS2_def)

definition shipped3 :: "string list" where
  "shipped3 =
     [''pkg-config'', ''lld'', ''unzip'', ''libxdo-dev'', ''llvm-dev'', ''python3'',
      ''libx11-dev'', ''libxcb1-dev'', ''libxkbcommon-dev'', ''libxkbcommon-x11-dev'',
      ''mesa-vulkan-drivers'', ''xvfb'', ''libxtst6'']"

lemma shipped3_rows: "set shipped3 \<subseteq> set (map fst ROWS3)"
  by (simp add: shipped3_def ROWS3_def)

lemma shipped_names: "set (concat (map p_sys PROFILES)) \<subseteq> set shipped1 \<union> set shipped2 \<union> set shipped3"
  by (simp add: PROFILES_def P_build_base_def P_tauri_linux_def P_rust_gui_ci_def P_k2_workspace_def BUILD_BASE_def
      shipped1_def shipped2_def shipped3_def)

lemma rows_full: "list_all (\<lambda>r. list_all (\<lambda>m. row_col m r \<noteq> []) Mgr_ALL) ROWS"
  by code_simp

lemma shipped_mapped:
  "n \<in> set (concat (map p_sys PROFILES)) \<Longrightarrow> \<exists>r. row n = Some r \<and> list_all (\<lambda>m. row_col m r \<noteq> []) Mgr_ALL"
proof -
  assume "n \<in> set (concat (map p_sys PROFILES))"
  then have "n \<in> set (map fst ROWS)"
    using shipped_names shipped1_rows shipped2_rows shipped3_rows unfolding ROWS_def map_append set_append by blast
  then obtain r0 where "r0 \<in> set ROWS" "fst r0 = n" unfolding set_map by blast
  then have "find (\<lambda>r. fst r = n) ROWS \<noteq> None" unfolding find_None_iff by blast
  then obtain r where r: "find (\<lambda>r. fst r = n) ROWS = Some r" by blast
  then have "r \<in> set ROWS" by (metis find_Some_iff')
  then show ?thesis using r rows_full unfolding row_find list_all_iff by blast
qed

lemma native_of_row:
  "row n = Some r \<Longrightarrow> row_col m r \<noteq> [] \<Longrightarrow> native_of n m d v \<noteq> None"
  by (auto simp: native_of_def Let_def split: option.splits)

text \<open>Every system package of every profile K2 ships (with the profiles it includes) has a name on every package
  manager and every distribution, and looking a name up by binary search is the same as scanning the table.\<close>

theorem profiles_map_everywhere:
  "(\<forall>p \<in> set PROFILES. \<forall>n \<in> set (all_sys p). \<forall>m d v. sys_native (Canonical n) m d v \<noteq> None)
   \<and> row canon = find (\<lambda>r. fst r = canon) ROWS"
proof (intro conjI ballI allI)
  fix p n m d v
  assume "p \<in> set PROFILES" "n \<in> set (all_sys p)"
  then have "n \<in> set (concat (map p_sys PROFILES))" using all_sys_from_shipped by blast
  then obtain r where "row n = Some r" "list_all (\<lambda>m. row_col m r \<noteq> []) Mgr_ALL" using shipped_mapped by blast
  moreover have "m \<in> set Mgr_ALL" by (cases m) (simp_all add: Mgr_ALL_def)
  ultimately show "sys_native (Canonical n) m d v \<noteq> None"
    using native_of_row by (simp add: list_all_iff)
qed (rule row_find)

theorem profiles_map_everywhere_witness:
  "sys_native (Canonical ''libssl-dev'') Pacman ''arch'' ''rolling'' \<noteq> None"
proof -
  have h: "P_build_base \<in> set PROFILES" "''libssl-dev'' \<in> set (all_sys P_build_base)" by code_simp+
  show ?thesis using conjunct1 [OF profiles_map_everywhere] h by blast
qed

section \<open>Requests\<close>

lemma resolve_shipped: "resolve s = Inr p \<Longrightarrow> p \<in> set PROFILES"
  by (auto simp: resolve_def profile_get_def latest_mem split: sum.splits option.splits prod.splits
      dest!: find_Some_iff' latest_mem)

lemma valid_package_SysName: "valid_package n \<Longrightarrow> SysName_parse n = Some (Canonical n)"
  using SysName_round [of "Canonical n"] by simp

lemma expand_all_checked:
  "\<forall>n \<in> set names. check_name n = None \<Longrightarrow>
     \<exists>xs. expand_all names = Inr xs \<and> (\<forall>x \<in> set xs. SysName_parse x \<noteq> None)"
proof (induction names)
  case (Cons n ns)
  then obtain xs where xs: "expand_all ns = Inr xs" "\<forall>x \<in> set xs. SysName_parse x \<noteq> None" by auto
  show ?case
  proof (cases "strip_prefix ''profile:'' n")
    case None
    then show ?thesis using Cons.prems xs by (simp add: check_name_def split: if_splits)
  next
    case (Some p)
    then obtain pr where pr: "resolve p = Inr pr" using Cons.prems by (auto simp: check_name_def split: sum.splits)
    have "\<forall>x \<in> set (all_sys pr). SysName_parse x \<noteq> None"
      using all_sys_from_shipped [OF resolve_shipped [OF pr]] shipped_valid valid_package_SysName
      unfolding list_all_iff by (metis option.distinct(1) subsetD)
    then show ?thesis using Some pr xs by auto
  qed
qed simp

text \<open>A package request that passes the check expands: its profiles and names become a list without repetition
  of valid package names.\<close>

theorem checked_request_expands:
  assumes "check_request names why = None"
  shows "\<exists>xs. expand_names names = Inr xs \<and> distinct xs \<and> (\<forall>x \<in> set xs. SysName_parse x \<noteq> None)"
proof -
  have "find_map check_name names = None" using assms by (auto simp: check_request_def split: if_splits option.splits)
  then obtain xs where xs: "expand_all names = Inr xs" "\<forall>x \<in> set xs. SysName_parse x \<noteq> None"
    using expand_all_checked unfolding find_map_None by blast
  then show ?thesis using first_of_each_facts [of "[]" xs] by (auto simp: expand_names_def)
qed

theorem checked_request_expands_witness:
  "check_request [''profile:build-base'', ''sys:cmake'', ''pacman:protobuf''] (Some ''nightly'') = None
   \<and> (\<exists>xs. expand_names [''profile:build-base'', ''sys:cmake'', ''pacman:protobuf''] = Inr xs \<and> distinct xs)"
proof -
  have h: "check_request [''profile:build-base'', ''sys:cmake'', ''pacman:protobuf''] (Some ''nightly'') = None" by code_simp
  show ?thesis using h checked_request_expands [OF h] by blast
qed

end
