(* ===== verification/Needs.thy ===== *)
theory Needs
  imports Profiles
begin

text \<open>
  \<open>needs.rs\<close>: what a job needs installed. A need is one token; \<open>need_parse\<close> reads it,
  \<open>token\<close> writes its canonical form, \<open>parse_all\<close> checks a whole list. An accepted need's token
  reads back as the same need, and an accepted list drops nothing and repeats no tool.
\<close>

section \<open>Constants\<close>

definition MAX_NEEDS :: nat where "MAX_NEEDS = 32"
definition TOOL_UNSUPPORTED :: string where [codes]: "TOOL_UNSUPPORTED = ''tool_unsupported''"
definition NEED_INVALID :: string where [codes]: "NEED_INVALID = ''need_invalid''"

definition SUPPORTED_TOOLS :: "(string \<times> string list) list" where
  "SUPPORTED_TOOLS =
     [(''node'', [''node'']),
      (''python'', [''python3'']),
      (''go'', [''go'']),
      (''java'', [''java'']),
      (''bun'', [''bun'']),
      (''deno'', [''deno'']),
      (''zig'', [''zig'']),
      (''cmake'', [''cmake'']),
      (''ninja'', [''ninja'']),
      (''protoc'', [''protoc'']),
      (''uv'', [''uv'']),
      (''pnpm'', [''pnpm''])]"

definition ALLOWED_BACKENDS :: "string list" where
  "ALLOWED_BACKENDS = [''aqua'', ''ubi'', ''github'', ''npm'', ''pipx'', ''cargo'', ''go'']"

definition expected_bins :: "string \<Rightarrow> string list" where
  "expected_bins tool = (case find (\<lambda>(t, b). t = tool) SUPPORTED_TOOLS of Some (_, b) \<Rightarrow> b | None \<Rightarrow> [])"

definition supported_list :: string where
  "supported_list = join_with '', '' (map (\<lambda>(t, _). t @ ''@<v>'') SUPPORTED_TOOLS
     @ [''rust@<channel>[+<component>'' @ [CHR 0xE2, CHR 0x80, CHR 0xA6] @ '']'', ''cargo-nextest'', ''sys:<package>'',
        ''sys:<apt|pacman|dnf|zypper>:<package>'', ''profile:<name>''])"

definition FEATURE_NEEDS :: string where "FEATURE_NEEDS = ''needs''"
definition FEATURE_SYSTEM_PACKAGES :: string where "FEATURE_SYSTEM_PACKAGES = ''system-packages''"
definition FEATURE_RUST_COMPONENTS :: string where "FEATURE_RUST_COMPONENTS = ''rust-components''"
definition FEATURE_TOOLCHAIN_BUDGET :: string where "FEATURE_TOOLCHAIN_BUDGET = ''toolchain-budget''"
definition FEATURE_RUST_DEFAULT_COMPONENTS :: string where "FEATURE_RUST_DEFAULT_COMPONENTS = ''rust-default-components''"
definition DEFAULT_RUST_COMPONENTS :: "string list" where "DEFAULT_RUST_COMPONENTS = [''clippy'', ''rustfmt'']"
definition RUST_MINIMAL :: string where "RUST_MINIMAL = ''minimal''"
definition RUST_COMPONENTS :: "string list" where
  "RUST_COMPONENTS = [''clippy'', ''rustfmt'', ''rust-src'', ''llvm-tools'', ''rust-analyzer'', ''miri'']"
definition MAX_RUST_COMPONENTS :: nat where "MAX_RUST_COMPONENTS = 8"

definition canonical_component :: "string \<Rightarrow> string" where
  "canonical_component c =
     (if c = ''llvm-tools-preview'' then ''llvm-tools''
      else if c = ''clippy-preview'' then ''clippy''
      else if c = ''rustfmt-preview'' then ''rustfmt''
      else if c = ''rust-analyzer-preview'' then ''rust-analyzer''
      else if c = ''miri-preview'' then ''miri''
      else c)"

section \<open>Needs\<close>

datatype Need =
    Tool string string
  | Rust string "string list"
  | Nextest
  | System string
  | NProfile string "nat option"

fun token :: "Need \<Rightarrow> string" where
  "token (Tool tool version) = tool @ ''@'' @ version"
| "token (Rust channel components) =
     (if components = [] then ''rust@'' @ channel else ''rust@'' @ channel @ ''+'' @ join_with ''+'' components)"
| "token Nextest = ''cargo-nextest''"
| "token (System package) = ''sys:'' @ package"
| "token (NProfile name None) = ''profile:'' @ name"
| "token (NProfile name (Some v)) = ''profile:'' @ name @ ''@'' @ digits_of v"

fun rust_wants_defaults :: "Need \<Rightarrow> bool" where
  "rust_wants_defaults (Rust channel components) \<longleftrightarrow> RUST_MINIMAL \<notin> set components"
| "rust_wants_defaults _ \<longleftrightarrow> False"

fun need_key :: "Need \<Rightarrow> string" where
  "need_key (Tool tool version) = tool"
| "need_key (Rust channel components) = ''rust''"
| "need_key Nextest = ''cargo-nextest''"
| "need_key (System package) = ''sys:'' @ package"
| "need_key (NProfile name version) = ''profile:'' @ name"

datatype support_error = BackendNotAllowed string | ToolNotSupported string

fun check_supported :: "Need \<Rightarrow> support_error option" where
  "check_supported (Tool tool version) =
     (case split_once (CHR '':'') tool of
        Some (backend, rest) \<Rightarrow>
          if backend \<in> set ALLOWED_BACKENDS \<and> rest \<noteq> [] then None else Some (BackendNotAllowed backend)
      | None \<Rightarrow> if list_ex (\<lambda>(t, _). t = tool) SUPPORTED_TOOLS then None else Some (ToolNotSupported tool))"
| "check_supported _ = None"

section \<open>Reading a token\<close>

definition tool_char :: "char \<Rightarrow> bool" where
  "tool_char c \<longleftrightarrow> is_ascii_lowercase c \<or> is_ascii_digit c \<or> c \<in> set ''-_.:/''"

definition valid_tool :: "string \<Rightarrow> bool" where
  "valid_tool t \<longleftrightarrow> t \<noteq> [] \<and> length t \<le> 64
     \<and> (case t of c # _ \<Rightarrow> is_ascii_lowercase c | [] \<Rightarrow> False) \<and> list_all tool_char t
     \<and> \<not> str_contains ''..'' t \<and> \<not> ends_with t ''/'' \<and> \<not> ends_with t '':''"

definition version_char :: "char \<Rightarrow> bool" where
  "version_char c \<longleftrightarrow> is_ascii_alphanumeric c \<or> c \<in> set ''._+-''"

definition valid_version :: "string \<Rightarrow> bool" where
  "valid_version v \<longleftrightarrow> v \<noteq> [] \<and> length v \<le> 48
     \<and> (case v of c # _ \<Rightarrow> is_ascii_alphanumeric c | [] \<Rightarrow> False) \<and> list_all version_char v"

definition canonical_tool :: "string \<Rightarrow> string" where
  "canonical_tool t =
     (if t = ''nodejs'' then ''node''
      else if t = ''golang'' then ''go''
      else if t = ''rustlang'' then ''rust''
      else if t = ''python3'' then ''python''
      else t)"

datatype need_error = EmptyNeed | BadSystem | BadProfile profile_error | BadTool | BadVersion
  | BadChannel | BadComponent string | ManyComponents

text \<open>The components of a \<open>+\<close> list: each canonical and known, the first of equal ones.\<close>

fun rust_components :: "string list \<Rightarrow> string list \<Rightarrow> need_error + string list" where
  "rust_components acc [] = Inr acc"
| "rust_components acc (c # cs) =
     (let k = canonical_component c in
      if k \<notin> set RUST_COMPONENTS \<and> k \<noteq> RUST_MINIMAL then Inl (BadComponent k)
      else rust_components (if k \<in> set acc then acc else acc @ [k]) cs)"

definition parse_rust :: "string \<Rightarrow> need_error + Need" where
  "parse_rust version =
     (let parts = split_on (CHR ''+'') version; channel = hd parts in
      if channel = [] then Inl BadChannel
      else case rust_components [] (tl parts) of
        Inl e \<Rightarrow> Inl e
      | Inr components \<Rightarrow>
          if length components > MAX_RUST_COMPONENTS then Inl ManyComponents
          else Inr (Rust (if channel = ''latest'' then ''stable'' else channel) (sort components)))"

definition need_parse :: "string \<Rightarrow> need_error + Need" where
  "need_parse tok =
     (let t = trim tok in
      if t = [] then Inl EmptyNeed
      else case strip_prefix ''sys:'' t of
        Some p \<Rightarrow> (case SysName_parse p of Some n \<Rightarrow> Inr (System (SysName_as_str n)) | None \<Rightarrow> Inl BadSystem)
      | None \<Rightarrow>
      (case strip_prefix ''profile:'' t of
        Some p \<Rightarrow> (case parse_ref p of Inl e \<Rightarrow> Inl (BadProfile e) | Inr (name, version) \<Rightarrow> Inr (NProfile name version))
      | None \<Rightarrow>
          if t \<in> set [''cargo-nextest'', ''nextest'', ''cargo-nextest@latest'', ''nextest@latest''] then Inr Nextest
          else
            let (tool0, version0) = (case split_once (CHR ''@'') t of Some (a, b) \<Rightarrow> (a, b) | None \<Rightarrow> (t, ''latest''));
                tool = canonical_tool tool0
            in if \<not> valid_tool tool then Inl BadTool
               else let version = trim_start_matches (CHR ''v'') version0
                    in if \<not> valid_version version then Inl BadVersion
                       else if tool = ''rust'' \<or> tool = ''rustup'' then parse_rust version
                       else Inr (Tool tool version)))"

section \<open>A whole list\<close>

record NeedError =
  ne_code :: string
  ne_why :: "need_error option"

definition invalid_need :: "need_error option \<Rightarrow> NeedError" where
  "invalid_need e = \<lparr> ne_code = NEED_INVALID, ne_why = e \<rparr>"

definition check_shipped :: "Need \<Rightarrow> bool" where
  "check_shipped n = (case n of NProfile name version \<Rightarrow> profile_get name version \<noteq> None | _ \<Rightarrow> True)"

fun parse_tokens :: "Need list \<Rightarrow> string list \<Rightarrow> NeedError + Need list" where
  "parse_tokens out [] = Inr out"
| "parse_tokens out (t # ts) =
     (case need_parse t of
        Inl e \<Rightarrow> Inl (invalid_need (Some e))
      | Inr n \<Rightarrow>
          if check_supported n \<noteq> None then Inl \<lparr> ne_code = TOOL_UNSUPPORTED, ne_why = None \<rparr>
          else if \<not> check_shipped n then Inl \<lparr> ne_code = PROFILE_UNKNOWN, ne_why = None \<rparr>
          else if list_ex (\<lambda>o1. need_key o1 = need_key n) out then Inl (invalid_need None)
          else parse_tokens (out @ [n]) ts)"

definition parse_all :: "string list \<Rightarrow> NeedError + Need list" where
  "parse_all tokens = (if length tokens > MAX_NEEDS then Inl (invalid_need None) else parse_tokens [] tokens)"

end
