(* ===== verification/Needs_Rules.thy ===== *)
theory Needs_Rules
  imports Needs
begin

text \<open>
  The rules of needs: the canonical token of an accepted need reads back as that need, and an
  accepted list keeps every token, in order, without a tool twice.
\<close>

section \<open>Characters of the parts\<close>

lemma tool_char_plain: "tool_char c \<Longrightarrow> ascii_char c \<and> c \<noteq> CHR ''@''"
  by (auto simp: tool_char_def ascii_char_def is_ascii_lowercase_def is_ascii_digit_def byte_def)

lemma version_char_plain: "version_char c \<Longrightarrow> ascii_char c \<and> c \<noteq> CHR ''@''"
  by (auto simp: version_char_def ascii_char_def is_ascii_alphanumeric_def is_ascii_lowercase_def is_ascii_uppercase_def
      is_ascii_digit_def byte_def)

lemma valid_tool_plain: "valid_tool t \<Longrightarrow> list_all ascii_char t \<and> CHR ''@'' \<notin> set t"
  using tool_char_plain by (auto simp: valid_tool_def list_all_iff)

lemma valid_version_plain: "valid_version v \<Longrightarrow> list_all ascii_char v \<and> CHR ''@'' \<notin> set v"
  using version_char_plain by (auto simp: valid_version_def list_all_iff)

lemma ascii_digits: "list_all ascii_char (digits_of n)"
  using digits_of_digits [of n] ascii_class by (auto simp: list_all_iff)

lemma ascii_lits: "list_all ascii_char ''sys:''" "list_all ascii_char ''profile:''" "list_all ascii_char ''rust@''"
  "ascii_char (CHR ''@'')" "ascii_char (CHR ''+'')"
  by (simp_all add: ascii_char_def byte_def)

lemma list_all_plain: "list_all P (xs @ ys) \<longleftrightarrow> list_all P xs \<and> list_all P ys"
  by simp

lemma canonical_tool_idem [simp]: "canonical_tool (canonical_tool t) = canonical_tool t"
  by (simp add: canonical_tool_def)

lemma canonical_component_idem [simp]: "canonical_component (canonical_component c) = canonical_component c"
  by (simp add: canonical_component_def)

section \<open>What a parsed need looks like\<close>

text \<open>The invariant of a parsed need, and the one case whose token means something else: a tool named like
  the nextest binary, which no node supports.\<close>

definition rust_names :: "string list \<Rightarrow> bool" where
  "rust_names cs \<longleftrightarrow> (\<forall>c \<in> set cs. c \<in> set RUST_COMPONENTS \<or> c = RUST_MINIMAL)"

fun need_ok :: "Need \<Rightarrow> bool" where
  "need_ok (Tool tool version) \<longleftrightarrow> valid_tool tool \<and> valid_version version \<and> hd version \<noteq> CHR ''v''
     \<and> canonical_tool tool = tool \<and> tool \<noteq> ''rust'' \<and> tool \<noteq> ''rustup''
     \<and> strip_prefix ''sys:'' tool = None \<and> strip_prefix ''profile:'' tool = None"
| "need_ok (Rust channel components) \<longleftrightarrow> channel \<noteq> [] \<and> channel \<noteq> ''latest'' \<and> CHR ''+'' \<notin> set channel
     \<and> hd channel \<noteq> CHR ''v'' \<and> is_ascii_alphanumeric (hd channel) \<and> list_all version_char channel
     \<and> rust_names components \<and> distinct components \<and> sorted components
     \<and> length (channel @ concat (map ((#) CHR ''+'') components)) \<le> 48"
| "need_ok Nextest \<longleftrightarrow> True"
| "need_ok (System package) \<longleftrightarrow> (\<exists>n. valid_sysname n \<and> package = SysName_as_str n)"
| "need_ok (NProfile name version) \<longleftrightarrow> valid_ref name version"

lemma strip_prefix_appendI: "strip_prefix p s = None \<Longrightarrow> CHR ''@'' \<notin> set p \<Longrightarrow> strip_prefix p (s @ CHR ''@'' # r) = None"
  by (induction p s rule: strip_prefix.induct) auto

lemma strip_prefix_before: "strip_prefix p (s @ r) = None \<Longrightarrow> strip_prefix p s = None"
  by (induction p s rule: strip_prefix.induct) (auto split: if_splits)

subsection \<open>Components\<close>

lemma known_component_canonical: "c \<in> set RUST_COMPONENTS \<or> c = RUST_MINIMAL \<Longrightarrow> canonical_component c = c"
  by (auto simp: RUST_COMPONENTS_def RUST_MINIMAL_def canonical_component_def)

lemma known_component_plain: "c \<in> set RUST_COMPONENTS \<or> c = RUST_MINIMAL \<Longrightarrow> list_all version_char c \<and> CHR ''+'' \<notin> set c \<and> c \<noteq> []"
  by (auto simp: RUST_COMPONENTS_def RUST_MINIMAL_def version_char_def is_ascii_alphanumeric_def is_ascii_lowercase_def byte_def)

lemma canonical_component_length: "length (canonical_component c) \<le> length c"
  by (simp add: canonical_component_def)

lemma rust_components_id:
  "rust_names cs \<Longrightarrow> distinct (acc @ cs) \<Longrightarrow> rust_components acc cs = Inr (acc @ cs)"
proof (induction cs arbitrary: acc)
  case (Cons c cs)
  then have "canonical_component c = c" using known_component_canonical by (simp add: rust_names_def)
  then show ?case using Cons by (auto simp: rust_names_def Let_def)
qed simp

lemma rust_components_ok:
  "rust_components acc cs = Inr out \<Longrightarrow> rust_names acc \<Longrightarrow> distinct acc \<Longrightarrow>
     rust_names out \<and> distinct out
     \<and> length (concat (map ((#) CHR ''+'') out)) \<le> length (concat (map ((#) CHR ''+'') (acc @ cs)))"
proof (induction cs arbitrary: acc)
  case (Cons c cs)
  let ?k = "canonical_component c" and ?acc = "if canonical_component c \<in> set acc then acc else acc @ [canonical_component c]"
  have k: "?k \<in> set RUST_COMPONENTS \<or> ?k = RUST_MINIMAL" "rust_components ?acc cs = Inr out"
    using Cons.prems(1) by (auto simp: Let_def split: if_splits)
  have "rust_names ?acc" "distinct ?acc" using Cons.prems(2,3) k(1) by (auto simp: rust_names_def)
  from Cons.IH [OF k(2) this] show ?case using canonical_component_length [of c] by (auto split: if_splits)
qed simp

lemma mset_length_concat: "mset xs = mset ys \<Longrightarrow> length (concat (map f xs)) = length (concat (map f ys))"
  by (simp add: length_concat comp_def) (metis mset_map sum_mset_sum_list)

lemma join_plus: "cs \<noteq> [] \<Longrightarrow> ch @ ''+'' @ join_with ''+'' cs = join_with ''+'' (ch # cs)"
  by (cases cs) simp_all

lemma length_join_plus: "length (join_with ''+'' (ch # cs)) = length (ch @ concat (map ((#) CHR ''+'') cs))"
  by (induction cs arbitrary: ch) auto

lemma list_all_join: "list_all P d \<Longrightarrow> \<forall>p \<in> set ps. list_all P p \<Longrightarrow> list_all P (join_with d ps)"
  by (induction d ps rule: join_with.induct) auto


section \<open>A parsed need is well formed\<close>

lemma trim_start_matches_hd: "trim_start_matches c s \<noteq> [] \<Longrightarrow> hd (trim_start_matches c s) \<noteq> c"
  by (metis (full_types) hd_dropWhile trim_start_matches_def)

lemma parse_rust_ok:
  assumes "parse_rust version = Inr n" "valid_version version" "hd version \<noteq> CHR ''v''"
  shows "need_ok n"
proof -
  obtain ch cs where parts: "split_on (CHR ''+'') version = ch # cs" by (metis list.exhaust split_on_not_Nil)
  have v: "version = join_with ''+'' (ch # cs)" using join_split [of "CHR ''+''" version] parts by simp
  obtain out where o: "rust_components [] cs = Inr out" "ch \<noteq> []"
    "n = Rust (if ch = ''latest'' then ''stable'' else ch) (sort out)"
    using assms(1) parts by (auto simp: parse_rust_def Let_def split: sum.splits if_splits)
  have ok: "rust_names out" "distinct out" "length (concat (map ((#) CHR ''+'') out)) \<le> length (concat (map ((#) CHR ''+'') cs))"
    using rust_components_ok [OF o(1)] by (simp_all add: rust_names_def)
  have hd_v: "hd version = hd ch" using v o(2) by (cases cs) auto
  have in_v: "set ch \<subseteq> set version" using v by (cases cs) auto
  have plus: "CHR ''+'' \<notin> set ch" using split_on_no_sep [of ch "CHR ''+''" version] parts by simp
  have len: "length (ch @ concat (map ((#) CHR ''+'') (sort out))) \<le> 48"
  proof -
    have "length (concat (map ((#) CHR ''+'') (sort out))) = length (concat (map ((#) CHR ''+'') out))"
      by (rule mset_length_concat) simp
    then show ?thesis using ok(3) assms(2) v length_join_plus [of ch cs] by (simp add: valid_version_def)
  qed
  have hd_alnum: "is_ascii_alphanumeric (hd ch)" "list_all version_char ch"
    using assms(2) hd_v in_v by (auto simp: valid_version_def list_all_iff split: list.splits)
  have st: "length ''stable'' = length ''latest''" "CHR ''+'' \<notin> set ''stable''" "is_ascii_alphanumeric (hd ''stable'')"
    "list_all version_char ''stable''" "hd ''stable'' \<noteq> CHR ''v''"
    by (simp_all add: version_char_def is_ascii_alphanumeric_def is_ascii_lowercase_def byte_def)
  have "rust_names (sort out)" using ok(1) by (simp add: rust_names_def)
  then show ?thesis
    using o(2,3) ok(2) plus len hd_alnum st hd_v assms(3) by (cases "ch = ''latest''") simp_all
qed

lemma need_parse_ok: "need_parse tok = Inr n \<Longrightarrow> need_ok n"
proof -
  assume p: "need_parse tok = Inr n"
  let ?t = "trim tok"
  show ?thesis
  proof (cases "strip_prefix ''sys:'' ?t")
    case (Some q)
    then obtain x where x: "SysName_parse q = Some x" "n = System (SysName_as_str x)"
      using p by (auto simp: need_parse_def Let_def split: if_splits option.splits)
    then show ?thesis using SysName_parse_valid by auto
  next
    case sys: None
    show ?thesis
    proof (cases "strip_prefix ''profile:'' ?t")
      case (Some q)
      then show ?thesis using p sys parse_ref_valid
        by (auto simp: need_parse_def Let_def split: if_splits option.splits sum.splits)
    next
      case prof: None
      obtain tool0 version0 where tv:
        "(case split_once (CHR ''@'') ?t of Some (a, b) \<Rightarrow> (a, b) | None \<Rightarrow> (?t, ''latest'')) = (tool0, version0)"
        by (metis surj_pair)
      have pre: "\<exists>r. ?t = tool0 @ r" using tv by (auto simp: split_once_Some_iff split: option.splits)
      let ?tool = "canonical_tool tool0" and ?v = "trim_start_matches (CHR ''v'') version0"
      show ?thesis
      proof (cases "n = Nextest")
        case False
        then have c: "valid_tool ?tool" "valid_version ?v"
          "(if ?tool = ''rust'' \<or> ?tool = ''rustup'' then parse_rust ?v else Inr (Tool ?tool ?v)) = Inr n"
          using p sys prof tv by (auto simp: need_parse_def Let_def split: if_splits)
        have hv: "hd ?v \<noteq> CHR ''v''" using c(2) trim_start_matches_hd [of "CHR ''v''" version0] by (auto simp: valid_version_def)
        have sp: "strip_prefix ''sys:'' ?tool = None" "strip_prefix ''profile:'' ?tool = None"
          using pre sys prof strip_prefix_before [of "''sys:''" tool0] strip_prefix_before [of "''profile:''" tool0]
          by (auto simp: canonical_tool_def)
        show ?thesis
        proof (cases "?tool = ''rust'' \<or> ?tool = ''rustup''")
          case True
          then show ?thesis using c parse_rust_ok hv by simp
        next
          case False
          then show ?thesis using c hv sp by auto
        qed
      qed simp
    qed
  qed
qed

section \<open>The token of a well-formed need reads back\<close>

lemma parse_token_tool:
  assumes "need_ok (Tool tool version)" "tool \<noteq> ''nextest''" "tool \<noteq> ''cargo-nextest''"
  shows "need_parse (token (Tool tool version)) = Inr (Tool tool version)"
proof -
  let ?t = "tool @ CHR ''@'' # version"
  note h = assms(1) [unfolded need_ok.simps]
  have a: "list_all ascii_char ?t" "CHR ''@'' \<notin> set tool"
    using h valid_tool_plain valid_version_plain ascii_lits by auto
  have sp: "strip_prefix ''sys:'' ?t = None" "strip_prefix ''profile:'' ?t = None"
    using h strip_prefix_appendI [of "''sys:''" tool version] strip_prefix_appendI [of "''profile:''" tool version] by auto
  have so: "split_once (CHR ''@'') ?t = Some (tool, version)" using split_once_append [OF a(2)] .
  have nx: "?t \<notin> set [''cargo-nextest'', ''nextest'', ''cargo-nextest@latest'', ''nextest@latest'']"
  proof -
    have "split_once (CHR ''@'') ''cargo-nextest'' = None" "split_once (CHR ''@'') ''nextest'' = None"
      "split_once (CHR ''@'') ''cargo-nextest@latest'' = Some (''cargo-nextest'', ''latest'')"
      "split_once (CHR ''@'') ''nextest@latest'' = Some (''nextest'', ''latest'')" by simp_all
    then show ?thesis using so assms(2,3) by auto
  qed
  have "version \<noteq> []" "hd version \<noteq> CHR ''v''" using h by (auto simp: valid_version_def)
  then have "trim_start_matches (CHR ''v'') version = version" by (cases version) (simp_all add: trim_start_matches_def)
  then show ?thesis using a(1) sp so nx h by (simp add: need_parse_def Let_def)
qed

lemma parse_token_rust:
  assumes "need_ok (Rust channel components)"
  shows "need_parse (token (Rust channel components)) = Inr (Rust channel components)"
proof -
  let ?w = "join_with ''+'' (channel # components)" and ?t = "''rust@'' @ join_with ''+'' (channel # components)"
  note h = assms [unfolded need_ok.simps]
  have tok: "token (Rust channel components) = ?t" using join_plus [of components channel] by simp
  have comp: "\<forall>c \<in> set components. list_all version_char c \<and> CHR ''+'' \<notin> set c"
    using h known_component_plain unfolding rust_names_def by blast
  have vc: "list_all version_char ?w"
    by (rule list_all_join) (use h comp in \<open>auto simp: version_char_def\<close>)
  have hw: "hd ?w = hd channel" "?w \<noteq> []" using h by (cases components; cases channel; simp)+
  have len: "length ?w \<le> 48" using h length_join_plus [of channel components] by simp
  have "\<exists>c cs. ?w = c # cs" using hw(2) by (cases ?w) auto
  then have vv: "valid_version ?w" using vc hw len h by (auto simp: valid_version_def)
  have asc: "list_all ascii_char ?t" using valid_version_plain [OF vv] ascii_lits by simp
  have so: "split_once (CHR ''@'') ?t = Some (''rust'', ?w)" by simp
  have tm: "trim_start_matches (CHR ''v'') ?w = ?w"
    using hw h by (cases ?w) (simp_all add: trim_start_matches_def)
  have vt: "valid_tool ''rust''" "canonical_tool ''rust'' = ''rust''"
    by (simp_all add: valid_tool_def tool_char_def is_ascii_lowercase_def byte_def starts_with_def ends_with_def
        strip_suffix_def canonical_tool_def)
  have sp: "split_on (CHR ''+'') ?w = channel # components"
    by (rule split_on_join) (use h comp in auto)
  have "set components \<subseteq> insert RUST_MINIMAL (set RUST_COMPONENTS)" using h by (auto simp: rust_names_def)
  then have "card (set components) \<le> card (insert RUST_MINIMAL (set RUST_COMPONENTS))" by (intro card_mono) auto
  moreover have "card (insert RUST_MINIMAL (set RUST_COMPONENTS)) \<le> MAX_RUST_COMPONENTS"
    by (simp add: RUST_MINIMAL_def RUST_COMPONENTS_def MAX_RUST_COMPONENTS_def)
  ultimately have n8: "length components \<le> MAX_RUST_COMPONENTS" using h distinct_card by fastforce
  have rc: "rust_components [] components = Inr components" using rust_components_id [of components "[]"] h by simp
  have "parse_rust ?w = Inr (Rust channel components)"
    using h n8 rc by (simp add: parse_rust_def sp Let_def sorted_sort_id)
  then show ?thesis unfolding tok using asc so tm vt vv by (simp add: need_parse_def Let_def)
qed

lemma valid_sysname_ascii: "valid_sysname n \<Longrightarrow> list_all ascii_char (SysName_as_str n)"
proof (cases n)
  case (Canonical p)
  then show "valid_sysname n \<Longrightarrow> ?thesis" using valid_package_plain by simp
next
  case (Native m p)
  have "list_all ascii_char (mgr_name m)" by (cases m) (simp_all add: ascii_char_def byte_def)
  then show "valid_sysname n \<Longrightarrow> ?thesis" using Native valid_package_plain by (simp add: ascii_char_def byte_def)
qed

lemma parse_token_system:
  assumes "valid_sysname n"
  shows "need_parse (''sys:'' @ SysName_as_str n) = Inr (System (SysName_as_str n))"
proof -
  have "list_all ascii_char (''sys:'' @ SysName_as_str n)" using valid_sysname_ascii [OF assms] ascii_lits by simp
  then have "trim (''sys:'' @ SysName_as_str n) = ''sys:'' @ SysName_as_str n" by (rule trim_ascii)
  then show ?thesis using SysName_round [OF assms] by (simp add: need_parse_def Let_def)
qed

lemma parse_token_profile:
  assumes "valid_ref name version"
  shows "need_parse (''profile:'' @ ref_str name version) = Inr (NProfile name version)"
proof -
  have "list_all ascii_char name" using assms profile_char_plain by (auto simp: valid_ref_def list_all_iff)
  then have "list_all ascii_char (''profile:'' @ ref_str name version)"
    using ascii_digits ascii_lits by (cases version) (simp_all add: ref_str_def)
  then have "trim (''profile:'' @ ref_str name version) = ''profile:'' @ ref_str name version" by (rule trim_ascii)
  then show ?thesis using parse_ref_str [OF assms] by (simp add: need_parse_def Let_def)
qed




text \<open>Support is needed: a tool named like the nextest binary at a version written \<open>vlatest\<close> is read as a
  tool, and its token as nextest.\<close>

lemma nextest_alias:
  "need_parse ''nextest@vlatest'' = Inr (Tool ''nextest'' ''latest'')
   \<and> need_parse (token (Tool ''nextest'' ''latest'')) = Inr Nextest
   \<and> check_supported (Tool ''nextest'' ''latest'') \<noteq> None"
  by code_simp

section \<open>Lists\<close>

lemma key_listed: "list_ex (\<lambda>o1. need_key o1 = k) out \<longleftrightarrow> k \<in> need_key ` set out"
  by (induction out) auto

lemma parse_tokens_iff:
  "distinct (map need_key out) \<Longrightarrow> parse_tokens out ts = Inr ns \<longleftrightarrow>
     (\<exists>ms. ns = out @ ms \<and> map need_parse ts = map Inr ms
        \<and> (\<forall>n \<in> set ms. check_supported n = None \<and> check_shipped n) \<and> distinct (map need_key (out @ ms)))"
proof (induction ts arbitrary: out)
  case Nil
  then show ?case by auto
next
  case (Cons t ts)
  show ?case
  proof (cases "need_parse t")
    case (Inl e)
    then show ?thesis by (auto simp: Cons_eq_map_conv)
  next
    case (Inr n)
    show ?thesis
    proof (cases "check_supported n = None \<and> check_shipped n \<and> need_key n \<notin> need_key ` set out")
      case True
      then have d: "distinct (map need_key (out @ [n]))" using Cons.prems by auto
      have "parse_tokens out (t # ts) = parse_tokens (out @ [n]) ts"
        using Inr True by (simp add: key_listed)
      also have "\<dots> = Inr ns \<longleftrightarrow> (\<exists>ms. ns = (out @ [n]) @ ms \<and> map need_parse ts = map Inr ms
        \<and> (\<forall>n \<in> set ms. check_supported n = None \<and> check_shipped n) \<and> distinct (map need_key ((out @ [n]) @ ms)))"
        by (rule Cons.IH [OF d])
      also have "\<dots> \<longleftrightarrow> (\<exists>ms. ns = out @ ms \<and> map need_parse (t # ts) = map Inr ms
        \<and> (\<forall>n \<in> set ms. check_supported n = None \<and> check_shipped n) \<and> distinct (map need_key (out @ ms)))"
        using Inr True by (auto simp: Cons_eq_map_conv)
      finally show ?thesis .
    next
      case False
      then have "parse_tokens out (t # ts) \<noteq> Inr ns" using Inr by (auto simp: key_listed)
      moreover have "\<not> (\<exists>ms. ns = out @ ms \<and> map need_parse (t # ts) = map Inr ms
        \<and> (\<forall>n \<in> set ms. check_supported n = None \<and> check_shipped n) \<and> distinct (map need_key (out @ ms)))"
        using False Inr by (auto simp: Cons_eq_map_conv)
      ultimately show ?thesis by blast
    qed
  qed
qed

text \<open>A list of needs is accepted exactly when it has at most 32 tokens and each reads as a supported need (and a
  shipped profile), no tool twice; then the result is those needs in the order given: nothing is dropped.\<close>

theorem needs_list_exact:
  "parse_all tokens = Inr ns \<longleftrightarrow>
     length tokens \<le> 32 \<and> map need_parse tokens = map Inr ns
     \<and> (\<forall>n \<in> set ns. check_supported n = None \<and> check_shipped n) \<and> distinct (map need_key ns)"
  using parse_tokens_iff [of "[]" tokens ns] by (auto simp: parse_all_def MAX_NEEDS_def)

theorem needs_list_exact_witness:
  "parse_all [''node@v22'', ''sys:cmake'', ''rust''] = Inr [Tool ''node'' ''22'', System ''cmake'', Rust ''stable'' []]
   \<and> map need_parse [''node@v22'', ''sys:cmake'', ''rust''] = map Inr [Tool ''node'' ''22'', System ''cmake'', Rust ''stable'' []]"
proof -
  have h: "parse_all [''node@v22'', ''sys:cmake'', ''rust''] = Inr [Tool ''node'' ''22'', System ''cmake'', Rust ''stable'' []]"
    by code_simp
  show ?thesis using h needs_list_exact [of "[''node@v22'', ''sys:cmake'', ''rust'']"
        "[Tool ''node'' ''22'', System ''cmake'', Rust ''stable'' []]"] by blast
qed

end
