(* ===== verification/Globs.thy ===== *)
theory Globs
  imports Rust_Text "HOL-Library.Code_Target_Numeral"
begin

text \<open>
  The artifact globs of \<open>results.rs\<close>: the check of a glob, the match of one segment (a loop that
  goes back to its last star) and of a whole path. An index into the pattern or the name is the rest of
  the list from there. The loop is proved equal to the usual recursive meaning of a pattern for names
  without a star character.
\<close>

section \<open>The check\<close>

definition MAX_GLOBS :: nat where "MAX_GLOBS = 32"
definition MAX_GLOB_LEN :: nat where "MAX_GLOB_LEN = 512"

definition glob_refusal :: "string \<Rightarrow> string option" where
  "glob_refusal g =
     (if g = [] \<or> length g > MAX_GLOB_LEN \<or> CHR 0x00 \<in> set g \<or> CHR 0x5C \<in> set g then Some ''artifact_glob_invalid''
      else if starts_with g ''/'' \<or> starts_with g ''~'' then Some ''artifact_glob_absolute''
      else if list_ex (\<lambda>s. s = ''..'') (split_on (CHR ''/'') g) then Some ''artifact_glob_escapes''
      else if list_ex (\<lambda>s. s = []) (split_on (CHR ''/'') g) then Some ''artifact_glob_invalid''
      else None)"

text \<open>\<open>None\<close> is \<open>Ok\<close>; the second part of an error is the glob.\<close>

fun check_each_glob :: "string list \<Rightarrow> (string \<times> string) option" where
  "check_each_glob [] = None"
| "check_each_glob (g # gs) = (case glob_refusal g of Some code \<Rightarrow> Some (code, g) | None \<Rightarrow> check_each_glob gs)"

definition check_globs :: "string list \<Rightarrow> (string \<times> string) option" where
  "check_globs globs =
     (if length globs > MAX_GLOBS
        then Some (''artifact_glob_invalid'', ''at most '' @ digits_of MAX_GLOBS @ '' --artifact globs'')
      else check_each_glob globs)"

section \<open>Matching\<close>

definition segments :: "string \<Rightarrow> string list" where
  "segments g = filter (\<lambda>s. s \<noteq> [] \<and> s \<noteq> ''.'') (split_on (CHR ''/'') g)"

definition STAR :: codepoint where "STAR = 42"
definition ANY :: codepoint where "ANY = 63"
definition DOT :: codepoint where "DOT = 46"

text \<open>\<open>star\<close> holds what follows the last star of the pattern and the name from its mark.\<close>

function match_loop :: "codepoint list \<Rightarrow> codepoint list \<Rightarrow> (codepoint list \<times> codepoint list) option \<Rightarrow> bool" where
  "match_loop p n star =
     (if n = [] then dropWhile (\<lambda>c. c = STAR) p = []
      else if p \<noteq> [] \<and> (hd p = ANY \<or> hd p = hd n) then match_loop (tl p) (tl n) star
      else if p \<noteq> [] \<and> hd p = STAR then match_loop (tl p) n (Some (tl p, n))
      else (case star of
              Some (s, mark) \<Rightarrow> match_loop s (tl mark) (Some (s, tl mark))
            | None \<Rightarrow> False))"
  by pat_completeness auto

definition loop_room :: "codepoint list \<Rightarrow> (codepoint list \<times> codepoint list) option \<Rightarrow> nat" where
  "loop_room n star = (case star of None \<Rightarrow> Suc (length n) | Some (s, mark) \<Rightarrow> max (length mark) (length n))"

termination match_loop
proof (relation "measures [\<lambda>(p, n, star). loop_room n star, \<lambda>(p, n, star). length p + length n]", goal_cases)
  case (2 p n star)
  then show ?case by (cases p; cases n) (auto simp: loop_room_def split: option.splits)
next
  case (3 p n star)
  then show ?case by (cases p; cases n) (auto simp: loop_room_def split: option.splits)
next
  case (4 p n star st s mark)
  then show ?case by (cases mark; cases n) (auto simp: loop_room_def split: option.splits)
qed simp

declare match_loop.simps [simp del]

definition segment_match :: "string \<Rightarrow> string \<Rightarrow> bool" where
  "segment_match pat name =
     (let p = chars pat; n = chars name in
      if (n \<noteq> [] \<and> hd n = DOT) \<and> \<not> (p \<noteq> [] \<and> hd p = DOT) then False
      else match_loop p n None)"

fun path_go :: "string list \<Rightarrow> string list \<Rightarrow> bool" where
  "path_go [] n \<longleftrightarrow> n = []"
| "path_go (seg # p) n \<longleftrightarrow>
     (if seg = ''**'' then list_ex (\<lambda>i. path_go p (drop i n)) [0..<Suc (length n)]
      else n \<noteq> [] \<and> segment_match seg (hd n) \<and> path_go p (tl n))"

definition path_match :: "string \<Rightarrow> string \<Rightarrow> bool" where
  "path_match glob path = path_go (segments glob) (filter (\<lambda>s. s \<noteq> []) (split_on (CHR ''/'') path))"

definition is_literal :: "string \<Rightarrow> bool" where
  "is_literal seg \<longleftrightarrow> CHR ''*'' \<notin> set seg \<and> CHR ''?'' \<notin> set seg"

section \<open>The meaning of a pattern\<close>

fun glob :: "codepoint list \<Rightarrow> codepoint list \<Rightarrow> bool" where
  "glob [] n \<longleftrightarrow> n = []"
| "glob (c # p) n \<longleftrightarrow>
     (if c = STAR then \<exists>k \<le> length n. glob p (drop k n)
      else n \<noteq> [] \<and> (c = ANY \<or> c = hd n) \<and> glob p (tl n))"

lemma glob_stars: "glob p [] \<longleftrightarrow> dropWhile (\<lambda>c. c = STAR) p = []"
  by (induction p) auto

lemma glob_star: "glob (STAR # p) n \<longleftrightarrow> (\<exists>k \<le> length n. glob p (drop k n))"
  by simp

text \<open>A star absorbs: matching a later part, it matches all.\<close>

lemma glob_star_drop: "glob (STAR # p) (drop j n) \<Longrightarrow> glob (STAR # p) n"
proof -
  assume "glob (STAR # p) (drop j n)"
  then obtain k where k: "k \<le> length (drop j n)" "glob p (drop k (drop j n))" unfolding glob_star by blast
  show ?thesis
  proof (cases "j \<le> length n")
    case True
    then have "k + j \<le> length n" "glob p (drop (k + j) n)" using k by simp_all
    then show ?thesis unfolding glob_star by blast
  next
    case False
    then have "glob p (drop (length n) n)" using k by simp
    then show ?thesis unfolding glob_star by blast
  qed
qed

text \<open>A part without a star takes as many characters as it has.\<close>

lemma glob_fixed: "STAR \<notin> set w \<Longrightarrow> glob (w @ p) n \<Longrightarrow> length w \<le> length n \<and> glob p (drop (length w) n)"
proof (induction w arbitrary: n)
  case (Cons c w)
  then have n: "n \<noteq> []" "glob (w @ p) (tl n)" by auto
  with Cons show ?case by (cases n) auto
qed simp

text \<open>What the loop keeps: since the last star, pattern and name have gone on together, without a star.\<close>

definition together :: "codepoint list \<Rightarrow> codepoint list \<Rightarrow> (codepoint list \<times> codepoint list) option \<Rightarrow> bool" where
  "together p n star \<longleftrightarrow> (case star of
       None \<Rightarrow> True
     | Some (s, mark) \<Rightarrow> \<exists>w x. s = w @ p \<and> mark = x @ n \<and> length w = length x \<and> STAR \<notin> set w)"

definition alternative :: "(codepoint list \<times> codepoint list) option \<Rightarrow> bool" where
  "alternative star \<longleftrightarrow> (case star of
       None \<Rightarrow> False
     | Some (s, mark) \<Rightarrow> \<exists>k. 1 \<le> k \<and> k \<le> length mark \<and> glob s (drop k mark))"

lemma alternative_fixed:
  assumes "together p n star" "alternative star"
  shows "\<exists>k. 1 \<le> k \<and> k \<le> length n \<and> glob p (drop k n)"
proof -
  obtain s mark where star: "star = Some (s, mark)" using assms(2) by (cases star) (auto simp: alternative_def)
  obtain w x where wx: "s = w @ p" "mark = x @ n" "length w = length x" "STAR \<notin> set w"
    using assms(1) star by (auto simp: together_def)
  obtain k where k: "1 \<le> k" "k \<le> length mark" "glob s (drop k mark)" using assms(2) star by (auto simp: alternative_def)
  have g: "length w \<le> length (drop k mark)" "glob p (drop (length w) (drop k mark))"
    using glob_fixed [of w p "drop k mark"] wx k by simp_all
  have "k \<le> length n" using g(1) wx k by simp
  moreover have "drop (length w) (drop k mark) = drop k n"
  proof -
    have "drop (length w) (drop k mark) = drop (length x + k) (x @ n)" using wx by (simp only: drop_drop)
    then show ?thesis by simp
  qed
  ultimately show ?thesis using g(2) k(1) by auto
qed

lemma ex_zero_or: "(\<exists>k \<le> m. P k) \<longleftrightarrow> P 0 \<or> (\<exists>k. 1 \<le> k \<and> k \<le> (m :: nat) \<and> P k)"
  by (metis One_nat_def Suc_leI le0 neq0_conv)

lemma alternative_step:
  "mark \<noteq> [] \<Longrightarrow> alternative (Some (s, mark)) \<longleftrightarrow> glob s (tl mark) \<or> alternative (Some (s, tl mark))"
proof -
  assume "mark \<noteq> []"
  then obtain c m where m: "mark = c # m" by (cases mark) auto
  have "(\<exists>k. 1 \<le> k \<and> k \<le> Suc (length m) \<and> glob s (drop k (c # m))) \<longleftrightarrow> (\<exists>k \<le> length m. glob s (drop k m))"
    by (metis One_nat_def Suc_le_D Suc_le_mono drop_Suc_Cons le_add1 plus_1_eq_Suc)
  also have "\<dots> \<longleftrightarrow> glob s m \<or> (\<exists>k. 1 \<le> k \<and> k \<le> length m \<and> glob s (drop k m))"
    by (metis One_nat_def Suc_leI drop0 le0 le_zero_eq neq0_conv)
  finally show ?thesis by (simp add: alternative_def m)
qed

lemma match_loop_glob:
  assumes "together p n star" "STAR \<notin> set n" "\<And>s mark. star = Some (s, mark) \<Longrightarrow> STAR \<notin> set mark"
  shows "match_loop p n star \<longleftrightarrow> glob p n \<or> alternative star"
  using assms
proof (induction p n star rule: match_loop.induct)
  case (1 p n star)
  show ?case
  proof (cases "n = []")
    case True
    have "\<not> alternative star" using alternative_fixed [OF 1(4)] True by auto
    then show ?thesis using True by (subst match_loop.simps) (simp add: glob_stars)
  next
    case n: False
    then obtain d m where d: "n = d # m" by (cases n) auto
    show ?thesis
    proof (cases "p \<noteq> [] \<and> (hd p = ANY \<or> hd p = hd n)")
      case True
      then obtain c q where c: "p = c # q" "c = ANY \<or> c = d" using d by (cases p) auto
      have ns: "c \<noteq> STAR" using c(2) 1(5) d by (auto simp: STAR_def ANY_def)
      have t: "together q m star"
      proof (cases star)
        case (Some sm)
        obtain s mark where sm: "sm = (s, mark)" by (cases sm)
        obtain w x where "s = w @ p" "mark = x @ n" "length w = length x" "STAR \<notin> set w"
          using 1(4) Some sm by (auto simp: together_def)
        then have "s = (w @ [c]) @ q" "mark = (x @ [d]) @ m" "length (w @ [c]) = length (x @ [d])" "STAR \<notin> set (w @ [c])"
          using c d ns by auto
        then show ?thesis using Some sm by (simp add: together_def)
      qed (simp add: together_def)
      have "match_loop q m star \<longleftrightarrow> glob q m \<or> alternative star"
        using 1(1) [OF n True] t 1(5,6) c d by simp
      then show ?thesis using True n c d ns by (subst match_loop.simps) simp
    next
      case nm: False
      show ?thesis
      proof (cases "p \<noteq> [] \<and> hd p = STAR")
        case True
        then obtain q where q: "p = STAR # q" by (cases p) auto
        have "together q n (Some (q, n))" by (auto simp: together_def)
        then have "match_loop q n (Some (q, n)) \<longleftrightarrow> glob q n \<or> alternative (Some (q, n))"
          using 1(2) [OF n nm True] 1(5) q by simp
        also have "\<dots> \<longleftrightarrow> glob p n"
          unfolding q glob_star alternative_def ex_zero_or [of "length n"] by simp
        also have "\<dots> \<longleftrightarrow> glob p n \<or> alternative star"
          using alternative_fixed [OF 1(4)] glob_star_drop unfolding q by blast
        finally show ?thesis using n nm True q by (subst match_loop.simps) simp
      next
        case ns: False
        have g: "\<not> glob p n" using n nm ns by (cases p) auto
        show ?thesis
        proof (cases star)
          case None
          then show ?thesis using n nm ns g by (subst match_loop.simps) (auto simp: alternative_def)
        next
          case (Some sm)
          obtain s mark where sm: "star = Some (s, mark)" using Some by (cases sm) auto
          have mk: "mark \<noteq> []" "STAR \<notin> set mark" using 1(4,6) n sm by (auto simp: together_def)
          have "together s (tl mark) (Some (s, tl mark))" by (auto simp: together_def)
          then have "match_loop s (tl mark) (Some (s, tl mark)) \<longleftrightarrow> glob s (tl mark) \<or> alternative (Some (s, tl mark))"
            using 1(3) [OF n nm ns sm refl] mk by (cases mark) auto
          then show ?thesis using n nm ns sm g alternative_step [OF mk(1)] by (subst match_loop.simps) auto
        qed
      qed
    qed
  qed
qed


section \<open>Paths\<close>

definition segment_glob :: "string \<Rightarrow> string \<Rightarrow> bool" where
  "segment_glob pat name \<longleftrightarrow> glob (chars pat) (chars name)
     \<and> (name \<noteq> [] \<and> hd (chars name) = DOT \<longrightarrow> pat \<noteq> [] \<and> hd (chars pat) = DOT)"

inductive path_glob :: "string list \<Rightarrow> string list \<Rightarrow> bool" where
  path_end: "path_glob [] []"
| path_deep: "path_glob p n \<Longrightarrow> path_glob (''**'' # p) (m @ n)"
| path_seg: "s \<noteq> ''**'' \<Longrightarrow> segment_glob s x \<Longrightarrow> path_glob p n \<Longrightarrow> path_glob (s # p) (x # n)"

inductive_simps path_glob_Nil [simp]: "path_glob [] n"
inductive_cases path_glob_ConsE: "path_glob (s # p) n"

lemma segment_match_glob: "STAR \<notin> set (chars name) \<Longrightarrow> segment_match pat name \<longleftrightarrow> segment_glob pat name"
  using match_loop_glob [of "chars pat" "chars name" None]
  by (auto simp: segment_match_def segment_glob_def together_def alternative_def Let_def)

lemma list_ex_upto: "list_ex P [0..<Suc m] \<longleftrightarrow> (\<exists>i \<le> m. P i)"
  by (simp only: list_ex_iff set_upt) (auto simp: less_Suc_eq_le)

lemma path_go_glob:
  "\<forall>x \<in> set n. STAR \<notin> set (chars x) \<Longrightarrow> path_go p n \<longleftrightarrow> path_glob p n"
proof (induction p arbitrary: n)
  case (Cons s p)
  show ?case
  proof (cases "s = ''**''")
    case True
    have "path_go (s # p) n \<longleftrightarrow> (\<exists>i \<le> length n. path_go p (drop i n))"
      using True unfolding path_go.simps list_ex_upto by (simp only: if_True simp_thms)
    also have "\<dots> \<longleftrightarrow> (\<exists>i \<le> length n. path_glob p (drop i n))"
      using Cons by (metis in_set_dropD)
    also have "\<dots> \<longleftrightarrow> path_glob (s # p) n"
    proof
      assume "\<exists>i \<le> length n. path_glob p (drop i n)"
      then obtain i where "path_glob p (drop i n)" by blast
      then have "path_glob (''**'' # p) (take i n @ drop i n)" by (rule path_deep)
      then show "path_glob (s # p) n" using True by simp
    next
      assume "path_glob (s # p) n"
      then obtain m n' where "n = m @ n'" "path_glob p n'" using True by (auto elim: path_glob_ConsE)
      then show "\<exists>i \<le> length n. path_glob p (drop i n)" by (intro exI [of _ "length m"]) simp
    qed
    finally show ?thesis .
  next
    case False
    show ?thesis
    proof (cases n)
      case Nil
      then show ?thesis using False by (auto elim: path_glob_ConsE)
    next
      case (Cons x m)
      have "path_go (s # p) n \<longleftrightarrow> segment_glob s x \<and> path_glob p m"
        using False Cons Cons.prems Cons.IH [of m] by (simp add: segment_match_glob)
      also have "\<dots> \<longleftrightarrow> path_glob (s # p) n" using False Cons by (auto intro: path_seg elim: path_glob_ConsE)
      finally show ?thesis .
    qed
  qed
qed auto



text \<open>A star in a name is taken as the pattern's star, literally: \<open>*\<close> does not match every name.\<close>

lemma star_in_name: "\<not> segment_match ''*'' ''*x'' \<and> segment_match ''*'' ''ax'' \<and> segment_match ''**'' ''*x''"
  by code_simp

end
