(* ===== verification/Results.thy ===== *)
theory Results
  imports Rust_Text BTree
begin

text \<open>
  What a job produced, after \<open>k2-node-proto/src/results.rs\<close>: the test summary with its merge, the
  outputs with their caps, and the JUnit reader as the state machine the code runs over the events of the XML
  reader. The XML reader is the \<open>quick_xml\<close> crate: \<open>parse_junit\<close> takes it as an argument that
  gives the events up to the end of the text or to the first error. The counters are \<open>u64\<close> and wrap.
\<close>

section \<open>Test summaries\<close>

definition MAX_FILES :: nat where "MAX_FILES = 1000"
definition MAX_FAILING :: nat where "MAX_FAILING = 200"
definition MAX_MESSAGE_CHARS :: nat where "MAX_MESSAGE_CHARS = 600"
definition MAX_MESSAGE_LINES :: nat where "MAX_MESSAGE_LINES = 6"
definition MAX_NOTES :: nat where "MAX_NOTES = 32"
definition MAX_TOOLS_USED :: nat where "MAX_TOOLS_USED = 48"
definition MAX_TOOL_VALUE :: nat where "MAX_TOOL_VALUE = 160"

record ArtifactInfo =
  ar_name :: string
  ar_sha256 :: string
  ar_bytes :: nat

record FailingTest =
  ft_name :: string
  ft_classname :: "string option"
  ft_file :: "string option"
  ft_kind :: string
  ft_message :: string
  ft_shard :: "nat option"

record TestSummary =
  ts_total :: nat
  ts_passed :: nat
  ts_failed :: nat
  ts_errors :: nat
  ts_skipped :: nat
  ts_failing :: "FailingTest list"
  ts_truncated :: bool
  ts_sources :: "string list"

definition TestSummary_default :: TestSummary where
  "TestSummary_default = \<lparr> ts_total = 0, ts_passed = 0, ts_failed = 0, ts_errors = 0, ts_skipped = 0, ts_failing = [],
     ts_truncated = False, ts_sources = [] \<rparr>"

definition passed_all :: "TestSummary \<Rightarrow> bool" where
  "passed_all t \<longleftrightarrow> ts_failed t = 0 \<and> ts_errors t = 0"

text \<open>The failures of the other summary are appended up to the cap; the first one over it sets the mark.\<close>

fun absorb_failing :: "FailingTest list \<Rightarrow> bool \<Rightarrow> FailingTest list \<Rightarrow> FailingTest list \<times> bool" where
  "absorb_failing acc tr [] = (acc, tr)"
| "absorb_failing acc tr (f # fs) =
     (if MAX_FAILING \<le> length acc then (acc, True) else absorb_failing (acc @ [f]) tr fs)"

definition absorb_source :: "string list \<Rightarrow> string \<Rightarrow> string list" where
  "absorb_source ss s = (if s \<in> set ss then ss else ss @ [s])"

definition absorb :: "TestSummary \<Rightarrow> TestSummary \<Rightarrow> TestSummary" where
  "absorb t u =
     (let (failing, truncated) = absorb_failing (ts_failing t) (ts_truncated t \<or> ts_truncated u) (ts_failing u)
      in \<lparr> ts_total = u64_add (ts_total t) (ts_total u), ts_passed = u64_add (ts_passed t) (ts_passed u),
           ts_failed = u64_add (ts_failed t) (ts_failed u), ts_errors = u64_add (ts_errors t) (ts_errors u),
           ts_skipped = u64_add (ts_skipped t) (ts_skipped u), ts_failing = failing, ts_truncated = truncated,
           ts_sources = foldl absorb_source (ts_sources t) (ts_sources u) \<rparr>)"

definition tag_shard :: "nat \<Rightarrow> TestSummary \<Rightarrow> TestSummary" where
  "tag_shard i t = t \<lparr> ts_failing := map (\<lambda>f. f \<lparr> ft_shard := Some i \<rparr>) (ts_failing t) \<rparr>"

definition merge_shards :: "(nat \<times> TestSummary) list \<Rightarrow> TestSummary" where
  "merge_shards parts = foldl (\<lambda>out (i, t). absorb out (tag_shard i t)) TestSummary_default parts"

section \<open>Outputs\<close>

record JobResources =
  jr_peak_mem_bytes :: "nat option"
  jr_mem_source :: string
  jr_cpu_ms :: "nat option"
  jr_cpu_source :: string
  jr_mem_limit_bytes :: "nat option"

record HostSample =
  hs_at :: int
  hs_load1_milli :: nat
  hs_cpus :: nat
  hs_steal_permille :: "nat option"
  hs_other_jobs :: nat

record HostStamps =
  hst_start :: "HostSample option"
  hst_end :: "HostSample option"

record Outputs =
  ou_artifacts :: "ArtifactInfo list"
  ou_tests :: "TestSummary option"
  ou_notes :: "string list"
  ou_tools_used :: "(string, string) btree"
  ou_resources :: "JobResources option"
  ou_host :: "HostStamps option"

definition ellipsis :: string where
  "ellipsis = [CHR 0xE2, CHR 0x80, CHR 0xA6]"

definition clip :: "string \<Rightarrow> nat \<Rightarrow> string" where
  "clip s m = (if length (segs s) \<le> m then s else concat (take (m - 1) (segs s)) @ ellipsis)"

definition clip_failing :: "FailingTest \<Rightarrow> FailingTest" where
  "clip_failing f = f \<lparr> ft_name := clip (ft_name f) 500, ft_classname := map_option (\<lambda>c. clip c 300) (ft_classname f),
     ft_file := map_option (\<lambda>c. clip c 300) (ft_file f), ft_message := clip (ft_message f) MAX_MESSAGE_CHARS \<rparr>"

definition capped_tests :: "TestSummary \<Rightarrow> TestSummary" where
  "capped_tests t =
     (let t1 = (if MAX_FAILING < length (ts_failing t)
                then t \<lparr> ts_failing := take MAX_FAILING (ts_failing t), ts_truncated := True \<rparr> else t)
      in t1 \<lparr> ts_failing := map clip_failing (ts_failing t1), ts_sources := take 64 (ts_sources t1) \<rparr>)"

text \<open>\<open>while len > MAX { pop_last() }\<close> on the sorted entries.\<close>

fun pop_over :: "nat \<Rightarrow> 'a list \<Rightarrow> 'a list" where
  "pop_over m [] = []"
| "pop_over m (x # xs) = (if m < length (x # xs) then pop_over m (butlast (x # xs)) else x # xs)"

definition capped :: "Outputs \<Rightarrow> Outputs" where
  "capped o0 = o0 \<lparr> ou_artifacts := take MAX_FILES (ou_artifacts o0),
     ou_tools_used := map (\<lambda>(k, v). (k, clip v MAX_TOOL_VALUE)) (pop_over MAX_TOOLS_USED (ou_tools_used o0)),
     ou_notes := map (\<lambda>n. clip n 300) (take MAX_NOTES (ou_notes o0)),
     ou_tests := map_option capped_tests (ou_tests o0) \<rparr>"

section \<open>JUnit\<close>

text \<open>The events of the XML reader. An attribute has its key and its unescaped value, \<open>None\<close> where
  unescaping fails; a text its decoded form; an entity reference its character and its decoded name.\<close>

record xml_tag =
  tag_name :: string
  tag_attrs :: "(string \<times> string option) list"

datatype xml_event =
  Ev_Start xml_tag
  | Ev_Empty xml_tag
  | Ev_End string
  | Ev_Text "string option"
  | Ev_CData string
  | Ev_Ref "string option" "string option"
  | Ev_Other

type_synonym xml_reader = "string \<Rightarrow> xml_event list \<times> string option"

record Case =
  tc_name :: string
  tc_classname :: "string option"
  tc_file :: "string option"
  tc_verdict :: "(string \<times> string) option"
  tc_skipped :: bool
  tc_text :: string
  tc_in_verdict :: bool

definition Case_default :: Case where
  "Case_default = \<lparr> tc_name = [], tc_classname = None, tc_file = None, tc_verdict = None, tc_skipped = False,
     tc_text = [], tc_in_verdict = False \<rparr>"

record JunitState =
  ju_out :: TestSummary
  ju_case :: "Case option"
  ju_suite_file :: "string option list"
  ju_saw_root :: bool

definition attr :: "xml_tag \<Rightarrow> string \<Rightarrow> string option" where
  "attr e k = (case find (\<lambda>(n, v). n = k) (tag_attrs e) of Some (n, v) \<Rightarrow> v | None \<Rightarrow> None)"

text \<open>The first lines of a failure text, trimmed and capped.\<close>

definition first_lines :: "string \<Rightarrow> string" where
  "first_lines s = clip (join_with [CHR 0x0A] (take MAX_MESSAGE_LINES
     (filter (\<lambda>l. trim l \<noteq> []) (map trim_end (str_lines s))))) MAX_MESSAGE_CHARS"

definition junit_finish :: "Case \<Rightarrow> TestSummary \<Rightarrow> TestSummary" where
  "junit_finish c out0 =
     (let out = out0 \<lparr> ts_total := u64_add (ts_total out0) 1 \<rparr> in
      case tc_verdict c of
        Some (kind, msg) \<Rightarrow>
          (let out1 = (if kind = ''error'' then out \<lparr> ts_errors := u64_add (ts_errors out) 1 \<rparr>
                       else out \<lparr> ts_failed := u64_add (ts_failed out) 1 \<rparr>)
           in if length (ts_failing out1) < MAX_FAILING
              then out1 \<lparr> ts_failing := ts_failing out1 @
                     [\<lparr> ft_name = tc_name c, ft_classname = tc_classname c, ft_file = tc_file c, ft_kind = kind,
                        ft_message = first_lines (if trim msg = [] then tc_text c else msg), ft_shard = None \<rparr>] \<rparr>
              else out1 \<lparr> ts_truncated := True \<rparr>)
      | None \<Rightarrow> if tc_skipped c then out \<lparr> ts_skipped := u64_add (ts_skipped out) 1 \<rparr>
                else out \<lparr> ts_passed := u64_add (ts_passed out) 1 \<rparr>)"

text \<open>\<open>case.take()\<close> and \<open>finish\<close>: the open case, if any, is counted.\<close>

definition finish_open :: "JunitState \<Rightarrow> JunitState" where
  "finish_open st = (case ju_case st of
     Some c \<Rightarrow> st \<lparr> ju_case := None, ju_out := junit_finish c (ju_out st) \<rparr> | None \<Rightarrow> st)"

definition map_case :: "(Case \<Rightarrow> Case) \<Rightarrow> JunitState \<Rightarrow> JunitState" where
  "map_case f st = st \<lparr> ju_case := map_option f (ju_case st) \<rparr>"

definition suite_file_of :: "JunitState \<Rightarrow> string option" where
  "suite_file_of st = (if ju_suite_file st = [] then None else last (ju_suite_file st))"

definition junit_case :: "xml_tag \<Rightarrow> string option \<Rightarrow> Case" where
  "junit_case e sf = Case_default \<lparr> tc_name := unwrap_or (attr e ''name'') [],
     tc_classname := (case attr e ''classname'' of Some s \<Rightarrow> if s \<noteq> [] then Some s else None | None \<Rightarrow> None),
     tc_file := or_else (attr e ''file'') sf \<rparr>"

definition set_verdict :: "xml_tag \<Rightarrow> bool \<Rightarrow> Case \<Rightarrow> Case" where
  "set_verdict e is_empty c =
     (if tc_verdict c = None
      then c \<lparr> tc_verdict := Some (if tag_name e = ''error'' then ''error'' else ''failure'', unwrap_or (attr e ''message'') []),
               tc_in_verdict := \<not> is_empty \<rparr>
      else c)"

definition junit_open :: "xml_tag \<Rightarrow> bool \<Rightarrow> JunitState \<Rightarrow> JunitState" where
  "junit_open e is_empty st =
     (let name = tag_name e in
      if name = ''testsuites'' then st \<lparr> ju_saw_root := True \<rparr>
      else if name = ''testsuite'' then
        (let st1 = st \<lparr> ju_saw_root := True \<rparr>
         in if is_empty then st1 else st1 \<lparr> ju_suite_file := ju_suite_file st1 @ [attr e ''file''] \<rparr>)
      else if name = ''testcase'' then
        (let st1 = finish_open st; st2 = st1 \<lparr> ju_case := Some (junit_case e (suite_file_of st1)) \<rparr>
         in if is_empty then finish_open st2 else st2)
      else if name = ''failure'' \<or> name = ''error'' then map_case (set_verdict e is_empty) st
      else if name = ''skipped'' then map_case (tc_skipped_update (\<lambda>_. True)) st
      else st)"

definition junit_close :: "string \<Rightarrow> JunitState \<Rightarrow> JunitState" where
  "junit_close name st =
     (if name = ''testcase'' then finish_open st
      else if name = ''testsuite'' then st \<lparr> ju_suite_file := butlast (ju_suite_file st) \<rparr>
      else if name = ''failure'' \<or> name = ''error'' then map_case (tc_in_verdict_update (\<lambda>_. False)) st
      else st)"

definition push_text :: "string \<Rightarrow> Case \<Rightarrow> Case" where
  "push_text s c = (if tc_in_verdict c \<and> length (tc_text c) < 8192 then c \<lparr> tc_text := tc_text c @ s \<rparr> else c)"

definition junit_text :: "string \<Rightarrow> JunitState \<Rightarrow> JunitState" where
  "junit_text s st = map_case (push_text s) st"

definition entity :: "string \<Rightarrow> string" where
  "entity n = (if n = ''amp'' then ''&'' else if n = ''lt'' then ''<'' else if n = ''gt'' then ''>''
     else if n = ''quot'' then [CHR 0x22] else if n = ''apos'' then [CHR 0x27] else [])"

fun event_text :: "xml_event \<Rightarrow> string option" where
  "event_text (Ev_Text t) = Some (unwrap_or t [])"
| "event_text (Ev_CData t) = Some t"
| "event_text (Ev_Ref (Some ch) n) = Some ch"
| "event_text (Ev_Ref None n) = Some (entity (unwrap_or n []))"
| "event_text _ = None"

fun junit_event :: "JunitState \<Rightarrow> xml_event \<Rightarrow> JunitState" where
  "junit_event st (Ev_Start e) = junit_open e False st"
| "junit_event st (Ev_Empty e) = junit_open e True st"
| "junit_event st (Ev_End n) = junit_close n st"
| "junit_event st ev = (case event_text ev of Some s \<Rightarrow> junit_text s st | None \<Rightarrow> st)"

definition junit_init :: "string \<Rightarrow> JunitState" where
  "junit_init source = \<lparr> ju_out = TestSummary_default \<lparr> ts_sources := [source] \<rparr>, ju_case = None, ju_suite_file = [],
     ju_saw_root = False \<rparr>"

datatype junit_error = XmlError string | NoSuite

definition parse_junit :: "xml_reader \<Rightarrow> string \<Rightarrow> string \<Rightarrow> junit_error + TestSummary" where
  "parse_junit read_xml xml source =
     (case read_xml xml of
        (evs, Some e) \<Rightarrow> Inl (XmlError e)
      | (evs, None) \<Rightarrow>
          (let st = finish_open (foldl junit_event (junit_init source) evs)
           in if ju_saw_root st then Inr (ju_out st) else Inl NoSuite))"

section \<open>Facts\<close>

lemma pop_over_take: "pop_over m xs = take m xs"
proof (induction m xs rule: pop_over.induct)
  case (2 m x xs)
  show ?case
  proof (cases "m < length (x # xs)")
    case True
    then show ?thesis using 2 by (simp add: take_butlast del: butlast.simps)
  qed simp
qed simp

text \<open>Cutting a string between two of its characters leaves the characters before the cut as they are.\<close>

lemma segs_cut: "j < length (segs s) \<Longrightarrow> segs (concat (take j (segs s)) @ r) = take j (segs s) @ segs r"
proof (induction s arbitrary: j rule: segs.induct)
  case (2 c cs)
  show ?case
  proof (cases j)
    case (Suc k)
    let ?u = "utf8_extra c"
    have k: "k < length (segs (drop ?u cs))" using 2(2) Suc by simp
    then have "drop ?u cs \<noteq> []" by (metis list.size(3) not_less_zero segs.simps(1))
    then have le: "?u \<le> length cs" by simp
    show ?thesis using 2(1) [OF k] Suc le by simp
  qed simp
qed simp

lemma segs_ellipsis: "segs ellipsis = [ellipsis]"
  by (simp add: ellipsis_def utf8_extra_def byte_def numeral_2_eq_2)

lemma segs_clip: "0 < m \<Longrightarrow> length (segs (clip s m)) \<le> m"
  by (auto simp: clip_def segs_cut segs_ellipsis)

lemma clip_idem [simp]: "0 < m \<Longrightarrow> clip (clip s m) m = clip s m"
  using segs_clip [of m s] by (simp add: clip_def [of "clip s m"])

end
