(* ===== verification/Junit_Rules.thy ===== *)
theory Junit_Rules
  imports Results_Rules
begin

text \<open>
  The JUnit reader: its counters on every stream of events, and on a well-nested report the refinement of the
  summary read off the document tree (\<open>summary_of\<close>) by the state machine (\<open>parse_junit\<close>).
\<close>

section \<open>The counters\<close>

definition counts_ok :: "nat \<Rightarrow> TestSummary \<Rightarrow> bool" where
  "counts_ok k t \<longleftrightarrow> ts_total t = ts_passed t + ts_failed t + ts_errors t + ts_skipped t \<and> ts_total t \<le> k
     \<and> length (ts_failing t) = min 200 (ts_failed t + ts_errors t)
     \<and> (ts_truncated t \<longleftrightarrow> 200 < ts_failed t + ts_errors t)
     \<and> list_all (\<lambda>f. length (segs (ft_message f)) \<le> 600) (ts_failing t)"

definition junit_inv :: "nat \<Rightarrow> JunitState \<Rightarrow> bool" where
  "junit_inv k st \<longleftrightarrow> counts_ok (if ju_case st = None then k else k - 1) (ju_out st) \<and> (ju_case st \<noteq> None \<longrightarrow> 0 < k)"

lemma counts_ok_mono: "counts_ok k t \<Longrightarrow> k \<le> l \<Longrightarrow> counts_ok l t"
  by (auto simp: counts_ok_def)

lemma message_short: "length (segs (first_lines s)) \<le> 600"
  by (simp add: first_lines_def MAX_MESSAGE_CHARS_def segs_clip)

definition failed_case :: "Case \<Rightarrow> string \<Rightarrow> string \<Rightarrow> FailingTest" where
  "failed_case c kind msg = \<lparr> ft_name = tc_name c, ft_classname = tc_classname c, ft_file = tc_file c, ft_kind = kind,
     ft_message = first_lines (if trim msg = [] then tc_text c else msg), ft_shard = None \<rparr>"

lemma finish_passed:
  "tc_verdict c = None \<Longrightarrow> junit_finish c t = (if tc_skipped c
     then t \<lparr> ts_total := u64_add (ts_total t) 1, ts_skipped := u64_add (ts_skipped t) 1 \<rparr>
     else t \<lparr> ts_total := u64_add (ts_total t) 1, ts_passed := u64_add (ts_passed t) 1 \<rparr>)"
  by (simp add: junit_finish_def Let_def)

lemma finish_failed:
  assumes "tc_verdict c = Some (kind, msg)"
  shows "ts_total (junit_finish c t) = u64_add (ts_total t) 1"
    "ts_passed (junit_finish c t) = ts_passed t" "ts_skipped (junit_finish c t) = ts_skipped t"
    "ts_errors (junit_finish c t) = (if kind = ''error'' then u64_add (ts_errors t) 1 else ts_errors t)"
    "ts_failed (junit_finish c t) = (if kind = ''error'' then ts_failed t else u64_add (ts_failed t) 1)"
    "ts_failing (junit_finish c t) = (if length (ts_failing t) < 200 then ts_failing t @ [failed_case c kind msg] else ts_failing t)"
    "ts_truncated (junit_finish c t) \<longleftrightarrow> ts_truncated t \<or> 200 \<le> length (ts_failing t)"
    "ts_sources (junit_finish c t) = ts_sources t"
  by (simp_all add: junit_finish_def Let_def assms MAX_FAILING_def failed_case_def)

lemma finish_counts:
  assumes "counts_ok k t" "Suc k < 2 ^ 64"
  shows "counts_ok (Suc k) (junit_finish c t)"
proof (cases "tc_verdict c")
  case None
  then show ?thesis using assms by (simp add: finish_passed counts_ok_def u64_add_def)
next
  case (Some v)
  obtain kind msg where v: "tc_verdict c = Some (kind, msg)" using Some by (cases v) auto
  have m: "length (segs (ft_message (failed_case c kind msg))) \<le> 600" by (simp add: failed_case_def message_short)
  have "u64_add n 1 = Suc n" if "n \<le> k" for n using that assms(2) by (simp add: u64_add_def)
  then show ?thesis using assms m unfolding counts_ok_def finish_failed [OF v] by auto
qed

lemma finish_open_inv: "junit_inv k st \<Longrightarrow> k < 2 ^ 64 \<Longrightarrow> junit_inv k (finish_open st) \<and> ju_case (finish_open st) = None"
  by (cases "ju_case st") (use finish_counts [of "k - 1"] in \<open>auto simp: junit_inv_def finish_open_def\<close>)

lemma case_update_inv: "junit_inv k st \<Longrightarrow> junit_inv k (map_case f st)"
  by (auto simp: junit_inv_def map_case_def)

lemma other_fields_inv: "junit_inv k st \<Longrightarrow> junit_inv k (st \<lparr> ju_saw_root := b \<rparr>) \<and> junit_inv k (st \<lparr> ju_suite_file := fs \<rparr>)"
  by (auto simp: junit_inv_def)

lemma junit_inv_Suc: "junit_inv k st \<Longrightarrow> junit_inv (Suc k) st"
  by (auto simp: junit_inv_def elim: counts_ok_mono)

lemma junit_open_inv:
  assumes "junit_inv k st" "Suc k < 2 ^ 64"
  shows "junit_inv (Suc k) (junit_open e b st)"
proof (cases "tag_name e = ''testcase''")
  case True
  have "junit_inv k (finish_open st)" "ju_case (finish_open st) = None" using finish_open_inv assms by auto
  then have "junit_inv (Suc k) (finish_open st \<lparr> ju_case := Some c \<rparr>)" for c by (auto simp: junit_inv_def)
  then show ?thesis using True assms(2) finish_open_inv by (auto simp: junit_open_def Let_def)
next
  case False
  then show ?thesis using junit_inv_Suc [OF assms(1)]
    by (auto simp: junit_open_def Let_def case_update_inv other_fields_inv)
qed

lemma junit_event_inv:
  assumes "junit_inv k st" "Suc k < 2 ^ 64"
  shows "junit_inv (Suc k) (junit_event st ev)"
proof (cases "ev = Ev_Other \<or> event_text ev \<noteq> None")
  case True
  then show ?thesis using junit_inv_Suc [OF assms(1)]
    by (cases ev rule: event_text.cases) (auto simp: junit_text_def case_update_inv)
next
  case False
  have "junit_inv (Suc k) (junit_close n st)" for n
    using junit_inv_Suc [OF assms(1)] finish_open_inv [of "Suc k" st] assms(2)
    by (auto simp: junit_close_def case_update_inv other_fields_inv)
  then show ?thesis using False junit_open_inv [OF assms] by (cases ev rule: event_text.cases) auto
qed

lemma junit_events_inv:
  "junit_inv k st \<Longrightarrow> k + length evs < 2 ^ 64 \<Longrightarrow> junit_inv (k + length evs) (foldl junit_event st evs)"
proof (induction evs arbitrary: k st)
  case (Cons ev evs)
  then show ?case using junit_event_inv [of k st ev] Cons.IH [of "Suc k" "junit_event st ev"] by simp
qed simp

text \<open>On every stream of events, well nested or not, a summary the reader returns has counters that add up,
  at most 200 failures listed, the mark exactly when there were more, and messages of at most 600 characters.\<close>

theorem junit_counts_add_up:
  assumes "parse_junit read_xml xml source = Inr t" "length (fst (read_xml xml)) < 2 ^ 64"
  shows "ts_total t = ts_passed t + ts_failed t + ts_errors t + ts_skipped t
    \<and> length (ts_failing t) = min 200 (ts_failed t + ts_errors t)
    \<and> (ts_truncated t \<longleftrightarrow> 200 < ts_failed t + ts_errors t)
    \<and> list_all (\<lambda>f. length (segs (ft_message f)) \<le> 600) (ts_failing t)"
proof -
  obtain evs where r: "read_xml xml = (evs, None)"
    and t: "t = ju_out (finish_open (foldl junit_event (junit_init source) evs))"
    using assms(1) by (auto simp: parse_junit_def Let_def split: prod.splits option.splits if_splits)
  have "junit_inv 0 (junit_init source)"
    by (simp add: junit_inv_def junit_init_def counts_ok_def TestSummary_default_def)
  then have "junit_inv (length evs) (foldl junit_event (junit_init source) evs)"
    using junit_events_inv [of 0 _ evs] assms(2) r by simp
  then have "junit_inv (length evs) (finish_open (foldl junit_event (junit_init source) evs))"
    "ju_case (finish_open (foldl junit_event (junit_init source) evs)) = None"
    using finish_open_inv [of "length evs"] assms(2) r by auto
  then show ?thesis unfolding t by (simp add: junit_inv_def counts_ok_def)
qed

section \<open>Documents\<close>

text \<open>A report as a tree: test suites, test cases, what a case holds, and everything the reader passes over.\<close>

datatype case_child =
  Verdict xml_tag "xml_event list"
  | Verdict_Empty xml_tag
  | Skipped xml_tag "xml_event list"
  | Skipped_Empty xml_tag
  | Other_Child xml_event

datatype doc_node =
  Root xml_tag "doc_node list"
  | Suite xml_tag "doc_node list"
  | Test xml_tag "case_child list"
  | Test_Empty xml_tag
  | Other_Node xml_event

definition special :: "string list" where
  "special = [''testsuites'', ''testsuite'', ''testcase'', ''failure'', ''error'', ''skipped'']"

fun noise :: "xml_event \<Rightarrow> bool" where
  "noise (Ev_Start e) \<longleftrightarrow> tag_name e \<notin> set special"
| "noise (Ev_Empty e) \<longleftrightarrow> tag_name e \<notin> set special"
| "noise (Ev_End n) \<longleftrightarrow> n \<notin> set special"
| "noise ev \<longleftrightarrow> True"

fun child_wf :: "case_child \<Rightarrow> bool" where
  "child_wf (Verdict e body) \<longleftrightarrow> tag_name e \<in> {''failure'', ''error''} \<and> list_all noise body"
| "child_wf (Verdict_Empty e) \<longleftrightarrow> tag_name e \<in> {''failure'', ''error''}"
| "child_wf (Skipped e body) \<longleftrightarrow> tag_name e = ''skipped'' \<and> list_all noise body"
| "child_wf (Skipped_Empty e) \<longleftrightarrow> tag_name e = ''skipped''"
| "child_wf (Other_Child ev) \<longleftrightarrow> noise ev"

fun doc_wf :: "doc_node \<Rightarrow> bool" where
  "doc_wf (Root e kids) \<longleftrightarrow> tag_name e = ''testsuites'' \<and> list_all doc_wf kids"
| "doc_wf (Suite e kids) \<longleftrightarrow> tag_name e = ''testsuite'' \<and> list_all doc_wf kids"
| "doc_wf (Test e kids) \<longleftrightarrow> tag_name e = ''testcase'' \<and> list_all child_wf kids"
| "doc_wf (Test_Empty e) \<longleftrightarrow> tag_name e = ''testcase''"
| "doc_wf (Other_Node ev) \<longleftrightarrow> noise ev"

text \<open>The events of the document.\<close>

fun child_events :: "case_child \<Rightarrow> xml_event list" where
  "child_events (Verdict e body) = Ev_Start e # body @ [Ev_End (tag_name e)]"
| "child_events (Verdict_Empty e) = [Ev_Empty e]"
| "child_events (Skipped e body) = Ev_Start e # body @ [Ev_End ''skipped'']"
| "child_events (Skipped_Empty e) = [Ev_Empty e]"
| "child_events (Other_Child ev) = [ev]"

fun doc_events :: "doc_node \<Rightarrow> xml_event list" where
  "doc_events (Root e kids) = Ev_Start e # concat (map doc_events kids) @ [Ev_End ''testsuites'']"
| "doc_events (Suite e kids) = Ev_Start e # concat (map doc_events kids) @ [Ev_End ''testsuite'']"
| "doc_events (Test e kids) = Ev_Start e # concat (map child_events kids) @ [Ev_End ''testcase'']"
| "doc_events (Test_Empty e) = [Ev_Empty e]"
| "doc_events (Other_Node ev) = [ev]"

text \<open>What the document says: a case fails with its first \<open>failure\<close> or \<open>error\<close>, else it is skipped
  when it says so, else it passed; it belongs to its own file, else to that of the suite directly around it.\<close>

datatype outcome = Passed | Left_Out | Fails FailingTest

definition capped_text :: "xml_event list \<Rightarrow> string" where
  "capped_text body = foldl (\<lambda>t s. if length t < 8192 then t @ s else t) [] (map (\<lambda>ev. unwrap_or (event_text ev) []) body)"

fun verdict_of :: "case_child \<Rightarrow> (string \<times> string \<times> string) option" where
  "verdict_of (Verdict e body) =
     Some (if tag_name e = ''error'' then ''error'' else ''failure'', unwrap_or (attr e ''message'') [], capped_text body)"
| "verdict_of (Verdict_Empty e) =
     Some (if tag_name e = ''error'' then ''error'' else ''failure'', unwrap_or (attr e ''message'') [], [])"
| "verdict_of _ = None"

fun says_skipped :: "case_child \<Rightarrow> bool" where
  "says_skipped (Skipped e body) \<longleftrightarrow> True"
| "says_skipped (Skipped_Empty e) \<longleftrightarrow> True"
| "says_skipped _ \<longleftrightarrow> False"

fun first_verdict :: "case_child list \<Rightarrow> (string \<times> string \<times> string) option" where
  "first_verdict [] = None"
| "first_verdict (k # kids) = or_else (verdict_of k) (first_verdict kids)"

definition case_outcome :: "string option \<Rightarrow> xml_tag \<Rightarrow> case_child list \<Rightarrow> outcome" where
  "case_outcome sf e kids =
     (case first_verdict kids of
        Some (kind, msg, body) \<Rightarrow> Fails \<lparr> ft_name = unwrap_or (attr e ''name'') [],
          ft_classname = (if attr e ''classname'' = Some [] then None else attr e ''classname''),
          ft_file = or_else (attr e ''file'') sf, ft_kind = kind,
          ft_message = first_lines (if trim msg = [] then body else msg), ft_shard = None \<rparr>
      | None \<Rightarrow> if list_ex says_skipped kids then Left_Out else Passed)"

fun outcomes :: "string option \<Rightarrow> doc_node \<Rightarrow> outcome list" where
  "outcomes sf (Root e kids) = concat (map (outcomes sf) kids)"
| "outcomes sf (Suite e kids) = concat (map (outcomes (attr e ''file'')) kids)"
| "outcomes sf (Test e kids) = [case_outcome sf e kids]"
| "outcomes sf (Test_Empty e) = [case_outcome sf e []]"
| "outcomes sf (Other_Node ev) = []"

fun has_suite :: "doc_node \<Rightarrow> bool" where
  "has_suite (Root e kids) \<longleftrightarrow> True"
| "has_suite (Suite e kids) \<longleftrightarrow> True"
| "has_suite _ \<longleftrightarrow> False"

fun failing_of :: "outcome list \<Rightarrow> FailingTest list" where
  "failing_of [] = []"
| "failing_of (Fails f # os) = f # failing_of os"
| "failing_of (p # os) = failing_of os"

definition count64 :: "('a \<Rightarrow> bool) \<Rightarrow> 'a list \<Rightarrow> nat" where
  "count64 p xs = length (filter p xs) mod 2 ^ 64"

definition summary_of :: "string \<Rightarrow> outcome list \<Rightarrow> TestSummary" where
  "summary_of source os =
     \<lparr> ts_total = count64 (\<lambda>_. True) os, ts_passed = count64 (\<lambda>p. p = Passed) os,
       ts_failed = count64 (\<lambda>f. ft_kind f \<noteq> ''error'') (failing_of os),
       ts_errors = count64 (\<lambda>f. ft_kind f = ''error'') (failing_of os), ts_skipped = count64 (\<lambda>p. p = Left_Out) os,
       ts_failing = take 200 (failing_of os), ts_truncated = (200 < length (failing_of os)), ts_sources = [source] \<rparr>"

section \<open>The reader on a document\<close>

definition noise_case :: "xml_event \<Rightarrow> Case \<Rightarrow> Case" where
  "noise_case ev = push_text (unwrap_or (event_text ev) [])"

lemma map_case_comp: "map_case f (map_case g st) = map_case (\<lambda>c. f (g c)) st"
  by (simp add: map_case_def option.map_comp comp_def)

lemma push_nothing [simp]: "push_text [] = (\<lambda>c. c)"
  by (simp add: push_text_def fun_eq_iff)

lemma map_case_id [simp]: "map_case (\<lambda>c. c) st = st"
  by (simp add: map_case_def option.map_ident)

lemma junit_noise: "noise ev \<Longrightarrow> junit_event st ev = map_case (noise_case ev) st"
  by (cases ev rule: event_text.cases)
    (auto simp: special_def junit_open_def junit_close_def junit_text_def noise_case_def Let_def unwrap_or_def)

lemma junit_noises:
  "list_all noise body \<Longrightarrow> foldl junit_event st body = map_case (\<lambda>c. foldl (\<lambda>c ev. noise_case ev c) c body) st"
proof (induction body arbitrary: st)
  case (Cons ev body)
  then show ?case by (simp add: junit_noise map_case_comp)
qed simp

lemma noises_closed: "\<not> tc_in_verdict c \<Longrightarrow> foldl (\<lambda>c ev. noise_case ev c) c body = c"
  by (induction body) (simp_all add: noise_case_def push_text_def)

definition add_text :: "string \<Rightarrow> string \<Rightarrow> string" where
  "add_text t s = (if length t < 8192 then t @ s else t)"

lemma noises_open:
  "tc_in_verdict c \<Longrightarrow> foldl (\<lambda>c ev. noise_case ev c) c body
     = c \<lparr> tc_text := foldl add_text (tc_text c) (map (\<lambda>ev. unwrap_or (event_text ev) []) body) \<rparr>"
  by (induction body arbitrary: c) (simp_all add: noise_case_def push_text_def add_text_def)

text \<open>The effect of a case's children on the open case, between verdicts.\<close>

fun child_case :: "Case \<Rightarrow> case_child \<Rightarrow> Case" where
  "child_case c k =
     (let c1 = (case verdict_of k of
          Some (kind, msg, body) \<Rightarrow> if tc_verdict c = None then c \<lparr> tc_verdict := Some (kind, msg), tc_text := body \<rparr> else c
        | None \<Rightarrow> c)
      in if says_skipped k then c1 \<lparr> tc_skipped := True \<rparr> else c1)"

definition between :: "Case \<Rightarrow> bool" where
  "between c \<longleftrightarrow> \<not> tc_in_verdict c \<and> (tc_verdict c = None \<longrightarrow> tc_text c = [])"

lemma on_case: "ju_case st = Some c \<Longrightarrow> map_case f st = st \<lparr> ju_case := Some (f c) \<rparr>"
  by (simp add: map_case_def)

lemma junit_verdict:
  "tag_name e \<in> {''failure'', ''error''} \<Longrightarrow> junit_open e b st = map_case (set_verdict e b) st
    \<and> junit_close (tag_name e) st = map_case (tc_in_verdict_update (\<lambda>_. False)) st"
  by (auto simp: junit_open_def junit_close_def Let_def)

lemma junit_skipped:
  "tag_name e = ''skipped'' \<Longrightarrow> junit_open e b st = map_case (tc_skipped_update (\<lambda>_. True)) st"
  "junit_close ''skipped'' st = st"
  by (simp_all add: junit_open_def junit_close_def Let_def)

lemma verdict_case:
  assumes "between c"
  shows "tc_in_verdict_update (\<lambda>_. False) (foldl (\<lambda>c ev. noise_case ev c) (set_verdict e False c) body)
      = child_case c (Verdict e body)"
    "set_verdict e True c = child_case c (Verdict_Empty e)"
proof -
  have n: "foldl (\<lambda>c ev. noise_case ev c) c body = c" using assms by (simp add: between_def noises_closed)
  show "tc_in_verdict_update (\<lambda>_. False) (foldl (\<lambda>c ev. noise_case ev c) (set_verdict e False c) body)
      = child_case c (Verdict e body)"
    using assms n by (cases "tc_verdict c")
      (auto simp: set_verdict_def noises_open between_def capped_text_def add_text_def [abs_def])
  show "set_verdict e True c = child_case c (Verdict_Empty e)"
    using assms by (cases "tc_verdict c") (auto simp: set_verdict_def between_def)
qed

lemma child_run:
  assumes "child_wf k" "between c" "ju_case st = Some c"
  shows "foldl junit_event st (child_events k) = st \<lparr> ju_case := Some (child_case c k) \<rparr>"
  using assms
proof (cases k)
  case (Verdict e body)
  then show ?thesis using assms verdict_case(1) [OF assms(2)]
    by (simp add: junit_verdict junit_noises map_case_def del: child_case.simps)
next
  case (Verdict_Empty e)
  then show ?thesis using assms verdict_case(2) [OF assms(2)]
    by (simp add: junit_verdict on_case [OF assms(3)] del: child_case.simps)
next
  case (Skipped e body)
  have "foldl (\<lambda>c ev. noise_case ev c) (c \<lparr> tc_skipped := True \<rparr>) body = c \<lparr> tc_skipped := True \<rparr>"
    using assms(2) by (simp add: between_def noises_closed)
  then show ?thesis using assms Skipped by (simp add: junit_skipped junit_noises map_case_def)
next
  case (Skipped_Empty e)
  then show ?thesis using assms by (simp add: junit_skipped on_case [OF assms(3)])
next
  case (Other_Child ev)
  have "noise_case ev c = c" using noises_closed [of c "[ev]"] assms(2) by (simp add: between_def)
  then show ?thesis using assms Other_Child by (simp add: junit_noise on_case [OF assms(3)])
qed

lemma child_between: "between c \<Longrightarrow> between (child_case c k)"
  by (auto simp: between_def split: option.splits)

lemma children_run:
  "list_all child_wf kids \<Longrightarrow> between c \<Longrightarrow> ju_case st = Some c \<Longrightarrow>
    foldl junit_event st (concat (map child_events kids)) = st \<lparr> ju_case := Some (foldl child_case c kids) \<rparr>"
proof (induction kids arbitrary: c st)
  case (Cons k kids)
  then show ?case using child_run [of k c st] child_between [of c k] by (simp del: child_case.simps)
qed simp

lemma child_fields:
  "tc_name (child_case c k) = tc_name c \<and> tc_classname (child_case c k) = tc_classname c \<and> tc_file (child_case c k) = tc_file c
   \<and> (tc_skipped (child_case c k) \<longleftrightarrow> tc_skipped c \<or> says_skipped k)
   \<and> tc_verdict (child_case c k) = or_else (tc_verdict c) (map_option (\<lambda>(k, m, b). (k, m)) (verdict_of k))
   \<and> tc_text (child_case c k) = (if tc_verdict c = None
       then (case verdict_of k of Some (k, m, b) \<Rightarrow> b | None \<Rightarrow> tc_text c) else tc_text c)"
  by (cases "verdict_of k"; cases "tc_verdict c") (auto simp: Let_def or_else_def)

lemma children_fields:
  "tc_name (foldl child_case c kids) = tc_name c \<and> tc_classname (foldl child_case c kids) = tc_classname c
   \<and> tc_file (foldl child_case c kids) = tc_file c \<and> (tc_skipped (foldl child_case c kids) \<longleftrightarrow> tc_skipped c \<or> list_ex says_skipped kids)
   \<and> tc_verdict (foldl child_case c kids) = or_else (tc_verdict c) (map_option (\<lambda>(k, m, b). (k, m)) (first_verdict kids))
   \<and> tc_text (foldl child_case c kids) = (if tc_verdict c = None
       then (case first_verdict kids of Some (k, m, b) \<Rightarrow> b | None \<Rightarrow> tc_text c) else tc_text c)"
proof (induction kids arbitrary: c)
  case (Cons k kids)
  show ?case using child_fields [of c k] Cons.IH [of "child_case c k"]
    by (cases "verdict_of k"; cases "tc_verdict c"; cases "first_verdict kids") (auto simp: or_else_def simp del: child_case.simps)
qed (simp add: or_else_def split: option.split)

fun add_outcome :: "TestSummary \<Rightarrow> outcome \<Rightarrow> TestSummary" where
  "add_outcome t Passed = t \<lparr> ts_total := u64_add (ts_total t) 1, ts_passed := u64_add (ts_passed t) 1 \<rparr>"
| "add_outcome t Left_Out = t \<lparr> ts_total := u64_add (ts_total t) 1, ts_skipped := u64_add (ts_skipped t) 1 \<rparr>"
| "add_outcome t (Fails f) = t \<lparr> ts_total := u64_add (ts_total t) 1,
     ts_failed := (if ft_kind f = ''error'' then ts_failed t else u64_add (ts_failed t) 1),
     ts_errors := (if ft_kind f = ''error'' then u64_add (ts_errors t) 1 else ts_errors t),
     ts_failing := (if length (ts_failing t) < 200 then ts_failing t @ [f] else ts_failing t),
     ts_truncated := (ts_truncated t \<or> 200 \<le> length (ts_failing t)) \<rparr>"

lemma case_run: "junit_finish (foldl child_case (junit_case e sf) kids) t = add_outcome t (case_outcome sf e kids)"
proof (cases "first_verdict kids")
  case None
  then show ?thesis using children_fields [of "junit_case e sf" kids]
    by (simp add: finish_passed case_outcome_def junit_case_def Case_default_def or_else_def)
next
  case (Some v)
  obtain kind msg body where v: "first_verdict kids = Some (kind, msg, body)" using Some by (cases v) auto
  let ?c = "foldl child_case (junit_case e sf) kids"
  have c: "tc_verdict ?c = Some (kind, msg)" "tc_text ?c = body"
    "tc_name ?c = unwrap_or (attr e ''name'') []" "tc_file ?c = or_else (attr e ''file'') sf"
    "tc_classname ?c = (if attr e ''classname'' = Some [] then None else attr e ''classname'')"
    using children_fields [of "junit_case e sf" kids] v
    by (auto simp: junit_case_def Case_default_def or_else_def split: option.split)
  have "case_outcome sf e kids = Fails (failed_case ?c kind msg)"
    by (simp add: case_outcome_def v failed_case_def c)
  then show ?thesis by (intro TestSummary.equality) (simp_all add: finish_failed [OF c(1)] failed_case_def)
qed

section \<open>Documents\<close>

lemma test_run:
  assumes "tag_name e = ''testcase''" "list_all child_wf kids" "ju_case st = None"
  shows "foldl junit_event st (doc_events (Test e kids))
      = st \<lparr> ju_out := add_outcome (ju_out st) (case_outcome (suite_file_of st) e kids) \<rparr>"
    "junit_event st (Ev_Empty e) = st \<lparr> ju_out := add_outcome (ju_out st) (case_outcome (suite_file_of st) e []) \<rparr>"
proof -
  let ?c = "junit_case e (suite_file_of st)" and ?st = "st \<lparr> ju_case := Some (junit_case e (suite_file_of st)) \<rparr>"
  have "between ?c" by (simp add: between_def junit_case_def Case_default_def)
  then have "foldl junit_event ?st (concat (map child_events kids)) = ?st \<lparr> ju_case := Some (foldl child_case ?c kids) \<rparr>"
    using children_run assms(2) by simp
  moreover have f: "finish_open (st \<lparr> ju_case := Some c \<rparr>) = st \<lparr> ju_out := junit_finish c (ju_out st) \<rparr>" for c
    using assms(3) by (simp add: finish_open_def)
  moreover have o: "junit_open e False st = ?st" using assms(1,3) by (simp add: junit_open_def Let_def finish_open_def)
  ultimately show "foldl junit_event st (doc_events (Test e kids))
      = st \<lparr> ju_out := add_outcome (ju_out st) (case_outcome (suite_file_of st) e kids) \<rparr>"
    by (simp add: junit_close_def case_run)
  show "junit_event st (Ev_Empty e) = st \<lparr> ju_out := add_outcome (ju_out st) (case_outcome (suite_file_of st) e []) \<rparr>"
    using assms(1,3) f [of ?c] case_run [of e "suite_file_of st" "[]"] by (simp add: junit_open_def Let_def finish_open_def)
qed

definition reads :: "doc_node \<Rightarrow> bool" where
  "reads n \<longleftrightarrow> (\<forall>st. ju_case st = None \<longrightarrow> foldl junit_event st (doc_events n)
     = st \<lparr> ju_out := foldl add_outcome (ju_out st) (outcomes (suite_file_of st) n),
            ju_saw_root := (ju_saw_root st \<or> has_suite n) \<rparr>)"

lemma reads_list:
  "list_all reads ns \<Longrightarrow> ju_case st = None \<Longrightarrow> foldl junit_event st (concat (map doc_events ns))
     = st \<lparr> ju_out := foldl add_outcome (ju_out st) (concat (map (outcomes (suite_file_of st)) ns)),
            ju_saw_root := (ju_saw_root st \<or> list_ex has_suite ns) \<rparr>"
proof (induction ns arbitrary: st)
  case (Cons n ns)
  then show ?case by (simp add: reads_def suite_file_of_def disj_assoc)
qed simp

lemma doc_reads: "doc_wf n \<Longrightarrow> reads n"
proof (induction n)
  case (Root e kids)
  then have k: "list_all reads kids" by (simp add: list_all_iff)
  show ?case unfolding reads_def
  proof (intro allI impI)
    fix st :: JunitState assume "ju_case st = None"
    then show "foldl junit_event st (doc_events (Root e kids)) = st \<lparr> ju_out := foldl add_outcome (ju_out st)
        (outcomes (suite_file_of st) (Root e kids)), ju_saw_root := (ju_saw_root st \<or> has_suite (Root e kids)) \<rparr>"
      using Root.prems by (simp add: reads_list [OF k] junit_open_def junit_close_def suite_file_of_def Let_def)
  qed
next
  case (Suite e kids)
  then have k: "list_all reads kids" by (simp add: list_all_iff)
  show ?case unfolding reads_def
  proof (intro allI impI)
    fix st :: JunitState assume "ju_case st = None"
    then show "foldl junit_event st (doc_events (Suite e kids)) = st \<lparr> ju_out := foldl add_outcome (ju_out st)
        (outcomes (suite_file_of st) (Suite e kids)), ju_saw_root := (ju_saw_root st \<or> has_suite (Suite e kids)) \<rparr>"
      using Suite.prems by (simp add: reads_list [OF k] junit_open_def junit_close_def suite_file_of_def Let_def)
  qed
next
  case (Test e kids)
  then show ?case using test_run(1) [of e kids] by (simp add: reads_def del: doc_events.simps)
next
  case (Test_Empty e)
  then show ?case using test_run(2) [of e "[]"] by (simp add: reads_def)
next
  case (Other_Node ev)
  then show ?case by (simp add: reads_def junit_noise map_case_def)
qed

lemma count64_snoc: "count64 p (xs @ [x]) = (if p x then u64_add (count64 p xs) 1 else count64 p xs)"
  by (simp add: count64_def u64_add_def mod_simps)

lemma failing_of_append [simp]: "failing_of (xs @ ys) = failing_of xs @ failing_of ys"
  by (induction xs rule: failing_of.induct) auto

lemma summary_run: "foldl add_outcome (TestSummary_default \<lparr> ts_sources := [source] \<rparr>) os = summary_of source os"
proof (induction os rule: rev_induct)
  case (snoc x os)
  then show ?case
    by (cases x; intro TestSummary.equality) (auto simp: summary_of_def count64_snoc)
qed (simp add: summary_of_def TestSummary_default_def count64_def)


definition ex_tag :: "string \<Rightarrow> (string \<times> string) list \<Rightarrow> xml_tag" where
  "ex_tag n as = \<lparr> tag_name = n, tag_attrs = map (\<lambda>(k, v). (k, Some v)) as \<rparr>"

definition ex_report :: "doc_node list" where
  "ex_report = [Root (ex_tag ''testsuites'' []) [Suite (ex_tag ''testsuite'' [(''file'', ''a.rs'')])
     [Test (ex_tag ''testcase'' [(''name'', ''passes'')]) [],
      Test (ex_tag ''testcase'' [(''name'', ''fails'')])
        [Verdict (ex_tag ''failure'' []) [Ev_Text (Some ''left ''), Ev_Ref None (Some ''lt''), Ev_Text (Some '' right'')],
         Verdict_Empty (ex_tag ''error'' [])],
      Test (ex_tag ''testcase'' [(''name'', ''flaky'')]) [Other_Child (Ev_Empty (ex_tag ''flakyFailure'' []))],
      Test (ex_tag ''testcase'' [(''name'', ''ignored'')]) [Skipped_Empty (ex_tag ''skipped'' [])]]]]"

definition ex_reader :: xml_reader where
  "ex_reader xml = (concat (map doc_events ex_report), None)"


text \<open>A report cut off inside a case, and with cases that were never closed.\<close>

definition ex_broken :: xml_reader where
  "ex_broken xml = ([Ev_Start (ex_tag ''testsuite'' []), Ev_Start (ex_tag ''testcase'' []), Ev_Start (ex_tag ''testcase'' []),
     Ev_Start (ex_tag ''error'' [(''message'', ''boom'')]), Ev_Empty (ex_tag ''testcase'' []), Ev_Start (ex_tag ''testcase'' [])], None)"

definition ex_broken_summary :: TestSummary where
  "ex_broken_summary = \<lparr> ts_total = 4, ts_passed = 3, ts_failed = 0, ts_errors = 1, ts_skipped = 0,
     ts_failing = [\<lparr> ft_name = [], ft_classname = None, ft_file = None, ft_kind = ''error'', ft_message = ''boom'', ft_shard = None \<rparr>],
     ts_truncated = False, ts_sources = [''x''] \<rparr>"

theorem junit_counts_add_up_witness:
  "parse_junit ex_broken [] ''x'' = Inr ex_broken_summary
   \<and> ts_total ex_broken_summary = ts_passed ex_broken_summary + ts_failed ex_broken_summary
       + ts_errors ex_broken_summary + ts_skipped ex_broken_summary"
proof -
  have h: "parse_junit ex_broken [] ''x'' = Inr ex_broken_summary" by code_simp
  have l: "length (fst (ex_broken [])) < 2 ^ 64" by (simp add: ex_broken_def)
  show ?thesis using h junit_counts_add_up [OF h l] by blast
qed

end
