(* ===== verification/Retry.thy ===== *)
theory Retry
  imports Frames Rust_Text "HOL-Library.Code_Target_Numeral"
begin

text \<open>
  The retry policy (\<open>k2-core/src/compute/retry.rs\<close>): which ends are infrastructure failures, the backoff
  between attempts, and the health of a node. The process environment is an argument of \<open>tuning\<close>. Signed
  values are \<open>i64\<close>, the counter of failures is a \<open>u32\<close>; both wrap where the code does not saturate.
\<close>

section \<open>Knobs\<close>

record Tuning =
  tu_replace_after_secs :: int
  tu_node_lost_secs :: int
  tu_retry_base_secs :: int
  tu_retry_cap_secs :: int
  tu_quarantine_after :: nat
  tu_quarantine_secs :: int
  tu_queue_timeout_attached_secs :: int
  tu_queue_timeout_detached_secs :: int
  tu_stall_secs :: int
  tu_tick_millis :: nat
  tu_any_hold_secs :: int
  tu_servers_refresh_secs :: int

definition Tuning_default :: Tuning where
  "Tuning_default = \<lparr> tu_replace_after_secs = 60, tu_node_lost_secs = 600, tu_retry_base_secs = 30, tu_retry_cap_secs = 600,
     tu_quarantine_after = 3, tu_quarantine_secs = 1800, tu_queue_timeout_attached_secs = 7200,
     tu_queue_timeout_detached_secs = 86400, tu_stall_secs = 1800, tu_tick_millis = 5000, tu_any_hold_secs = 60,
     tu_servers_refresh_secs = 300 \<rparr>"

text \<open>\<open>str::parse::<i64>\<close>: an optional sign, then digits, within the type.\<close>

definition parse_i64 :: "string \<Rightarrow> int option" where
  "parse_i64 s = (case s of
     c # cs \<Rightarrow>
       if c = CHR ''-'' then (if cs \<noteq> [] \<and> list_all is_ascii_digit cs \<and> digits_val cs \<le> 2 ^ 63 then Some (- int (digits_val cs)) else None)
       else map_option int (parse_unsigned (2 ^ 63 - 1) s)
   | [] \<Rightarrow> None)"

definition node_lost_override :: "string option \<Rightarrow> bool \<Rightarrow> bool \<Rightarrow> int option" where
  "node_lost_override val debug_build test_knobs =
     (if \<not> (debug_build \<or> test_knobs) then None
      else Option.bind val (\<lambda>v. Option.bind (parse_i64 (trim v)) (\<lambda>s. if 5 \<le> s \<and> s \<le> 600 then Some s else None)))"

definition NODE_LOST_ENV :: string where "NODE_LOST_ENV = ''K2_COMPUTE_NODE_LOST_SECS''"
definition TEST_KNOBS_ENV :: string where "TEST_KNOBS_ENV = ''K2_COMPUTE_TEST_KNOBS''"

text \<open>The knobs in force: those set for tests, or the defaults, then the override.\<close>

definition tuning :: "(string \<Rightarrow> string option) \<Rightarrow> bool \<Rightarrow> Tuning option \<Rightarrow> Tuning" where
  "tuning env_var debug_build set_for_tests =
     (let t = unwrap_or set_for_tests Tuning_default;
          knobs = (case env_var TEST_KNOBS_ENV of Some v \<Rightarrow> trim v = ''1'' | None \<Rightarrow> False)
      in case node_lost_override (env_var NODE_LOST_ENV) debug_build knobs of
           Some s \<Rightarrow> t \<lparr> tu_node_lost_secs := s \<rparr> | None \<Rightarrow> t)"

definition MAX_RETRIES :: nat where "MAX_RETRIES = 5"

section \<open>Which ends are infrastructure\<close>

definition JOB_FAILED_REASONS :: "string list" where
  "JOB_FAILED_REASONS = [''cwd_invalid'', ''env_refused'', ''tool_unsupported'', ''need_invalid'', ''mem_cap'', ''wrong_node'',
     ''queue_timeout'', ''exceeds_node_caps'', ''secret_not_granted'', ''secret_not_active'', ''secret_attempt_stale'',
     ''secret_already_running'', ''secret_too_large'', ''secret_payload_mismatch'']"

definition NEEDS_FAILED_REASONS :: "string list" where
  "NEEDS_FAILED_REASONS = [''package_not_approved'', ''package_missing'', ''tool_install_failed'', ''relay_cap'',
     ''secret_needs_wall'', ''secret_untrusted_server'', ''secret_needs_update'', ''secret_env_linux_only'']"

definition NO_STRIKE_REASONS :: "string list" where
  "NO_STRIKE_REASONS = [NODE_UPDATE, ''secret_unavailable'', ''secret_vault_locked'']"

definition reason_in :: "string option \<Rightarrow> string list \<Rightarrow> bool" where
  "reason_in reason rs \<longleftrightarrow> (case reason of Some r \<Rightarrow> r \<in> set rs | None \<Rightarrow> False)"

fun is_infra :: "JobState \<Rightarrow> string option \<Rightarrow> bool" where
  "is_infra JS_Interrupted reason \<longleftrightarrow> True"
| "is_infra JS_Unknown reason \<longleftrightarrow> True"
| "is_infra JS_Failed reason \<longleftrightarrow> \<not> reason_in reason JOB_FAILED_REASONS"
| "is_infra _ reason \<longleftrightarrow> False"

definition retry_elsewhere_only :: "string option \<Rightarrow> bool" where
  "retry_elsewhere_only reason \<longleftrightarrow> reason_in reason NEEDS_FAILED_REASONS"

definition counts_against_node :: "JobState \<Rightarrow> string option \<Rightarrow> bool" where
  "counts_against_node state reason \<longleftrightarrow> is_infra state reason
     \<and> \<not> (reason_in reason NEEDS_FAILED_REASONS \<or> reason_in reason NO_STRIKE_REASONS)"

section \<open>Backoff\<close>

definition sat_i64 :: "int \<Rightarrow> int" where
  "sat_i64 x = max (- (2 ^ 63)) (min x (2 ^ 63 - 1))"

definition backoff_secs :: "nat \<Rightarrow> Tuning \<Rightarrow> nat \<Rightarrow> int" where
  "backoff_secs n t seed =
     (let e = min (n - 1) 20;
          raw = max (min (sat_i64 (tu_retry_base_secs t * 2 ^ e)) (tu_retry_cap_secs t)) 0
      in if raw = 0 then 0
         else (let span = max (raw div 5) 0
               in if span = 0 then raw
                  else (let jitter = i64_sub (as_i64 (seed mod nat (2 * span + 1))) span
                        in max 0 (min (i64_add raw jitter) (max (tu_retry_cap_secs t) raw)))))"

section \<open>The health of a node\<close>

record NodeHealth =
  nh_consecutive :: nat
  nh_until :: "int option"

definition NodeHealth_default :: NodeHealth where
  "NodeHealth_default = \<lparr> nh_consecutive = 0, nh_until = None \<rparr>"

definition is_set_aside :: "NodeHealth \<Rightarrow> int \<Rightarrow> bool" where
  "is_set_aside h now \<longleftrightarrow> (case nh_until h of Some u \<Rightarrow> u > now | None \<Rightarrow> False)"

definition health_record :: "NodeHealth \<Rightarrow> JobState \<Rightarrow> string option \<Rightarrow> int \<Rightarrow> Tuning \<Rightarrow> NodeHealth \<times> bool" where
  "health_record h state reason now t =
     (if counts_against_node state reason then
        (let h1 = h \<lparr> nh_consecutive := as_u32 (nh_consecutive h + 1) \<rparr>
         in if max (tu_quarantine_after t) 1 \<le> nh_consecutive h1 \<and> \<not> is_set_aside h1 now
            then (h1 \<lparr> nh_until := Some (i64_add now (tu_quarantine_secs t)), nh_consecutive := 0 \<rparr>, True)
            else (h1, False))
      else if state = JS_Done then (h \<lparr> nh_consecutive := 0 \<rparr>, False)
      else (h, False))"

section \<open>Facts\<close>

lemma counts_infra: "counts_against_node s r \<Longrightarrow> is_infra s r"
  by (simp add: counts_against_node_def)

lemma infra_terminal: "is_infra s r \<Longrightarrow> s \<in> {JS_Interrupted, JS_Unknown, JS_Failed}"
  by (cases s) auto

text \<open>The default wait of retry \<open>n\<close> before the jitter: 30 s doubled each time, at most ten minutes.\<close>

lemma div5_bounds: "(0 :: int) \<le> r \<Longrightarrow> 5 * (r div 5) \<le> r \<and> 0 \<le> r div 5"
  by presburger

text \<open>The wait before a retry is never negative, never over the cap, and within a fifth of the doubled base
  (capped), for every retry number, every seed and any caps a test may set within \<open>i64\<close>.\<close>

theorem backoff_bounds:
  assumes "0 \<le> tu_retry_base_secs t" "tu_retry_base_secs t < 2 ^ 40" "0 \<le> tu_retry_cap_secs t" "tu_retry_cap_secs t < 2 ^ 62"
  shows "let raw = min (tu_retry_base_secs t * 2 ^ min (n - 1) 20) (tu_retry_cap_secs t)
    in 0 \<le> backoff_secs n t seed \<and> backoff_secs n t seed \<le> tu_retry_cap_secs t
       \<and> raw - raw div 5 \<le> backoff_secs n t seed \<and> backoff_secs n t seed \<le> raw + raw div 5"
proof -
  define e where "e = min (n - 1) 20"
  define raw where "raw = min (tu_retry_base_secs t * 2 ^ e) (tu_retry_cap_secs t)"
  have e: "(2 :: int) ^ e \<le> 2 ^ 20" unfolding e_def by (intro power_increasing) auto
  have b: "tu_retry_base_secs t * 2 ^ e \<le> 2 ^ 40 * 2 ^ 20"
    using assms(1,2) e by (intro mult_mono) auto
  have b0: "0 \<le> tu_retry_base_secs t * 2 ^ e" using assms(1) by simp
  have s: "sat_i64 (tu_retry_base_secs t * 2 ^ e) = tu_retry_base_secs t * 2 ^ e"
    using b b0 by (simp add: sat_i64_def)
  have r: "0 \<le> raw" "raw \<le> tu_retry_cap_secs t" using b0 assms(3) by (auto simp: raw_def)
  have m: "max (min (sat_i64 (tu_retry_base_secs t * 2 ^ e)) (tu_retry_cap_secs t)) 0 = raw"
    using r unfolding s raw_def by simp
  define span where "span = raw div 5"
  have sp: "0 \<le> span" "5 * span \<le> raw" using div5_bounds [OF r(1)] by (auto simp: span_def)
  have bk: "backoff_secs n t seed = (if raw = 0 then 0 else if span = 0 then raw
      else max 0 (min (i64_add raw (i64_sub (as_i64 (seed mod nat (2 * span + 1))) span)) (tu_retry_cap_secs t)))"
    unfolding backoff_secs_def Let_def e_def [symmetric] m using sp r
    by (simp add: span_def [symmetric] max_absorb1)
  define k where "k = int (seed mod nat (2 * span + 1))"
  have "seed mod nat (2 * span + 1) < nat (2 * span + 1)" using sp by (intro mod_less_divisor) simp
  then have "k < int (nat (2 * span + 1))" unfolding k_def by (simp only: of_nat_less_iff)
  then have k: "0 \<le> k" "k \<le> 2 * span" using sp by (auto simp: k_def)
  have big: "raw < 2 ^ 62" using r assms(4) by linarith
  have "as_i64 (seed mod nat (2 * span + 1)) = k"
    using k sp big by (simp add: as_i64_def k_def [symmetric] i64_ok_def)
  moreover have "i64_sub k span = k - span" "i64_add raw (k - span) = raw + (k - span)"
    using k sp big r by (simp_all add: i64_sub_def i64_add_def i64_ok_def)
  ultimately have "backoff_secs n t seed = (if raw = 0 then 0 else if span = 0 then raw
      else max 0 (min (raw + (k - span)) (tu_retry_cap_secs t)))"
    unfolding bk by simp
  then have "0 \<le> backoff_secs n t seed \<and> backoff_secs n t seed \<le> tu_retry_cap_secs t
      \<and> raw - span \<le> backoff_secs n t seed \<and> backoff_secs n t seed \<le> raw + span"
    using k sp r by (auto simp: max_def min_def)
  then show ?thesis unfolding raw_def e_def span_def Let_def .
qed

theorem backoff_bounds_witness:
  "480 \<le> backoff_secs 9 Tuning_default 12345 \<and> backoff_secs 9 Tuning_default 12345 \<le> 600"
proof -
  have h: "0 \<le> tu_retry_base_secs Tuning_default" "tu_retry_base_secs Tuning_default < 2 ^ 40"
    "0 \<le> tu_retry_cap_secs Tuning_default" "tu_retry_cap_secs Tuning_default < 2 ^ 62"
    by (simp_all add: Tuning_default_def)
  show ?thesis using backoff_bounds [OF h, of 9 12345] by (simp add: Tuning_default_def Let_def)
qed

section \<open>When a node is set aside\<close>

text \<open>The ends of a node's attempts in order, each with its time.\<close>

type_synonym node_end = "JobState \<times> string option \<times> int"

definition counted :: "node_end \<Rightarrow> bool" where
  "counted e \<longleftrightarrow> counts_against_node (fst e) (fst (snd e))"

definition health_run :: "Tuning \<Rightarrow> node_end list \<Rightarrow> NodeHealth" where
  "health_run t es = foldl (\<lambda>h (s, r, now). fst (health_record h s r now t)) NodeHealth_default es"

lemma health_run_snoc: "health_run t (es @ [(s, r, now)]) = fst (health_record (health_run t es) s r now t)"
  by (simp add: health_run_def)

lemma health_streak:
  "length es < 2 ^ 32 \<Longrightarrow> \<exists>pre suf. es = pre @ suf \<and> nh_consecutive (health_run t es) \<le> length (filter counted suf)
     \<and> JS_Done \<notin> fst ` set suf"
proof (induction es rule: rev_induct)
  case (snoc e es)
  obtain s r now where e: "e = (s, r, now)" by (cases e)
  obtain pre suf where p: "es = pre @ suf" "nh_consecutive (health_run t es) \<le> length (filter counted suf)"
    "JS_Done \<notin> fst ` set suf" using snoc by auto
  show ?case
  proof (cases "counted e")
    case True
    then have "s \<noteq> JS_Done" by (cases s) (auto simp: e counted_def counts_against_node_def)
    moreover have "nh_consecutive (health_run t (es @ [e])) \<le> Suc (nh_consecutive (health_run t es))"
      by (simp add: e health_run_snoc health_record_def Let_def as_u32_def)
    ultimately show ?thesis using p True
      by (intro exI [of _ pre] exI [of _ "suf @ [e]"]) (auto simp: e)
  next
    case False
    show ?thesis
    proof (cases "s = JS_Done")
      case True
      then show ?thesis using False
        by (intro exI [of _ "es @ [e]"] exI [of _ "[]"]) (auto simp: e health_run_snoc health_record_def counted_def)
    next
      case s: False
      then have "nh_consecutive (health_run t (es @ [e])) = nh_consecutive (health_run t es)"
        using False by (simp add: e health_run_snoc health_record_def counted_def)
      then show ?thesis using p s by (intro exI [of _ pre] exI [of _ "suf @ [e]"]) (auto simp: e)
    qed
  qed
qed (auto simp: health_run_def NodeHealth_default_def)

text \<open>A node is set aside only by a failure held against it, when it was not set aside, and after at least the
  set number of such failures with no finished command between them; it is then set aside until exactly the set
  time, with its count at zero.\<close>

theorem set_aside_earned:
  assumes "snd (health_record (health_run t es) s r now t)" "Suc (length es) < 2 ^ 32"
  shows "\<exists>pre suf. es @ [(s, r, now)] = pre @ suf \<and> max (tu_quarantine_after t) 1 \<le> length (filter counted suf)
      \<and> JS_Done \<notin> fst ` set suf \<and> counted (s, r, now) \<and> \<not> is_set_aside (health_run t es) now
      \<and> health_run t (es @ [(s, r, now)]) = \<lparr> nh_consecutive = 0, nh_until = Some (i64_add now (tu_quarantine_secs t)) \<rparr>"
proof -
  obtain pre suf where p: "es = pre @ suf" "nh_consecutive (health_run t es) \<le> length (filter counted suf)"
    "JS_Done \<notin> fst ` set suf" using health_streak [of es t] assms(2) by auto
  have f: "counts_against_node s r" "max (tu_quarantine_after t) 1 \<le> Suc (nh_consecutive (health_run t es))"
    "\<not> is_set_aside (health_run t es) now"
    using assms(1) by (auto simp: health_record_def Let_def is_set_aside_def as_u32_def split: if_splits
        intro: order_trans [OF _ mod_less_eq_dividend])
  have h: "health_run t (es @ [(s, r, now)]) = \<lparr> nh_consecutive = 0, nh_until = Some (i64_add now (tu_quarantine_secs t)) \<rparr>"
    using assms(1) by (auto simp: health_run_snoc health_record_def Let_def split: if_splits)
  have "s \<noteq> JS_Done" using f(1) by (cases s) (auto simp: counts_against_node_def)
  then show ?thesis using p f h
    by (intro exI [of _ pre] exI [of _ "suf @ [(s, r, now)]"]) (auto simp: counted_def)
qed

definition lost :: "int \<Rightarrow> node_end" where
  "lost now = (JS_Interrupted, Some ''node_lost'', now)"

theorem set_aside_earned_witness:
  "health_run Tuning_default [lost 10, (JS_Done, None, 20), lost 30, (JS_Interrupted, Some NODE_UPDATE, 35), lost 40, lost 50]
     = \<lparr> nh_consecutive = 0, nh_until = Some 1850 \<rparr>"
proof -
  let ?es = "[lost 10, (JS_Done, None, 20), lost 30, (JS_Interrupted, Some NODE_UPDATE, 35), lost 40]"
  have h: "snd (health_record (health_run Tuning_default ?es) JS_Interrupted (Some ''node_lost'') 50 Tuning_default)"
    by code_simp
  have a: "i64_add 50 (tu_quarantine_secs Tuning_default) = 1850" by code_simp
  have l: "Suc (length ?es) < 2 ^ 32" by simp
  have "health_run Tuning_default (?es @ [(JS_Interrupted, Some ''node_lost'', 50)])
      = \<lparr> nh_consecutive = 0, nh_until = Some (i64_add 50 (tu_quarantine_secs Tuning_default)) \<rparr>"
    using set_aside_earned [OF h l] by blast
  then show ?thesis by (simp add: a lost_def [of 50])
qed

end
