(* ===== verification/Job_Frames.thy ===== *)
theory Job_Frames
  imports Frames Share_Wire Results
begin

text \<open>
  The frames that carry a job (\<open>frames.rs\<close>): the plan with its limits and sources, the fence of an attempt,
  the node's state updates and ledger rows, the cancel reasons, and the checks of the names and folders a node
  uses for them.
\<close>

section \<open>The plan\<close>

record Blob =
  bl_sha256 :: string
  bl_bytes :: nat

record JobLimits =
  jl_max_secs :: nat
  jl_cpu_millis :: "nat option"
  jl_mem_bytes :: "nat option"
  jl_disk_bytes :: nat
  jl_log_cap_bytes :: nat

record Src =
  sr_project_key :: string
  sr_remote_url :: "string option"
  sr_commit :: string
  sr_dirty :: "Blob option"
  sr_slots :: nat

record SrcWith =
  sw_path :: string
  sw_project_key :: string
  sw_remote_url :: "string option"
  sw_commit :: string

record Plan =
  pl_job_id :: string
  pl_node_id :: string
  pl_workspace_id :: string
  pl_workspace_label :: string
  pl_requested_by :: string
  pl_argv :: "string list"
  pl_env :: "(string, string) btree"
  pl_cwd :: "string option"
  pl_limits :: JobLimits
  pl_src :: "Src option"
  pl_exclusive :: bool
  pl_created_at :: int
  pl_needs :: "string list"
  pl_artifacts :: "string list"
  pl_stall_secs :: "nat option"
  pl_class :: "JobClass option"
  pl_session_id :: "string option"
  pl_est_secs :: "nat option"
  pl_est_p90_secs :: "nat option"
  pl_ws_max_running :: "nat option"
  pl_secret_env :: "string list"
  pl_tier :: "Tier option"
  pl_cache :: "string option"
  pl_src_path :: "string option"
  pl_with :: "SrcWith list"
  pl_submitter :: "string option"
  pl_submitter_max_running :: "nat option"
  pl_packages :: "string list"
  pl_git_access :: "string list"

definition tier_or_class :: "Plan \<Rightarrow> Tier" where
  "tier_or_class p = (case pl_tier p of Some t \<Rightarrow> t | None \<Rightarrow> from_class (unwrap_or (pl_class p) Class_Interactive))"

definition plan_turn_key :: "Plan \<Rightarrow> string option" where
  "plan_turn_key p = or_else (pl_submitter p) (pl_session_id p)"

section \<open>The attempt and its frames\<close>

record Fence =
  fe_job_id :: string
  fe_attempt :: nat
  fe_generation :: nat
  fe_plan_digest :: string

record Assign =
  as_fence :: Fence
  as_plan :: Plan

record ExitInfo =
  xi_code :: "int option"
  xi_signal :: "int option"

record SrcRan =
  sn_commit :: string
  sn_tree :: string
  sn_dirty_sha256 :: "string option"
  sn_slot :: "nat option"
  sn_warmth :: "string option"

record StateUpdate =
  su_job_id :: string
  su_generation :: nat
  su_state :: JobState
  su_reason :: "string option"
  su_detail :: "string option"
  su_at :: int
  su_exit :: "ExitInfo option"
  su_src :: "SrcRan option"
  su_log_seq :: nat
  su_outputs :: "Outputs option"
  su_queue :: "QueuePos option"

record LedgerJob =
  lj_job_id :: string
  lj_generation :: nat
  lj_attempt :: nat
  lj_plan_digest :: string
  lj_state :: JobState
  lj_reason :: "string option"
  lj_started_at :: "int option"
  lj_ended_at :: "int option"
  lj_exit :: "ExitInfo option"
  lj_log_seq :: nat
  lj_boot_id :: string

record JobsSnapshot =
  sp_jobs :: "LedgerJob list"
  sp_last :: bool

record Cancel =
  cn_job_id :: string
  cn_generation :: nat
  cn_reason :: string

definition CANCEL_WITHDRAW :: string where "CANCEL_WITHDRAW = ''withdraw''"
definition CANCEL_IF_QUEUED :: string where "CANCEL_IF_QUEUED = ''if_queued''"

definition cancel_only_if_not_started :: "string \<Rightarrow> bool" where
  "cancel_only_if_not_started reason \<longleftrightarrow> reason = CANCEL_WITHDRAW \<or> reason = CANCEL_IF_QUEUED"

section \<open>Names a node uses as folders\<close>

definition folder_char :: "char \<Rightarrow> bool" where
  "folder_char c \<longleftrightarrow> is_ascii_alphanumeric c \<or> c = CHR ''_'' \<or> c = CHR ''-''"

definition valid_job_id :: "string \<Rightarrow> bool" where
  "valid_job_id s \<longleftrightarrow> 1 \<le> length s \<and> length s \<le> 64 \<and> list_all folder_char s"

definition valid_project_key :: "string \<Rightarrow> bool" where
  "valid_project_key s \<longleftrightarrow> 1 \<le> length s \<and> length s \<le> 128 \<and> list_all folder_char s"

definition job_id_ok :: "Assign \<Rightarrow> bool" where
  "job_id_ok a \<longleftrightarrow> valid_job_id (fe_job_id (as_fence a))"

definition project_key_ok :: "Assign \<Rightarrow> bool" where
  "project_key_ok a \<longleftrightarrow> (case pl_src (as_plan a) of Some s \<Rightarrow> valid_project_key (sr_project_key s) | None \<Rightarrow> True)"

definition MAX_WITH :: nat where "MAX_WITH = 8"

definition valid_layout_path :: "string \<Rightarrow> bool" where
  "valid_layout_path p \<longleftrightarrow> p \<noteq> [] \<and> length p \<le> 512 \<and> CHR 0x00 \<notin> set p \<and> CHR 0x5C \<notin> set p
     \<and> list_all (\<lambda>c. c \<noteq> [] \<and> c \<noteq> ''.'' \<and> c \<noteq> ''..'' \<and> c \<noteq> ''.k2'') (split_on (CHR ''/'') p)"

definition inside_of :: "string \<Rightarrow> string \<Rightarrow> bool" where
  "inside_of x y \<longleftrightarrow> x = y \<or> starts_with x (y @ ''/'')"

datatype layout_error = TooManyWith | BadSrcPath | BadWith string | Overlap string string

fun find_bad_with :: "SrcWith list \<Rightarrow> string option" where
  "find_bad_with [] = None"
| "find_bad_with (w # ws) = (if valid_layout_path (sw_path w) then find_bad_with ws else Some (sw_path w))"

fun find_overlap :: "string list \<Rightarrow> (string \<times> string) option" where
  "find_overlap [] = None"
| "find_overlap (a # rest) =
     (case find (\<lambda>b. inside_of a b \<or> inside_of b a) rest of Some b \<Rightarrow> Some (a, b) | None \<Rightarrow> find_overlap rest)"

definition check_layout :: "string \<Rightarrow> SrcWith list \<Rightarrow> layout_error option" where
  "check_layout src_path ws =
     (if MAX_WITH < length ws then Some TooManyWith
      else if src_path \<noteq> [] \<and> \<not> valid_layout_path src_path then Some BadSrcPath
      else (case find_bad_with ws of Some p \<Rightarrow> Some (BadWith p) | None \<Rightarrow>
        (case find_overlap (map sw_path ws @ (if src_path \<noteq> [] then [src_path] else [])) of
           Some (a, b) \<Rightarrow> Some (Overlap a b) | None \<Rightarrow> None)))"

section \<open>Folders never overlap\<close>

lemma find_bad_with_None: "find_bad_with ws = None \<longleftrightarrow> (\<forall>w \<in> set ws. valid_layout_path (sw_path w))"
  by (induction ws) auto

lemma find_overlap_None: "find_overlap xs = None \<longleftrightarrow> sorted_wrt (\<lambda>a b. \<not> inside_of a b \<and> \<not> inside_of b a) xs"
  by (induction xs) (auto simp: find_None_iff dest!: find_Some_iff' split: option.splits)

text \<open>Being inside, on strings, is a prefix of the folders' names.\<close>

lemma split_on_append_sep: "split_on d (x @ d # y) = split_on d x @ split_on d y"
  by (induction x) (auto split: list.splits)

lemma join_with_append: "ps \<noteq> [] \<Longrightarrow> qs \<noteq> [] \<Longrightarrow> join_with d (ps @ qs) = join_with d ps @ d @ join_with d qs"
proof (induction ps rule: induct_list012)
  case (2 p)
  then show ?case by (cases qs) auto
qed auto

lemma inside_of_iff:
  "inside_of x y \<longleftrightarrow> (\<exists>zs. split_on (CHR ''/'') x = split_on (CHR ''/'') y @ zs)"
proof
  assume "inside_of x y"
  then consider "x = y" | r where "x = (y @ ''/'') @ r" unfolding inside_of_def starts_with_iff by blast
  then show "\<exists>zs. split_on (CHR ''/'') x = split_on (CHR ''/'') y @ zs"
  proof cases
    case 2
    then have "x = y @ CHR ''/'' # r" by simp
    then show ?thesis by (simp only: split_on_append_sep) blast
  qed simp
next
  assume "\<exists>zs. split_on (CHR ''/'') x = split_on (CHR ''/'') y @ zs"
  then obtain zs where e: "split_on (CHR ''/'') x = split_on (CHR ''/'') y @ zs" by blast
  have x: "x = join_with ''/'' (split_on (CHR ''/'') y @ zs)" using join_split [of "CHR ''/''" x] e by simp
  show "inside_of x y"
  proof (cases "zs = []")
    case True
    then show ?thesis using x by (simp add: inside_of_def)
  next
    case False
    then have "x = (y @ ''/'') @ join_with ''/'' zs" using x by (simp add: join_with_append)
    then show ?thesis unfolding inside_of_def starts_with_iff by blast
  qed
qed

text \<open>An accepted layout has at most eight sibling repos, no folder with an empty, dot, dot-dot or \<open>.k2\<close> part,
  and no folder (the main repo's included, when it has one) that is another's or lies inside it, part by part.\<close>

theorem layout_disjoint:
  assumes "check_layout src_path ws = None" "folders = map sw_path ws @ (if src_path = [] then [] else [src_path])"
    "i < length folders" "j < length folders" "i \<noteq> j"
  shows "\<not> (\<exists>zs. split_on (CHR ''/'') (folders ! i) = split_on (CHR ''/'') (folders ! j) @ zs)
    \<and> set (split_on (CHR ''/'') (folders ! i)) \<inter> {[], ''.'', ''..'', ''.k2''} = {} \<and> length ws \<le> 8"
proof -
  have c: "length ws \<le> 8" "\<forall>w \<in> set ws. valid_layout_path (sw_path w)" "src_path \<noteq> [] \<Longrightarrow> valid_layout_path src_path"
    "find_overlap folders = None"
    using assms(1,2) by (auto simp: check_layout_def MAX_WITH_def find_bad_with_None [symmetric] split: if_splits option.splits)
  have v: "valid_layout_path (folders ! i)"
    using c(2,3) nth_mem [OF assms(3)] unfolding assms(2) by (auto split: if_splits)
  have "sorted_wrt (\<lambda>a b. \<not> inside_of a b \<and> \<not> inside_of b a) folders" using c(4) by (simp add: find_overlap_None)
  then have "\<not> inside_of (folders ! i) (folders ! j)"
    using assms(3-5) sorted_wrt_nth_less [of _ folders i j] sorted_wrt_nth_less [of _ folders j i]
    by (cases "i < j") auto
  then show ?thesis using c(1) v unfolding inside_of_iff valid_layout_path_def list_all_iff by blast
qed

theorem layout_disjoint_witness:
  "\<not> (\<exists>zs. split_on (CHR ''/'') ''apps/web'' = split_on (CHR ''/'') ''apps/web-base'' @ zs)"
proof -
  let ?w = "\<lambda>p. \<lparr> sw_path = p, sw_project_key = ''k'', sw_remote_url = None, sw_commit = ''c'' \<rparr>"
  have h: "check_layout ''apps/web'' [?w ''apps/web-base'', ?w ''lib''] = None"
    by (simp add: check_layout_def MAX_WITH_def valid_layout_path_def inside_of_def starts_with_def)
  show ?thesis using layout_disjoint [OF h refl, of 2 0] by simp
qed

end
