(* ===== verification/Job_Store.thy ===== *)
theory Job_Store
  imports Job_Frames
begin

text \<open>
  The jobs table of a server (\<open>compute_jobs\<close>, \<open>k2-core/src/compute/store.rs\<close>): the row with the
  controller's options, and every statement the store runs on it, as a function on the list of rows. An
  \<open>UPDATE\<close> changes the rows its \<open>WHERE\<close> selects and counts them; \<open>COALESCE\<close> is \<open>or_else\<close>.
  The columns that hold JSON (\<open>plan_json\<close> with the options beside the plan, \<open>summary_json\<close>, the argument
  lists) are the values they encode; a plan that can not be read back is \<open>None\<close>. The database answers: an I/O
  error of SQLite is not modelled.
\<close>

section \<open>Rows\<close>

record AnyFilter =
  af_os :: "string option"
  af_arch :: "string option"
  af_labels :: "(string, string) btree"
  af_avoid :: "string list"
  af_distro :: "string option"
  af_only :: "string list"

record AttemptNote =
  an_attempt :: int
  an_node_id :: string
  an_state :: string
  an_reason :: "string option"
  an_at :: int

record ShardRef =
  sh_parent :: string
  sh_index :: nat
  sh_of :: nat

record SecretPin =
  sc_name :: string
  sc_secret_id :: string
  sc_env :: string

record Placement =
  pm_mode :: string
  pm_policy :: string
  pm_node :: string
  pm_code :: string
  pm_why :: string
  pm_fits :: string
  pm_starts_now :: "bool option"
  pm_eta_secs :: "nat option"
  pm_considered :: nat
  pm_skipped :: "(string, nat) btree"
  pm_at :: int

record JobCtl =
  ct_any :: "AnyFilter option"
  ct_admin :: bool
  ct_timeout_secs :: "int option"
  ct_queue_timeout_secs :: "int option"
  ct_queued_at :: int
  ct_retries :: nat
  ct_retries_used :: nat
  ct_not_before :: "int option"
  ct_failed_attempts :: "AttemptNote list"
  ct_stall_secs :: "int option"
  ct_shard :: "ShardRef option"
  ct_shards :: "string list"
  ct_cancelled_by_requester :: bool
  ct_secrets :: "SecretPin list"
  ct_replaced_by :: "string option"
  ct_repo :: "string option"
  ct_why :: "string option"
  ct_mem_defaulted :: bool
  ct_placement :: "Placement option"
  ct_effective :: "string option"
  ct_tag :: "string option"
  ct_cpu_hints :: "string list"
  ct_clock :: "string option"
  ct_reported_late_secs :: "int option"
  ct_heard_at :: "int option"
  ct_stall_warned_gen :: "int option"

definition JobCtl_default :: JobCtl where
  "JobCtl_default = \<lparr> ct_any = None, ct_admin = False, ct_timeout_secs = None, ct_queue_timeout_secs = None, ct_queued_at = 0,
     ct_retries = 0, ct_retries_used = 0, ct_not_before = None, ct_failed_attempts = [], ct_stall_secs = None,
     ct_shard = None, ct_shards = [], ct_cancelled_by_requester = False, ct_secrets = [], ct_replaced_by = None,
     ct_repo = None, ct_why = None, ct_mem_defaulted = False, ct_placement = None, ct_effective = None, ct_tag = None,
     ct_cpu_hints = [], ct_clock = None, ct_reported_late_secs = None, ct_heard_at = None, ct_stall_warned_gen = None \<rparr>"

definition REPORTED_LATE_SECS :: int where "REPORTED_LATE_SECS = 120"
definition TAG_MAX :: nat where "TAG_MAX = 64"

definition valid_tag :: "string \<Rightarrow> bool" where
  "valid_tag t \<longleftrightarrow> t \<noteq> [] \<and> length t \<le> TAG_MAX
     \<and> list_all (\<lambda>c. is_ascii_alphanumeric c \<or> c \<in> set ''._:/-'') t"

record JobRow =
  j_id :: string
  j_client_job_id :: string
  j_node_id :: string
  j_workspace_id :: string
  j_session_id :: "string option"
  j_requested_by :: string
  j_argv :: "string list"
  j_env_names :: "string list"
  j_request_sha256 :: string
  j_plan :: "Plan option"
  j_src_commit :: "string option"
  j_src_tree :: "string option"
  j_dirty_sha256 :: "string option"
  j_state :: string
  j_reason :: "string option"
  j_detail :: "string option"
  j_attempt :: int
  j_generation :: int
  j_plan_digest :: string
  j_exclusive :: bool
  j_detach :: bool
  j_retry_interrupted :: bool
  j_exit_code :: "int option"
  j_signal :: "int option"
  j_created_at :: int
  j_assigned_at :: "int option"
  j_started_at :: "int option"
  j_ended_at :: "int option"
  j_log_seq :: int
  j_log_bytes :: int
  j_summary :: "Outputs option"
  j_receipt_json :: "string option"
  j_receipt_ok :: "bool option"
  j_notified_at :: "int option"
  j_ctl :: JobCtl
  j_class :: string
  j_est_secs :: "int option"
  j_node_queued :: bool
  j_node_pos :: "int option"
  j_node_eta_secs :: "int option"
  j_node_eta_p90_secs :: "int option"
  j_node_blocked_by :: "string option"
  j_node_seen_at :: "int option"
  j_withdraws :: int
  j_withdrawn_at :: "int option"
  j_tier :: string
  j_tier_asked :: "string option"
  j_submitter :: "string option"
  j_supersede_key :: "string option"
  j_node_of :: "int option"

type_synonym jobs_db = "JobRow list"

definition row_tier :: "JobRow \<Rightarrow> Tier" where
  "row_tier j = unwrap_or (Tier_parse (j_tier j)) Tier_Normal"

definition job_state :: "JobRow \<Rightarrow> JobState option" where
  "job_state j = JobState_parse (j_state j)"

definition row_terminal :: "JobRow \<Rightarrow> bool" where
  "row_terminal j \<longleftrightarrow> (case job_state j of Some s \<Rightarrow> is_terminal s | None \<Rightarrow> False)"

section \<open>Statements\<close>

definition upd :: "(JobRow \<Rightarrow> bool) \<Rightarrow> (JobRow \<Rightarrow> JobRow) \<Rightarrow> jobs_db \<Rightarrow> jobs_db" where
  "upd p f db = map (\<lambda>r. if p r then f r else r) db"

definition hits :: "(JobRow \<Rightarrow> bool) \<Rightarrow> jobs_db \<Rightarrow> nat" where
  "hits p db = length (filter p db)"

definition with_id :: "string \<Rightarrow> JobRow \<Rightarrow> bool" where
  "with_id i r \<longleftrightarrow> j_id r = i"

definition ACTIVE_STATES :: "string list" where
  "ACTIVE_STATES = [''assigned'', ''preparing'', ''running'', ''finishing'']"

definition OPEN_STATES :: "string list" where
  "OPEN_STATES = [''queued'', ''assigned'', ''preparing'', ''running'', ''finishing'']"

definition waits_somewhere :: "JobRow \<Rightarrow> bool" where
  "waits_somewhere r \<longleftrightarrow> j_state r = ''queued'' \<or> (j_state r = ''assigned'' \<and> j_node_queued r)"

subsection \<open>Reading\<close>

definition job_by_id :: "jobs_db \<Rightarrow> string \<Rightarrow> JobRow option" where
  "job_by_id db i = find (with_id i) db"

definition by_age :: "jobs_db \<Rightarrow> jobs_db" where
  "by_age db = sort_key (\<lambda>j. (j_created_at j, j_id j)) db"

definition find_job :: "jobs_db \<Rightarrow> string \<Rightarrow> JobRow option" where
  "find_job db tok =
     (let t = trim tok in
      case job_by_id db t of
        Some j \<Rightarrow> Some j
      | None \<Rightarrow>
          if length t < 4 \<or> \<not> list_all (\<lambda>c. is_ascii_digit c \<or> c \<in> set ''abcdefABCDEF'') t then None
          else (case filter (\<lambda>r. starts_with (to_ascii_lowercase (j_id r)) (to_ascii_lowercase t)) db of
                  [j] \<Rightarrow> Some j | _ \<Rightarrow> None))"

definition job_by_client_id :: "jobs_db \<Rightarrow> string \<Rightarrow> string \<Rightarrow> JobRow option" where
  "job_by_client_id db ws c = find (\<lambda>r. j_workspace_id r = ws \<and> j_client_job_id r = c) db"

record JobFilter =
  jf_node_id :: "string option"
  jf_workspace_id :: "string option"
  jf_state :: "string option"
  jf_session_id :: "string option"
  jf_limit :: int
  jf_tier :: "string option"
  jf_tag :: "string option"

definition list_jobs :: "jobs_db \<Rightarrow> JobFilter \<Rightarrow> jobs_db" where
  "list_jobs db f =
     (let limit = (if jf_limit f \<le> 0 then 50 else min (jf_limit f) 500) in
      take (nat limit) (rev (by_age (filter (\<lambda>r.
        (jf_node_id f = None \<or> jf_node_id f = Some (j_node_id r))
        \<and> (jf_workspace_id f = None \<or> jf_workspace_id f = Some (j_workspace_id r))
        \<and> (jf_state f = None \<or> jf_state f = Some (j_state r)
            \<or> (jf_state f = Some ''queued'' \<and> j_state r = ''assigned'' \<and> j_node_queued r))
        \<and> (jf_session_id f = None \<or> (j_session_id r \<noteq> None \<and> j_session_id r = jf_session_id f))
        \<and> (jf_tier f = None \<or> jf_tier f = Some (j_tier r))
        \<and> (jf_tag f = None \<or> ct_tag (j_ctl r) = jf_tag f)) db))))"

definition jobs_in_states :: "jobs_db \<Rightarrow> string \<Rightarrow> string list \<Rightarrow> jobs_db" where
  "jobs_in_states db node states = by_age (filter (\<lambda>r. j_node_id r = node \<and> j_state r \<in> set states) db)"

definition queued_count :: "jobs_db \<Rightarrow> string \<Rightarrow> string \<Rightarrow> nat" where
  "queued_count db node ws = hits (\<lambda>r. j_node_id r = node \<and> j_workspace_id r = ws \<and> waits_somewhere r) db"

definition queued_jobs :: "jobs_db \<Rightarrow> jobs_db" where
  "queued_jobs db = by_age (filter (\<lambda>r. j_state r = ''queued'') db)"

definition active_jobs :: "jobs_db \<Rightarrow> jobs_db" where
  "active_jobs db = by_age (filter (\<lambda>r. j_state r \<in> set ACTIVE_STATES) db)"

definition node_queued_jobs :: "jobs_db \<Rightarrow> jobs_db" where
  "node_queued_jobs db = by_age (filter (\<lambda>r. j_node_queued r \<and> j_state r = ''assigned'') db)"

definition queued_with_supersede_key :: "jobs_db \<Rightarrow> string \<Rightarrow> string \<Rightarrow> jobs_db" where
  "queued_with_supersede_key db ws key =
     by_age (filter (\<lambda>r. j_workspace_id r = ws \<and> j_supersede_key r = Some key \<and> waits_somewhere r) db)"

definition queued_tiers :: "jobs_db \<Rightarrow> string \<Rightarrow> (string, nat) btree" where
  "queued_tiers db node =
     foldl (\<lambda>m r. bt_insert (j_tier r) (unwrap_or (bt_get m (j_tier r)) 0 + 1) m) []
       (filter (\<lambda>r. j_node_id r = node \<and> waits_somewhere r) db)"

subsection \<open>Writing\<close>

definition no_node_place :: "JobRow \<Rightarrow> JobRow" where
  "no_node_place r = r \<lparr> j_node_queued := False, j_node_pos := None, j_node_eta_secs := None, j_node_eta_p90_secs := None,
     j_node_blocked_by := None, j_node_of := None \<rparr>"

definition put_state :: "JobState \<Rightarrow> string option \<Rightarrow> string option \<Rightarrow> int \<Rightarrow> JobRow \<Rightarrow> JobRow" where
  "put_state s reason detail at r = r \<lparr> j_state := JobState_as_str s, j_reason := reason, j_detail := detail,
     j_assigned_at := (if s = JS_Assigned then Some at else j_assigned_at r),
     j_started_at := (if s = JS_Running \<and> j_started_at r = None then Some at else j_started_at r),
     j_ended_at := (if is_terminal s then or_else (j_ended_at r) (Some at) else j_ended_at r) \<rparr>"

definition set_job_state :: "jobs_db \<Rightarrow> string \<Rightarrow> JobState \<Rightarrow> string option \<Rightarrow> string option \<Rightarrow> int \<Rightarrow> jobs_db" where
  "set_job_state db i s reason detail at = upd (with_id i) (put_state s reason detail at) db"

definition set_job_state_if :: "jobs_db \<Rightarrow> string \<Rightarrow> string \<Rightarrow> JobState \<Rightarrow> string option \<Rightarrow> string option \<Rightarrow> int
    \<Rightarrow> jobs_db \<times> bool" where
  "set_job_state_if db i old s reason detail at =
     (let p = (\<lambda>r. with_id i r \<and> j_state r = old) in (upd p (put_state s reason detail at) db, hits p db = 1))"

definition cancel_if_queued :: "jobs_db \<Rightarrow> string \<Rightarrow> int \<Rightarrow> jobs_db \<times> bool" where
  "cancel_if_queued db i at = set_job_state_if db i ''queued'' JS_Cancelled (Some ''cancelled'') None at"

definition assign_if_queued :: "jobs_db \<Rightarrow> string \<Rightarrow> int \<Rightarrow> jobs_db \<times> bool" where
  "assign_if_queued db i at = set_job_state_if db i ''queued'' JS_Assigned None None at"

definition short :: "string \<Rightarrow> string" where
  "short i = take (min (length i) 8) i"

definition replace_if_queued :: "jobs_db \<Rightarrow> string \<Rightarrow> string \<Rightarrow> int \<Rightarrow> jobs_db \<times> bool" where
  "replace_if_queued db i by_job at =
     set_job_state_if db i ''queued'' JS_Cancelled (Some REPLACED) (Some (''replaced by job '' @ short by_job)) at"

definition set_job_reason :: "jobs_db \<Rightarrow> string \<Rightarrow> string option \<Rightarrow> string option \<Rightarrow> jobs_db" where
  "set_job_reason db i reason detail = upd (with_id i) (\<lambda>r. r \<lparr> j_reason := reason, j_detail := detail \<rparr>) db"

definition set_job_times :: "jobs_db \<Rightarrow> string \<Rightarrow> int option \<Rightarrow> int option \<Rightarrow> jobs_db" where
  "set_job_times db i started ended = upd (with_id i) (\<lambda>r. r \<lparr> j_started_at := or_else started (j_started_at r),
     j_ended_at := or_else ended (j_ended_at r) \<rparr>) db"

definition set_job_exit :: "jobs_db \<Rightarrow> string \<Rightarrow> int option \<Rightarrow> int option \<Rightarrow> jobs_db" where
  "set_job_exit db i code signal = upd (with_id i) (\<lambda>r. r \<lparr> j_exit_code := code, j_signal := signal \<rparr>) db"

definition set_job_src :: "jobs_db \<Rightarrow> string \<Rightarrow> string \<Rightarrow> string \<Rightarrow> jobs_db" where
  "set_job_src db i commit tree = upd (with_id i) (\<lambda>r. r \<lparr> j_src_commit := Some commit, j_src_tree := Some tree \<rparr>) db"

definition set_job_log :: "jobs_db \<Rightarrow> string \<Rightarrow> nat \<Rightarrow> nat \<Rightarrow> jobs_db" where
  "set_job_log db i sq bytes = upd (with_id i) (\<lambda>r. r \<lparr> j_log_seq := max (j_log_seq r) (as_i64 sq),
     j_log_bytes := max (j_log_bytes r) (as_i64 bytes) \<rparr>) db"

definition set_job_outputs :: "jobs_db \<Rightarrow> string \<Rightarrow> int \<Rightarrow> Outputs \<Rightarrow> jobs_db" where
  "set_job_outputs db i g out = upd (\<lambda>r. with_id i r \<and> j_generation r = g) (\<lambda>r. r \<lparr> j_summary := Some out \<rparr>) db"

definition set_job_receipt :: "jobs_db \<Rightarrow> string \<Rightarrow> string \<Rightarrow> bool \<Rightarrow> jobs_db" where
  "set_job_receipt db i receipt ok = upd (with_id i) (\<lambda>r. r \<lparr> j_receipt_json := Some receipt, j_receipt_ok := Some ok \<rparr>) db"

text \<open>Rewriting the options reads the plan back first; it fails when there is no row or no readable plan.\<close>

definition set_job_ctl :: "jobs_db \<Rightarrow> string \<Rightarrow> JobCtl \<Rightarrow> jobs_db option" where
  "set_job_ctl db i c = (case Option.bind (job_by_id db i) j_plan of
     Some p \<Rightarrow> Some (upd (with_id i) (\<lambda>r. r \<lparr> j_plan := Some p, j_ctl := c \<rparr>) db) | None \<Rightarrow> None)"

definition set_waiting_job_ctl :: "jobs_db \<Rightarrow> string \<Rightarrow> int \<Rightarrow> JobCtl \<Rightarrow> (jobs_db \<times> bool) option" where
  "set_waiting_job_ctl db i g c = (case job_by_id db i of
     None \<Rightarrow> Some (db, False)
   | Some j \<Rightarrow> (case j_plan j of
       None \<Rightarrow> None
     | Some p \<Rightarrow> (let q = (\<lambda>r. with_id i r \<and> j_generation r = g \<and> waits_somewhere r)
         in Some (upd q (\<lambda>r. r \<lparr> j_plan := Some p, j_ctl := c \<rparr>) db, hits q db = 1))))"

text \<open>A queued job moves with its rebuilt plan; \<open>digest\<close> is the hash of the canonical plan, which may fail.\<close>

definition move_queued_job :: "(Plan \<Rightarrow> string option) \<Rightarrow> jobs_db \<Rightarrow> string \<Rightarrow> Plan \<Rightarrow> JobCtl \<Rightarrow> string \<Rightarrow> (jobs_db \<times> bool) option" where
  "move_queued_job digest db i p c reason = (case digest p of
     None \<Rightarrow> None
   | Some d \<Rightarrow> (let q = (\<lambda>r. with_id i r \<and> j_state r = ''queued'')
       in Some (upd q (\<lambda>r. r \<lparr> j_node_id := pl_node_id p, j_plan := Some p, j_ctl := c, j_plan_digest := d,
            j_reason := Some reason, j_detail := None \<rparr>) db, hits q db = 1)))"

definition rewrite_queued_plan :: "(Plan \<Rightarrow> string option) \<Rightarrow> jobs_db \<Rightarrow> string \<Rightarrow> Plan \<Rightarrow> JobCtl \<Rightarrow> (jobs_db \<times> bool) option" where
  "rewrite_queued_plan digest db i p c = (case digest p of
     None \<Rightarrow> None
   | Some d \<Rightarrow> (let q = (\<lambda>r. with_id i r \<and> j_state r = ''queued'')
       in Some (upd q (\<lambda>r. r \<lparr> j_plan := Some p, j_ctl := c, j_plan_digest := d \<rparr>) db, hits q db = 1)))"

definition set_parent_running :: "jobs_db \<Rightarrow> string \<Rightarrow> jobs_db" where
  "set_parent_running db i = upd (with_id i) (\<lambda>r. r \<lparr> j_state := ''running'', j_reason := None, j_detail := None,
     j_exit_code := None, j_signal := None, j_ended_at := None, j_summary := None, j_notified_at := None \<rparr>) db"

definition mark_notified :: "jobs_db \<Rightarrow> string \<Rightarrow> int \<Rightarrow> jobs_db" where
  "mark_notified db i at = upd (with_id i) (\<lambda>r. r \<lparr> j_notified_at := Some at \<rparr>) db"

text \<open>The column checks of the table (\<open>class\<close>, \<open>tier\<close>) refuse other words.\<close>

definition set_job_queue_facts :: "jobs_db \<Rightarrow> string \<Rightarrow> string \<Rightarrow> int option \<Rightarrow> jobs_db option" where
  "set_job_queue_facts db i cls est =
     (if cls \<in> set [''gate'', ''interactive'', ''batch''] \<or> job_by_id db i = None
      then Some (upd (with_id i) (\<lambda>r. r \<lparr> j_class := cls, j_est_secs := est \<rparr>) db) else None)"

definition tier_word_ok :: "string \<Rightarrow> bool" where
  "tier_word_ok t \<longleftrightarrow> t \<in> set [''ci'', ''priority'', ''normal'', ''batch'']"

definition set_job_tier_facts :: "jobs_db \<Rightarrow> string \<Rightarrow> string \<Rightarrow> string option \<Rightarrow> string option \<Rightarrow> string option \<Rightarrow> jobs_db option" where
  "set_job_tier_facts db i tier asked submitter key =
     (if (tier_word_ok tier \<and> pred_option tier_word_ok asked) \<or> job_by_id db i = None
      then Some (upd (with_id i) (\<lambda>r. r \<lparr> j_tier := tier, j_tier_asked := asked, j_submitter := submitter,
             j_supersede_key := key \<rparr>) db) else None)"

definition put_node_queued :: "QueuePos option \<Rightarrow> string option \<Rightarrow> int \<Rightarrow> JobRow \<Rightarrow> JobRow" where
  "put_node_queued pos reason at r = r \<lparr> j_node_queued := True, j_reason := or_else reason (j_reason r),
     j_node_pos := map_option (\<lambda>p. int (qp_pos p)) pos,
     j_node_eta_secs := map_option as_i64 (Option.bind pos qp_eta_secs),
     j_node_eta_p90_secs := map_option as_i64 (Option.bind pos qp_eta_p90_secs),
     j_node_blocked_by := Option.bind pos qp_blocked_by, j_node_seen_at := Some at,
     j_node_of := map_option int (Option.bind pos qp_of) \<rparr>"

definition mark_node_queued :: "jobs_db \<Rightarrow> string \<Rightarrow> int \<Rightarrow> QueuePos option \<Rightarrow> string option \<Rightarrow> int \<Rightarrow> jobs_db \<times> bool" where
  "mark_node_queued db i g pos reason at =
     (let p = (\<lambda>r. with_id i r \<and> j_generation r = g \<and> j_state r = ''assigned'')
      in (upd p (put_node_queued pos reason at) db, hits p db = 1))"

definition clear_node_queued :: "jobs_db \<Rightarrow> string \<Rightarrow> jobs_db" where
  "clear_node_queued db i = upd (\<lambda>r. with_id i r \<and> j_node_queued r) no_node_place db"

definition put_new_generation :: "string \<Rightarrow> JobRow \<Rightarrow> JobRow" where
  "put_new_generation reason r = no_node_place (r \<lparr> j_state := ''queued'', j_reason := Some reason, j_detail := None,
     j_generation := j_generation r + 1, j_assigned_at := None, j_started_at := None, j_log_seq := 0, j_log_bytes := 0 \<rparr>)"

definition requeue_new_generation :: "jobs_db \<Rightarrow> string \<Rightarrow> int \<Rightarrow> string \<Rightarrow> jobs_db \<times> bool" where
  "requeue_new_generation db i g reason =
     (let p = (\<lambda>r. with_id i r \<and> j_generation r = g \<and> j_state r \<in> set ACTIVE_STATES)
      in (upd p (put_new_generation reason) db, hits p db = 1))"

definition note_withdraw :: "jobs_db \<Rightarrow> string \<Rightarrow> int \<Rightarrow> jobs_db" where
  "note_withdraw db i at = upd (with_id i) (\<lambda>r. r \<lparr> j_withdraws := j_withdraws r + 1, j_withdrawn_at := Some at \<rparr>) db"

definition put_new_attempt :: "string \<Rightarrow> JobRow \<Rightarrow> JobRow" where
  "put_new_attempt reason r = no_node_place (r \<lparr> j_state := ''queued'', j_reason := Some reason, j_detail := None,
     j_attempt := j_attempt r + 1, j_generation := j_generation r + 1, j_exit_code := None, j_signal := None,
     j_assigned_at := None, j_started_at := None, j_ended_at := None, j_log_seq := 0, j_log_bytes := 0, j_summary := None,
     j_receipt_json := None, j_receipt_ok := None, j_notified_at := None \<rparr>)"

definition requeue_new_attempt :: "jobs_db \<Rightarrow> string \<Rightarrow> string \<Rightarrow> jobs_db \<times> JobRow option" where
  "requeue_new_attempt db i reason =
     (let db' = upd (with_id i) (put_new_attempt reason) db in (db', job_by_id db' i))"

record NewJob =
  nj_plan :: Plan
  nj_client_job_id :: string
  nj_session_id :: "string option"
  nj_request_sha256 :: string
  nj_detach :: bool
  nj_retry_interrupted :: bool
  nj_ctl :: JobCtl

definition new_row :: "NewJob \<Rightarrow> string \<Rightarrow> JobRow" where
  "new_row n digest = (let p = nj_plan n in
     \<lparr> j_id = pl_job_id p, j_client_job_id = nj_client_job_id n, j_node_id = pl_node_id p, j_workspace_id = pl_workspace_id p,
       j_session_id = nj_session_id n, j_requested_by = pl_requested_by p, j_argv = pl_argv p, j_env_names = bt_keys (pl_env p),
       j_request_sha256 = nj_request_sha256 n, j_plan = Some p, j_src_commit = map_option sr_commit (pl_src p),
       j_src_tree = None, j_dirty_sha256 = map_option bl_sha256 (Option.bind (pl_src p) sr_dirty), j_state = ''queued'',
       j_reason = None, j_detail = None, j_attempt = 1, j_generation = 1, j_plan_digest = digest,
       j_exclusive = pl_exclusive p, j_detach = nj_detach n, j_retry_interrupted = nj_retry_interrupted n,
       j_exit_code = None, j_signal = None, j_created_at = pl_created_at p, j_assigned_at = None, j_started_at = None,
       j_ended_at = None, j_log_seq = 0, j_log_bytes = 0, j_summary = None, j_receipt_json = None, j_receipt_ok = None,
       j_notified_at = None, j_ctl = nj_ctl n, j_class = ''interactive'', j_est_secs = None, j_node_queued = False,
       j_node_pos = None, j_node_eta_secs = None, j_node_eta_p90_secs = None, j_node_blocked_by = None,
       j_node_seen_at = None, j_withdraws = 0, j_withdrawn_at = None, j_tier = ''normal'', j_tier_asked = None,
       j_submitter = None, j_supersede_key = None, j_node_of = None \<rparr>)"

text \<open>The primary key and the unique pair of workspace and client id refuse a second row.\<close>

definition insert_job :: "(Plan \<Rightarrow> string option) \<Rightarrow> jobs_db \<Rightarrow> NewJob \<Rightarrow> (jobs_db \<times> JobRow) option" where
  "insert_job digest db n = (case digest (nj_plan n) of
     None \<Rightarrow> None
   | Some d \<Rightarrow> (let r = new_row n d in
       if job_by_id db (j_id r) \<noteq> None \<or> job_by_client_id db (j_workspace_id r) (j_client_job_id r) \<noteq> None then None
       else Some (db @ [r], r)))"

end
