(* ===== verification/Shards.thy ===== *)
theory Shards
  imports Job_Store "HOL-Library.Code_Target_Numeral"
begin

text \<open>
  Split runs: the placeholders in a shard's arguments and the parent's combined result
  (\<open>k2-core/src/compute/shards.rs\<close>), its write (\<open>store.rs\<close>), and a few readings of a row
  (\<open>result.rs\<close>).
\<close>

section \<open>Placeholders\<close>

definition SHARD :: string where "SHARD = ''{shard}''"
definition SHARDS :: string where "SHARDS = ''{shards}''"
definition MAX_SHARDS :: nat where "MAX_SHARDS = 16"

definition has_placeholders :: "string list \<Rightarrow> bool" where
  "has_placeholders argv \<longleftrightarrow> list_ex (str_contains SHARD) argv \<and> list_ex (str_contains SHARDS) argv"

definition argv_for :: "string list \<Rightarrow> nat \<Rightarrow> nat \<Rightarrow> string list" where
  "argv_for argv idx nshards = map (\<lambda>a. str_replace SHARD (digits_of idx) (str_replace SHARDS (digits_of nshards) a)) argv"

section \<open>Readings of a row\<close>

definition outputs :: "JobRow \<Rightarrow> Outputs option" where
  "outputs j = j_summary j"

definition shown_state :: "JobRow \<Rightarrow> string" where
  "shown_state j = (if j_node_queued j \<and> j_state j = ''assigned'' then ''queued'' else j_state j)"

definition via :: "JobRow \<Rightarrow> string option" where
  "via j = (if j_requested_by j = ''owner'' then Some ''owner_token'' else None)"

definition i64_abs :: "int \<Rightarrow> int" where
  "i64_abs x = i64_wrap \<bar>x\<bar>"

definition node_time :: "int \<Rightarrow> int \<Rightarrow> int option \<Rightarrow> int \<times> string \<times> int option" where
  "node_time at now skew =
     (let lim = REPORTED_LATE_SECS in
      case skew of
        Some s \<Rightarrow>
          if i64_abs s \<le> lim
          then (let t = min at now; late = i64_sub now t in (t, ''node'', if late > lim then Some late else None))
          else (now, ''server'', None)
      | None \<Rightarrow>
          if i64_abs (i64_sub now at) \<le> lim then (min at now, ''node'', None) else (now, ''server'', None))"

definition job_ok :: "JobRow \<Rightarrow> Outputs option \<Rightarrow> bool" where
  "job_ok j out \<longleftrightarrow> j_state j = ''done'' \<and> j_exit_code j = Some 0
     \<and> (case Option.bind out ou_tests of Some t \<Rightarrow> passed_all t | None \<Rightarrow> True)"

section \<open>The combined result\<close>

record Aggregate =
  ag_state :: string
  ag_exit_code :: "int option"
  ag_signal :: "int option"
  ag_reason :: "string option"
  ag_detail :: "string option"
  ag_started_at :: "int option"
  ag_ended_at :: "int option"
  ag_tests :: "TestSummary option"

definition shard_tests :: "(nat \<times> JobRow) list \<Rightarrow> (nat \<times> TestSummary) list" where
  "shard_tests kids = List.map_filter (\<lambda>(i, j). map_option (Pair i) (Option.bind (outputs j) ou_tests)) kids"

definition aggregate_base :: "(nat \<times> JobRow) list \<Rightarrow> Aggregate" where
  "aggregate_base kids =
     (let parts = shard_tests kids in
      \<lparr> ag_state = ''done'', ag_exit_code = Some 0, ag_signal = None, ag_reason = None, ag_detail = None,
        ag_started_at = min_by_key (\<lambda>t. t) (List.map_filter (\<lambda>(i, j). j_started_at j) kids),
        ag_ended_at = max_by_key (\<lambda>t. t) (List.map_filter (\<lambda>(i, j). j_ended_at j) kids),
        ag_tests = (if parts \<noteq> [] then Some (merge_shards parts) else None) \<rparr>)"

definition aggregate :: "(nat \<times> JobRow) list \<Rightarrow> Aggregate option" where
  "aggregate children =
     (if children = [] \<or> list_ex (\<lambda>(i, j). \<not> row_terminal j) children then None
      else
       (let kids = sort_key fst children; base = aggregate_base kids in
        case find (\<lambda>(i, j). j_state j \<noteq> ''done'') kids of
          Some (i, j) \<Rightarrow>
            (let what = unwrap_or (or_else (j_detail j) (j_reason j)) (j_state j)
             in Some (base \<lparr> ag_state := j_state j, ag_exit_code := None, ag_reason := j_reason j,
                  ag_detail := Some (''shard '' @ digits_of i @ ''/'' @ digits_of (length kids) @ '': '' @ what) \<rparr>))
        | None \<Rightarrow>
            (case find (\<lambda>(i, j). j_exit_code j = None) kids of
               Some (i, j) \<Rightarrow> Some (base \<lparr> ag_exit_code := None, ag_signal := j_signal j \<rparr>)
             | None \<Rightarrow> Some (base \<lparr> ag_exit_code :=
                 Some (unwrap_or (find (\<lambda>c. c \<noteq> 0) (map (\<lambda>(i, j). unwrap_or (j_exit_code j) 0) kids)) 0) \<rparr>))))"

definition put_aggregate :: "Aggregate \<Rightarrow> JobRow \<Rightarrow> JobRow" where
  "put_aggregate a r = r \<lparr> j_state := ag_state a, j_reason := ag_reason a, j_detail := ag_detail a,
     j_exit_code := ag_exit_code a, j_signal := ag_signal a, j_started_at := ag_started_at a,
     j_ended_at := or_else (ag_ended_at a) (j_ended_at r),
     j_summary := map_option (\<lambda>t. \<lparr> ou_artifacts = [], ou_tests = Some t, ou_notes = [], ou_tools_used = [],
       ou_resources = None, ou_host = None \<rparr>) (ag_tests a) \<rparr>"

definition finish_parent :: "jobs_db \<Rightarrow> string \<Rightarrow> Aggregate \<Rightarrow> jobs_db" where
  "finish_parent db i a = upd (with_id i) (put_aggregate a) db"

section \<open>What the combined result says\<close>

lemma first_nonzero: "unwrap_or (find (\<lambda>c. c \<noteq> 0) cs) 0 = 0 \<longleftrightarrow> (\<forall>c \<in> set cs. c = (0 :: int))"
  by (induction cs) (auto simp: unwrap_or_def)

lemma aggregate_cases:
  assumes "aggregate kids = Some a"
  shows "kids \<noteq> []" "\<forall>(i, j) \<in> set kids. row_terminal j"
    "(\<exists>i j. (i, j) \<in> set kids \<and> j_state j \<noteq> ''done'' \<and> ag_state a = j_state j \<and> ag_exit_code a = None)
     \<or> ((\<forall>(i, j) \<in> set kids. j_state j = ''done'') \<and> ag_state a = ''done''
        \<and> (\<exists>i j. (i, j) \<in> set kids \<and> j_exit_code j = None) \<and> ag_exit_code a = None)
     \<or> ((\<forall>(i, j) \<in> set kids. j_state j = ''done'' \<and> j_exit_code j \<noteq> None) \<and> ag_state a = ''done''
        \<and> (ag_exit_code a = Some 0 \<longleftrightarrow> (\<forall>(i, j) \<in> set kids. j_exit_code j = Some 0)) \<and> ag_exit_code a \<noteq> None)"
proof -
  have d: "kids \<noteq> []" "\<not> list_ex (\<lambda>(i, j). \<not> row_terminal j) kids"
    using assms by (auto simp: aggregate_def split: if_splits)
  then show "kids \<noteq> []" "\<forall>(i, j) \<in> set kids. row_terminal j" by (auto simp: list_ex_iff)
  let ?k = "sort_key fst kids"
  have base: "ag_state (aggregate_base ?k) = ''done''" by (simp add: aggregate_base_def Let_def)
  show "(\<exists>i j. (i, j) \<in> set kids \<and> j_state j \<noteq> ''done'' \<and> ag_state a = j_state j \<and> ag_exit_code a = None)
     \<or> ((\<forall>(i, j) \<in> set kids. j_state j = ''done'') \<and> ag_state a = ''done''
        \<and> (\<exists>i j. (i, j) \<in> set kids \<and> j_exit_code j = None) \<and> ag_exit_code a = None)
     \<or> ((\<forall>(i, j) \<in> set kids. j_state j = ''done'' \<and> j_exit_code j \<noteq> None) \<and> ag_state a = ''done''
        \<and> (ag_exit_code a = Some 0 \<longleftrightarrow> (\<forall>(i, j) \<in> set kids. j_exit_code j = Some 0)) \<and> ag_exit_code a \<noteq> None)"
  proof (cases "find (\<lambda>(i, j). j_state j \<noteq> ''done'') ?k")
    case (Some p)
    obtain i j where p: "p = (i, j)" by (cases p)
    have "(i, j) \<in> set kids" "j_state j \<noteq> ''done''" using find_Some_iff' [OF Some] p by auto
    moreover have "ag_state a = j_state j" "ag_exit_code a = None"
      using assms d Some p by (auto simp: aggregate_def Let_def)
    ultimately show ?thesis by blast
  next
    case None
    then have dn: "\<forall>(i, j) \<in> set kids. j_state j = ''done''" by (auto simp: find_None_iff)
    show ?thesis
    proof (cases "find (\<lambda>(i, j). j_exit_code j = None) ?k")
      case (Some p)
      obtain i j where p: "p = (i, j)" by (cases p)
      have "(i, j) \<in> set kids" "j_exit_code j = None" using find_Some_iff' [OF Some] p by auto
      moreover have "ag_state a = ''done''" "ag_exit_code a = None"
        using assms d Some p None base by (auto simp: aggregate_def Let_def)
      ultimately show ?thesis using dn by blast
    next
      case exits: None
      let ?cs = "map (\<lambda>(i, j). unwrap_or (j_exit_code j) 0) ?k"
      have ex: "\<forall>(i, j) \<in> set kids. j_exit_code j \<noteq> None" using exits by (auto simp: find_None_iff)
      have a: "ag_state a = ''done''" "ag_exit_code a = Some (unwrap_or (find (\<lambda>c. c \<noteq> 0) ?cs) 0)"
        using assms d None exits base by (auto simp: aggregate_def Let_def)
      have z: "unwrap_or (find (\<lambda>c. c \<noteq> 0) ?cs) 0 = 0 \<longleftrightarrow> (\<forall>c \<in> set ?cs. c = 0)"
        by (rule first_nonzero)
      have e: "(\<forall>c \<in> set ?cs. c = 0) \<longleftrightarrow> (\<forall>(i, j) \<in> set kids. j_exit_code j = Some 0)"
        using ex by (fastforce simp: unwrap_or_def split: option.splits)
      have 3: "(\<forall>(i, j) \<in> set kids. j_state j = ''done'' \<and> j_exit_code j \<noteq> None) \<and> ag_state a = ''done''
        \<and> (ag_exit_code a = Some 0 \<longleftrightarrow> (\<forall>(i, j) \<in> set kids. j_exit_code j = Some 0)) \<and> ag_exit_code a \<noteq> None"
        using dn ex a z e by auto
      then show ?thesis by blast
    qed
  qed
qed

lemma aggregate_terminal: "aggregate kids = Some a \<Longrightarrow> JobState_parse (ag_state a) \<noteq> None \<and> is_terminal (the (JobState_parse (ag_state a)))"
proof -
  assume a: "aggregate kids = Some a"
  have t: "row_terminal j \<Longrightarrow> JobState_parse (j_state j) \<noteq> None \<and> is_terminal (the (JobState_parse (j_state j)))" for j
    by (auto simp: row_terminal_def job_state_def split: option.splits)
  have d: "JobState_parse ''done'' = Some JS_Done" by (simp add: JobState_parse_def)
  consider i j where "(i, j) \<in> set kids" "ag_state a = j_state j" | "ag_state a = ''done''"
    using aggregate_cases(3) [OF a] by blast
  then show ?thesis
  proof cases
    case 1
    then have "row_terminal j" using aggregate_cases(2) [OF a] by blast
    then show ?thesis using t [of j] 1 by (simp only: simp_thms)
  qed (simp add: d is_terminal_def)
qed

lemma sort_key_perm:
  assumes "mset xs = mset ys" "distinct (map fst xs)"
  shows "sort_key fst xs = sort_key fst (ys :: ('a :: linorder \<times> 'b) list)"
proof (rule properties_for_sort_key)
  show "mset (sort_key fst ys) = mset xs" using assms(1) by simp
  have "mset (map fst xs) = mset (map fst ys)" by (simp add: assms(1))
  then have dy: "distinct (map fst ys)" using mset_eq_imp_distinct_iff assms(2) by blast
  show "filter (\<lambda>x. fst k = fst x) (sort_key fst ys) = filter (\<lambda>x. fst k = fst x) xs" if "k \<in> set (sort_key fst ys)" for k
  proof -
    have one: "filter (\<lambda>x. fst k = fst x) zs = [k]" if "k \<in> set zs" "distinct (map fst zs)" for zs :: "('a \<times> 'b) list"
      using that by (induction zs) (auto simp: image_iff intro: filter_False)
    have "k \<in> set xs" using that assms(1) by (metis set_mset_mset set_sort)
    moreover have "mset (map fst (sort_key fst ys)) = mset (map fst ys)" by simp
    then have "distinct (map fst (sort_key fst ys))" using mset_eq_imp_distinct_iff dy by blast
    ultimately show ?thesis using one [OF that] one [of xs] assms(2) by simp
  qed
qed simp

text \<open>A split run ends when it has shards and every one has ended, and its result does not depend on the order
  the shards are listed in; it is done exactly when all are, and exits 0 exactly when every shard is done with
  exit 0; else it has the state of a shard that did not finish.\<close>

theorem aggregate_sound:
  assumes "distinct (map fst kids)" "mset kids' = mset kids"
  shows "aggregate kids' = aggregate kids
    \<and> (aggregate kids = None \<longleftrightarrow> kids = [] \<or> list_ex (\<lambda>p. \<not> row_terminal (snd p)) kids)
    \<and> pred_option (\<lambda>a. (ag_state a = ''done'' \<longleftrightarrow> list_all (\<lambda>p. j_state (snd p) = ''done'') kids)
         \<and> (ag_exit_code a = Some 0 \<longleftrightarrow> list_all (\<lambda>p. j_state (snd p) = ''done'' \<and> j_exit_code (snd p) = Some 0) kids)
         \<and> ag_state a \<in> (j_state \<circ> snd) ` set kids) (aggregate kids)"
proof -
  have s: "sort_key fst kids' = sort_key fst kids" using sort_key_perm [of kids kids'] assms by simp
  have "set kids' = set kids" using assms(2) by (metis set_mset_mset)
  then have 1: "aggregate kids' = aggregate kids"
    unfolding aggregate_def s list_ex_iff by (metis assms(2) mset_zero_iff)
  have 2: "aggregate kids = None \<longleftrightarrow> kids = [] \<or> list_ex (\<lambda>p. \<not> row_terminal (snd p)) kids"
  proof -
    have e: "(\<lambda>(i :: nat, j). \<not> row_terminal j) = (\<lambda>p. \<not> row_terminal (snd p))" by auto
    show ?thesis unfolding aggregate_def e by (auto simp: Let_def split: option.splits)
  qed
  have 3: "pred_option (\<lambda>a. (ag_state a = ''done'' \<longleftrightarrow> list_all (\<lambda>p. j_state (snd p) = ''done'') kids)
         \<and> (ag_exit_code a = Some 0 \<longleftrightarrow> list_all (\<lambda>p. j_state (snd p) = ''done'' \<and> j_exit_code (snd p) = Some 0) kids)
         \<and> ag_state a \<in> (j_state \<circ> snd) ` set kids) (aggregate kids)"
  proof (cases "aggregate kids")
    case (Some a)
    consider i j where "(i, j) \<in> set kids" "j_state j \<noteq> ''done''" "ag_state a = j_state j" "ag_exit_code a = None"
      | i j where "\<forall>(i, j) \<in> set kids. j_state j = ''done''" "ag_state a = ''done''" "(i, j) \<in> set kids" "j_exit_code j = None"
          "ag_exit_code a = None"
      | "\<forall>(i, j) \<in> set kids. j_state j = ''done'' \<and> j_exit_code j \<noteq> None" "ag_state a = ''done''"
          "ag_exit_code a = Some 0 \<longleftrightarrow> (\<forall>(i, j) \<in> set kids. j_exit_code j = Some 0)"
      using aggregate_cases(3) [OF Some] by blast
    then show ?thesis
    proof cases
      case 1
      then have "ag_state a \<in> (j_state \<circ> snd) ` set kids" by force
      then show ?thesis using 1 unfolding Some by (auto simp: list_all_iff intro!: bexI [of _ "(i, j)"])
    next
      case 2
      then have "ag_state a \<in> (j_state \<circ> snd) ` set kids" by force
      moreover have "list_all (\<lambda>p. j_state (snd p) = ''done'') kids" using 2(1) by (auto simp: list_all_iff)
      moreover have "\<not> list_all (\<lambda>p. j_state (snd p) = ''done'' \<and> j_exit_code (snd p) = Some 0) kids"
        using 2(3,4) by (auto simp: list_all_iff intro!: bexI [of _ "(i, j)"])
      ultimately show ?thesis using 2(2,5) unfolding Some by simp
    next
      case 3
      obtain p where p: "p \<in> set kids" using aggregate_cases(1) [OF Some] by (cases kids) auto
      then have "ag_state a \<in> (j_state \<circ> snd) ` set kids" using 3 by force
      moreover have "list_all (\<lambda>p. j_state (snd p) = ''done'') kids" using 3(1) by (auto simp: list_all_iff)
      moreover have "list_all (\<lambda>p. j_state (snd p) = ''done'' \<and> j_exit_code (snd p) = Some 0) kids
          \<longleftrightarrow> (\<forall>(i, j) \<in> set kids. j_exit_code j = Some 0)"
        using 3(1) unfolding list_all_iff case_prod_beta by blast
      ultimately show ?thesis using 3(2,3) unfolding Some by simp
    qed
  qed simp
  show ?thesis using 1 2 3 by blast
qed

definition blank_plan :: Plan where
  "blank_plan = \<lparr> pl_job_id = ''0000aaaa'', pl_node_id = ''n1'', pl_workspace_id = ''w1'', pl_workspace_label = ''k2'',
     pl_requested_by = ''agent:w1'', pl_argv = [''cargo'', ''test''], pl_env = [], pl_cwd = None,
     pl_limits = \<lparr> jl_max_secs = 3600, jl_cpu_millis = None, jl_mem_bytes = None, jl_disk_bytes = 0, jl_log_cap_bytes = 0 \<rparr>,
     pl_src = None, pl_exclusive = False, pl_created_at = 100, pl_needs = [], pl_artifacts = [], pl_stall_secs = None,
     pl_class = None, pl_session_id = None, pl_est_secs = None, pl_est_p90_secs = None, pl_ws_max_running = None,
     pl_secret_env = [], pl_tier = None, pl_cache = None, pl_src_path = None, pl_with = [], pl_submitter = None,
     pl_submitter_max_running = None, pl_packages = [], pl_git_access = [] \<rparr>"

definition blank_job :: JobRow where
  "blank_job = new_row \<lparr> nj_plan = blank_plan, nj_client_job_id = ''c1'', nj_session_id = Some ''s1'', nj_request_sha256 = [],
     nj_detach = True, nj_retry_interrupted = False, nj_ctl = JobCtl_default \<lparr> ct_retries := 2 \<rparr> \<rparr> ''sha256:0''"

theorem aggregate_sound_witness:
  "aggregate [(2, blank_job \<lparr> j_state := ''done'', j_exit_code := Some 0 \<rparr>), (1, blank_job \<lparr> j_state := ''done'', j_exit_code := Some 7 \<rparr>)]
   = aggregate [(1, blank_job \<lparr> j_state := ''done'', j_exit_code := Some 7 \<rparr>), (2, blank_job \<lparr> j_state := ''done'', j_exit_code := Some 0 \<rparr>)]"
proof -
  let ?a = "(1 :: nat, blank_job \<lparr> j_state := ''done'', j_exit_code := Some 7 \<rparr>)"
    and ?b = "(2 :: nat, blank_job \<lparr> j_state := ''done'', j_exit_code := Some 0 \<rparr>)"
  have h: "distinct (map fst [?a, ?b])" "mset [?b, ?a] = mset [?a, ?b]" by simp_all
  show ?thesis using aggregate_sound [OF h] by blast
qed

end
