(* ===== verification/Job_Ends.thy ===== *)
theory Job_Ends
  imports Shards Retry
begin

text \<open>
  A server's side of a job's life: the state its handlers change, and what happens when an attempt or a job ends
  (\<open>compute_place.rs\<close>: \<open>after_attempt\<close>; \<open>compute_ws.rs\<close>: \<open>finalize\<close>; \<open>compute_shards.rs\<close>: \<open>child_ended\<close>, the last shard
  of a split run). The reports of a node are in \<open>Job_Observe\<close>.

  The state is the jobs table, the health of the nodes, the audit events and the messages sent, and the list of
  what is asked of other parts (kick a node's placement, move a job, a frame to a node). The clock, the node's
  skew, the log files' last sequence, who follows a job's logs and the retry knobs are the environment of a call.
  The JSON detail of an audit event is left out.
\<close>

section \<open>Words\<close>

definition two_digits :: "nat \<Rightarrow> string" where
  "two_digits n = (if n < 10 then ''0'' @ digits_of n else digits_of n)"

definition duration :: "int \<Rightarrow> string" where
  "duration secs =
     (let s = nat (max secs 0) in
      if s < 60 then digits_of s @ ''s''
      else if s < 3600 then digits_of (s div 60) @ ''m'' @ two_digits (s mod 60) @ ''s''
      else digits_of (s div 3600) @ ''h'' @ two_digits ((s mod 3600) div 60) @ ''m'')"

definition BLOCKED_WORDS :: "(string \<times> string) list" where
  "BLOCKED_WORDS =
    [(FOREIGN_LOCK, ''the node is busy with work outside K2 (a lock file)''),
     (PAUSED, ''the node is paused''),
     (SHARE_PAUSED, ''the node'' @ [CHR 0x27] @ ''s owner paused this server'' @ [CHR 0x27] @ ''s share''),
     (DISK_LOW, ''the node is low on disk''),
     (SERVER_OFFLINE, ''a server is offline''),
     (OVER_QUOTA, ''this server is over its CPU-hours for today; it runs after the others''),
     (INSTALLING_TOOLS, ''the node is installing a toolchain''),
     (TENANT_DISK_FULL, ''this server'' @ [CHR 0x27] @ ''s disk budget on the node is full''),
     (TENANT_WALL_MISSING, ''the node'' @ [CHR 0x27] @ ''s wall for this server is missing (its owner is told)''),
     (FAIR_SHARE_WAIT, ''fair share: another server'' @ [CHR 0x27] @ ''s jobs run first''),
     (TENANT_QUEUE_FULL, ''this server'' @ [CHR 0x27] @ ''s queue on the node is full''),
     (WORKSPACE_RUNNING_FULL, ''your workspace runs as many jobs here as its grant allows''),
     (SERVER_RUNNING_FULL, ''this server runs as many jobs here as its share allows''),
     (SUBMITTER_RUNNING_FULL, ''you run as many jobs here as the per-submitter cap allows''),
     (WAITING_FOR_ROOM, ''waiting for room on the node (slots, CPU or memory)''),
     (WAITING_FOR_IDLE, ''an exclusive job waits for the node to empty (or one is running)''),
     (TIER_HOLD, ''a CI or Priority job ahead takes the next free slot''),
     (BACKFILL_HOLD, ''a job ahead has waited 20+ min for room; nothing else starts until it fits''),
     (TURN, ''other submitters'' @ [CHR 0x27] @ '' jobs go first (turns)''),
     (BATCH_WINDOW, ''Batch: it starts when the node is idle (or inside the node'' @ [CHR 0x27] @ ''s batch window)''),
     (LINGERING, ''a leftover process from an earlier job holds a slot''),
     (ISOLATION_WAIT, ''a job with vault secrets can'' @ [CHR 0x27] @ ''t share the node'' @ [CHR 0x27]
        @ ''s job user with another workspace'' @ [CHR 0x27] @ ''s job'')]"

definition blocked_words :: "string \<Rightarrow> string" where
  "blocked_words code = (case map_of BLOCKED_WORDS code of Some w \<Rightarrow> w
     | None \<Rightarrow> map (\<lambda>c. if c = CHR ''_'' then CHR '' '' else c) code)"

text \<open>What the server asked the node about a queued job, kept as its reason until the node answers.\<close>

definition PENDING_WITHDRAW :: string where "PENDING_WITHDRAW = ''withdraw_requested''"
definition PENDING_TIMEOUT :: string where "PENDING_TIMEOUT = ''withdraw_timeout''"
definition PENDING_CANCEL :: string where "PENDING_CANCEL = ''cancel_if_queued''"
definition PENDING_RESEND :: string where "PENDING_RESEND = ''withdraw_resend''"
definition CANCEL_REQUESTED :: string where "CANCEL_REQUESTED = ''cancel_requested''"

definition pending_any :: "string option \<Rightarrow> bool" where
  "pending_any reason \<longleftrightarrow> reason_in reason [PENDING_WITHDRAW, PENDING_TIMEOUT, PENDING_CANCEL, PENDING_RESEND]"

section \<open>The state\<close>

record JobEvent =
  ev_at :: int
  ev_actor :: string
  ev_kind :: string
  ev_node_id :: "string option"
  ev_workspace_id :: "string option"
  ev_job_id :: "string option"

datatype Ask =
  Ask_Kick string
  | Ask_Move string "string list" bool string
  | Ask_Cancel string string nat string

record Ctrl =
  c_jobs :: jobs_db
  c_health :: "string \<Rightarrow> NodeHealth"
  c_events :: "JobEvent list"
  c_messages :: "string list"
  c_asks :: "Ask list"

record Env =
  e_now :: int
  e_skew :: "int option"
  e_last_seq :: nat
  e_followed :: "string \<Rightarrow> bool"
  e_node_name :: "string \<Rightarrow> string option"
  e_tuning :: Tuning

definition on_jobs :: "(jobs_db \<Rightarrow> jobs_db) \<Rightarrow> Ctrl \<Rightarrow> Ctrl" where
  "on_jobs f c = c \<lparr> c_jobs := f (c_jobs c) \<rparr>"

definition record_event :: "Env \<Rightarrow> string \<Rightarrow> string \<Rightarrow> string option \<Rightarrow> string option \<Rightarrow> string option \<Rightarrow> Ctrl \<Rightarrow> Ctrl" where
  "record_event env actor kind node ws job c = c \<lparr> c_events := c_events c @ [\<lparr> ev_at = e_now env, ev_actor = actor,
     ev_kind = kind, ev_node_id = node, ev_workspace_id = ws, ev_job_id = job \<rparr>] \<rparr>"

definition ask :: "Ask \<Rightarrow> Ctrl \<Rightarrow> Ctrl" where
  "ask a c = c \<lparr> c_asks := c_asks c @ [a] \<rparr>"

section \<open>After an attempt\<close>

definition retries_allowed :: "JobRow \<Rightarrow> JobState \<Rightarrow> nat" where
  "retries_allowed j state =
     (if j_ctl j = JobCtl_default \<and> j_retry_interrupted j \<and> state = JS_Interrupted then 1 else ct_retries (j_ctl j))"

definition jitter_seed :: "JobRow \<Rightarrow> nat" where
  "jitter_seed j = foldl (\<lambda>a ch. (a * 31 + byte ch) mod 2 ^ 64) (nat (j_attempt j mod 2 ^ 64)) (j_id j)"

definition attempt_words :: "Env \<Rightarrow> AttemptNote \<Rightarrow> string" where
  "attempt_words env a = unwrap_or (e_node_name env (an_node_id a)) (an_node_id a) @ '' ('' @ an_state a
     @ (case an_reason a of Some r \<Rightarrow> ''/'' @ r | None \<Rightarrow> []) @ '')''"

definition or_same :: "jobs_db \<Rightarrow> jobs_db option \<Rightarrow> jobs_db" where
  "or_same db r = unwrap_or r db"

text \<open>A failed attempt is noted; with no retry left the reason stays and the detail lists the attempts.\<close>

definition exhausted :: "Env \<Rightarrow> JobRow \<Rightarrow> JobCtl \<Rightarrow> nat \<Rightarrow> jobs_db \<Rightarrow> jobs_db" where
  "exhausted env j ctl allowed db0 =
     (let db = or_same db0 (set_job_ctl db0 (j_id j) ctl) in
      if 0 < allowed then
        set_job_reason db (j_id j) (j_reason j)
          (Some (''retries exhausted after '' @ digits_of (length (ct_failed_attempts ctl)) @ '' attempt(s): ''
            @ join_with '', '' (map (attempt_words env) (ct_failed_attempts ctl))))
      else db)"

definition retried_ctl :: "Env \<Rightarrow> JobRow \<Rightarrow> JobCtl \<Rightarrow> JobCtl" where
  "retried_ctl env j ctl =
     (let used = as_u32 (ct_retries_used ctl + 1);
          delay = backoff_secs used (e_tuning env) (jitter_seed j)
      in ctl \<lparr> ct_retries_used := used,
           ct_not_before := (if delay > 0 then Some (i64_add (e_now env) delay) else None),
           ct_queued_at := i64_add (e_now env) delay \<rparr>)"

definition count_for_node :: "Env \<Rightarrow> JobRow \<Rightarrow> JobState \<Rightarrow> Ctrl \<Rightarrow> Ctrl" where
  "count_for_node env j state c =
     (let (h, aside) = health_record (c_health c (j_node_id j)) state (j_reason j) (e_now env) (e_tuning env);
          c1 = c \<lparr> c_health := (c_health c)(j_node_id j := h) \<rparr>
      in if aside then record_event env ''controller'' ''node_set_aside'' (Some (j_node_id j)) None (Some (j_id j)) c1 else c1)"

definition after_attempt :: "Env \<Rightarrow> string \<Rightarrow> Ctrl \<Rightarrow> Ctrl \<times> bool" where
  "after_attempt env i c0 =
     (case job_by_id (c_jobs c0) i of
        None \<Rightarrow> (c0, False)
      | Some j \<Rightarrow>
     (case job_state j of
        None \<Rightarrow> (c0, False)
      | Some state \<Rightarrow>
       (let c = count_for_node env j state c0 in
        if \<not> is_infra state (j_reason j) then (c, False)
        else if ct_any (j_ctl j) = None \<and> retry_elsewhere_only (j_reason j) then (c, False)
        else
         (let allowed = retries_allowed j state;
              ctl = (j_ctl j) \<lparr> ct_failed_attempts := ct_failed_attempts (j_ctl j) @
                [\<lparr> an_attempt = j_attempt j, an_node_id = j_node_id j, an_state = j_state j, an_reason = j_reason j,
                   an_at = e_now env \<rparr>] \<rparr>
          in if allowed \<le> ct_retries_used ctl then (on_jobs (exhausted env j ctl allowed) c, False)
             else
              (let ctl' = retried_ctl env j ctl; (db, row) = requeue_new_attempt (c_jobs c) (j_id j) ''retry_backoff''
               in if row = None then (c \<lparr> c_jobs := db \<rparr>, False)
                  else
                   (let c1 = record_event env ''controller'' ''job_retry'' (Some (j_node_id j)) (Some (j_workspace_id j)) (Some (j_id j))
                          (c \<lparr> c_jobs := or_same db (set_job_ctl db (j_id j) ctl') \<rparr>)
                    in (ask (if ct_any ctl' \<noteq> None then Ask_Move (j_id j) (map an_node_id (ct_failed_attempts ctl')) True ''retry''
                             else Ask_Kick (j_node_id j)) c1, True)))))))"

section \<open>The end of a job\<close>

definition children :: "Ctrl \<Rightarrow> JobRow \<Rightarrow> JobRow list" where
  "children c p = List.map_filter (job_by_id (c_jobs c)) (ct_shards (j_ctl p))"

definition shard_index :: "JobRow \<Rightarrow> nat" where
  "shard_index j = (case ct_shard (j_ctl j) of Some s \<Rightarrow> sh_index s | None \<Rightarrow> 0)"

text \<open>The last shard ends its split run; \<open>None\<close> when there is nothing to end.\<close>

definition child_ended :: "Env \<Rightarrow> string \<Rightarrow> Ctrl \<Rightarrow> Ctrl option" where
  "child_ended env parent_id c =
     (case job_by_id (c_jobs c) parent_id of
        None \<Rightarrow> None
      | Some parent \<Rightarrow>
          if row_terminal parent \<or> ct_shards (j_ctl parent) = [] then None
          else
           (let kids = children c parent in
            if length kids \<noteq> length (ct_shards (j_ctl parent)) then None
            else (case aggregate (map (\<lambda>j. (shard_index j, j)) kids) of
                    None \<Rightarrow> None
                  | Some agg \<Rightarrow> Some (record_event env ''controller'' ''job_end'' None (Some (j_workspace_id parent)) (Some (j_id parent))
                      (on_jobs (\<lambda>db. finish_parent db (j_id parent) agg) c)))))"

definition wants_message :: "Env \<Rightarrow> JobRow \<Rightarrow> bool" where
  "wants_message env j \<longleftrightarrow>
     (let queue_timeout = (j_state j = ''failed'' \<and> j_reason j = Some ''queue_timeout'');
          wants = (j_detach j \<or> queue_timeout \<or> (j_session_id j \<noteq> None \<and> \<not> e_followed env (j_id j)))
      in wants \<and> \<not> (j_state j = ''cancelled'' \<and> ct_cancelled_by_requester (j_ctl j)))"

definition finalize_own :: "Env \<Rightarrow> string \<Rightarrow> Ctrl \<Rightarrow> Ctrl" where
  "finalize_own env i c =
     (case job_by_id (c_jobs c) i of
        None \<Rightarrow> c
      | Some j \<Rightarrow>
          if ct_shard (j_ctl j) \<noteq> None \<or> \<not> row_terminal j \<or> \<not> wants_message env j \<or> j_notified_at j \<noteq> None then c
          else (on_jobs (\<lambda>db. mark_notified db i (e_now env)) c) \<lparr> c_messages := c_messages c @ [j_id j] \<rparr>)"

definition shard_parent :: "Ctrl \<Rightarrow> string \<Rightarrow> string option" where
  "shard_parent c i = (case job_by_id (c_jobs c) i of
     Some j \<Rightarrow> if row_terminal j then map_option sh_parent (ct_shard (j_ctl j)) else None | None \<Rightarrow> None)"

text \<open>Every parent a shard ends was open before, so the chain of parents is finite.\<close>

definition open_rows :: "Ctrl \<Rightarrow> nat" where
  "open_rows c = length (filter (\<lambda>j. \<not> row_terminal j) (c_jobs c))"

lemma upd_Cons [simp]: "upd p f (r # db) = (if p r then f r else r) # upd p f db"
  by (simp add: upd_def)

lemma job_by_id_Some: "job_by_id db i = Some j \<Longrightarrow> j \<in> set db \<and> j_id j = i"
  by (auto simp: job_by_id_def with_id_def dest!: find_Some_iff')

lemma put_aggregate_terminal: "aggregate kids = Some a \<Longrightarrow> row_terminal (put_aggregate a r)"
  using aggregate_terminal [of kids a] by (auto simp: row_terminal_def job_state_def put_aggregate_def)

lemma finish_parent_closes:
  assumes "\<And>r. row_terminal (put_aggregate a r)" "j \<in> set db" "j_id j = i" "\<not> row_terminal j"
  shows "length (filter (\<lambda>j. \<not> row_terminal j) (finish_parent db i a)) < length (filter (\<lambda>j. \<not> row_terminal j) db)"
proof -
  have le: "length (filter (\<lambda>j. \<not> row_terminal j) (upd (with_id i) (put_aggregate a) db))
      \<le> length (filter (\<lambda>j. \<not> row_terminal j) db)" for db
    using assms(1) by (induction db) (auto simp: upd_def)
  show ?thesis using assms(2-4)
  proof (induction db)
    case (Cons r db)
    then show ?case using le [of db] assms(1) by (auto simp: finish_parent_def with_id_def less_Suc_eq_le)
  qed simp
qed

lemma child_ended_closes: "child_ended env p c = Some c' \<Longrightarrow> open_rows c' < open_rows c"
  by (auto simp: child_ended_def open_rows_def Let_def record_event_def on_jobs_def split: option.splits if_splits
      intro!: finish_parent_closes dest: job_by_id_Some put_aggregate_terminal)

function finalize :: "Env \<Rightarrow> string \<Rightarrow> Ctrl \<Rightarrow> Ctrl" where
  "finalize env i c =
     (case shard_parent c i of
        Some p \<Rightarrow> (case child_ended env p c of Some c' \<Rightarrow> finalize env p c' | None \<Rightarrow> c)
      | None \<Rightarrow> finalize_own env i c)"
  by pat_completeness auto

termination
  by (relation "measure (\<lambda>(env, i, c). open_rows c)") (auto simp: child_ended_closes)

declare finalize.simps [simp del]

end
