(* ===== verification/Job_Observe.thy ===== *)
theory Job_Observe
  imports Job_Ends
begin

text \<open>
  The reports of a node applied to the jobs table (\<open>compute_ws.rs\<close>) and the sweep of lost nodes
  (\<open>compute_place.rs\<close>). A report carries the attempt's generation; a report of another node or attempt, or on
  a row that has ended, changes nothing.
\<close>

section \<open>One report\<close>

record Obs =
  ob_job_id :: string
  ob_generation :: nat
  ob_state :: JobState
  ob_reason :: "string option"
  ob_detail :: "string option"
  ob_exit :: "ExitInfo option"
  ob_src :: "SrcRan option"
  ob_queue :: "QueuePos option"
  ob_at :: "int option"
  ob_started_at :: "int option"

text \<open>The end of a job a newer \<open>--supersede\<close> replaced.\<close>

definition replaced_end :: "JobRow \<Rightarrow> string option \<Rightarrow> (string \<times> string option) option" where
  "replaced_end job asked = (case ct_replaced_by (j_ctl job) of
     Some by_job \<Rightarrow> if asked = Some PENDING_CANCEL then Some (REPLACED, Some (''replaced by job '' @ short by_job)) else None
   | None \<Rightarrow> None)"

definition queue_timeout_words :: "JobRow \<Rightarrow> string \<Rightarrow> string" where
  "queue_timeout_words j waited_in = ''not started within '' @ duration (unwrap_or (ct_queue_timeout_secs (j_ctl j)) 0)
     @ '' (it waited in '' @ waited_in @ '' queue''
     @ (case j_node_blocked_by j of Some b \<Rightarrow> '': '' @ blocked_words b | None \<Rightarrow> []) @ '')''"

text \<open>A shared node gave a queued job back: it never started there. It is requeued under a new generation, or fails
  when the withdraw was for its queue timeout.\<close>

definition given_back_job :: "Env \<Rightarrow> string \<Rightarrow> JobRow \<Rightarrow> Ctrl \<Rightarrow> Ctrl" where
  "given_back_job env node job c =
     (if j_reason job = Some PENDING_TIMEOUT then
        finalize env (j_id job)
          (record_event env ''controller'' ''job_queue_timeout'' (Some node) (Some (j_workspace_id job)) (Some (j_id job))
            (on_jobs (\<lambda>db. clear_node_queued (set_job_state db (j_id job) JS_Failed (Some ''queue_timeout'')
               (Some (queue_timeout_words job (''the node'' @ [CHR 0x27] @ ''s''))) (e_now env)) (j_id job)) c))
      else if j_reason job = Some PENDING_RESEND then
        (case requeue_new_generation (c_jobs c) (j_id job) (j_generation job) ''resent'' of
           (db, True) \<Rightarrow> ask (Ask_Kick node) (record_event env ''controller'' ''resend'' (Some node)
              (Some (j_workspace_id job)) (Some (j_id job)) (c \<lparr> c_jobs := db \<rparr>))
         | (db, False) \<Rightarrow> c \<lparr> c_jobs := db \<rparr>)
      else
        (case requeue_new_generation (c_jobs c) (j_id job) (j_generation job) ''withdrawn'' of
           (db, True) \<Rightarrow>
             (let c1 = record_event env ''controller'' ''withdraw'' (Some node) (Some (j_workspace_id job)) (Some (j_id job))
                    (c \<lparr> c_jobs := db \<rparr>)
              in if (case job_by_id db (j_id job) of Some r \<Rightarrow> ct_any (j_ctl r) \<noteq> None | None \<Rightarrow> False)
                 then ask (Ask_Move (j_id job) [] False ''withdrawn'') c1 else ask (Ask_Kick node) c1)
         | (db, False) \<Rightarrow> c \<lparr> c_jobs := db \<rparr>))"

text \<open>The node refused the assign: a cancel that was asked for ends the job here, else it waits again.\<close>

definition refused_assign :: "Env \<Rightarrow> string \<Rightarrow> JobRow \<Rightarrow> Obs \<Rightarrow> Ctrl \<Rightarrow> Ctrl" where
  "refused_assign env node job b c =
     (let asked = j_reason job; i = j_id job in
      if asked = Some CANCEL_REQUESTED \<or> asked = Some PENDING_CANCEL then
        (let (stop, stop_detail) = unwrap_or (replaced_end job asked) (''cancelled'', None)
         in finalize env i (record_event env ''node'' ''job_end'' (Some node) (Some (j_workspace_id job)) (Some i)
              (on_jobs (\<lambda>db. set_job_state db i JS_Cancelled (Some stop) stop_detail (e_now env)) c)))
      else on_jobs (\<lambda>db. clear_node_queued (set_job_state db i JS_Queued (ob_reason b) (ob_detail b) (e_now env)) i) c)"

text \<open>The reason and the detail a state is stored with, then the state itself: a cancel that is owed turns an
  interruption into a cancel.\<close>

definition cancel_owed :: "JobRow \<Rightarrow> bool" where
  "cancel_owed job \<longleftrightarrow> j_reason job = Some CANCEL_REQUESTED"

definition lost_race :: "JobRow \<Rightarrow> Obs \<Rightarrow> bool" where
  "lost_race job b \<longleftrightarrow> j_reason job = Some PENDING_CANCEL \<and> \<not> is_terminal (ob_state b)"

definition kept_reason :: "JobRow \<Rightarrow> Obs \<Rightarrow> string option" where
  "kept_reason job b =
     (if cancel_owed job \<and> \<not> is_terminal (ob_state b) then Some CANCEL_REQUESTED
      else if lost_race job b then Some JOB_STARTED else ob_reason b)"

definition ended_by_node :: "JobState \<Rightarrow> string option \<Rightarrow> string option" where
  "ended_by_node s reason =
     (if s = JS_Cancelled \<and> reason = Some SHARE_EXPIRED
      then Some (''this server'' @ [CHR 0x27] @ ''s share on the node has ended (the node'' @ [CHR 0x27] @ ''s owner can extend it)'')
      else if s = JS_Cancelled \<and> reason = Some SHARE_REVOKED
      then Some (''the node'' @ [CHR 0x27] @ ''s owner removed this server from the node'')
      else None)"

definition end_words :: "JobRow \<Rightarrow> Obs \<Rightarrow> JobState \<times> string option \<times> string option" where
  "end_words job b =
     (let reason = kept_reason job b; detail = or_else (ob_detail b) (ended_by_node (ob_state b) reason);
          replaced = (if ob_state b = JS_Cancelled then replaced_end job (j_reason job) else None);
          (reason1, detail1) = (case replaced of Some (r, d) \<Rightarrow> (Some r, d) | None \<Rightarrow> (reason, detail))
      in if cancel_owed job \<and> ob_state b \<in> {JS_Interrupted, JS_Unknown}
         then (JS_Cancelled, Some ''cancelled'', Some (''cancelled as asked; the node then reported ''
                @ JobState_as_str (ob_state b) @ (case reason1 of Some r \<Rightarrow> ''/'' @ r | None \<Rightarrow> [])))
         else (ob_state b, reason1, detail1))"

text \<open>The node's own times, when its clock can be trusted: the stamp, the options with whose clock it is, and the
  start of a job that was only heard of at its end.\<close>

definition i64_min :: int where "i64_min = - (2 ^ 63)"

definition node_stamp :: "Env \<Rightarrow> JobRow \<Rightarrow> JobState \<Rightarrow> Obs \<Rightarrow> int \<times> JobCtl \<times> int option" where
  "node_stamp env job state b =
     (let now = e_now env; ctl = j_ctl job in
      case ob_at b of
        None \<Rightarrow> (now, ctl, None)
      | Some at \<Rightarrow>
          if state = JS_Running \<or> is_terminal state then
            (let (t, clk0, late) = node_time at now (e_skew env);
                 clk = (if ct_clock ctl = Some ''server'' then ''server'' else clk0)
             in if clk = ''node'' then
                  (let base = (if state = JS_Running then j_assigned_at job else or_else (j_started_at job) (j_assigned_at job));
                       stamp = max t (unwrap_or base i64_min)
                   in if is_terminal state then
                        (let start = (if j_started_at job = None
                               then map_option (\<lambda>s. min (max (fst (node_time s now (Some 0))) (unwrap_or (j_assigned_at job) i64_min)) stamp)
                                      (ob_started_at b)
                               else None);
                             ctl1 = (case late of Some l \<Rightarrow> ctl \<lparr> ct_reported_late_secs := Some l, ct_heard_at := Some now \<rparr> | None \<Rightarrow> ctl)
                         in (stamp, ctl1 \<lparr> ct_clock := Some clk \<rparr>, start))
                      else (stamp, ctl \<lparr> ct_clock := Some clk \<rparr>, None))
                else (now, ctl \<lparr> ct_clock := Some clk \<rparr>, None))
          else (now, ctl, None))"

definition put_start :: "string \<Rightarrow> int option \<Rightarrow> jobs_db \<Rightarrow> jobs_db" where
  "put_start i start db = (case start of Some s \<Rightarrow> set_job_times db i (Some s) None | None \<Rightarrow> db)"

definition observed_jobs :: "Env \<Rightarrow> JobRow \<Rightarrow> Obs \<Rightarrow> jobs_db \<Rightarrow> jobs_db" where
  "observed_jobs env job b db0 =
     (let i = j_id job; (state, reason, detail) = end_words job b; (stamp, ctl, start) = node_stamp env job state b;
          db1 = (if j_node_queued job then clear_node_queued db0 i else db0);
          db2 = set_job_state (put_start i start db1) i state reason detail stamp;
          db3 = (if ctl \<noteq> j_ctl job then or_same db2 (set_job_ctl db2 i ctl) else db2);
          db4 = (case ob_src b of Some s \<Rightarrow> set_job_src db3 i (sn_commit s) (sn_tree s) | None \<Rightarrow> db3);
          db5 = (case ob_exit b of Some x \<Rightarrow> set_job_exit db4 i (xi_code x) (xi_signal x) | None \<Rightarrow> db4)
      in if is_terminal state then set_job_log db5 i (e_last_seq env) 0 else db5)"

definition observed_events :: "Env \<Rightarrow> string \<Rightarrow> JobRow \<Rightarrow> Obs \<Rightarrow> JobState \<Rightarrow> Ctrl \<Rightarrow> Ctrl" where
  "observed_events env node job b state c =
     (let note = (\<lambda>kind c. record_event env ''node'' kind (Some node) (Some (j_workspace_id job)) (Some (j_id job)) c);
          c1 = (if lost_race job b then note ''job_cancel_lost'' c else c);
          c2 = (if state = JS_Running \<and> j_started_at job = None then note ''job_start'' c1 else c1)
      in if is_terminal state then note ''job_end'' c2 else c2)"

definition observed :: "Env \<Rightarrow> string \<Rightarrow> JobRow \<Rightarrow> Obs \<Rightarrow> Ctrl \<Rightarrow> Ctrl" where
  "observed env node job b c =
     (let state = fst (end_words job b);
          c1 = observed_events env node job b state (on_jobs (observed_jobs env job b) c)
      in if \<not> is_terminal state then c1
         else if cancel_owed job then finalize env (j_id job) c1
         else (let (c2, retried) = after_attempt env (j_id job) c1 in if retried then c2 else finalize env (j_id job) c2))"

definition given_back :: "JobRow \<Rightarrow> Obs \<Rightarrow> bool" where
  "given_back job b \<longleftrightarrow> ob_state b = JS_Cancelled
     \<and> (reason_in (ob_reason b) [WITHDRAWN, SUPERSEDED]
        \<or> reason_in (j_reason job) [PENDING_WITHDRAW, PENDING_TIMEOUT, PENDING_RESEND])
     \<and> \<not> (j_reason job = Some CANCEL_REQUESTED \<or> j_reason job = Some PENDING_CANCEL)"

definition apply_observation :: "Env \<Rightarrow> string \<Rightarrow> Obs \<Rightarrow> Ctrl \<Rightarrow> Ctrl" where
  "apply_observation env node b c =
     (case job_by_id (c_jobs c) (ob_job_id b) of
        None \<Rightarrow> c
      | Some job \<Rightarrow>
          if j_node_id job \<noteq> node \<or> j_generation job \<noteq> int (ob_generation b) then c
          else if row_terminal job then c
          else if ob_state b = JS_Queued \<and> ob_reason b = Some NODE_QUEUED then
            (let keep = (j_reason job = Some CANCEL_REQUESTED \<or> pending_any (j_reason job))
             in on_jobs (\<lambda>db. fst (mark_node_queued db (j_id job) (j_generation job) (ob_queue b)
                  (if keep then None else Some NODE_QUEUED) (e_now env))) c)
          else if given_back job b then given_back_job env node job c
          else if ob_state b = JS_Queued then refused_assign env node job b c
          else observed env node job b c)"

section \<open>Frames\<close>

definition store_outputs :: "string \<Rightarrow> string \<Rightarrow> nat \<Rightarrow> Outputs \<Rightarrow> Ctrl \<Rightarrow> Ctrl" where
  "store_outputs node i g out c =
     (case job_by_id (c_jobs c) i of
        None \<Rightarrow> c
      | Some job \<Rightarrow> if j_node_id job \<noteq> node \<or> j_generation job \<noteq> int g then c
          else on_jobs (\<lambda>db. set_job_outputs db i (int g) (capped out)) c)"

definition on_state :: "Env \<Rightarrow> string \<Rightarrow> StateUpdate \<Rightarrow> Ctrl \<Rightarrow> Ctrl" where
  "on_state env node s c =
     (let c1 = (case su_outputs s of
            Some out \<Rightarrow> if is_terminal (su_state s) then store_outputs node (su_job_id s) (su_generation s) out c else c
          | None \<Rightarrow> c);
          c2 = apply_observation env node \<lparr> ob_job_id = su_job_id s, ob_generation = su_generation s, ob_state = su_state s,
            ob_reason = su_reason s, ob_detail = su_detail s, ob_exit = su_exit s, ob_src = su_src s,
            ob_queue = su_queue s, ob_at = Some (su_at s), ob_started_at = None \<rparr> c1
      in if is_terminal (su_state s) then ask (Ask_Kick node) c2 else c2)"

text \<open>A node still runs an attempt this server ended: it is told to stop.\<close>

definition gen_u32 :: "JobRow \<Rightarrow> nat" where
  "gen_u32 j = nat (j_generation j mod 2 ^ 32)"

definition stop_stale :: "string \<Rightarrow> LedgerJob \<Rightarrow> Ctrl \<Rightarrow> Ctrl" where
  "stop_stale node j c =
     (if is_terminal (lj_state j) then c
      else if (case job_by_id (c_jobs c) (lj_job_id j) of
                 None \<Rightarrow> False
               | Some row \<Rightarrow> lj_generation j < gen_u32 row \<or> j_node_id row \<noteq> node
                   \<or> (gen_u32 row = lj_generation j \<and> row_terminal row))
           then ask (Ask_Cancel node (lj_job_id j) (lj_generation j) ''superseded'') c
           else c)"

definition ledger_obs :: "LedgerJob \<Rightarrow> Obs" where
  "ledger_obs j = \<lparr> ob_job_id = lj_job_id j, ob_generation = lj_generation j, ob_state = lj_state j, ob_reason = lj_reason j,
     ob_detail = None, ob_exit = lj_exit j, ob_src = None, ob_queue = None,
     ob_at = (if is_terminal (lj_state j) then lj_ended_at j else lj_started_at j), ob_started_at = lj_started_at j \<rparr>"

definition snapshot_row :: "Env \<Rightarrow> string \<Rightarrow> Ctrl \<Rightarrow> LedgerJob \<Rightarrow> Ctrl" where
  "snapshot_row env node c j = apply_observation env node (ledger_obs j) (stop_stale node j c)"

text \<open>Jobs thought to be on the node that its ledger never saw: a queued one goes back, a started one is unknown.\<close>

definition seen_key :: "string \<Rightarrow> int \<Rightarrow> string" where
  "seen_key i g = i @ ''#'' @ (if g < 0 then ''-'' @ digits_of (nat (- g)) else digits_of (nat g))"

definition unseen_row :: "Env \<Rightarrow> string \<Rightarrow> string set \<Rightarrow> Ctrl \<times> string list \<Rightarrow> JobRow \<Rightarrow> Ctrl \<times> string list" where
  "unseen_row env node seen = (\<lambda>(c, lost) j.
     if seen_key (j_id j) (j_generation j) \<in> seen then (c, lost)
     else if j_node_queued j then
       (case requeue_new_generation (c_jobs c) (j_id j) (j_generation j) ''not_on_node'' of
          (db, True) \<Rightarrow> (record_event env ''controller'' ''job_requeue'' (Some node) (Some (j_workspace_id j)) (Some (j_id j))
             (c \<lparr> c_jobs := db \<rparr>), lost)
        | (db, False) \<Rightarrow> (c \<lparr> c_jobs := db \<rparr>, lost))
     else
       (record_event env ''controller'' ''job_unknown'' (Some node) (Some (j_workspace_id j)) (Some (j_id j))
          (on_jobs (\<lambda>db. set_job_state db (j_id j) JS_Unknown (Some ''not_on_node'') None (e_now env)) c), lost @ [j_id j]))"

definition end_lost :: "Env \<Rightarrow> Ctrl \<Rightarrow> string \<Rightarrow> Ctrl" where
  "end_lost env c i = (let (c1, retried) = after_attempt env i c in if retried then c1 else finalize env i c1)"

definition on_snapshot :: "Env \<Rightarrow> string \<Rightarrow> JobsSnapshot \<Rightarrow> Ctrl \<times> string set \<Rightarrow> Ctrl \<times> string set" where
  "on_snapshot env node s = (\<lambda>(c0, seen0).
     (let seen = seen0 \<union> (\<lambda>j. seen_key (lj_job_id j) (int (lj_generation j))) ` set (sp_jobs s);
          c = foldl (snapshot_row env node) c0 (sp_jobs s)
      in if \<not> sp_last s then (c, seen)
         else
          (let (c1, lost) = foldl (unseen_row env node seen) (c, []) (jobs_in_states (c_jobs c) node ACTIVE_STATES)
           in (ask (Ask_Kick node) (foldl (end_lost env) c1 lost), {}))))"

section \<open>The sweep of lost nodes\<close>

record NodeFacts =
  nf_id :: string
  nf_name :: string
  nf_last_seen :: "int option"
  nf_enrolled_at :: int
  nf_online :: bool

definition offline_since :: "NodeFacts \<Rightarrow> int \<Rightarrow> int" where
  "offline_since n awake = max (unwrap_or (nf_last_seen n) (nf_enrolled_at n)) awake"

definition fail_queue_timeout :: "Env \<Rightarrow> JobRow \<Rightarrow> string \<Rightarrow> Ctrl \<Rightarrow> Ctrl" where
  "fail_queue_timeout env j node_name c =
     finalize env (j_id j)
       (record_event env ''controller'' ''job_queue_timeout'' (Some (j_node_id j)) (Some (j_workspace_id j)) (Some (j_id j))
         (on_jobs (\<lambda>db. clear_node_queued (set_job_state db (j_id j) JS_Failed (Some ''queue_timeout'')
            (Some (queue_timeout_words j (node_name @ [CHR 0x27] @ ''s''))) (e_now env)) (j_id j)) c))"

definition requeue_lost :: "Env \<Rightarrow> JobRow \<Rightarrow> NodeFacts \<Rightarrow> Ctrl \<Rightarrow> Ctrl" where
  "requeue_lost env j n c =
     (if j_reason j = Some PENDING_CANCEL then
        finalize env (j_id j) (on_jobs (\<lambda>db. clear_node_queued (set_job_state db (j_id j) JS_Cancelled (Some ''cancelled'') None
          (e_now env)) (j_id j)) c)
      else if j_reason j = Some PENDING_TIMEOUT then fail_queue_timeout env j (nf_name n) c
      else
        (case requeue_new_generation (c_jobs c) (j_id j) (j_generation j) ''node_lost'' of
           (db, True) \<Rightarrow>
             (let c1 = record_event env ''controller'' ''job_requeue'' (Some (nf_id n)) (Some (j_workspace_id j)) (Some (j_id j))
                    (c \<lparr> c_jobs := db \<rparr>)
              in if (case job_by_id db (j_id j) of Some r \<Rightarrow> ct_any (j_ctl r) \<noteq> None | None \<Rightarrow> False)
                 then ask (Ask_Move (j_id j) [] True ''node_lost'') c1 else c1)
         | (db, False) \<Rightarrow> c \<lparr> c_jobs := db \<rparr>))"

definition lose_job :: "Env \<Rightarrow> NodeFacts \<Rightarrow> int \<Rightarrow> Ctrl \<Rightarrow> JobRow \<Rightarrow> Ctrl" where
  "lose_job env n mins c j =
     (if j_node_queued j \<and> j_reason j \<noteq> Some CANCEL_REQUESTED then requeue_lost env j n c
      else
        (let detail = nf_name n @ '' has been offline for '' @ digits_of (nat mins)
               @ '' min; if it comes back, it is told to stop this attempt'';
             c1 = (if j_reason j = Some CANCEL_REQUESTED
                   then on_jobs (\<lambda>db. set_job_state db (j_id j) JS_Cancelled (Some ''cancelled'') (Some (''cancelled as asked; '' @ detail)) (e_now env)) c
                   else on_jobs (\<lambda>db. set_job_state db (j_id j) JS_Interrupted (Some ''node_lost'') (Some detail) (e_now env)) c);
             c2 = record_event env ''controller'' ''job_lost'' (Some (nf_id n)) (Some (j_workspace_id j)) (Some (j_id j)) c1
         in if j_reason j = Some CANCEL_REQUESTED then finalize env (j_id j) c2 else end_lost env c2 (j_id j)))"

definition sweep_lost :: "Env \<Rightarrow> int \<Rightarrow> NodeFacts list \<Rightarrow> Ctrl \<Rightarrow> Ctrl" where
  "sweep_lost env awake nodes c =
     foldl (\<lambda>c j. case find (\<lambda>n. nf_id n = j_node_id j) nodes of
         None \<Rightarrow> c
       | Some n \<Rightarrow>
           if nf_online n \<or> i64_sub (e_now env) (offline_since n awake) < tu_node_lost_secs (e_tuning env) then c
           else lose_job env n (i64_sub (e_now env) (offline_since n awake) div 60) c j)
       c (active_jobs (c_jobs c))"

end
