(* ===== verification/Job_Ops.thy ===== *)
theory Job_Ops
  imports Job_Observe
begin

text \<open>
  What users and the server itself do to a job: submit, cancel, replace, dispatch, fail while waiting, give back,
  retry by hand, and the node's receipt (\<open>compute_routes.rs\<close>, \<open>compute_views.rs\<close>, \<open>compute_ws.rs\<close>,
  \<open>compute_place.rs\<close>, \<open>compute_allow.rs\<close>). Every guarded write is a compare-and-set of \<open>Job_Store\<close>. Which nodes
  are attached (\<open>online\<close>), the allow list and the placement's choice are parameters.
\<close>

section \<open>Cancelling\<close>

datatype CancelErr = CE_Not_Found | CE_Already_Ended string | CE_Job_Started | CE_Internal

datatype CancelDone = CD_Queued | CD_Sent JobRow bool | CD_Asked bool

text \<open>A frame reaches an attached node only.\<close>

definition send_cancel_for :: "(string \<Rightarrow> bool) \<Rightarrow> string \<Rightarrow> string \<Rightarrow> int \<Rightarrow> string \<Rightarrow> Ctrl \<Rightarrow> Ctrl \<times> bool" where
  "send_cancel_for online node i g why c =
     (if online node then (ask (Ask_Cancel node i (nat (g mod 2 ^ 32)) why) c, True) else (c, False))"

definition send_cancel :: "(string \<Rightarrow> bool) \<Rightarrow> string \<Rightarrow> string \<Rightarrow> int \<Rightarrow> Ctrl \<Rightarrow> Ctrl \<times> bool" where
  "send_cancel online node i g = send_cancel_for online node i g ''cancelled''"

definition send_cancel_if_not_started :: "(string \<Rightarrow> bool) \<Rightarrow> string \<Rightarrow> string \<Rightarrow> int \<Rightarrow> string \<Rightarrow> Ctrl \<Rightarrow> Ctrl \<times> bool" where
  "send_cancel_if_not_started online node i g reason = send_cancel_for online node i g reason"

definition job_event :: "Env \<Rightarrow> string \<Rightarrow> string \<Rightarrow> JobRow \<Rightarrow> Ctrl \<Rightarrow> Ctrl" where
  "job_event env actor kind j = record_event env actor kind (Some (j_node_id j)) (Some (j_workspace_id j)) (Some (j_id j))"

definition cancel_sent :: "Env \<Rightarrow> (string \<Rightarrow> bool) \<Rightarrow> string \<Rightarrow> string \<Rightarrow> bool \<Rightarrow> Ctrl \<Rightarrow> Ctrl \<times> (CancelErr + CancelDone)" where
  "cancel_sent env online by_who i queued_only c =
     (case job_by_id (c_jobs c) i of
        None \<Rightarrow> (c, Inl CE_Not_Found)
      | Some j \<Rightarrow>
          if queued_only \<and> j_node_queued j \<and> j_reason j \<noteq> Some CANCEL_REQUESTED then
            (let (c1, sent) = (if j_reason j = Some PENDING_CANCEL then (c, True)
                   else send_cancel_if_not_started online (j_node_id j) (j_id j) (j_generation j) CANCEL_IF_QUEUED c)
             in (job_event env by_who ''job_cancel'' j (on_jobs (\<lambda>db. set_job_reason db (j_id j) (Some PENDING_CANCEL) None) c1),
                 Inr (CD_Asked sent)))
          else if queued_only then (c, Inl CE_Job_Started)
          else
            (let (c1, sent) = send_cancel online (j_node_id j) (j_id j) (j_generation j) c
             in (job_event env by_who ''job_cancel'' j (on_jobs (\<lambda>db. set_job_reason db (j_id j) (Some CANCEL_REQUESTED) None) c1),
                 Inr (CD_Sent j sent))))"

definition cancel_read :: "Env \<Rightarrow> (string \<Rightarrow> bool) \<Rightarrow> string \<Rightarrow> JobRow \<Rightarrow> bool \<Rightarrow> Ctrl \<Rightarrow> Ctrl \<times> (CancelErr + CancelDone)" where
  "cancel_read env online by_who j queued_only c =
     (if j_state j = ''queued'' then
        (case cancel_if_queued (c_jobs c) (j_id j) (e_now env) of
           (db, True) \<Rightarrow> (job_event env by_who ''job_cancel'' j (c \<lparr> c_jobs := db \<rparr>), Inr CD_Queued)
         | (db, False) \<Rightarrow> cancel_sent env online by_who (j_id j) queued_only (c \<lparr> c_jobs := db \<rparr>))
      else cancel_sent env online by_who (j_id j) queued_only c)"

definition cancel_one :: "Env \<Rightarrow> (string \<Rightarrow> bool) \<Rightarrow> string \<Rightarrow> string \<Rightarrow> bool \<Rightarrow> Ctrl \<Rightarrow> Ctrl \<times> (CancelErr + CancelDone)" where
  "cancel_one env online by_who i queued_only c =
     (case job_by_id (c_jobs c) i of
        None \<Rightarrow> (c, Inl CE_Not_Found)
      | Some j \<Rightarrow>
          if row_terminal j then (c, Inl (CE_Already_Ended (j_state j)))
          else
            (let mine = (by_who = j_requested_by j \<and> \<not> ct_cancelled_by_requester (j_ctl j));
                 noted = (if mine then set_job_ctl (c_jobs c) (j_id j) ((j_ctl j) \<lparr> ct_cancelled_by_requester := True \<rparr>)
                          else Some (c_jobs c))
             in (case noted of
                   None \<Rightarrow> (c, Inl CE_Internal)
                 | Some db \<Rightarrow>
                     (let (c1, r) = cancel_read env online by_who j queued_only (c \<lparr> c_jobs := db \<rparr>)
                      in (if r = Inr CD_Queued then finalize env i c1 else c1, r)))))"

section \<open>A newer run with the same key\<close>

text \<open>One older job of the key: replaced here, asked of its node, or left (it started).\<close>

definition supersede_read :: "Env \<Rightarrow> (string \<Rightarrow> bool) \<Rightarrow> JobRow \<Rightarrow> string \<Rightarrow> Ctrl \<Rightarrow> Ctrl \<times> bool option" where
  "supersede_read env online new_job old c =
     (case job_by_id (c_jobs c) old of
        None \<Rightarrow> (c, None)
      | Some cur \<Rightarrow>
          (let ctl = (j_ctl cur) \<lparr> ct_replaced_by := Some (j_id new_job),
                 ct_cancelled_by_requester := (ct_cancelled_by_requester (j_ctl cur) \<or> j_requested_by cur = j_requested_by new_job) \<rparr>
           in if j_state cur = ''queued'' then
                (case set_job_ctl (c_jobs c) (j_id cur) ctl of
                   None \<Rightarrow> (c, None)
                 | Some db \<Rightarrow>
                     (case replace_if_queued db (j_id cur) (j_id new_job) (e_now env) of
                        (db', True) \<Rightarrow> (job_event env (j_requested_by new_job) ''job_replaced'' cur (c \<lparr> c_jobs := db' \<rparr>), Some True)
                      | (db', False) \<Rightarrow> (c \<lparr> c_jobs := db' \<rparr>, None)))
              else if j_state cur = ''assigned'' \<and> j_node_queued cur
                  \<and> \<not> (pending_any (j_reason cur) \<or> j_reason cur = Some CANCEL_REQUESTED) then
                (case set_job_ctl (c_jobs c) (j_id cur) ctl of
                   None \<Rightarrow> (c, None)
                 | Some db \<Rightarrow>
                     (let (c1, sent) = send_cancel_if_not_started online (j_node_id cur) (j_id cur) (j_generation cur) CANCEL_IF_QUEUED
                            (c \<lparr> c_jobs := db \<rparr>)
                      in (job_event env (j_requested_by new_job) ''job_replaced'' cur
                            (on_jobs (\<lambda>db. set_job_reason db (j_id cur) (Some PENDING_CANCEL) None) c1), Some False)))
              else (c, None)))"

definition same_run :: "JobRow \<Rightarrow> JobRow \<Rightarrow> bool" where
  "same_run new_job old \<longleftrightarrow> j_id old = j_id new_job
     \<or> (ct_shard (j_ctl new_job) \<noteq> None \<and> map_option sh_parent (ct_shard (j_ctl old)) = map_option sh_parent (ct_shard (j_ctl new_job)))"

definition supersede_older :: "Env \<Rightarrow> (string \<Rightarrow> bool) \<Rightarrow> string \<Rightarrow> string \<Rightarrow> JobRow \<Rightarrow> Ctrl \<Rightarrow> Ctrl \<times> string list" where
  "supersede_older env online ws key new_job c =
     (if (case ct_shard (j_ctl new_job) of Some s \<Rightarrow> sh_index s \<noteq> 1 | None \<Rightarrow> False) then (c, [])
      else let olds = filter (\<lambda>old. \<not> same_run new_job old) (queued_with_supersede_key (c_jobs c) ws key);
          (c1, ended, replaced) =
            foldl (\<lambda>(c, ended, replaced) old.
                (case supersede_read env online new_job (j_id old) c of
                   (c', Some True) \<Rightarrow> (c', ended @ [j_id old], replaced @ [j_id old])
                 | (c', Some False) \<Rightarrow> (c', ended, replaced @ [j_id old])
                 | (c', None) \<Rightarrow> (c', ended, replaced)))
              (c, [], []) olds
      in (foldl (\<lambda>c i. finalize env i c) c1 ended, replaced))"

section \<open>Dispatch\<close>

text \<open>A queued job is sent to a node: the assign is a compare-and-set, and taken back when the channel is closed.\<close>

definition send_job :: "Env \<Rightarrow> string \<Rightarrow> bool \<Rightarrow> JobRow \<Rightarrow> Ctrl \<Rightarrow> Ctrl \<times> bool" where
  "send_job env node sent job c =
     (case assign_if_queued (c_jobs c) (j_id job) (e_now env) of
        (db, False) \<Rightarrow> (c \<lparr> c_jobs := db \<rparr>, False)
      | (db, True) \<Rightarrow>
          if \<not> sent then (c \<lparr> c_jobs := set_job_state db (j_id job) JS_Queued (Some ''node_offline'') None (e_now env) \<rparr>, False)
          else (record_event env ''controller'' ''assign'' (Some node) (Some (j_workspace_id job)) (Some (j_id job)) (c \<lparr> c_jobs := db \<rparr>), True))"

text \<open>The reason a waiting job shows.\<close>

definition note_waiting :: "string \<Rightarrow> string \<Rightarrow> string \<Rightarrow> Ctrl \<Rightarrow> Ctrl" where
  "note_waiting i code message c =
     (case job_by_id (c_jobs c) i of
        Some j \<Rightarrow> if j_state j = ''queued'' \<and> j_reason j \<noteq> Some code
          then on_jobs (\<lambda>db. set_job_reason db i (Some code) (Some message)) c else c
      | None \<Rightarrow> c)"

text \<open>A job that can never start here fails, unless it was placed or cancelled since it was read.\<close>

definition fail_waiting :: "Env \<Rightarrow> string \<Rightarrow> string \<Rightarrow> string \<Rightarrow> string option \<Rightarrow> string option \<Rightarrow> string \<Rightarrow> Ctrl \<Rightarrow> Ctrl \<times> bool" where
  "fail_waiting env kind code detail node ws i c =
     (case set_job_state_if (c_jobs c) i ''queued'' JS_Failed (Some code) (Some detail) (e_now env) of
        (db, True) \<Rightarrow> (record_event env ''controller'' kind node ws (Some i) (c \<lparr> c_jobs := db \<rparr>), True)
      | (db, False) \<Rightarrow> (c \<lparr> c_jobs := db \<rparr>, False))"

definition kick_fail :: "Env \<Rightarrow> string \<Rightarrow> (string \<times> string \<times> string) list \<Rightarrow> Ctrl \<Rightarrow> Ctrl" where
  "kick_fail env node fails c =
     (let (c1, failed) = foldl (\<lambda>(c, failed) (i, code, detail).
            (let (c', hit) = fail_waiting env ''fail'' code detail (Some node)
                   (map_option j_workspace_id (job_by_id (c_jobs c) i)) i c
             in (c', if hit then failed @ [i] else failed))) (c, []) fails
      in foldl (\<lambda>c i. finalize env i c) c1 failed)"

section \<open>A job in a node's queue\<close>

definition MAX_WITHDRAWS :: int where "MAX_WITHDRAWS = 2"
definition WITHDRAW_AGAIN_SECS :: int where "WITHDRAW_AGAIN_SECS = 300"

definition may_withdraw :: "int \<Rightarrow> int option \<Rightarrow> int \<Rightarrow> bool" where
  "may_withdraw withdraws withdrawn_at now \<longleftrightarrow>
     withdraws < MAX_WITHDRAWS \<and> (case withdrawn_at of None \<Rightarrow> True | Some t \<Rightarrow> WITHDRAW_AGAIN_SECS \<le> i64_sub now t)"

definition QUEUED_FOR_CACHE :: string where "QUEUED_FOR_CACHE = ''queued_for_cache''"
definition CACHE_QUEUE_SECS :: nat where "CACHE_QUEUE_SECS = 900"

definition held_for_cache :: "JobRow \<Rightarrow> int \<Rightarrow> int \<Rightarrow> bool" where
  "held_for_cache j since now \<longleftrightarrow>
     (case ct_placement (j_ctl j) of Some p \<Rightarrow> pm_code p = QUEUED_FOR_CACHE | None \<Rightarrow> False)
     \<and> i64_sub now since < int CACHE_QUEUE_SECS"

definition queued_since :: "JobRow \<Rightarrow> int" where
  "queued_since j = (if ct_queued_at (j_ctl j) > 0 then ct_queued_at (j_ctl j) else j_created_at j)"

definition timed_out :: "Env \<Rightarrow> int \<Rightarrow> JobRow \<Rightarrow> bool" where
  "timed_out env awake j \<longleftrightarrow>
     (case ct_queue_timeout_secs (j_ctl j) of
        None \<Rightarrow> False
      | Some limit \<Rightarrow> limit > 0 \<and> i64_sub (e_now env) (queued_since j) \<ge> limit
          \<and> i64_sub (e_now env) awake \<ge> 2 * tu_replace_after_secs (e_tuning env))"

text \<open>One job of the sweep; \<open>starts_elsewhere\<close> says that the placement found a node that can start it now.\<close>

definition sweep_held :: "Env \<Rightarrow> int \<Rightarrow> (string \<Rightarrow> bool) \<Rightarrow> (JobRow \<Rightarrow> bool) \<Rightarrow> NodeFacts \<Rightarrow> JobRow \<Rightarrow> Ctrl \<Rightarrow> Ctrl" where
  "sweep_held env awake online starts_elsewhere n j c =
     (if pending_any (j_reason j) \<or> j_reason j = Some CANCEL_REQUESTED then c
      else if timed_out env awake j then
        (if \<not> online (nf_id n) then fail_queue_timeout env j (nf_name n) c
         else fst (send_cancel_if_not_started online (nf_id n) (j_id j) (j_generation j) CANCEL_WITHDRAW
                (on_jobs (\<lambda>db. set_job_reason db (j_id j) (Some PENDING_TIMEOUT) (j_detail j)) c)))
      else if ct_any (j_ctl j) = None \<or> \<not> online (nf_id n) \<or> \<not> may_withdraw (j_withdraws j) (j_withdrawn_at j) (e_now env)
          \<or> held_for_cache j (queued_since j) (e_now env) \<or> j_plan j = None \<or> \<not> starts_elsewhere j then c
      else
        (let c1 = record_event env ''controller'' ''withdraw_asked'' (Some (nf_id n)) (Some (j_workspace_id j)) (Some (j_id j))
               (on_jobs (\<lambda>db. note_withdraw (set_job_reason db (j_id j) (Some PENDING_WITHDRAW) None) (j_id j) (e_now env)) c);
             (c2, sent) = send_cancel_if_not_started online (nf_id n) (j_id j) (j_generation j) CANCEL_WITHDRAW c1
         in if sent then c2 else on_jobs (\<lambda>db. set_job_reason db (j_id j) (Some NODE_QUEUED) None) c2))"

text \<open>Jobs of one workspace are given back to be sent again with a fresh plan.\<close>

definition resend_one :: "Env \<Rightarrow> (string \<Rightarrow> bool) \<Rightarrow> string \<Rightarrow> JobRow \<Rightarrow> Ctrl \<Rightarrow> Ctrl \<times> bool" where
  "resend_one env online node j c =
     send_cancel_if_not_started online node (j_id j) (j_generation j) CANCEL_WITHDRAW
       (record_event env ''controller'' ''resend_asked'' (Some node) (Some (j_workspace_id j)) (Some (j_id j))
         (on_jobs (\<lambda>db. set_job_reason db (j_id j) (Some PENDING_RESEND) (j_detail j)) c))"

definition resend_queued :: "Env \<Rightarrow> (string \<Rightarrow> bool) \<Rightarrow> string \<Rightarrow> string \<Rightarrow> string list option \<Rightarrow> Ctrl \<Rightarrow> Ctrl \<times> nat" where
  "resend_queued env online node ws only c =
     foldl (\<lambda>(c, asked) j. (let (c', sent) = resend_one env online node j c in (c', if sent then asked + 1 else asked)))
       (c, 0)
       (filter (\<lambda>j. j_node_id j = node \<and> j_workspace_id j = ws \<and> (case only of None \<Rightarrow> True | Some ids \<Rightarrow> j_id j \<in> set ids)
          \<and> \<not> pending_any (j_reason j) \<and> j_reason j \<noteq> Some CANCEL_REQUESTED) (node_queued_jobs (c_jobs c)))"

section \<open>A retry by hand\<close>

text \<open>An ended job runs again, with all its retries; the route's checks of the node and the allow list are \<open>allowed\<close>.\<close>

definition retry_one :: "Env \<Rightarrow> string \<Rightarrow> JobRow \<Rightarrow> Ctrl \<Rightarrow> Ctrl \<times> JobRow option" where
  "retry_one env by_who j c =
     (case requeue_new_attempt (c_jobs c) (j_id j) ''retry'' of
        (db, None) \<Rightarrow> (c \<lparr> c_jobs := db \<rparr>, None)
      | (db, Some r) \<Rightarrow>
          (let ctl = (j_ctl r) \<lparr> ct_queued_at := e_now env, ct_not_before := None, ct_retries_used := 0 \<rparr>;
               db' = or_same db (set_job_ctl db (j_id r) ctl);
               r' = unwrap_or (job_by_id db' (j_id r)) r
           in (ask (Ask_Kick (j_node_id r')) (job_event env by_who ''job_retry'' j (c \<lparr> c_jobs := db' \<rparr>)), Some r')))"

datatype RetryErr = RE_Not_Found | RE_Still_Running | RE_Refused | RE_Internal | RE_Nothing_To_Retry

definition retry_checked :: "Env \<Rightarrow> (JobRow \<Rightarrow> bool) \<Rightarrow> string \<Rightarrow> JobRow \<Rightarrow> Ctrl \<Rightarrow> Ctrl \<times> (RetryErr + JobRow)" where
  "retry_checked env allowed by_who j c =
     (if \<not> allowed j then (c, Inl RE_Refused)
      else (case retry_one env by_who j c of (c', None) \<Rightarrow> (c', Inl RE_Internal) | (c', Some r) \<Rightarrow> (c', Inr r)))"

definition shard_passed :: "JobRow \<Rightarrow> bool" where
  "shard_passed k \<longleftrightarrow> j_state k = ''done'' \<and> j_exit_code k = Some 0"

fun retry_shards :: "Env \<Rightarrow> (JobRow \<Rightarrow> bool) \<Rightarrow> string \<Rightarrow> JobRow list \<Rightarrow> Ctrl \<Rightarrow> Ctrl \<times> (RetryErr + nat list)" where
  "retry_shards env allowed by_who [] c = (c, Inr [])"
| "retry_shards env allowed by_who (k # ks) c =
     (if shard_passed k then retry_shards env allowed by_who ks c
      else (case retry_checked env allowed by_who k c of
              (c1, Inl e) \<Rightarrow> (c1, Inl e)
            | (c1, Inr r) \<Rightarrow> (case retry_shards env allowed by_who ks c1 of
                (c2, Inl e) \<Rightarrow> (c2, Inl e) | (c2, Inr again) \<Rightarrow> (c2, Inr (shard_index k # again)))))"

definition job_retry :: "Env \<Rightarrow> (JobRow \<Rightarrow> bool) \<Rightarrow> string \<Rightarrow> string \<Rightarrow> Ctrl \<Rightarrow> Ctrl \<times> (RetryErr + JobRow)" where
  "job_retry env allowed by_who i c =
     (case job_by_id (c_jobs c) i of
        None \<Rightarrow> (c, Inl RE_Not_Found)
      | Some j \<Rightarrow>
          if \<not> row_terminal j then (c, Inl RE_Still_Running)
          else if ct_shards (j_ctl j) = [] then retry_checked env allowed by_who j c
          else
            (case retry_shards env allowed by_who (children c j) c of
               (c1, Inl e) \<Rightarrow> (c1, Inl e)
             | (c1, Inr again) \<Rightarrow>
                 if again = [] then (c1, Inl RE_Nothing_To_Retry)
                 else
                   (let c2 = record_event env by_who ''job_retry'' None (Some (j_workspace_id j)) (Some (j_id j))
                          (on_jobs (\<lambda>db. set_parent_running db (j_id j)) c1)
                    in (c2, Inr (unwrap_or (job_by_id (c_jobs c2) (j_id j)) j)))))"

section \<open>Receipts\<close>

record ReceiptLog =
  rl_sha256 :: string
  rl_bytes :: nat
  rl_truncated :: bool

record Receipt =
  rc_v :: nat
  rc_job_id :: string
  rc_attempt :: nat
  rc_generation :: nat
  rc_plan_digest :: string
  rc_node_fp :: string
  rc_controller_fp :: string
  rc_workspace_id :: string
  rc_argv_sha256 :: string
  rc_env_names :: "string list"
  rc_src :: "SrcRan option"
  rc_tools :: "(string, string) btree"
  rc_boot_id :: string
  rc_started_at :: "int option"
  rc_ended_at :: int
  rc_state :: JobState
  rc_exit :: "ExitInfo option"
  rc_log :: ReceiptLog
  rc_artifacts :: "ArtifactInfo list"
  rc_secret_env :: "string list"
  rc_tools_used :: "(string, string) btree"

record SignedReceipt =
  sr_body :: string
  sr_sig :: string

record ReceiptFrame =
  rf_job_id :: string
  rf_generation :: nat
  rf_receipt :: SignedReceipt

definition empty_outputs :: Outputs where
  "empty_outputs = \<lparr> ou_artifacts = [], ou_tests = None, ou_notes = [], ou_tools_used = [], ou_resources = None,
     ou_host = None \<rparr>"

text \<open>\<open>key_of\<close> is the node's enrolled key, if the node is known; \<open>verify\<close> the signature check and JSON reader;
  \<open>json\<close> the receipt as it is kept.\<close>

definition receipt_checked :: "(string \<Rightarrow> SignedReceipt \<Rightarrow> Receipt option) \<Rightarrow> string \<Rightarrow> JobRow \<Rightarrow> ReceiptFrame \<Rightarrow> Receipt option" where
  "receipt_checked verify key job r =
     (case verify key (rf_receipt r) of
        Some rc \<Rightarrow> if rc_job_id rc = j_id job \<and> rc_generation rc = rf_generation r \<and> rc_plan_digest rc = j_plan_digest job
          then Some rc else None
      | None \<Rightarrow> None)"

definition on_receipt :: "(string \<Rightarrow> string option) \<Rightarrow> (string \<Rightarrow> SignedReceipt \<Rightarrow> Receipt option) \<Rightarrow> (SignedReceipt \<Rightarrow> string)
    \<Rightarrow> string \<Rightarrow> ReceiptFrame \<Rightarrow> Ctrl \<Rightarrow> Ctrl" where
  "on_receipt key_of verify json node r c =
     (case job_by_id (c_jobs c) (rf_job_id r) of
        None \<Rightarrow> c
      | Some job \<Rightarrow>
          if j_node_id job \<noteq> node \<or> j_generation job \<noteq> int (rf_generation r) then c
          else (case key_of node of
            None \<Rightarrow> c
          | Some key \<Rightarrow>
              (let rc = receipt_checked verify key job r;
                   c1 = on_jobs (\<lambda>db. set_job_receipt db (j_id job) (json (rf_receipt r)) (rc \<noteq> None)) c;
                   arts = (case rc of Some x \<Rightarrow> rc_artifacts x | None \<Rightarrow> [])
               in if rc \<noteq> None \<and> j_summary job = None \<and> arts \<noteq> []
                  then on_jobs (\<lambda>db. set_job_outputs db (j_id job) (j_generation job) (capped (empty_outputs \<lparr> ou_artifacts := arts \<rparr>))) c1
                  else c1)))"

end
