(* ===== verification/Job_Life.thy ===== *)
theory Job_Life
  imports Job_Ops
begin

text \<open>
  The life of a job, abstractly: what may happen to one row of the table (\<open>row_step\<close>), and the refinement: every
  handler of a server, whatever the frame, takes every row along steps of this machine (\<open>evolves\<close>).
\<close>

section \<open>The abstract machine\<close>

text \<open>What only a new attempt or a withdraw may change: the attempt, the retries allowed and used, the withdraws.\<close>

definition same_attempt :: "JobRow \<Rightarrow> JobRow \<Rightarrow> bool" where
  "same_attempt r r' \<longleftrightarrow> j_id r' = j_id r \<and> j_attempt r' = j_attempt r \<and> j_retry_interrupted r' = j_retry_interrupted r
     \<and> ct_retries (j_ctl r') = ct_retries (j_ctl r) \<and> ct_retries_used (j_ctl r') = ct_retries_used (j_ctl r)
     \<and> j_withdraws r' = j_withdraws r \<and> (j_plan r \<noteq> None \<longrightarrow> j_plan r' \<noteq> None)"

definition retry_limit :: "JobRow \<Rightarrow> nat" where
  "retry_limit r = max (ct_retries (j_ctl r)) (if j_retry_interrupted r then 1 else 0)"

definition failed_infra :: "JobRow \<Rightarrow> bool" where
  "failed_infra r \<longleftrightarrow> (case job_state r of Some s \<Rightarrow> is_infra s (j_reason r) | None \<Rightarrow> False)"

inductive row_step :: "JobRow \<Rightarrow> JobRow \<Rightarrow> bool" where
  touch: "same_attempt r r' \<Longrightarrow> j_generation r' = j_generation r \<Longrightarrow> j_state r' = j_state r
    \<Longrightarrow> (row_terminal r \<Longrightarrow> j_reason r' = j_reason r) \<Longrightarrow> row_step r r'"
| report: "\<not> row_terminal r \<Longrightarrow> same_attempt r r' \<Longrightarrow> j_generation r' = j_generation r \<Longrightarrow> row_step r r'"
| requeue: "j_state r \<in> set ACTIVE_STATES \<Longrightarrow> same_attempt r r' \<Longrightarrow> j_generation r' = j_generation r + 1
    \<Longrightarrow> j_state r' = ''queued'' \<Longrightarrow> row_step r r'"
| retry: "failed_infra r \<Longrightarrow> j_id r' = j_id r \<Longrightarrow> j_retry_interrupted r' = j_retry_interrupted r
    \<Longrightarrow> ct_retries (j_ctl r') = ct_retries (j_ctl r) \<Longrightarrow> j_plan r' \<noteq> None
    \<Longrightarrow> ct_retries_used (j_ctl r) < retry_limit r \<Longrightarrow> ct_retries_used (j_ctl r') = as_u32 (ct_retries_used (j_ctl r) + 1)
    \<Longrightarrow> j_attempt r' = j_attempt r + 1 \<Longrightarrow> j_generation r' = j_generation r + 1 \<Longrightarrow> j_state r' = ''queued''
    \<Longrightarrow> j_withdraws r' = j_withdraws r \<Longrightarrow> row_step r r'"
| withdraw: "j_withdraws r < MAX_WITHDRAWS \<Longrightarrow> row_step r (r \<lparr> j_withdraws := j_withdraws r + 1, j_withdrawn_at := at \<rparr>)"

abbreviation row_steps :: "JobRow \<Rightarrow> JobRow \<Rightarrow> bool" where
  "row_steps \<equiv> row_step\<^sup>*\<^sup>*"

lemma failed_infra_terminal: "failed_infra r \<Longrightarrow> row_terminal r"
  by (auto simp: failed_infra_def row_terminal_def is_terminal_def dest: infra_terminal split: option.splits)

lemma active_open: "j_state r \<in> set ACTIVE_STATES \<Longrightarrow> \<not> row_terminal r"
  by (auto simp: ACTIVE_STATES_def row_terminal_def job_state_def JobState_parse_def is_terminal_def)

lemma assigned_open: "j_state r = ''assigned'' \<Longrightarrow> \<not> row_terminal r"
  using active_open by (simp add: ACTIVE_STATES_def)

text \<open>A result is final: an ended row that is no infrastructure failure keeps its state, reason and generation.\<close>

lemma step_final:
  "row_step r r' \<Longrightarrow> row_terminal r \<Longrightarrow> \<not> failed_infra r \<Longrightarrow>
    j_state r' = j_state r \<and> j_reason r' = j_reason r \<and> j_generation r' = j_generation r \<and> j_attempt r' = j_attempt r"
  by (cases rule: row_step.cases) (auto simp: same_attempt_def dest: active_open)

lemma steps_final:
  assumes "row_steps r r'" "row_terminal r" "\<not> failed_infra r"
  shows "j_state r' = j_state r \<and> j_reason r' = j_reason r \<and> j_generation r' = j_generation r \<and> j_attempt r' = j_attempt r"
  using assms(1)
proof (induction rule: rtranclp_induct)
  case (step y z)
  have "row_terminal y \<longleftrightarrow> row_terminal r" "failed_infra y \<longleftrightarrow> failed_infra r"
    using step.IH by (simp_all add: row_terminal_def failed_infra_def job_state_def cong: option.case_cong)
  then have "row_terminal y" "\<not> failed_infra y" using assms(2,3) by simp_all
  then show ?case using step_final [OF step.hyps(2)] step.IH by simp
qed simp

lemma step_generation: "row_step r r' \<Longrightarrow> j_generation r \<le> j_generation r' \<and> j_id r' = j_id r"
  by (cases rule: row_step.cases) (auto simp: same_attempt_def)

lemma steps_generation: "row_steps r r' \<Longrightarrow> j_generation r \<le> j_generation r' \<and> j_id r' = j_id r"
  by (induction rule: rtranclp_induct) (auto dest: step_generation)

text \<open>The retries of a row.\<close>

definition row_ok :: "JobRow \<Rightarrow> bool" where
  "row_ok r \<longleftrightarrow> j_attempt r = int (ct_retries_used (j_ctl r)) + 1 \<and> ct_retries_used (j_ctl r) \<le> retry_limit r
     \<and> ct_retries (j_ctl r) < 2 ^ 32 \<and> 0 \<le> j_withdraws r \<and> j_withdraws r \<le> MAX_WITHDRAWS \<and> j_attempt r \<le> j_generation r \<and> j_plan r \<noteq> None"

lemma step_ok:
  assumes "row_step r r'" "row_ok r"
  shows "row_ok r'"
  using assms(1)
proof (cases rule: row_step.cases)
  case retry
  note ok = assms(2)
  have "retry_limit r < 2 ^ 32" using ok by (auto simp: row_ok_def retry_limit_def)
  then have "as_u32 (ct_retries_used (j_ctl r) + 1) = ct_retries_used (j_ctl r) + 1"
    using retry by (simp add: as_u32_def)
  then show ?thesis using ok retry by (auto simp: row_ok_def retry_limit_def)
qed (use assms(2) in \<open>auto simp: row_ok_def same_attempt_def retry_limit_def\<close>)

lemma steps_ok: "row_steps r r' \<Longrightarrow> row_ok r \<Longrightarrow> row_ok r'"
  by (induction rule: rtranclp_induct) (auto dest: step_ok)

section \<open>Tables\<close>

definition plans_ok :: "jobs_db \<Rightarrow> bool" where
  "plans_ok db \<longleftrightarrow> (\<forall>i r. job_by_id db i = Some r \<longrightarrow> j_plan r \<noteq> None)"

definition evolves :: "jobs_db \<Rightarrow> jobs_db \<Rightarrow> bool" where
  "evolves db db' \<longleftrightarrow> map j_id db' = map j_id db \<and> (\<forall>i. rel_option row_steps (job_by_id db i) (job_by_id db' i))"

lemma evolves_refl [simp]: "evolves db db"
  by (auto simp: evolves_def intro: option.rel_refl)

lemma evolves_ids: "evolves db db' \<Longrightarrow> map j_id db' = map j_id db"
  by (simp add: evolves_def)

lemma evolves_rel: "evolves db db' \<Longrightarrow> rel_option row_steps (job_by_id db i) (job_by_id db' i)"
  by (simp add: evolves_def)

lemma evolves_trans:
  assumes "evolves a b" "evolves b c"
  shows "evolves a c"
  unfolding evolves_def
proof (intro conjI allI)
  show "map j_id c = map j_id a" using assms by (simp add: evolves_ids)
  fix i show "rel_option row_steps (job_by_id a i) (job_by_id c i)"
    using evolves_rel [OF assms(1), of i] evolves_rel [OF assms(2), of i]
    by (auto simp: option_rel_Some1 elim!: option.rel_cases)
qed

lemma evolves_Some: "evolves db db' \<Longrightarrow> job_by_id db i = Some r \<Longrightarrow> \<exists>r'. job_by_id db' i = Some r' \<and> row_steps r r'"
  using evolves_rel [of db db' i] by (auto simp: option_rel_Some1)

lemma evolves_None: "evolves db db' \<Longrightarrow> job_by_id db' i = None \<longleftrightarrow> job_by_id db i = None"
  using evolves_rel [of db db' i] by (auto elim: option.rel_cases)

lemma step_plan: "row_step r r' \<Longrightarrow> j_plan r \<noteq> None \<Longrightarrow> j_plan r' \<noteq> None"
  by (cases rule: row_step.cases) (auto simp: same_attempt_def)

lemma evolves_plans: "evolves db db' \<Longrightarrow> plans_ok db \<Longrightarrow> plans_ok db'"
  unfolding plans_ok_def
proof (intro allI impI)
  fix i r' assume e: "evolves db db'" and p: "\<forall>i r. job_by_id db i = Some r \<longrightarrow> j_plan r \<noteq> None" and r: "job_by_id db' i = Some r'"
  then obtain r where "job_by_id db i = Some r" "row_steps r r'"
    using evolves_None [OF e] evolves_Some [OF e] by (metis option.exhaust option.inject)
  moreover have "row_steps r r' \<Longrightarrow> j_plan r \<noteq> None \<Longrightarrow> j_plan r' \<noteq> None" for r r'
    by (induction rule: rtranclp_induct) (auto dest: step_plan)
  ultimately show "j_plan r' \<noteq> None" using p by blast
qed

lemma job_by_id_upd:
  assumes "\<And>r. j_id (f r) = j_id r"
  shows "job_by_id (upd p f db) i = map_option (\<lambda>r. if p r then f r else r) (job_by_id db i)"
  using assms by (induction db) (auto simp: job_by_id_def upd_def with_id_def)

lemma upd_evolves:
  assumes "\<And>r. j_id (f r) = j_id r" "\<And>i r. job_by_id db i = Some r \<Longrightarrow> p r \<Longrightarrow> row_step r (f r)"
  shows "evolves db (upd p f db)"
  unfolding evolves_def job_by_id_upd [of f, OF assms(1)]
proof (intro conjI allI)
  show "map j_id (upd p f db) = map j_id db" using assms(1) by (simp add: upd_def)
  fix i show "rel_option row_steps (job_by_id db i) (map_option (\<lambda>r. if p r then f r else r) (job_by_id db i))"
    using assms(2) by (cases "job_by_id db i") auto
qed

lemma by_id_of: "job_by_id db i = Some r \<Longrightarrow> with_id k r \<Longrightarrow> i = k"
  using job_by_id_Some by (auto simp: with_id_def)

lemma upd_id_evolves:
  assumes "\<And>r. j_id (f r) = j_id r" "\<And>r. job_by_id db i = Some r \<Longrightarrow> row_step r (f r)"
  shows "evolves db (upd (with_id i) f db)"
  using assms(1)
proof (rule upd_evolves)
  fix k r assume "job_by_id db k = Some r" "with_id i r"
  moreover from this have "k = i" by (rule by_id_of)
  ultimately show "row_step r (f r)" using assms(2) by blast
qed

subsection \<open>Writes that never move a job\<close>

lemma set_job_exit_evolves: "evolves db (set_job_exit db i a b)"
  unfolding set_job_exit_def by (rule upd_evolves) (auto intro!: touch simp: same_attempt_def)

lemma set_job_src_evolves: "evolves db (set_job_src db i a b)"
  unfolding set_job_src_def by (rule upd_evolves) (auto intro!: touch simp: same_attempt_def)

lemma set_job_log_evolves: "evolves db (set_job_log db i a b)"
  unfolding set_job_log_def by (rule upd_evolves) (auto intro!: touch simp: same_attempt_def)

lemma set_job_times_evolves: "evolves db (set_job_times db i a b)"
  unfolding set_job_times_def by (rule upd_evolves) (auto intro!: touch simp: same_attempt_def)

lemma set_job_outputs_evolves: "evolves db (set_job_outputs db i g out)"
  unfolding set_job_outputs_def by (rule upd_evolves) (auto intro!: touch simp: same_attempt_def)

lemma mark_notified_evolves: "evolves db (mark_notified db i at)"
  unfolding mark_notified_def by (rule upd_evolves) (auto intro!: touch simp: same_attempt_def)

lemma clear_node_queued_evolves: "evolves db (clear_node_queued db i)"
  unfolding clear_node_queued_def by (rule upd_evolves) (auto intro!: touch simp: same_attempt_def no_node_place_def)

lemmas quiet_evolves = set_job_exit_evolves set_job_src_evolves set_job_log_evolves set_job_times_evolves
  set_job_outputs_evolves mark_notified_evolves clear_node_queued_evolves

subsection \<open>Writes under a guard\<close>

lemma set_job_state_evolves:
  "(\<And>r. job_by_id db i = Some r \<Longrightarrow> \<not> row_terminal r) \<Longrightarrow> evolves db (set_job_state db i s reason detail at)"
  unfolding set_job_state_def
  by (rule upd_evolves) (auto intro!: report dest: by_id_of simp: same_attempt_def put_state_def)

lemma mark_node_queued_evolves: "evolves db (fst (mark_node_queued db i g pos reason at))"
  unfolding mark_node_queued_def Let_def fst_conv
  by (rule upd_evolves) (auto intro!: touch dest: assigned_open simp: same_attempt_def put_node_queued_def)

lemma requeue_evolves: "evolves db (fst (requeue_new_generation db i g reason))"
  unfolding requeue_new_generation_def Let_def fst_conv
  by (rule upd_evolves) (auto intro!: requeue simp: same_attempt_def put_new_generation_def no_node_place_def)

lemma finish_parent_evolves:
  "(\<And>r. job_by_id db i = Some r \<Longrightarrow> \<not> row_terminal r) \<Longrightarrow> evolves db (finish_parent db i a)"
  unfolding finish_parent_def
  by (rule upd_evolves) (auto intro!: report dest: by_id_of simp: same_attempt_def put_aggregate_def)

lemma set_job_ctl_evolves:
  assumes "\<And>r. job_by_id db i = Some r \<Longrightarrow> ct_retries ctl = ct_retries (j_ctl r) \<and> ct_retries_used ctl = ct_retries_used (j_ctl r)"
  shows "evolves db (or_same db (set_job_ctl db i ctl))"
proof (cases "Option.bind (job_by_id db i) j_plan")
  case (Some p)
  then have e: "or_same db (set_job_ctl db i ctl) = upd (with_id i) (\<lambda>r. r \<lparr> j_plan := Some p, j_ctl := ctl \<rparr>) db"
    by (simp add: set_job_ctl_def or_same_def unwrap_or_def)
  show ?thesis unfolding e
    by (rule upd_id_evolves) (auto intro!: touch dest: assms simp: same_attempt_def)
qed (simp add: set_job_ctl_def or_same_def unwrap_or_def)

lemma set_job_reason_evolves:
  assumes "\<And>r. job_by_id db i = Some r \<Longrightarrow> row_terminal r \<Longrightarrow> reason = j_reason r"
  shows "evolves db (set_job_reason db i reason detail)"
  unfolding set_job_reason_def by (rule upd_id_evolves) (auto intro!: touch dest: assms simp: same_attempt_def)

end
