(* ===== verification/Job_Refines.thy ===== *)
theory Job_Refines
  imports Job_Life
begin

text \<open>
  The refinement: every handler of \<open>Job_Ends\<close> and \<open>Job_Observe\<close> takes every row of the table along the
  abstract machine of \<open>Job_Life\<close>.
\<close>

section \<open>State outside the table\<close>

lemma jobs_record_event [simp]: "c_jobs (record_event env a k n w j c) = c_jobs c"
  by (simp add: record_event_def)

lemma jobs_ask [simp]: "c_jobs (ask a c) = c_jobs c"
  by (simp add: ask_def)

lemma jobs_on_jobs [simp]: "c_jobs (on_jobs f c) = f (c_jobs c)"
  by (simp add: on_jobs_def)

lemma jobs_count_for_node [simp]: "c_jobs (count_for_node env j s c) = c_jobs c"
  by (simp add: count_for_node_def Let_def split: prod.split)

abbreviation moves :: "Ctrl \<Rightarrow> Ctrl \<Rightarrow> bool" where
  "moves c c' \<equiv> evolves (c_jobs c) (c_jobs c')"

definition open_id :: "jobs_db \<Rightarrow> string \<Rightarrow> bool" where
  "open_id db i \<longleftrightarrow> (\<forall>r. job_by_id db i = Some r \<longrightarrow> \<not> row_terminal r)"

lemma row_terminal_state: "j_state r' = j_state r \<Longrightarrow> row_terminal r' \<longleftrightarrow> row_terminal r"
  by (simp add: row_terminal_def job_state_def)

lemma open_id_upd:
  assumes "\<And>r. j_id (f r) = j_id r" "\<And>r. j_state (f r) = j_state r"
  shows "open_id (upd p f db) i \<longleftrightarrow> open_id db i"
  unfolding open_id_def job_by_id_upd [of f, OF assms(1)]
  by (cases "job_by_id db i") (auto simp: row_terminal_state [OF assms(2)])

lemma open_clear [simp]: "open_id (clear_node_queued db k) i \<longleftrightarrow> open_id db i"
  unfolding clear_node_queued_def by (rule open_id_upd) (simp_all add: no_node_place_def)

lemma open_times [simp]: "open_id (set_job_times db k a b) i \<longleftrightarrow> open_id db i"
  unfolding set_job_times_def by (rule open_id_upd) simp_all

lemma open_put_start [simp]: "open_id (put_start k s db) i \<longleftrightarrow> open_id db i"
  by (simp add: put_start_def split: option.split)

lemma set_open_evolves: "open_id db i \<Longrightarrow> evolves db (set_job_state db i s reason detail at)"
  by (rule set_job_state_evolves) (simp add: open_id_def)

section \<open>The end of a job\<close>

lemma finalize_own_moves: "moves c (finalize_own env i c)"
  by (simp add: finalize_own_def mark_notified_evolves split: option.split)

lemma child_ended_moves:
  assumes "child_ended env p c = Some c'"
  shows "moves c c'"
proof -
  obtain parent agg where p: "job_by_id (c_jobs c) p = Some parent" "\<not> row_terminal parent"
    "c_jobs c' = finish_parent (c_jobs c) (j_id parent) agg"
    using assms by (auto simp: child_ended_def Let_def split: option.splits if_splits)
  then have "j_id parent = p" using job_by_id_Some by blast
  then show ?thesis unfolding p(3) using p(1,2) by (intro finish_parent_evolves) simp
qed

lemma finalize_moves: "moves c (finalize env i c)"
proof (induction env i c rule: finalize.induct)
  case (1 env i c)
  then show ?case
    by (subst finalize.simps)
      (auto split: option.split intro: finalize_own_moves evolves_trans [OF child_ended_moves])
qed

lemma closing_moves:
  assumes "evolves (c_jobs c) (f (c_jobs c))"
  shows "moves c (finalize env i (on_jobs f c))" "moves c (finalize env i (record_event env' a k n w j (on_jobs f c)))"
  using evolves_trans [OF assms] finalize_moves [of "on_jobs f c"] finalize_moves [of "record_event env' a k n w j (on_jobs f c)"]
  by simp_all

lemma retry_evolves:
  assumes "job_by_id db i = Some j" "failed_infra j" "ct_retries_used (j_ctl j) < retry_limit j" "j_plan j \<noteq> None"
    "ct_retries ctl = ct_retries (j_ctl j)" "ct_retries_used ctl = as_u32 (ct_retries_used (j_ctl j) + 1)"
  shows "evolves db (or_same (fst (requeue_new_attempt db i reason)) (set_job_ctl (fst (requeue_new_attempt db i reason)) i ctl))"
proof -
  let ?db = "upd (with_id i) (put_new_attempt reason) db"
  have id: "j_id (put_new_attempt reason r) = j_id r" "j_plan (put_new_attempt reason r) = j_plan r" for r
    by (simp_all add: put_new_attempt_def no_node_place_def)
  have w: "with_id i j" using job_by_id_Some [OF assms(1)] by (simp add: with_id_def)
  have r: "job_by_id ?db i = Some (put_new_attempt reason j)" by (simp add: job_by_id_upd id assms(1) w)
  obtain p where p: "j_plan j = Some p" using assms(4) by blast
  have e: "or_same ?db (set_job_ctl ?db i ctl) = upd (with_id i) (\<lambda>r. put_new_attempt reason r \<lparr> j_plan := Some p, j_ctl := ctl \<rparr>) db"
  proof -
    have "set_job_ctl ?db i ctl = Some (upd (with_id i) (\<lambda>r. r \<lparr> j_plan := Some p, j_ctl := ctl \<rparr>) ?db)"
      by (simp add: set_job_ctl_def r id p)
    then show ?thesis by (simp add: or_same_def unwrap_or_def upd_def id with_id_def comp_def cong: if_cong)
  qed
  show ?thesis unfolding requeue_new_attempt_def Let_def fst_conv e
  proof (rule upd_id_evolves)
    fix r assume "job_by_id db i = Some r"
    then have [simp]: "r = j" using assms(1) by simp
    show "row_step r (put_new_attempt reason r \<lparr> j_plan := Some p, j_ctl := ctl \<rparr>)"
      using assms by (intro retry) (simp_all add: put_new_attempt_def no_node_place_def)
  qed (simp add: id)
qed

lemma exhausted_evolves:
  assumes "job_by_id db (j_id j) = Some j" "ct_retries ctl = ct_retries (j_ctl j)" "ct_retries_used ctl = ct_retries_used (j_ctl j)"
  shows "evolves db (exhausted env j ctl allowed db)"
proof -
  let ?db = "or_same db (set_job_ctl db (j_id j) ctl)"
  have 1: "evolves db ?db" using assms by (intro set_job_ctl_evolves) auto
  have r: "j_reason r = j_reason j" if "job_by_id ?db (j_id j) = Some r" for r
    using that assms(1)
    by (auto simp: set_job_ctl_def or_same_def unwrap_or_def job_by_id_upd with_id_def split: option.splits if_splits)
  have "evolves ?db (set_job_reason ?db (j_id j) (j_reason j) d)" for d
    by (rule set_job_reason_evolves) (simp add: r)
  then show ?thesis using 1 evolves_trans by (auto simp: exhausted_def Let_def)
qed

lemma retries_allowed_le: "retries_allowed j s \<le> retry_limit j"
  by (auto simp: retries_allowed_def retry_limit_def)

lemma after_attempt_moves:
  assumes "plans_ok (c_jobs c)"
  shows "moves c (fst (after_attempt env i c))"
proof (cases "job_by_id (c_jobs c) i")
  case (Some j)
  note j = Some and ji = conjunct2 [OF job_by_id_Some [OF Some]]
  show ?thesis
  proof (cases "job_state j")
    case (Some s)
    let ?ctl = "(j_ctl j) \<lparr> ct_failed_attempts := ct_failed_attempts (j_ctl j) @
                [\<lparr> an_attempt = j_attempt j, an_node_id = j_node_id j, an_state = j_state j, an_reason = j_reason j,
                   an_at = e_now env \<rparr>] \<rparr>"
    have ex: "evolves (c_jobs c) (exhausted env j ?ctl (retries_allowed j s) (c_jobs c))"
      using j ji by (intro exhausted_evolves) auto
    have re: "evolves (c_jobs c) (or_same (fst (requeue_new_attempt (c_jobs c) i ''retry_backoff''))
        (set_job_ctl (fst (requeue_new_attempt (c_jobs c) i ''retry_backoff'')) i (retried_ctl env j ?ctl)))"
      if "is_infra s (j_reason j)" "ct_retries_used (j_ctl j) < retries_allowed j s"
      using that Some assms j retries_allowed_le [of j s]
      by (intro retry_evolves) (auto simp: failed_infra_def retried_ctl_def Let_def plans_ok_def)
    have none: "job_by_id (c_jobs c) i = None" if "requeue_new_attempt (c_jobs c) i reason = (db, None)" for db reason
      using that by (auto simp: requeue_new_attempt_def Let_def job_by_id_upd put_new_attempt_def no_node_place_def)
    show ?thesis
      using ex re none j ji Some
      by (auto simp: after_attempt_def Let_def split: prod.split)
  qed (simp add: after_attempt_def j)
qed (simp add: after_attempt_def)

lemma end_lost_moves: "plans_ok (c_jobs c) \<Longrightarrow> moves c (end_lost env c i)"
  using after_attempt_moves [of c env i] finalize_moves evolves_trans
  by (auto simp: end_lost_def split: prod.split)

section \<open>Reports\<close>

lemma fst_requeue: "requeue_new_generation db i g reason = (db', b) \<Longrightarrow> evolves db db'"
  using requeue_evolves [of db i g reason] by simp

lemma clear_set_evolves:
  "open_id db i \<Longrightarrow> evolves db (clear_node_queued (set_job_state db i s reason detail at) i)"
  using set_open_evolves clear_node_queued_evolves evolves_trans by blast

lemma given_back_job_moves:
  assumes "open_id (c_jobs c) (j_id job)"
  shows "moves c (given_back_job env node job c)"
  using fst_requeue
  by (auto simp: given_back_job_def Let_def clear_set_evolves [OF assms] intro!: closing_moves split: prod.split bool.split)

lemma refused_assign_moves:
  assumes "open_id (c_jobs c) (j_id job)"
  shows "moves c (refused_assign env node job b c)"
  by (auto simp: refused_assign_def Let_def clear_set_evolves [OF assms] set_open_evolves [OF assms] intro!: closing_moves
      split: prod.split)

lemma node_stamp_ctl:
  "node_stamp env job s b = (stamp, ctl, start) \<Longrightarrow>
    ct_retries ctl = ct_retries (j_ctl job) \<and> ct_retries_used ctl = ct_retries_used (j_ctl job)"
  by (auto simp: node_stamp_def Let_def split: option.splits if_splits prod.splits)

lemma put_start_evolves: "evolves db (put_start i s db)"
  by (simp add: put_start_def set_job_times_evolves split: option.split)

lemma ctl_kept:
  "job_by_id (set_job_state (put_start i start (if q then clear_node_queued db i else db)) i s reason detail at) i = Some r
    \<Longrightarrow> job_by_id db i = Some job \<Longrightarrow> j_ctl r = j_ctl job"
  by (auto simp: set_job_state_def put_start_def set_job_times_def clear_node_queued_def job_by_id_upd put_state_def
      no_node_place_def split: option.splits if_splits)

lemma observed_jobs_evolves:
  assumes "job_by_id db (j_id job) = Some job" "\<not> row_terminal job"
  shows "evolves db (observed_jobs env job b db)"
proof -
  obtain s reason detail where w: "end_words job b = (s, reason, detail)" by (metis prod_cases3)
  obtain stamp ctl start where n: "node_stamp env job s b = (stamp, ctl, start)" by (metis prod_cases3)
  let ?i = "j_id job"
  define db1 where "db1 = (if j_node_queued job then clear_node_queued db ?i else db)"
  define db2 where "db2 = set_job_state (put_start ?i start db1) ?i s reason detail stamp"
  define db3 where "db3 = (if ctl \<noteq> j_ctl job then or_same db2 (set_job_ctl db2 ?i ctl) else db2)"
  define db4 where "db4 = (case ob_src b of Some s \<Rightarrow> set_job_src db3 ?i (sn_commit s) (sn_tree s) | None \<Rightarrow> db3)"
  define db5 where "db5 = (case ob_exit b of Some x \<Rightarrow> set_job_exit db4 ?i (xi_code x) (xi_signal x) | None \<Rightarrow> db4)"
  have open_db: "open_id db ?i" using assms by (simp add: open_id_def)
  have 1: "evolves db db1" by (simp add: db1_def clear_node_queued_evolves)
  have "open_id (put_start ?i start db1) ?i" using open_db by (simp add: db1_def)
  then have 2: "evolves db1 db2" unfolding db2_def using put_start_evolves set_open_evolves evolves_trans by blast
  have "j_ctl r = j_ctl job" if "job_by_id db2 ?i = Some r" for r
    using that assms(1) unfolding db2_def db1_def by (rule ctl_kept)
  then have 3: "evolves db2 db3"
    unfolding db3_def using node_stamp_ctl [OF n] by (auto intro!: set_job_ctl_evolves)
  have 4: "evolves db3 db4" by (simp add: db4_def set_job_src_evolves split: option.split)
  have 5: "evolves db4 db5" by (simp add: db5_def set_job_exit_evolves split: option.split)
  have "evolves db db5" using 1 2 3 4 5 evolves_trans by blast
  moreover have "observed_jobs env job b db = (if is_terminal s then set_job_log db5 ?i (e_last_seq env) 0 else db5)"
    by (simp only: observed_jobs_def w n Let_def prod.case db1_def db2_def db3_def db4_def db5_def)
  ultimately show ?thesis using set_job_log_evolves evolves_trans by (cases "is_terminal s") auto
qed

lemma jobs_observed_events [simp]: "c_jobs (observed_events env node job b s c) = c_jobs c"
  by (simp add: observed_events_def Let_def)

lemma observed_moves:
  assumes "job_by_id (c_jobs c) (j_id job) = Some job" "\<not> row_terminal job" "plans_ok (c_jobs c)"
  shows "moves c (observed env node job b c)"
proof -
  let ?s = "fst (end_words job b)"
  let ?c1 = "observed_events env node job b ?s (on_jobs (observed_jobs env job b) c)"
  have 1: "moves c ?c1" using observed_jobs_evolves [OF assms(1,2)] by simp
  then have p: "plans_ok (c_jobs ?c1)" using assms(3) evolves_plans by blast
  have "moves ?c1 (finalize env (j_id job) ?c1)" "moves ?c1 (end_lost env ?c1 (j_id job))"
    using finalize_moves end_lost_moves [OF p] by blast+
  moreover have "observed env node job b c = (if \<not> is_terminal ?s then ?c1
      else if cancel_owed job then finalize env (j_id job) ?c1 else end_lost env ?c1 (j_id job))"
    by (simp add: observed_def end_lost_def Let_def)
  ultimately show ?thesis using 1 evolves_trans by auto
qed

lemma apply_observation_moves:
  assumes "plans_ok (c_jobs c)"
  shows "moves c (apply_observation env node b c)"
proof (cases "job_by_id (c_jobs c) (ob_job_id b)")
  case (Some job)
  have j: "job_by_id (c_jobs c) (j_id job) = Some job" using job_by_id_Some [OF Some] Some by simp
  show ?thesis
  proof (cases "row_terminal job")
    case False
    then have "open_id (c_jobs c) (j_id job)" using j by (simp add: open_id_def)
    then show ?thesis using False j assms
      by (simp add: apply_observation_def Some Let_def mark_node_queued_evolves given_back_job_moves refused_assign_moves
          observed_moves)
  qed (simp add: apply_observation_def Some)
qed (simp add: apply_observation_def)

section \<open>Frames and sweeps\<close>

lemma store_outputs_moves: "moves c (store_outputs node i g out c)"
  by (simp add: store_outputs_def set_job_outputs_evolves split: option.split)

lemma on_state_moves:
  assumes "plans_ok (c_jobs c)"
  shows "moves c (on_state env node s c)"
proof -
  define c1 where "c1 = (case su_outputs s of
            Some out \<Rightarrow> if is_terminal (su_state s) then store_outputs node (su_job_id s) (su_generation s) out c else c
          | None \<Rightarrow> c)"
  have 1: "moves c c1" by (simp add: c1_def store_outputs_moves split: option.split)
  have "moves c1 (apply_observation env node b c1)" for b
    using apply_observation_moves evolves_plans [OF 1 assms] by blast
  then show ?thesis using evolves_trans [OF 1] by (simp add: on_state_def Let_def c1_def [symmetric])
qed

lemma foldl_moves:
  assumes "\<And>c x. x \<in> set xs \<Longrightarrow> plans_ok (c_jobs c) \<Longrightarrow> moves c (f c x)" "plans_ok (c_jobs c)"
  shows "moves c (foldl f c xs)"
  using assms
proof (induction xs arbitrary: c)
  case (Cons x xs)
  have 1: "moves c (f c x)" using Cons.prems by simp
  then have "moves (f c x) (foldl f (f c x) xs)"
    using Cons.prems evolves_plans by (intro Cons.IH) auto
  then show ?case using 1 evolves_trans by auto
qed simp

lemma jobs_stop_stale [simp]: "c_jobs (stop_stale node j c) = c_jobs c"
  by (simp add: stop_stale_def split: option.split)

text \<open>The rows a snapshot never saw: each is still open when its turn comes, for the turns before it touch other rows.\<close>

lemma job_by_id_mem: "distinct (map j_id db) \<Longrightarrow> r \<in> set db \<Longrightarrow> job_by_id db (j_id r) = Some r"
proof (induction db)
  case (Cons x db)
  then show ?case by (auto simp: job_by_id_def with_id_def image_iff)
qed simp

lemma jobs_in_states_open:
  assumes "distinct (map j_id db)" "r \<in> set (jobs_in_states db node ACTIVE_STATES)"
  shows "open_id db (j_id r)"
  using assms job_by_id_mem [of db r] active_open by (auto simp: open_id_def jobs_in_states_def by_age_def)

lemma jobs_in_states_distinct: "distinct (map j_id db) \<Longrightarrow> distinct (map j_id (jobs_in_states db node states))"
  by (simp add: jobs_in_states_def by_age_def distinct_map inj_on_def) 

lemma unseen_row_moves:
  assumes "open_id (c_jobs c) (j_id j)"
  shows "moves c (fst (unseen_row env node seen (c, ls) j))"
  using fst_requeue assms
  by (auto simp: unseen_row_def set_open_evolves split: prod.split bool.split)

lemma open_id_other:
  assumes "\<And>r. j_id (f r) = j_id r" "i \<noteq> k"
  shows "open_id (upd (with_id k) f db) i \<longleftrightarrow> open_id db i"
  unfolding open_id_def job_by_id_upd [of f, OF assms(1)]
  using assms(2) by_id_of by (cases "job_by_id db i") auto

lemma requeue_open:
  assumes "open_id db i"
  shows "open_id (fst (requeue_new_generation db k g reason)) i"
  unfolding requeue_new_generation_def Let_def fst_conv open_id_def
  using assms
  by (subst job_by_id_upd)
    (auto simp: put_new_generation_def no_node_place_def open_id_def row_terminal_def job_state_def JobState_parse_def
      is_terminal_def)

lemma unseen_row_other:
  assumes "open_id (c_jobs c) i" "i \<noteq> j_id j"
  shows "open_id (c_jobs (fst (unseen_row env node seen (c, ls) j))) i"
proof -
  have "open_id db' i" if "requeue_new_generation (c_jobs c) (j_id j) g reason = (db', b)" for db' b g reason
    using requeue_open [OF assms(1), of "j_id j" g reason] that by simp
  moreover have "open_id (set_job_state (c_jobs c) (j_id j) s reason d at) i" for s reason d at
    using assms unfolding set_job_state_def by (subst open_id_other) (simp_all add: put_state_def)
  ultimately show ?thesis
    using assms by (auto simp: unseen_row_def split: prod.split bool.split)
qed

lemma unseen_rows_move:
  assumes "distinct (map j_id js)" "\<And>j. j \<in> set js \<Longrightarrow> open_id (c_jobs (fst cl)) (j_id j)"
  shows "moves (fst cl) (fst (foldl (unseen_row env node seen) cl js))"
  using assms
proof (induction js arbitrary: cl)
  case (Cons j js)
  obtain c ls where [simp]: "cl = (c, ls)" by (cases cl)
  let ?cl = "unseen_row env node seen cl j"
  have 1: "moves c (fst ?cl)" using Cons.prems by (simp add: unseen_row_moves)
  have "moves (fst ?cl) (fst (foldl (unseen_row env node seen) ?cl js))"
    using Cons.prems by (intro Cons.IH) (auto simp: image_iff intro!: unseen_row_other)
  then show ?case using 1 evolves_trans by simp
qed simp

lemma on_snapshot_moves:
  assumes "plans_ok (c_jobs c)" "distinct (map j_id (c_jobs c))"
  shows "moves c (fst (on_snapshot env node s (c, seen0)))"
proof -
  let ?seen = "seen0 \<union> (\<lambda>j. seen_key (lj_job_id j) (int (lj_generation j))) ` set (sp_jobs s)"
  let ?c1 = "foldl (snapshot_row env node) c (sp_jobs s)"
  have 1: "moves c ?c1"
    using assms(1) by (intro foldl_moves) (auto simp: snapshot_row_def intro: apply_observation_moves [of "stop_stale node _ _", simplified])
  have d: "distinct (map j_id (c_jobs ?c1))" using evolves_ids [OF 1] assms(2) by simp
  let ?rows = "jobs_in_states (c_jobs ?c1) node ACTIVE_STATES"
  obtain c2 ls where e: "foldl (unseen_row env node ?seen) (?c1, []) ?rows = (c2, ls)" by (metis surj_pair)
  have "moves ?c1 c2"
    using unseen_rows_move [OF jobs_in_states_distinct [OF d, of node ACTIVE_STATES], of "(?c1, [])" env node ?seen]
      jobs_in_states_open [OF d] e by simp
  then have 2: "moves c c2" using 1 evolves_trans by blast
  then have "moves c2 (foldl (end_lost env) c2 ls)"
    using evolves_plans assms(1) by (intro foldl_moves end_lost_moves) auto
  then have "moves c (foldl (end_lost env) c2 ls)" using 2 evolves_trans by blast
  then show ?thesis using 1 e by (simp add: on_snapshot_def Let_def)
qed

lemma fail_queue_timeout_moves:
  "open_id (c_jobs c) (j_id j) \<Longrightarrow> moves c (fail_queue_timeout env j name c)"
  by (auto simp: fail_queue_timeout_def clear_set_evolves intro!: closing_moves)

lemma requeue_lost_moves:
  assumes "open_id (c_jobs c) (j_id j)"
  shows "moves c (requeue_lost env j n c)"
  using fst_requeue assms
  by (auto simp: requeue_lost_def Let_def clear_set_evolves fail_queue_timeout_moves intro!: closing_moves
      split: prod.split bool.split)

lemma lose_job_moves:
  assumes "plans_ok (c_jobs c)" "open_id (c_jobs c) (j_id j)"
  shows "moves c (lose_job env n mins c j)"
proof -
  have "moves c (end_lost env (record_event env a k nd w jb (on_jobs (\<lambda>db. set_job_state db (j_id j) s r d at) c)) i)"
    for a k nd w jb s r d at i
  proof -
    let ?c = "record_event env a k nd w jb (on_jobs (\<lambda>db. set_job_state db (j_id j) s r d at) c)"
    have 1: "moves c ?c" by (simp add: set_open_evolves [OF assms(2)])
    then show ?thesis using end_lost_moves evolves_plans [OF 1 assms(1)] evolves_trans by blast
  qed
  then show ?thesis
    by (auto simp: lose_job_def Let_def requeue_lost_moves [OF assms(2)] set_open_evolves [OF assms(2)] intro!: closing_moves)
qed

end
