(* ===== verification/Job_Moves.thy ===== *)
theory Job_Moves
  imports Job_Refines Job_Ops
begin

text \<open>
  The operations of \<open>Job_Ops\<close> refine the abstract machine of \<open>Job_Life\<close> too; all but the retry by hand.
\<close>

section \<open>Guarded writes\<close>

lemma state_if_evolves:
  assumes "\<And>r. j_state r = old \<Longrightarrow> \<not> row_terminal r"
  shows "evolves db (fst (set_job_state_if db i old s reason detail at))"
  unfolding set_job_state_if_def Let_def fst_conv
  by (rule upd_evolves) (use assms in \<open>auto intro!: report simp: same_attempt_def put_state_def\<close>)

lemma queued_open: "j_state r = ''queued'' \<Longrightarrow> \<not> row_terminal r"
  by (simp add: row_terminal_def job_state_def JobState_parse_def is_terminal_def)

lemma queued_if_evolves: "evolves db (fst (set_job_state_if db i ''queued'' s reason detail at))"
  by (rule state_if_evolves) (rule queued_open)

lemma cas_evolves:
  "cancel_if_queued db i at = (db', b) \<Longrightarrow> evolves db db'"
  "assign_if_queued db i at = (db', b) \<Longrightarrow> evolves db db'"
  "replace_if_queued db i k at = (db', b) \<Longrightarrow> evolves db db'"
  "set_job_state_if db i ''queued'' s reason detail at = (db', b) \<Longrightarrow> evolves db db'"
  using queued_if_evolves [of db i JS_Cancelled "Some ''cancelled''" None at] queued_if_evolves [of db i JS_Assigned None None at]
    queued_if_evolves [of db i JS_Cancelled "Some REPLACED" "Some (''replaced by job '' @ short k)" at]
    queued_if_evolves [of db i s reason detail at]
  by (auto simp: cancel_if_queued_def assign_if_queued_def replace_if_queued_def)

lemma ctl_evolves:
  assumes "set_job_ctl db i ctl = Some db'" "job_by_id db i = Some r"
    "ct_retries ctl = ct_retries (j_ctl r)" "ct_retries_used ctl = ct_retries_used (j_ctl r)"
  shows "evolves db db'"
  using set_job_ctl_evolves [of db i ctl] assms by (simp add: or_same_def unwrap_or_def)

lemma ctl_open: "set_job_ctl db i ctl = Some db' \<Longrightarrow> open_id db' k \<longleftrightarrow> open_id db k"
  by (auto simp: set_job_ctl_def open_id_upd split: option.splits)

lemma reason_open_evolves: "open_id db i \<Longrightarrow> evolves db (set_job_reason db i reason detail)"
  by (rule set_job_reason_evolves) (auto simp: open_id_def)

lemma reason_open [simp]: "open_id (set_job_reason db k reason detail) i \<longleftrightarrow> open_id db i"
  unfolding set_job_reason_def by (rule open_id_upd) simp_all

lemma note_withdraw_evolves:
  assumes "job_by_id db i = Some r" "j_withdraws r < MAX_WITHDRAWS"
  shows "evolves db (note_withdraw db i at)"
  unfolding note_withdraw_def
proof (rule upd_id_evolves)
  fix x assume "job_by_id db i = Some x"
  then have "x = r" using assms(1) by simp
  then show "row_step x (x \<lparr> j_withdraws := j_withdraws x + 1, j_withdrawn_at := Some at \<rparr>)"
    using assms(2) by (simp add: withdraw)
qed simp

lemma receipt_evolves: "evolves db (set_job_receipt db i x ok)"
  unfolding set_job_receipt_def by (rule upd_evolves) (auto intro!: touch simp: same_attempt_def)

lemma jobs_send_cancel [simp]:
  "send_cancel_for online node i g why c = (c', sent) \<Longrightarrow> c_jobs c' = c_jobs c"
  "c_jobs (fst (send_cancel_for online node i g why c)) = c_jobs c"
  by (auto simp: send_cancel_for_def split: if_splits)

lemma jobs_job_event [simp]: "c_jobs (job_event env actor kind j c) = c_jobs c"
  by (simp add: job_event_def)

text \<open>With the primary key a write by id hits at most one row; one that hits none changes nothing.\<close>

lemma upd_none: "\<forall>r\<in>set db. \<not> p r \<Longrightarrow> upd p f db = db"
  by (induction db) (simp_all add: upd_def)

lemma hits_once:
  assumes "distinct (map j_id db)" "\<And>r. p r \<Longrightarrow> with_id i r"
  shows "hits p db = (if \<exists>r\<in>set db. p r then 1 else 0)"
  using assms(1)
proof (induction db)
  case (Cons r db)
  have "\<not> p x" if "p r" "x \<in> set db" for x
    using Cons.prems that assms(2) [of r] assms(2) [of x] by (auto simp: with_id_def image_iff)
  then show ?case using Cons by (auto simp: hits_def filter_empty_conv)
qed (simp add: hits_def)

lemma cas_miss:
  assumes "distinct (map j_id db)" "set_job_state_if db i old s reason detail at = (db', False)"
  shows "db' = db"
  using assms hits_once [of db "\<lambda>r. with_id i r \<and> j_state r = old" i]
  by (auto simp: set_job_state_if_def Let_def intro!: upd_none split: if_splits)

section \<open>Cancelling and replacing\<close>

lemma cancel_sent_moves:
  assumes "open_id (c_jobs c) i"
  shows "moves c (fst (cancel_sent env online w i q c))"
proof (cases "job_by_id (c_jobs c) i")
  case (Some j)
  then have "open_id (c_jobs c) (j_id j)" using assms job_by_id_Some by metis
  then show ?thesis
    by (auto simp: cancel_sent_def Some Let_def send_cancel_def send_cancel_if_not_started_def reason_open_evolves split: prod.split)
qed (simp add: cancel_sent_def)

lemma cancel_read_moves:
  assumes "distinct (map j_id (c_jobs c))" "open_id (c_jobs c) (j_id j)"
  shows "moves c (fst (cancel_read env online w j q c))"
proof (cases "cancel_if_queued (c_jobs c) (j_id j) (e_now env)")
  case (Pair db b)
  note e = cas_evolves(1) [OF Pair]
  have same: "db = c_jobs c" if "\<not> b"
    using cas_miss [OF assms(1)] Pair that by (simp add: cancel_if_queued_def)
  have sent: "moves c (fst (cancel_sent env online w (j_id j) q c))" using cancel_sent_moves assms(2) .
  show ?thesis
    using e sent same by (cases b) (simp_all add: cancel_read_def Pair)
qed

lemma cancel_one_moves:
  assumes "distinct (map j_id (c_jobs c))"
  shows "moves c (fst (cancel_one env online w i q c))"
proof (cases "job_by_id (c_jobs c) i")
  case (Some j)
  have ji: "j_id j = i" using job_by_id_Some [OF Some] by simp
  define noted where "noted = (if w = j_requested_by j \<and> \<not> ct_cancelled_by_requester (j_ctl j)
      then set_job_ctl (c_jobs c) (j_id j) ((j_ctl j) \<lparr> ct_cancelled_by_requester := True \<rparr>) else Some (c_jobs c))"
  show ?thesis
  proof (cases "row_terminal j")
    case False
    then have o: "open_id (c_jobs c) i" using Some by (simp add: open_id_def)
    show ?thesis
    proof (cases noted)
      case None
      then show ?thesis using Some False unfolding cancel_one_def Let_def noted_def by (auto split: option.split)
    next
      case (Some db)
      have e: "evolves (c_jobs c) db" and ob: "open_id db i"
        using Some o \<open>job_by_id (c_jobs c) i = Some j\<close> ji ctl_evolves ctl_open
        unfolding noted_def by (fastforce split: if_splits)+
      obtain c1 r where r: "cancel_read env online w j q (c \<lparr> c_jobs := db \<rparr>) = (c1, r)" by (metis surj_pair)
      have "moves (c \<lparr> c_jobs := db \<rparr>) c1"
        using cancel_read_moves [of "c \<lparr> c_jobs := db \<rparr>" j env online w q] evolves_ids [OF e] assms ob ji r by simp
      then have m: "moves c c1" using e evolves_trans by auto
      then have "moves c (finalize env i c1)" using finalize_moves evolves_trans by blast
      moreover have "fst (cancel_one env online w i q c) = (if r = Inr CD_Queued then finalize env i c1 else c1)"
        using \<open>job_by_id (c_jobs c) i = Some j\<close> False Some r
        unfolding cancel_one_def Let_def noted_def by (simp split: option.split)
      ultimately show ?thesis using m by simp
    qed
  qed (simp add: cancel_one_def Some)
qed (simp add: cancel_one_def)

lemma supersede_read_moves: "moves c (fst (supersede_read env online n old c))"
proof (cases "job_by_id (c_jobs c) old")
  case (Some cur)
  note cur = Some
  have i: "j_id cur = old" using job_by_id_Some [OF Some] by simp
  let ?ctl = "(j_ctl cur) \<lparr> ct_replaced_by := Some (j_id n),
        ct_cancelled_by_requester := (ct_cancelled_by_requester (j_ctl cur) \<or> j_requested_by cur = j_requested_by n) \<rparr>"
  show ?thesis
  proof (cases "set_job_ctl (c_jobs c) old ?ctl")
    case (Some db)
    have e: "evolves (c_jobs c) db" by (rule ctl_evolves [OF Some cur]) simp_all
    have r: "evolves (c_jobs c) db'" if "replace_if_queued db old (j_id n) (e_now env) = (db', b)" for db' b
      using e cas_evolves(3) [OF that] evolves_trans by blast
    have m: "evolves (c_jobs c) (set_job_reason db old reason detail)" if "j_state cur = ''assigned''" for reason detail
    proof -
      have "open_id db old" using cur that assigned_open ctl_open [OF Some] by (auto simp: open_id_def)
      then show ?thesis using e reason_open_evolves evolves_trans by blast
    qed
    show ?thesis
      using cur Some i r m
      by (auto simp: supersede_read_def Let_def send_cancel_if_not_started_def split: prod.split bool.split)
  next
    case None
    then show ?thesis using cur i by (simp add: supersede_read_def Let_def)
  qed
qed (simp add: supersede_read_def)

lemma fst_foldl_moves:
  assumes "\<And>c a x. moves c (fst (f (c, a) x))"
  shows "moves (fst ca) (fst (foldl f ca xs))"
proof (induction xs arbitrary: ca)
  case (Cons x xs)
  then show ?case using assms [of "fst ca" "snd ca" x] evolves_trans [OF _ Cons.IH] by simp
qed simp

lemma finalize_all_moves: "moves c (foldl (\<lambda>c i. finalize env i c) c ids)"
proof (induction ids arbitrary: c)
  case (Cons i ids)
  have "moves c (foldl (\<lambda>c i. finalize env i c) (finalize env i c) ids)"
    by (rule evolves_trans [OF finalize_moves Cons.IH])
  then show ?case by simp
qed simp

lemma supersede_older_moves: "moves c (fst (supersede_older env online ws key n c))"
proof -
  define f where "f = (\<lambda>(c, ended, replaced) (old :: JobRow). (case supersede_read env online n (j_id old) c of
                   (c', Some True) \<Rightarrow> (c', ended @ [j_id old], replaced @ [j_id old])
                 | (c', Some False) \<Rightarrow> (c', ended, replaced @ [j_id old])
                 | (c', None) \<Rightarrow> (c', ended, replaced)))"
  have "moves c (fst (f (c, a) old))" for c a old
    using supersede_read_moves [of c env online n "j_id old"]
    by (cases a) (auto simp: f_def split: prod.split option.split bool.split)
  then have "moves c (fst (foldl f (c, a) olds))" for a olds using fst_foldl_moves [of f "(c, a)" olds] by simp
  moreover have "fst (supersede_older env online ws key n c) = c \<or> fst (supersede_older env online ws key n c) =
      (case foldl f (c, [], []) (filter (\<lambda>old. \<not> same_run n old) (queued_with_supersede_key (c_jobs c) ws key)) of
         (c1, ended, replaced) \<Rightarrow> foldl (\<lambda>c i. finalize env i c) c1 ended)"
    by (simp add: supersede_older_def f_def Let_def split: prod.split option.split)
  ultimately show ?thesis
    by (metis (no_types, lifting) evolves_trans finalize_all_moves case_prod_beta evolves_refl)
qed

section \<open>Dispatch and waiting jobs\<close>

lemma assigned_now_open:
  assumes "distinct (map j_id db)" "assign_if_queued db i at = (db', True)"
  shows "open_id db' i"
proof -
  have e: "db' = upd (\<lambda>r. with_id i r \<and> j_state r = ''queued'') (put_state JS_Assigned None None at) db"
    and h: "hits (\<lambda>r. with_id i r \<and> j_state r = ''queued'') db = 1"
    using assms(2) by (simp_all add: assign_if_queued_def set_job_state_if_def Let_def)
  obtain r where r: "r \<in> set db" "with_id i r" "j_state r = ''queued''"
  proof -
    have "hits (\<lambda>r. with_id i r \<and> j_state r = ''queued'') db = (if \<exists>r\<in>set db. with_id i r \<and> j_state r = ''queued'' then 1 else 0)"
      by (rule hits_once [OF assms(1), where i = i]) simp
    then show ?thesis using h that by (metis zero_neq_one)
  qed
  then have "job_by_id db i = Some r" using job_by_id_mem [OF assms(1) r(1)] by (simp add: with_id_def)
  moreover have id: "j_id (put_state JS_Assigned None None at x) = j_id x" for x by (simp add: put_state_def)
  ultimately have j: "job_by_id db' i = Some (put_state JS_Assigned None None at r)"
    unfolding e job_by_id_upd [of "put_state JS_Assigned None None at", OF id] using r by simp
  have "\<not> row_terminal (put_state JS_Assigned None None at r)"
    by (rule assigned_open) (simp add: put_state_def)
  then show ?thesis using j by (simp add: open_id_def)
qed

lemma send_job_moves:
  assumes "distinct (map j_id (c_jobs c))"
  shows "moves c (fst (send_job env node sent job c))"
proof (cases "assign_if_queued (c_jobs c) (j_id job) (e_now env)")
  case (Pair db b)
  have e: "evolves (c_jobs c) db" by (rule cas_evolves(2) [OF Pair])
  then show ?thesis
    using Pair assigned_now_open [OF assms] set_open_evolves evolves_trans
    by (cases b) (auto simp: send_job_def)
qed

lemma note_waiting_moves: "moves c (note_waiting i code m c)"
  using reason_open_evolves queued_open by (auto simp: note_waiting_def open_id_def split: option.split)

lemma fail_waiting_moves: "moves c (fst (fail_waiting env kind code detail node ws i c))"
  using cas_evolves(4) by (auto simp: fail_waiting_def split: prod.split bool.split)

lemma kick_fail_moves: "moves c (kick_fail env node fails c)"
proof -
  define f where "f = (\<lambda>(c, failed) (i, code, detail).
      (let (c', hit) = fail_waiting env ''fail'' code detail (Some node) (map_option j_workspace_id (job_by_id (c_jobs c) i)) i c
       in (c', if hit then failed @ [i] else failed)))"
  have "moves c (fst (f (c, a) x))" for c a x
  proof -
    obtain i code detail where [simp]: "x = (i, code, detail)" by (metis prod_cases3)
    show ?thesis
      using fail_waiting_moves [of c env "''fail''" code detail "Some node" "map_option j_workspace_id (job_by_id (c_jobs c) i)" i]
      by (auto simp: f_def split: prod.split)
  qed
  then have "moves c (fst (foldl f (c, a) fails))" for a using fst_foldl_moves [of f "(c, a)" fails] by simp
  moreover have "kick_fail env node fails c =
      (case foldl f (c, []) fails of (c1, failed) \<Rightarrow> foldl (\<lambda>c i. finalize env i c) c1 failed)"
    by (simp add: kick_fail_def f_def Let_def)
  ultimately show ?thesis
    by (metis (no_types, lifting) evolves_trans finalize_all_moves case_prod_beta)
qed

lemma reason_row: "job_by_id db i = Some r \<Longrightarrow> job_by_id (set_job_reason db i a d) i = Some (r \<lparr> j_reason := a, j_detail := d \<rparr>)"
  using job_by_id_Some [of db i r] by (simp add: set_job_reason_def job_by_id_upd with_id_def)

lemma sweep_held_moves:
  assumes "job_by_id (c_jobs c) (j_id j) = Some j" "\<not> row_terminal j"
  shows "moves c (sweep_held env awake online elsewhere n j c)"
proof -
  have o: "open_id (c_jobs c) (j_id j)" using assms by (simp add: open_id_def)
  have r: "evolves (c_jobs c) (set_job_reason (c_jobs c) (j_id j) reason d)" for reason d
    using o by (rule reason_open_evolves)
  have w: "evolves (c_jobs c) (note_withdraw (set_job_reason (c_jobs c) (j_id j) reason d) (j_id j) at)"
    if "may_withdraw (j_withdraws j) t now" for reason d at t now
    using evolves_trans [OF r note_withdraw_evolves [OF reason_row [OF assms(1)]]] that by (simp add: may_withdraw_def)
  have "open_id (note_withdraw db k at) i \<longleftrightarrow> open_id db i" for db k at i
    unfolding note_withdraw_def by (rule open_id_upd) simp_all
  then have x: "evolves (c_jobs c) (set_job_reason (note_withdraw (set_job_reason (c_jobs c) (j_id j) reason d) (j_id j) at) (j_id j) r2 d2)"
    if "may_withdraw (j_withdraws j) t now" for reason d at r2 d2 t now
    using evolves_trans [OF w [OF that] reason_open_evolves] o by simp
  show ?thesis
    using r w [of "j_withdrawn_at j" "e_now env"] x [of "j_withdrawn_at j" "e_now env"]
    by (auto simp: sweep_held_def Let_def send_cancel_if_not_started_def fail_queue_timeout_moves [OF o] split: prod.split)
qed

lemma resend_one_moves:
  assumes "open_id (c_jobs c) (j_id j)"
  shows "moves c (fst (resend_one env online node j c))"
  by (simp add: resend_one_def send_cancel_if_not_started_def reason_open_evolves [OF assms])

lemma move_queued_moves:
  assumes "move_queued_job digest db i p ctl reason = Some (db', b)" "job_by_id db i = Some j"
    "ct_retries ctl = ct_retries (j_ctl j)" "ct_retries_used ctl = ct_retries_used (j_ctl j)"
  shows "evolves db db'"
proof -
  obtain d where e: "db' = upd (\<lambda>r. with_id i r \<and> j_state r = ''queued'')
      (\<lambda>r. r \<lparr> j_node_id := pl_node_id p, j_plan := Some p, j_ctl := ctl, j_plan_digest := d, j_reason := Some reason, j_detail := None \<rparr>) db"
    using assms(1) by (auto simp: move_queued_job_def Let_def split: option.splits)
  have "r = j" if "job_by_id db k = Some r" "with_id i r" for k r
    using that assms(2) by_id_of [OF that] by simp
  then show ?thesis unfolding e
    by (intro upd_evolves) (use assms(3,4) queued_open in \<open>auto intro!: touch simp: same_attempt_def\<close>)
qed

lemma rewrite_queued_moves:
  assumes "rewrite_queued_plan digest db i p ctl = Some (db', b)" "job_by_id db i = Some j"
    "ct_retries ctl = ct_retries (j_ctl j)" "ct_retries_used ctl = ct_retries_used (j_ctl j)"
  shows "evolves db db'"
proof -
  obtain d where e: "db' = upd (\<lambda>r. with_id i r \<and> j_state r = ''queued'')
      (\<lambda>r. r \<lparr> j_plan := Some p, j_ctl := ctl, j_plan_digest := d \<rparr>) db"
    using assms(1) by (auto simp: rewrite_queued_plan_def Let_def split: option.splits)
  have "r = j" if "job_by_id db k = Some r" "with_id i r" for k r
    using that assms(2) by_id_of [OF that] by simp
  then show ?thesis unfolding e
    by (intro upd_evolves) (use assms(3,4) in \<open>auto intro!: touch simp: same_attempt_def\<close>)
qed

lemma on_receipt_moves: "moves c (on_receipt key_of verify json node r c)"
  using evolves_trans [OF receipt_evolves set_job_outputs_evolves]
  by (auto simp: on_receipt_def Let_def receipt_evolves split: option.split)

end
