(* ===== verification/Runs.thy ===== *)
theory Runs
  imports K2_Prelude
begin

text \<open>
  Runs of a machine that keeps a table of rows: if each step keeps an invariant of the machine and moves every row only
  forward, then so does every run. The server's table of jobs (\<open>Job_Rules\<close>) and a node's ledgers (\<open>Node_Rules\<close>) are such
  machines; their own steps discharge the contract.
\<close>

locale row_machine =
  fixes step :: "'s \<Rightarrow> 's \<Rightarrow> bool" and ok :: "'s \<Rightarrow> bool"
    and row :: "'s \<Rightarrow> 'k \<Rightarrow> 'r option" and adv :: "'r \<Rightarrow> 'r \<Rightarrow> bool"
  assumes adv_refl: "adv r r"
    and adv_trans: "adv r1 r2 \<Longrightarrow> adv r2 r3 \<Longrightarrow> adv r1 r3"
    and step_ok: "step s s' \<Longrightarrow> ok s \<Longrightarrow> ok s'"
    and step_adv: "step s s' \<Longrightarrow> ok s \<Longrightarrow> row s k = Some r \<Longrightarrow> \<exists>r'. row s' k = Some r' \<and> adv r r'"
begin

lemma run_ok: "step\<^sup>*\<^sup>* s s' \<Longrightarrow> ok s \<Longrightarrow> ok s'"
  by (induction rule: rtranclp_induct) (auto intro: step_ok)

lemma run_adv:
  assumes "step\<^sup>*\<^sup>* s s'" "ok s" "row s k = Some r"
  shows "\<exists>r'. row s' k = Some r' \<and> adv r r'"
  using assms
proof (induction rule: rtranclp_induct)
  case base
  then show ?case using adv_refl by blast
next
  case (step y z)
  then obtain r1 where r1: "row y k = Some r1" "adv r r1" by blast
  have "ok y" by (rule run_ok [OF step.hyps(1) step.prems(1)])
  from step_adv [OF step.hyps(2) this r1(1)] show ?case using adv_trans [OF r1(2)] by blast
qed

lemma run_keeps:
  assumes "step\<^sup>*\<^sup>* s s'" "ok s" "row s k = Some r" "\<And>r'. adv r r' \<Longrightarrow> f r' = f r"
  shows "\<exists>r'. row s' k = Some r' \<and> f r' = f r"
  using run_adv [OF assms(1-3)] assms(4) by blast

end

end
