(* ===== verification/Job_Rules.thy ===== *)
theory Job_Rules
  imports Job_Moves Runs
begin

text \<open>
  A server's job table as a state machine: every report, sweep, dispatch and request is one step, in any order
  (\<open>auto_step\<close>); a retry by hand is one more (\<open>ctl_step\<close>). The properties hold along every run.
\<close>

section \<open>Steps\<close>

definition table_ok :: "jobs_db \<Rightarrow> bool" where
  "table_ok db \<longleftrightarrow> distinct (map j_id db) \<and> plans_ok db"

text \<open>A submitted job has used no retry; a plan that is rebuilt keeps the retries.\<close>

definition fresh_job :: "NewJob \<Rightarrow> bool" where
  "fresh_job n \<longleftrightarrow> ct_retries_used (nj_ctl n) = 0 \<and> ct_retries (nj_ctl n) < 2 ^ 32"

definition keeps_retries :: "jobs_db \<Rightarrow> string \<Rightarrow> JobCtl \<Rightarrow> bool" where
  "keeps_retries db i ctl \<longleftrightarrow> (case job_by_id db i of
     Some j \<Rightarrow> ct_retries ctl = ct_retries (j_ctl j) \<and> ct_retries_used ctl = ct_retries_used (j_ctl j) | None \<Rightarrow> False)"

definition active_row :: "Ctrl \<Rightarrow> JobRow \<Rightarrow> bool" where
  "active_row c j \<longleftrightarrow> job_by_id (c_jobs c) (j_id j) = Some j \<and> j_state j \<in> set ACTIVE_STATES"

inductive auto_step :: "Ctrl \<Rightarrow> Ctrl \<Rightarrow> bool" where
  state: "auto_step c (on_state env node s c)"
| snapshot: "auto_step c (fst (on_snapshot env node s (c, seen)))"
| receipt: "auto_step c (on_receipt key_of verify json node rf c)"
| lost: "active_row c j \<Longrightarrow> auto_step c (lose_job env n mins c j)"
| held: "active_row c j \<Longrightarrow> auto_step c (sweep_held env awake online elsewhere n j c)"
| resend: "active_row c j \<Longrightarrow> auto_step c (fst (resend_one env online node j c))"
| send: "auto_step c (fst (send_job env node sent job c))"
| wait: "auto_step c (note_waiting i code m c)"
| fail: "auto_step c (kick_fail env node fails c)"
| cancel: "auto_step c (fst (cancel_one env online w i queued_only c))"
| supersede: "auto_step c (fst (supersede_older env online ws key j c))"
| move: "move_queued_job digest (c_jobs c) i p ctl reason = Some (db, hit) \<Longrightarrow> keeps_retries (c_jobs c) i ctl
    \<Longrightarrow> auto_step c (c \<lparr> c_jobs := db \<rparr>)"
| rewrite: "rewrite_queued_plan digest (c_jobs c) i p ctl = Some (db, hit) \<Longrightarrow> keeps_retries (c_jobs c) i ctl
    \<Longrightarrow> auto_step c (c \<lparr> c_jobs := db \<rparr>)"
| submit: "insert_job digest (c_jobs c) n = Some (db, row) \<Longrightarrow> fresh_job n \<Longrightarrow> auto_step c (c \<lparr> c_jobs := db \<rparr>)"

abbreviation auto_steps :: "Ctrl \<Rightarrow> Ctrl \<Rightarrow> bool" where
  "auto_steps \<equiv> auto_step\<^sup>*\<^sup>*"

lemma moves_table: "moves c c' \<Longrightarrow> table_ok (c_jobs c) \<Longrightarrow> table_ok (c_jobs c')"
  using evolves_ids evolves_plans by (metis table_ok_def)

lemma job_by_id_snoc:
  "job_by_id (db @ [r]) i = (case job_by_id db i of Some x \<Rightarrow> Some x | None \<Rightarrow> if j_id r = i then Some r else None)"
  by (induction db) (simp_all add: job_by_id_def with_id_def)

lemma insert_rows:
  assumes "insert_job digest db n = Some (db', row)"
  shows "job_by_id db (j_id row) = None" "job_by_id db' i = (if i = j_id row then Some row else job_by_id db i)"
    "\<exists>d. row = new_row n d" "map j_id db' = map j_id db @ [j_id row]"
proof -
  obtain d where d: "row = new_row n d" "db' = db @ [row]" "job_by_id db (j_id row) = None"
    using assms by (auto simp: insert_job_def Let_def split: option.splits if_splits)
  then show "job_by_id db (j_id row) = None" "\<exists>d. row = new_row n d" "map j_id db' = map j_id db @ [j_id row]" by auto
  show "job_by_id db' i = (if i = j_id row then Some row else job_by_id db i)"
    using d(3) unfolding d(2) job_by_id_snoc by (auto split: option.split)
qed

lemma job_by_id_None: "job_by_id db i = None \<longleftrightarrow> i \<notin> set (map j_id db)"
  by (induction db) (auto simp: job_by_id_def with_id_def)

text \<open>A step takes every row along the abstract machine; the rows it adds are new.\<close>

lemma step_moves:
  assumes "auto_step c c'" "table_ok (c_jobs c)"
  shows "moves c c' \<or> (\<exists>digest n row. insert_job digest (c_jobs c) n = Some (c_jobs c', row) \<and> fresh_job n)"
  using assms(1)
proof (cases rule: auto_step.cases)
  case (move digest i p ctl reason db hit)
  then obtain j where "job_by_id (c_jobs c) i = Some j" "ct_retries ctl = ct_retries (j_ctl j)"
    "ct_retries_used ctl = ct_retries_used (j_ctl j)" by (auto simp: keeps_retries_def split: option.splits)
  then show ?thesis using move_queued_moves [OF move(2)] move(1) by simp
next
  case (rewrite digest i p ctl db hit)
  then obtain j where "job_by_id (c_jobs c) i = Some j" "ct_retries ctl = ct_retries (j_ctl j)"
    "ct_retries_used ctl = ct_retries_used (j_ctl j)" by (auto simp: keeps_retries_def split: option.splits)
  then show ?thesis using rewrite_queued_moves [OF rewrite(2)] rewrite(1) by simp
next
  case (submit digest n db row)
  then show ?thesis by auto
qed (use assms(2) active_open in \<open>auto simp: table_ok_def active_row_def open_id_def on_state_moves on_snapshot_moves on_receipt_moves
    lose_job_moves sweep_held_moves resend_one_moves send_job_moves note_waiting_moves kick_fail_moves cancel_one_moves
    supersede_older_moves\<close>)

lemma step_table:
  assumes "auto_step c c'" "table_ok (c_jobs c)"
  shows "table_ok (c_jobs c')"
  using step_moves [OF assms]
proof
  assume "\<exists>digest n row. insert_job digest (c_jobs c) n = Some (c_jobs c', row) \<and> fresh_job n"
  then obtain digest n row where i: "insert_job digest (c_jobs c) n = Some (c_jobs c', row)" by blast
  then obtain d where "row = new_row n d" using insert_rows(3) by blast
  then have "j_plan row \<noteq> None" by (simp add: new_row_def Let_def)
  moreover have "j_id row \<notin> set (map j_id (c_jobs c))" using insert_rows(1) [OF i] by (simp add: job_by_id_None)
  ultimately show ?thesis
    using assms(2) insert_rows(2) [OF i] insert_rows(4) [OF i] by (simp add: table_ok_def plans_ok_def)
qed (rule moves_table [OF _ assms(2)])

lemma step_row:
  assumes "auto_step c c'" "table_ok (c_jobs c)" "job_by_id (c_jobs c) i = Some r"
  shows "\<exists>r'. job_by_id (c_jobs c') i = Some r' \<and> row_steps r r'"
  using step_moves [OF assms(1,2)]
proof
  assume "\<exists>digest n row. insert_job digest (c_jobs c) n = Some (c_jobs c', row) \<and> fresh_job n"
  then obtain digest n row where i: "insert_job digest (c_jobs c) n = Some (c_jobs c', row)" by blast
  then show ?thesis using insert_rows(1,2) [OF i] assms(3) by auto
qed (rule evolves_Some [OF _ assms(3)])

text \<open>The server is a row machine: its rows only move on.\<close>

interpretation auto: row_machine auto_step "\<lambda>c. table_ok (c_jobs c)" "\<lambda>c. job_by_id (c_jobs c)" row_steps
  by unfold_locales (auto intro: step_table step_row)


section \<open>Retries\<close>

definition rows_ok :: "jobs_db \<Rightarrow> bool" where
  "rows_ok db \<longleftrightarrow> (\<forall>i r. job_by_id db i = Some r \<longrightarrow> row_ok r)"

lemma new_row_ok: "fresh_job n \<Longrightarrow> row_ok (new_row n d)"
  by (simp add: row_ok_def fresh_job_def new_row_def Let_def MAX_WITHDRAWS_def)

lemma step_rows:
  assumes "auto_step c c'" "table_ok (c_jobs c)" "rows_ok (c_jobs c)"
  shows "rows_ok (c_jobs c')"
  using step_moves [OF assms(1,2)]
proof
  assume e: "moves c c'"
  show ?thesis unfolding rows_ok_def
  proof (intro allI impI)
    fix i r' assume r': "job_by_id (c_jobs c') i = Some r'"
    then obtain r where r: "job_by_id (c_jobs c) i = Some r" using evolves_None [OF e] by (metis option.exhaust option.simps(3))
    then have "row_steps r r'" using evolves_Some [OF e] r' by fastforce
    then show "row_ok r'" using steps_ok r assms(3) by (auto simp: rows_ok_def)
  qed
next
  assume "\<exists>digest n row. insert_job digest (c_jobs c) n = Some (c_jobs c', row) \<and> fresh_job n"
  then obtain digest n row where i: "insert_job digest (c_jobs c) n = Some (c_jobs c', row)" "fresh_job n" by blast
  then have "row_ok row" using insert_rows(3) [OF i(1)] new_row_ok by blast
  then show ?thesis using insert_rows(2) [OF i(1)] assms(3) by (simp add: rows_ok_def)
qed

lemma steps_rows: "auto_steps c c' \<Longrightarrow> table_ok (c_jobs c) \<Longrightarrow> rows_ok (c_jobs c) \<Longrightarrow> rows_ok (c_jobs c')"
  by (induction rule: rtranclp_induct) (auto intro: step_rows auto.run_ok)


section \<open>Attempts that are over\<close>

text \<open>With retries by hand the generations of a row still only grow.\<close>

inductive ctl_step :: "Ctrl \<Rightarrow> Ctrl \<Rightarrow> bool" where
  auto: "auto_step c c' \<Longrightarrow> ctl_step c c'"
| by_hand: "ctl_step c (fst (job_retry env allowed w i c))"

abbreviation ctl_steps :: "Ctrl \<Rightarrow> Ctrl \<Rightarrow> bool" where
  "ctl_steps \<equiv> ctl_step\<^sup>*\<^sup>*"

definition grows :: "jobs_db \<Rightarrow> jobs_db \<Rightarrow> bool" where
  "grows db db' \<longleftrightarrow> map j_id db' = map j_id db \<and> (plans_ok db \<longrightarrow> plans_ok db')
     \<and> (\<forall>i r. job_by_id db i = Some r \<longrightarrow> (\<exists>r'. job_by_id db' i = Some r' \<and> j_generation r \<le> j_generation r'))"

lemma grows_refl [simp]: "grows db db"
  by (simp add: grows_def)

lemma grows_trans: "grows a b \<Longrightarrow> grows b c \<Longrightarrow> grows a c"
  unfolding grows_def by (metis order_trans)

lemma upd_grows:
  assumes "\<And>r. j_id (f r) = j_id r" "\<And>r. j_plan r \<noteq> None \<Longrightarrow> j_plan (f r) \<noteq> None"
    "\<And>r. j_generation r \<le> j_generation (f r)"
  shows "grows db (upd p f db)"
proof -
  have j: "job_by_id (upd p f db) i = map_option (\<lambda>r. if p r then f r else r) (job_by_id db i)" for i
    by (rule job_by_id_upd) (rule assms(1))
  have "plans_ok (upd p f db)" if "plans_ok db"
    unfolding plans_ok_def
  proof (intro allI impI)
    fix i r assume "job_by_id (upd p f db) i = Some r"
    then obtain x where "job_by_id db i = Some x" "r = (if p x then f x else x)" unfolding j by auto
    then show "j_plan r \<noteq> None" using that assms(2) by (auto simp: plans_ok_def)
  qed
  moreover have "map j_id (upd p f db) = map j_id db" using assms(1) by (simp add: upd_def)
  ultimately show ?thesis unfolding grows_def j using assms(3) by auto
qed

lemma set_ctl_grows: "grows db (or_same db (set_job_ctl db i ctl))"
  by (auto simp: set_job_ctl_def or_same_def unwrap_or_def intro!: upd_grows split: option.split)

lemma retry_one_grows: "grows (c_jobs c) (c_jobs (fst (retry_one env w j c)))"
proof -
  have 1: "grows (c_jobs c) (upd (with_id (j_id j)) (put_new_attempt ''retry'') (c_jobs c))"
    by (rule upd_grows) (simp_all add: put_new_attempt_def no_node_place_def)
  then have "grows (c_jobs c) (or_same db (set_job_ctl db i ctl))"
    if "db = upd (with_id (j_id j)) (put_new_attempt ''retry'') (c_jobs c)" for db i ctl
    using grows_trans [OF _ set_ctl_grows] that by simp
  then show ?thesis using 1 by (auto simp: retry_one_def requeue_new_attempt_def Let_def split: option.split)
qed

lemma retry_checked_grows: "grows (c_jobs c) (c_jobs (fst (retry_checked env allowed w j c)))"
  using retry_one_grows [of c env w j] by (auto simp: retry_checked_def split: prod.split option.split)

lemma retry_shards_grows: "grows (c_jobs c) (c_jobs (fst (retry_shards env allowed w ks c)))"
proof (induction ks arbitrary: c)
  case (Cons k ks)
  have "grows (c_jobs c) (c_jobs (fst (retry_shards env allowed w ks c1)))" if "retry_checked env allowed w k c = (c1, x)" for c1 x
    using retry_checked_grows [of c env allowed w k] grows_trans [OF _ Cons.IH] that by simp
  then show ?case
    using Cons.IH [of c] retry_checked_grows [of c env allowed w k]
    by (auto split: prod.split sum.split)
qed simp

lemma job_retry_grows: "grows (c_jobs c) (c_jobs (fst (job_retry env allowed w i c)))"
proof -
  have p: "grows (c_jobs c) (set_parent_running (c_jobs c1) k)" if "grows (c_jobs c) (c_jobs c1)" for c1 :: Ctrl and k
    using that unfolding set_parent_running_def by (rule grows_trans) (rule upd_grows; simp)
  have s: "grows (c_jobs c) (c_jobs c1)" "grows (c_jobs c) (set_parent_running (c_jobs c1) k)"
    if "retry_shards env allowed w ks c = (c1, x)" for ks c1 x k
    using p [of c1 k] retry_shards_grows [of c env allowed w ks] that by simp_all
  show ?thesis
    using retry_checked_grows [of c env allowed w] s
    by (auto simp: job_retry_def Let_def split: option.split prod.split sum.split)
qed

lemma ctl_table:
  assumes "ctl_step c c'" "table_ok (c_jobs c)"
  shows "table_ok (c_jobs c')"
  using assms(1)
proof (cases rule: ctl_step.cases)
  case by_hand
  then show ?thesis using assms(2) job_retry_grows unfolding grows_def table_ok_def by metis
qed (rule step_table [OF _ assms(2)])

lemma ctl_generation:
  assumes "ctl_step c c'" "table_ok (c_jobs c)" "job_by_id (c_jobs c) i = Some r"
  shows "\<exists>r'. job_by_id (c_jobs c') i = Some r' \<and> j_generation r \<le> j_generation r'"
  using assms(1)
proof (cases rule: ctl_step.cases)
  case auto
  then show ?thesis using step_row [OF _ assms(2,3)] steps_generation by blast
next
  case by_hand
  then show ?thesis using assms(3) job_retry_grows unfolding grows_def by metis
qed

interpretation ctl: row_machine ctl_step "\<lambda>c. table_ok (c_jobs c)" "\<lambda>c. job_by_id (c_jobs c)"
    "\<lambda>r r'. j_generation r \<le> j_generation r'"
  by unfold_locales (auto intro: ctl_table ctl_generation)

text \<open>A report of an attempt that is not the row's changes nothing.\<close>

lemma stale_observation:
  assumes "job_by_id (c_jobs c) (ob_job_id b) = Some r" "j_generation r \<noteq> int (ob_generation b)"
  shows "apply_observation env node b c = c"
  using assms by (simp add: apply_observation_def)

text \<open>C6: A superseded attempt is silent. Once a job's generation has passed \<open>g\<close>, whatever happens next, retries by hand
  included, no report of generation \<open>g\<close> ever writes the table, sends a message or counts against a node; the receipt of such
  an attempt is dropped too.\<close>

theorem superseded_attempt_silent:
  assumes "ctl_steps c c'" "table_ok (c_jobs c)" "job_by_id (c_jobs c) (su_job_id s) = Some r"
    "int (su_generation s) < j_generation r" "rf_job_id f = su_job_id s" "rf_generation f = su_generation s"
  shows "on_state env node s c' = (if is_terminal (su_state s) then ask (Ask_Kick node) c' else c')
    \<and> on_receipt key_of verify json node f c' = c'"
proof -
  obtain r' where r': "job_by_id (c_jobs c') (su_job_id s) = Some r'" "j_generation r \<le> j_generation r'"
    using ctl.run_adv [OF assms(1-3)] by blast
  then have g: "j_generation r' \<noteq> int (su_generation s)" using assms(4) by simp
  then have "store_outputs node (su_job_id s) (su_generation s) out c' = c'" for out
    using r' by (simp add: store_outputs_def)
  then show ?thesis
    using r' g assms(5,6) by (auto simp: on_state_def Let_def on_receipt_def stale_observation split: option.split)
qed

end
