(* ===== verification/Job_Times.thy ===== *)
theory Job_Times
  imports Job_Rules
begin

text \<open>
  One report in detail: the row it writes, the cancel that was asked for, the order of the times, the guarded writes
  that race for a queued job, and what a receipt proves.
\<close>

section \<open>The row a report writes\<close>

lemma row_upd:
  assumes "job_by_id db i = Some r" "\<And>x. j_id (f x) = j_id x"
  shows "job_by_id (upd (with_id i) f db) i = Some (f r)"
  using job_by_id_Some [OF assms(1)] assms(1) job_by_id_upd [of f "with_id i" db i, OF assms(2)] by (simp add: with_id_def)

definition stamped :: "JobState \<Rightarrow> string option \<Rightarrow> string option \<Rightarrow> int \<Rightarrow> int option \<Rightarrow> JobRow \<Rightarrow> JobRow \<Rightarrow> bool" where
  "stamped s reason detail stamp start job r \<longleftrightarrow> j_id r = j_id job \<and> j_state r = JobState_as_str s \<and> j_reason r = reason
     \<and> j_attempt r = j_attempt job \<and> j_generation r = j_generation job
     \<and> j_assigned_at r = (if s = JS_Assigned then Some stamp else j_assigned_at job)
     \<and> j_started_at r = (let st = or_else start (j_started_at job) in if s = JS_Running \<and> st = None then Some stamp else st)
     \<and> j_ended_at r = (if is_terminal s then or_else (j_ended_at job) (Some stamp) else j_ended_at job)"

lemma observed_row:
  assumes "job_by_id db (j_id job) = Some job"
  shows "case end_words job b of (s, reason, detail) \<Rightarrow> case node_stamp env job s b of (stamp, ctl, start) \<Rightarrow>
    \<exists>r. job_by_id (observed_jobs env job b db) (j_id job) = Some r \<and> stamped s reason detail stamp start job r"
proof -
  obtain s reason detail where w: "end_words job b = (s, reason, detail)" by (metis prod_cases3)
  obtain stamp ctl start where n: "node_stamp env job s b = (stamp, ctl, start)" by (metis prod_cases3)
  let ?i = "j_id job"
  define db1 where "db1 = (if j_node_queued job then clear_node_queued db ?i else db)"
  define db2 where "db2 = set_job_state (put_start ?i start db1) ?i s reason detail stamp"
  define db3 where "db3 = (if ctl \<noteq> j_ctl job then or_same db2 (set_job_ctl db2 ?i ctl) else db2)"
  define db4 where "db4 = (case ob_src b of Some s \<Rightarrow> set_job_src db3 ?i (sn_commit s) (sn_tree s) | None \<Rightarrow> db3)"
  define db5 where "db5 = (case ob_exit b of Some x \<Rightarrow> set_job_exit db4 ?i (xi_code x) (xi_signal x) | None \<Rightarrow> db4)"
  define db6 where "db6 = (if is_terminal s then set_job_log db5 ?i (e_last_seq env) 0 else db5)"
  define r1 where "r1 = (if j_node_queued job then no_node_place job else job)"
  have "job_by_id (clear_node_queued db ?i) ?i = map_option (\<lambda>r. if with_id ?i r \<and> j_node_queued r then no_node_place r else r) (Some job)"
    unfolding clear_node_queued_def assms [symmetric] by (rule job_by_id_upd) (simp add: no_node_place_def)
  then have r1: "job_by_id db1 ?i = Some r1" "j_id r1 = j_id job" "j_attempt r1 = j_attempt job"
    "j_generation r1 = j_generation job" "j_assigned_at r1 = j_assigned_at job" "j_started_at r1 = j_started_at job"
    "j_ended_at r1 = j_ended_at job"
    using assms by (simp_all add: db1_def r1_def with_id_def no_node_place_def)
  define r2 where "r2 = r1 \<lparr> j_started_at := or_else start (j_started_at r1) \<rparr>"
  have r2: "job_by_id (put_start ?i start db1) ?i = Some r2"
    using row_upd [OF r1(1)] r1(1) by (simp add: put_start_def set_job_times_def r2_def or_else_def split: option.split)
  have "job_by_id db2 ?i = Some (put_state s reason detail stamp r2)"
    unfolding db2_def set_job_state_def by (rule row_upd [OF r2]) (simp add: put_state_def)
  moreover have "stamped s reason detail stamp start job (put_state s reason detail stamp r2)"
    using r1 by (simp add: stamped_def put_state_def r2_def Let_def)
  ultimately obtain x2 where 2: "job_by_id db2 ?i = Some x2" "stamped s reason detail stamp start job x2" by blast
  have "\<exists>x. job_by_id db3 ?i = Some x \<and> stamped s reason detail stamp start job x"
    using 2 row_upd [OF 2(1)]
    by (auto simp: db3_def or_same_def unwrap_or_def set_job_ctl_def stamped_def split: option.split)
  then obtain x3 where 3: "job_by_id db3 ?i = Some x3" "stamped s reason detail stamp start job x3" by blast
  have "\<exists>x. job_by_id db4 ?i = Some x \<and> stamped s reason detail stamp start job x"
    using 3 row_upd [OF 3(1)] by (auto simp: db4_def set_job_src_def stamped_def split: option.split)
  then obtain x4 where 4: "job_by_id db4 ?i = Some x4" "stamped s reason detail stamp start job x4" by blast
  have "\<exists>x. job_by_id db5 ?i = Some x \<and> stamped s reason detail stamp start job x"
    using 4 row_upd [OF 4(1)] by (auto simp: db5_def set_job_exit_def stamped_def split: option.split)
  then obtain x5 where 5: "job_by_id db5 ?i = Some x5" "stamped s reason detail stamp start job x5" by blast
  have "\<exists>x. job_by_id db6 ?i = Some x \<and> stamped s reason detail stamp start job x"
    using 5 row_upd [OF 5(1)] by (auto simp: db6_def set_job_log_def stamped_def)
  moreover have "observed_jobs env job b db = db6"
    by (simp only: observed_jobs_def w n Let_def prod.case db1_def db2_def db3_def db4_def db5_def db6_def)
  ultimately show ?thesis by (simp add: w n)
qed

text \<open>The end of a job leaves every ended row's result alone.\<close>

definition same_result :: "JobRow \<Rightarrow> JobRow \<Rightarrow> bool" where
  "same_result r r' \<longleftrightarrow> j_state r' = j_state r \<and> j_reason r' = j_reason r \<and> j_attempt r' = j_attempt r
     \<and> j_generation r' = j_generation r"

lemma child_ended_result:
  assumes "child_ended env p c = Some c'" "job_by_id (c_jobs c) i = Some r" "row_terminal r"
  shows "job_by_id (c_jobs c') i = Some r"
proof -
  obtain parent agg where p: "job_by_id (c_jobs c) p = Some parent" "\<not> row_terminal parent"
    "c_jobs c' = finish_parent (c_jobs c) (j_id parent) agg"
    using assms(1) by (auto simp: child_ended_def Let_def split: option.splits if_splits)
  then have pi: "j_id parent = p" using job_by_id_Some by blast
  then have "\<not> with_id p r" using p(1,2) assms(2,3) by_id_of [OF assms(2)] by force
  moreover have "j_id (put_aggregate agg x) = j_id x" for x by (simp add: put_aggregate_def)
  ultimately show ?thesis unfolding p(3) pi finish_parent_def using assms(2) by (subst job_by_id_upd) simp_all
qed

lemma finalize_result:
  assumes "job_by_id (c_jobs c) i = Some r" "row_terminal r"
  shows "\<exists>r'. job_by_id (c_jobs (finalize env k c)) i = Some r' \<and> same_result r r'"
  using assms
proof (induction env k c arbitrary: r rule: finalize.induct)
  case (1 env k c)
  have own: "\<exists>r'. job_by_id (c_jobs (finalize_own env k c)) i = Some r' \<and> same_result r r'"
    using "1.prems"(1) by (auto simp: finalize_own_def mark_notified_def job_by_id_upd same_result_def split: option.split)
  show ?case
  proof (cases "shard_parent c k")
    case (Some p)
    then show ?thesis
      using "1.IH" [OF Some] child_ended_result [OF _ "1.prems"] "1.prems"
      by (subst finalize.simps) (auto simp: same_result_def split: option.split)
  next
    case None
    then show ?thesis using own by (subst finalize.simps) simp
  qed
qed

section \<open>A cancel that was asked for\<close>

lemma finalize_after:
  assumes "job_by_id (f (c_jobs c)) i = Some r" "row_terminal r"
  shows "\<exists>r'. job_by_id (c_jobs (finalize env k (record_event env' a kd n w j (on_jobs f c)))) i = Some r' \<and> same_result r r'"
  using finalize_result [of "record_event env' a kd n w j (on_jobs f c)"] assms by simp

lemma state_terminal: "j_state r = JobState_as_str s \<Longrightarrow> row_terminal r \<longleftrightarrow> is_terminal s"
  by (cases s) (simp_all add: row_terminal_def job_state_def JobState_parse_def)

lemma same_result_terminal: "same_result r r' \<Longrightarrow> row_terminal r' \<longleftrightarrow> row_terminal r"
  by (simp add: same_result_def row_terminal_def job_state_def)

lemma end_words_owed:
  assumes "j_reason job = Some CANCEL_REQUESTED" "end_words job b = (s, reason, detail)"
  shows "s \<noteq> JS_Interrupted" "s \<noteq> JS_Unknown" "is_terminal s \<longleftrightarrow> is_terminal (ob_state b)"
    "\<not> is_terminal s \<Longrightarrow> reason = Some CANCEL_REQUESTED"
  using assms
  by (auto simp: end_words_def cancel_owed_def kept_reason_def Let_def is_terminal_def split: if_splits option.splits prod.splits)

definition owed_row :: "JobRow \<Rightarrow> Obs \<Rightarrow> JobRow \<Rightarrow> bool" where
  "owed_row r b r' \<longleftrightarrow> j_attempt r' = j_attempt r \<and> j_generation r' = j_generation r
    \<and> (if is_terminal (ob_state b) \<or> (ob_state b = JS_Queued \<and> ob_reason b \<noteq> Some NODE_QUEUED)
       then row_terminal r' \<and> j_state r' \<notin> {''interrupted'', ''unknown''}
       else \<not> row_terminal r' \<and> j_reason r' = Some CANCEL_REQUESTED)"

lemma owed_kept:
  assumes "job_by_id (c_jobs c) (ob_job_id b) = Some r" "\<not> row_terminal r" "j_reason r = Some CANCEL_REQUESTED"
    "j_node_id r = node" "j_generation r = int (ob_generation b)"
    "ob_state b = JS_Queued" "ob_reason b = Some NODE_QUEUED"
  shows "\<exists>r'. job_by_id (c_jobs (apply_observation env node b c)) (ob_job_id b) = Some r' \<and> owed_row r b r'"
proof -
  let ?db = "fst (mark_node_queued (c_jobs c) (j_id r) (j_generation r) (ob_queue b) None (e_now env))"
  have e: "c_jobs (apply_observation env node b c) = ?db"
    using assms by (simp add: apply_observation_def)
  have "\<exists>r'. job_by_id ?db (ob_job_id b) = Some r' \<and> j_state r' = j_state r \<and> j_reason r' = j_reason r \<and> j_attempt r' = j_attempt r
      \<and> j_generation r' = j_generation r"
    using assms(1) by (simp add: mark_node_queued_def Let_def job_by_id_upd put_node_queued_def or_else_def)
  then obtain r' where r': "job_by_id ?db (ob_job_id b) = Some r'" "same_result r r'" unfolding same_result_def by blast
  have "\<not> row_terminal r'" "j_reason r' = Some CANCEL_REQUESTED" "j_attempt r' = j_attempt r" "j_generation r' = j_generation r"
    using same_result_terminal [OF r'(2)] r'(2) assms(2,3) by (simp_all add: same_result_def)
  moreover have "\<not> is_terminal (ob_state b)" using assms(6) by (simp add: is_terminal_def)
  ultimately show ?thesis unfolding e using r'(1) assms(6,7) by (simp add: owed_row_def)
qed

lemma owed_refused:
  assumes "job_by_id (c_jobs c) (ob_job_id b) = Some r" "\<not> row_terminal r" "j_reason r = Some CANCEL_REQUESTED"
    "j_node_id r = node" "j_generation r = int (ob_generation b)"
    "ob_state b = JS_Queued" "ob_reason b \<noteq> Some NODE_QUEUED"
  shows "\<exists>r'. job_by_id (c_jobs (apply_observation env node b c)) (ob_job_id b) = Some r' \<and> owed_row r b r'"
proof -
  have i: "j_id r = ob_job_id b" using job_by_id_Some [OF assms(1)] by simp
  have p: "\<not> given_back r b" using assms(3) by (simp add: given_back_def)
  obtain stop sd where s: "unwrap_or (replaced_end r (Some CANCEL_REQUESTED)) (''cancelled'', None) = (stop, sd)" by (metis surj_pair)
  let ?f = "\<lambda>db. set_job_state db (j_id r) JS_Cancelled (Some stop) sd (e_now env)"
  let ?r1 = "put_state JS_Cancelled (Some stop) sd (e_now env) r"
  have e: "apply_observation env node b c
      = finalize env (j_id r) (record_event env ''node'' ''job_end'' (Some node) (Some (j_workspace_id r)) (Some (j_id r)) (on_jobs ?f c))"
    using assms p s by (simp add: apply_observation_def refused_assign_def Let_def)
  have "job_by_id (?f (c_jobs c)) (ob_job_id b) = Some ?r1"
    unfolding set_job_state_def i by (rule row_upd [OF assms(1)]) (simp add: put_state_def)
  moreover have "row_terminal ?r1" by (simp add: state_terminal [of _ JS_Cancelled] put_state_def is_terminal_def)
  ultimately obtain r' where r': "job_by_id (c_jobs (apply_observation env node b c)) (ob_job_id b) = Some r'" "same_result ?r1 r'"
    unfolding e using finalize_after [of ?f c "ob_job_id b" ?r1] by blast
  have "row_terminal r'" using same_result_terminal [OF r'(2)] \<open>row_terminal ?r1\<close> by simp
  moreover have "j_state r' = ''cancelled''" "j_attempt r' = j_attempt r" "j_generation r' = j_generation r"
    using r'(2) by (simp_all add: same_result_def put_state_def)
  ultimately show ?thesis using r'(1) assms(6,7) by (simp add: owed_row_def)
qed

lemma owed_seen:
  assumes "job_by_id (c_jobs c) (ob_job_id b) = Some r" "\<not> row_terminal r" "j_reason r = Some CANCEL_REQUESTED"
    "j_node_id r = node" "j_generation r = int (ob_generation b)"
    "ob_state b \<noteq> JS_Queued"
  shows "\<exists>r'. job_by_id (c_jobs (apply_observation env node b c)) (ob_job_id b) = Some r' \<and> owed_row r b r'"
proof -
  have i: "j_id r = ob_job_id b" using job_by_id_Some [OF assms(1)] by simp
  have p: "\<not> given_back r b" using assms(3) by (simp add: given_back_def)
  obtain s reason detail where w: "end_words r b = (s, reason, detail)" by (metis prod_cases3)
  obtain stamp ctl start where n: "node_stamp env r s b = (stamp, ctl, start)" by (metis prod_cases3)
  note ow = end_words_owed [OF assms(3) w]
  let ?c1 = "observed_events env node r b s (on_jobs (observed_jobs env r b) c)"
  have e: "apply_observation env node b c = (if is_terminal s then finalize env (j_id r) ?c1 else ?c1)"
    using assms p w by (simp add: apply_observation_def observed_def cancel_owed_def Let_def)
  have "job_by_id (c_jobs c) (j_id r) = Some r" using assms(1) i by simp
  then obtain r1 where r1: "job_by_id (c_jobs ?c1) (ob_job_id b) = Some r1" "stamped s reason detail stamp start r r1"
    using observed_row [of "c_jobs c" r env b] i by (auto simp: w n)
  then have st: "row_terminal r1 \<longleftrightarrow> is_terminal s" by (intro state_terminal) (simp add: stamped_def)
  show ?thesis
  proof (cases "is_terminal s")
    case True
    then obtain r' where r': "job_by_id (c_jobs (apply_observation env node b c)) (ob_job_id b) = Some r'" "same_result r1 r'"
      unfolding e using finalize_result [OF r1(1)] st by auto
    have "JobState_as_str s \<notin> {''interrupted'', ''unknown''}" using ow(1,2) by (cases s) simp_all
    then show ?thesis
      using r' r1(2) True st ow(3) same_result_terminal [OF r'(2)] by (auto simp: stamped_def same_result_def owed_row_def)
  next
    case False
    then show ?thesis using e r1 st ow assms(6) by (auto simp: stamped_def owed_row_def)
  qed
qed


section \<open>The order of the times\<close>

definition times_ok :: "int \<Rightarrow> JobRow \<Rightarrow> bool" where
  "times_ok now r \<longleftrightarrow>
     (let le = (\<lambda>a b. case (a, b) of (Some x, Some y) \<Rightarrow> x \<le> y | _ \<Rightarrow> True); upto = (\<lambda>a. case a of Some x \<Rightarrow> x \<le> now | None \<Rightarrow> True)
      in le (j_assigned_at r) (j_started_at r) \<and> le (j_started_at r) (j_ended_at r) \<and> le (j_assigned_at r) (j_ended_at r)
       \<and> upto (j_assigned_at r) \<and> upto (j_started_at r) \<and> upto (j_ended_at r))"

lemma node_time_le: "node_time at now skew = (t, clk, late) \<Longrightarrow> t \<le> now"
  by (auto simp: node_time_def Let_def split: option.splits if_splits)

lemma running_open [simp]: "\<not> is_terminal JS_Running"
  by (simp add: is_terminal_def)

lemma node_stamp_bounds:
  assumes "node_stamp env job s b = (stamp, ctl, start)" "i64_min \<le> e_now env" "times_ok (e_now env) job"
    "s = JS_Running \<or> is_terminal s"
  shows "stamp \<le> e_now env" "\<forall>a. j_assigned_at job = Some a \<longrightarrow> a \<le> stamp"
    "is_terminal s \<Longrightarrow> \<forall>a. j_started_at job = Some a \<longrightarrow> a \<le> stamp"
    "\<forall>x. start = Some x \<longrightarrow> j_started_at job = None \<and> is_terminal s \<and> x \<le> stamp \<and> (\<forall>a. j_assigned_at job = Some a \<longrightarrow> a \<le> x)"
  using assms node_time_le
  by (auto simp: node_stamp_def Let_def times_ok_def or_else_def unwrap_or_def split: option.splits if_splits prod.splits)

lemma node_stamp_other:
  "\<not> (s = JS_Running \<or> is_terminal s) \<Longrightarrow> node_stamp env job s b = (stamp, ctl, start) \<Longrightarrow> start = None"
  by (auto simp: node_stamp_def Let_def split: option.splits)

text \<open>The times of a job stay in order. A report (not of the assignment itself) leaves assigned, started and ended in
  this order and none after the server's now, whatever times the node claims and whatever its clock's skew.\<close>

theorem times_ordered:
  assumes "job_by_id db (j_id job) = Some job" "times_ok (e_now env) job" "i64_min \<le> e_now env" "ob_state b \<noteq> JS_Assigned"
    "j_ended_at job = None"
  shows "\<exists>r. job_by_id (observed_jobs env job b db) (j_id job) = Some r \<and> times_ok (e_now env) r"
proof -
  obtain s reason detail where w: "end_words job b = (s, reason, detail)" by (metis prod_cases3)
  obtain stamp ctl start where n: "node_stamp env job s b = (stamp, ctl, start)" by (metis prod_cases3)
  obtain r where r: "job_by_id (observed_jobs env job b db) (j_id job) = Some r" "stamped s reason detail stamp start job r"
    using observed_row [OF assms(1), of env b] by (auto simp: w n)
  have a: "s \<noteq> JS_Assigned" using w assms(4) by (auto simp: end_words_def Let_def split: if_splits option.splits prod.splits)
  have "times_ok (e_now env) r"
  proof (cases "s = JS_Running \<or> is_terminal s")
    case True
    then show ?thesis
      using node_stamp_bounds [OF n assms(3,2) True] r(2) assms(2,5) a
      by (auto simp: times_ok_def stamped_def Let_def or_else_def split: option.splits if_splits)
  next
    case False
    then show ?thesis
      using node_stamp_other [OF False n] r(2) assms(2,5) a
      by (auto simp: times_ok_def stamped_def Let_def or_else_def split: option.splits)
  qed
  then show ?thesis using r(1) by blast
qed

section \<open>One winner\<close>

text \<open>C14: A queued job has one taker. Of the guarded writes on a queued job (assign, cancel, replace, fail), the first one
  that succeeds makes every later one fail and change nothing, in any order.\<close>

theorem queued_one_winner:
  assumes "distinct (map j_id db)" "set_job_state_if db i ''queued'' s1 reason1 detail1 at1 = (db1, True)" "s1 \<noteq> JS_Queued"
  shows "set_job_state_if db1 i ''queued'' s2 reason2 detail2 at2 = (db1, False)"
proof -
  let ?p = "\<lambda>r. with_id i r \<and> j_state r = ''queued''"
  have e: "db1 = upd ?p (put_state s1 reason1 detail1 at1) db" using assms(2) by (simp add: set_job_state_if_def Let_def)
  have "JobState_as_str s1 \<noteq> ''queued''" using assms(3) by (cases s1) simp_all
  then have taken: "\<not> ?p (put_state s1 reason1 detail1 at1 r)" for r by (simp add: put_state_def)
  have none: "\<forall>r\<in>set db1. \<not> ?p r"
  proof
    fix r assume "r \<in> set db1"
    then obtain x where "r = (if ?p x then put_state s1 reason1 detail1 at1 x else x)" unfolding e upd_def by (auto simp only: set_map)
    then show "\<not> ?p r" using taken [of x] by (metis (no_types, lifting))
  qed
  then have "hits ?p db1 = 0" by (simp add: hits_def filter_empty_conv)
  then show ?thesis using upd_none [OF none] by (simp add: set_job_state_if_def)
qed

section \<open>Receipts\<close>

text \<open>A receipt counts only for what it signs. The table marks a receipt as good only when the key enrolled for the
  node that runs the job verifies it and it names this job, this generation and the digest of the plan that was sent.\<close>

theorem receipt_binds:
  assumes "job_by_id (c_jobs c) (rf_job_id f) = Some job" "job_by_id (c_jobs (on_receipt key_of verify json node f c)) (rf_job_id f) = Some r"
    "j_receipt_ok job \<noteq> Some True" "j_receipt_ok r = Some True"
  shows "\<exists>key rc. key_of (j_node_id job) = Some key \<and> verify key (rf_receipt f) = Some rc \<and> rc_job_id rc = j_id job
    \<and> int (rc_generation rc) = j_generation job \<and> rc_plan_digest rc = j_plan_digest job"
proof -
  have i: "j_id job = rf_job_id f" using job_by_id_Some [OF assms(1)] by simp
  have g: "j_node_id job = node \<and> j_generation job = int (rf_generation f)"
    using assms by (auto simp: on_receipt_def split: if_splits)
  moreover obtain key where k: "key_of node = Some key"
    using assms by (auto simp: on_receipt_def split: if_splits option.splits)
  let ?rc = "receipt_checked verify key job f"
  let ?db = "set_job_receipt (c_jobs c) (rf_job_id f) (json (rf_receipt f)) (?rc \<noteq> None)"
  have row: "job_by_id ?db (rf_job_id f) = Some (job \<lparr> j_receipt_json := Some (json (rf_receipt f)), j_receipt_ok := Some (?rc \<noteq> None) \<rparr>)"
    unfolding set_job_receipt_def by (rule row_upd [OF assms(1)]) simp
  have out: "j_receipt_ok y = Some (?rc \<noteq> None)" if "job_by_id (set_job_outputs ?db (rf_job_id f) gen o1) (rf_job_id f) = Some y" for gen o1 y
    using that row unfolding set_job_outputs_def by (subst (asm) job_by_id_upd) (auto split: if_splits)
  have "?rc \<noteq> None"
    using assms(2,4) row out g i k assms(1) by (auto simp: on_receipt_def Let_def split: if_splits)
  then show ?thesis using k g by (auto simp: receipt_checked_def split: option.splits if_splits)
qed

end
