(* ===== verification/Job_Cases.thy ===== *)
theory Job_Cases
  imports Job_Times "HOL-Library.Code_Target_Numeral"
begin

text \<open>
  Concrete runs of a server: witnesses for the properties of \<open>Job_Rules\<close> and \<open>Job_Times\<close>, and two places where
  the code does less than its comments say.
\<close>

section \<open>A server with one job\<close>

definition case_env :: Env where
  "case_env = \<lparr> e_now = 1000, e_skew = Some 0, e_last_seq = 7, e_followed = (\<lambda>_. False), e_node_name = (\<lambda>_. None),
     e_tuning = Tuning_default \<rparr>"

definition server_with :: "JobRow list \<Rightarrow> Ctrl" where
  "server_with rows = \<lparr> c_jobs = rows, c_health = (\<lambda>_. NodeHealth_default), c_events = [], c_messages = [], c_asks = [] \<rparr>"

definition running_job :: JobRow where
  "running_job = blank_job \<lparr> j_state := ''running'', j_assigned_at := Some 500, j_started_at := Some 510 \<rparr>"

definition done_job :: JobRow where
  "done_job = running_job \<lparr> j_state := ''done'', j_exit_code := Some 0, j_ended_at := Some 900 \<rparr>"

definition case_node :: NodeFacts where
  "case_node = \<lparr> nf_id = ''n1'', nf_name = ''node one'', nf_last_seen = Some 100, nf_enrolled_at = 50, nf_online = False \<rparr>"

definition report_of :: "nat \<Rightarrow> JobState \<Rightarrow> StateUpdate" where
  "report_of g st = \<lparr> su_job_id = ''0000aaaa'', su_generation = g, su_state = st, su_reason = Some ''node_restart'', su_detail = None,
     su_at = 950, su_exit = None, su_src = None, su_log_seq = 0, su_outputs = None, su_queue = None \<rparr>"

definition obs_of :: "JobState \<Rightarrow> Obs" where
  "obs_of st = \<lparr> ob_job_id = ''0000aaaa'', ob_generation = 1, ob_state = st, ob_reason = Some ''node_restart'', ob_detail = None,
     ob_exit = None, ob_src = None, ob_queue = None, ob_at = Some 950, ob_started_at = None \<rparr>"

lemma one_job:
  "job_by_id [running_job] ''0000aaaa'' = Some running_job" "job_by_id [done_job] ''0000aaaa'' = Some done_job"
  "j_id running_job = ''0000aaaa''" "j_id done_job = ''0000aaaa''" "j_plan running_job \<noteq> None" "j_plan done_job \<noteq> None"
  by code_simp+

lemma table_ok_one: "j_plan r \<noteq> None \<Longrightarrow> table_ok (c_jobs (server_with [r]))"
  by (auto simp: server_with_def table_ok_def plans_ok_def job_by_id_def split: if_splits)

lemma jobs_server_with [simp]: "c_jobs (server_with rows) = rows"
  by (simp add: server_with_def)

section \<open>Witnesses\<close>


definition blank_new :: NewJob where
  "blank_new = \<lparr> nj_plan = blank_plan, nj_client_job_id = ''c1'', nj_session_id = Some ''s1'', nj_request_sha256 = [],
     nj_detach = True, nj_retry_interrupted = False, nj_ctl = JobCtl_default \<lparr> ct_retries := 2 \<rparr> \<rparr>"


text \<open>A receipt of the first attempt.\<close>

definition case_receipt :: Receipt where
  "case_receipt = \<lparr> rc_v = 1, rc_job_id = ''0000aaaa'', rc_attempt = 1, rc_generation = 1, rc_plan_digest = ''sha256:0'',
     rc_node_fp = ''fp'', rc_controller_fp = ''cfp'', rc_workspace_id = ''w1'', rc_argv_sha256 = ''a'', rc_env_names = [],
     rc_src = None, rc_tools = [], rc_boot_id = ''b'', rc_started_at = Some 510, rc_ended_at = 900, rc_state = JS_Done,
     rc_exit = None, rc_log = \<lparr> rl_sha256 = ''l'', rl_bytes = 3, rl_truncated = False \<rparr>, rc_artifacts = [],
     rc_secret_env = [], rc_tools_used = [] \<rparr>"

definition case_receipt_frame :: ReceiptFrame where
  "case_receipt_frame = \<lparr> rf_job_id = ''0000aaaa'', rf_generation = 1, rf_receipt = \<lparr> sr_body = ''{}'', sr_sig = ''s'' \<rparr> \<rparr>"

definition key_n1 :: "string \<Rightarrow> string option" where
  "key_n1 node = (if node = ''n1'' then Some ''key1'' else None)"

definition verify_1 :: "string \<Rightarrow> SignedReceipt \<Rightarrow> Receipt option" where
  "verify_1 key sr = (if key = ''key1'' \<and> sr_sig sr = ''s'' then Some case_receipt else None)"

theorem superseded_attempt_silent_witness:
  "on_state case_env ''n1'' (report_of 1 JS_Done) (server_with [done_job \<lparr> j_generation := 2 \<rparr>])
      = ask (Ask_Kick ''n1'') (server_with [done_job \<lparr> j_generation := 2 \<rparr>])
    \<and> on_receipt key_n1 verify_1 sr_body ''n1'' case_receipt_frame (server_with [done_job \<lparr> j_generation := 2 \<rparr>])
      = server_with [done_job \<lparr> j_generation := 2 \<rparr>]"
proof -
  let ?r = "done_job \<lparr> j_generation := 2 \<rparr>"
  have s: "ctl_steps (server_with [?r]) (server_with [?r])" by simp
  have f: "rf_job_id case_receipt_frame = su_job_id (report_of 1 JS_Done)" "rf_generation case_receipt_frame = su_generation (report_of 1 JS_Done)"
    by (simp_all add: case_receipt_frame_def report_of_def)
  have j: "job_by_id (c_jobs (server_with [?r])) (su_job_id (report_of 1 JS_Done)) = Some ?r"
    by (simp add: job_by_id_def with_id_def report_of_def one_job)
  have t: "is_terminal (su_state (report_of 1 JS_Done))" by (simp add: report_of_def is_terminal_def)
  show ?thesis
    using superseded_attempt_silent [OF s table_ok_one j _ f, of case_env "''n1''" key_n1 verify_1 sr_body] t one_job(6)
    by (simp add: report_of_def)
qed


theorem times_ordered_witness:
  "\<exists>r. job_by_id (observed_jobs case_env running_job (obs_of JS_Done) [running_job]) ''0000aaaa'' = Some r \<and> times_ok 1000 r"
proof -
  have h: "times_ok (e_now case_env) running_job" "i64_min \<le> e_now case_env" "ob_state (obs_of JS_Done) \<noteq> JS_Assigned"
    "j_ended_at running_job = None" "e_now case_env = 1000" by code_simp+
  have j: "job_by_id [running_job] (j_id running_job) = Some running_job" by (simp add: one_job)
  show ?thesis using times_ordered [OF j h(1-4)] unfolding h(5) one_job(3) .
qed

theorem queued_one_winner_witness:
  "cancel_if_queued (fst (assign_if_queued [blank_job] ''0000aaaa'' 600)) ''0000aaaa'' 601
    = (fst (assign_if_queued [blank_job] ''0000aaaa'' 600), False)"
proof -
  have d: "distinct (map j_id [blank_job])" by simp
  have a: "set_job_state_if [blank_job] ''0000aaaa'' ''queued'' JS_Assigned None None 600
      = (fst (assign_if_queued [blank_job] ''0000aaaa'' 600), True)" by code_simp
  show ?thesis using queued_one_winner [OF d a] by (simp add: cancel_if_queued_def)
qed

theorem receipt_binds_witness:
  "\<exists>key rc. key_n1 ''n1'' = Some key \<and> verify_1 key (rf_receipt case_receipt_frame) = Some rc \<and> rc_job_id rc = ''0000aaaa''
    \<and> int (rc_generation rc) = 1 \<and> rc_plan_digest rc = ''sha256:0''"
proof -
  let ?r = "done_job \<lparr> j_receipt_json := Some ''{}'', j_receipt_ok := Some True \<rparr>"
  have h: "rf_job_id case_receipt_frame = ''0000aaaa''" "j_receipt_ok done_job \<noteq> Some True" "j_receipt_ok ?r = Some True"
    "j_node_id done_job = ''n1''" "j_generation done_job = 1" "j_plan_digest done_job = ''sha256:0''" by code_simp+
  have j: "job_by_id (c_jobs (server_with [done_job])) (rf_job_id case_receipt_frame) = Some done_job" by (simp add: h one_job)
  have r: "job_by_id (c_jobs (on_receipt key_n1 verify_1 sr_body ''n1'' case_receipt_frame (server_with [done_job])))
      (rf_job_id case_receipt_frame) = Some ?r" by code_simp
  show ?thesis using receipt_binds [OF j r h(2,3)] unfolding h(4-6) one_job(4) .
qed

section \<open>Where the code does less\<close>

text \<open>The sweep of lost nodes reads its list first and then writes each row without a compare-and-set: a job whose end
  arrived in between is overwritten and, with a retry left, runs again.\<close>

theorem lost_sweep_reruns_ended_job:
  "(case job_by_id (c_jobs (lose_job case_env case_node 15 (server_with [done_job]) running_job)) ''0000aaaa'' of
      Some r \<Rightarrow> (j_state r, j_attempt r, j_generation r) | None \<Rightarrow> ([], 0, 0)) = (''queued'', 2, 2)"
  by code_simp

text \<open>A cancel without \<open>--force\<close> that is refused because the job started still marks the job as cancelled by its
  requester: when it later ends cancelled for another reason (its node is removed), no message is sent.\<close>

theorem refused_cancel_silences:
  assumes "job_by_id (c_jobs c) i = Some r" "\<not> row_terminal r" "j_state r \<noteq> ''queued''" "\<not> j_node_queued r" "j_plan r \<noteq> None"
    "\<not> ct_cancelled_by_requester (j_ctl r)"
  shows "\<exists>c' r'. cancel_one env online (j_requested_by r) i True c = (c', Inl CE_Job_Started) \<and> job_by_id (c_jobs c') i = Some r'
    \<and> j_state r' = j_state r \<and> \<not> wants_message env' (r' \<lparr> j_state := ''cancelled'', j_reason := Some ''node_removed'' \<rparr>)"
proof -
  have i: "j_id r = i" using job_by_id_Some [OF assms(1)] by simp
  obtain p where p: "j_plan r = Some p" using assms(5) by blast
  let ?ctl = "(j_ctl r) \<lparr> ct_cancelled_by_requester := True \<rparr>"
  let ?db = "upd (with_id i) (\<lambda>x. x \<lparr> j_plan := Some p, j_ctl := ?ctl \<rparr>) (c_jobs c)"
  let ?r = "r \<lparr> j_plan := Some p, j_ctl := ?ctl \<rparr>"
  have s: "set_job_ctl (c_jobs c) i ?ctl = Some ?db" by (simp add: set_job_ctl_def assms(1) p)
  have j: "job_by_id ?db i = Some ?r" by (rule row_upd [OF assms(1)]) simp
  have "cancel_one env online (j_requested_by r) i True c = (c \<lparr> c_jobs := ?db \<rparr>, Inl CE_Job_Started)"
    using assms i s j by (simp add: cancel_one_def cancel_read_def cancel_sent_def Let_def)
  moreover have "\<not> wants_message env' (?r \<lparr> j_state := ''cancelled'', j_reason := Some ''node_removed'' \<rparr>)"
    by (simp add: wants_message_def Let_def)
  ultimately show ?thesis using j by (intro exI [of _ "c \<lparr> c_jobs := ?db \<rparr>"] exI [of _ ?r]) simp
qed

theorem refused_cancel_silences_witness:
  "\<exists>c' r'. cancel_one case_env (\<lambda>_. True) ''agent:w1'' ''0000aaaa'' True (server_with [running_job]) = (c', Inl CE_Job_Started)
    \<and> job_by_id (c_jobs c') ''0000aaaa'' = Some r' \<and> j_state r' = ''running''
    \<and> \<not> wants_message case_env (r' \<lparr> j_state := ''cancelled'', j_reason := Some ''node_removed'' \<rparr>)"
proof -
  have h: "\<not> row_terminal running_job" "j_state running_job \<noteq> ''queued''" "\<not> j_node_queued running_job"
    "\<not> ct_cancelled_by_requester (j_ctl running_job)" "j_requested_by running_job = ''agent:w1''" "j_state running_job = ''running''"
    by code_simp+
  have j: "job_by_id (c_jobs (server_with [running_job])) ''0000aaaa'' = Some running_job" by (simp add: one_job)
  show ?thesis using refused_cancel_silences [OF j h(1-3) one_job(5) h(4)] unfolding h(5,6) .
qed

end
