(* ===== verification/Queue_Store.thy ===== *)
theory Queue_Store
  imports Queue_View "HOL-Library.AList"
begin

text \<open>
  What the node queue remembers across restarts (\<open>k2-node/src/queue_store.rs\<close>): the five tables of
  \<open>queue.sqlite\<close> as lists of rows under their primary keys, the UTC day of a time, nearest-rank percentiles, and
  the rotation written as keys of \<open>meta\<close> and read back. \<open>INSERT \<dots> ON CONFLICT DO UPDATE\<close> is an update of the list in
  place. I/O errors of the database are left out.
\<close>

section \<open>Days and percentiles\<close>

definition pad_left :: "nat \<Rightarrow> string \<Rightarrow> string" where
  "pad_left w s = replicate (w - length s) (CHR ''0'') @ s"

text \<open>\<open>{:0w}\<close> of a signed number: the sign counts in the width.\<close>

definition fmt_int :: "nat \<Rightarrow> int \<Rightarrow> string" where
  "fmt_int w n = (if n < 0 then CHR ''-'' # pad_left (w - 1) (digits_of (nat (- n))) else pad_left w (digits_of (nat n)))"

definition civil_of :: "int \<Rightarrow> int \<times> int \<times> int" where
  "civil_of t =
     (let days = t div 86400;
          z = days + 719468;
          era = z div 146097;
          doe = z - era * 146097;
          yoe = (doe - doe div 1460 + doe div 36524 - doe div 146096) div 365;
          y = yoe + era * 400;
          doy = doe - (365 * yoe + yoe div 4 - yoe div 100);
          mp = (5 * doy + 2) div 153;
          d = doy - (153 * mp + 2) div 5 + 1;
          m = (if mp < 10 then mp + 3 else mp - 9)
      in (if m \<le> 2 then y + 1 else y, m, d))"

definition day_of :: "int \<Rightarrow> string" where
  "day_of t = (case civil_of t of (y, m, d) \<Rightarrow> fmt_int 4 y @ ''-'' @ fmt_int 2 m @ ''-'' @ fmt_int 2 d)"

definition div_ceil :: "nat \<Rightarrow> nat \<Rightarrow> nat" where
  "div_ceil a b = (a + b - 1) div b"

definition nearest_rank :: "nat \<Rightarrow> nat list \<Rightarrow> nat" where
  "nearest_rank p s = s ! (min (div_ceil (p * length s) 100 - 1) (length s - 1))"

definition percentiles :: "nat list \<Rightarrow> (nat \<times> nat) option" where
  "percentiles samples = (if samples = [] then None
     else let s = sort samples in Some (nearest_rank 50 s, nearest_rank 90 s))"

section \<open>The tables\<close>

record DayRow =
  dy_cpu_secs :: nat
  dy_wall_secs :: nat
  dy_jobs :: nat

record DurRow =
  du_samples :: "nat list"
  du_p50 :: nat
  du_p90 :: nat

record AskRow =
  ak_rowid :: nat
  ak_slot :: nat
  ak_cpu :: nat
  ak_mem :: nat
  ak_last_at :: int

record QueueStore =
  qs_usage :: "(nat \<times> nat \<times> int) list"
  qs_day :: "((nat \<times> string) \<times> DayRow) list"
  qs_durations :: "((nat \<times> string) \<times> DurRow) list"
  qs_asks :: "AskRow list"
  qs_meta :: "(string \<times> string) list"

definition empty_store :: QueueStore where
  "empty_store = \<lparr> qs_usage = [], qs_day = [], qs_durations = [], qs_asks = [], qs_meta = [] \<rparr>"

definition MAX_SAMPLES :: nat where "MAX_SAMPLES = 20"

definition collect_bt :: "('k::linorder \<times> 'v) list \<Rightarrow> ('k, 'v) btree" where
  "collect_bt es = foldl (\<lambda>m (k, v). bt_insert k v m) [] es"

definition store_usage :: "QueueStore \<Rightarrow> (nat, nat \<times> int) btree" where
  "store_usage s = collect_bt (qs_usage s)"

definition set_usage :: "QueueStore \<Rightarrow> nat \<Rightarrow> nat \<Rightarrow> int \<Rightarrow> QueueStore" where
  "set_usage s slot u at = s \<lparr> qs_usage := AList.update slot (u, at) (qs_usage s) \<rparr>"

definition add_day :: "QueueStore \<Rightarrow> nat \<Rightarrow> string \<Rightarrow> nat \<Rightarrow> nat \<Rightarrow> nat \<Rightarrow> QueueStore" where
  "add_day s slot day cpu wall jobs =
     (let row = (case map_of (qs_day s) (slot, day) of
          Some r \<Rightarrow> r \<lparr> dy_cpu_secs := dy_cpu_secs r + cpu, dy_wall_secs := dy_wall_secs r + wall, dy_jobs := dy_jobs r + jobs \<rparr>
        | None \<Rightarrow> \<lparr> dy_cpu_secs = cpu, dy_wall_secs = wall, dy_jobs = jobs \<rparr>)
      in s \<lparr> qs_day := AList.update (slot, day) row (qs_day s) \<rparr>)"

definition day_cpu_secs :: "QueueStore \<Rightarrow> nat \<Rightarrow> string \<Rightarrow> nat" where
  "day_cpu_secs s slot day = (case map_of (qs_day s) (slot, day) of Some r \<Rightarrow> dy_cpu_secs r | None \<Rightarrow> 0)"

definition keep_last :: "nat \<Rightarrow> 'a list \<Rightarrow> 'a list" where
  "keep_last n xs = (if n < length xs then drop (length xs - n) xs else xs)"

definition add_duration :: "QueueStore \<Rightarrow> nat \<Rightarrow> string \<Rightarrow> nat \<Rightarrow> QueueStore" where
  "add_duration s slot cmd secs =
     (let prev = (case map_of (qs_durations s) (slot, cmd) of Some r \<Rightarrow> du_samples r | None \<Rightarrow> []);
          samples = keep_last MAX_SAMPLES (prev @ [secs])
      in (case percentiles samples of
            Some (p50, p90) \<Rightarrow> s \<lparr> qs_durations :=
              AList.update (slot, cmd) \<lparr> du_samples = samples, du_p50 = p50, du_p90 = p90 \<rparr> (qs_durations s) \<rparr>
          | None \<Rightarrow> s))"

definition store_duration :: "QueueStore \<Rightarrow> nat \<Rightarrow> string \<Rightarrow> (nat \<times> nat) option" where
  "store_duration s slot cmd = map_option (\<lambda>r. (du_p50 r, du_p90 r)) (map_of (qs_durations s) (slot, cmd))"

section \<open>Job sizes asked for\<close>

definition ask_is :: "nat \<Rightarrow> nat \<Rightarrow> nat \<Rightarrow> AskRow \<Rightarrow> bool" where
  "ask_is slot cpu mem r \<longleftrightarrow> ak_slot r = slot \<and> ak_cpu r = cpu \<and> ak_mem r = mem"

text \<open>\<open>ORDER BY last_at DESC, rowid DESC\<close>.\<close>

definition newest_asks :: "AskRow list \<Rightarrow> nat \<Rightarrow> AskRow list" where
  "newest_asks rows slot = sort_key (\<lambda>r. (- ak_last_at r, - int (ak_rowid r))) (filter (\<lambda>r. ak_slot r = slot) rows)"

definition upsert_ask :: "nat \<Rightarrow> nat \<Rightarrow> nat \<Rightarrow> int \<Rightarrow> AskRow list \<Rightarrow> AskRow list" where
  "upsert_ask slot cpu mem at rows =
     (if list_ex (ask_is slot cpu mem) rows
      then map (\<lambda>r. if ask_is slot cpu mem r then r \<lparr> ak_last_at := at \<rparr> else r) rows
      else rows @ [\<lparr> ak_rowid = Suc (fold max (map ak_rowid rows) 0), ak_slot = slot, ak_cpu = cpu, ak_mem = mem, ak_last_at = at \<rparr>])"

definition add_ask :: "QueueStore \<Rightarrow> nat \<Rightarrow> nat \<Rightarrow> nat \<Rightarrow> int \<Rightarrow> QueueStore" where
  "add_ask s slot cpu mem at =
     (let rows = upsert_ask slot cpu mem at (qs_asks s);
          keep = map ak_rowid (take MAX_QUOTES (newest_asks rows slot))
      in s \<lparr> qs_asks := filter (\<lambda>r. ak_slot r \<noteq> slot \<or> ak_rowid r \<in> set keep) rows \<rparr>)"

definition asks :: "QueueStore \<Rightarrow> nat \<Rightarrow> (nat \<times> nat) list" where
  "asks s slot = map (\<lambda>r. (ak_cpu r, ak_mem r)) (newest_asks (qs_asks s) slot)"

section \<open>The rotation\<close>

definition Rotation_default :: Rotation where
  "Rotation_default = \<lparr> rot_last_slot = None, rot_last_ws = [], rot_last_submitter = [], rot_last_line = None \<rparr>"

definition parse_slot :: "string \<Rightarrow> nat option" where
  "parse_slot s = parse_unsigned 255 s"

definition split_slot :: "string \<Rightarrow> (nat \<times> string) option" where
  "split_slot rest = (case split_once (CHR '':'') rest of
     None \<Rightarrow> None | Some (s, w) \<Rightarrow> map_option (\<lambda>s. (s, w)) (parse_slot s))"

definition read_meta :: "Rotation \<Rightarrow> string \<times> string \<Rightarrow> Rotation" where
  "read_meta rot = (\<lambda>(k, v).
     if k = ''last_served'' then rot \<lparr> rot_last_slot := parse_slot v \<rparr>
     else case Option.bind (strip_prefix ''last_served_ws:'' k) parse_slot of
       Some slot \<Rightarrow> rot \<lparr> rot_last_ws := bt_insert slot v (rot_last_ws rot) \<rparr>
     | None \<Rightarrow>
         if k = ''last_served_line'' then rot \<lparr> rot_last_line := Line_parse v \<rparr>
         else case or_else (strip_prefix ''last_served_submitter:'' k) (strip_prefix ''last_served_session:'' k) of
           None \<Rightarrow> rot
         | Some rest \<Rightarrow>
             (case split_slot rest of
                None \<Rightarrow> rot
              | Some key \<Rightarrow>
                  if starts_with k ''last_served_submitter:'' \<or> bt_get (rot_last_submitter rot) key = None
                  then rot \<lparr> rot_last_submitter := bt_insert key v (rot_last_submitter rot) \<rparr> else rot))"

definition served_key :: "string \<times> string \<Rightarrow> bool" where
  "served_key e = starts_with (fst e) ''last_served''"

definition read_rotation :: "QueueStore \<Rightarrow> Rotation" where
  "read_rotation s = foldl read_meta Rotation_default (filter served_key (qs_meta s))"

definition ws_key :: "nat \<Rightarrow> string" where
  "ws_key slot = ''last_served_ws:'' @ digits_of slot"

definition submitter_key :: "nat \<times> string \<Rightarrow> string" where
  "submitter_key k = ''last_served_submitter:'' @ digits_of (fst k) @ '':'' @ snd k"

definition rotation_rows :: "Rotation \<Rightarrow> (string \<times> string) list" where
  "rotation_rows rot =
     (case rot_last_slot rot of Some s \<Rightarrow> [(''last_served'', digits_of s)] | None \<Rightarrow> [])
     @ map (\<lambda>e. (ws_key (fst e), snd e)) (rot_last_ws rot)
     @ map (\<lambda>e. (submitter_key (fst e), snd e)) (rot_last_submitter rot)
     @ (case rot_last_line rot of Some l \<Rightarrow> [(''last_served_line'', Line_as_str l)] | None \<Rightarrow> [])"

text \<open>A second row of a key is refused, and the transaction is rolled back.\<close>

fun insert_meta :: "(string \<times> string) list \<Rightarrow> (string \<times> string) list \<Rightarrow> (string \<times> string) list option" where
  "insert_meta t [] = Some t"
| "insert_meta t (e # es) = (if fst e \<in> set (map fst t) then None else insert_meta (t @ [e]) es)"

definition set_rotation :: "QueueStore \<Rightarrow> Rotation \<Rightarrow> QueueStore option" where
  "set_rotation s rot = map_option (\<lambda>m. s \<lparr> qs_meta := m \<rparr>)
     (insert_meta (filter (\<lambda>e. \<not> served_key e) (qs_meta s)) (rotation_rows rot))"

section \<open>Servers that leave or change places\<close>

definition store_forget :: "QueueStore \<Rightarrow> nat \<Rightarrow> QueueStore option" where
  "store_forget s slot =
     (let s1 = s \<lparr> qs_usage := filter (\<lambda>e. fst e \<noteq> slot) (qs_usage s),
                   qs_day := filter (\<lambda>e. fst (fst e) \<noteq> slot) (qs_day s),
                   qs_durations := filter (\<lambda>e. fst (fst e) \<noteq> slot) (qs_durations s),
                   qs_asks := filter (\<lambda>r. ak_slot r \<noteq> slot) (qs_asks s) \<rparr>;
          rot = read_rotation s1
      in set_rotation s1 (rot \<lparr> rot_last_ws := bt_remove slot (rot_last_ws rot),
           rot_last_submitter := filter (\<lambda>e. fst (fst e) \<noteq> slot) (rot_last_submitter rot),
           rot_last_slot := (if rot_last_slot rot = Some slot then None else rot_last_slot rot) \<rparr>))"

definition PARK :: nat where "PARK = 100"

definition reslot :: "nat \<Rightarrow> nat \<Rightarrow> QueueStore \<Rightarrow> QueueStore" where
  "reslot to from s = (let f = (\<lambda>x. if x = from then to else x) in
     s \<lparr> qs_usage := map (\<lambda>(k, v). (f k, v)) (qs_usage s),
         qs_day := map (\<lambda>((k, d), v). ((f k, d), v)) (qs_day s),
         qs_durations := map (\<lambda>((k, c), v). ((f k, c), v)) (qs_durations s),
         qs_asks := map (\<lambda>r. r \<lparr> ak_slot := f (ak_slot r) \<rparr>) (qs_asks s) \<rparr>)"

definition swap_slots :: "QueueStore \<Rightarrow> nat \<Rightarrow> nat \<Rightarrow> string \<Rightarrow> QueueStore \<times> bool" where
  "swap_slots s a b i =
     (if map_of (qs_meta s) ''owner_change'' = Some i then (s, False)
      else let s1 = reslot b PARK (reslot a b (reslot PARK a s))
           in (s1 \<lparr> qs_meta := AList.update ''owner_change'' i (filter (\<lambda>e. \<not> served_key e) (qs_meta s1)) \<rparr>, True))"

end
