(* ===== verification/Store_Rules.thy ===== *)
theory Store_Rules
  imports Queue_Store
begin

text \<open>
  What the queue's memory promises: the rotation survives a restart, and two servers change places once per order.
\<close>

section \<open>Sorted entries\<close>

lemma bt_insert_last: "\<forall>e \<in> set m. fst e < k \<Longrightarrow> bt_insert k v m = m @ [(k, v)]"
  by (induction m) auto

lemma bt_inv_snoc: "bt_inv (m @ [e]) \<Longrightarrow> bt_inv m \<and> (\<forall>x \<in> set m. fst x < fst e)"
  by (auto simp: bt_inv_def bt_keys_def sorted_wrt_append)

lemma collect_sorted: "bt_inv m \<Longrightarrow> collect_bt m = m"
proof (induction m rule: rev_induct)
  case (snoc e m)
  then have "collect_bt m = m" "\<forall>x \<in> set m. fst x < fst e" using bt_inv_snoc by blast+
  then show ?case by (cases e) (simp add: collect_bt_def bt_insert_last)
qed (simp add: collect_bt_def)

section \<open>The keys of a rotation\<close>

lemma parse_slot_digits [simp]: "slot < 256 \<Longrightarrow> parse_slot (digits_of slot) = Some slot"
  by (simp add: parse_slot_def parse_digits_of)

lemma colon_digits [simp]: "CHR '':'' \<notin> set (digits_of n)"
  using digits_of_digits [of n] by (auto simp: list_all_iff is_ascii_digit_def byte_def)

lemma split_slot_key [simp]: "slot < 256 \<Longrightarrow> split_slot (digits_of slot @ CHR '':'' # ws) = Some (slot, ws)"
proof -
  assume "slot < 256"
  moreover have "split_once (CHR '':'') (digits_of slot @ CHR '':'' # ws) = Some (digits_of slot, ws)"
    by (simp add: split_once_Some_iff)
  ultimately show ?thesis by (simp add: split_slot_def)
qed

lemma digits_of_inject [simp]: "digits_of a = digits_of b \<longleftrightarrow> a = b"
  by (metis digits_val_digits_of)

lemma key_inject: "digits_of a @ CHR '':'' # w = digits_of b @ CHR '':'' # x \<longleftrightarrow> a = b \<and> w = x"
proof
  assume e: "digits_of a @ CHR '':'' # w = digits_of b @ CHR '':'' # x"
  have "split_once (CHR '':'') (digits_of a @ CHR '':'' # w) = Some (digits_of b, x)"
    unfolding e by (simp add: split_once_Some_iff)
  moreover have "split_once (CHR '':'') (digits_of a @ CHR '':'' # w) = Some (digits_of a, w)"
    by (simp add: split_once_Some_iff)
  ultimately show "a = b \<and> w = x" by simp
qed simp

lemma read_ws: "slot < 256 \<Longrightarrow> read_meta rot (ws_key slot, v) = rot \<lparr> rot_last_ws := bt_insert slot v (rot_last_ws rot) \<rparr>"
  by (simp add: read_meta_def ws_key_def)

lemma read_submitter: "fst k < 256 \<Longrightarrow> read_meta rot (submitter_key k, v) =
    rot \<lparr> rot_last_submitter := bt_insert k v (rot_last_submitter rot) \<rparr>"
  by (simp add: read_meta_def submitter_key_def or_else_def starts_with_def)

lemma read_slot: "slot < 256 \<Longrightarrow> read_meta rot (''last_served'', digits_of slot) = rot \<lparr> rot_last_slot := Some slot \<rparr>"
  by (simp add: read_meta_def)

lemma rotation_eq: "rot = \<lparr> rot_last_slot = a, rot_last_ws = b, rot_last_submitter = c, rot_last_line = d \<rparr>
    \<longleftrightarrow> rot_last_slot rot = a \<and> rot_last_ws rot = b \<and> rot_last_submitter rot = c \<and> rot_last_line rot = d"
  by (cases rot) simp

lemma read_line: "read_meta rot (''last_served_line'', Line_as_str l) = rot \<lparr> rot_last_line := Some l \<rparr>"
  by (simp add: read_meta_def line_wire_parse_print)

definition rotation_ok :: "Rotation \<Rightarrow> bool" where
  "rotation_ok rot \<longleftrightarrow> bt_inv (rot_last_ws rot) \<and> bt_inv (rot_last_submitter rot)
     \<and> (\<forall>s. rot_last_slot rot = Some s \<longrightarrow> s < 256) \<and> (\<forall>e \<in> set (rot_last_ws rot). fst e < 256)
     \<and> (\<forall>e \<in> set (rot_last_submitter rot). fst (fst e) < 256)"

lemma fold_ws:
  assumes "\<forall>e \<in> set es. fst e < 256"
  shows "foldl read_meta rot (map (\<lambda>e. (ws_key (fst e), snd e)) es) =
    rot \<lparr> rot_last_ws := foldl (\<lambda>m (k, v). bt_insert k v m) (rot_last_ws rot) es \<rparr>"
  using assms by (induction es arbitrary: rot) (auto simp: read_ws)

lemma fold_submitter:
  assumes "\<forall>e \<in> set es. fst (fst e) < 256"
  shows "foldl read_meta rot (map (\<lambda>e. (submitter_key (fst e), snd e)) es) =
    rot \<lparr> rot_last_submitter := foldl (\<lambda>m (k, v). bt_insert k v m) (rot_last_submitter rot) es \<rparr>"
  using assms by (induction es arbitrary: rot) (auto simp: read_submitter)

lemma fold_rows:
  assumes "rotation_ok rot"
  shows "foldl read_meta Rotation_default (rotation_rows rot) = rot"
proof -
  have w: "foldl (\<lambda>m (k, v). bt_insert k v m) [] (rot_last_ws rot) = rot_last_ws rot"
    and s: "foldl (\<lambda>m (k, v). bt_insert k v m) [] (rot_last_submitter rot) = rot_last_submitter rot"
    using collect_sorted [of "rot_last_ws rot"] collect_sorted [of "rot_last_submitter rot"] assms
    by (simp_all add: collect_bt_def rotation_ok_def)
  have "foldl read_meta r (case rot_last_slot rot of Some s \<Rightarrow> [(''last_served'', digits_of s)] | None \<Rightarrow> [])
      = (case rot_last_slot rot of Some s \<Rightarrow> r \<lparr> rot_last_slot := Some s \<rparr> | None \<Rightarrow> r)" for r
    using assms by (simp add: rotation_ok_def read_slot split: option.split del: append.simps)
  moreover have "foldl read_meta r (case rot_last_line rot of Some l \<Rightarrow> [(''last_served_line'', Line_as_str l)] | None \<Rightarrow> [])
      = (case rot_last_line rot of Some l \<Rightarrow> r \<lparr> rot_last_line := Some l \<rparr> | None \<Rightarrow> r)" for r
    by (simp add: read_line split: option.split)
  ultimately show ?thesis
    using assms w s unfolding rotation_rows_def foldl_append rotation_ok_def
    by (simp add: fold_ws fold_submitter Rotation_default_def rotation_eq split: option.split)
qed

lemma served_rows: "e \<in> set (rotation_rows rot) \<Longrightarrow> served_key e"
  by (auto simp: rotation_rows_def served_key_def starts_with_def ws_key_def submitter_key_def split: option.splits)

lemma insert_meta_total: "distinct (map fst (t @ es)) \<Longrightarrow> insert_meta t es = Some (t @ es)"
  by (induction es arbitrary: t) auto

lemma bt_keys_distinct: "bt_inv m \<Longrightarrow> distinct (map fst m)"
  by (simp add: bt_inv_def bt_keys_def strict_sorted_iff)

lemma ws_key_inject [simp]: "ws_key a = ws_key b \<longleftrightarrow> a = b"
  by (simp add: ws_key_def)

lemma submitter_key_inject [simp]: "submitter_key a = submitter_key b \<longleftrightarrow> a = b"
  by (simp add: submitter_key_def key_inject prod_eq_iff)

lemma key_apart: "ws_key a \<noteq> submitter_key b" "ws_key a \<noteq> ''last_served''" "submitter_key b \<noteq> ''last_served''"
    "ws_key a \<noteq> ''last_served_line''" "submitter_key b \<noteq> ''last_served_line''"
  by (simp_all add: ws_key_def submitter_key_def)

lemma rotation_keys_distinct:
  assumes "rotation_ok rot"
  shows "distinct (map fst (rotation_rows rot))"
proof -
  have "distinct (map ws_key (map fst (rot_last_ws rot)))" "distinct (map submitter_key (map fst (rot_last_submitter rot)))"
    using assms bt_keys_distinct unfolding rotation_ok_def distinct_map [of ws_key] distinct_map [of submitter_key]
    by (auto simp: inj_on_def)
  then show ?thesis
    by (auto simp: rotation_rows_def comp_def key_apart key_apart [symmetric] split: option.splits)
qed

text \<open>The rotation survives a restart: what is written is read back, and a write never fails on a table whose
  other keys are distinct.\<close>

theorem rotation_round_trip:
  assumes "rotation_ok rot" "distinct (map fst (qs_meta s))"
  shows "\<exists>s'. set_rotation s rot = Some s' \<and> read_rotation s' = rot"
proof -
  let ?t = "filter (\<lambda>e. \<not> served_key e) (qs_meta s)"
  have dis: "set (map fst ?t) \<inter> set (map fst (rotation_rows rot)) = {}"
    using served_rows by (fastforce simp: served_key_def)
  have "distinct (map fst ?t)" using assms(2) by (simp add: distinct_map_filter)
  then have m: "insert_meta ?t (rotation_rows rot) = Some (?t @ rotation_rows rot)"
    using rotation_keys_distinct [OF assms(1)] dis by (intro insert_meta_total) (simp only: map_append distinct_append)
  have "filter served_key (?t @ rotation_rows rot) = rotation_rows rot"
    using served_rows by (simp add: filter_empty_conv filter_id_conv)
  then show ?thesis using m fold_rows [OF assms(1)] by (simp add: set_rotation_def read_rotation_def)
qed

definition saved_turns :: Rotation where
  "saved_turns = \<lparr> rot_last_slot = Some 1, rot_last_ws = [(0, ''w''), (1, ''ws-a'')],
     rot_last_submitter = [((1, ''ws:a''), ''ws/s1/builder-a'')], rot_last_line = Some Line_Priority \<rparr>"

theorem rotation_round_trip_witness:
  "\<exists>s'. set_rotation (empty_store \<lparr> qs_meta := [(''last_served_line'', ''ci''), (''owner_change'', ''c1'')] \<rparr>) saved_turns = Some s'
     \<and> read_rotation s' = saved_turns"
  by (rule rotation_round_trip) (simp_all add: rotation_ok_def saved_turns_def bt_inv_def bt_keys_def empty_store_def)

section \<open>Servers that change places\<close>

definition traded :: "nat \<Rightarrow> nat \<Rightarrow> nat \<Rightarrow> nat" where
  "traded a b x = (if x = a then b else if x = b then a else x)"

lemma map_of_rename:
  assumes "inj_on f (insert x (fst ` set es))"
  shows "map_of (map (\<lambda>(k, v). (f k, v)) es) (f x) = map_of es x"
  using assms
proof (induction es)
  case (Cons e es)
  have "inj_on f (insert x (fst ` set es))" using Cons.prems by (rule inj_on_subset) auto
  then show ?case using Cons by (cases e) (auto simp: inj_on_def)
qed simp

lemma reslot_usage: "qs_usage (reslot to from s) = map (\<lambda>(k, v). (if k = from then to else k, v)) (qs_usage s)"
  by (simp add: reslot_def Let_def)

text \<open>An owner change makes two servers trade their usage, and only once per order: the same order again changes
  nothing.\<close>

theorem swap_trades_once:
  assumes "map_of (qs_meta s) ''owner_change'' \<noteq> Some i" "a \<noteq> b" "a \<noteq> PARK" "b \<noteq> PARK" "PARK \<notin> fst ` set (qs_usage s)"
    "swap_slots s a b i = (s', changed)" "x \<noteq> PARK"
  shows "changed \<and> map_of (qs_usage s') (traded a b x) = map_of (qs_usage s) x \<and> swap_slots s' a b i = (s', False)"
proof -
  let ?f = "\<lambda>x. let x1 = (if x = a then PARK else x); x2 = (if x1 = b then a else x1) in if x2 = PARK then b else x2"
  have s': "changed" "s' = (reslot b PARK (reslot a b (reslot PARK a s)))
      \<lparr> qs_meta := AList.update ''owner_change'' i (filter (\<lambda>e. \<not> served_key e) (qs_meta (reslot b PARK (reslot a b (reslot PARK a s))))) \<rparr>"
    using assms(1,6) by (auto simp: swap_slots_def Let_def)
  then have u: "qs_usage s' = map (\<lambda>(k, v). (?f k, v)) (qs_usage s)"
    by (simp add: reslot_usage Let_def case_prod_unfold comp_def)
  have t: "?f y = traded a b y" if "y \<noteq> PARK" for y using that assms(2-4) by (auto simp: traded_def)
  have "inj_on ?f (insert x (fst ` set (qs_usage s)))"
    using assms(2-5,7) by (intro inj_onI) (auto simp: Let_def split: if_splits)
  from map_of_rename [OF this] have "map_of (qs_usage s') (?f x) = map_of (qs_usage s) x" unfolding u .
  moreover have "map_of (qs_meta s') ''owner_change'' = Some i" unfolding s'(2) by (simp add: update_conv')
  ultimately show ?thesis using s'(1) t [OF assms(7)] by (simp add: swap_slots_def)
qed

definition ex_store :: QueueStore where
  "ex_store = empty_store \<lparr> qs_usage := [(0, 1000, 10), (2, 2000, 20), (1, 3000, 30)] \<rparr>"

theorem swap_trades_once_witness:
  "map_of (qs_usage (fst (swap_slots ex_store 0 2 ''c1''))) 2 = Some (1000, 10)"
proof -
  have "map_of (qs_usage (fst (swap_slots ex_store 0 2 ''c1''))) (traded 0 2 0) = map_of (qs_usage ex_store) 0"
    using swap_trades_once [of ex_store "''c1''" 0 2 _ _ 0, OF _ _ _ _ _ prod.collapse [symmetric]]
    by (simp add: ex_store_def empty_store_def PARK_def)
  then show ?thesis by (simp add: traded_def ex_store_def)
qed

end
