(* ===== verification/Ledger.thy ===== *)
theory Ledger
  imports Job_Ops
begin

text \<open>
  The job ledger of a node (\<open>k2-node/src/ledger.rs\<close>): the rows of its SQLite table and every statement on them, as
  functions on the list of rows in insert order. \<open>UNIQUE (job_id, generation)\<close> refuses a second row of a fence. The
  schema migrations and an I/O error of the database are not modelled; the columns read by hand only (class, ws_id,
  session_id, est_secs, tier) repeat the plan and are left out.
\<close>

section \<open>Rows\<close>

record LedgerRow =
  lr_job_id :: string
  lr_generation :: nat
  lr_attempt :: nat
  lr_plan_digest :: string
  lr_plan :: Plan
  lr_state :: JobState
  lr_reason :: "string option"
  lr_detail :: "string option"
  lr_created_at :: int
  lr_started_at :: "int option"
  lr_ended_at :: "int option"
  lr_exit :: "ExitInfo option"
  lr_log_seq :: nat
  lr_pid :: "nat option"
  lr_boot_id :: string
  lr_src :: "SrcRan option"
  lr_receipt :: "SignedReceipt option"
  lr_cleaned :: bool
  lr_outputs :: "Outputs option"
  lr_enqueued_at :: "int option"
  lr_run_json :: "string option"
  lr_seq :: nat

type_synonym ledger = "LedgerRow list"

record Clock =
  ck_now :: int
  ck_boot_id :: string

definition to_ledger_job :: "LedgerRow \<Rightarrow> LedgerJob" where
  "to_ledger_job r = \<lparr> lj_job_id = lr_job_id r, lj_generation = lr_generation r, lj_attempt = lr_attempt r,
     lj_plan_digest = lr_plan_digest r, lj_state = lr_state r, lj_reason = lr_reason r, lj_started_at = lr_started_at r,
     lj_ended_at = lr_ended_at r, lj_exit = lr_exit r, lj_log_seq = lr_log_seq r, lj_boot_id = lr_boot_id r \<rparr>"

section \<open>Statements\<close>

definition fence_is :: "string \<Rightarrow> nat \<Rightarrow> LedgerRow \<Rightarrow> bool" where
  "fence_is job g r \<longleftrightarrow> lr_job_id r = job \<and> lr_generation r = g"

definition lset :: "(LedgerRow \<Rightarrow> bool) \<Rightarrow> (LedgerRow \<Rightarrow> LedgerRow) \<Rightarrow> ledger \<Rightarrow> ledger" where
  "lset p f l = map (\<lambda>r. if p r then f r else r) l"

definition lhits :: "(LedgerRow \<Rightarrow> bool) \<Rightarrow> ledger \<Rightarrow> nat" where
  "lhits p l = length (filter p l)"

definition ledger_get :: "ledger \<Rightarrow> string \<Rightarrow> nat \<Rightarrow> LedgerRow option" where
  "ledger_get l job g = find (fence_is job g) l"

definition new_ledger_row :: "Assign \<Rightarrow> Clock \<Rightarrow> LedgerRow" where
  "new_ledger_row a ck = (let f = as_fence a in
     \<lparr> lr_job_id = fe_job_id f, lr_generation = fe_generation f, lr_attempt = fe_attempt f, lr_plan_digest = fe_plan_digest f,
       lr_plan = as_plan a, lr_state = JS_Preparing, lr_reason = None, lr_detail = None, lr_created_at = ck_now ck,
       lr_started_at = None, lr_ended_at = None, lr_exit = None, lr_log_seq = 0, lr_pid = None, lr_boot_id = ck_boot_id ck,
       lr_src = None, lr_receipt = None, lr_cleaned = False, lr_outputs = None, lr_enqueued_at = None, lr_run_json = None, lr_seq = 0 \<rparr>)"

text \<open>SQLite gives a new row the largest \<open>rowid\<close> plus one.\<close>

definition next_rowid :: "ledger \<Rightarrow> nat" where
  "next_rowid l = Suc (fold max (map lr_seq l) 0)"

definition ledger_insert_row :: "ledger \<Rightarrow> LedgerRow \<Rightarrow> ledger option" where
  "ledger_insert_row l r = (if ledger_get l (lr_job_id r) (lr_generation r) = None then Some (l @ [r \<lparr> lr_seq := next_rowid l \<rparr>]) else None)"

definition ledger_insert :: "ledger \<Rightarrow> Assign \<Rightarrow> Clock \<Rightarrow> ledger option" where
  "ledger_insert l a ck = ledger_insert_row l (new_ledger_row a ck)"

definition insert_queued :: "ledger \<Rightarrow> Assign \<Rightarrow> Clock \<Rightarrow> ledger option" where
  "insert_queued l a ck = ledger_insert_row l (new_ledger_row a ck
     \<lparr> lr_state := JS_Queued, lr_reason := Some NODE_QUEUED, lr_enqueued_at := Some (ck_now ck) \<rparr>)"

text \<open>\<open>NULL\<close> sorts first.\<close>

definition null_first :: "int option \<Rightarrow> nat \<times> int" where
  "null_first t = (case t of None \<Rightarrow> (0, 0) | Some x \<Rightarrow> (1, x))"

definition queued_rows :: "ledger \<Rightarrow> ledger" where
  "queued_rows l = sort_key (\<lambda>r. (null_first (lr_enqueued_at r), lr_job_id r, lr_generation r)) (filter (\<lambda>r. lr_state r = JS_Queued) l)"

definition dequeue :: "ledger \<Rightarrow> string \<Rightarrow> nat \<Rightarrow> Clock \<Rightarrow> ledger \<times> bool" where
  "dequeue l job g ck = (let p = (\<lambda>r. fence_is job g r \<and> lr_state r = JS_Queued)
     in (lset p (\<lambda>r. r \<lparr> lr_state := JS_Preparing, lr_reason := None, lr_detail := None, lr_boot_id := ck_boot_id ck \<rparr>) l, lhits p l = 1))"

definition cancel_queued :: "ledger \<Rightarrow> string \<Rightarrow> nat \<Rightarrow> string \<Rightarrow> string option \<Rightarrow> int \<Rightarrow> ledger \<times> bool" where
  "cancel_queued l job g reason detail at = (let p = (\<lambda>r. fence_is job g r \<and> lr_state r = JS_Queued)
     in (lset p (\<lambda>r. r \<lparr> lr_state := JS_Cancelled, lr_reason := Some reason, lr_detail := detail, lr_ended_at := Some at \<rparr>) l, lhits p l = 1))"

text \<open>The highest generation of a job.\<close>

definition ledger_latest :: "ledger \<Rightarrow> string \<Rightarrow> LedgerRow option" where
  "ledger_latest l job =
     (case sort_key (\<lambda>r. - int (lr_generation r)) (filter (\<lambda>r. lr_job_id r = job) l) of [] \<Rightarrow> None | r # _ \<Rightarrow> Some r)"

definition set_state :: "ledger \<Rightarrow> string \<Rightarrow> nat \<Rightarrow> JobState \<Rightarrow> string option \<Rightarrow> string option \<Rightarrow> ledger" where
  "set_state l job g s reason detail = lset (\<lambda>r. fence_is job g r \<and> \<not> is_terminal (lr_state r))
     (\<lambda>r. r \<lparr> lr_state := s, lr_reason := or_else reason (lr_reason r), lr_detail := or_else detail (lr_detail r) \<rparr>) l"

definition set_running :: "ledger \<Rightarrow> string \<Rightarrow> nat \<Rightarrow> nat \<Rightarrow> SrcRan option \<Rightarrow> int \<Rightarrow> ledger" where
  "set_running l job g pid src at = lset (fence_is job g)
     (\<lambda>r. r \<lparr> lr_state := JS_Running, lr_pid := Some pid, lr_src := src, lr_started_at := Some at \<rparr>) l"

definition ledger_pid :: "ledger \<Rightarrow> string \<Rightarrow> nat \<Rightarrow> nat option" where
  "ledger_pid l job g = Option.bind (ledger_get l job g) lr_pid"

definition set_src :: "ledger \<Rightarrow> string \<Rightarrow> nat \<Rightarrow> SrcRan \<Rightarrow> ledger" where
  "set_src l job g src = lset (fence_is job g) (\<lambda>r. r \<lparr> lr_src := Some src \<rparr>) l"

definition set_log_seq :: "ledger \<Rightarrow> string \<Rightarrow> nat \<Rightarrow> nat \<Rightarrow> ledger" where
  "set_log_seq l job g sq = lset (fence_is job g) (\<lambda>r. r \<lparr> lr_log_seq := sq \<rparr>) l"

definition set_receipt :: "ledger \<Rightarrow> string \<Rightarrow> nat \<Rightarrow> SignedReceipt \<Rightarrow> ledger" where
  "set_receipt l job g rc = lset (fence_is job g) (\<lambda>r. r \<lparr> lr_receipt := Some rc \<rparr>) l"

definition set_outputs :: "ledger \<Rightarrow> string \<Rightarrow> nat \<Rightarrow> Outputs \<Rightarrow> ledger" where
  "set_outputs l job g out = lset (fence_is job g) (\<lambda>r. r \<lparr> lr_outputs := Some out \<rparr>) l"

definition mark_cleaned :: "ledger \<Rightarrow> string \<Rightarrow> nat \<Rightarrow> ledger" where
  "mark_cleaned l job g = lset (fence_is job g) (\<lambda>r. r \<lparr> lr_cleaned := True \<rparr>) l"

definition set_run :: "ledger \<Rightarrow> string \<Rightarrow> nat \<Rightarrow> string \<Rightarrow> ledger" where
  "set_run l job g run_json = lset (\<lambda>r. fence_is job g r \<and> \<not> is_terminal (lr_state r)) (\<lambda>r. r \<lparr> lr_run_json := Some run_json \<rparr>) l"

text \<open>The exit is two columns; a row with neither has none.\<close>

definition exit_columns :: "ExitInfo option \<Rightarrow> ExitInfo option" where
  "exit_columns x = (case x of
     Some e \<Rightarrow> if xi_code e = None \<and> xi_signal e = None then None else Some e | None \<Rightarrow> None)"

definition ended_row :: "JobState \<Rightarrow> string option \<Rightarrow> string option \<Rightarrow> ExitInfo option \<Rightarrow> nat \<Rightarrow> int \<Rightarrow> LedgerRow \<Rightarrow> LedgerRow" where
  "ended_row s reason detail x log_seq at r = r \<lparr> lr_state := s, lr_reason := reason, lr_detail := detail,
     lr_exit := exit_columns x, lr_log_seq := log_seq, lr_ended_at := Some at, lr_pid := None \<rparr>"

definition ledger_finish :: "ledger \<Rightarrow> string \<Rightarrow> nat \<Rightarrow> JobState \<Rightarrow> string option \<Rightarrow> string option \<Rightarrow> ExitInfo option \<Rightarrow> nat \<Rightarrow> int
    \<Rightarrow> ledger \<times> bool" where
  "ledger_finish l job g s reason detail x log_seq at = (let p = (\<lambda>r. fence_is job g r \<and> \<not> is_terminal (lr_state r))
     in (lset p (ended_row s reason detail x log_seq at) l, lhits p l = 1))"

text \<open>The whole end in one transaction: nothing is written when the attempt had ended.\<close>

definition end_attempt :: "ledger \<Rightarrow> string \<Rightarrow> nat \<Rightarrow> JobState \<Rightarrow> string option \<Rightarrow> string option \<Rightarrow> ExitInfo option \<Rightarrow> nat \<Rightarrow> int
    \<Rightarrow> SrcRan option \<Rightarrow> Outputs option \<Rightarrow> SignedReceipt option \<Rightarrow> ledger \<times> bool" where
  "end_attempt l job g s reason detail x log_seq at src out rc =
     (case ledger_finish l job g s reason detail x log_seq at of
        (_, False) \<Rightarrow> (l, False)
      | (l1, True) \<Rightarrow>
          (let l2 = (case src of Some s \<Rightarrow> set_src l1 job g s | None \<Rightarrow> l1);
               l3 = (case out of Some x \<Rightarrow> set_outputs l2 job g x | None \<Rightarrow> l2)
           in (case rc of Some r \<Rightarrow> set_receipt l3 job g r | None \<Rightarrow> l3, True)))"

section \<open>Lists of rows\<close>

definition all_rows :: "ledger \<Rightarrow> ledger" where
  "all_rows l = sort_key (\<lambda>r. (- lr_created_at r, lr_job_id r)) l"

definition non_terminal :: "ledger \<Rightarrow> ledger" where
  "non_terminal l = filter (\<lambda>r. \<not> is_terminal (lr_state r)) (all_rows l)"

definition open_runs :: "ledger \<Rightarrow> string \<Rightarrow> ledger" where
  "open_runs l boot = filter (\<lambda>r. \<not> is_terminal (lr_state r) \<and> lr_state r \<noteq> JS_Queued \<and> lr_boot_id r = boot \<and> lr_run_json r \<noteq> None) l"

section \<open>After a reboot or a restart\<close>

definition reconcile_one :: "Clock \<Rightarrow> ledger \<times> (string \<times> nat) list \<Rightarrow> LedgerRow \<Rightarrow> ledger \<times> (string \<times> nat) list" where
  "reconcile_one ck = (\<lambda>(l, out) r.
     if lr_boot_id r \<noteq> ck_boot_id ck \<and> lr_state r \<noteq> JS_Queued
     then (fst (ledger_finish l (lr_job_id r) (lr_generation r) JS_Interrupted (Some ''node_reboot'') None None (lr_log_seq r) (ck_now ck)),
           out @ [(lr_job_id r, lr_generation r)])
     else (l, out))"

definition reconcile_boot :: "ledger \<Rightarrow> Clock \<Rightarrow> ledger \<times> (string \<times> nat) list" where
  "reconcile_boot l ck = foldl (reconcile_one ck) (l, []) (non_terminal l)"

definition interrupt_one :: "string \<Rightarrow> (string \<times> nat) list \<Rightarrow> Clock \<Rightarrow> ledger \<times> (string \<times> nat \<times> nat option) list \<Rightarrow> LedgerRow
    \<Rightarrow> ledger \<times> (string \<times> nat \<times> nat option) list" where
  "interrupt_one reason keep ck = (\<lambda>(l, out) r.
     if (lr_job_id r, lr_generation r) \<in> set keep then (l, out)
     else (fst (ledger_finish l (lr_job_id r) (lr_generation r) JS_Interrupted (Some reason) None None (lr_log_seq r) (ck_now ck)),
           out @ [(lr_job_id r, lr_generation r, lr_pid r)]))"

definition interrupt_open_except :: "ledger \<Rightarrow> string \<Rightarrow> (string \<times> nat) list \<Rightarrow> Clock \<Rightarrow> ledger \<times> (string \<times> nat \<times> nat option) list" where
  "interrupt_open_except l reason keep ck =
     foldl (interrupt_one reason keep ck) (l, []) (filter (\<lambda>r. \<not> is_terminal (lr_state r) \<and> lr_state r \<noteq> JS_Queued) l)"

definition interrupt_open :: "ledger \<Rightarrow> string \<Rightarrow> Clock \<Rightarrow> ledger \<times> (string \<times> nat \<times> nat option) list" where
  "interrupt_open l reason ck = interrupt_open_except l reason [] ck"

text \<open>Rows that ended before a time are deleted.\<close>

definition ledger_prune :: "ledger \<Rightarrow> int \<Rightarrow> ledger \<times> nat" where
  "ledger_prune l before = (let p = (\<lambda>r. case lr_ended_at r of Some t \<Rightarrow> t < before | None \<Rightarrow> False)
     in (filter (\<lambda>r. \<not> p r) l, lhits p l))"

section \<open>Fences\<close>

definition fences :: "ledger \<Rightarrow> (string \<times> nat) list" where
  "fences l = map (\<lambda>r. (lr_job_id r, lr_generation r)) l"

lemma fences_lset:
  assumes "\<And>r. lr_job_id (f r) = lr_job_id r \<and> lr_generation (f r) = lr_generation r"
  shows "fences (lset p f l) = fences l"
  using assms by (simp add: fences_def lset_def)

lemma get_None: "ledger_get l job g = None \<longleftrightarrow> (job, g) \<notin> set (fences l)"
  by (auto simp: ledger_get_def fences_def find_None_iff fence_is_def image_iff)

lemma get_Some: "ledger_get l job g = Some r \<Longrightarrow> r \<in> set l \<and> lr_job_id r = job \<and> lr_generation r = g"
  by (auto simp: ledger_get_def fence_is_def dest!: find_Some_iff')

lemma insert_row_fences: "ledger_insert_row l r = Some l' \<Longrightarrow> fences l' = fences l @ [(lr_job_id r, lr_generation r)] \<and> (lr_job_id r, lr_generation r) \<notin> set (fences l)"
  by (auto simp: ledger_insert_row_def get_None fences_def split: if_splits)

lemma get_lset:
  assumes "\<And>r. lr_job_id (f r) = lr_job_id r \<and> lr_generation (f r) = lr_generation r"
  shows "ledger_get (lset p f l) job g = map_option (\<lambda>r. if p r then f r else r) (ledger_get l job g)"
  using assms by (induction l) (auto simp: ledger_get_def lset_def fence_is_def)

lemma get_snoc:
  "ledger_get (l @ [r]) job g = (case ledger_get l job g of Some x \<Rightarrow> Some x | None \<Rightarrow> if fence_is job g r then Some r else None)"
  by (induction l) (simp_all add: ledger_get_def)

text \<open>With unique fences a guarded write hits one row or none.\<close>

lemma lhits_once:
  assumes "distinct (fences l)" "\<And>r. p r \<Longrightarrow> fence_is job g r"
  shows "lhits p l = (case ledger_get l job g of Some r \<Rightarrow> if p r then 1 else 0 | None \<Rightarrow> 0)"
  using assms(1)
proof (induction l)
  case (Cons r l)
  show ?case
  proof (cases "fence_is job g r")
    case True
    have "\<not> p x" if "x \<in> set l" for x
      using Cons.prems that True assms(2) [of x] by (auto simp: fences_def fence_is_def image_iff)
    then have "filter p l = []" by (simp add: filter_empty_conv)
    then show ?thesis using True by (simp add: lhits_def ledger_get_def)
  next
    case False
    then have "\<not> p r" using assms(2) by blast
    then show ?thesis using Cons False by (simp add: lhits_def ledger_get_def fences_def)
  qed
qed (simp add: lhits_def ledger_get_def)

end
