(* ===== verification/Node_State.thy ===== *)
theory Node_State
  imports Ledger Queue_Store Refusals
begin

text \<open>
  The state of a node that runs jobs (\<open>k2-node/src/node/mod.rs\<close>, \<open>node/tenant.rs\<close>, \<open>fairq.rs\<close>): the tenants (one
  per server, each with its ledger and its session's channel), the map of running jobs by slot and job id, and what
  the queue keeps. A \<open>HashMap\<close> is an association list; its iteration order is the list's. A spawned task is an entry
  of \<open>nd_tasks\<close>. What a node reads from the machine, its policy and its peers is the record \<open>NodeEnv\<close>, given to every
  operation: clocks, facts, the digest and signing functions, and the decay of usage (\<open>f64::powf\<close>).
\<close>

section \<open>The queue's state\<close>

record ShareInfo =
  shi_label :: string
  shi_limits :: ShareLimits
  shi_status :: ServerStatus

record RunMeta =
  rm_class :: JobClass
  rm_tier :: Tier
  rm_ws :: string
  rm_session :: "string option"
  rm_submitter :: "string option"
  rm_cmd_hash :: string
  rm_cpu :: nat
  rm_mem :: nat
  rm_exclusive :: bool
  rm_started_at :: int
  rm_started :: nat
  rm_accounted :: nat
  rm_est :: "(nat \<times> nat) option"
  rm_secret :: bool

type_synonym Key = "Slot \<times> string \<times> nat"

record FairQ =
  fq_store :: QueueStore
  fq_shares :: "(Slot, ShareInfo) btree"
  fq_protocol :: "(Slot, nat) btree"
  fq_priority :: "(Slot, bool) btree"
  fq_blocked :: "(Slot, string) btree"
  fq_gates :: "(Key \<times> nat) list"
  fq_runs :: "(Key \<times> RunMeta) list"
  fq_usage :: "(Slot, nat \<times> int) btree"
  fq_sent :: "(Key \<times> nat \<times> QueuePos) list"
  fq_rotation :: Rotation
  fq_last_persist :: int
  fq_day_cpu :: "(Slot \<times> string, nat) btree"
  fq_lingering :: "(Slot \<times> string) list"

section \<open>Running jobs, tenants and the node\<close>

record StopReason =
  stp_state :: JobState
  stp_reason :: string

record RunningJob =
  rj_generation :: nat
  rj_cpu_millis :: "nat option"
  rj_mem_bytes :: "nat option"
  rj_exclusive :: bool
  rj_stop :: "StopReason option"
  rj_seq :: nat
  rj_gate :: bool
  rj_workspace :: string
  rj_secret :: bool
  rj_port_block :: "nat option"
  rj_adoptable :: bool
  rj_rust :: "string list"

record NodeLimits =
  nl_cpu_millis :: "nat option"
  nl_mem_bytes :: "nat option"
  nl_max_parallel :: "nat option"

text \<open>\<open>nt_epoch\<close> is the hub's session (0: none), \<open>nt_room\<close> the free places of its channel, \<open>nt_sent\<close> what went into it.\<close>

record NodeTenant =
  nt_slot :: Slot
  nt_node_id :: string
  nt_controller_fp :: string
  nt_controller_label :: string
  nt_narrow :: NodeLimits
  nt_protocol :: nat
  nt_status :: "ServerStatus option"
  nt_ledger :: ledger
  nt_epoch :: nat
  nt_room :: nat
  nt_sent :: "StateUpdate list"

datatype Task =
  RunJob Slot Assign
| FinishJob Slot Assign JobState string string "SrcRan option" "Outputs option"

record Node =
  nd_tenants :: "NodeTenant list"
  nd_jobs :: "((Slot \<times> string) \<times> RunningJob) list"
  nd_job_seq :: nat
  nd_fairq :: FairQ
  nd_tasks :: "Task list"

record NodeEnv =
  ne_clock :: Clock
  ne_mono_ms :: nat
  ne_stopping :: bool
  ne_macos :: bool
  ne_cfg :: Config
  ne_cores :: nat
  ne_cpu_cap_percent :: nat
  ne_mem_cap_bytes :: nat
  ne_max_parallel :: nat
  ne_persisted :: NodeLimits
  ne_policy_error :: bool
  ne_control :: Control
  ne_unavailable :: "string list"
  ne_foreign_lock :: "string option"
  ne_disk_free :: nat
  ne_disk_floor :: nat
  ne_workspaces :: "string list"
  ne_network :: string
  ne_wall_network_none :: bool
  ne_tools :: "(string, string) btree"
  ne_installing :: bool
  ne_consistent :: "Assign \<Rightarrow> bool"
  ne_secret_refusal :: "Slot \<Rightarrow> (string \<times> string) option"
  ne_ledger_error :: string
  ne_node_fp :: string
  ne_argv_sha :: "string list \<Rightarrow> string"
  ne_sha_empty :: string
  ne_sign :: "Receipt \<Rightarrow> SignedReceipt option"
  ne_decay :: "nat \<Rightarrow> int \<Rightarrow> int \<Rightarrow> nat"

abbreviation ne_now :: "NodeEnv \<Rightarrow> int" where
  "ne_now env \<equiv> ck_now (ne_clock env)"

section \<open>Tenants\<close>

definition node_tenant :: "Node \<Rightarrow> Slot \<Rightarrow> NodeTenant option" where
  "node_tenant nd slot = find (\<lambda>t. nt_slot t = slot) (nd_tenants nd)"

definition on_tenant :: "Slot \<Rightarrow> (NodeTenant \<Rightarrow> NodeTenant) \<Rightarrow> Node \<Rightarrow> Node" where
  "on_tenant slot f nd = nd \<lparr> nd_tenants := map (\<lambda>t. if nt_slot t = slot then f t else t) (nd_tenants nd) \<rparr>"

definition ledger_of :: "Node \<Rightarrow> Slot \<Rightarrow> ledger" where
  "ledger_of nd slot = (case node_tenant nd slot of Some t \<Rightarrow> nt_ledger t | None \<Rightarrow> [])"

definition epoch_of :: "Node \<Rightarrow> Slot \<Rightarrow> nat" where
  "epoch_of nd slot = (case node_tenant nd slot of Some t \<Rightarrow> nt_epoch t | None \<Rightarrow> 0)"

definition put_ledger :: "Slot \<Rightarrow> ledger \<Rightarrow> Node \<Rightarrow> Node" where
  "put_ledger slot l = on_tenant slot (\<lambda>t. t \<lparr> nt_ledger := l \<rparr>)"

definition on_fairq :: "(FairQ \<Rightarrow> FairQ) \<Rightarrow> Node \<Rightarrow> Node" where
  "on_fairq f nd = nd \<lparr> nd_fairq := f (nd_fairq nd) \<rparr>"

text \<open>\<open>Hub::send\<close>: into the live session's channel, if there is one with room.\<close>

definition hub_send :: "StateUpdate \<Rightarrow> NodeTenant \<Rightarrow> NodeTenant \<times> bool" where
  "hub_send f t = (if nt_epoch t \<noteq> 0 \<and> 0 < nt_room t
     then (t \<lparr> nt_sent := nt_sent t @ [f], nt_room := nt_room t - 1 \<rparr>, True) else (t, False))"

definition tell :: "Slot \<Rightarrow> StateUpdate \<Rightarrow> Node \<Rightarrow> Node" where
  "tell slot f = on_tenant slot (\<lambda>t. fst (hub_send f t))"

definition speaks_tiers :: "NodeTenant \<Rightarrow> bool" where
  "speaks_tiers t \<longleftrightarrow> 5 \<le> nt_protocol t"

definition speaks_tiers2 :: "NodeTenant \<Rightarrow> bool" where
  "speaks_tiers2 t \<longleftrightarrow> 6 \<le> nt_protocol t"

section \<open>Operations of the queue's state\<close>

definition fq_set_share :: "Slot \<Rightarrow> ShareInfo option \<Rightarrow> FairQ \<Rightarrow> FairQ" where
  "fq_set_share slot share q = q \<lparr> fq_shares := (case share of Some s \<Rightarrow> bt_insert slot s (fq_shares q) | None \<Rightarrow> bt_remove slot (fq_shares q)) \<rparr>"

definition fq_set_protocol :: "Slot \<Rightarrow> nat option \<Rightarrow> FairQ \<Rightarrow> FairQ" where
  "fq_set_protocol slot p q = q \<lparr> fq_protocol := (case p of Some p \<Rightarrow> bt_insert slot p (fq_protocol q) | None \<Rightarrow> bt_remove slot (fq_protocol q)) \<rparr>"

definition protocol_of :: "FairQ \<Rightarrow> Slot \<Rightarrow> nat" where
  "protocol_of q slot = unwrap_or (bt_get (fq_protocol q) slot) 0"

definition fq_priority_of :: "FairQ \<Rightarrow> Slot \<Rightarrow> bool" where
  "fq_priority_of q slot = unwrap_or (bt_get (fq_priority q) slot) (slot = OWNER_SLOT)"

definition fq_set_priority :: "Slot \<Rightarrow> bool \<Rightarrow> FairQ \<Rightarrow> FairQ \<times> bool" where
  "fq_set_priority slot on q = (q \<lparr> fq_priority := bt_insert slot on (fq_priority q) \<rparr>, fq_priority_of q slot \<noteq> on)"

definition fq_set_blocked :: "Slot \<Rightarrow> string option \<Rightarrow> FairQ \<Rightarrow> FairQ" where
  "fq_set_blocked slot why q = q \<lparr> fq_blocked := (case why of Some w \<Rightarrow> bt_insert slot w (fq_blocked q) | None \<Rightarrow> bt_remove slot (fq_blocked q)) \<rparr>"

definition fq_shared :: "FairQ \<Rightarrow> bool" where
  "fq_shared q \<longleftrightarrow> 2 \<le> length (filter (\<lambda>e. shi_status (snd e) = St_Active) (fq_shares q))"

definition cmd_hash :: "NodeEnv \<Rightarrow> string list \<Rightarrow> string" where
  "cmd_hash env argv = take 16 (ne_argv_sha env argv)"

definition fence_key :: "Slot \<Rightarrow> Assign \<Rightarrow> Key" where
  "fence_key slot a = (slot, fe_job_id (as_fence a), fe_generation (as_fence a))"

definition fq_queued :: "Slot \<Rightarrow> Assign \<Rightarrow> nat \<Rightarrow> int \<Rightarrow> FairQ \<Rightarrow> FairQ" where
  "fq_queued slot a epoch now q =
     q \<lparr> fq_gates := AList.update (fence_key slot a) epoch (fq_gates q),
         fq_store := add_ask (fq_store q) slot (unwrap_or (jl_cpu_millis (pl_limits (as_plan a))) 0)
            (unwrap_or (jl_mem_bytes (pl_limits (as_plan a))) 0) now \<rparr>"

definition fq_gate :: "Slot \<Rightarrow> string \<Rightarrow> nat \<Rightarrow> nat \<Rightarrow> FairQ \<Rightarrow> FairQ" where
  "fq_gate slot job g epoch q = q \<lparr> fq_gates := AList.update (slot, job, g) epoch (fq_gates q) \<rparr>"

definition fq_forget :: "Slot \<Rightarrow> string \<Rightarrow> nat \<Rightarrow> FairQ \<Rightarrow> FairQ" where
  "fq_forget slot job g q = q \<lparr> fq_gates := AList.delete (slot, job, g) (fq_gates q), fq_sent := AList.delete (slot, job, g) (fq_sent q) \<rparr>"

definition fq_resend :: "Slot \<Rightarrow> FairQ \<Rightarrow> FairQ" where
  "fq_resend slot q = q \<lparr> fq_sent := filter (\<lambda>e. fst (fst e) \<noteq> slot) (fq_sent q) \<rparr>"

definition run_meta :: "NodeEnv \<Rightarrow> QueueStore \<Rightarrow> Slot \<Rightarrow> Assign \<Rightarrow> Caps \<Rightarrow> RunMeta" where
  "run_meta env store slot a caps = (let p = as_plan a; hash = cmd_hash env (pl_argv p) in
     \<lparr> rm_class = unwrap_or (pl_class p) Class_Interactive, rm_tier = tier_or_class p, rm_ws = pl_workspace_id p,
       rm_session = pl_session_id p, rm_submitter = plan_turn_key p, rm_cmd_hash = hash,
       rm_cpu = unwrap_or (jl_cpu_millis (pl_limits p)) (default_cpu caps),
       rm_mem = unwrap_or (jl_mem_bytes (pl_limits p)) (default_mem caps),
       rm_exclusive = pl_exclusive p, rm_started_at = ne_now env, rm_started = ne_mono_ms env, rm_accounted = ne_mono_ms env,
       rm_est = or_else (store_duration store slot hash)
         (map_option (\<lambda>e. (e, unwrap_or (pl_est_p90_secs p) e)) (pl_est_secs p)),
       rm_secret = (pl_secret_env p \<noteq> []) \<rparr>)"

definition fq_started :: "NodeEnv \<Rightarrow> Slot \<Rightarrow> Assign \<Rightarrow> Caps \<Rightarrow> FairQ \<Rightarrow> FairQ" where
  "fq_started env slot a caps q = (let k = fence_key slot a in
     q \<lparr> fq_gates := AList.delete k (fq_gates q), fq_sent := AList.delete k (fq_sent q),
         fq_runs := AList.update k (run_meta env (fq_store q) slot a caps) (fq_runs q) \<rparr>)"

definition fq_set_lingering :: "Slot \<Rightarrow> string \<Rightarrow> bool \<Rightarrow> FairQ \<Rightarrow> FairQ" where
  "fq_set_lingering slot u on q = q \<lparr> fq_lingering := (if on then btree_set ((slot, u) # fq_lingering q)
     else filter (\<lambda>x. x \<noteq> (slot, u)) (fq_lingering q)) \<rparr>"

definition fq_usage_now :: "NodeEnv \<Rightarrow> FairQ \<Rightarrow> (Slot, nat) btree" where
  "fq_usage_now env q = map (\<lambda>(s, u, at). (s, ne_decay env u (i64_sub (ne_now env) at) (c_half_life_secs (ne_cfg env)))) (fq_usage q)"

section \<open>Caps and what is used\<close>

definition cpu_cap_millis :: "NodeEnv \<Rightarrow> nat" where
  "cpu_cap_millis env = ne_cores env * 1000 * ne_cpu_cap_percent env div 100"

definition cap_at :: "nat \<Rightarrow> nat option \<Rightarrow> nat" where
  "cap_at x n = (case n of Some c \<Rightarrow> min x c | None \<Rightarrow> x)"

definition narrow :: "NodeLimits \<Rightarrow> nat \<times> nat \<times> nat \<Rightarrow> nat \<times> nat \<times> nat" where
  "narrow n = (\<lambda>(cpu, mem, par). (cap_at cpu (nl_cpu_millis n), cap_at mem (nl_mem_bytes n),
     cap_at par (map_option (max 1) (nl_max_parallel n))))"

definition node_caps :: "NodeEnv \<Rightarrow> NodeTenant \<Rightarrow> nat \<times> nat \<times> nat" where
  "node_caps env t = narrow (ne_persisted env) (narrow (nt_narrow t) (cpu_cap_millis env, ne_mem_cap_bytes env, ne_max_parallel env))"

definition used :: "Node \<Rightarrow> nat \<Rightarrow> nat \<Rightarrow> nat \<Rightarrow> nat \<times> nat \<times> nat \<times> bool" where
  "used nd cap_cpu cap_mem par = (let js = map snd (nd_jobs nd) in
     (u64_sum (map (\<lambda>j. unwrap_or (rj_cpu_millis j) (cap_cpu div max par 1)) js),
      u64_sum (map (\<lambda>j. unwrap_or (rj_mem_bytes j) (cap_mem div max par 1)) js),
      as_u32 (length js), list_ex rj_exclusive js))"

definition effective_control :: "NodeEnv \<Rightarrow> Control" where
  "effective_control env = (if ne_policy_error env then Control_Paused else ne_control env)"

definition machine_view :: "NodeEnv \<Rightarrow> string list \<Rightarrow> nat \<Rightarrow> nat \<Rightarrow> bool \<Rightarrow> nat \<Rightarrow> nat \<Rightarrow> NodeView" where
  "machine_view env allow running par excl free_cpu free_mem =
     \<lparr> nv_control = effective_control env, nv_unavailable = ne_unavailable env, nv_foreign_lock = ne_foreign_lock env,
       nv_disk_free_bytes = ne_disk_free env, nv_disk_floor_bytes = ne_disk_floor env, nv_workspaces_allow = allow,
       nv_tools = ne_tools env, nv_running = running, nv_parallel_max = par, nv_exclusive_running = excl,
       nv_free_cpu_millis = free_cpu, nv_free_mem_bytes = free_mem,
       nv_network_none = (ne_network env = ''none''), nv_network_none_enforced = ne_wall_network_none env \<rparr>"

definition assign_refusal :: "NodeEnv \<Rightarrow> Node \<Rightarrow> NodeTenant \<Rightarrow> Assign \<Rightarrow> Refusal option" where
  "assign_refusal env nd t a =
     (let (cap_cpu, cap_mem, par) = node_caps env t;
          (used_cpu, used_mem, running, excl) = used nd cap_cpu cap_mem par;
          p = as_plan a
      in refusal (machine_view env (ne_workspaces env) running par excl (cap_cpu - used_cpu) (cap_mem - used_mem))
           \<lparr> ask_workspace_id = pl_workspace_id p, ask_cpu_millis = jl_cpu_millis (pl_limits p),
             ask_mem_bytes = jl_mem_bytes (pl_limits p), ask_disk_bytes = 0, ask_exclusive = pl_exclusive p,
             ask_needs_git = (pl_src p \<noteq> None) \<rparr>)"

definition queue_caps :: "NodeEnv \<Rightarrow> Caps" where
  "queue_caps env =
     (let (cpu, mem, par) = narrow (ne_persisted env) (cpu_cap_millis env, ne_mem_cap_bytes env, ne_max_parallel env);
          b0 = map_option rf_code (node_refusal (machine_view env [] 0 par False cpu mem));
          b1 = (if ne_stopping env then Some LOCAL_STOPPED else b0)
      in \<lparr> cap_cpu_millis = cpu, cap_mem_bytes = mem, cap_parallel_max = par,
           cap_blocked = (if b1 = None \<and> ne_installing env then Some INSTALLING_TOOLS else b1) \<rparr>)"

definition secret_isolation_wait :: "NodeEnv \<Rightarrow> Node \<Rightarrow> Slot \<Rightarrow> string \<Rightarrow> bool \<Rightarrow> string option" where
  "secret_isolation_wait env nd slot ws secret =
     (if isolation_blocks (ne_macos env) slot ws secret (map (\<lambda>((s, _), j). (s, rj_workspace j, rj_secret j)) (nd_jobs nd))
      then Some ISOLATION_WAIT else None)"

definition owner_default :: "NodeEnv \<Rightarrow> Node \<Rightarrow> ShareInfo" where
  "owner_default env nd =
     (let caps = queue_caps env;
          gb = as_u32 (max (cap_mem_bytes caps div 2 ^ 30) 1);
          cpus = as_u32 (max (div_ceil (cap_cpu_millis caps) 1000) 1)
      in \<lparr> shi_label = (case node_tenant nd OWNER_SLOT of Some t \<Rightarrow> nt_controller_label t | None \<Rightarrow> ''''),
           shi_limits = owner_limits (min (max (cap_parallel_max caps) 1) 64) (min cpus 1024) (min gb 4096) 100 (of_policy (ne_network env)),
           shi_status = St_Active \<rparr>)"

definition fq_share :: "NodeEnv \<Rightarrow> Node \<Rightarrow> Slot \<Rightarrow> ShareInfo option" where
  "fq_share env nd slot = (case bt_get (fq_shares (nd_fairq nd)) slot of
     Some s \<Rightarrow> Some s | None \<Rightarrow> if slot = OWNER_SLOT then Some (owner_default env nd) else None)"

end
