(* ===== verification/Node_Jobs.thy ===== *)
theory Node_Jobs
  imports Node_State
begin

text \<open>
  \<open>k2-node/src/node/assign.rs\<close>: what a node does with an assign, a cancel and a new session of one of its servers, how a
  queued job starts, and how an attempt whose end was lost is ended. With it the other writers of the running map: the
  end of a job's task (\<open>finish_job\<close> of \<open>run.rs\<close>), a restart (\<open>reconcile\<close> of \<open>tenant.rs\<close>), a job unit that lingers, the disk
  guard's stop. A slot stands for the session's tenant; each handler is one step.
\<close>

section \<open>Frames\<close>

definition state_frame :: "NodeEnv \<Rightarrow> string \<Rightarrow> nat \<Rightarrow> JobState \<Rightarrow> string option \<Rightarrow> string option \<Rightarrow> StateUpdate" where
  "state_frame env job g s reason detail =
     \<lparr> su_job_id = job, su_generation = g, su_state = s, su_reason = reason, su_detail = detail, su_at = ne_now env,
       su_exit = None, su_src = None, su_log_seq = 0, su_outputs = None, su_queue = None \<rparr>"

definition row_state_frame :: "LedgerRow \<Rightarrow> StateUpdate" where
  "row_state_frame r =
     \<lparr> su_job_id = lr_job_id r, su_generation = lr_generation r, su_state = lr_state r, su_reason = lr_reason r,
       su_detail = lr_detail r, su_at = unwrap_or (or_else (lr_ended_at r) (lr_started_at r)) (lr_created_at r),
       su_exit = lr_exit r, su_src = lr_src r, su_log_seq = lr_log_seq r, su_outputs = lr_outputs r, su_queue = None \<rparr>"

section \<open>Starting an attempt\<close>

definition JOB_PORT_BLOCKS :: nat where "JOB_PORT_BLOCKS = 120"

definition free_port_block :: "((Slot \<times> string) \<times> RunningJob) list \<Rightarrow> nat option" where
  "free_port_block jobs = find (\<lambda>b. \<not> list_ex (\<lambda>e. rj_port_block (snd e) = Some b) jobs) [0..<JOB_PORT_BLOCKS]"

definition new_running :: "Node \<Rightarrow> Assign \<Rightarrow> RunningJob" where
  "new_running nd a = (let p = as_plan a in
     \<lparr> rj_generation = fe_generation (as_fence a), rj_cpu_millis = jl_cpu_millis (pl_limits p),
       rj_mem_bytes = jl_mem_bytes (pl_limits p), rj_exclusive = pl_exclusive p, rj_stop = None, rj_seq = nd_job_seq nd,
       rj_gate = (tier_or_class p = Tier_Ci), rj_workspace = pl_workspace_id p, rj_secret = (pl_secret_env p \<noteq> []),
       rj_port_block = free_port_block (nd_jobs nd), rj_adoptable = False, rj_rust = [] \<rparr>)"

definition launch :: "NodeEnv \<Rightarrow> Slot \<Rightarrow> Assign \<Rightarrow> Node \<Rightarrow> Node" where
  "launch env slot a nd =
     on_fairq (fq_started env slot a (queue_caps env))
       (nd \<lparr> nd_jobs := AList.update (slot, fe_job_id (as_fence a)) (new_running nd a) (nd_jobs nd),
             nd_job_seq := nd_job_seq nd + 1, nd_tasks := nd_tasks nd @ [RunJob slot a] \<rparr>)"

section \<open>The node queue\<close>

definition queue_refusal :: "NodeEnv \<Rightarrow> Node \<Rightarrow> Slot \<Rightarrow> Assign \<Rightarrow> (string \<times> string) option" where
  "queue_refusal env nd slot a =
     (case fq_share env nd slot of
        None \<Rightarrow> Some (SERVER_NOT_APPROVED, ''this node has no approved share for this server'')
      | Some share \<Rightarrow>
          if shi_status share = St_Expired then Some (SHARE_EXPIRED, ''this server's share of the node has ended'')
          else if shi_status share = St_Revoked then Some (SHARE_REVOKED, ''this server's share of the node was revoked'')
          else if shi_status share = St_Pending \<or> shi_status share = St_Refused
            then Some (SERVER_NOT_APPROVED, ''this server isn't active on the node'')
          else (let p = as_plan a; lim = shi_limits share; class = unwrap_or (pl_class p) Class_Interactive;
                    cpu = jl_cpu_millis (pl_limits p); mem = jl_mem_bytes (pl_limits p); caps = queue_caps env;
                    queued = length (queued_rows (ledger_of nd slot))
                in if slot = OWNER_SLOT \<and> ne_workspaces env \<noteq> [] \<and> pl_workspace_id p \<notin> set (ne_workspaces env)
                     then Some (WORKSPACE_REFUSED, ''the machine's owner doesn't allow this workspace'')
                   else if ne_network env = ''none'' \<and> \<not> ne_wall_network_none env
                     then Some (NETWORK_NONE_NOT_ENFORCED, NETWORK_NONE_MESSAGE)
                   else if pl_src p \<noteq> None \<and> bt_get (ne_tools env) ''git'' = None
                     then Some (TOOL_MISSING, ''git is not installed on the node'')
                   else if \<not> allows_class lim class
                     then Some (if class = Class_Gate then (GATE_NOT_ALLOWED, ''this server's share doesn't allow gate jobs'')
                                else (EXCEEDS_SHARE_CAPS, ''this server's share allows up to '' @ JobClass_as_str (l_top_class lim) @ '' jobs''))
                   else if pl_exclusive p \<and> \<not> l_exclusive lim
                     then Some (EXCLUSIVE_NOT_ALLOWED, ''this server's share doesn't allow exclusive jobs'')
                   else if exceeds cpu (l_max_cpus lim * 1000) \<or> exceeds mem (l_max_mem_gb lim * 2 ^ 30)
                       \<or> jl_max_secs (pl_limits p) > l_max_job_secs lim
                     then Some (EXCEEDS_SHARE_CAPS, ''over this server's share: '' @ digits_of (l_max_cpus lim) @ '' CPUs, ''
                       @ digits_of (l_max_mem_gb lim) @ '' GB, '' @ digits_of (l_max_job_secs lim) @ '' s per job'')
                   else if exceeds cpu (cap_cpu_millis caps) \<or> exceeds mem (cap_mem_bytes caps)
                     then Some (EXCEEDS_NODE_CAPS, ''bigger than this node's caps'')
                   else if queued \<ge> l_max_queued lim
                     then Some (TENANT_QUEUE_FULL, ''this server already has '' @ digits_of queued @ '' jobs queued here (its share allows ''
                       @ digits_of (l_max_queued lim) @ '')'')
                   else None))"

definition enqueue :: "NodeEnv \<Rightarrow> Slot \<Rightarrow> Assign \<Rightarrow> Node \<Rightarrow> Node \<times> (string \<times> nat) option" where
  "enqueue env slot a nd =
     (let job = fe_job_id (as_fence a); g = fe_generation (as_fence a)
      in case queue_refusal env nd slot a of
           Some (code, msg) \<Rightarrow> (tell slot (state_frame env job g JS_Queued (Some code) (Some msg)) nd, None)
         | None \<Rightarrow>
             (case insert_queued (ledger_of nd slot) a (ne_clock env) of
                None \<Rightarrow> (tell slot (state_frame env job g JS_Failed (Some ''ledger_error'') (Some (ne_ledger_error env))) nd, None)
              | Some l \<Rightarrow> (on_fairq (fq_queued slot a (epoch_of nd slot) (ne_now env)) (put_ledger slot l nd), Some (job, g))))"

section \<open>An assign\<close>

definition known_fence :: "ledger \<Rightarrow> string \<Rightarrow> nat \<Rightarrow> LedgerRow option" where
  "known_fence l job g = (case ledger_get l job g of
     Some r \<Rightarrow> Some r
   | None \<Rightarrow> (case ledger_latest l job of Some r \<Rightarrow> if lr_generation r > g then Some r else None | None \<Rightarrow> None))"

definition others_waiting :: "Node \<Rightarrow> Slot \<Rightarrow> bool" where
  "others_waiting nd slot \<longleftrightarrow> list_ex (\<lambda>t. nt_slot t \<noteq> slot \<and> queued_rows (nt_ledger t) \<noteq> []) (nd_tenants nd)"

text \<open>The checks before any ledger row: the answer, with its state, reason and detail.\<close>

definition arrival_refusal :: "NodeEnv \<Rightarrow> NodeTenant \<Rightarrow> Assign \<Rightarrow> (string \<times> string) option" where
  "arrival_refusal env t a =
     (if \<not> job_id_ok a then Some (''bad_job_id'', ''a job id is 1-64 of A-Z a-z 0-9 _ -'')
      else if \<not> project_key_ok a then Some (''bad_project_key'', ''a project key is 1-128 of A-Z a-z 0-9 _ -'')
      else if \<not> ne_consistent env a then Some (''plan_mismatch'', ''plan digest or job id doesn't match the fence'')
      else if pl_node_id (as_plan a) \<noteq> nt_node_id t then Some (''wrong_node'', ''this plan names another node'')
      else None)"

definition start_now :: "NodeEnv \<Rightarrow> NodeTenant \<Rightarrow> Assign \<Rightarrow> Node \<Rightarrow> Node \<times> (string \<times> nat) option" where
  "start_now env t a nd =
     (let slot = nt_slot t; job = fe_job_id (as_fence a); g = fe_generation (as_fence a); p = as_plan a;
          answer = (\<lambda>s code msg. (tell slot (state_frame env job g s (Some code) (Some msg)) nd, None))
      in case assign_refusal env nd t a of
           Some r \<Rightarrow> answer JS_Queued (rf_code r) (rf_message r)
         | None \<Rightarrow>
             (case secret_isolation_wait env nd slot (pl_workspace_id p) (pl_secret_env p \<noteq> []) of
                Some code \<Rightarrow> answer JS_Queued code
                  ''a job of another workspace runs as the same user and one of them gets vault secrets; it starts when that ends''
              | None \<Rightarrow>
                  (case ledger_insert (ledger_of nd slot) a (ne_clock env) of
                     None \<Rightarrow> answer JS_Failed ''ledger_error'' (ne_ledger_error env)
                   | Some l \<Rightarrow> (launch env slot a (put_ledger slot l nd), Some (job, g)))))"

definition on_assign :: "NodeEnv \<Rightarrow> Slot \<Rightarrow> Assign \<Rightarrow> Node \<Rightarrow> Node \<times> (string \<times> nat) option" where
  "on_assign env slot a nd =
     (case node_tenant nd slot of
        None \<Rightarrow> (nd, None)
      | Some t \<Rightarrow>
          (let job = fe_job_id (as_fence a); g = fe_generation (as_fence a);
               answer = (\<lambda>s code msg. (tell slot (state_frame env job g s (Some code) (Some msg)) nd, None))
           in case arrival_refusal env t a of
                Some (code, msg) \<Rightarrow> answer JS_Failed code msg
              | None \<Rightarrow>
                  (case known_fence (nt_ledger t) job g of
                     Some r \<Rightarrow> (tell slot (row_state_frame r) nd, None)
                   | None \<Rightarrow>
                       if ne_stopping env then answer JS_Queued LOCAL_STOPPED ''k2-node is stopping''
                       else (case (if pl_secret_env (as_plan a) \<noteq> [] then ne_secret_refusal env slot else None) of
                          Some (code, msg) \<Rightarrow> answer JS_Failed code msg
                        | None \<Rightarrow>
                            if slot \<noteq> OWNER_SLOT \<or> fq_shared (nd_fairq nd) then
                              if protocol_of (nd_fairq nd) slot \<ge> 3 then enqueue env slot a nd
                              else if slot \<noteq> OWNER_SLOT
                                then answer JS_Queued SERVER_TOO_OLD ''update this server to 0.46.3 to use a shared node''
                              else if others_waiting nd slot
                                then answer JS_Queued FAIR_SHARE_WAIT
                                  ''another server's jobs are queued on this shared node; update this server to 0.46.3 to queue''
                              else start_now env t a nd
                            else start_now env t a nd))))"

section \<open>Queued rows\<close>

definition unrun_receipt :: "NodeEnv \<Rightarrow> NodeTenant \<Rightarrow> LedgerRow \<Rightarrow> SignedReceipt option" where
  "unrun_receipt env t r = ne_sign env
     \<lparr> rc_v = 1, rc_job_id = lr_job_id r, rc_attempt = lr_attempt r, rc_generation = lr_generation r,
       rc_plan_digest = lr_plan_digest r, rc_node_fp = ne_node_fp env, rc_controller_fp = nt_controller_fp t,
       rc_workspace_id = pl_workspace_id (lr_plan r), rc_argv_sha256 = ne_argv_sha env (pl_argv (lr_plan r)),
       rc_env_names = sort (map fst (pl_env (lr_plan r))), rc_src = None, rc_tools = ne_tools env,
       rc_boot_id = ck_boot_id (ne_clock env), rc_started_at = None, rc_ended_at = unwrap_or (lr_ended_at r) (ne_now env),
       rc_state = lr_state r, rc_exit = None, rc_log = \<lparr> rl_sha256 = ne_sha_empty env, rl_bytes = 0, rl_truncated = False \<rparr>,
       rc_artifacts = [], rc_secret_env = [], rc_tools_used = [] \<rparr>"

definition cancel_queued_row :: "NodeEnv \<Rightarrow> Slot \<Rightarrow> string \<Rightarrow> nat \<Rightarrow> string \<Rightarrow> string option \<Rightarrow> Node \<Rightarrow> Node \<times> bool" where
  "cancel_queued_row env slot job g reason detail nd =
     (case node_tenant nd slot of
        None \<Rightarrow> (nd, False)
      | Some t \<Rightarrow>
          (case cancel_queued (nt_ledger t) job g reason detail (ne_now env) of
             (_, False) \<Rightarrow> (nd, False)
           | (l, True) \<Rightarrow>
               (case ledger_get l job g of
                  None \<Rightarrow> (put_ledger slot l nd, False)
                | Some row \<Rightarrow>
                    (let l2 = (case unrun_receipt env t row of Some rc \<Rightarrow> set_receipt l job g rc | None \<Rightarrow> l);
                         row2 = unwrap_or (ledger_get l2 job g) row
                     in (tell slot (row_state_frame row2) (on_fairq (fq_forget slot job g) (put_ledger slot l2 nd)), True)))))"

definition row_assign :: "LedgerRow \<Rightarrow> Assign" where
  "row_assign r = \<lparr> as_fence = \<lparr> fe_job_id = lr_job_id r, fe_attempt = lr_attempt r, fe_generation = lr_generation r,
     fe_plan_digest = lr_plan_digest r \<rparr>, as_plan = lr_plan r \<rparr>"

definition start_queued :: "NodeEnv \<Rightarrow> Slot \<Rightarrow> LedgerRow \<Rightarrow> Node \<Rightarrow> Node \<times> bool" where
  "start_queued env slot r nd =
     (let a = row_assign r;
          cancelled = (\<lambda>code msg. (fst (cancel_queued_row env slot (lr_job_id r) (lr_generation r) code (Some msg) nd), False))
      in if \<not> job_id_ok a then cancelled ''bad_job_id'' ''a job id is 1-64 of A-Z a-z 0-9 _ -''
         else if \<not> project_key_ok a then cancelled ''bad_project_key'' ''a project key is 1-128 of A-Z a-z 0-9 _ -''
         else (case dequeue (ledger_of nd slot) (lr_job_id r) (lr_generation r) (ne_clock env) of
            (_, False) \<Rightarrow> (nd, False)
          | (l, True) \<Rightarrow> (launch env slot a (put_ledger slot l nd), True)))"

definition resumed :: "(string \<times> nat) list \<Rightarrow> LedgerRow \<Rightarrow> bool" where
  "resumed hints r \<longleftrightarrow> (lr_job_id r, lr_generation r) \<in> set hints"

definition attach_row :: "NodeEnv \<Rightarrow> Slot \<Rightarrow> (string \<times> nat) list \<Rightarrow> nat \<Rightarrow> Node \<Rightarrow> LedgerRow \<Rightarrow> Node" where
  "attach_row env slot hints epoch nd r =
     (if resumed hints r then on_fairq (fq_gate slot (lr_job_id r) (lr_generation r) epoch) nd
      else fst (cancel_queued_row env slot (lr_job_id r) (lr_generation r) SUPERSEDED (Some ''the server no longer lists this job'') nd))"

definition queue_attach :: "NodeEnv \<Rightarrow> Slot \<Rightarrow> (string \<times> nat) list \<Rightarrow> Node \<Rightarrow> Node" where
  "queue_attach env slot hints nd =
     on_fairq (fq_resend slot) (foldl (attach_row env slot hints (epoch_of nd slot)) nd (queued_rows (ledger_of nd slot)))"

definition cancel_counted :: "NodeEnv \<Rightarrow> Slot \<Rightarrow> string \<Rightarrow> Node \<times> nat \<Rightarrow> LedgerRow \<Rightarrow> Node \<times> nat" where
  "cancel_counted env slot reason = (\<lambda>(nd, n) r.
     (case cancel_queued_row env slot (lr_job_id r) (lr_generation r) reason None nd of (nd', ok) \<Rightarrow> (nd', if ok then Suc n else n)))"

definition queue_cancel_tenant :: "NodeEnv \<Rightarrow> Slot \<Rightarrow> string \<Rightarrow> Node \<Rightarrow> Node \<times> nat" where
  "queue_cancel_tenant env slot reason nd =
     foldl (cancel_counted env slot reason) (nd, 0) (queued_rows (ledger_of nd slot))"

section \<open>Attempts that lost their end\<close>

definition placeholder :: "nat \<Rightarrow> RunningJob" where
  "placeholder g = \<lparr> rj_generation = g, rj_cpu_millis = Some 0, rj_mem_bytes = Some 0, rj_exclusive = False, rj_stop = None,
     rj_seq = 0, rj_gate = False, rj_workspace = '''', rj_secret = False, rj_port_block = None, rj_adoptable = False, rj_rust = [] \<rparr>"

definition has_started :: "LedgerRow \<Rightarrow> bool" where
  "has_started r \<longleftrightarrow> lr_started_at r \<noteq> None \<or> lr_state r = JS_Running \<or> lr_state r = JS_Finishing"

definition is_orphan :: "Node \<Rightarrow> Slot \<Rightarrow> LedgerRow \<Rightarrow> bool" where
  "is_orphan nd slot r \<longleftrightarrow> \<not> is_terminal (lr_state r) \<and> lr_state r \<noteq> JS_Queued \<and> has_started r
     \<and> map_of (nd_jobs nd) (slot, lr_job_id r) = None"

definition finish_if_orphan :: "NodeEnv \<Rightarrow> Slot \<Rightarrow> string \<Rightarrow> nat \<Rightarrow> JobState \<Rightarrow> string \<Rightarrow> string \<Rightarrow> Node \<Rightarrow> Node \<times> bool" where
  "finish_if_orphan env slot job g s reason detail nd =
     (case ledger_get (ledger_of nd slot) job g of
        None \<Rightarrow> (nd, False)
      | Some r \<Rightarrow>
          if \<not> is_orphan nd slot r then (nd, False)
          else (nd \<lparr> nd_jobs := AList.update (slot, job) (placeholder g) (nd_jobs nd),
                     nd_tasks := nd_tasks nd @ [FinishJob slot (row_assign r) s reason detail (lr_src r) (lr_outputs r)] \<rparr>, True))"

definition NODE_LOST_JOB :: string where "NODE_LOST_JOB = ''node_lost_job''"

definition ORPHAN_DETAIL :: string where
  "ORPHAN_DETAIL = ''its process had ended and its end was never recorded; recorded now''"

definition reap_row :: "NodeEnv \<Rightarrow> Slot \<Rightarrow> Node \<times> nat \<Rightarrow> LedgerRow \<Rightarrow> Node \<times> nat" where
  "reap_row env slot = (\<lambda>(nd, n) r.
     (case finish_if_orphan env slot (lr_job_id r) (lr_generation r) JS_Failed NODE_LOST_JOB ORPHAN_DETAIL nd of
        (nd', ok) \<Rightarrow> (nd', if ok then Suc n else n)))"

definition reap_orphans :: "NodeEnv \<Rightarrow> Node \<Rightarrow> Node \<times> nat" where
  "reap_orphans env nd =
     foldl (\<lambda>acc slot. foldl (reap_row env slot) acc (non_terminal (ledger_of (fst acc) slot))) (nd, 0) (map nt_slot (nd_tenants nd))"

section \<open>A cancel\<close>

definition report_row :: "Slot \<Rightarrow> string \<Rightarrow> nat \<Rightarrow> Node \<Rightarrow> Node" where
  "report_row slot job g nd = (case ledger_get (ledger_of nd slot) job g of
     Some r \<Rightarrow> tell slot (row_state_frame r) nd | None \<Rightarrow> nd)"

definition set_stop :: "Slot \<times> string \<Rightarrow> StopReason \<Rightarrow> Node \<Rightarrow> Node" where
  "set_stop k s nd = (case map_of (nd_jobs nd) k of
     Some j \<Rightarrow> nd \<lparr> nd_jobs := AList.update k (j \<lparr> rj_stop := Some s \<rparr>) (nd_jobs nd) \<rparr> | None \<Rightarrow> nd)"

definition cancel_why :: "string \<Rightarrow> string" where
  "cancel_why reason = (if reason = CANCEL_WITHDRAW then WITHDRAWN else if reason = CANCEL_IF_QUEUED then ''cancelled'' else reason)"

definition cancel_running :: "NodeEnv \<Rightarrow> Slot \<Rightarrow> string \<Rightarrow> nat \<Rightarrow> string \<Rightarrow> Node \<Rightarrow> Node" where
  "cancel_running env slot job g reason nd =
     (case map_of (nd_jobs nd) (slot, job) of
        Some j \<Rightarrow>
          if rj_generation j = g then
            if cancel_only_if_not_started reason then report_row slot job g nd
            else set_stop (slot, job) \<lparr> stp_state = JS_Cancelled, stp_reason = reason \<rparr> nd
          else nd
      | None \<Rightarrow> nd)"

definition runs_fence :: "Node \<Rightarrow> Slot \<Rightarrow> string \<Rightarrow> nat \<Rightarrow> bool" where
  "runs_fence nd slot job g \<longleftrightarrow> map_option rj_generation (map_of (nd_jobs nd) (slot, job)) = Some g"

definition node_cancel :: "NodeEnv \<Rightarrow> Slot \<Rightarrow> string \<Rightarrow> nat \<Rightarrow> string \<Rightarrow> Node \<Rightarrow> Node" where
  "node_cancel env slot job g reason nd =
     (let only_queued = cancel_only_if_not_started reason;
          (nd1, ended) = (if only_queued then (nd, False)
            else finish_if_orphan env slot job g JS_Cancelled reason
              ''its process had already ended and its end was never recorded; recorded now'' nd)
      in if ended then nd1
         else if runs_fence nd1 slot job g then cancel_running env slot job g reason nd1
         else (case ledger_get (ledger_of nd1 slot) job g of
            None \<Rightarrow> tell slot (state_frame env job g JS_Unknown (Some ''not_on_node'') None) nd1
          | Some r \<Rightarrow>
              if lr_state r = JS_Queued then
                (case cancel_queued_row env slot job g (cancel_why reason) None nd1 of
                   (nd2, True) \<Rightarrow> nd2 | (nd2, False) \<Rightarrow> report_row slot job g nd2)
              else tell slot (row_state_frame r) nd1))"

definition stop_all :: "JobState \<Rightarrow> string \<Rightarrow> Node \<Rightarrow> Node" where
  "stop_all s reason nd = nd \<lparr> nd_jobs := map (\<lambda>(k, j). (k, if rj_stop j = None
     then j \<lparr> rj_stop := Some \<lparr> stp_state = s, stp_reason = reason \<rparr> \<rparr> else j)) (nd_jobs nd) \<rparr>"

section \<open>The end of a task\<close>

definition LINGER_WORKSPACE :: string where "LINGER_WORKSPACE = ''(unknown workspace)''"

definition linger_entry :: RunningJob where
  "linger_entry = (placeholder 0) \<lparr> rj_workspace := LINGER_WORKSPACE, rj_secret := True \<rparr>"

definition hold_one :: "Slot \<Rightarrow> Node \<Rightarrow> string \<Rightarrow> Node" where
  "hold_one slot nd key = on_fairq (fq_set_lingering slot key True)
     (nd \<lparr> nd_jobs := AList.update (slot, LINGER_JOB_PREFIX @ key) linger_entry (nd_jobs nd) \<rparr>)"

definition hold_lingering :: "Slot \<Rightarrow> string list \<Rightarrow> Node \<Rightarrow> Node" where
  "hold_lingering slot keys nd = foldl (hold_one slot) nd keys"

definition release_lingering :: "Slot \<Rightarrow> string \<Rightarrow> Node \<Rightarrow> Node" where
  "release_lingering slot key nd = on_fairq (fq_set_lingering slot key False)
     (nd \<lparr> nd_jobs := AList.delete (slot, LINGER_JOB_PREFIX @ key) (nd_jobs nd) \<rparr>)"

text \<open>What the task knows when it ends; the receipt is signed over it.\<close>

record TaskEnd =
  te_state :: JobState
  te_reason :: "string option"
  te_detail :: "string option"
  te_exit :: "ExitInfo option"
  te_log_seq :: nat
  te_src :: "SrcRan option"
  te_outputs :: "Outputs option"
  te_receipt :: "SignedReceipt option"
  te_tree_left :: bool

definition record_finish :: "NodeEnv \<Rightarrow> Slot \<Rightarrow> string \<Rightarrow> nat \<Rightarrow> TaskEnd \<Rightarrow> Node \<Rightarrow> Node \<times> bool" where
  "record_finish env slot job g e nd =
     (case end_attempt (ledger_of nd slot) job g (te_state e) (te_reason e) (te_detail e) (te_exit e) (te_log_seq e) (ne_now env)
         (te_src e) (te_outputs e) (te_receipt e) of (l, landed) \<Rightarrow> (put_ledger slot l nd, landed))"

definition linger_key :: "string \<Rightarrow> nat \<Rightarrow> string" where
  "linger_key job g = job @ ''-g'' @ digits_of g"

definition finish_job :: "NodeEnv \<Rightarrow> Slot \<Rightarrow> string \<Rightarrow> nat \<Rightarrow> TaskEnd \<Rightarrow> Node \<Rightarrow> Node" where
  "finish_job env slot job g e nd =
     (let nd1 = fst (record_finish env slot job g e nd);
          nd2 = (if te_tree_left e then hold_lingering slot [linger_key job g] nd1 else nd1)
      in nd2 \<lparr> nd_jobs := AList.delete (slot, job) (nd_jobs nd2) \<rparr>)"

definition detach_job :: "Slot \<Rightarrow> string \<Rightarrow> Node \<Rightarrow> Node" where
  "detach_job slot job nd = nd \<lparr> nd_jobs := AList.delete (slot, job) (nd_jobs nd) \<rparr>"

definition set_adoptable :: "Slot \<Rightarrow> string \<Rightarrow> nat \<Rightarrow> Node \<Rightarrow> Node" where
  "set_adoptable slot job g nd = (case map_of (nd_jobs nd) (slot, job) of
     Some j \<Rightarrow> if rj_generation j = g then nd \<lparr> nd_jobs := AList.update (slot, job) (j \<lparr> rj_adoptable := True \<rparr>) (nd_jobs nd) \<rparr> else nd
   | None \<Rightarrow> nd)"

section \<open>The disk guard\<close>

record Candidate =
  cd_slot :: Slot
  cd_seq :: nat
  cd_gate :: bool

definition disk_victim :: "Candidate list \<Rightarrow> Slot option \<Rightarrow> nat option" where
  "disk_victim cands over =
     (let any_plain = list_ex (\<lambda>c. \<not> cd_gate c) cands;
          pool = filter (\<lambda>i. \<not> any_plain \<or> \<not> cd_gate (cands ! i)) [0..<length cands];
          mine = filter (\<lambda>i. over = Some (cd_slot (cands ! i))) pool;
          from_list = (if mine = [] then pool else mine)
      in max_by_key (\<lambda>i. cd_seq (cands ! i)) from_list)"

definition stoppable :: "(Slot \<times> string) \<times> RunningJob \<Rightarrow> bool" where
  "stoppable e \<longleftrightarrow> rj_stop (snd e) = None \<and> \<not> starts_with (snd (fst e)) LINGER_JOB_PREFIX"

definition candidate_of :: "(Slot \<times> string) \<times> RunningJob \<Rightarrow> Candidate" where
  "candidate_of e = \<lparr> cd_slot = fst (fst e), cd_seq = rj_seq (snd e), cd_gate = rj_gate (snd e) \<rparr>"

definition disk_stop :: "NodeEnv \<Rightarrow> Slot option \<Rightarrow> Node \<Rightarrow> Node \<times> (Slot \<times> string) list" where
  "disk_stop env over nd =
     (if ne_disk_free env \<ge> ne_disk_floor env then (nd, [])
      else let cands = map candidate_of (filter stoppable (nd_jobs nd))
           in case disk_victim cands over of
                None \<Rightarrow> (nd, [])
              | Some pick \<Rightarrow>
                  (let picked = cands ! pick
                   in case find (\<lambda>e. fst (fst e) = cd_slot picked \<and> rj_seq (snd e) = cd_seq picked \<and> stoppable e) (nd_jobs nd) of
                        None \<Rightarrow> (nd, [])
                      | Some e \<Rightarrow> (set_stop (fst e) \<lparr> stp_state = JS_Failed, stp_reason = DISK_LOW \<rparr> nd, [fst e])))"

section \<open>A restart\<close>

text \<open>\<open>adoptable\<close> says which of this boot's open rows have run facts the build can use.\<close>

definition reconcile :: "NodeEnv \<Rightarrow> bool \<Rightarrow> (LedgerRow \<Rightarrow> bool) \<Rightarrow> ledger \<Rightarrow> ledger \<times> LedgerRow list" where
  "reconcile env recent_update adoptable l =
     (let why = (if recent_update then NODE_UPDATE else ''node_restart'');
          l1 = fst (reconcile_boot l (ne_clock env));
          keep = filter adoptable (open_runs l1 (ck_boot_id (ne_clock env)));
          l2 = fst (interrupt_open_except l1 why (map (\<lambda>r. (lr_job_id r, lr_generation r)) keep) (ne_clock env))
      in (l2, keep))"

definition janitor_tenant :: "NodeEnv \<Rightarrow> ledger \<Rightarrow> ledger" where
  "janitor_tenant env l =
     (let over_a_day = (\<lambda>r. case lr_ended_at r of
            Some e \<Rightarrow> is_terminal (lr_state r) \<and> \<not> lr_cleaned r \<and> 24 * 3600 < i64_sub (ne_now env) e | None \<Rightarrow> False);
          l1 = foldl (\<lambda>l r. mark_cleaned l (lr_job_id r) (lr_generation r)) l (filter over_a_day (all_rows l))
      in fst (ledger_prune l1 (i64_sub (ne_now env) (14 * 24 * 3600))))"

end
