(* ===== verification/Fair_Tick.thy ===== *)
theory Fair_Tick
  imports Node_Jobs
begin

text \<open>
  \<open>k2-node/src/fairq.rs\<close>: the queue at run time. \<open>account\<close> adds what ran to the decayed usage and the daily totals,
  \<open>snapshot\<close> is the view of the node that the rules of \<open>queue.rs\<close> decide on, and \<open>tick\<close> ends what time ended, starts
  what the rules say and sends the positions that moved. A panic of the rules is \<open>None\<close>. Failed writes of
  \<open>queue.sqlite\<close> are left out.
\<close>

section \<open>Accounting\<close>

definition PERSIST_SECS :: int where "PERSIST_SECS = 60"

definition live_keys :: "Node \<Rightarrow> Key list" where
  "live_keys nd = map (\<lambda>((slot, job), j). (slot, job, rj_generation j)) (nd_jobs nd)"

definition run_dt :: "NodeEnv \<Rightarrow> RunMeta \<Rightarrow> nat" where
  "run_dt env m = ne_mono_ms env - rm_accounted m"

definition run_charges :: "NodeEnv \<Rightarrow> (Key \<times> RunMeta) list \<Rightarrow> (Slot \<times> nat) list" where
  "run_charges env runs = map (\<lambda>(k, m). (fst k, sat_mul64 (rm_cpu m) (run_dt env m) div 1000))
     (filter (\<lambda>(k, m). 0 < run_dt env m) runs)"

definition touch_runs :: "NodeEnv \<Rightarrow> (Key \<times> RunMeta) list \<Rightarrow> (Key \<times> RunMeta) list" where
  "touch_runs env runs = map (\<lambda>(k, m). (k, if 0 < run_dt env m then m \<lparr> rm_accounted := ne_mono_ms env \<rparr> else m)) runs"

definition charge :: "NodeEnv \<Rightarrow> string \<Rightarrow> FairQ \<Rightarrow> Slot \<times> nat \<Rightarrow> FairQ" where
  "charge env day q = (\<lambda>(slot, n).
     (let (u, at) = unwrap_or (bt_get (fq_usage q) slot) (0, ne_now env)
      in q \<lparr> fq_usage := bt_insert slot (sat_add64 (ne_decay env u (i64_sub (ne_now env) at) (c_half_life_secs (ne_cfg env))) n, ne_now env) (fq_usage q),
             fq_day_cpu := bt_insert (slot, day) (u64_add (unwrap_or (bt_get (fq_day_cpu q) (slot, day)) 0) n) (fq_day_cpu q) \<rparr>))"

definition end_run :: "NodeEnv \<Rightarrow> string \<Rightarrow> FairQ \<Rightarrow> Key \<times> RunMeta \<Rightarrow> FairQ" where
  "end_run env day q = (\<lambda>(k, m).
     (let secs = div_ceil (ne_mono_ms env - rm_started m) 1000;
          st1 = (if 0 < secs then add_duration (fq_store q) (fst k) (rm_cmd_hash m) secs else fq_store q)
      in q \<lparr> fq_runs := AList.delete k (fq_runs q), fq_store := add_day st1 (fst k) day 0 secs 1 \<rparr>))"

definition flush_usage :: "FairQ \<Rightarrow> FairQ" where
  "flush_usage q = q \<lparr> fq_store := foldl (\<lambda>s (slot, u, at). set_usage s slot u at) (fq_store q) (fq_usage q) \<rparr>"

definition flush_day :: "FairQ \<Rightarrow> (Slot \<times> string) \<times> nat \<Rightarrow> FairQ" where
  "flush_day q = (\<lambda>((slot, d), ms).
     if 1000 \<le> ms then q \<lparr> fq_store := add_day (fq_store q) slot d (ms div 1000) 0 0,
       fq_day_cpu := bt_insert (slot, d) (ms mod 1000) (fq_day_cpu q) \<rparr> else q)"

definition persist :: "NodeEnv \<Rightarrow> string \<Rightarrow> FairQ \<Rightarrow> FairQ" where
  "persist env day q =
     (let q1 = flush_usage q; q2 = foldl flush_day q1 (fq_day_cpu q1)
      in q2 \<lparr> fq_day_cpu := filter (\<lambda>((_, d), ms). 0 < ms \<and> d = day) (fq_day_cpu q2), fq_last_persist := ne_now env \<rparr>)"

definition account :: "NodeEnv \<Rightarrow> Node \<Rightarrow> Node" where
  "account env nd =
     (let q = nd_fairq nd; day = day_of (ne_now env);
          add = run_charges env (fq_runs q);
          q1 = q \<lparr> fq_runs := touch_runs env (fq_runs q) \<rparr>;
          ended = filter (\<lambda>(k, m). k \<notin> set (live_keys nd)) (fq_runs q1);
          q2 = foldl (charge env day) q1 add;
          q3 = foldl (end_run env day) q2 ended
      in nd \<lparr> nd_fairq := (if ended \<noteq> [] \<or> PERSIST_SECS \<le> i64_sub (ne_now env) (fq_last_persist q3)
                           then persist env day q3 else q3) \<rparr>)"

section \<open>The snapshot\<close>

record Snapshot =
  snp_input :: Input
  snp_rows :: "(Slot \<times> LedgerRow) list"
  snp_labels :: "(Slot, string) btree"

definition queue_tenant :: "NodeEnv \<Rightarrow> FairQ \<Rightarrow> Slot \<Rightarrow> ShareInfo \<Rightarrow> Tenant" where
  "queue_tenant env q slot s =
     (let (u, at) = unwrap_or (bt_get (fq_usage q) slot) (0, ne_now env); day = day_of (ne_now env)
      in \<lparr> t_slot = slot, t_limits = shi_limits s,
           t_usage = ne_decay env u (i64_sub (ne_now env) at) (c_half_life_secs (ne_cfg env)),
           t_cpu_secs_today = u64_add (day_cpu_secs (fq_store q) slot day) (unwrap_or (bt_get (fq_day_cpu q) (slot, day)) 0 div 1000),
           t_blocked = (if shi_status s = St_Paused then Some SHARE_PAUSED else bt_get (fq_blocked q) slot),
           t_priority = fq_priority_of q slot \<rparr>)"

definition secs_left :: "NodeEnv \<Rightarrow> RunMeta \<Rightarrow> nat \<Rightarrow> nat" where
  "secs_left env m d = max (d - nat (max (i64_sub (ne_now env) (rm_started_at m)) 0)) 30"

definition running_of :: "NodeEnv \<Rightarrow> Key \<times> RunMeta \<Rightarrow> Running" where
  "running_of env = (\<lambda>((slot, job, g), m).
     \<lparr> r_slot = slot, r_job_id = job, r_generation = g, r_workspace_id = rm_ws m, r_session_id = rm_session m,
       r_class = rm_class m, r_tier = rm_tier m, r_cpu_millis = rm_cpu m, r_mem_bytes = rm_mem m, r_exclusive = rm_exclusive m,
       r_left_p50 = map_option (\<lambda>e. secs_left env m (fst e)) (rm_est m),
       r_left_p90 = map_option (\<lambda>e. secs_left env m (snd e)) (rm_est m), r_secret = rm_secret m, r_submitter = rm_submitter m \<rparr>)"

definition linger_running :: "Slot \<times> string \<Rightarrow> Running" where
  "linger_running = (\<lambda>(slot, u).
     \<lparr> r_slot = slot, r_job_id = LINGER_JOB_PREFIX @ u, r_generation = 0, r_workspace_id = LINGER_WORKSPACE, r_session_id = None,
       r_class = Class_Batch, r_tier = Tier_Normal, r_cpu_millis = 0, r_mem_bytes = 0, r_exclusive = False,
       r_left_p50 = None, r_left_p90 = None, r_secret = True, r_submitter = None \<rparr>)"

definition queued_of :: "NodeEnv \<Rightarrow> FairQ \<Rightarrow> NodeTenant \<Rightarrow> LedgerRow \<Rightarrow> Queued" where
  "queued_of env q t r =
     (let p = lr_plan r; hist = store_duration (fq_store q) (nt_slot t) (cmd_hash env (pl_argv p));
          gate = map_of (fq_gates q) (nt_slot t, lr_job_id r, lr_generation r)
      in \<lparr> q_slot = nt_slot t, q_job_id = lr_job_id r, q_generation = lr_generation r, q_workspace_id = pl_workspace_id p,
           q_session_id = pl_session_id p, q_class = unwrap_or (pl_class p) Class_Interactive, q_tier = tier_or_class p,
           q_cpu_millis = jl_cpu_millis (pl_limits p), q_mem_bytes = jl_mem_bytes (pl_limits p), q_exclusive = pl_exclusive p,
           q_enqueued_at = unwrap_or (lr_enqueued_at r) (lr_created_at r), q_arrival = lr_seq r,
           q_est_p50 = or_else (map_option fst hist) (pl_est_secs p),
           q_est_p90 = or_else (or_else (map_option snd hist) (pl_est_p90_secs p)) (pl_est_secs p),
           q_ws_max_running = pl_ws_max_running p, q_eligible = (nt_epoch t \<noteq> 0 \<and> gate = Some (nt_epoch t)),
           q_secret = (pl_secret_env p \<noteq> []), q_submitter = plan_turn_key p, q_submitter_max_running = pl_submitter_max_running p \<rparr>)"

definition tenant_shares :: "NodeEnv \<Rightarrow> Node \<Rightarrow> (Slot \<times> ShareInfo) list" where
  "tenant_shares env nd = List.map_filter (\<lambda>t. map_option (\<lambda>s. (nt_slot t, s)) (fq_share env nd (nt_slot t))) (nd_tenants nd)"

definition queued_pairs :: "Node \<Rightarrow> (NodeTenant \<times> LedgerRow) list" where
  "queued_pairs nd = concat (map (\<lambda>t. map (\<lambda>r. (t, r)) (queued_rows (nt_ledger t))) (nd_tenants nd))"

definition snapshot :: "NodeEnv \<Rightarrow> Node \<Rightarrow> Snapshot" where
  "snapshot env nd =
     (let q = nd_fairq nd; shares = tenant_shares env nd
      in \<lparr> snp_input =
             \<lparr> i_now = ne_now env, i_cfg = ne_cfg env, i_caps = queue_caps env,
               i_tenants = map (\<lambda>(slot, s). queue_tenant env q slot s)
                 (filter (\<lambda>(_, s). shi_status s = St_Active \<or> shi_status s = St_Paused) shares),
               i_running = map (running_of env) (fq_runs q) @ map linger_running (fq_lingering q),
               i_queued = map (\<lambda>(t, r). queued_of env q t r) (queued_pairs nd), i_rotation = fq_rotation q \<rparr>,
           snp_rows = map (\<lambda>(t, r). (nt_slot t, r)) (queued_pairs nd),
           snp_labels = collect_bt (map (\<lambda>(slot, s). (slot, shi_label s)) shares) \<rparr>)"

section \<open>A tick\<close>

definition end_shares :: "NodeEnv \<Rightarrow> Node \<Rightarrow> Slot \<Rightarrow> Node" where
  "end_shares env nd slot =
     (case map_option shi_status (fq_share env nd slot) of
        Some St_Expired \<Rightarrow> fst (queue_cancel_tenant env slot SHARE_EXPIRED nd)
      | Some St_Revoked \<Rightarrow> fst (queue_cancel_tenant env slot SHARE_REVOKED nd)
      | _ \<Rightarrow> nd)"

definition start_one :: "NodeEnv \<Rightarrow> (Slot \<times> LedgerRow) list \<Rightarrow> Node \<times> nat list \<Rightarrow> nat \<Rightarrow> Node \<times> nat list" where
  "start_one env rows = (\<lambda>(nd, started) i.
     (case rows ! i of (slot, r) \<Rightarrow> (case start_queued env slot r nd of (nd', ok) \<Rightarrow> (nd', if ok then started @ [i] else started))))"

definition pos_of :: "Info \<Rightarrow> QueuePos" where
  "pos_of info = \<lparr> qp_pos = inf_pos info, qp_of = Some (inf_of info), qp_eta_secs = inf_eta_secs info,
     qp_eta_p90_secs = inf_eta_p90_secs info, qp_blocked_by = inf_blocked_by info \<rparr>"

definition pos_frame :: "NodeEnv \<Rightarrow> LedgerRow \<Rightarrow> QueuePos \<Rightarrow> StateUpdate" where
  "pos_frame env r pos = (state_frame env (lr_job_id r) (lr_generation r) JS_Queued (Some NODE_QUEUED) None) \<lparr> su_queue := Some pos \<rparr>"

definition push_pos :: "NodeEnv \<Rightarrow> Slot \<Rightarrow> LedgerRow \<Rightarrow> QueuePos \<Rightarrow> Node \<Rightarrow> Node" where
  "push_pos env slot r pos nd =
     (let key = (slot, lr_job_id r, lr_generation r); epoch = epoch_of nd slot
      in if map_of (fq_sent (nd_fairq nd)) key = Some (epoch, pos) then nd
         else case node_tenant nd slot of
           None \<Rightarrow> nd
         | Some t \<Rightarrow>
             if snd (hub_send (pos_frame env r pos) t)
             then on_fairq (\<lambda>q. q \<lparr> fq_sent := AList.update key (epoch, pos) (fq_sent q) \<rparr>) (tell slot (pos_frame env r pos) nd)
             else nd)"

definition push_one :: "NodeEnv \<Rightarrow> Snapshot \<Rightarrow> Decision \<Rightarrow> nat list \<Rightarrow> Node \<Rightarrow> nat \<Rightarrow> Node" where
  "push_one env snap d started nd i =
     (if i \<in> set started \<or> \<not> q_eligible (i_queued (snp_input snap) ! i) then nd
      else push_pos env (fst (snp_rows snap ! i)) (snd (snp_rows snap ! i)) (pos_of (d_info d ! i)) nd)"

definition keep_rotation :: "Rotation \<Rightarrow> FairQ \<Rightarrow> FairQ" where
  "keep_rotation rot q = q \<lparr> fq_rotation := rot, fq_store := unwrap_or (set_rotation (fq_store q) rot) (fq_store q) \<rparr>"

definition tick_starts :: "NodeEnv \<Rightarrow> Snapshot \<Rightarrow> Decision \<Rightarrow> Node \<Rightarrow> Node" where
  "tick_starts env snap d nd =
     (let (nd1, started) = foldl (start_one env (snp_rows snap)) (nd, []) (d_start d);
          nd2 = on_fairq (keep_rotation (d_rotation d)) nd1
      in foldl (push_one env snap d started) nd2 [0..<length (snp_rows snap)])"

definition before_starts :: "NodeEnv \<Rightarrow> Node \<Rightarrow> Node" where
  "before_starts env nd = (let nd1 = account env nd in foldl (end_shares env) nd1 (map nt_slot (nd_tenants nd1)))"

definition tick :: "NodeEnv \<Rightarrow> Node \<Rightarrow> Node option" where
  "tick env nd =
     (let nd1 = before_starts env nd; snap = snapshot env nd1
      in if i_queued (snp_input snap) = [] then Some nd1
         else map_option (\<lambda>d. tick_starts env snap d nd1) (decide (snp_input snap)))"

section \<open>What a server may see\<close>

definition node_quotes :: "NodeEnv \<Rightarrow> Node \<Rightarrow> Slot \<Rightarrow> QuoteView option list" where
  "node_quotes env nd slot = map (\<lambda>(cpu, mem). quote (snp_input (snapshot env nd)) slot cpu mem) (asks (fq_store (nd_fairq nd)) slot)"

definition renumber :: "nat \<Rightarrow> QueueEntry \<Rightarrow> QueueEntry" where
  "renumber i e = e \<lparr> qe_pos := as_u32 (as_u32 i + 1) \<rparr>"

definition node_view :: "NodeEnv \<Rightarrow> Node \<Rightarrow> NodeTenant \<Rightarrow> string \<Rightarrow> QueueView option" where
  "node_view env nd t request_id =
     (let snap = snapshot env nd; inp = snp_input snap
      in map_option (\<lambda>d.
           (let v = view inp d \<lparr> vw_slot = nt_slot t, vw_owner = (nt_slot t = OWNER_SLOT), vw_labels = snp_labels snap,
                      vw_tiers = speaks_tiers t, vw_tiers2 = speaks_tiers2 t \<rparr> request_id;
                live = (nt_slot t = OWNER_SLOT \<or> nt_status t \<in> {Some St_Active, Some St_Paused, Some St_Pending})
            in if live then v
               else v \<lparr> qv_entries := map (\<lambda>(i, e). renumber i e) (List.enumerate 0 (filter qe_mine (qv_entries v))), qv_totals := [] \<rparr>))
         (decide inp))"

end
