(* ===== verification/Node_Safe.thy ===== *)
theory Node_Safe
  imports Fair_Tick
begin

text \<open>
  How the ledgers of a node may change: \<open>safe\<close> relates two states of a node when no row leaves the table or goes back to
  the queue, no ended row changes its result, and every attempt launched between them had no started row before and has
  one after. Every handler of \<open>Node_Jobs\<close> and \<open>Fair_Tick\<close> is shown to be safe; the properties are in \<open>Node_Rules\<close>.
\<close>

section \<open>Ledgers\<close>

definition result_of :: "LedgerRow \<Rightarrow> JobState \<times> string option \<times> string option \<times> ExitInfo option \<times> int option
    \<times> SrcRan option \<times> Outputs option \<times> SignedReceipt option" where
  "result_of r = (lr_state r, lr_reason r, lr_detail r, lr_exit r, lr_ended_at r, lr_src r, lr_outputs r, lr_receipt r)"

definition same_fence :: "LedgerRow \<Rightarrow> LedgerRow \<Rightarrow> bool" where
  "same_fence r r' \<longleftrightarrow> lr_job_id r' = lr_job_id r \<and> lr_generation r' = lr_generation r"

definition lrow_adv :: "LedgerRow \<Rightarrow> LedgerRow \<Rightarrow> bool" where
  "lrow_adv r r' \<longleftrightarrow> same_fence r r' \<and> (lr_state r' = JS_Queued \<longrightarrow> lr_state r = JS_Queued)
     \<and> (is_terminal (lr_state r) \<longrightarrow> result_of r' = result_of r)"

definition ledger_adv :: "ledger \<Rightarrow> ledger \<Rightarrow> bool" where
  "ledger_adv l l' \<longleftrightarrow> (\<exists>old new. l' = old @ new \<and> list_all2 lrow_adv l old) \<and> (distinct (fences l) \<longrightarrow> distinct (fences l'))"

lemma lrow_adv_refl [simp]: "lrow_adv r r"
  by (simp add: lrow_adv_def same_fence_def)

lemma result_state: "result_of r = result_of r' \<Longrightarrow> lr_state r = lr_state r'"
  unfolding result_of_def by simp

lemma lrow_adv_trans: "lrow_adv a b \<Longrightarrow> lrow_adv b c \<Longrightarrow> lrow_adv a c"
  using result_state [of b a] unfolding lrow_adv_def same_fence_def by metis

lemma ledger_adv_refl [simp]: "ledger_adv l l"
  unfolding ledger_adv_def using list_all2_refl [of lrow_adv] lrow_adv_refl by (metis append.right_neutral)

lemma ledger_adv_trans: 
  assumes "ledger_adv a b" "ledger_adv b c"
  shows "ledger_adv a c"
proof -
  obtain o1 n1 o2 n2 where b: "b = o1 @ n1" "list_all2 lrow_adv a o1" and c: "c = o2 @ n2" "list_all2 lrow_adv b o2"
    using assms by (auto simp: ledger_adv_def)
  obtain x y where o2: "o2 = x @ y" "list_all2 lrow_adv o1 x"
    using c(2) unfolding b(1) by (auto simp: list_all2_append1)
  have "list_all2 lrow_adv a x" by (rule list_all2_trans [OF lrow_adv_trans b(2) o2(2)])
  then show ?thesis using assms c(1) o2(1) by (auto simp: ledger_adv_def)
qed

lemma fences_all2: "list_all2 same_fence l l' \<Longrightarrow> fences l' = fences l"
  by (induction rule: list_all2_induct) (simp_all add: fences_def same_fence_def)

lemma adv_fences: "list_all2 lrow_adv l l' \<Longrightarrow> ledger_adv l l'"
  using fences_all2 [of l l'] list_all2_mono [of lrow_adv l l' same_fence]
  by (auto simp: ledger_adv_def lrow_adv_def)

lemma lset_adv: "(\<And>r. p r \<Longrightarrow> lrow_adv r (f r)) \<Longrightarrow> ledger_adv l (lset p f l)"
  by (intro adv_fences) (auto simp: lset_def list_all2_map2 intro: list_all2_refl)

lemma insert_adv: "ledger_insert_row l r = Some l' \<Longrightarrow> ledger_adv l l'"
  using insert_row_fences [of l r l'] list_all2_refl [of lrow_adv l]
  by (auto simp: ledger_adv_def ledger_insert_row_def split: if_splits)

lemma adv_get:
  assumes "ledger_adv l l'" "ledger_get l job g = Some r"
  shows "\<exists>r'. ledger_get l' job g = Some r' \<and> lrow_adv r r'"
proof -
  obtain old new where l: "l' = old @ new" "list_all2 lrow_adv l old" using assms(1) by (auto simp: ledger_adv_def)
  from l(2) assms(2) have "\<exists>r'. ledger_get old job g = Some r' \<and> lrow_adv r r'"
    by (induction rule: list_all2_induct) (auto simp: ledger_get_def fence_is_def lrow_adv_def same_fence_def split: if_splits)
  moreover have "ledger_get old job g = Some r' \<Longrightarrow> ledger_get (old @ new) job g = Some r'" for r'
    by (induction old) (auto simp: ledger_get_def)
  ultimately show ?thesis using l(1) by blast
qed

text \<open>Writes to one row.\<close>

definition touches :: "string \<Rightarrow> nat \<Rightarrow> ledger \<Rightarrow> ledger \<Rightarrow> bool" where
  "touches job g = list_all2 (\<lambda>r r'. same_fence r r' \<and> (\<not> fence_is job g r \<longrightarrow> r' = r))"

lemma touches_refl [simp]: "touches job g l l"
  by (simp add: touches_def list_all2_refl same_fence_def)

lemma touches_trans: "touches job g a b \<Longrightarrow> touches job g b c \<Longrightarrow> touches job g a c"
  unfolding touches_def by (erule list_all2_trans [rotated], assumption) (auto simp: same_fence_def fence_is_def)

lemma touches_lset:
  assumes "\<And>r. p r \<Longrightarrow> fence_is job g r" "\<And>r. same_fence r (f r)"
  shows "touches job g l (lset p f l)"
  using assms by (auto simp: touches_def lset_def list_all2_map2 same_fence_def intro!: list_all2_refl)

lemma touches_fences: "touches job g l l' \<Longrightarrow> fences l' = fences l"
  unfolding touches_def by (rule fences_all2) (auto elim: list_all2_mono)

lemma touch_adv:
  assumes "distinct (fences l)" "touches job g l l'" "ledger_get l job g = Some r" "ledger_get l' job g = Some r'" "lrow_adv r r'"
  shows "ledger_adv l l'"
proof (rule adv_fences)
  from assms(2,1,3,4) show "list_all2 lrow_adv l l'"
    unfolding touches_def
  proof (induction rule: list_all2_induct)
    case (Cons x xs y ys)
    show ?case
    proof (cases "fence_is job g x")
      case True
      then have e: "x = r" "y = r'" using Cons.hyps(1) Cons.prems by (auto simp: ledger_get_def fence_is_def same_fence_def)
      have "(job, g) \<notin> set (fences xs)" using Cons.prems(1) True by (auto simp: fences_def fence_is_def image_iff)
      then have "\<not> fence_is job g z" if "z \<in> set xs" for z using that by (auto simp: fences_def fence_is_def image_iff)
      with Cons.hyps(2) have "ys = xs" by (induction rule: list_all2_induct) auto
      then show ?thesis using e assms(5) by (simp add: list_all2_refl)
    next
      case False
      then have "y = x" using Cons.hyps(1) by blast
      moreover have "list_all2 lrow_adv xs ys"
        using Cons.IH Cons.prems False \<open>y = x\<close> by (simp add: fences_def ledger_get_def)
      ultimately show ?thesis by simp
    qed
  qed simp
qed

section \<open>The statements of the ledger\<close>

lemma queued_not_terminal [simp]: "\<not> is_terminal JS_Queued" "\<not> is_terminal JS_Preparing"
  by (simp_all add: is_terminal_def)

lemma guarded_hit:
  assumes "distinct (fences l)" "lhits (\<lambda>r. fence_is job g r \<and> q r) l = 1"
    "\<And>r. lr_job_id (f r) = lr_job_id r \<and> lr_generation (f r) = lr_generation r"
  shows "\<exists>r. ledger_get l job g = Some r \<and> q r \<and> ledger_get (lset (\<lambda>r. fence_is job g r \<and> q r) f l) job g = Some (f r)"
proof -
  define p where "p = (\<lambda>r. fence_is job g r \<and> q r)"
  have h: "lhits p l = (case ledger_get l job g of Some r \<Rightarrow> if p r then 1 else 0 | None \<Rightarrow> 0)"
    by (rule lhits_once [OF assms(1)]) (simp add: p_def)
  have g: "ledger_get (lset p f l) job g = map_option (\<lambda>r. if p r then f r else r) (ledger_get l job g)"
    by (rule get_lset) (rule assms(3))
  have "lhits p l = 1" using assms(2) by (simp only: p_def)
  with h have n: "(case ledger_get l job g of Some r \<Rightarrow> if p r then 1 else 0 | None \<Rightarrow> 0) = (1 :: nat)" by (rule subst)
  show ?thesis
  proof (cases "ledger_get l job g")
    case None
    with n show ?thesis by simp
  next
    case (Some r)
    with n have "p r" by (simp split: if_splits)
    then have "q r" by (simp add: p_def)
    with Some g \<open>p r\<close> show ?thesis unfolding p_def [symmetric] by simp
  qed
qed

lemma dequeue_adv: "ledger_adv l (fst (dequeue l job g ck))"
  unfolding dequeue_def Let_def fst_conv by (rule lset_adv) (simp add: lrow_adv_def same_fence_def)

lemma dequeue_get:
  assumes "distinct (fences l)" "dequeue l job g ck = (l', True)"
  shows "\<exists>r r'. ledger_get l job g = Some r \<and> lr_state r = JS_Queued \<and> ledger_get l' job g = Some r' \<and> lr_state r' = JS_Preparing"
  using guarded_hit [OF assms(1), of job g "\<lambda>r. lr_state r = JS_Queued"
    "\<lambda>r. r \<lparr> lr_state := JS_Preparing, lr_reason := None, lr_detail := None, lr_boot_id := ck_boot_id ck \<rparr>"] assms(2)
  unfolding dequeue_def Let_def prod.inject by fastforce

lemma cancel_queued_adv: "ledger_adv l (fst (cancel_queued l job g reason detail at))"
  unfolding cancel_queued_def Let_def fst_conv by (rule lset_adv) (simp add: lrow_adv_def same_fence_def)

lemma cancel_queued_touches: "touches job g l (fst (cancel_queued l job g reason detail at))"
  unfolding cancel_queued_def Let_def fst_conv by (rule touches_lset) (simp_all add: same_fence_def)

lemma set_receipt_touches: "touches job g l (set_receipt l job g rc)"
  unfolding set_receipt_def by (rule touches_lset) (simp_all add: same_fence_def)

lemma set_receipt_get: "ledger_get (set_receipt l job g rc) job g = map_option (\<lambda>r. r \<lparr> lr_receipt := Some rc \<rparr>) (ledger_get l job g)"
  unfolding set_receipt_def by (subst get_lset) (auto dest: get_Some simp: fence_is_def intro!: map_option_cong)

lemma cancel_queued_get:
  assumes "distinct (fences l)" "cancel_queued l job g reason detail at = (l', True)"
  shows "\<exists>r. ledger_get l job g = Some r \<and> lr_state r = JS_Queued
    \<and> ledger_get l' job g = Some (r \<lparr> lr_state := JS_Cancelled, lr_reason := Some reason, lr_detail := detail, lr_ended_at := Some at \<rparr>)"
  using guarded_hit [OF assms(1), of job g "\<lambda>r. lr_state r = JS_Queued"
    "\<lambda>r. r \<lparr> lr_state := JS_Cancelled, lr_reason := Some reason, lr_detail := detail, lr_ended_at := Some at \<rparr>"] assms(2)
  unfolding cancel_queued_def Let_def prod.inject by fastforce

lemma cancel_receipt_adv:
  assumes "distinct (fences l)" "cancel_queued l job g reason detail at = (l', True)"
  shows "ledger_adv l (case rc of Some rc \<Rightarrow> set_receipt l' job g rc | None \<Rightarrow> l')"
proof -
  have l': "l' = fst (cancel_queued l job g reason detail at)" using assms(2) by simp
  obtain r where r: "ledger_get l job g = Some r" "lr_state r = JS_Queued"
      "ledger_get l' job g = Some (r \<lparr> lr_state := JS_Cancelled, lr_reason := Some reason, lr_detail := detail, lr_ended_at := Some at \<rparr>)"
    using cancel_queued_get [OF assms] by blast
  show ?thesis
  proof (cases rc)
    case (Some x)
    have "touches job g l (set_receipt l' job g x)"
      using touches_trans [OF cancel_queued_touches set_receipt_touches] unfolding l' .
    from touch_adv [OF assms(1) this r(1)] show ?thesis
      using r by (simp add: Some set_receipt_get lrow_adv_def same_fence_def)
  qed (use cancel_queued_adv l' in simp)
qed

lemma ended_row_fence [simp]: "lr_job_id (ended_row s reason detail x n at r) = lr_job_id r"
    "lr_generation (ended_row s reason detail x n at r) = lr_generation r" "lr_state (ended_row s reason detail x n at r) = s"
  by (simp_all add: ended_row_def)

lemma finish_adv: "s \<noteq> JS_Queued \<Longrightarrow> ledger_adv l (fst (ledger_finish l job g s reason detail x n at))"
  unfolding ledger_finish_def Let_def fst_conv by (rule lset_adv) (simp add: lrow_adv_def same_fence_def)

lemma finish_touches: "touches job g l (fst (ledger_finish l job g s reason detail x n at))"
  unfolding ledger_finish_def Let_def fst_conv by (rule touches_lset) (simp_all add: same_fence_def)

lemma finish_get:
  assumes "distinct (fences l)" "ledger_finish l job g s reason detail x n at = (l', True)"
  shows "\<exists>r. ledger_get l job g = Some r \<and> \<not> is_terminal (lr_state r)
    \<and> ledger_get l' job g = Some (ended_row s reason detail x n at r)"
  using guarded_hit [OF assms(1), of job g "\<lambda>r. \<not> is_terminal (lr_state r)" "ended_row s reason detail x n at"] assms(2)
  unfolding ledger_finish_def Let_def prod.inject by fastforce

lemma set_src_touches: "touches job g l (set_src l job g x)" "touches job g l (set_outputs l job g y)"
  unfolding set_src_def set_outputs_def by (rule touches_lset; simp add: same_fence_def)+

lemma touches_state:
  assumes "ledger_get l job g = Some r" "\<And>r. lr_job_id (f r) = lr_job_id r \<and> lr_generation (f r) = lr_generation r \<and> lr_state (f r) = lr_state r"
  shows "\<exists>r'. ledger_get (lset p f l) job g = Some r' \<and> lr_state r' = lr_state r"
  using assms by (simp add: get_lset)

lemma end_attempt_adv:
  assumes "distinct (fences l)" "s \<noteq> JS_Queued"
  shows "ledger_adv l (fst (end_attempt l job g s reason detail x n at src out rc))"
proof (cases "ledger_finish l job g s reason detail x n at")
  case (Pair l1 ok)
  show ?thesis
  proof (cases ok)
    case True
    have l1: "l1 = fst (ledger_finish l job g s reason detail x n at)" using Pair by simp
    obtain r where r: "ledger_get l job g = Some r" "\<not> is_terminal (lr_state r)"
        "ledger_get l1 job g = Some (ended_row s reason detail x n at r)"
      using finish_get [OF assms(1), of job g s reason detail x n at l1] Pair True by auto
    define l2 where "l2 = (case src of Some s \<Rightarrow> set_src l1 job g s | None \<Rightarrow> l1)"
    define l3 where "l3 = (case out of Some x \<Rightarrow> set_outputs l2 job g x | None \<Rightarrow> l2)"
    define l4 where "l4 = (case rc of Some r \<Rightarrow> set_receipt l3 job g r | None \<Rightarrow> l3)"
    have "touches job g l l1" using finish_touches unfolding l1 .
    moreover have "touches job g l1 l2" unfolding l2_def by (cases src) (simp_all add: set_src_touches)
    moreover have "touches job g l2 l3" unfolding l3_def by (cases out) (simp_all add: set_src_touches)
    moreover have "touches job g l3 l4" unfolding l4_def by (cases rc) (simp_all add: set_receipt_touches)
    ultimately have t: "touches job g l l4" using touches_trans by blast
    obtain r2 where "ledger_get l2 job g = Some r2" "lr_state r2 = s"
      using touches_state [OF r(3), of "\<lambda>r. r \<lparr> lr_src := src \<rparr>" "fence_is job g"] r(3)
      by (cases src) (auto simp: l2_def set_src_def)
    then obtain r3 where "ledger_get l3 job g = Some r3" "lr_state r3 = s"
      using touches_state [of l2 job g r2 "\<lambda>r. r \<lparr> lr_outputs := out \<rparr>" "fence_is job g"]
      by (cases out) (auto simp: l3_def set_outputs_def)
    then obtain r4 where r4: "ledger_get l4 job g = Some r4" "lr_state r4 = s"
      using touches_state [of l3 job g r3 "\<lambda>r. r \<lparr> lr_receipt := rc \<rparr>" "fence_is job g"]
      by (cases rc) (auto simp: l4_def set_receipt_def)
    have "same_fence r r4" using get_Some [OF r(1)] get_Some [OF r4(1)] by (simp add: same_fence_def)
    then have "lrow_adv r r4" using assms(2) r(2) r4(2) by (simp add: lrow_adv_def)
    moreover have "fst (end_attempt l job g s reason detail x n at src out rc) = l4"
      using Pair True unfolding l4_def l3_def l2_def by (simp add: end_attempt_def Let_def)
    ultimately show ?thesis using touch_adv [OF assms(1) t r(1) r4(1)] by simp
  next
    case False
    then show ?thesis using Pair by (simp add: end_attempt_def)
  qed
qed

lemma set_state_adv: "s \<noteq> JS_Queued \<Longrightarrow> ledger_adv l (set_state l job g s reason detail)"
  unfolding set_state_def by (rule lset_adv) (simp add: lrow_adv_def same_fence_def)

lemma set_run_adv: "ledger_adv l (set_run l job g x)"
  unfolding set_run_def by (rule lset_adv) (simp add: lrow_adv_def same_fence_def)

lemma mark_cleaned_adv: "ledger_adv l (mark_cleaned l job g)"
  unfolding mark_cleaned_def by (rule lset_adv) (simp add: lrow_adv_def same_fence_def result_of_def)

lemma set_running_adv:
  assumes "distinct (fences l)" "ledger_get l job g = Some r" "lr_state r = JS_Preparing"
  shows "ledger_adv l (set_running l job g pid src at)"
proof (rule touch_adv [OF assms(1) _ assms(2)])
  show "touches job g l (set_running l job g pid src at)"
    unfolding set_running_def by (rule touches_lset) (simp_all add: same_fence_def)
  have "fence_is job g r" using get_Some [OF assms(2)] by (simp add: fence_is_def)
  then show "ledger_get (set_running l job g pid src at) job g = Some (r \<lparr> lr_state := JS_Running, lr_pid := Some pid, lr_src := src, lr_started_at := Some at \<rparr>)"
    using assms(2) by (simp add: set_running_def get_lset)
qed (use assms(3) in \<open>simp add: lrow_adv_def same_fence_def\<close>)

lemma fold_adv:
  assumes "\<And>acc r. ledger_adv (fst acc) (fst (f acc r))"
  shows "ledger_adv (fst acc) (fst (foldl f acc rs))"
proof (induction rs arbitrary: acc)
  case (Cons r rs)
  show ?case using ledger_adv_trans [OF assms [of acc r] Cons.IH] by simp
qed simp

lemma reconcile_adv: "ledger_adv l (fst (reconcile env recent adoptable l))"
proof -
  have "ledger_adv l (fst (reconcile_boot l ck))" for l ck
    unfolding reconcile_boot_def
    by (rule fold_adv [of _ "(l, _)", simplified]) (auto simp: reconcile_one_def case_prod_unfold intro: finish_adv)
  moreover have "ledger_adv l (fst (interrupt_open_except l why keep ck))" for l why keep ck
    unfolding interrupt_open_except_def
    by (rule fold_adv [of _ "(l, _)", simplified]) (auto simp: interrupt_one_def case_prod_unfold intro: finish_adv)
  ultimately show ?thesis unfolding reconcile_def Let_def fst_conv by (rule ledger_adv_trans)
qed

section \<open>Nodes\<close>

fun run_key :: "Task \<Rightarrow> Key option" where
  "run_key (RunJob slot a) = Some (fence_key slot a)"
| "run_key (FinishJob slot a s reason detail src out) = None"

definition launched :: "Node \<Rightarrow> Key list" where
  "launched nd = List.map_filter run_key (nd_tasks nd)"

definition taken :: "Node \<Rightarrow> Key \<Rightarrow> bool" where
  "taken nd k \<longleftrightarrow> (\<exists>r. ledger_get (ledger_of nd (fst k)) (fst (snd k)) (snd (snd k)) = Some r \<and> lr_state r \<noteq> JS_Queued)"

definition good :: "Node \<Rightarrow> bool" where
  "good nd \<longleftrightarrow> distinct (map nt_slot (nd_tenants nd)) \<and> (\<forall>slot. distinct (fences (ledger_of nd slot)))"

definition node_adv :: "Node \<Rightarrow> Node \<Rightarrow> bool" where
  "node_adv nd nd' \<longleftrightarrow> map nt_slot (nd_tenants nd') = map nt_slot (nd_tenants nd)
     \<and> (\<forall>slot. ledger_adv (ledger_of nd slot) (ledger_of nd' slot))
     \<and> (\<exists>ks. launched nd' = launched nd @ ks \<and> distinct ks \<and> (\<forall>k \<in> set ks. \<not> taken nd k \<and> taken nd' k))"

definition safe :: "Node \<Rightarrow> Node \<Rightarrow> bool" where
  "safe nd nd' \<longleftrightarrow> (good nd \<longrightarrow> node_adv nd nd')"

lemma good_adv: "good nd \<Longrightarrow> node_adv nd nd' \<Longrightarrow> good nd'"
  by (simp add: good_def node_adv_def ledger_adv_def)

lemma taken_adv:
  assumes "\<forall>slot. ledger_adv (ledger_of nd slot) (ledger_of nd' slot)" "taken nd k"
  shows "taken nd' k"
  using assms adv_get unfolding taken_def lrow_adv_def by metis

lemma node_adv_trans:
  assumes "node_adv a b" "node_adv b c"
  shows "node_adv a c"
proof -
  obtain k1 k2 where k1: "launched b = launched a @ k1" "distinct k1" "\<forall>k \<in> set k1. \<not> taken a k \<and> taken b k"
    and k2: "launched c = launched b @ k2" "distinct k2" "\<forall>k \<in> set k2. \<not> taken b k \<and> taken c k"
    using assms by (auto simp: node_adv_def)
  have l: "\<forall>slot. ledger_adv (ledger_of a slot) (ledger_of b slot)" "\<forall>slot. ledger_adv (ledger_of b slot) (ledger_of c slot)"
    using assms by (simp_all add: node_adv_def)
  have "\<forall>k \<in> set (k1 @ k2). \<not> taken a k \<and> taken c k"
    using k1(3) k2(3) taken_adv [OF l(1)] taken_adv [OF l(2)] by auto
  moreover have "distinct (k1 @ k2)" using k1 k2 by auto
  moreover have "ledger_adv (ledger_of a slot) (ledger_of c slot)" for slot
    by (rule ledger_adv_trans [of _ "ledger_of b slot"]) (use l in blast)+
  ultimately show ?thesis using assms k1(1) k2(1) unfolding node_adv_def by (metis append.assoc)
qed

lemma safe_trans [trans]: "safe a b \<Longrightarrow> safe b c \<Longrightarrow> safe a c"
  unfolding safe_def using good_adv node_adv_trans by blast

lemma safe_refl [simp]: "safe nd nd"
  by (simp add: safe_def node_adv_def)

lemma safe_foldl: "(\<And>nd x. safe nd (f nd x)) \<Longrightarrow> safe nd (foldl f nd xs)"
  by (induction xs arbitrary: nd) (auto intro: safe_trans)

lemma safe_foldl_fst: "(\<And>acc x. safe (fst acc) (fst (f acc x))) \<Longrightarrow> safe (fst acc) (fst (foldl f acc xs))"
proof (induction xs arbitrary: acc)
  case (Cons x xs)
  show ?case using safe_trans [OF Cons.prems [of acc x] Cons.IH [OF Cons.prems, of "f acc x"]] by simp
qed simp

section \<open>The parts a handler writes\<close>

definition ledgers :: "Node \<Rightarrow> (Slot \<times> ledger) list" where
  "ledgers nd = map (\<lambda>t. (nt_slot t, nt_ledger t)) (nd_tenants nd)"

lemma ledger_of_map: "ledger_of nd slot = (case map_of (ledgers nd) slot of Some l \<Rightarrow> l | None \<Rightarrow> [])"
proof -
  have "map_option nt_ledger (find (\<lambda>t. nt_slot t = slot) ts) = map_of (map (\<lambda>t. (nt_slot t, nt_ledger t)) ts) slot" for ts
    by (induction ts) auto
  from this [of "nd_tenants nd"] show ?thesis
    by (auto simp: ledger_of_def node_tenant_def ledgers_def split: option.splits)
qed

lemma slots_ledgers: "map nt_slot (nd_tenants nd) = map fst (ledgers nd)"
  by (simp add: ledgers_def comp_def)

lemma safe_same: "ledgers nd' = ledgers nd \<Longrightarrow> launched nd' = launched nd \<Longrightarrow> safe nd nd'"
  by (simp add: safe_def node_adv_def ledger_of_map slots_ledgers)

lemma same_parts [simp]:
  "ledgers (on_fairq f nd) = ledgers nd" "ledgers (tell slot u nd) = ledgers nd"
  "ledgers (nd \<lparr> nd_jobs := js \<rparr>) = ledgers nd" "ledgers (nd \<lparr> nd_fairq := q \<rparr>) = ledgers nd"
  "ledgers (nd \<lparr> nd_tasks := ts \<rparr>) = ledgers nd" "ledgers (nd \<lparr> nd_job_seq := n \<rparr>) = ledgers nd"
  "nd_tasks (on_fairq f nd) = nd_tasks nd" "nd_tasks (tell slot u nd) = nd_tasks nd" "nd_tasks (put_ledger slot l nd) = nd_tasks nd"
  "nd_jobs (on_fairq f nd) = nd_jobs nd" "nd_jobs (tell slot u nd) = nd_jobs nd" "nd_jobs (put_ledger slot l nd) = nd_jobs nd"
  "nd_fairq (on_fairq f nd) = f (nd_fairq nd)" "nd_fairq (tell slot u nd) = nd_fairq nd" "nd_fairq (put_ledger slot l nd) = nd_fairq nd"
  "nd_job_seq (put_ledger slot l nd) = nd_job_seq nd"
  by (auto simp: ledgers_def on_fairq_def tell_def on_tenant_def put_ledger_def hub_send_def)

lemma ledgers_put: "ledgers (put_ledger slot l nd) = map (\<lambda>e. if fst e = slot then (slot, l) else e) (ledgers nd)"
  by (auto simp: ledgers_def put_ledger_def on_tenant_def)

lemma ledger_of_same [simp]:
  "ledger_of (on_fairq f nd) s = ledger_of nd s" "ledger_of (tell slot u nd) s = ledger_of nd s"
  "ledger_of (nd \<lparr> nd_jobs := js \<rparr>) s = ledger_of nd s" "ledger_of (nd \<lparr> nd_fairq := q \<rparr>) s = ledger_of nd s"
  "ledger_of (nd \<lparr> nd_tasks := ts \<rparr>) s = ledger_of nd s" "ledger_of (nd \<lparr> nd_job_seq := n \<rparr>) s = ledger_of nd s"
  by (simp_all add: ledger_of_map)

lemma launched_parts [simp]:
  "launched (on_fairq f nd) = launched nd" "launched (tell slot u nd) = launched nd" "launched (put_ledger slot l nd) = launched nd"
  "launched (nd \<lparr> nd_jobs := js \<rparr>) = launched nd" "launched (nd \<lparr> nd_fairq := q \<rparr>) = launched nd"
  by (simp_all add: launched_def)

lemma ledger_of_put: "ledger_of (put_ledger slot l nd) s =
    (if s = slot \<and> slot \<in> set (map fst (ledgers nd)) then l else ledger_of nd s)"
proof -
  have "map_of (map (\<lambda>e. if fst e = slot then (slot, l) else e) es) s =
      (if s = slot \<and> slot \<in> fst ` set es then Some l else map_of es s)" for es :: "(Slot \<times> ledger) list"
    by (cases "s = slot"; induction es) auto
  then show ?thesis by (simp add: ledger_of_map ledgers_put)
qed

lemma ledger_of_put_adv:
  "ledger_adv (ledger_of nd slot) l \<Longrightarrow> ledger_adv (ledger_of nd s) (ledger_of (put_ledger slot l nd) s)"
  by (simp add: ledger_of_put)

lemma tenant_slot: "node_tenant nd slot = Some t \<Longrightarrow> slot \<in> set (map fst (ledgers nd)) \<and> nt_slot t = slot \<and> ledger_of nd slot = nt_ledger t"
  using find_Some_iff [of "\<lambda>t. nt_slot t = slot" "nd_tenants nd" t]
  by (auto simp: node_tenant_def slots_ledgers [symmetric] ledger_of_def)

lemma put_safe: "(distinct (fences (ledger_of nd slot)) \<Longrightarrow> ledger_adv (ledger_of nd slot) l) \<Longrightarrow> safe nd (put_ledger slot l nd)"
  unfolding safe_def node_adv_def
  using ledger_of_put_adv [of nd slot l] by (auto simp: good_def slots_ledgers ledgers_put comp_def)

end
