(* ===== verification/Node_Handlers.thy ===== *)
theory Node_Handlers
  imports Node_Safe
begin

text \<open>Every handler of the node is \<open>safe\<close>: the lemmas the properties of \<open>Node_Rules\<close> rest on.\<close>

section \<open>Starting\<close>

lemma launch_ledgers [simp]: "ledgers (launch env slot a nd) = ledgers nd"
  by (simp add: launch_def ledgers_def on_fairq_def)

lemma launch_ledger_of [simp]: "ledger_of (launch env slot a nd) s = ledger_of nd s"
  by (simp add: ledger_of_map)

lemma launch_launched [simp]: "launched (launch env slot a nd) = launched nd @ [fence_key slot a]"
  by (simp add: launch_def launched_def on_fairq_def List.map_filter_def comp_def fence_key_def)

lemma launch_put_safe:
  assumes "slot \<in> set (map fst (ledgers nd))"
    and "good nd \<Longrightarrow> ledger_adv (ledger_of nd slot) l"
    and "good nd \<Longrightarrow> \<not> taken nd (fence_key slot a)"
    and "good nd \<Longrightarrow> \<exists>r. ledger_get l (fe_job_id (as_fence a)) (fe_generation (as_fence a)) = Some r \<and> lr_state r \<noteq> JS_Queued"
  shows "safe nd (launch env slot a (put_ledger slot l nd))"
  unfolding safe_def
proof
  assume g: "good nd"
  have "taken (launch env slot a (put_ledger slot l nd)) (fence_key slot a)"
    using assms(1) assms(4) [OF g] by (simp add: taken_def fence_key_def ledger_of_put)
  moreover have "map fst (ledgers (put_ledger slot l nd)) = map fst (ledgers nd)" by (auto simp: ledgers_put)
  ultimately show "node_adv nd (launch env slot a (put_ledger slot l nd))"
    using assms(3) [OF g] ledger_of_put_adv [OF assms(2) [OF g]]
    by (auto simp: node_adv_def slots_ledgers intro!: exI [of _ "[fence_key slot a]"])
qed

lemma good_fences: "good nd \<Longrightarrow> distinct (fences (ledger_of nd slot))"
  by (simp add: good_def)

lemma insert_row_get: "ledger_insert_row l r = Some l' \<Longrightarrow>
    ledger_get l (lr_job_id r) (lr_generation r) = None
    \<and> (\<exists>r'. ledger_get l' (lr_job_id r) (lr_generation r) = Some r' \<and> lr_state r' = lr_state r)"
  by (auto simp: ledger_insert_row_def get_snoc fence_is_def split: if_splits)

lemma new_row_fence [simp]: "lr_job_id (new_ledger_row a ck) = fe_job_id (as_fence a)"
    "lr_generation (new_ledger_row a ck) = fe_generation (as_fence a)" "lr_state (new_ledger_row a ck) = JS_Preparing"
  by (simp_all add: new_ledger_row_def Let_def)

lemma tell_safe [simp]: "safe nd (tell slot u nd)"
  by (rule safe_same) simp_all

lemma fairq_safe [simp]: "safe nd (on_fairq f nd)"
  by (rule safe_same) simp_all

lemma jobs_safe [simp]: "safe nd (nd \<lparr> nd_jobs := js \<rparr>)"
  by (rule safe_same) simp_all

lemma start_now_safe:
  assumes "node_tenant nd slot = Some t"
  shows "safe nd (fst (start_now env t a nd))"
proof (cases "assign_refusal env nd t a")
  case None
  note s = tenant_slot [OF assms]
  show ?thesis
  proof (cases "secret_isolation_wait env nd (nt_slot t) (pl_workspace_id (as_plan a)) (pl_secret_env (as_plan a) \<noteq> [])")
    case iso: None
    show ?thesis
    proof (cases "ledger_insert (ledger_of nd (nt_slot t)) a (ne_clock env)")
      case (Some l)
      then have i: "ledger_insert_row (ledger_of nd slot) (new_ledger_row a (ne_clock env)) = Some l"
        using s by (simp add: ledger_insert_def)
      have "safe nd (launch env slot a (put_ledger slot l nd))"
        using s insert_adv [OF i] insert_row_get [OF i]
        by (intro launch_put_safe) (auto simp: taken_def fence_key_def)
      then show ?thesis using None iso Some s by (simp add: start_now_def Let_def)
    qed (simp add: start_now_def Let_def None iso)
  qed (simp add: start_now_def Let_def None)
qed (simp add: start_now_def Let_def)

lemma enqueue_safe: "safe nd (fst (enqueue env slot a nd))"
proof (cases "queue_refusal env nd slot a")
  case None
  show ?thesis
  proof (cases "insert_queued (ledger_of nd slot) a (ne_clock env)")
    case (Some l)
    then have "ledger_adv (ledger_of nd slot) l" unfolding insert_queued_def by (rule insert_adv)
    then have "safe nd (put_ledger slot l nd)" by (rule put_safe)
    then show ?thesis using None Some safe_trans [OF _ fairq_safe] by (simp add: enqueue_def Let_def)
  qed (simp add: enqueue_def Let_def None)
qed (simp add: enqueue_def Let_def split: prod.split)

lemma on_assign_safe: "safe nd (fst (on_assign env slot a nd))"
  by (simp add: on_assign_def Let_def enqueue_safe start_now_safe split: option.split prod.split)

section \<open>Queued rows\<close>

lemma cancel_queued_row_safe: "safe nd (fst (cancel_queued_row env slot job g reason detail nd))"
proof (cases "node_tenant nd slot")
  case (Some t)
  note s = tenant_slot [OF Some]
  obtain l ok where c: "cancel_queued (nt_ledger t) job g reason detail (ne_now env) = (l, ok)" by fastforce
  have l: "ledger_adv (ledger_of nd slot) l"
    using cancel_queued_adv [of "nt_ledger t" job g reason detail "ne_now env"] c s by simp
  show ?thesis
  proof (cases ok)
    case True
    show ?thesis
    proof (cases "ledger_get l job g")
      case None
      then show ?thesis using Some c True put_safe [OF l] by (simp add: cancel_queued_row_def)
    next
      case (Some row)
      let ?l2 = "case unrun_receipt env t row of Some rc \<Rightarrow> set_receipt l job g rc | None \<Rightarrow> l"
      have "safe nd (put_ledger slot ?l2 nd)"
        by (rule put_safe) (use cancel_receipt_adv [of "nt_ledger t" job g reason detail "ne_now env" l] c True s in auto)
      then have "safe nd (tell slot u (on_fairq f (put_ledger slot ?l2 nd)))" for u f
        by (meson safe_trans tell_safe fairq_safe)
      then show ?thesis using \<open>node_tenant nd slot = Some t\<close> c True Some by (simp add: cancel_queued_row_def Let_def)
    qed
  qed (use Some c in \<open>simp add: cancel_queued_row_def\<close>)
qed (simp add: cancel_queued_row_def)

lemma dequeue_absent: "slot \<notin> set (map fst (ledgers nd)) \<Longrightarrow> dequeue (ledger_of nd slot) job g ck = ([], False)"
  by (simp add: ledger_of_map dequeue_def Let_def lset_def lhits_def map_of_eq_None_iff [THEN iffD2])

lemma start_queued_safe: "safe nd (fst (start_queued env slot r nd))"
proof (cases "job_id_ok (row_assign r) \<and> project_key_ok (row_assign r)")
  case ok: True
  obtain l b where d: "dequeue (ledger_of nd slot) (lr_job_id r) (lr_generation r) (ne_clock env) = (l, b)" by fastforce
  show ?thesis
  proof (cases b)
    case True
    have sl: "slot \<in> set (map fst (ledgers nd))" using dequeue_absent [of slot nd "lr_job_id r" "lr_generation r" "ne_clock env"] d True by (metis prod.inject)
    have adv: "ledger_adv (ledger_of nd slot) l"
      using dequeue_adv [of "ledger_of nd slot" "lr_job_id r" "lr_generation r" "ne_clock env"] d by simp
    have g: "\<exists>x y. ledger_get (ledger_of nd slot) (lr_job_id r) (lr_generation r) = Some x \<and> lr_state x = JS_Queued
        \<and> ledger_get l (lr_job_id r) (lr_generation r) = Some y \<and> lr_state y = JS_Preparing" if "good nd"
      by (rule dequeue_get [OF good_fences [OF that]]) (use d True in simp)
    have "safe nd (launch env slot (row_assign r) (put_ledger slot l nd))"
      by (rule launch_put_safe [OF sl adv]) (use g in \<open>fastforce simp: taken_def fence_key_def row_assign_def\<close>)+
    then show ?thesis using d ok True by (simp add: start_queued_def Let_def)
  qed (use d ok in \<open>simp add: start_queued_def Let_def\<close>)
qed (use cancel_queued_row_safe in \<open>auto simp: start_queued_def Let_def\<close>)

lemma attach_row_safe: "safe nd (attach_row env slot hints epoch nd r)"
  by (simp add: attach_row_def cancel_queued_row_safe)

lemma queue_attach_safe: "safe nd (queue_attach env slot hints nd)"
  unfolding queue_attach_def by (rule safe_trans [OF safe_foldl [OF attach_row_safe] fairq_safe])

lemma cancel_counted_safe: "safe (fst acc) (fst (cancel_counted env slot reason acc r))"
  using cancel_queued_row_safe [of "fst acc" env slot "lr_job_id r" "lr_generation r" reason None]
  by (simp add: cancel_counted_def case_prod_unfold split: prod.split)

lemma queue_cancel_tenant_safe: "safe nd (fst (queue_cancel_tenant env slot reason nd))"
  unfolding queue_cancel_tenant_def using safe_foldl_fst [OF cancel_counted_safe, of "(nd, 0)"] by simp

section \<open>Ends and cancels\<close>

lemma finish_if_orphan_safe: "safe nd (fst (finish_if_orphan env slot job g s reason detail nd))"
proof -
  have "safe nd (nd \<lparr> nd_jobs := js, nd_tasks := nd_tasks nd @ [FinishJob slot a s reason detail src out] \<rparr>)" for js a src out
    by (rule safe_same) (simp_all add: ledgers_def launched_def List.map_filter_def)
  then show ?thesis by (simp add: finish_if_orphan_def split: option.split)
qed

lemma reap_row_safe: "safe (fst acc) (fst (reap_row env slot acc r))"
  using finish_if_orphan_safe [of "fst acc" env slot "lr_job_id r" "lr_generation r" JS_Failed NODE_LOST_JOB ORPHAN_DETAIL]
  by (simp add: reap_row_def case_prod_unfold split: prod.split)

lemma reap_orphans_safe: "safe nd (fst (reap_orphans env nd))"
  unfolding reap_orphans_def
  by (rule safe_foldl_fst [of _ "(nd, 0)", simplified]) (rule safe_foldl_fst, rule reap_row_safe)

lemma report_row_safe [simp]: "safe nd (report_row slot job g nd)"
  by (simp add: report_row_def split: option.split)

lemma set_stop_safe [simp]: "safe nd (set_stop k s nd)"
  by (simp add: set_stop_def split: option.split)

lemma cancel_running_safe [simp]: "safe nd (cancel_running env slot job g reason nd)"
  by (simp add: cancel_running_def split: option.split)

lemma node_cancel_safe: "safe nd (node_cancel env slot job g reason nd)"
proof -
  define nd1 where "nd1 = (if cancel_only_if_not_started reason then (nd, False) else
    finish_if_orphan env slot job g JS_Cancelled reason ''its process had already ended and its end was never recorded; recorded now'' nd)"
  have a: "safe nd (fst nd1)" by (simp add: nd1_def finish_if_orphan_safe)
  have "safe x (report_row slot job g (fst (cancel_queued_row env slot job g why None x)))" for x why
    by (rule safe_trans [OF cancel_queued_row_safe report_row_safe])
  then have "safe (fst nd1) (node_cancel env slot job g reason nd)"
    using cancel_queued_row_safe [of "fst nd1" env slot job g "cancel_why reason" None]
    unfolding node_cancel_def Let_def nd1_def [symmetric]
    by (cases nd1) (simp split: option.split prod.split bool.split; metis fst_conv)
  with a show ?thesis by (rule safe_trans)
qed

lemma hold_lingering_safe [simp]: "safe nd (hold_lingering slot keys nd)"
  unfolding hold_lingering_def by (rule safe_foldl) (unfold hold_one_def, rule safe_same, simp_all)

lemma release_lingering_safe [simp]: "safe nd (release_lingering slot key nd)"
  unfolding release_lingering_def by (rule safe_same) simp_all

lemma finish_job_safe:
  assumes "te_state e \<noteq> JS_Queued"
  shows "safe nd (finish_job env slot job g e nd)"
proof -
  have "safe nd (fst (record_finish env slot job g e nd))"
    using end_attempt_adv [OF _ assms, of "ledger_of nd slot"]
    by (auto simp: record_finish_def case_prod_unfold intro: put_safe)
  then have "safe nd (if te_tree_left e then hold_lingering slot [linger_key job g] (fst (record_finish env slot job g e nd))
      else fst (record_finish env slot job g e nd))"
    by (simp add: safe_trans [OF _ hold_lingering_safe])
  then show ?thesis unfolding finish_job_def Let_def by (rule safe_trans) simp
qed

lemma job_map_safe [simp]: "safe nd (stop_all s reason nd)" "safe nd (detach_job slot job nd)" "safe nd (set_adoptable slot job g nd)"
    "safe nd (fst (disk_stop env over nd))"
  by (simp_all add: stop_all_def detach_job_def set_adoptable_def disk_stop_def Let_def split: option.split)

section \<open>A tick\<close>

lemma account_safe [simp]: "safe nd (account env nd)"
  unfolding account_def Let_def by (rule safe_same) simp_all

lemma end_shares_safe: "safe nd (end_shares env nd slot)"
  by (simp add: end_shares_def queue_cancel_tenant_safe split: option.split ServerStatus.split)

lemma before_starts_safe: "safe nd (before_starts env nd)"
  unfolding before_starts_def Let_def by (rule safe_trans [OF account_safe safe_foldl [OF end_shares_safe]])

lemma start_one_safe: "safe (fst acc) (fst (start_one env rows acc i))"
  using start_queued_safe [of "fst acc" env "fst (rows ! i)" "snd (rows ! i)"]
  by (simp add: start_one_def case_prod_unfold split: prod.split)

lemma push_safe: "safe nd (push_one env snap d started nd i)"
proof -
  have "safe nd (on_fairq f (tell slot u nd))" for f slot u by (rule safe_trans [OF tell_safe fairq_safe])
  then show ?thesis by (simp add: push_one_def push_pos_def Let_def split: option.split)
qed

lemma tick_starts_safe: "safe nd (tick_starts env snap d nd)"
proof -
  obtain nd1 started where f: "foldl (start_one env (snp_rows snap)) (nd, []) (d_start d) = (nd1, started)" by fastforce
  have "safe nd nd1"
    using safe_foldl_fst [of "start_one env (snp_rows snap)" "(nd, [])" "d_start d", OF start_one_safe] unfolding f by simp
  also have "safe nd1 (on_fairq (keep_rotation (d_rotation d)) nd1)" by (rule fairq_safe)
  also have "safe (on_fairq (keep_rotation (d_rotation d)) nd1)
      (foldl (push_one env snap d started) (on_fairq (keep_rotation (d_rotation d)) nd1) [0..<length (snp_rows snap)])"
    by (rule safe_foldl [OF push_safe])
  finally show ?thesis by (simp add: tick_starts_def f)
qed

lemma tick_safe: "tick env nd = Some nd' \<Longrightarrow> safe nd nd'"
  using before_starts_safe safe_trans [OF before_starts_safe tick_starts_safe]
  by (auto simp: tick_def Let_def split: if_splits)

end
