(* ===== verification/Node_Rules.thy ===== *)
theory Node_Rules
  imports Node_Handlers Runs
begin

text \<open>
  The node as a transition system: every handler, the writes of a job's task, the settings of the servers and a restart of
  k2-node are steps, in any order. Pruning of rows that ended 14 days ago (\<open>janitor_tenant\<close>) is not a step: after it a
  replayed fence is unknown to the node.
\<close>

section \<open>Steps\<close>

definition node_restart :: "NodeEnv \<Rightarrow> bool \<Rightarrow> (LedgerRow \<Rightarrow> bool) \<Rightarrow> FairQ \<Rightarrow> Node \<Rightarrow> Node" where
  "node_restart env recent_update adoptable q nd =
     nd \<lparr> nd_tenants := map (\<lambda>t. t \<lparr> nt_ledger := fst (reconcile env recent_update adoptable (nt_ledger t)), nt_epoch := 0 \<rparr>) (nd_tenants nd),
          nd_jobs := [], nd_fairq := q \<rparr>"

text \<open>A task writes \<open>running\<close> once, while its row is still \<open>preparing\<close>, as \<open>launch\<close> left it: the handlers write queued
  rows only, and an orphan has started (\<open>is_orphan\<close>). The statement itself has no such guard (\<open>set_running\<close>).\<close>

inductive node_step :: "Node \<Rightarrow> Node \<Rightarrow> bool" where
  assign: "node_step nd (fst (on_assign env slot a nd))"
| cancel: "node_step nd (node_cancel env slot job g reason nd)"
| attach: "node_step nd (queue_attach env slot hints nd)"
| leave: "node_step nd (fst (queue_cancel_tenant env slot reason nd))"
| ticks: "tick env nd = Some nd' \<Longrightarrow> node_step nd nd'"
| reap: "node_step nd (fst (reap_orphans env nd))"
| session: "node_step nd (on_tenant slot (\<lambda>t. t \<lparr> nt_epoch := e, nt_room := n, nt_protocol := p, nt_status := st, nt_narrow := nl \<rparr>) nd)"
| settings: "node_step nd (on_fairq f nd)"
| stopping: "node_step nd (stop_all s reason nd)"
| disk: "node_step nd (fst (disk_stop env over nd))"
| linger: "node_step nd (hold_lingering slot keys nd)"
| unlinger: "node_step nd (release_lingering slot key nd)"
| task_running: "ledger_get (ledger_of nd slot) job g = Some r \<Longrightarrow> lr_state r = JS_Preparing \<Longrightarrow>
    node_step nd (put_ledger slot (set_running (ledger_of nd slot) job g pid src at) nd)"
| task_facts: "node_step nd (put_ledger slot (set_run (ledger_of nd slot) job g facts) nd)"
| task_adoptable: "node_step nd (set_adoptable slot job g nd)"
| task_finishing: "node_step nd (put_ledger slot (set_state (ledger_of nd slot) job g JS_Finishing None None) nd)"
| task_end: "te_state e \<noteq> JS_Queued \<Longrightarrow> node_step nd (finish_job env slot job g e nd)"
| task_detach: "node_step nd (detach_job slot job nd)"
| restart: "node_step nd (node_restart env recent_update adoptable q nd)"

inductive_cases node_stepE: "node_step nd nd'"

lemma session_safe: "safe nd (on_tenant slot (\<lambda>t. t \<lparr> nt_epoch := e, nt_room := n, nt_protocol := p, nt_status := st, nt_narrow := nl \<rparr>) nd)"
  by (rule safe_same) (simp_all add: on_tenant_def ledgers_def launched_def)

lemma restart_safe: "safe nd (node_restart env recent_update adoptable q nd)"
proof -
  let ?nd = "node_restart env recent_update adoptable q nd"
  have l: "ledgers ?nd = map (\<lambda>e. (fst e, fst (reconcile env recent_update adoptable (snd e)))) (ledgers nd)"
    by (simp add: node_restart_def ledgers_def)
  have "map_of (map (\<lambda>e. (fst e, f (snd e))) es) s = map_option f (map_of es s)"
    for f :: "ledger \<Rightarrow> ledger" and es :: "(Slot \<times> ledger) list" and s
    by (induction es) auto
  note m = this [of "\<lambda>l. fst (reconcile env recent_update adoptable l)"]
  have "ledger_adv (ledger_of nd s) (ledger_of ?nd s)" for s
    unfolding ledger_of_map l m by (cases "map_of (ledgers nd) s") (simp_all add: reconcile_adv)
  moreover have "launched ?nd = launched nd" by (simp add: node_restart_def launched_def)
  ultimately show ?thesis by (simp add: safe_def node_adv_def slots_ledgers l comp_def)
qed

lemma step_safe: "node_step nd nd' \<Longrightarrow> safe nd nd'"
proof (induction rule: node_step.induct)
  case (task_running nd slot job g r pid src at)
  then show ?case using set_running_adv by (intro put_safe) blast
qed (auto simp: on_assign_safe node_cancel_safe queue_attach_safe queue_cancel_tenant_safe tick_safe reap_orphans_safe session_safe
  restart_safe finish_job_safe set_run_adv set_state_adv intro!: put_safe)

lemma steps_safe: "node_step\<^sup>*\<^sup>* nd nd' \<Longrightarrow> safe nd nd'"
  by (induction rule: rtranclp_induct) (auto intro: safe_trans step_safe)

lemma node_step_adv: "node_step nd nd' \<Longrightarrow> good nd \<Longrightarrow> node_adv nd nd'"
  using step_safe by (simp add: safe_def)

text \<open>A node is a row machine too: the rows of its ledgers only move on.\<close>

lemma node_step_row:
  assumes "node_step nd nd'" "good nd" "ledger_get (ledger_of nd slot) job g = Some r"
  shows "\<exists>r'. ledger_get (ledger_of nd' slot) job g = Some r' \<and> lrow_adv r r'"
proof (rule adv_get [OF _ assms(3)])
  show "ledger_adv (ledger_of nd slot) (ledger_of nd' slot)"
    using node_step_adv [OF assms(1,2)] unfolding node_adv_def by blast
qed

definition node_row :: "Node \<Rightarrow> Key \<Rightarrow> LedgerRow option" where
  "node_row nd = (\<lambda>(slot, job, g). ledger_get (ledger_of nd slot) job g)"

interpretation nodes: row_machine node_step good node_row lrow_adv
proof
  show "lrow_adv r r" for r by (rule lrow_adv_refl)
  show "lrow_adv r1 r3" if "lrow_adv r1 r2" "lrow_adv r2 r3" for r1 r2 r3 by (rule lrow_adv_trans [OF that])
  show "good nd'" if "node_step nd nd'" "good nd" for nd nd' by (rule good_adv [OF that(2) node_step_adv [OF that]])
  show "\<exists>r'. node_row nd' k = Some r' \<and> lrow_adv r r'"
    if "node_step nd nd'" "good nd" "node_row nd k = Some r" for nd nd' k r
  proof -
    obtain slot job g where k: "k = (slot, job, g)" by (cases k)
    show ?thesis using node_step_row [OF that(1,2)] that(3) unfolding k node_row_def prod.case by blast
  qed
qed

section \<open>Attempts and results\<close>



section \<open>A withdraw\<close>

lemma report_row_parts [simp]: "nd_jobs (report_row slot job g nd) = nd_jobs nd" "nd_tasks (report_row slot job g nd) = nd_tasks nd"
    "ledgers (report_row slot job g nd) = ledgers nd"
  by (simp_all add: report_row_def split: option.split)

text \<open>A withdraw (or a cancel of a job only while it is queued) never touches a started job: no row, running job or task
  changes, only its real state is sent.\<close>

theorem withdraw_spares_started:
  assumes "cancel_only_if_not_started reason" "ledger_get (ledger_of nd slot) job g = Some r" "lr_state r \<noteq> JS_Queued"
  shows "ledgers (node_cancel env slot job g reason nd) = ledgers nd
    \<and> nd_jobs (node_cancel env slot job g reason nd) = nd_jobs nd \<and> nd_tasks (node_cancel env slot job g reason nd) = nd_tasks nd"
  using assms by (simp add: node_cancel_def cancel_running_def split: option.split)

lemma tenant_of_row: "ledger_get (ledger_of nd slot) job g = Some r \<Longrightarrow> \<exists>t. node_tenant nd slot = Some t"
  by (cases "node_tenant nd slot") (simp_all add: ledger_of_def ledger_get_def)

lemma cancel_queued_hit:
  assumes "distinct (fences l)" "ledger_get l job g = Some r" "lr_state r = JS_Queued"
  shows "\<exists>l'. cancel_queued l job g reason detail at = (l', True)"
proof -
  have "lhits (\<lambda>r. fence_is job g r \<and> lr_state r = JS_Queued) l =
      (case ledger_get l job g of Some r \<Rightarrow> if fence_is job g r \<and> lr_state r = JS_Queued then 1 else 0 | None \<Rightarrow> 0)"
    by (rule lhits_once [OF assms(1)]) simp
  moreover have "fence_is job g r" using get_Some [OF assms(2)] by (simp add: fence_is_def)
  ultimately show ?thesis using assms(2,3) by (simp add: cancel_queued_def Let_def)
qed

text \<open>A queued row that is cancelled: it has ended with the reason, and its gate is gone.\<close>

lemma cancel_queued_row_hit:
  assumes "good nd" "ledger_get (ledger_of nd slot) job g = Some r" "lr_state r = JS_Queued"
  shows "\<exists>nd' r'. cancel_queued_row env slot job g reason detail nd = (nd', True)
    \<and> ledger_get (ledger_of nd' slot) job g = Some r' \<and> lr_state r' = JS_Cancelled \<and> lr_reason r' = Some reason"
proof -
  obtain t where t: "node_tenant nd slot = Some t" using tenant_of_row [OF assms(2)] by blast
  note s = tenant_slot [OF t]
  have d: "distinct (fences (nt_ledger t))" using good_fences [OF assms(1), of slot] s by simp
  obtain l where c: "cancel_queued (nt_ledger t) job g reason detail (ne_now env) = (l, True)"
    using cancel_queued_hit [OF d] assms(2,3) s by metis
  obtain x where x: "ledger_get l job g = Some x" "lr_state x = JS_Cancelled" "lr_reason x = Some reason"
    using cancel_queued_get [OF d c] by auto
  let ?l2 = "case unrun_receipt env t x of Some rc \<Rightarrow> set_receipt l job g rc | None \<Rightarrow> l"
  have "\<exists>y. ledger_get ?l2 job g = Some y \<and> lr_state y = JS_Cancelled \<and> lr_reason y = Some reason"
    using x by (simp add: set_receipt_get split: option.split)
  then show ?thesis using s t c x by (simp add: cancel_queued_row_def Let_def ledger_of_put)
qed

lemma cancel_queued_row_tasks: "nd_tasks (fst (cancel_queued_row env slot job g reason detail nd)) = nd_tasks nd"
  by (simp add: cancel_queued_row_def Let_def split: option.split prod.split bool.split)

lemma withdraw_is:
  assumes "good nd" "ledger_get (ledger_of nd slot) job g = Some r" "lr_state r = JS_Queued" "\<not> runs_fence nd slot job g"
  shows "node_cancel env slot job g CANCEL_WITHDRAW nd = fst (cancel_queued_row env slot job g WITHDRAWN None nd)"
proof -
  have "cancel_only_if_not_started CANCEL_WITHDRAW" by (simp add: cancel_only_if_not_started_def)
  then show ?thesis
    using cancel_queued_row_hit [OF assms(1-3), of env WITHDRAWN None] assms(2-4)
    by (auto simp: node_cancel_def cancel_why_def)
qed


section \<open>A new session\<close>

lemma cancel_queued_row_fences: "fences (ledger_of (fst (cancel_queued_row env slot job g reason detail nd)) s) = fences (ledger_of nd s)"
proof (cases "node_tenant nd slot")
  case (Some t)
  obtain l b where c: "cancel_queued (nt_ledger t) job g reason detail (ne_now env) = (l, b)" by fastforce
  have "fences l = fences (nt_ledger t)"
    using touches_fences [OF cancel_queued_touches, of "nt_ledger t" job g reason detail "ne_now env"] c by simp
  moreover have "fences (set_receipt l job g rc) = fences l" for rc using touches_fences [OF set_receipt_touches] .
  ultimately show ?thesis
    using Some c tenant_slot [OF Some]
    by (auto simp: cancel_queued_row_def Let_def ledger_of_put split: bool.split option.split)
qed (simp add: cancel_queued_row_def)

lemma cancel_queued_row_gates:
  "map_of (fq_gates (nd_fairq (fst (cancel_queued_row env slot job g reason detail nd)))) k =
     map_of (fq_gates (nd_fairq nd)) k \<or> k = (slot, job, g)"
  by (auto simp: cancel_queued_row_def fq_forget_def Let_def delete_conv' split: option.split prod.split bool.split)

lemma cancel_queued_row_epoch [simp]: "epoch_of (fst (cancel_queued_row env slot job g reason detail nd)) s = epoch_of nd s"
proof -
  have "epoch_of (tell s1 u n) s = epoch_of n s" "epoch_of (on_fairq f n) s = epoch_of n s" "epoch_of (put_ledger s1 l n) s = epoch_of n s"
    for s1 u n f l
  proof -
    have "map_option nt_epoch (find (\<lambda>t. nt_slot t = s) (map (\<lambda>t. if nt_slot t = s1 then h t else t) ts)) =
        map_option nt_epoch (find (\<lambda>t. nt_slot t = s) ts)"
      if "\<And>t. nt_slot (h t) = nt_slot t \<and> nt_epoch (h t) = nt_epoch t" for h ts
      using that by (induction ts) auto
    note e = this
    have "epoch_of (on_tenant s1 h n) s = epoch_of n s" if "\<And>t. nt_slot (h t) = nt_slot t \<and> nt_epoch (h t) = nt_epoch t" for h
      using e [OF that, of "nd_tenants n"]
      by (auto simp: epoch_of_def node_tenant_def on_tenant_def split: option.splits)
    then show "epoch_of (tell s1 u n) s = epoch_of n s" "epoch_of (put_ledger s1 l n) s = epoch_of n s"
      by (simp_all add: tell_def put_ledger_def hub_send_def)
    show "epoch_of (on_fairq f n) s = epoch_of n s" by (simp add: epoch_of_def node_tenant_def on_fairq_def)
  qed
  then show ?thesis by (simp add: cancel_queued_row_def Let_def split: option.split prod.split bool.split)
qed

definition settled :: "(string \<times> nat) list \<Rightarrow> nat \<Rightarrow> Slot \<Rightarrow> Node \<Rightarrow> LedgerRow \<Rightarrow> bool" where
  "settled hints e slot nd r \<longleftrightarrow> taken nd (slot, lr_job_id r, lr_generation r)
     \<or> (resumed hints r \<and> map_of (fq_gates (nd_fairq nd)) (slot, lr_job_id r, lr_generation r) = Some e)"

lemma attach_row_keeps:
  assumes "good nd" "settled hints e slot nd r"
  shows "settled hints e slot (attach_row env slot hints e nd x) r"
proof (cases "taken nd (slot, lr_job_id r, lr_generation r)")
  case True
  then show ?thesis
    using attach_row_safe [of nd env slot hints e x] assms(1) taken_adv by (auto simp: settled_def safe_def node_adv_def)
next
  case False
  then have r: "resumed hints r" "map_of (fq_gates (nd_fairq nd)) (slot, lr_job_id r, lr_generation r) = Some e"
    using assms(2) by (simp_all add: settled_def)
  show ?thesis
  proof (cases "resumed hints x")
    case True
    then show ?thesis using r by (simp add: attach_row_def settled_def fq_gate_def update_conv')
  next
    case False
    then have "(slot, lr_job_id r, lr_generation r) \<noteq> (slot, lr_job_id x, lr_generation x)"
      using r(1) by (auto simp: resumed_def)
    then show ?thesis
      using r False cancel_queued_row_gates [of env slot "lr_job_id x" "lr_generation x" SUPERSEDED
        "Some ''the server no longer lists this job''" nd "(slot, lr_job_id r, lr_generation r)"]
      by (auto simp: attach_row_def settled_def)
  qed
qed

lemma attach_row_settles:
  assumes "good nd" "ledger_get (ledger_of nd slot) (lr_job_id x) (lr_generation x) \<noteq> None"
  shows "settled hints e slot (attach_row env slot hints e nd x) x"
proof (cases "resumed hints x")
  case True
  then show ?thesis by (simp add: attach_row_def settled_def fq_gate_def update_conv')
next
  case False
  obtain r where r: "ledger_get (ledger_of nd slot) (lr_job_id x) (lr_generation x) = Some r" using assms(2) by blast
  show ?thesis
  proof (cases "lr_state r = JS_Queued")
    case True
    then show ?thesis
      using cancel_queued_row_hit [OF assms(1) r True, of env SUPERSEDED "Some ''the server no longer lists this job''"] False
      by (auto simp: attach_row_def settled_def taken_def)
  next
    case nq: False
    then have "settled hints e slot nd x" using r by (simp add: settled_def taken_def)
    from attach_row_keeps [OF assms(1) this] show ?thesis .
  qed
qed

lemma attach_row_fences [simp]: "fences (ledger_of (attach_row env slot hints e nd r) s) = fences (ledger_of nd s)"
  by (simp add: attach_row_def cancel_queued_row_fences)

lemma attach_fold_settles:
  assumes "good nd" "\<forall>x \<in> set rows. (lr_job_id x, lr_generation x) \<in> set (fences (ledger_of nd slot))"
    and "x \<in> set rows \<or> settled hints e slot nd x"
  shows "settled hints e slot (foldl (attach_row env slot hints e) nd rows) x"
  using assms
proof (induction rows arbitrary: nd)
  case (Cons y rows)
  let ?nd = "attach_row env slot hints e nd y"
  have g: "good ?nd" using attach_row_safe Cons.prems(1) good_adv by (auto simp: safe_def)
  have "ledger_get (ledger_of nd slot) (lr_job_id y) (lr_generation y) \<noteq> None" using Cons.prems(2) get_None by fastforce
  then have "x \<in> set rows \<or> settled hints e slot ?nd x"
    using Cons.prems(3) attach_row_settles [OF Cons.prems(1)] attach_row_keeps [OF Cons.prems(1)] by auto
  moreover have "\<forall>x \<in> set rows. (lr_job_id x, lr_generation x) \<in> set (fences (ledger_of ?nd slot))" using Cons.prems(2) by simp
  ultimately show ?case using Cons.IH [OF g] by simp
qed simp

lemma attach_fold_fences: "fences (ledger_of (foldl (attach_row env slot hints e) nd rows) s) = fences (ledger_of nd s)"
  by (induction rows arbitrary: nd) simp_all

lemma get_mem: "distinct (fences l) \<Longrightarrow> r \<in> set l \<Longrightarrow> ledger_get l (lr_job_id r) (lr_generation r) = Some r"
  by (induction l) (auto simp: ledger_get_def fence_is_def fences_def image_iff)

lemma queued_rows_mem: "r \<in> set (queued_rows l) \<longleftrightarrow> r \<in> set l \<and> lr_state r = JS_Queued"
  by (simp add: queued_rows_def)

text \<open>C8: after its server attached again, the node holds no queued job the server no longer lists: every row of it that is
  still queued was named by the server, and only such a row is free to start in this session. A job that was placed
  elsewhere meanwhile never runs here too.\<close>

theorem attach_keeps_listed:
  assumes "good nd" "r \<in> set (ledger_of (queue_attach env slot hints nd) slot)" "lr_state r = JS_Queued"
  shows "resumed hints r
    \<and> map_of (fq_gates (nd_fairq (queue_attach env slot hints nd))) (slot, lr_job_id r, lr_generation r) = Some (epoch_of nd slot)"
proof -
  let ?e = "epoch_of nd slot" and ?rows = "queued_rows (ledger_of nd slot)"
  let ?nd = "foldl (attach_row env slot hints ?e) nd ?rows"
  have q: "queue_attach env slot hints nd = on_fairq (fq_resend slot) ?nd" by (simp add: queue_attach_def)
  have "safe nd ?nd" by (rule safe_foldl [OF attach_row_safe])
  then have adv: "node_adv nd ?nd" using assms(1) by (simp add: safe_def)
  have r: "ledger_get (ledger_of ?nd slot) (lr_job_id r) (lr_generation r) = Some r"
    using get_mem [OF good_fences [OF good_adv [OF assms(1) adv]]] assms(2) q by simp
  then have "ledger_get (ledger_of nd slot) (lr_job_id r) (lr_generation r) \<noteq> None"
    using get_None [of "ledger_of ?nd slot" "lr_job_id r" "lr_generation r"] get_None [of "ledger_of nd slot" "lr_job_id r" "lr_generation r"]
    by (simp add: attach_fold_fences)
  then obtain x where x: "ledger_get (ledger_of nd slot) (lr_job_id r) (lr_generation r) = Some x" by blast
  have sf: "lr_job_id x = lr_job_id r" "lr_generation x = lr_generation r" "x \<in> set (ledger_of nd slot)" using get_Some [OF x] by auto
  have "ledger_adv (ledger_of nd slot) (ledger_of ?nd slot)" using adv by (simp add: node_adv_def)
  from adv_get [OF this x] r have "lr_state x = JS_Queued" using assms(3) by (auto simp: lrow_adv_def)
  then have "x \<in> set ?rows" using sf by (simp add: queued_rows_mem)
  then have "settled hints ?e slot ?nd x"
    by (intro attach_fold_settles [OF assms(1)]) (auto simp: queued_rows_mem fences_def)
  then show ?thesis using r assms(3) sf by (simp add: settled_def taken_def q fq_resend_def resumed_def)
qed

end
