(* ===== verification/Assign_Rules.thy ===== *)
theory Assign_Rules
  imports Node_Rules
begin

text \<open>
  What an assign may start or queue: a start of the solo path keeps the node within its caps, a job enters the queue only
  within its server's share, the disk guard spares release gates. And one behaviour of the running map: it is keyed without
  the generation, so the end of an older attempt takes a newer one's place away.
\<close>

section \<open>The solo path\<close>

definition held_cpu :: "Node \<Rightarrow> nat \<Rightarrow> nat \<Rightarrow> nat" where
  "held_cpu nd cap par = sum_list (map (\<lambda>e. unwrap_or (rj_cpu_millis (snd e)) (cap div max par 1)) (nd_jobs nd))"

definition held_mem :: "Node \<Rightarrow> nat \<Rightarrow> nat \<Rightarrow> nat" where
  "held_mem nd cap par = sum_list (map (\<lambda>e. unwrap_or (rj_mem_bytes (snd e)) (cap div max par 1)) (nd_jobs nd))"

definition within_caps :: "nat \<times> nat \<times> nat \<Rightarrow> Node \<Rightarrow> bool" where
  "within_caps = (\<lambda>(cpu, mem, par) nd. held_cpu nd cpu par \<le> cpu \<and> held_mem nd mem par \<le> mem \<and> length (nd_jobs nd) \<le> par)"

lemma update_job_sum: "sum_list (map f (AList.update k v al)) \<le> sum_list (map f al) + (f (k, v) :: nat)"
  by (induction al) auto

lemma update_job_length: "length (AList.update k v al) \<le> Suc (length al)"
  by (induction al) auto

lemma refusal_None:
  assumes "refusal v wanted = None"
  shows "nv_exclusive_running v = False" "ask_exclusive wanted \<Longrightarrow> nv_running v = 0" "nv_running v < nv_parallel_max v"
    "ask_cpu_millis wanted = Some c \<Longrightarrow> c \<le> nv_free_cpu_millis v" "ask_mem_bytes wanted = Some m \<Longrightarrow> m \<le> nv_free_mem_bytes v"
  using assms by (auto simp: refusal_def exceeds_def split: option.splits if_splits)

lemma start_now_started:
  assumes "start_now env t a nd = (nd', Some k)"
  shows "assign_refusal env nd t a = None \<and> nd_jobs nd' = AList.update (nt_slot t, fe_job_id (as_fence a)) (new_running nd a) (nd_jobs nd)
    \<and> secret_isolation_wait env nd (nt_slot t) (pl_workspace_id (as_plan a)) (pl_secret_env (as_plan a) \<noteq> []) = None"
proof -
  have r: "assign_refusal env nd t a = None"
    using assms by (auto simp: start_now_def Let_def split: option.splits)
  moreover have i: "secret_isolation_wait env nd (nt_slot t) (pl_workspace_id (as_plan a)) (pl_secret_env (as_plan a) \<noteq> []) = None"
    using assms r by (auto simp: start_now_def Let_def split: option.splits)
  moreover obtain l where "ledger_insert (ledger_of nd (nt_slot t)) a (ne_clock env) = Some l"
    using assms r i by (auto simp: start_now_def Let_def split: option.splits)
  ultimately show ?thesis using assms
    by (auto simp: start_now_def Let_def launch_def new_running_def on_fairq_def)
qed

lemma enqueue_not_launched: "launched (fst (enqueue env slot a nd)) = launched nd"
  by (simp add: enqueue_def Let_def split: option.split prod.split)

lemma on_assign_started:
  assumes "on_assign env slot a nd = (nd', key)" "launched nd' \<noteq> launched nd" "node_tenant nd slot = Some t"
  shows "\<exists>k. start_now env t a nd = (nd', Some k)"
proof -
  have none: "launched (fst (start_now env t a nd)) = launched nd" if "snd (start_now env t a nd) = None"
    using that by (auto simp: start_now_def Let_def split: option.splits)
  have "(nd', key) = start_now env t a nd \<or> launched nd' = launched nd"
    using assms(1) enqueue_not_launched [of env slot a nd]
    by (auto simp: on_assign_def assms(3) Let_def split: option.splits prod.splits if_splits)
  then have "start_now env t a nd = (nd', key)" using assms(2) by simp
  then show ?thesis using none assms(2) by (cases key) simp_all
qed

text \<open>A start without the queue keeps the node within its caps: if what runs was within the CPU, memory and parallel caps
  the server sees, it still is with the new job (whose limits the plan names), and an exclusive job runs alone.\<close>

theorem assign_within_caps:
  assumes "node_tenant nd slot = Some t" "on_assign env slot a nd = (nd', key)" "launched nd' \<noteq> launched nd"
    and "jl_cpu_millis (pl_limits (as_plan a)) = Some c" "jl_mem_bytes (pl_limits (as_plan a)) = Some m"
    and "node_caps env t = (cpu, mem, par)" "cpu < 2 ^ 64" "mem < 2 ^ 64" "par < 2 ^ 32" "within_caps (cpu, mem, par) nd"
  shows "within_caps (cpu, mem, par) nd' \<and> \<not> list_ex (\<lambda>e. rj_exclusive (snd e)) (nd_jobs nd)
    \<and> (pl_exclusive (as_plan a) \<longrightarrow> nd_jobs nd = [])"
proof -
  obtain k where st: "start_now env t a nd = (nd', Some k)" using on_assign_started [OF assms(2,3,1)] by blast
  note s = start_now_started [OF st]
  have small: "held_cpu nd cpu par < 2 ^ 64" "held_mem nd mem par < 2 ^ 64" "length (nd_jobs nd) < 2 ^ 32"
    using assms(7-10) by (auto simp: within_caps_def)
  have u: "used nd cpu mem par = (held_cpu nd cpu par, held_mem nd mem par, length (nd_jobs nd), list_ex (\<lambda>e. rj_exclusive (snd e)) (nd_jobs nd))"
    using small by (simp add: used_def Let_def u64_sum_id as_u32_def held_cpu_def held_mem_def comp_def list_ex_iff)
  let ?p = "as_plan a"
  let ?v = "machine_view env (ne_workspaces env) (length (nd_jobs nd)) par (list_ex (\<lambda>e. rj_exclusive (snd e)) (nd_jobs nd))
    (cpu - held_cpu nd cpu par) (mem - held_mem nd mem par)"
  let ?ask = "\<lparr> ask_workspace_id = pl_workspace_id ?p, ask_cpu_millis = jl_cpu_millis (pl_limits ?p),
      ask_mem_bytes = jl_mem_bytes (pl_limits ?p), ask_disk_bytes = 0, ask_exclusive = pl_exclusive ?p, ask_needs_git = (pl_src ?p \<noteq> None) \<rparr>"
  have r: "refusal ?v ?ask = None"
    using s assms(6) u by (simp add: assign_refusal_def Let_def)
  have f: "\<not> list_ex (\<lambda>e. rj_exclusive (snd e)) (nd_jobs nd)" "pl_exclusive ?p \<Longrightarrow> nd_jobs nd = []" "length (nd_jobs nd) < par"
      "c \<le> cpu - held_cpu nd cpu par" "m \<le> mem - held_mem nd mem par"
    using refusal_None [OF r] assms(4,5) by (simp_all add: machine_view_def)
  have j: "nd_jobs nd' = AList.update (nt_slot t, fe_job_id (as_fence a)) (new_running nd a) (nd_jobs nd)" using s by blast
  have "held_cpu nd' cpu par \<le> held_cpu nd cpu par + c" "held_mem nd' mem par \<le> held_mem nd mem par + m"
    using update_job_sum [of "\<lambda>e. unwrap_or (rj_cpu_millis (snd e)) (cpu div max par 1)" "(nt_slot t, fe_job_id (as_fence a))" "new_running nd a" "nd_jobs nd"]
      update_job_sum [of "\<lambda>e. unwrap_or (rj_mem_bytes (snd e)) (mem div max par 1)" "(nt_slot t, fe_job_id (as_fence a))" "new_running nd a" "nd_jobs nd"]
      assms(4,5) unfolding held_cpu_def held_mem_def j by (simp_all add: new_running_def Let_def)
  moreover have "length (nd_jobs nd') \<le> par"
    using update_job_length [of "(nt_slot t, fe_job_id (as_fence a))" "new_running nd a" "nd_jobs nd"] f(3) unfolding j by linarith
  ultimately show ?thesis using f assms(10) by (auto simp: within_caps_def)
qed

section \<open>The node queue\<close>

lemma queued_rows_length: "length (queued_rows l) = length (filter (\<lambda>r. lr_state r = JS_Queued) l)"
  by (simp add: queued_rows_def)

text \<open>A job waits in a node's queue only within its server's share: the share is active or paused, allows the job's class
  and exclusivity, and bounds its CPUs, memory and time; and the server never has more jobs queued than its share allows.\<close>

theorem queue_within_share:
  assumes "enqueue env slot a nd = (nd', Some key)" "node_tenant nd slot = Some t"
  shows "\<exists>share. fq_share env nd slot = Some share \<and> shi_status share \<in> {St_Active, St_Paused}
    \<and> allows_class (shi_limits share) (unwrap_or (pl_class (as_plan a)) Class_Interactive)
    \<and> (pl_exclusive (as_plan a) \<longrightarrow> l_exclusive (shi_limits share))
    \<and> (\<forall>c. jl_cpu_millis (pl_limits (as_plan a)) = Some c \<longrightarrow> c \<le> l_max_cpus (shi_limits share) * 1000 \<and> c \<le> cap_cpu_millis (queue_caps env))
    \<and> (\<forall>m. jl_mem_bytes (pl_limits (as_plan a)) = Some m \<longrightarrow> m \<le> l_max_mem_gb (shi_limits share) * 2 ^ 30 \<and> m \<le> cap_mem_bytes (queue_caps env))
    \<and> jl_max_secs (pl_limits (as_plan a)) \<le> l_max_job_secs (shi_limits share)
    \<and> length (queued_rows (ledger_of nd' slot)) \<le> l_max_queued (shi_limits share)"
proof -
  have q: "queue_refusal env nd slot a = None"
    using assms(1) by (auto simp: enqueue_def Let_def split: option.splits prod.splits)
  then obtain l where l: "insert_queued (ledger_of nd slot) a (ne_clock env) = Some l" "nd' = on_fairq (fq_queued slot a (epoch_of nd slot) (ne_now env)) (put_ledger slot l nd)"
    using assms(1) by (auto simp: enqueue_def Let_def split: option.splits)
  obtain share where s: "fq_share env nd slot = Some share" using q by (auto simp: queue_refusal_def split: option.splits)
  have st: "shi_status share \<in> {St_Active, St_Paused}"
    using q s by (cases "shi_status share") (simp_all add: queue_refusal_def)
  have "length (queued_rows l) \<le> Suc (length (queued_rows (ledger_of nd slot)))"
    using l(1) by (auto simp: insert_queued_def ledger_insert_row_def queued_rows_length split: if_splits)
  moreover have "length (queued_rows (ledger_of nd slot)) < l_max_queued (shi_limits share)"
    using q s st by (auto simp: queue_refusal_def Let_def split: if_splits)
  ultimately have "length (queued_rows (ledger_of nd' slot)) \<le> l_max_queued (shi_limits share)"
    using tenant_slot [OF assms(2)] l(2) by (simp add: ledger_of_put)
  then show ?thesis
    using q s st by (auto simp: queue_refusal_def Let_def exceeds_def split: if_splits)
qed

section \<open>The disk guard\<close>

text \<open>When the disk fills, a release gate is stopped only when nothing else runs, and the choice is a job of the server
  furthest over its share whenever it has one that may be stopped.\<close>

theorem disk_victim_spares_gates:
  assumes "disk_victim cands over = Some i"
  shows "i < length cands \<and> (cd_gate (cands ! i) \<longrightarrow> list_all cd_gate cands)
    \<and> (over = Some (cd_slot (cands ! i)) \<or> \<not> list_ex (\<lambda>c. over = Some (cd_slot c) \<and> (cd_gate c \<longrightarrow> list_all cd_gate cands)) cands)"
proof -
  define pool where "pool = filter (\<lambda>i. \<not> list_ex (\<lambda>c. \<not> cd_gate c) cands \<or> \<not> cd_gate (cands ! i)) [0..<length cands]"
  define mine where "mine = filter (\<lambda>i. over = Some (cd_slot (cands ! i))) pool"
  have "max_by_key (\<lambda>i. cd_seq (cands ! i)) (if mine = [] then pool else mine) = Some i"
    using assms unfolding disk_victim_def Let_def pool_def [symmetric] mine_def [symmetric] .
  then have i: "i \<in> set (if mine = [] then pool else mine)" by (rule max_by_key_in)
  then have p: "i \<in> set pool" by (auto simp: mine_def split: if_splits)
  have "\<not> list_ex (\<lambda>c. over = Some (cd_slot c) \<and> (cd_gate c \<longrightarrow> list_all cd_gate cands)) cands" if "mine = []"
  proof
    assume "list_ex (\<lambda>c. over = Some (cd_slot c) \<and> (cd_gate c \<longrightarrow> list_all cd_gate cands)) cands"
    then obtain j where j: "j < length cands" "over = Some (cd_slot (cands ! j))" "cd_gate (cands ! j) \<longrightarrow> list_all cd_gate cands"
      by (auto simp: list_ex_iff in_set_conv_nth)
    then have "j \<in> set mine" by (auto simp: mine_def pool_def list_ex_iff list_all_iff)
    then show False using that by simp
  qed
  moreover have "over = Some (cd_slot (cands ! i))" if "mine \<noteq> []" using i that by (simp add: mine_def)
  moreover have "i < length cands" using p by (simp add: pool_def)
  moreover have "list_all cd_gate cands" if "cd_gate (cands ! i)"
    using p that by (simp add: pool_def list_ex_iff list_all_iff)
  ultimately show ?thesis by blast
qed

section \<open>The key of a running job\<close>

text \<open>C40: the running map has one place per job, not per attempt: when a newer attempt starts while an older one of the same
  job still stops, the older one's end removes the newer one's entry. Its task runs on, but it is not counted, and a cancel
  of it reaches nobody: the node only reports its row.\<close>

theorem older_end_uncounts_newer:
  assumes "fe_job_id (as_fence a) = job" "nd' = finish_job env slot job g e (launch env slot a nd)"
    and "ledger_get (ledger_of nd' slot) job (fe_generation (as_fence a)) = Some r" "lr_state r = JS_Preparing" "lr_started_at r = None"
  shows "RunJob slot a \<in> set (nd_tasks nd') \<and> map_of (nd_jobs nd') (slot, job) = None
    \<and> node_cancel env' slot job (fe_generation (as_fence a)) ''cancelled'' nd' = tell slot (row_state_frame r) nd'"
proof -
  have n: "map_of (nd_jobs nd') (slot, job) = None" unfolding assms(2) finish_job_def Let_def by (simp add: delete_conv')
  have "nd_tasks (hold_one slot nd k) = nd_tasks nd" for k nd by (simp add: hold_one_def)
  then have "nd_tasks (finish_job env slot job g e nd1) = nd_tasks nd1" for nd1
    by (simp add: finish_job_def Let_def record_finish_def hold_lingering_def split: prod.split)
  then have "RunJob slot a \<in> set (nd_tasks nd')" unfolding assms(2) by (simp add: launch_def on_fairq_def)
  moreover have "\<not> cancel_only_if_not_started ''cancelled''"
    by (simp add: cancel_only_if_not_started_def CANCEL_WITHDRAW_def CANCEL_IF_QUEUED_def)
  ultimately show ?thesis
    using n assms(3-5) by (simp add: node_cancel_def finish_if_orphan_def is_orphan_def has_started_def runs_fence_def)
qed

end
