(* ===== verification/Tick_Rules.thy ===== *)
theory Tick_Rules
  imports Node_Rules Queue_Limits
begin

text \<open>
  A pass of the node queue on the node: the rules of \<open>queue.rs\<close> composed with the ledgers, the gates and the running jobs.
  What the rules decide on the snapshot is what the node does: only jobs their server listed in its session start, and
  what runs stays within the node's caps.
\<close>

section \<open>Starts of a tick\<close>

definition row_key :: "Slot \<times> LedgerRow \<Rightarrow> Key" where
  "row_key e = (fst e, lr_job_id (snd e), lr_generation (snd e))"

lemma fence_row_assign [simp]: "fence_key slot (row_assign r) = row_key (slot, r)"
  by (simp add: fence_key_def row_assign_def row_key_def)

lemma cancel_row_launched [simp]: "launched (fst (cancel_queued_row env slot job g reason detail nd)) = launched nd"
  by (simp add: launched_def cancel_queued_row_tasks)

lemma cancel_row_runs [simp]: "fq_runs (nd_fairq (fst (cancel_queued_row env slot job g reason detail nd))) = fq_runs (nd_fairq nd)"
  by (simp add: cancel_queued_row_def Let_def fq_forget_def split: option.split prod.split bool.split)

lemma launch_runs: "fq_runs (nd_fairq (launch env slot a nd)) =
    AList.update (fence_key slot a) (run_meta env (fq_store (nd_fairq nd)) slot a (queue_caps env)) (fq_runs (nd_fairq nd))"
  by (simp add: launch_def fq_started_def on_fairq_def Let_def)

lemma start_queued_effect:
  "case start_queued env slot r nd of (nd', ok) \<Rightarrow>
     launched nd' = launched nd @ (if ok then [row_key (slot, r)] else [])
     \<and> fq_runs (nd_fairq nd') = (if ok then AList.update (row_key (slot, r))
         (run_meta env (fq_store (nd_fairq nd)) slot (row_assign r) (queue_caps env)) (fq_runs (nd_fairq nd)) else fq_runs (nd_fairq nd))"
  by (simp add: start_queued_def Let_def launch_runs split: prod.split bool.split)

lemma start_one_effect:
  assumes "start_one env rows (nd, started) i = (nd', started')"
  shows "(started' = started @ [i] \<and> launched nd' = launched nd @ [row_key (rows ! i)]
       \<and> (\<exists>st. fq_runs (nd_fairq nd') = AList.update (row_key (rows ! i))
            (run_meta env st (fst (rows ! i)) (row_assign (snd (rows ! i))) (queue_caps env)) (fq_runs (nd_fairq nd))))
     \<or> (started' = started \<and> launched nd' = launched nd \<and> fq_runs (nd_fairq nd') = fq_runs (nd_fairq nd))"
  using assms start_queued_effect [of nd "fst (rows ! i)" "snd (rows ! i)" env]
  by (cases "rows ! i") (auto simp: start_one_def split: prod.splits if_splits)

lemma push_parts [simp]: "launched (foldl (push_one env snap d started) nd ns) = launched nd"
    "fq_runs (nd_fairq (foldl (push_one env snap d started) nd ns)) = fq_runs (nd_fairq nd)"
proof -
  have "launched (push_one env snap d started nd i) = launched nd \<and> fq_runs (nd_fairq (push_one env snap d started nd i)) = fq_runs (nd_fairq nd)"
    for nd i by (simp add: push_one_def push_pos_def Let_def split: option.split)
  then show "launched (foldl (push_one env snap d started) nd ns) = launched nd"
    "fq_runs (nd_fairq (foldl (push_one env snap d started) nd ns)) = fq_runs (nd_fairq nd)"
    by (induction ns arbitrary: nd) simp_all
qed

lemma tick_starts_parts:
  "launched (tick_starts env snap d nd) = launched (fst (foldl (start_one env (snp_rows snap)) (nd, []) (d_start d)))"
  "fq_runs (nd_fairq (tick_starts env snap d nd)) = fq_runs (nd_fairq (fst (foldl (start_one env (snp_rows snap)) (nd, []) (d_start d))))"
  by (simp_all add: tick_starts_def keep_rotation_def case_prod_unfold Let_def)

lemma start_fold_launched:
  "set (launched (fst (foldl (start_one env rows) acc is'))) \<subseteq> set (launched (fst acc)) \<union> (\<lambda>i. row_key (rows ! i)) ` set is'"
proof (induction is' arbitrary: acc)
  case (Cons i is')
  obtain nd started where a: "acc = (nd, started)" by fastforce
  obtain nd' started' where e: "start_one env rows (nd, started) i = (nd', started')" by fastforce
  have "set (launched nd') \<subseteq> set (launched nd) \<union> {row_key (rows ! i)}" using start_one_effect [OF e] by auto
  then show ?case using Cons [of "(nd', started')"] by (auto simp: a e)
qed simp

section \<open>The snapshot\<close>

lemma snapshot_simps [simp]: "i_caps (snp_input (snapshot env nd)) = queue_caps env"
  "i_queued (snp_input (snapshot env nd)) = map (\<lambda>(t, r). queued_of env (nd_fairq nd) t r) (queued_pairs nd)"
  "snp_rows (snapshot env nd) = map (\<lambda>(t, r). (nt_slot t, r)) (queued_pairs nd)"
  "i_running (snp_input (snapshot env nd)) = map (running_of env) (fq_runs (nd_fairq nd)) @ map linger_running (fq_lingering (nd_fairq nd))"
  by (simp_all add: snapshot_def Let_def)

lemma snapshot_at:
  assumes "i < length (queued_pairs nd)"
  shows "\<exists>t r. queued_pairs nd ! i = (t, r) \<and> t \<in> set (nd_tenants nd) \<and> r \<in> set (queued_rows (nt_ledger t))
    \<and> snp_rows (snapshot env nd) ! i = (nt_slot t, r)
    \<and> i_queued (snp_input (snapshot env nd)) ! i = queued_of env (nd_fairq nd) t r"
proof -
  obtain t r where tr: "queued_pairs nd ! i = (t, r)" by fastforce
  then have "(t, r) \<in> set (queued_pairs nd)" using assms by (metis nth_mem)
  then show ?thesis using assms tr by (auto simp: queued_pairs_def)
qed

lemma good_epoch: "good nd \<Longrightarrow> t \<in> set (nd_tenants nd) \<Longrightarrow> epoch_of nd (nt_slot t) = nt_epoch t"
proof -
  have "distinct (map nt_slot ts) \<Longrightarrow> t \<in> set ts \<Longrightarrow> find (\<lambda>x. nt_slot x = nt_slot t) ts = Some t" for ts
    by (induction ts) (auto simp: image_iff)
  then show "good nd \<Longrightarrow> t \<in> set (nd_tenants nd) \<Longrightarrow> epoch_of nd (nt_slot t) = nt_epoch t"
    by (simp add: good_def epoch_of_def node_tenant_def)
qed

lemma decided_start:
  assumes "decide inp = Some d" "times_ok inp" "i \<in> set (d_start d)"
  shows "i < length (i_queued inp) \<and> q_eligible (i_queued inp ! i) \<and> tenant_of (i_tenants inp) (q_slot (i_queued inp ! i)) \<noteq> None"
proof -
  have s: "subseq (d_start d) (startable inp (d_order d))" "order inp = Some (d_order d)"
    using decide_starts [OF assms(1,2)] by auto
  then have "i \<in> set (startable inp (d_order d))" using assms(3) list_emb_set [OF s(1) assms(3)] by metis
  then have "i \<in> set (d_order d)" "triage_one inp (i_queued inp ! i) = None" by (simp_all add: startable_def)
  then show ?thesis
    using order_facts(3) [OF s(2)] by (auto simp: triage_one_def is_ready_def split: option.splits if_splits)
qed

section \<open>Before the starts\<close>

lemma foldl_inv: "(\<And>a x. f (g a x) = f a) \<Longrightarrow> f (foldl g a xs) = f a"
  by (induction xs arbitrary: a) simp_all

lemma account_gates [simp]: "fq_gates (nd_fairq (account env nd)) = fq_gates (nd_fairq nd)"
proof -
  have "fq_gates (foldl (charge env day) q xs) = fq_gates q" for day q xs
    by (rule foldl_inv) (simp add: charge_def case_prod_unfold Let_def)
  moreover have "fq_gates (foldl (end_run env day) q xs) = fq_gates q" for day q xs
    by (rule foldl_inv) (simp add: end_run_def case_prod_unfold Let_def)
  moreover have "fq_gates (foldl flush_day q xs) = fq_gates q" for q xs
    by (rule foldl_inv) (simp add: flush_day_def case_prod_unfold)
  ultimately show ?thesis by (simp add: account_def Let_def persist_def flush_usage_def)
qed

definition only_ungates :: "Node \<Rightarrow> Node \<Rightarrow> bool" where
  "only_ungates nd nd' \<longleftrightarrow> (\<forall>s. epoch_of nd' s = epoch_of nd s) \<and> launched nd' = launched nd
     \<and> (\<forall>k e. map_of (fq_gates (nd_fairq nd')) k = Some e \<longrightarrow> map_of (fq_gates (nd_fairq nd)) k = Some e)"

lemma only_ungates_refl [simp]: "only_ungates nd nd"
  by (simp add: only_ungates_def)

lemma only_ungates_trans [trans]: "only_ungates a b \<Longrightarrow> only_ungates b c \<Longrightarrow> only_ungates a c"
  unfolding only_ungates_def by metis

lemma only_ungates_fold:
  "(\<And>nd x. only_ungates nd (f nd x)) \<Longrightarrow> only_ungates nd (foldl f nd xs)"
proof (induction xs arbitrary: nd)
  case (Cons x xs)
  show ?case using only_ungates_trans [OF Cons.prems [of nd x] Cons.IH [OF Cons.prems, of "f nd x"]] by simp
qed simp

lemma cancel_row_only_ungates: "only_ungates nd (fst (cancel_queued_row env slot job g reason detail nd))"
proof -
  have "map_of (fq_gates (nd_fairq (fst (cancel_queued_row env slot job g reason detail nd)))) k = Some e
      \<Longrightarrow> map_of (fq_gates (nd_fairq nd)) k = Some e" for k e
    by (auto simp: cancel_queued_row_def fq_forget_def Let_def delete_conv' split: option.splits prod.splits bool.splits if_splits)
  then show ?thesis by (simp add: only_ungates_def)
qed

lemma queue_cancel_only_ungates: "only_ungates nd (fst (queue_cancel_tenant env slot reason nd))"
proof -
  have "fst (foldl (cancel_counted env slot reason) acc rows) =
      foldl (\<lambda>nd r. fst (cancel_queued_row env slot (lr_job_id r) (lr_generation r) reason None nd)) (fst acc) rows" for acc rows
    by (induction rows arbitrary: acc) (simp_all add: cancel_counted_def case_prod_unfold split: prod.split)
  then show ?thesis
    by (simp add: queue_cancel_tenant_def only_ungates_fold [OF cancel_row_only_ungates])
qed

lemma account_tenants: "nd_tenants (account env nd) = nd_tenants nd" "nd_tasks (account env nd) = nd_tasks nd"
  by (simp_all add: account_def Let_def)

lemma account_only_ungates: "only_ungates nd (account env nd)"
  by (simp add: only_ungates_def epoch_of_def node_tenant_def launched_def account_tenants)

lemma end_shares_only_ungates: "only_ungates nd (end_shares env nd slot)"
proof (cases "fq_share env nd slot")
  case (Some s)
  then show ?thesis by (cases "shi_status s") (simp_all add: end_shares_def queue_cancel_only_ungates)
qed (simp add: end_shares_def)

lemma before_starts_only_ungates: "only_ungates nd (before_starts env nd)"
  unfolding before_starts_def Let_def
  by (rule only_ungates_trans [OF account_only_ungates only_ungates_fold [OF end_shares_only_ungates]])

lemma tick_cases:
  assumes "tick env nd = Some nd'" "launched nd' \<noteq> launched nd"
  obtains d where "decide (snp_input (snapshot env (before_starts env nd))) = Some d"
    "nd' = tick_starts env (snapshot env (before_starts env nd)) d (before_starts env nd)"
proof -
  have l: "launched (before_starts env nd) = launched nd"
    using before_starts_only_ungates [of nd env] by (simp add: only_ungates_def)
  show thesis
  proof (cases "i_queued (snp_input (snapshot env (before_starts env nd))) = []")
    case True
    then have "nd' = before_starts env nd" using assms(1) unfolding tick_def Let_def by (simp del: snapshot_simps)
    then show thesis using l assms(2) by simp
  next
    case False
    then have "map_option (\<lambda>d. tick_starts env (snapshot env (before_starts env nd)) d (before_starts env nd))
        (decide (snp_input (snapshot env (before_starts env nd)))) = Some nd'"
      using assms(1) unfolding tick_def Let_def by (simp del: snapshot_simps)
    then show thesis using that unfolding map_option_eq_Some by blast
  qed
qed

text \<open>C13: a tick starts only what its server knows of: every attempt it launches has its gate open in the server's present
  session (the server sent it or listed it in this session), so a job its server gave up while the node was away never
  starts.\<close>

theorem tick_starts_gated:
  assumes "good nd" "tick env nd = Some nd'" "times_ok (snp_input (snapshot env (before_starts env nd)))"
    and "k \<in> set (launched nd')" "k \<notin> set (launched nd)"
  shows "epoch_of nd (fst k) \<noteq> 0 \<and> map_of (fq_gates (nd_fairq nd)) k = Some (epoch_of nd (fst k))"
proof -
  let ?nd = "before_starts env nd"
  let ?snap = "snapshot env ?nd"
  note u = before_starts_only_ungates [of nd env, unfolded only_ungates_def]
  have l: "launched ?nd = launched nd" using u by blast
  obtain d where d: "decide (snp_input ?snap) = Some d" "nd' = tick_starts env ?snap d ?nd"
    using tick_cases [OF assms(2)] assms(4,5) by metis
  have "k \<in> (\<lambda>i. row_key (snp_rows ?snap ! i)) ` set (d_start d)"
    using assms(4,5) l start_fold_launched [of env "snp_rows ?snap" "(?nd, [])" "d_start d"] unfolding d(2) tick_starts_parts by auto
  then obtain i where i: "i \<in> set (d_start d)" "k = row_key (snp_rows ?snap ! i)" by blast
  note e = decided_start [OF d(1) assms(3) i(1)]
  then obtain t r where t: "t \<in> set (nd_tenants ?nd)" "snp_rows ?snap ! i = (nt_slot t, r)"
      "i_queued (snp_input ?snap) ! i = queued_of env (nd_fairq ?nd) t r"
    using snapshot_at [of i ?nd env] by auto
  have g: "good ?nd" using before_starts_safe assms(1) good_adv by (auto simp: safe_def)
  have "q_eligible (queued_of env (nd_fairq ?nd) t r)" using e unfolding t(3) by blast
  then have "nt_epoch t \<noteq> 0" "map_of (fq_gates (nd_fairq ?nd)) k = Some (nt_epoch t)" "fst k = nt_slot t"
    unfolding i(2) t(2) by (simp_all add: queued_of_def Let_def row_key_def)
  then show ?thesis using good_epoch [OF g t(1)] u by metis
qed

section \<open>The load after a tick\<close>

lemma update_sum: "sum_list (map (\<lambda>e. f (snd e)) (AList.update k v al)) \<le> sum_list (map (\<lambda>e. f (snd e)) al) + (f v :: nat)"
  by (induction al) auto

lemma update_length: "length (AList.update k v al) \<le> Suc (length al)"
  by (induction al) auto

definition run_load :: "(RunMeta \<Rightarrow> nat) \<Rightarrow> Node \<Rightarrow> nat" where
  "run_load f nd = sum_list (map (\<lambda>e. f (snd e)) (fq_runs (nd_fairq nd)))"

lemma start_fold_load:
  assumes "\<And>i st. i \<in> set js \<Longrightarrow> f (run_meta env st (fst (rows ! i)) (row_assign (snd (rows ! i))) (queue_caps env)) = w i"
  shows "run_load f (fst (foldl (start_one env rows) acc js)) \<le> run_load f (fst acc) + sum_list (map w js)"
  using assms
proof (induction js arbitrary: acc)
  case (Cons i js)
  obtain nd started where a: "acc = (nd, started)" by fastforce
  obtain nd' started' where e: "start_one env rows (nd, started) i = (nd', started')" by fastforce
  have w: "f (run_meta env st (fst (rows ! i)) (row_assign (snd (rows ! i))) (queue_caps env)) = w i" for st
    using Cons.prems by simp
  have "run_load f nd' \<le> run_load f nd + w i"
    using start_one_effect [OF e]
  proof (elim disjE conjE exE)
    fix st
    assume "fq_runs (nd_fairq nd') = AList.update (row_key (rows ! i))
      (run_meta env st (fst (rows ! i)) (row_assign (snd (rows ! i))) (queue_caps env)) (fq_runs (nd_fairq nd))"
    then show ?thesis
      using update_sum [of f "row_key (rows ! i)" "run_meta env st (fst (rows ! i)) (row_assign (snd (rows ! i))) (queue_caps env)"
        "fq_runs (nd_fairq nd)"] w [of st] unfolding run_load_def by metis
  qed (simp add: run_load_def)
  moreover have "run_load f (fst (foldl (start_one env rows) (nd', started') js)) \<le> run_load f nd' + sum_list (map w js)"
    using Cons.IH [of "(nd', started')"] Cons.prems by simp
  ultimately show ?case by (simp add: a e)
qed simp

lemma start_fold_length:
  "length (fq_runs (nd_fairq (fst (foldl (start_one env rows) acc js)))) \<le> length (fq_runs (nd_fairq (fst acc))) + length js"
proof (induction js arbitrary: acc)
  case (Cons i js)
  obtain nd started where a: "acc = (nd, started)" by fastforce
  obtain nd' started' where e: "start_one env rows (nd, started) i = (nd', started')" by fastforce
  have "length (fq_runs (nd_fairq nd')) \<le> Suc (length (fq_runs (nd_fairq nd)))"
    using start_one_effect [OF e] update_length [of "row_key (rows ! i)" _ "fq_runs (nd_fairq nd)"] by auto
  then show ?case using Cons.IH [of "(nd', started')"] by (simp add: a e)
qed simp

text \<open>C1: the queue never overloads the node: after a tick that started anything, everything that runs (and what lingers)
  is within the node's parallel, CPU and memory caps, however the jobs' limits and the servers' shares are set.\<close>

theorem tick_within_caps:
  assumes "tick env nd = Some nd'" "launched nd' \<noteq> launched nd"
    and "times_ok (snp_input (snapshot env (before_starts env nd)))" "load_ok (snp_input (snapshot env (before_starts env nd)))"
  shows "length (fq_runs (nd_fairq nd')) + length (fq_lingering (nd_fairq (before_starts env nd))) \<le> cap_parallel_max (queue_caps env)
    \<and> run_load rm_cpu nd' \<le> cap_cpu_millis (queue_caps env) \<and> run_load rm_mem nd' \<le> cap_mem_bytes (queue_caps env)"
proof -
  let ?nd = "before_starts env nd"
  let ?snap = "snapshot env ?nd" let ?inp = "snp_input ?snap"
  have l: "launched ?nd = launched nd" using before_starts_only_ungates [of nd env] by (simp add: only_ungates_def)
  obtain d where d: "decide ?inp = Some d" "nd' = tick_starts env ?snap d ?nd"
    using tick_cases [OF assms(1,2)] .
  have "d_start d \<noteq> []" using assms(2) l unfolding d(2) tick_starts_parts by auto
  note fit = starts_fit [OF d(1) assms(3,4) this]
  have at: "rm_cpu (run_meta env st (fst (snp_rows ?snap ! i)) (row_assign (snd (snp_rows ?snap ! i))) (queue_caps env)) = job_cpu ?inp (i_queued ?inp ! i)"
      "rm_mem (run_meta env st (fst (snp_rows ?snap ! i)) (row_assign (snd (snp_rows ?snap ! i))) (queue_caps env)) = job_mem ?inp (i_queued ?inp ! i)"
    if i: "i \<in> set (d_start d)" for i st
  proof -
    obtain t r where t: "snp_rows ?snap ! i = (nt_slot t, r)" "i_queued ?inp ! i = queued_of env (nd_fairq ?nd) t r"
      using decided_start [OF d(1) assms(3) i] snapshot_at [of i ?nd env] by auto
    show "rm_cpu (run_meta env st (fst (snp_rows ?snap ! i)) (row_assign (snd (snp_rows ?snap ! i))) (queue_caps env)) = job_cpu ?inp (i_queued ?inp ! i)"
      "rm_mem (run_meta env st (fst (snp_rows ?snap ! i)) (row_assign (snd (snp_rows ?snap ! i))) (queue_caps env)) = job_mem ?inp (i_queued ?inp ! i)"
      unfolding t by (simp_all add: run_meta_def queued_of_def job_cpu_def job_mem_def row_assign_def Let_def)
  qed
  have "run_load rm_cpu nd' \<le> run_load rm_cpu ?nd + sum_list (map (\<lambda>i. job_cpu ?inp (i_queued ?inp ! i)) (d_start d))"
      "run_load rm_mem nd' \<le> run_load rm_mem ?nd + sum_list (map (\<lambda>i. job_mem ?inp (i_queued ?inp ! i)) (d_start d))"
    using start_fold_load [of "d_start d" rm_cpu env "snp_rows ?snap", OF at(1), of "(?nd, [])"]
      start_fold_load [of "d_start d" rm_mem env "snp_rows ?snap", OF at(2), of "(?nd, [])"]
    unfolding d(2) run_load_def tick_starts_parts by simp_all
  moreover have "length (fq_runs (nd_fairq nd')) \<le> length (fq_runs (nd_fairq ?nd)) + length (d_start d)"
    using start_fold_length [of env "snp_rows ?snap" "(?nd, [])" "d_start d"] unfolding d(2) tick_starts_parts by simp
  moreover have "sum_list (map r_cpu_millis (i_running ?inp)) = run_load rm_cpu ?nd"
      "sum_list (map r_mem_bytes (i_running ?inp)) = run_load rm_mem ?nd"
    by (simp_all add: run_load_def running_of_def linger_running_def case_prod_unfold comp_def)
  ultimately show ?thesis using fit by simp
qed

end
