(* ===== verification/Node_Cases.thy ===== *)
theory Node_Cases
  imports Assign_Rules Tick_Rules "HOL-Library.Code_Target_Numeral"
begin

text \<open>Concrete nodes on which the properties of \<open>Node_Rules\<close>, \<open>Tick_Rules\<close> and \<open>Assign_Rules\<close> are exercised.\<close>

section \<open>A node with one server\<close>

definition no_limits :: NodeLimits where
  "no_limits = \<lparr> nl_cpu_millis = None, nl_mem_bytes = None, nl_max_parallel = None \<rparr>"

definition desk_env :: NodeEnv where
  "desk_env = \<lparr> ne_clock = \<lparr> ck_now = 1000, ck_boot_id = ''boot'' \<rparr>, ne_mono_ms = 5000, ne_stopping = False, ne_macos = False,
     ne_cfg = Config_default, ne_cores = 8, ne_cpu_cap_percent = 100, ne_mem_cap_bytes = 16000, ne_max_parallel = 2,
     ne_persisted = no_limits, ne_policy_error = False, ne_control = Control_Active, ne_unavailable = [], ne_foreign_lock = None,
     ne_disk_free = 100, ne_disk_floor = 10, ne_workspaces = [], ne_network = ''on'', ne_wall_network_none = False, ne_tools = [],
     ne_installing = False, ne_consistent = (\<lambda>_. True), ne_secret_refusal = (\<lambda>_. None), ne_ledger_error = ''constraint failed'',
     ne_node_fp = ''fp'', ne_argv_sha = (\<lambda>_. ''0123456789abcdef0123''), ne_sha_empty = ''e3b0'', ne_sign = (\<lambda>_. None),
     ne_decay = (\<lambda>u _ _. u) \<rparr>"

definition desk_assign :: "string \<Rightarrow> nat \<Rightarrow> Assign" where
  "desk_assign job g = \<lparr> as_fence = \<lparr> fe_job_id = job, fe_attempt = g, fe_generation = g, fe_plan_digest = ''d'' \<rparr>,
     as_plan = blank_plan \<lparr> pl_job_id := job, pl_node_id := ''n1'', pl_workspace_id := ''w1'',
       pl_limits := \<lparr> jl_max_secs = 60, jl_cpu_millis = Some 1000, jl_mem_bytes = Some 100, jl_disk_bytes = 0, jl_log_cap_bytes = 1000 \<rparr> \<rparr> \<rparr>"

definition desk_fairq :: FairQ where
  "desk_fairq = \<lparr> fq_store = empty_store, fq_shares = [], fq_protocol = [(0, 6)], fq_priority = [], fq_blocked = [], fq_gates = [],
     fq_runs = [], fq_usage = [], fq_sent = [], fq_rotation = Rotation_default, fq_last_persist = 990, fq_day_cpu = [], fq_lingering = [] \<rparr>"

definition desk_tenant :: "ledger \<Rightarrow> NodeTenant" where
  "desk_tenant l = \<lparr> nt_slot = 0, nt_node_id = ''n1'', nt_controller_fp = ''c'', nt_controller_label = ''home'', nt_narrow = no_limits,
     nt_protocol = 6, nt_status = Some St_Active, nt_ledger = l, nt_epoch = 3, nt_room = 8, nt_sent = [] \<rparr>"

definition desk :: "ledger \<Rightarrow> Node" where
  "desk l = \<lparr> nd_tenants = [desk_tenant l], nd_jobs = [], nd_job_seq = 0, nd_fairq = desk_fairq, nd_tasks = [] \<rparr>"

definition queued_row :: "string \<Rightarrow> nat \<Rightarrow> LedgerRow" where
  "queued_row job g = (new_ledger_row (desk_assign job g) \<lparr> ck_now = 900, ck_boot_id = ''boot'' \<rparr>)
     \<lparr> lr_state := JS_Queued, lr_reason := Some NODE_QUEUED, lr_enqueued_at := Some 900, lr_seq := 1 \<rparr>"

lemma good_desk: "distinct (fences l) \<Longrightarrow> good (desk l)"
  by (simp add: good_def desk_def desk_tenant_def ledger_of_def node_tenant_def fences_def)

lemma ledger_desk [simp]: "ledger_of (desk l) 0 = l" "nd_tasks (desk l) = []" "launched (desk l) = []" "nd_jobs (desk l) = []"
  by (simp_all add: desk_def desk_tenant_def ledger_of_def node_tenant_def launched_def List.map_filter_def)

definition done_row :: LedgerRow where
  "done_row = (queued_row ''a'' 1) \<lparr> lr_state := JS_Done, lr_reason := None, lr_ended_at := Some 950 \<rparr>"

section \<open>Witnesses\<close>


lemma one_launch: "launched (fst (on_assign desk_env 0 (desk_assign ''a'' 1) (desk []))) = [(0, ''a'', 1)]"
  by code_simp


theorem withdraw_spares_started_witness:
  "ledgers (node_cancel desk_env 0 ''a'' 1 ''withdraw'' (desk [done_row])) = [(0, [done_row])]"
proof -
  have r: "ledger_get [done_row] ''a'' 1 = Some done_row" "lr_state done_row \<noteq> JS_Queued" by code_simp+
  have "ledgers (node_cancel desk_env 0 ''a'' 1 ''withdraw'' (desk [done_row])) = ledgers (desk [done_row])"
    using withdraw_spares_started [of "''withdraw''" "desk [done_row]" 0 "''a''" 1 done_row desk_env] r
    by (simp add: cancel_only_if_not_started_def CANCEL_WITHDRAW_def)
  then show ?thesis by (simp add: ledgers_def desk_def desk_tenant_def)
qed


theorem attach_keeps_listed_witness:
  "map_of (fq_gates (nd_fairq (queue_attach desk_env 0 [(''a'', 1)] (desk [queued_row ''a'' 1, queued_row ''b'' 1])))) (0, ''a'', 1) = Some 3"
proof -
  let ?nd = "desk [queued_row ''a'' 1, queued_row ''b'' 1]"
  have r: "queued_row ''a'' 1 \<in> set (ledger_of (queue_attach desk_env 0 [(''a'', 1)] ?nd) 0)" "lr_state (queued_row ''a'' 1) = JS_Queued"
      "lr_job_id (queued_row ''a'' 1) = ''a''" "lr_generation (queued_row ''a'' 1) = 1" "epoch_of ?nd 0 = 3"
      "fences [queued_row ''a'' 1, queued_row ''b'' 1] = [(''a'', 1), (''b'', 1)]"
    by code_simp+
  have "good ?nd" by (rule good_desk) (simp only: r(6), simp)
  from attach_keeps_listed [OF this r(1,2)] show ?thesis unfolding r(3-5) by blast
qed

section \<open>A tick\<close>

definition desk_gated :: Node where
  "desk_gated = (desk [queued_row ''a'' 1]) \<lparr> nd_fairq := desk_fairq \<lparr> fq_gates := [((0, ''a'', 1), 3)] \<rparr> \<rparr>"

definition desk_started :: Node where
  "desk_started = the (tick desk_env desk_gated)"

lemma desk_tick: "tick desk_env desk_gated = Some desk_started" "launched desk_started = [(0, ''a'', 1)]" "launched desk_gated = []"
    "times_ok (snp_input (snapshot desk_env (before_starts desk_env desk_gated)))"
    "load_ok (snp_input (snapshot desk_env (before_starts desk_env desk_gated)))"
    "epoch_of desk_gated 0 = 3" "length (fq_runs (nd_fairq desk_started)) = 1"
  by code_simp+

lemma good_gated: "good desk_gated"
proof -
  have "ledgers desk_gated = ledgers (desk [queued_row ''a'' 1])" by (simp add: desk_gated_def)
  then show ?thesis using good_desk [of "[queued_row ''a'' 1]"] by (simp add: good_def ledger_of_map slots_ledgers fences_def)
qed

theorem tick_starts_gated_witness: "map_of (fq_gates (nd_fairq desk_gated)) (0, ''a'', 1) = Some 3"
proof -
  have "(0, ''a'', 1) \<in> set (launched desk_started)" "(0, ''a'', 1) \<notin> set (launched desk_gated)" by (simp_all only: desk_tick) simp_all
  from tick_starts_gated [OF good_gated desk_tick(1,4) this] show ?thesis unfolding fst_conv desk_tick(6) by blast
qed

theorem tick_within_caps_witness: "run_load rm_cpu desk_started \<le> cap_cpu_millis (queue_caps desk_env)"
proof -
  have "launched desk_started \<noteq> launched desk_gated" by (simp add: desk_tick(2,3))
  from tick_within_caps [OF desk_tick(1) this desk_tick(4,5)] show ?thesis by blast
qed

section \<open>Assigns\<close>

definition desk_after :: Node where
  "desk_after = fst (on_assign desk_env 0 (desk_assign ''a'' 1) (desk []))"

theorem assign_within_caps_witness: "within_caps (8000, 16000, 2) desk_after"
proof -
  have f: "node_tenant (desk []) 0 = Some (desk_tenant [])" "on_assign desk_env 0 (desk_assign ''a'' 1) (desk []) = (desk_after, Some (''a'', 1))"
      "launched desk_after \<noteq> launched (desk [])" "jl_cpu_millis (pl_limits (as_plan (desk_assign ''a'' 1))) = Some 1000"
      "jl_mem_bytes (pl_limits (as_plan (desk_assign ''a'' 1))) = Some 100" "node_caps desk_env (desk_tenant []) = (8000, 16000, 2)"
      "within_caps (8000, 16000, 2) (desk [])"
    by code_simp+
  show ?thesis using assign_within_caps [OF f(1-6) _ _ _ f(7)] by simp
qed

theorem queue_within_share_witness:
  "\<exists>share. fq_share desk_env (desk []) 0 = Some share
     \<and> length (queued_rows (ledger_of (fst (enqueue desk_env 0 (desk_assign ''a'' 1) (desk []))) 0)) \<le> l_max_queued (shi_limits share)"
proof -
  have t: "node_tenant (desk []) 0 = Some (desk_tenant [])" by code_simp
  have "snd (enqueue desk_env 0 (desk_assign ''a'' 1) (desk [])) = Some (''a'', 1)" by code_simp
  then have e: "enqueue desk_env 0 (desk_assign ''a'' 1) (desk []) = (fst (enqueue desk_env 0 (desk_assign ''a'' 1) (desk [])), Some (''a'', 1))"
    by (simp add: prod_eq_iff)
  show ?thesis using queue_within_share [OF e t] by (elim exE conjE) (rule exI, rule conjI)
qed

definition three_running :: "Candidate list" where
  "three_running = [\<lparr> cd_slot = 0, cd_seq = 5, cd_gate = False \<rparr>, \<lparr> cd_slot = 1, cd_seq = 2, cd_gate = False \<rparr>, \<lparr> cd_slot = 1, cd_seq = 9, cd_gate = True \<rparr>]"

theorem disk_victim_spares_gates_witness: "\<not> cd_gate (three_running ! 1)"
proof -
  have "disk_victim three_running (Some 1) = Some 1" by code_simp
  from disk_victim_spares_gates [OF this] show ?thesis by (simp add: three_running_def)
qed

text \<open>Generation 2 of job \<open>a\<close> is assigned and launched while generation 1 still runs; then generation 1 ends.\<close>

definition cancelled_end :: TaskEnd where
  "cancelled_end = \<lparr> te_state = JS_Cancelled, te_reason = Some ''cancelled'', te_detail = None, te_exit = None, te_log_seq = 0,
     te_src = None, te_outputs = None, te_receipt = None, te_tree_left = False \<rparr>"

definition desk_second :: Node where
  "desk_second = put_ledger 0 (the (ledger_insert (ledger_of desk_after 0) (desk_assign ''a'' 2) (ne_clock desk_env))) desk_after"

theorem older_end_uncounts_newer_witness:
  "fst (on_assign desk_env 0 (desk_assign ''a'' 2) desk_after) = launch desk_env 0 (desk_assign ''a'' 2) desk_second
   \<and> map_of (nd_jobs (finish_job desk_env 0 ''a'' 1 cancelled_end (fst (on_assign desk_env 0 (desk_assign ''a'' 2) desk_after)))) (0, ''a'') = None"
proof -
  have l: "fst (on_assign desk_env 0 (desk_assign ''a'' 2) desk_after) = launch desk_env 0 (desk_assign ''a'' 2) desk_second"
    unfolding desk_second_def by code_simp
  let ?nd = "finish_job desk_env 0 ''a'' 1 cancelled_end (launch desk_env 0 (desk_assign ''a'' 2) desk_second)"
  let ?r = "the (ledger_get (ledger_of ?nd 0) ''a'' (fe_generation (as_fence (desk_assign ''a'' 2))))"
  have f: "fe_job_id (as_fence (desk_assign ''a'' 2)) = ''a''" by code_simp
  have "map_option (\<lambda>r. (lr_state r, lr_started_at r)) (ledger_get (ledger_of ?nd 0) ''a'' (fe_generation (as_fence (desk_assign ''a'' 2)))) = Some (JS_Preparing, None)"
    by code_simp
  then have "ledger_get (ledger_of ?nd 0) ''a'' (fe_generation (as_fence (desk_assign ''a'' 2))) = Some ?r" "lr_state ?r = JS_Preparing" "lr_started_at ?r = None"
    by auto
  from older_end_uncounts_newer [OF f refl this] show ?thesis unfolding l by blast
qed

end
