(* ===== verification/Journal.thy ===== *)
theory Journal
  imports Rust_Str
begin

text \<open>
  The log journal of an attempt on its node (\<open>k2-node/src/journal.rs\<close>) and its shipping (\<open>session.rs\<close>): a file of
  records \<open>u64 seq BE | u8 stream | u32 len BE | bytes\<close>, written under the job's cap and read back after a position. The
  file is the list of its bytes; a writer that dies leaves a prefix of what it wrote. The redactors of a secret job and
  the digest of the receipt are parameters. I/O errors other than a missing file are left out.
\<close>

section \<open>Big-endian numbers and records\<close>

fun be_bytes :: "nat \<Rightarrow> nat \<Rightarrow> string" where
  "be_bytes 0 n = []"
| "be_bytes (Suc k) n = be_bytes k (n div 256) @ [char_of (n mod 256)]"

definition from_be_bytes :: "string \<Rightarrow> nat" where
  "from_be_bytes s = foldl (\<lambda>a c. a * 256 + of_char c) 0 s"

lemma length_be_bytes [simp]: "length (be_bytes k n) = k"
  by (induction k arbitrary: n) simp_all

lemma from_be_bytes_snoc [simp]: "from_be_bytes (s @ [c]) = from_be_bytes s * 256 + of_char c"
  by (simp add: from_be_bytes_def)

lemma from_be_bytes [simp]: "n < 256 ^ k \<Longrightarrow> from_be_bytes (be_bytes k n) = n"
proof (induction k arbitrary: n)
  case (Suc k)
  then have "n div 256 < 256 ^ k" by (simp add: less_mult_imp_div_less mult.commute)
  then show ?case using Suc.IH by simp
qed (simp add: from_be_bytes_def)

datatype LogStream = LS_Out | LS_Err | LS_Sys

definition MAX_LOG_CHUNK :: nat where "MAX_LOG_CHUNK = 65536"
definition JOURNAL_HEADER :: nat where "JOURNAL_HEADER = 13"

fun stream_byte :: "LogStream \<Rightarrow> nat" where
  "stream_byte LS_Out = 1"
| "stream_byte LS_Err = 2"
| "stream_byte LS_Sys = 3"

definition stream_of :: "nat \<Rightarrow> LogStream option" where
  "stream_of b = (if b = 1 then Some LS_Out else if b = 2 then Some LS_Err else if b = 3 then Some LS_Sys else None)"

lemma stream_of_byte [simp]: "stream_of (stream_byte s) = Some s"
  by (cases s) (simp_all add: stream_of_def)

record LogRecord =
  lo_seq :: nat
  lo_stream :: LogStream
  lo_data :: string

definition record_bytes :: "nat \<Rightarrow> nat \<Rightarrow> string \<Rightarrow> string" where
  "record_bytes seq b data = be_bytes 8 seq @ [char_of b] @ be_bytes 4 (length data) @ data"

section \<open>Writing\<close>

text \<open>\<open>jw_hashed\<close> is what went into the receipt's digest (\<open>None\<close> once it was taken).\<close>

record Redactor =
  rd_hits :: "string \<Rightarrow> bool"
  rd_redact :: "string \<Rightarrow> string"

record JournalWriter =
  jw_file :: string
  jw_seq :: nat
  jw_bytes :: nat
  jw_dropped :: nat
  jw_cap :: nat
  jw_out_bytes :: nat
  jw_sys_bytes :: nat
  jw_sys_dropped :: nat
  jw_hashed :: "string option"
  jw_redactor :: "Redactor option"
  jw_late :: "Redactor option"

definition SYS_ALLOWANCE :: nat where "SYS_ALLOWANCE = 64 * 1024"

definition journal_create :: "string \<Rightarrow> nat \<Rightarrow> JournalWriter" where
  "journal_create file cap =
     \<lparr> jw_file = file, jw_seq = 0, jw_bytes = 0, jw_dropped = 0, jw_cap = cap, jw_out_bytes = 0, jw_sys_bytes = 0,
       jw_sys_dropped = 0, jw_hashed = Some [], jw_redactor = None, jw_late = None \<rparr>"

definition journal_record :: "LogStream \<Rightarrow> string \<Rightarrow> JournalWriter \<Rightarrow> JournalWriter" where
  "journal_record s data w = (let n = u64_add (jw_seq w) 1 in
     w \<lparr> jw_seq := n, jw_file := jw_file w @ record_bytes n (stream_byte s) data, jw_bytes := u64_add (jw_bytes w) (length data),
         jw_hashed := map_option (\<lambda>h. h @ data) (jw_hashed w) \<rparr>)"

definition redacted :: "Redactor option \<Rightarrow> string \<Rightarrow> string" where
  "redacted r data = (case r of Some r \<Rightarrow> if rd_hits r data then rd_redact r data else data | None \<Rightarrow> data)"

function chunks_of :: "nat \<Rightarrow> 'a list \<Rightarrow> 'a list list" where
  "chunks_of n xs = (if xs = [] \<or> n = 0 then [] else take n xs # chunks_of n (drop n xs))"
  by pat_completeness auto
termination by (relation "measure (\<lambda>(n, xs). length xs)") auto

declare chunks_of.simps [simp del]

definition journal_append :: "LogStream \<Rightarrow> string \<Rightarrow> JournalWriter \<Rightarrow> JournalWriter" where
  "journal_append s data0 w =
     (let data = redacted (jw_late w) (redacted (jw_redactor w) data0);
          room = (if s = LS_Sys then SYS_ALLOWANCE - jw_sys_bytes w else jw_cap w - jw_out_bytes w);
          keep = min (length data) room; lost_bytes = length data - keep;
          w1 = (if s = LS_Sys then w \<lparr> jw_sys_bytes := u64_add (jw_sys_bytes w) keep, jw_sys_dropped := u64_add (jw_sys_dropped w) lost_bytes \<rparr>
                else w \<lparr> jw_out_bytes := u64_add (jw_out_bytes w) keep, jw_dropped := u64_add (jw_dropped w) lost_bytes \<rparr>)
      in foldl (\<lambda>w c. journal_record s c w) w1 (chunks_of MAX_LOG_CHUNK (take keep data)))"

definition cap_words :: "JournalWriter \<Rightarrow> string" where
  "cap_words w = ''[k2-node] log truncated at '' @ digits_of (jw_cap w) @ '' bytes; '' @ digits_of (jw_dropped w) @ '' bytes dropped'' @ [CHR 10]"

definition sys_words :: "JournalWriter \<Rightarrow> string" where
  "sys_words w = ''[k2-node] node lines over '' @ digits_of (SYS_ALLOWANCE div 1024) @ '' KB dropped ('' @ digits_of (jw_sys_dropped w)
     @ '' bytes)'' @ [CHR 10]"

definition journal_finish :: "(string \<Rightarrow> string) \<Rightarrow> JournalWriter \<Rightarrow> JournalWriter \<times> (string \<times> nat \<times> bool)" where
  "journal_finish digest w =
     (let truncated = (0 < jw_dropped w \<or> 0 < jw_sys_dropped w);
          w1 = (if 0 < jw_dropped w then journal_record LS_Sys (cap_words w) w else w);
          w2 = (if 0 < jw_sys_dropped w1 then journal_record LS_Sys (sys_words w1) w1 else w1)
      in (w2 \<lparr> jw_hashed := None \<rparr>, (case jw_hashed w2 of Some h \<Rightarrow> digest h | None \<Rightarrow> []), jw_bytes w2, truncated))"

section \<open>Reading\<close>

record JournalReader =
  jr_offset :: nat
  jr_last_seq :: nat

definition reader_new :: JournalReader where "reader_new = \<lparr> jr_offset = 0, jr_last_seq = 0 \<rparr>"

definition skip_to :: "nat \<Rightarrow> JournalReader \<Rightarrow> JournalReader" where
  "skip_to seq r = r \<lparr> jr_last_seq := max (jr_last_seq r) seq \<rparr>"

text \<open>The record at an offset, if it is whole; \<open>Peek_Bad\<close> is a bad stream byte, met before the length is looked at.\<close>

datatype Peek = Peek_End | Peek_Bad | Peek_Rec LogRecord nat

definition peek :: "string \<Rightarrow> nat \<Rightarrow> Peek" where
  "peek f off =
     (if length f < off + JOURNAL_HEADER then Peek_End
      else (let h = take JOURNAL_HEADER (drop off f); seq = from_be_bytes (take 8 h); n = from_be_bytes (take 4 (drop 9 h))
            in case stream_of (of_char (h ! 8)) of
                 None \<Rightarrow> Peek_Bad
               | Some s \<Rightarrow> if length f < off + JOURNAL_HEADER + n then Peek_End
                   else Peek_Rec \<lparr> lo_seq = seq, lo_stream = s, lo_data = take n (drop (off + JOURNAL_HEADER) f) \<rparr>
                          (off + JOURNAL_HEADER + n)))"

lemma peek_offset: "peek f off = Peek_Rec rec off' \<Longrightarrow> off < off' \<and> off' \<le> length f"
  by (auto simp: peek_def Let_def JOURNAL_HEADER_def split: if_splits option.splits)

text \<open>After a bad byte the reader stays at its place; the records of that call are lost with the error.\<close>

function read_loop :: "string \<Rightarrow> nat \<Rightarrow> JournalReader \<Rightarrow> LogRecord list \<Rightarrow> JournalReader \<times> LogRecord list option" where
  "read_loop f mx r out =
     (if length out < mx then
        (case peek f (jr_offset r) of
           Peek_End \<Rightarrow> (r, Some out)
         | Peek_Bad \<Rightarrow> (r, None)
         | Peek_Rec rec off \<Rightarrow>
             if jr_last_seq r < lo_seq rec
             then read_loop f mx (r \<lparr> jr_offset := off, jr_last_seq := lo_seq rec \<rparr>) (out @ [rec])
             else read_loop f mx (r \<lparr> jr_offset := off \<rparr>) out)
      else (r, Some out))"
  by pat_completeness auto
termination
  by (relation "measure (\<lambda>(f, mx, r, out). length f - jr_offset r)") (auto dest: peek_offset)

declare read_loop.simps [simp del]

definition read_more :: "string option \<Rightarrow> nat \<Rightarrow> JournalReader \<Rightarrow> JournalReader \<times> LogRecord list option" where
  "read_more file mx r = (case file of None \<Rightarrow> (r, Some []) | Some f \<Rightarrow> read_loop f mx r [])"

lemma read_loop_offset:
  "read_loop f mx r out = (r', Some recs) \<Longrightarrow>
    jr_offset r \<le> jr_offset r' \<and> (length out < length recs \<longrightarrow> jr_offset r < jr_offset r')
    \<and> (jr_offset r < jr_offset r' \<longrightarrow> jr_offset r' \<le> length f)"
proof (induction f mx r out rule: read_loop.induct)
  case (1 f mx r out)
  show ?case
  proof (cases "length out < mx \<and> (\<exists>rec off. peek f (jr_offset r) = Peek_Rec rec off)")
    case True
    then obtain rec off where p: "length out < mx" "peek f (jr_offset r) = Peek_Rec rec off" by blast
    note o = peek_offset [OF p(2)]
    show ?thesis
      using "1.prems" "1.IH"(1) [OF p] "1.IH"(2) [OF p] p o
      by (cases "jr_last_seq r < lo_seq rec"; subst (asm) read_loop.simps) (auto simp: Suc_le_eq)
  next
    case False
    then show ?thesis
      using "1.prems" by (subst (asm) read_loop.simps) (auto split: if_splits Peek.splits)
  qed
qed

lemma read_loop_progress:
  assumes "read_loop f mx r [] = (r', Some recs)" "recs \<noteq> []"
  shows "length f - jr_offset r' < length f - jr_offset r"
  using read_loop_offset [OF assms(1)] assms(2) by auto

section \<open>Opening a journal again\<close>

definition count_record :: "JournalWriter \<Rightarrow> LogRecord \<Rightarrow> JournalWriter" where
  "count_record w r = (let n = length (lo_data r);
       w1 = w \<lparr> jw_seq := lo_seq r, jw_bytes := u64_add (jw_bytes w) n, jw_hashed := map_option (\<lambda>h. h @ lo_data r) (jw_hashed w) \<rparr>
     in if lo_stream r = LS_Sys then w1 \<lparr> jw_sys_bytes := u64_add (jw_sys_bytes w) n \<rparr>
        else w1 \<lparr> jw_out_bytes := u64_add (jw_out_bytes w) n \<rparr>)"

function reopen_loop :: "string \<Rightarrow> JournalReader \<Rightarrow> JournalWriter \<Rightarrow> (JournalReader \<times> JournalWriter) option" where
  "reopen_loop f r w = (case read_loop f 256 r [] of
     (r', None) \<Rightarrow> None
   | (r', Some recs) \<Rightarrow> if recs = [] then Some (r', w) else reopen_loop f r' (foldl count_record w recs))"
  by pat_completeness auto
termination
  by (relation "measure (\<lambda>(f, r, w). length f - jr_offset r)") (auto intro!: read_loop_progress)

declare reopen_loop.simps [simp del]

definition journal_reopen :: "string option \<Rightarrow> nat \<Rightarrow> JournalWriter option" where
  "journal_reopen file cap = (let f = unwrap_or file [] in
     map_option (\<lambda>(r, w). w \<lparr> jw_file := take (jr_offset r) f \<rparr>) (reopen_loop f reader_new (journal_create f cap)))"

section \<open>Shipping\<close>

function ship_logs :: "string \<Rightarrow> JournalReader \<Rightarrow> JournalReader \<times> LogRecord list" where
  "ship_logs f r = (case read_loop f 32 r [] of (r', res) \<Rightarrow>
     (let recs = unwrap_or res [] in
      if length recs < 32 then (r', recs)
      else (case ship_logs f r' of (r2, rest) \<Rightarrow> (r2, recs @ rest))))"
  by pat_completeness auto
termination
proof (relation "measure (\<lambda>(f, r). length f - jr_offset r)")
  show "((f, r'), f, r) \<in> measure (\<lambda>(f, r). length f - jr_offset r)"
    if "(r', res) = read_loop f 32 r []" "recs = unwrap_or res []" "\<not> length recs < 32" for f r r' res recs
  proof -
    have "read_loop f 32 r [] = (r', Some recs)" "recs \<noteq> []" using that by (cases res; auto)+
    then show ?thesis using read_loop_progress by simp
  qed
qed auto

declare ship_logs.simps [simp del]

definition track_reader :: "nat \<Rightarrow> JournalReader" where "track_reader since = skip_to since reader_new"

end
