(* ===== verification/Job_Logs.thy ===== *)
theory Job_Logs
  imports Journal Job_Observe "HOL-Library.AList"
begin

text \<open>
  The server's copy of each attempt's log (\<open>k2-core/src/compute/logs.rs\<close>) and the log frames of a node's session
  (\<open>compute_ws.rs\<close>: \<open>on_log\<close>, \<open>flush_tally\<close>, \<open>frame_worker\<close>). A file is the list of its bytes under its name;
  \<open>TAILS\<close>, the last sequence and size of each open log, is an association list. Base64 and the redaction of a released
  secret (\<open>belt\<close>) are parameters. I/O errors are left out.
\<close>

section \<open>The files\<close>

fun log_stream_byte :: "LogStream \<Rightarrow> nat" where
  "log_stream_byte LS_Out = 0"
| "log_stream_byte LS_Err = 1"
| "log_stream_byte LS_Sys = 2"

definition stream_name :: "nat \<Rightarrow> string" where
  "stream_name b = (if b = 0 then ''out'' else if b = 1 then ''err'' else ''sys'')"

record LogRec =
  le_seq :: nat
  le_stream :: nat
  le_data :: string

record LogStore =
  ls_files :: "(string \<times> string) list"
  ls_tails :: "(string \<times> nat \<times> nat) list"

definition show_int :: "int \<Rightarrow> string" where
  "show_int i = (if i < 0 then CHR ''-'' # digits_of (nat (- i)) else digits_of (nat i))"

definition log_path :: "string \<Rightarrow> int \<Rightarrow> string" where
  "log_path job g = job @ ''-g'' @ show_int g @ ''.log''"

text \<open>A seek past the end of the file succeeds: the tail counts a record whose data is missing.\<close>

function scan_from :: "string \<Rightarrow> nat \<Rightarrow> nat \<Rightarrow> nat \<times> nat" where
  "scan_from f last_one off =
     (if length f < off + JOURNAL_HEADER then (last_one, off)
      else scan_from f (from_be_bytes (take 8 (drop off f)))
             (off + JOURNAL_HEADER + from_be_bytes (take 4 (drop (off + 9) f))))"
  by pat_completeness auto
termination by (relation "measure (\<lambda>(f, l, off). length f - off)") (auto simp: JOURNAL_HEADER_def)

declare scan_from.simps [simp del]

definition scan_tail :: "string option \<Rightarrow> nat \<times> nat" where
  "scan_tail file = (case file of None \<Rightarrow> (0, 0) | Some f \<Rightarrow> scan_from f 0 0)"

definition log_tail :: "LogStore \<Rightarrow> string \<Rightarrow> nat \<times> nat" where
  "log_tail s p = (case map_of (ls_tails s) p of Some t \<Rightarrow> t | None \<Rightarrow> scan_tail (map_of (ls_files s) p))"

definition log_append :: "string \<Rightarrow> int \<Rightarrow> nat \<Rightarrow> LogStream \<Rightarrow> string \<Rightarrow> LogStore \<Rightarrow> LogStore \<times> bool" where
  "log_append job g seq stream data s =
     (let p = log_path job g; (last_one, size) = log_tail s p;
          s1 = s \<lparr> ls_tails := AList.update p (last_one, size) (ls_tails s) \<rparr>
      in if seq \<le> last_one \<or> seq \<noteq> u64_add last_one 1 then (s1, False)
         else (let rec = record_bytes seq (log_stream_byte stream) data
               in (s1 \<lparr> ls_files := AList.update p (unwrap_or (map_of (ls_files s) p) [] @ rec) (ls_files s),
                        ls_tails := AList.update p (seq, u64_add size (length rec)) (ls_tails s1) \<rparr>, True)))"

definition log_last_seq :: "string \<Rightarrow> int \<Rightarrow> LogStore \<Rightarrow> LogStore \<times> nat" where
  "log_last_seq job g s = (let p = log_path job g; t = log_tail s p in (s \<lparr> ls_tails := AList.update p t (ls_tails s) \<rparr>, fst t))"

section \<open>Reading\<close>

function read_recs :: "string \<Rightarrow> nat \<Rightarrow> nat \<Rightarrow> nat \<Rightarrow> LogRec list \<times> nat" where
  "read_recs f mx off got =
     (if got < mx \<and> off + JOURNAL_HEADER \<le> length f then
        (let n = from_be_bytes (take 4 (drop (off + 9) f)); next_off = off + JOURNAL_HEADER + n
         in if length f < next_off then ([], off)
            else (case read_recs f mx next_off (got + n) of (recs, end_off) \<Rightarrow>
              (\<lparr> le_seq = from_be_bytes (take 8 (drop off f)), le_stream = of_char (f ! (off + 8)),
                 le_data = take n (drop (off + JOURNAL_HEADER) f) \<rparr> # recs, end_off)))
      else ([], off))"
  by pat_completeness auto
termination by (relation "measure (\<lambda>(f, mx, off, got). length f - off)") (auto simp: JOURNAL_HEADER_def)

declare read_recs.simps [simp del]

definition read_from :: "string \<Rightarrow> int \<Rightarrow> nat \<Rightarrow> nat \<Rightarrow> LogStore \<Rightarrow> LogRec list \<times> nat" where
  "read_from job g cursor mx s = (case map_of (ls_files s) (log_path job g) of None \<Rightarrow> ([], cursor) | Some f \<Rightarrow> read_recs f mx cursor 0)"

function cursor_scan :: "string \<Rightarrow> nat \<Rightarrow> nat \<Rightarrow> nat" where
  "cursor_scan f since off =
     (if length f < off + JOURNAL_HEADER then off
      else if since < from_be_bytes (take 8 (drop off f)) then off
      else cursor_scan f since (off + JOURNAL_HEADER + from_be_bytes (take 4 (drop (off + 9) f))))"
  by pat_completeness auto
termination by (relation "measure (\<lambda>(f, since, off). length f - off)") (auto simp: JOURNAL_HEADER_def)

declare cursor_scan.simps [simp del]

definition cursor_after_seq :: "string \<Rightarrow> int \<Rightarrow> nat \<Rightarrow> LogStore \<Rightarrow> nat" where
  "cursor_after_seq job g since s = (if since = 0 then 0
     else case map_of (ls_files s) (log_path job g) of None \<Rightarrow> 0 | Some f \<Rightarrow> cursor_scan f since 0)"

section \<open>Log frames\<close>

record LogChunk =
  lc_job_id :: string
  lc_generation :: nat
  lc_seq :: nat
  lc_stream :: LogStream
  lc_data :: string

record LogTally =
  lt_seq :: nat
  lt_bytes :: nat
  lt_flushed :: nat

record LogSession =
  lg_store :: LogStore
  lg_tallies :: "((string \<times> nat) \<times> LogTally) list"
  lg_ctrl :: Ctrl

definition flush_tally :: "string \<Rightarrow> LogTally \<Rightarrow> Ctrl \<Rightarrow> Ctrl" where
  "flush_tally job t = on_jobs (\<lambda>db. set_job_log db job (lt_seq t) (lt_bytes t))"

definition note_chunk :: "nat \<Rightarrow> LogChunk \<Rightarrow> nat \<Rightarrow> LogSession \<Rightarrow> LogSession" where
  "note_chunk now l n ss =
     (let k = (lc_job_id l, lc_generation l);
          t0 = unwrap_or (map_of (lg_tallies ss) k) \<lparr> lt_seq = 0, lt_bytes = 0, lt_flushed = now \<rparr>;
          t = t0 \<lparr> lt_seq := lc_seq l, lt_bytes := u64_add (lt_bytes t0) n \<rparr>
      in if 1000 < now - lt_flushed t
         then ss \<lparr> lg_tallies := AList.update k (t \<lparr> lt_flushed := now \<rparr>) (lg_tallies ss),
                   lg_ctrl := flush_tally (lc_job_id l) (t \<lparr> lt_flushed := now \<rparr>) (lg_ctrl ss) \<rparr>
         else ss \<lparr> lg_tallies := AList.update k t (lg_tallies ss) \<rparr>)"

definition on_log :: "(string \<Rightarrow> string option) \<Rightarrow> (string \<Rightarrow> nat \<Rightarrow> string \<Rightarrow> string option) \<Rightarrow> nat \<Rightarrow> LogChunk \<Rightarrow> LogSession \<Rightarrow> LogSession" where
  "on_log unb64 belt now l ss =
     (case unb64 (lc_data l) of
        None \<Rightarrow> ss
      | Some raw \<Rightarrow>
          if MAX_LOG_CHUNK < length raw then ss
          else (let data = unwrap_or (belt (lc_job_id l) (lc_generation l) raw) raw
                in case log_append (lc_job_id l) (int (lc_generation l)) (lc_seq l) (lc_stream l) data (lg_store ss) of
                     (st, True) \<Rightarrow> note_chunk now l (length data) (ss \<lparr> lg_store := st \<rparr>)
                   | (st, False) \<Rightarrow> ss \<lparr> lg_store := st \<rparr>))"

text \<open>A state frame writes the attempt's tally first, and the end of a session all of them.\<close>

definition flush_before_state :: "string \<Rightarrow> nat \<Rightarrow> LogSession \<Rightarrow> LogSession" where
  "flush_before_state job g ss = (case map_of (lg_tallies ss) (job, g) of
     None \<Rightarrow> ss
   | Some t \<Rightarrow> ss \<lparr> lg_tallies := AList.delete (job, g) (lg_tallies ss), lg_ctrl := flush_tally job t (lg_ctrl ss) \<rparr>)"

definition flush_all :: "LogSession \<Rightarrow> LogSession" where
  "flush_all ss = ss \<lparr> lg_tallies := [], lg_ctrl := foldl (\<lambda>c ((job, g), t). flush_tally job t c) (lg_ctrl ss) (lg_tallies ss) \<rparr>"

text \<open>What the node sends of its journal: one frame per record.\<close>

definition log_frame :: "(string \<Rightarrow> string) \<Rightarrow> string \<Rightarrow> nat \<Rightarrow> LogRecord \<Rightarrow> LogChunk" where
  "log_frame b64 job g r = \<lparr> lc_job_id = job, lc_generation = g, lc_seq = lo_seq r, lc_stream = lo_stream r, lc_data = b64 (lo_data r) \<rparr>"

definition ship_frames :: "(string \<Rightarrow> string) \<Rightarrow> string \<Rightarrow> nat \<Rightarrow> string \<Rightarrow> JournalReader \<Rightarrow> JournalReader \<times> LogChunk list" where
  "ship_frames b64 job g f r = (case ship_logs f r of (r', recs) \<Rightarrow> (r', map (log_frame b64 job g) recs))"

end
