(* ===== verification/Log_Rules.thy ===== *)
theory Log_Rules
  imports Job_Logs "HOL-Library.Code_Target_Numeral"
begin

text \<open>
  What the two ends of a job's log promise: the journal keeps a prefix of what the job printed and survives a writer that
  dies, and the server's copy is at every moment a prefix of the journal, whole once a session has shipped it, whatever
  was sent again, dropped or came in another order before.
\<close>

section \<open>Records in a file\<close>

definition rec_ok :: "LogRecord \<Rightarrow> bool" where
  "rec_ok r \<longleftrightarrow> lo_seq r < 2 ^ 64 \<and> length (lo_data r) < 2 ^ 32"

definition rec_bytes :: "LogRecord \<Rightarrow> string" where
  "rec_bytes r = record_bytes (lo_seq r) (stream_byte (lo_stream r)) (lo_data r)"

definition journal_bytes :: "LogRecord list \<Rightarrow> string" where
  "journal_bytes rs = concat (map rec_bytes rs)"

definition torn :: "string \<Rightarrow> bool" where
  "torn t \<longleftrightarrow> (\<exists>r k. rec_ok r \<and> t = take k (rec_bytes r) \<and> k < length (rec_bytes r))"

lemma journal_bytes_simps [simp]: "journal_bytes [] = []" "journal_bytes (r # rs) = rec_bytes r @ journal_bytes rs"
    "journal_bytes (as @ bs) = journal_bytes as @ journal_bytes bs"
  by (simp_all add: journal_bytes_def)

lemma length_rec_bytes [simp]: "length (rec_bytes r) = 13 + length (lo_data r)"
  by (simp add: rec_bytes_def record_bytes_def)

lemma torn_Nil [simp]: "torn []"
  unfolding torn_def by (rule exI [of _ "\<lparr> lo_seq = 0, lo_stream = LS_Out, lo_data = [] \<rparr>"]) (auto simp: rec_ok_def intro: exI [of _ 0])

lemma rec_header:
  assumes "rec_ok r" "13 \<le> length p" "p = take k (rec_bytes r) @ post" "13 \<le> k"
  shows "from_be_bytes (take 8 (take 13 p)) = lo_seq r" "stream_of (of_char (take 13 p ! 8)) = Some (lo_stream r)"
    "from_be_bytes (take 4 (drop 9 (take 13 p))) = length (lo_data r)"
proof -
  let ?h = "be_bytes 8 (lo_seq r) @ [char_of (stream_byte (lo_stream r))] @ be_bytes 4 (length (lo_data r))"
  have "take 13 p = take 13 (rec_bytes r)" using assms(3,4) by (simp add: min_def)
  then have h: "take 13 p = ?h" by (simp add: rec_bytes_def record_bytes_def)
  have s: "lo_seq r < 256 ^ 8" and n: "length (lo_data r) < 256 ^ 4" using assms(1) by (simp_all add: rec_ok_def)
  show "from_be_bytes (take 8 (take 13 p)) = lo_seq r" unfolding h using from_be_bytes [OF s] by simp
  show "from_be_bytes (take 4 (drop 9 (take 13 p))) = length (lo_data r)" unfolding h using from_be_bytes [OF n] by simp
  have "of_char (char_of (stream_byte (lo_stream r))) = stream_byte (lo_stream r)" by (cases "lo_stream r") simp_all
  then show "stream_of (of_char (take 13 p ! 8)) = Some (lo_stream r)" unfolding h by (simp add: nth_append)
qed

lemma peek_record:
  assumes "rec_ok r"
  shows "peek (pre @ rec_bytes r @ post) (length pre) = Peek_Rec r (length pre + length (rec_bytes r))"
proof -
  let ?p = "rec_bytes r @ post"
  have l: "13 \<le> length ?p" "13 \<le> length (rec_bytes r)" by simp_all
  have p: "?p = take (length (rec_bytes r)) (rec_bytes r) @ post" by simp
  note h = rec_header [OF assms l(1) p l(2)]
  have d: "take (length (lo_data r)) (drop 13 ?p) = lo_data r" by (simp add: rec_bytes_def record_bytes_def)
  have f: "drop (length pre) (pre @ ?p) = ?p" "drop (length pre + 13) (pre @ ?p) = drop 13 ?p" by simp_all
  have n: "length (pre @ ?p) = length pre + 13 + length (lo_data r) + length post" by simp
  show ?thesis unfolding peek_def JOURNAL_HEADER_def Let_def f h d n by simp
qed

lemma peek_torn:
  assumes "torn t"
  shows "peek (pre @ t) (length pre) = Peek_End"
proof (cases "length t < 13")
  case True
  then show ?thesis by (simp add: peek_def JOURNAL_HEADER_def)
next
  case False
  obtain r k where r: "rec_ok r" "t = take k (rec_bytes r) @ []" "k < length (rec_bytes r)" using assms by (auto simp: torn_def)
  have k: "13 \<le> k" "length t = k" using False r(2,3) by simp_all
  have l: "13 \<le> length t" using k by simp
  note h = rec_header [OF r(1) l r(2) k(1)]
  have f: "drop (length pre) (pre @ t) = t" by simp
  have n: "length (pre @ t) = length pre + k" using k(2) by simp
  show ?thesis unfolding peek_def JOURNAL_HEADER_def Let_def f h n using k(1) r(3) by simp
qed

section \<open>Reading a journal\<close>

definition wanted :: "nat \<Rightarrow> LogRecord list \<Rightarrow> LogRecord list" where
  "wanted s rs = filter (\<lambda>r. s < lo_seq r) rs"

definition in_order :: "LogRecord list \<Rightarrow> bool" where
  "in_order rs \<longleftrightarrow> (\<forall>r \<in> set rs. rec_ok r) \<and> sorted_wrt (\<lambda>a b. lo_seq a < lo_seq b) rs"

definition passed :: "nat \<Rightarrow> LogRecord list \<Rightarrow> nat" where
  "passed s rs = foldl max s (map lo_seq rs)"

lemma wanted_simps [simp]: "wanted s [] = []" "wanted s (r # rs) = (if s < lo_seq r then r # wanted s rs else wanted s rs)"
    "wanted s (as @ bs) = wanted s as @ wanted s bs"
  by (simp_all add: wanted_def)

lemma passed_simps [simp]: "passed s [] = s" "passed s (r # rs) = passed (max s (lo_seq r)) rs"
  by (simp_all add: passed_def)

lemma wanted_passed: "in_order (as @ bs) \<Longrightarrow> wanted (passed s as) bs = wanted s bs"
proof (induction as arbitrary: s)
  case (Cons a as)
  have "wanted (max s (lo_seq a)) bs = wanted s bs"
    using Cons.prems unfolding wanted_def in_order_def by (intro filter_cong) auto
  moreover have "in_order (as @ bs)" using Cons.prems by (simp add: in_order_def)
  ultimately show ?case using Cons.IH by simp
qed simp

lemma in_order_append: "in_order (as @ bs) \<Longrightarrow> in_order as \<and> in_order bs"
  by (auto simp: in_order_def sorted_wrt_append)

lemma read_split:
  assumes "in_order rs" "torn t"
  shows "\<exists>as bs. rs = as @ bs
    \<and> read_loop (journal_bytes pre @ journal_bytes rs @ t) mx \<lparr> jr_offset = length (journal_bytes pre), jr_last_seq = s \<rparr> out
       = (\<lparr> jr_offset = length (journal_bytes (pre @ as)), jr_last_seq = passed s as \<rparr>, Some (out @ wanted s as))
    \<and> (bs = [] \<or> mx \<le> length (out @ wanted s as))"
  using assms(1)
proof (induction rs arbitrary: pre s out)
  case Nil
  show ?case by (intro exI [of _ "[]"]) (simp add: read_loop.simps peek_torn [OF assms(2)])
next
  case (Cons r rs)
  let ?f = "journal_bytes pre @ journal_bytes (r # rs) @ t" and ?jr = "\<lparr> jr_offset = length (journal_bytes pre), jr_last_seq = s \<rparr>"
  let ?f' = "journal_bytes (pre @ [r]) @ journal_bytes rs @ t"
  show ?case
  proof (cases "length out < mx")
    case False
    then show ?thesis by - (rule exI [of _ "[]"], rule exI [of _ "r # rs"], simp add: read_loop.simps)
  next
    case True
    let ?s = "max s (lo_seq r)" and ?out = "out @ wanted s [r]"
    have o: "in_order rs" "rec_ok r" using Cons.prems by (simp_all add: in_order_def)
    have f: "?f = ?f'" by simp
    have pk: "peek ?f (length (journal_bytes pre)) = Peek_Rec r (length (journal_bytes (pre @ [r])))"
      using peek_record [OF o(2), of "journal_bytes pre" "journal_bytes rs @ t"] by simp
    define F where "F = ?f"
    define n where "n = length (journal_bytes (pre @ [r]))"
    have "peek F (jr_offset ?jr) = Peek_Rec r n" unfolding F_def n_def using pk by simp
    then have "read_loop F mx ?jr out = read_loop F mx \<lparr> jr_offset = n, jr_last_seq = ?s \<rparr> ?out"
      by (subst read_loop.simps) (simp add: True max_def)
    then have "read_loop ?f mx ?jr out = read_loop ?f' mx \<lparr> jr_offset = length (journal_bytes (pre @ [r])), jr_last_seq = ?s \<rparr> ?out"
      unfolding F_def n_def f .
    moreover obtain as bs where ab: "rs = as @ bs"
      "read_loop ?f' mx \<lparr> jr_offset = length (journal_bytes (pre @ [r])), jr_last_seq = ?s \<rparr> ?out
       = (\<lparr> jr_offset = length (journal_bytes ((pre @ [r]) @ as)), jr_last_seq = passed ?s as \<rparr>, Some (?out @ wanted ?s as))"
      "bs = [] \<or> mx \<le> length (?out @ wanted ?s as)"
      using Cons.IH [OF o(1), of "pre @ [r]" ?s ?out] by blast
    moreover have "wanted ?s as = wanted s as"
      using wanted_passed [of "[r]" as s] Cons.prems in_order_append [of "r # as" bs] ab(1) by simp
    ultimately show ?thesis by - (rule exI [of _ "r # as"], rule exI [of _ bs], cases "s < lo_seq r"; simp)
  qed
qed

lemma ship_all:
  assumes "in_order rs" "torn t"
  shows "ship_logs (journal_bytes pre @ journal_bytes rs @ t) \<lparr> jr_offset = length (journal_bytes pre), jr_last_seq = s \<rparr>
    = (\<lparr> jr_offset = length (journal_bytes (pre @ rs)), jr_last_seq = passed s rs \<rparr>, wanted s rs)"
  using assms(1)
proof (induction "length rs" arbitrary: pre rs s rule: less_induct)
  case less
  let ?f = "journal_bytes pre @ journal_bytes rs @ t"
  obtain as bs where ab: "rs = as @ bs"
    "read_loop ?f 32 \<lparr> jr_offset = length (journal_bytes pre), jr_last_seq = s \<rparr> []
      = (\<lparr> jr_offset = length (journal_bytes (pre @ as)), jr_last_seq = passed s as \<rparr>, Some (wanted s as))"
    "bs = [] \<or> 32 \<le> length (wanted s as)"
    using read_split [OF less.prems assms(2), of pre 32 s "[]"] unfolding append_Nil by blast
  have p: "passed s (as @ bs) = passed (passed s as) bs" by (simp add: passed_def)
  show ?case
  proof (cases "length (wanted s as) < 32")
    case True
    then show ?thesis using ab by (subst ship_logs.simps) simp
  next
    case False
    then have "length bs < length rs" using ab(1) by (cases as) auto
    moreover have "in_order bs" using less.prems ab(1) in_order_append by blast
    ultimately have "ship_logs (journal_bytes (pre @ as) @ journal_bytes bs @ t)
        \<lparr> jr_offset = length (journal_bytes (pre @ as)), jr_last_seq = passed s as \<rparr>
      = (\<lparr> jr_offset = length (journal_bytes ((pre @ as) @ bs)), jr_last_seq = passed (passed s as) bs \<rparr>, wanted (passed s as) bs)"
      by (rule less.hyps)
    moreover have "wanted (passed s as) bs = wanted s bs" using wanted_passed less.prems ab(1) by blast
    ultimately show ?thesis using False ab(2) p unfolding ab(1) by (subst ship_logs.simps) simp
  qed
qed

lemma reopen_all:
  assumes "in_order rs" "torn t"
  shows "reopen_loop (journal_bytes pre @ journal_bytes rs @ t) \<lparr> jr_offset = length (journal_bytes pre), jr_last_seq = s \<rparr> w
    = Some (\<lparr> jr_offset = length (journal_bytes (pre @ rs)), jr_last_seq = passed s rs \<rparr>, foldl count_record w (wanted s rs))"
  using assms(1)
proof (induction "length rs" arbitrary: pre rs s w rule: less_induct)
  case less
  let ?f = "journal_bytes pre @ journal_bytes rs @ t"
  obtain as bs where ab: "rs = as @ bs"
    "read_loop ?f 256 \<lparr> jr_offset = length (journal_bytes pre), jr_last_seq = s \<rparr> []
      = (\<lparr> jr_offset = length (journal_bytes (pre @ as)), jr_last_seq = passed s as \<rparr>, Some (wanted s as))"
    "bs = [] \<or> 256 \<le> length (wanted s as)"
    using read_split [OF less.prems assms(2), of pre 256 s "[]"] unfolding append_Nil by blast
  have p: "passed s (as @ bs) = passed (passed s as) bs" by (simp add: passed_def)
  show ?case
  proof (cases "wanted s as = []")
    case True
    then show ?thesis using ab by (subst reopen_loop.simps) simp
  next
    case False
    then have "length bs < length rs" using ab(1) by (cases as) auto
    moreover have "in_order bs" using less.prems ab(1) in_order_append by blast
    ultimately have "reopen_loop (journal_bytes (pre @ as) @ journal_bytes bs @ t)
        \<lparr> jr_offset = length (journal_bytes (pre @ as)), jr_last_seq = passed s as \<rparr> (foldl count_record w (wanted s as))
      = Some (\<lparr> jr_offset = length (journal_bytes ((pre @ as) @ bs)), jr_last_seq = passed (passed s as) bs \<rparr>,
          foldl count_record (foldl count_record w (wanted s as)) (wanted (passed s as) bs))"
      by (rule less.hyps)
    moreover have "wanted (passed s as) bs = wanted s bs" using wanted_passed less.prems ab(1) by blast
    ultimately show ?thesis using False ab(2) p unfolding ab(1) by (subst reopen_loop.simps) simp
  qed
qed

section \<open>What a writer wrote\<close>

definition wrote :: "JournalWriter \<Rightarrow> LogRecord list \<Rightarrow> bool" where
  "wrote w rs \<longleftrightarrow> jw_file w = journal_bytes rs \<and> map lo_seq rs = [1..<Suc (length rs)] \<and> jw_seq w = length rs
     \<and> jw_hashed w = Some (concat (map lo_data rs)) \<and> jw_bytes w = length (concat (map lo_data rs))
     \<and> (\<forall>r \<in> set rs. lo_data r \<noteq> [] \<and> length (lo_data r) \<le> MAX_LOG_CHUNK)"

definition out_data :: "LogRecord list \<Rightarrow> string" where
  "out_data rs = concat (map lo_data (filter (\<lambda>r. lo_stream r \<noteq> LS_Sys) rs))"

definition sys_data :: "LogRecord list \<Rightarrow> string" where
  "sys_data rs = concat (map lo_data (filter (\<lambda>r. lo_stream r = LS_Sys) rs))"

definition tallied :: "JournalWriter \<Rightarrow> LogRecord list \<Rightarrow> bool" where
  "tallied w rs \<longleftrightarrow> jw_out_bytes w = length (out_data rs) \<and> jw_sys_bytes w = length (sys_data rs)"

lemma data_simps [simp]: "out_data [] = []" "sys_data [] = []" "out_data (a @ b) = out_data a @ out_data b"
    "sys_data (a @ b) = sys_data a @ sys_data b"
  by (simp_all add: out_data_def sys_data_def)

lemma data_le: "length (out_data rs) \<le> length (concat (map lo_data rs))" "length (sys_data rs) \<le> length (concat (map lo_data rs))"
  by (induction rs) (auto simp: out_data_def sys_data_def)

lemma concat_nonempty: "\<forall>r \<in> set rs. lo_data r \<noteq> [] \<Longrightarrow> length rs \<le> length (concat (map lo_data rs))"
  by (induction rs) (auto simp: Suc_le_eq simp flip: length_greater_0_conv)

lemma wrote_length: "wrote w rs \<Longrightarrow> length rs \<le> length (concat (map lo_data rs))"
  by (rule concat_nonempty) (simp add: wrote_def)

lemma wrote_in_order:
  assumes "wrote w rs" "length (concat (map lo_data rs)) < 2 ^ 64"
  shows "in_order rs"
proof -
  have l: "length rs < 2 ^ 64" using wrote_length [OF assms(1)] assms(2) by simp
  have m: "map lo_seq rs = [1..<Suc (length rs)]" and d: "\<forall>r \<in> set rs. length (lo_data r) \<le> MAX_LOG_CHUNK"
    using assms(1) by (simp_all add: wrote_def)
  have "lo_seq r < 2 ^ 64" if "r \<in> set rs" for r
  proof -
    have "lo_seq r \<in> set [1..<Suc (length rs)]" using that unfolding m [symmetric] by simp
    then show ?thesis using l by auto
  qed
  then have "\<forall>r \<in> set rs. rec_ok r" using d by (auto simp: rec_ok_def MAX_LOG_CHUNK_def)
  moreover have "sorted_wrt (<) (map lo_seq rs)" unfolding m by (rule sorted_wrt_upt)
  ultimately show ?thesis by (simp add: in_order_def sorted_wrt_map)
qed

lemma record_wrote:
  assumes "wrote w rs" "data \<noteq> []" "length data \<le> MAX_LOG_CHUNK" "length (concat (map lo_data rs)) + length data < 2 ^ 64"
  shows "wrote (journal_record s data w) (rs @ [\<lparr> lo_seq = Suc (length rs), lo_stream = s, lo_data = data \<rparr>])"
proof -
  have "0 < length data" using assms(2) by simp
  then have l: "length rs + 1 < 2 ^ 64" using assms(4) wrote_length [OF assms(1)] by linarith
  have "jw_seq w = length rs" "jw_bytes w = length (concat (map lo_data rs))" using assms(1) by (simp_all add: wrote_def)
  then have "u64_add (jw_seq w) 1 = Suc (length rs)" "u64_add (jw_bytes w) (length data) = jw_bytes w + length data"
    using l assms(4) by (simp_all add: u64_add_def)
  then show ?thesis
    using assms(1-3) by (simp add: wrote_def journal_record_def Let_def rec_bytes_def)
qed

lemma record_fields [simp]:
  "jw_out_bytes (journal_record s data w) = jw_out_bytes w" "jw_sys_bytes (journal_record s data w) = jw_sys_bytes w"
  "jw_cap (journal_record s data w) = jw_cap w" "jw_redactor (journal_record s data w) = jw_redactor w"
  "jw_late (journal_record s data w) = jw_late w"
  by (simp_all add: journal_record_def Let_def)

lemma records_wrote:
  assumes "wrote w rs" "\<forall>c \<in> set cs. c \<noteq> [] \<and> length c \<le> MAX_LOG_CHUNK" "length (concat (map lo_data rs)) + length (concat cs) < 2 ^ 64"
  shows "\<exists>new. wrote (foldl (\<lambda>w c. journal_record s c w) w cs) (rs @ new) \<and> map lo_data new = cs \<and> (\<forall>r \<in> set new. lo_stream r = s)"
  using assms
proof (induction cs arbitrary: w rs)
  case (Cons c cs)
  let ?r = "\<lparr> lo_seq = Suc (length rs), lo_stream = s, lo_data = c \<rparr>"
  have w: "wrote (journal_record s c w) (rs @ [?r])" using record_wrote [OF Cons.prems(1), of c s] Cons.prems(2,3) by simp
  obtain new where n: "wrote (foldl (\<lambda>w c. journal_record s c w) (journal_record s c w) cs) ((rs @ [?r]) @ new)"
    "map lo_data new = cs" "\<forall>r \<in> set new. lo_stream r = s"
    using Cons.IH [OF w] Cons.prems(2,3) by auto
  then show ?case by (intro exI [of _ "?r # new"]) simp
qed (intro exI [of _ "[]"], simp)

lemma records_fields [simp]:
  "jw_out_bytes (foldl (\<lambda>w c. journal_record s c w) w cs) = jw_out_bytes w" "jw_sys_bytes (foldl (\<lambda>w c. journal_record s c w) w cs) = jw_sys_bytes w"
  "jw_cap (foldl (\<lambda>w c. journal_record s c w) w cs) = jw_cap w" "jw_redactor (foldl (\<lambda>w c. journal_record s c w) w cs) = jw_redactor w"
  "jw_late (foldl (\<lambda>w c. journal_record s c w) w cs) = jw_late w"
  by (induction cs arbitrary: w) simp_all

lemma concat_chunks: "0 < n \<Longrightarrow> concat (chunks_of n xs) = xs"
  by (induction n xs rule: chunks_of.induct) (subst chunks_of.simps; simp)

lemma chunks_size: "c \<in> set (chunks_of n xs) \<Longrightarrow> c \<noteq> [] \<and> length c \<le> n"
proof (induction n xs rule: chunks_of.induct)
  case (1 n xs)
  then show ?case by (subst (asm) (2) chunks_of.simps) (auto split: if_splits)
qed

text \<open>One append: what is kept goes behind what was kept before.\<close>

lemma append_wrote:
  assumes "wrote w rs" "tallied w rs" "d = redacted (jw_late w) (redacted (jw_redactor w) data)"
    "length (concat (map lo_data rs)) + length d < 2 ^ 64"
  shows "\<exists>new. wrote (journal_append s data w) (rs @ new) \<and> tallied (journal_append s data w) (rs @ new)
    \<and> concat (map lo_data new) = take (if s = LS_Sys then SYS_ALLOWANCE - jw_sys_bytes w else jw_cap w - jw_out_bytes w) d
    \<and> (\<forall>r \<in> set new. lo_stream r = s)"
proof -
  let ?room = "if s = LS_Sys then SYS_ALLOWANCE - jw_sys_bytes w else jw_cap w - jw_out_bytes w"
  let ?keep = "min (length d) ?room"
  define w1 where "w1 = (if s = LS_Sys
    then w \<lparr> jw_sys_bytes := u64_add (jw_sys_bytes w) ?keep, jw_sys_dropped := u64_add (jw_sys_dropped w) (length d - ?keep) \<rparr>
    else w \<lparr> jw_out_bytes := u64_add (jw_out_bytes w) ?keep, jw_dropped := u64_add (jw_dropped w) (length d - ?keep) \<rparr>)"
  let ?cs = "chunks_of MAX_LOG_CHUNK (take ?keep d)"
  have a: "journal_append s data w = foldl (\<lambda>w c. journal_record s c w) w1 ?cs"
    unfolding journal_append_def Let_def assms(3) [symmetric] w1_def by simp
  have "0 < MAX_LOG_CHUNK" by (simp add: MAX_LOG_CHUNK_def)
  then have cs: "concat ?cs = take ?keep d" "\<forall>c \<in> set ?cs. c \<noteq> [] \<and> length c \<le> MAX_LOG_CHUNK"
    using chunks_size by (blast intro: concat_chunks)+
  have w1: "wrote w1 rs" using assms(1) by (simp add: w1_def wrote_def)
  have t: "length (concat (map lo_data rs)) + length (concat ?cs) < 2 ^ 64" unfolding cs(1) length_take using assms(4) by linarith
  obtain new where n: "wrote (journal_append s data w) (rs @ new)" "map lo_data new = ?cs" "\<forall>r \<in> set new. lo_stream r = s"
    using records_wrote [OF w1 cs(2) t, of s] unfolding a by blast
  have k: "concat (map lo_data new) = take ?keep d" unfolding n(2) by (rule cs(1))
  have o: "out_data new = (if s = LS_Sys then [] else take ?keep d)" "sys_data new = (if s = LS_Sys then take ?keep d else [])"
    using k n(3) unfolding out_data_def sys_data_def by (simp_all cong: filter_cong)
  have "u64_add (length (out_data rs)) (min (length d) x) = length (out_data rs) + min (length d) x"
    "u64_add (length (sys_data rs)) (min (length d) x) = length (sys_data rs) + min (length d) x" for x
    using assms(4) data_le [of rs] by (simp_all add: u64_add_def)
  then have "tallied (journal_append s data w) (rs @ new)"
    unfolding a tallied_def using assms(2) by (simp add: o tallied_def w1_def)
  moreover have "take ?keep d = take ?room d" by (simp add: min_def)
  ultimately show ?thesis using n(1,3) k by auto
qed

section \<open>Journals\<close>

definition journal_writes :: "JournalWriter \<Rightarrow> (LogStream \<times> string) list \<Rightarrow> JournalWriter" where
  "journal_writes w ps = foldl (\<lambda>w (s, d). journal_append s d w) w ps"

definition logged :: "JournalWriter \<Rightarrow> LogRecord list" where
  "logged w = snd (ship_logs (jw_file w) reader_new)"

definition safe_text :: "JournalWriter \<Rightarrow> string \<Rightarrow> string" where
  "safe_text w d = redacted (jw_late w) (redacted (jw_redactor w) d)"

definition text_of :: "JournalWriter \<Rightarrow> (LogStream \<Rightarrow> bool) \<Rightarrow> (LogStream \<times> string) list \<Rightarrow> string" where
  "text_of w p ps = concat (map (\<lambda>e. safe_text w (snd e)) (filter (\<lambda>e. p (fst e)) ps))"

lemma wanted_all: "map lo_seq rs = [1..<Suc (length rs)] \<Longrightarrow> wanted 0 rs = rs"
proof -
  assume m: "map lo_seq rs = [1..<Suc (length rs)]"
  have "0 < lo_seq r" if "r \<in> set rs" for r
  proof -
    have "lo_seq r \<in> set [1..<Suc (length rs)]" using that unfolding m [symmetric] by simp
    then show ?thesis by auto
  qed
  then show ?thesis by (simp add: wanted_def)
qed

lemma logged_wrote:
  assumes "wrote w rs" "length (concat (map lo_data rs)) < 2 ^ 64"
  shows "logged w = rs"
proof -
  have "jw_file w = journal_bytes [] @ journal_bytes rs @ []" using assms(1) by (simp add: wrote_def)
  then have "logged w = wanted 0 rs"
    using ship_all [OF wrote_in_order [OF assms] torn_Nil, of "[]" 0] by (simp add: logged_def reader_new_def)
  then show ?thesis using wanted_all assms(1) by (simp add: wrote_def)
qed

lemma append_fields [simp]: "jw_cap (journal_append s d w) = jw_cap w" "safe_text (journal_append s d w) = safe_text w"
  by (simp_all add: journal_append_def safe_text_def Let_def fun_eq_iff)

lemma text_of_simps [simp]:
  "text_of w p [] = []" "text_of w p (ps @ [(s, d)]) = text_of w p ps @ (if p s then safe_text w d else [])"
  by (simp_all add: text_of_def)

lemma data_length: "length (concat (map lo_data rs)) = length (out_data rs) + length (sys_data rs)"
  by (induction rs) (simp_all add: out_data_def sys_data_def)

lemma text_length: "length (text_of w (\<lambda>_. True) ps) = length (text_of w (\<lambda>s. s \<noteq> LS_Sys) ps) + length (text_of w (\<lambda>s. s = LS_Sys) ps)"
  by (induction ps) (auto simp: text_of_def)

lemma writes_wrote:
  assumes "jw_cap w = cap" "wrote w []" "tallied w []" "length (text_of w (\<lambda>_. True) ps) < 2 ^ 64"
  shows "\<exists>rs. wrote (journal_writes w ps) rs \<and> tallied (journal_writes w ps) rs \<and> jw_cap (journal_writes w ps) = cap
    \<and> safe_text (journal_writes w ps) = safe_text w
    \<and> out_data rs = take cap (text_of w (\<lambda>s. s \<noteq> LS_Sys) ps) \<and> sys_data rs = take SYS_ALLOWANCE (text_of w (\<lambda>s. s = LS_Sys) ps)"
  using assms(4)
proof (induction ps rule: rev_induct)
  case Nil
  then show ?case using assms by (intro exI [of _ "[]"]) (simp add: journal_writes_def)
next
  case (snoc e ps)
  obtain s d where e: "e = (s, d)" by (cases e)
  let ?w = "journal_writes w ps" and ?d = "safe_text w d"
  have t: "length (text_of w (\<lambda>_. True) ps) + length ?d < 2 ^ 64" using snoc.prems unfolding e text_of_simps length_append by simp
  then obtain rs where rs: "wrote ?w rs" "tallied ?w rs" "jw_cap ?w = cap" "safe_text ?w = safe_text w"
    "out_data rs = take cap (text_of w (\<lambda>s. s \<noteq> LS_Sys) ps)" "sys_data rs = take SYS_ALLOWANCE (text_of w (\<lambda>s. s = LS_Sys) ps)"
    using snoc.IH by auto
  have d: "?d = redacted (jw_late ?w) (redacted (jw_redactor ?w) d)" using rs(4) by (metis safe_text_def)
  have "length (concat (map lo_data rs)) + length ?d < 2 ^ 64"
    using t unfolding data_length rs(5,6) text_length length_take by linarith
  from append_wrote [OF rs(1,2) d this, of s]
  obtain new where n: "wrote (journal_append s d ?w) (rs @ new)" "tallied (journal_append s d ?w) (rs @ new)"
    "concat (map lo_data new) = take (if s = LS_Sys then SYS_ALLOWANCE - jw_sys_bytes ?w else jw_cap ?w - jw_out_bytes ?w) ?d"
    "\<forall>r \<in> set new. lo_stream r = s" by blast
  have w: "journal_writes w (ps @ [e]) = journal_append s d ?w" by (simp add: journal_writes_def e)
  have b: "jw_out_bytes ?w = min (length (text_of w (\<lambda>s. s \<noteq> LS_Sys) ps)) cap" "jw_sys_bytes ?w = min (length (text_of w (\<lambda>s. s = LS_Sys) ps)) SYS_ALLOWANCE"
    using rs(2,5,6) by (simp_all add: tallied_def)
  have o: "out_data new = (if s = LS_Sys then [] else take (cap - jw_out_bytes ?w) ?d)"
    "sys_data new = (if s = LS_Sys then take (SYS_ALLOWANCE - jw_sys_bytes ?w) ?d else [])"
    using n(3,4) rs(3) unfolding out_data_def sys_data_def by (auto cong: filter_cong)
  have m: "x - min y x = x - y" for x y :: nat by simp
  have "out_data (rs @ new) = take cap (text_of w (\<lambda>s. s \<noteq> LS_Sys) (ps @ [e]))"
    "sys_data (rs @ new) = take SYS_ALLOWANCE (text_of w (\<lambda>s. s = LS_Sys) (ps @ [e]))"
    using rs(5,6) by (simp_all add: e o b m)
  then show ?case unfolding w using n(1,2) rs(3,4) by (intro exI [of _ "rs @ new"]) simp
qed

lemma create_wrote: "wrote (journal_create [] cap \<lparr> jw_redactor := r, jw_late := l \<rparr>) []"
    "tallied (journal_create [] cap \<lparr> jw_redactor := r, jw_late := l \<rparr>) []"
  by (simp_all add: wrote_def tallied_def journal_create_def)

text \<open>C33: The log keeps what the job printed, in order, up to its cap: the job's own output in the journal is the first
  \<open>cap\<close> bytes of what it printed (redacted), the node's own lines are the first 64 KB of theirs, neither takes room
  from the other, and the digest of the receipt is over exactly what the journal holds.\<close>

theorem journal_keeps_prefix:
  assumes "w0 = journal_create [] cap \<lparr> jw_redactor := r, jw_late := l \<rparr>" "w = journal_writes w0 ps"
    "length (text_of w0 (\<lambda>_. True) ps) < 2 ^ 64"
  shows "out_data (logged w) = take cap (text_of w0 (\<lambda>s. s \<noteq> LS_Sys) ps)
    \<and> sys_data (logged w) = take SYS_ALLOWANCE (text_of w0 (\<lambda>s. s = LS_Sys) ps)
    \<and> map lo_seq (logged w) = [1..<Suc (length (logged w))] \<and> jw_hashed w = Some (concat (map lo_data (logged w)))"
proof -
  have c: "jw_cap w0 = cap" "wrote w0 []" "tallied w0 []" using create_wrote by (simp_all add: assms(1) journal_create_def)
  obtain rs where rs: "wrote w rs" "out_data rs = take cap (text_of w0 (\<lambda>s. s \<noteq> LS_Sys) ps)"
    "sys_data rs = take SYS_ALLOWANCE (text_of w0 (\<lambda>s. s = LS_Sys) ps)"
    using writes_wrote [OF c assms(3)] unfolding assms(2) [symmetric] by blast
  have "length (concat (map lo_data rs)) < 2 ^ 64"
    using assms(3) unfolding data_length rs(2,3) text_length length_take by linarith
  then have "logged w = rs" by (rule logged_wrote [OF rs(1)])
  then show ?thesis using rs by (simp add: wrote_def)
qed

text \<open>A writer that dies leaves a prefix of the file: some whole records and a torn one.\<close>

lemma cut_journal:
  assumes "\<forall>r \<in> set rs. rec_ok r" "k \<le> length (journal_bytes rs)"
  shows "\<exists>m t. m \<le> length rs \<and> take k (journal_bytes rs) = journal_bytes (take m rs) @ t \<and> torn t
    \<and> (m < length rs \<longrightarrow> k < length (journal_bytes (take (Suc m) rs)))"
  using assms
proof (induction rs arbitrary: k)
  case (Cons r rs)
  show ?case
  proof (cases "k < length (rec_bytes r)")
    case True
    have "torn (take k (rec_bytes r))" unfolding torn_def using Cons.prems(1) True by auto
    then show ?thesis using True by - (rule exI [of _ 0], rule exI [of _ "take k (rec_bytes r)"], simp)
  next
    case False
    then have "k - length (rec_bytes r) \<le> length (journal_bytes rs)" using Cons.prems(2) by simp
    then obtain m t where m: "m \<le> length rs" "take (k - length (rec_bytes r)) (journal_bytes rs) = journal_bytes (take m rs) @ t"
      "torn t" "m < length rs \<longrightarrow> k - length (rec_bytes r) < length (journal_bytes (take (Suc m) rs))"
      using Cons.IH [OF _ \<open>k - length (rec_bytes r) \<le> length (journal_bytes rs)\<close>] Cons.prems(1) unfolding list.set by blast
    then show ?thesis using False by - (rule exI [of _ "Suc m"], rule exI [of _ t], auto)
  qed
qed (rule exI [of _ 0], rule exI [of _ "[]"], simp)

lemma count_file: "foldl count_record (w \<lparr> jw_file := f \<rparr>) rs = (foldl count_record w rs) \<lparr> jw_file := f \<rparr>"
  by (induction rs arbitrary: w rule: rev_induct) (simp_all add: count_record_def Let_def)

lemma count_fields [simp]: "jw_redactor (foldl count_record w rs) = jw_redactor w" "jw_late (foldl count_record w rs) = jw_late w"
    "jw_cap (foldl count_record w rs) = jw_cap w"
  by (induction rs rule: rev_induct) (simp_all add: count_record_def Let_def)

lemma count_wrote:
  assumes "wrote w rs" "tallied w rs" "\<forall>r \<in> set new. lo_data r \<noteq> [] \<and> length (lo_data r) \<le> MAX_LOG_CHUNK"
    "map lo_seq (rs @ new) = [1..<Suc (length (rs @ new))]" "length (concat (map lo_data (rs @ new))) < 2 ^ 64"
  shows "wrote ((foldl count_record w new) \<lparr> jw_file := journal_bytes (rs @ new) \<rparr>) (rs @ new)
    \<and> tallied (foldl count_record w new) (rs @ new)"
  using assms
proof (induction new arbitrary: w rs)
  case Nil
  then show ?case by (simp add: wrote_def tallied_def)
next
  case (Cons r new)
  let ?w = "(count_record w r) \<lparr> jw_file := journal_bytes (rs @ [r]) \<rparr>"
  have q: "map lo_seq (rs @ [r]) = [1..<Suc (length (rs @ [r]))]"
  proof -
    have "map lo_seq (rs @ [r]) = take (length (rs @ [r])) (map lo_seq (rs @ r # new))" by simp
    then show ?thesis unfolding Cons.prems(4) by (simp add: take_upt del: upt_Suc)
  qed
  have l: "length (concat (map lo_data rs)) + length (lo_data r) < 2 ^ 64" using Cons.prems(5) by simp
  have u: "u64_add (length (concat (map lo_data rs))) (length (lo_data r)) = length (concat (map lo_data rs)) + length (lo_data r)"
    "u64_add (length (out_data rs)) (length (lo_data r)) = length (out_data rs) + length (lo_data r)"
    "u64_add (length (sys_data rs)) (length (lo_data r)) = length (sys_data rs) + length (lo_data r)"
    using l data_le [of rs] by (simp_all add: u64_add_def)
  have last: "lo_seq r = Suc (length rs)" using q by (simp add: upt_conv_Cons nth_append)
  have w: "wrote ?w (rs @ [r])"
    using Cons.prems(1,3) q u(1) last by (simp add: wrote_def count_record_def Let_def)
  have c: "tallied ?w (rs @ [r])"
    using Cons.prems(2) u(2,3) by (simp add: tallied_def count_record_def Let_def out_data_def sys_data_def)
  have "foldl count_record ?w new = (foldl count_record (count_record w r) new) \<lparr> jw_file := journal_bytes (rs @ [r]) \<rparr>"
    by (rule count_file)
  then show ?case using Cons.IH [OF w c] Cons.prems(3-5) by (simp add: tallied_def)
qed

lemma journal_wrote:
  assumes "w0 = journal_create [] cap \<lparr> jw_redactor := r, jw_late := l \<rparr>" "w = journal_writes w0 ps"
    "length (text_of w0 (\<lambda>_. True) ps) < 2 ^ 64"
  shows "wrote w (logged w)" "length (concat (map lo_data (logged w))) \<le> length (text_of w0 (\<lambda>_. True) ps)"
proof -
  have c: "jw_cap w0 = cap" "wrote w0 []" "tallied w0 []" using create_wrote by (simp_all add: assms(1) journal_create_def)
  obtain rs where rs: "wrote w rs" "out_data rs = take cap (text_of w0 (\<lambda>s. s \<noteq> LS_Sys) ps)"
    "sys_data rs = take SYS_ALLOWANCE (text_of w0 (\<lambda>s. s = LS_Sys) ps)"
    using writes_wrote [OF c assms(3)] unfolding assms(2) [symmetric] by blast
  have n: "length (concat (map lo_data rs)) \<le> length (text_of w0 (\<lambda>_. True) ps)"
    unfolding data_length rs(2,3) text_length length_take by linarith
  then have l: "logged w = rs" using assms(3) by (intro logged_wrote [OF rs(1)]) linarith
  show "wrote w (logged w)" "length (concat (map lo_data (logged w))) \<le> length (text_of w0 (\<lambda>_. True) ps)"
    unfolding l by (rule rs(1), rule n)
qed

lemma reopen_wrote:
  assumes "wrote w rs" "length (concat (map lo_data rs)) < 2 ^ 64" "k \<le> length (journal_bytes rs)"
  shows "\<exists>m w'. journal_reopen (Some (take k (jw_file w))) cap = Some w' \<and> m \<le> length rs \<and> wrote w' (take m rs)
    \<and> tallied w' (take m rs) \<and> (m < length rs \<longrightarrow> k < length (journal_bytes (take (Suc m) rs)))
    \<and> jw_redactor w' = None \<and> jw_late w' = None \<and> jw_cap w' = cap"
proof -
  have io: "in_order rs" by (rule wrote_in_order [OF assms(1,2)])
  then have ok: "\<forall>r \<in> set rs. rec_ok r" by (simp add: in_order_def)
  obtain m t where m: "m \<le> length rs" "take k (journal_bytes rs) = journal_bytes (take m rs) @ t" "torn t"
    "m < length rs \<longrightarrow> k < length (journal_bytes (take (Suc m) rs))"
    using cut_journal [OF ok assms(3)] by blast
  let ?rs = "take m rs" and ?f = "journal_bytes (take m rs) @ t"
  have q: "map lo_seq ?rs = [1..<Suc (length ?rs)]"
    using assms(1) m(1) by (simp add: wrote_def take_map [symmetric] take_upt min_def del: upt_Suc)
  have io': "in_order ?rs" using in_order_append [of ?rs "drop m rs"] io by simp
  have d: "\<forall>r \<in> set ?rs. lo_data r \<noteq> [] \<and> length (lo_data r) \<le> MAX_LOG_CHUNK"
    using assms(1) by (auto simp: wrote_def dest: in_set_takeD)
  have n: "length (concat (map lo_data ?rs)) < 2 ^ 64"
  proof -
    have "concat (map lo_data rs) = concat (map lo_data ?rs) @ concat (map lo_data (drop m rs))"
      by (metis append_take_drop_id concat_append map_append)
    then show ?thesis using assms(2) by simp
  qed
  let ?w = "foldl count_record (journal_create ?f cap) ?rs" and ?e = "journal_create [] cap"
  have e: "wrote ?e []" "tallied ?e []" by (simp_all add: wrote_def tallied_def journal_create_def)
  have f: "(foldl count_record ?e ?rs) \<lparr> jw_file := x \<rparr> = ?w \<lparr> jw_file := x \<rparr>" for x
    using count_file [of ?f ?e ?rs] by (simp add: journal_create_def)
  have c: "wrote (?w \<lparr> jw_file := journal_bytes ?rs \<rparr>) ?rs" "tallied (foldl count_record ?e ?rs) ?rs"
    using count_wrote [OF e d] q n unfolding append_Nil f by blast+
  have "tallied (?w \<lparr> jw_file := journal_bytes ?rs \<rparr>) ?rs" using c(2) f [of "journal_bytes ?rs"]
    by (metis (no_types, lifting) tallied_def JournalWriter.ext_inject JournalWriter.surjective JournalWriter.update_convs(1))
  moreover have "jw_redactor ?w = None \<and> jw_late ?w = None \<and> jw_cap ?w = cap"
    by (simp add: journal_create_def)
  moreover have "journal_reopen (Some (take k (jw_file w))) cap = Some (?w \<lparr> jw_file := journal_bytes ?rs \<rparr>)"
    using reopen_all [OF io' m(3), of "[]" 0 "journal_create ?f cap"] wanted_all [OF q] assms(1) m(2)
    by (simp add: journal_reopen_def wrote_def reader_new_def)
  ultimately show ?thesis using c(1) m(1,4) by (intro exI [of _ m] exI [of _ "?w \<lparr> jw_file := journal_bytes ?rs \<rparr>"]) simp
qed

text \<open>C34: Opening a journal again after the writer died at any byte: the whole records that reached the file come back, the
  torn one is cut off, the digest goes on from them, and what is appended then comes behind them with the next number.\<close>

theorem reopen_recovers:
  assumes "w0 = journal_create [] cap \<lparr> jw_redactor := r, jw_late := l \<rparr>" "w = journal_writes w0 ps"
    "length (text_of w0 (\<lambda>_. True) ps) + length d < 2 ^ 64" "s \<noteq> LS_Sys"
  shows "\<exists>m w' new. journal_reopen (Some (take k (jw_file w))) cap' = Some w' \<and> m \<le> length (logged w) \<and> logged w' = take m (logged w)
    \<and> jw_hashed w' = Some (concat (map lo_data (logged w')))
    \<and> (m < length (logged w) \<longrightarrow> k < length (journal_bytes (take (Suc m) (logged w))))
    \<and> logged (journal_append s d w') = logged w' @ new \<and> out_data new = take (cap' - length (out_data (logged w'))) d
    \<and> map lo_seq (logged w' @ new) = [1..<Suc (length (logged w' @ new))]"
proof -
  have "length (text_of w0 (\<lambda>_. True) ps) < 2 ^ 64" using assms(3) by linarith
  note w = journal_wrote [OF assms(1,2) this]
  let ?rs = "logged w" and ?k = "min k (length (jw_file w))"
  have n: "length (concat (map lo_data ?rs)) + length d < 2 ^ 64" using w(2) assms(3) by linarith
  have f: "jw_file w = journal_bytes ?rs" using w(1) by (simp add: wrote_def)
  then have kl: "?k \<le> length (journal_bytes ?rs)" by simp
  have "length (concat (map lo_data ?rs)) < 2 ^ 64" using n by linarith
  from reopen_wrote [OF w(1) this kl, of cap']
  obtain m w' where m: "journal_reopen (Some (take ?k (jw_file w))) cap' = Some w'" "m \<le> length ?rs" "wrote w' (take m ?rs)"
    "tallied w' (take m ?rs)" "m < length ?rs \<longrightarrow> ?k < length (journal_bytes (take (Suc m) ?rs))"
    "jw_redactor w' = None" "jw_late w' = None" "jw_cap w' = cap'" by blast
  have "length (concat (map lo_data ?rs)) = length (concat (map lo_data (take m ?rs))) + length (concat (map lo_data (drop m ?rs)))"
    by (metis append_take_drop_id concat_append length_append map_append)
  then have t: "length (concat (map lo_data (take m ?rs))) + length d < 2 ^ 64" using n by linarith
  have lw: "logged w' = take m ?rs" using t by (intro logged_wrote [OF m(3)]) linarith
  have d: "d = redacted (jw_late w') (redacted (jw_redactor w') d)" by (simp add: m(6,7) redacted_def)
  obtain new where new: "wrote (journal_append s d w') (take m ?rs @ new)" "tallied (journal_append s d w') (take m ?rs @ new)"
    "concat (map lo_data new) = take (if s = LS_Sys then SYS_ALLOWANCE - jw_sys_bytes w' else jw_cap w' - jw_out_bytes w') d"
    "\<forall>r \<in> set new. lo_stream r = s"
    using append_wrote [OF m(3,4) d t, of s] by blast
  have o: "out_data new = take (cap' - length (out_data (take m ?rs))) d"
    using new(3,4) assms(4) m(4,8) unfolding out_data_def tallied_def by (simp cong: filter_cong)
  have "length (concat (map lo_data (take m ?rs @ new))) < 2 ^ 64"
    using t unfolding map_append concat_append length_append new(3) length_take by linarith
  then have la: "logged (journal_append s d w') = take m ?rs @ new" by (rule logged_wrote [OF new(1)])
  have "m < length ?rs \<longrightarrow> k < length (journal_bytes (take (Suc m) ?rs))"
  proof
    assume lt: "m < length ?rs"
    have "journal_bytes ?rs = journal_bytes (take (Suc m) ?rs) @ journal_bytes (drop (Suc m) ?rs)"
      by (metis append_take_drop_id journal_bytes_simps(3))
    then show "k < length (journal_bytes (take (Suc m) ?rs))" using m(5) lt unfolding f by (auto simp: min_def split: if_splits)
  qed
  moreover have "take ?k (jw_file w) = take k (jw_file w)" by (simp add: min_def)
  ultimately show ?thesis using m(1,2,3) new(1) la o lw by (auto simp: wrote_def simp del: upt_Suc intro!: exI [of _ m] exI [of _ w'] exI [of _ new])
qed

section \<open>Examples\<close>

definition ex_journal :: JournalWriter where
  "ex_journal = journal_create [] 8 \<lparr> jw_redactor := Some \<lparr> rd_hits = (\<lambda>d. d = ''key''), rd_redact = (\<lambda>d. ''***'') \<rparr>, jw_late := None \<rparr>"

definition ex_prints :: "(LogStream \<times> string) list" where
  "ex_prints = [(LS_Out, ''one''), (LS_Sys, ''node''), (LS_Err, ''key''), (LS_Out, ''three'')]"

lemma journal_keeps_prefix_witness:
  "out_data (logged (journal_writes ex_journal ex_prints)) = ''one***th'' \<and> sys_data (logged (journal_writes ex_journal ex_prints)) = ''node''"
proof -
  have "length (text_of ex_journal (\<lambda>_. True) ex_prints) < 2 ^ 64" "text_of ex_journal (\<lambda>s. s \<noteq> LS_Sys) ex_prints = ''one***three''"
    "text_of ex_journal (\<lambda>s. s = LS_Sys) ex_prints = ''node''" by code_simp+
  then show ?thesis using journal_keeps_prefix [OF ex_journal_def refl, where ps = ex_prints] by (simp add: SYS_ALLOWANCE_def)
qed

lemma reopen_recovers_witness:
  "\<exists>m w' new. journal_reopen (Some (take 40 (jw_file (journal_writes ex_journal ex_prints)))) 8 = Some w'
    \<and> logged (journal_append LS_Err ''more'' w') = take m (logged (journal_writes ex_journal ex_prints)) @ new
    \<and> out_data new = take (8 - length (out_data (logged w'))) ''more''"
proof -
  have "length (text_of ex_journal (\<lambda>_. True) ex_prints) + length ''more'' < 2 ^ 64" "LS_Err \<noteq> LS_Sys" by code_simp simp
  from reopen_recovers [OF ex_journal_def refl this, of 40 8]
  obtain m w' new where "journal_reopen (Some (take 40 (jw_file (journal_writes ex_journal ex_prints)))) 8 = Some w'"
    "logged w' = take m (logged (journal_writes ex_journal ex_prints))" "logged (journal_append LS_Err ''more'' w') = logged w' @ new"
    "out_data new = take (8 - length (out_data (logged w'))) ''more''" by blast
  then show ?thesis by - (rule exI [of _ m], rule exI [of _ w'], rule exI [of _ new], simp only: simp_thms)
qed

end
