(* ===== verification/Log_Server.thy ===== *)
theory Log_Server
  imports Log_Rules Retry
begin

text \<open>
  The server's copy of a job's log against the node's journal: whatever frames arrive, in whatever order and however
  often, across sessions and restarts of the server, the file holds the first records of the journal; a session that
  ships the rest makes it whole. A record torn by a server that died while writing it is the exception.
\<close>

section \<open>Records in the server's file\<close>

definition srv_bytes :: "LogRecord list \<Rightarrow> string" where
  "srv_bytes rs = concat (map (\<lambda>r. record_bytes (lo_seq r) (log_stream_byte (lo_stream r)) (lo_data r)) rs)"

definition srv_rec :: "LogRecord \<Rightarrow> LogRec" where
  "srv_rec r = \<lparr> le_seq = lo_seq r, le_stream = log_stream_byte (lo_stream r), le_data = lo_data r \<rparr>"

lemma srv_bytes_simps [simp]: "srv_bytes [] = []"
    "srv_bytes (r # rs) = record_bytes (lo_seq r) (log_stream_byte (lo_stream r)) (lo_data r) @ srv_bytes rs"
    "srv_bytes (as @ bs) = srv_bytes as @ srv_bytes bs"
  by (simp_all add: srv_bytes_def)

lemma srv_bytes_Nil [simp]: "srv_bytes rs = [] \<longleftrightarrow> rs = []" "[] = srv_bytes rs \<longleftrightarrow> rs = []"
  by (cases rs; simp add: record_bytes_def)+

lemma length_record_bytes [simp]: "length (record_bytes n b d) = 13 + length d"
  by (simp add: record_bytes_def)

lemma log_stream_mod [simp]: "log_stream_byte s mod 256 = log_stream_byte s"
  by (cases s) simp_all

lemma record_header:
  assumes "n < 2 ^ 64" "length d < 2 ^ 32" "f = pre @ record_bytes n b d @ post"
  shows "from_be_bytes (take 8 (drop (length pre) f)) = n" "f ! (length pre + 8) = char_of b"
    "from_be_bytes (take 4 (drop (length pre + 9) f)) = length d" "take (length d) (drop (length pre + 13) f) = d"
proof -
  have s: "n < 256 ^ 8" and l: "length d < 256 ^ 4" using assms by simp_all
  show "from_be_bytes (take 8 (drop (length pre) f)) = n"
    unfolding assms(3) record_bytes_def using from_be_bytes [OF s] by simp
  show "from_be_bytes (take 4 (drop (length pre + 9) f)) = length d"
    unfolding assms(3) record_bytes_def using from_be_bytes [OF l] by simp
  show "f ! (length pre + 8) = char_of b" "take (length d) (drop (length pre + 13) f) = d"
    unfolding assms(3) record_bytes_def by (simp_all add: nth_append)
qed

lemma header_cut:
  assumes "n < 2 ^ 64" "length d < 2 ^ 32" "13 \<le> k"
  shows "from_be_bytes (take 8 (drop (length pre) (pre @ take k (record_bytes n b d)))) = n"
    "from_be_bytes (take 4 (drop (length pre + 9) (pre @ take k (record_bytes n b d)))) = length d"
proof -
  have e: "take k (record_bytes n b d) = be_bytes 8 n @ [char_of b] @ be_bytes 4 (length d) @ take (k - 13) d"
  proof -
    have "record_bytes n b d = (be_bytes 8 n @ [char_of b] @ be_bytes 4 (length d)) @ d" by (simp add: record_bytes_def)
    then show ?thesis using assms(3) by (simp only: take_append) simp
  qed
  have s: "n < 256 ^ 8" and l: "length d < 256 ^ 4" using assms by simp_all
  show "from_be_bytes (take 8 (drop (length pre) (pre @ take k (record_bytes n b d)))) = n"
    unfolding e using from_be_bytes [OF s] by simp
  show "from_be_bytes (take 4 (drop (length pre + 9) (pre @ take k (record_bytes n b d)))) = length d"
    unfolding e using from_be_bytes [OF l] by simp
qed

lemma scan_srv:
  assumes "\<forall>r \<in> set rs. rec_ok r"
  shows "scan_from (pre @ srv_bytes rs @ t) n (length pre)
    = scan_from (pre @ srv_bytes rs @ t) (if rs = [] then n else lo_seq (last rs)) (length pre + length (srv_bytes rs))"
  using assms
proof (induction rs arbitrary: pre n)
  case (Cons r rs)
  let ?b = "record_bytes (lo_seq r) (log_stream_byte (lo_stream r)) (lo_data r)"
  have r: "lo_seq r < 2 ^ 64" "length (lo_data r) < 2 ^ 32" using Cons.prems by (simp_all add: rec_ok_def)
  note h = record_header [OF r, of "pre @ srv_bytes (r # rs) @ t" pre "log_stream_byte (lo_stream r)" "srv_bytes rs @ t"]
  have "scan_from (pre @ srv_bytes (r # rs) @ t) n (length pre)
      = scan_from (pre @ srv_bytes (r # rs) @ t) (lo_seq r) (length pre + 13 + length (lo_data r))"
    using h by (subst scan_from.simps) (simp add: JOURNAL_HEADER_def)
  also have "\<dots> = scan_from ((pre @ ?b) @ srv_bytes rs @ t) (lo_seq r) (length (pre @ ?b))" by (simp add: add.assoc)
  also have "\<dots> = scan_from ((pre @ ?b) @ srv_bytes rs @ t) (if rs = [] then lo_seq r else lo_seq (last rs))
      (length (pre @ ?b) + length (srv_bytes rs))"
    using Cons.prems by (intro Cons.IH) simp
  finally show ?case by (simp add: add.assoc)
qed simp

lemma scan_stop: "length f < off + 13 \<Longrightarrow> scan_from f n off = (n, off)"
  by (subst scan_from.simps) (simp add: JOURNAL_HEADER_def)

lemma scan_tail_srv:
  assumes "\<forall>r \<in> set rs. rec_ok r" "map lo_seq rs = [1..<Suc (length rs)]" "length t < 13"
  shows "fst (scan_tail (Some (srv_bytes rs @ t))) = length rs"
proof -
  have l: "(if rs = [] then 0 else lo_seq (last rs)) = length rs"
    using assms(2) by (cases rs rule: rev_cases) simp_all
  show ?thesis using scan_srv [OF assms(1), of "[]" t 0] assms(3) unfolding l by (simp add: scan_tail_def scan_stop)
qed

lemma read_srv:
  assumes "\<forall>r \<in> set rs. rec_ok r" "rs = [] \<or> g + length (concat (map lo_data rs)) < mx"
  shows "read_recs (pre @ srv_bytes rs @ t) mx (length pre) g
    = map_prod ((@) (map srv_rec rs)) id (read_recs (pre @ srv_bytes rs @ t) mx (length pre + length (srv_bytes rs)) (g + length (concat (map lo_data rs))))"
  using assms
proof (induction rs arbitrary: pre g)
  case Nil
  have "map_prod ((@) []) id p = p" for p :: "LogRec list \<times> nat" by (cases p) simp
  then show ?case by simp
next
  case (Cons r rs)
  let ?b = "record_bytes (lo_seq r) (log_stream_byte (lo_stream r)) (lo_data r)" and ?n = "length (lo_data r)"
  define F where "F = pre @ srv_bytes (r # rs) @ t"
  have r: "lo_seq r < 2 ^ 64" "length (lo_data r) < 2 ^ 32" using Cons.prems by (simp_all add: rec_ok_def)
  have f: "F = pre @ ?b @ srv_bytes rs @ t" "F = (pre @ ?b) @ srv_bytes rs @ t"
    "length F = length pre + 13 + ?n + length (srv_bytes rs) + length t" by (simp_all add: F_def)
  note h = record_header [OF r f(1)]
  have lt: "g < mx" using Cons.prems by simp
  have "read_recs F mx (length (pre @ ?b)) (g + ?n) = map_prod ((@) (map srv_rec rs)) id
      (read_recs F mx (length (pre @ ?b) + length (srv_bytes rs)) (g + ?n + length (concat (map lo_data rs))))"
    unfolding f(2) using Cons.prems by (intro Cons.IH) simp_all
  then have i: "read_recs F mx (length pre + 13 + ?n) (g + ?n) = map_prod ((@) (map srv_rec rs)) id
      (read_recs F mx (length pre + length (srv_bytes (r # rs))) (g + length (concat (map lo_data (r # rs)))))"
    by (simp add: add.assoc)
  obtain rest e where re: "read_recs F mx (length pre + length (srv_bytes (r # rs))) (g + length (concat (map lo_data (r # rs)))) = (rest, e)"
    by fastforce
  have "read_recs F mx (length pre) g = (srv_rec r # map srv_rec rs @ rest, e)"
    using lt h f(3) i unfolding re by (subst read_recs.simps) (simp add: JOURNAL_HEADER_def Let_def srv_rec_def)
  then show ?case unfolding F_def [symmetric] re by simp
qed

section \<open>Names of logs\<close>

lemma log_path_inject [simp]: "log_path j (int g) = log_path j' (int g') \<longleftrightarrow> j = j' \<and> g = g'"
proof
  assume "log_path j (int g) = log_path j' (int g')"
  then have "(j @ ''-'') @ CHR ''g'' # digits_of g = (j' @ ''-'') @ CHR ''g'' # digits_of g'"
    by (simp add: log_path_def show_int_def)
  then have e: "rev (digits_of g) @ CHR ''g'' # rev (j @ ''-'') = rev (digits_of g') @ CHR ''g'' # rev (j' @ ''-'')"
    by (metis append.assoc append_Cons append_Nil rev.simps(2) rev_append)
  have t: "CHR ''g'' \<notin> set (digits_of x)" for x
    using digits_of_digits [of x] unfolding list_all_iff by (auto dest!: bspec [of _ _ "CHR ''g''"] simp: is_ascii_digit_def byte_def)
  have w: "takeWhile (\<lambda>c. c \<noteq> CHR ''g'') (rev (digits_of x) @ CHR ''g'' # y) = rev (digits_of x)" for x y
    using t [of x] by (subst takeWhile_append2) auto
  have "rev (digits_of g) = rev (digits_of g')" using w e by metis
  then show "j = j' \<and> g = g'" using e by (metis append_same_eq digits_val_digits_of list.inject rev_rev_ident same_append_eq)
qed simp

section \<open>One attempt's log in the store\<close>

definition holds_log :: "string \<Rightarrow> nat \<Rightarrow> LogRecord list \<Rightarrow> LogStore \<Rightarrow> bool" where
  "holds_log job g rs s \<longleftrightarrow> unwrap_or (map_of (ls_files s) (log_path job (int g))) [] = srv_bytes rs
     \<and> (\<forall>t. map_of (ls_tails s) (log_path job (int g)) = Some t \<longrightarrow> fst t = length rs)"

definition numbered :: "LogRecord list \<Rightarrow> bool" where
  "numbered rs \<longleftrightarrow> (\<forall>r \<in> set rs. rec_ok r) \<and> map lo_seq rs = [1..<Suc (length rs)] \<and> length rs < 2 ^ 64"

lemma numbered_take: "numbered rs \<Longrightarrow> numbered (take m rs)"
  by (auto simp: numbered_def take_map [symmetric] take_upt min_def simp del: upt_Suc dest: in_set_takeD)

lemma numbered_seq:
  assumes "numbered rs" "i < length rs"
  shows "lo_seq (rs ! i) = Suc i"
proof -
  have "map lo_seq rs ! i = [1..<Suc (length rs)] ! i" using assms(1) unfolding numbered_def by (simp only:)
  then show ?thesis using assms(2) by (simp del: upt_Suc)
qed

lemma tail_of_log:
  assumes "holds_log job g rs s" "numbered rs"
  shows "fst (log_tail s (log_path job (int g))) = length rs"
proof (cases "map_of (ls_tails s) (log_path job (int g))")
  case None
  have "fst (scan_tail (map_of (ls_files s) (log_path job (int g)))) = length rs"
  proof (cases "map_of (ls_files s) (log_path job (int g))")
    case None
    then have "rs = []" using assms(1) by (simp add: holds_log_def)
    then show ?thesis using None by (simp add: scan_tail_def)
  next
    case (Some f)
    then have "f = srv_bytes rs @ []" using assms(1) by (simp add: holds_log_def)
    then show ?thesis using scan_tail_srv [of rs "[]"] assms(2) Some by (simp add: numbered_def)
  qed
  then show ?thesis using None by (simp add: log_tail_def)
next
  case (Some t)
  then show ?thesis using assms(1) by (simp add: log_tail_def holds_log_def)
qed

lemma append_log:
  assumes "holds_log job g rs s" "numbered rs"
  shows "q \<noteq> u64_add (length rs) 1 \<or> q \<le> length rs \<Longrightarrow>
      holds_log job g rs (fst (log_append job (int g) q st d s)) \<and> \<not> snd (log_append job (int g) q st d s)"
    "q = u64_add (length rs) 1 \<Longrightarrow> length rs < q \<Longrightarrow>
      holds_log job g (rs @ [\<lparr> lo_seq = q, lo_stream = st, lo_data = d \<rparr>]) (fst (log_append job (int g) q st d s))
      \<and> snd (log_append job (int g) q st d s)"
proof -
  obtain size where t: "log_tail s (log_path job (int g)) = (length rs, size)" using tail_of_log [OF assms] by (metis prod.collapse)
  have f: "unwrap_or (map_of (ls_files s) (log_path job (int g))) [] = srv_bytes rs" using assms(1) by (simp add: holds_log_def)
  show "holds_log job g rs (fst (log_append job (int g) q st d s)) \<and> \<not> snd (log_append job (int g) q st d s)"
    if "q \<noteq> u64_add (length rs) 1 \<or> q \<le> length rs"
    using that f by (auto simp: log_append_def Let_def t holds_log_def update_conv')
  show "holds_log job g (rs @ [\<lparr> lo_seq = q, lo_stream = st, lo_data = d \<rparr>]) (fst (log_append job (int g) q st d s))
      \<and> snd (log_append job (int g) q st d s)"
    if "q = u64_add (length rs) 1" "length rs < q"
  proof -
    have "length (rs @ [\<lparr> lo_seq = q, lo_stream = st, lo_data = d \<rparr>]) = q"
      using that by (cases "length rs + 1 < 2 ^ 64") (auto simp: u64_add_def mod_less_divisor)
    then show ?thesis using that f by (simp add: log_append_def Let_def t holds_log_def update_conv')
  qed
qed

lemma append_other: "(j, g) \<noteq> (job, h) \<Longrightarrow> holds_log job h rs (fst (log_append j (int g) q st d s)) = holds_log job h rs s"
  by (auto simp: log_append_def holds_log_def Let_def update_conv' split: prod.splits)

lemma last_seq_log:
  assumes "holds_log job g rs s" "numbered rs"
  shows "snd (log_last_seq job (int g) s) = length rs" "holds_log job g rs (fst (log_last_seq job (int g) s))"
  using tail_of_log [OF assms] assms(1) by (auto simp: log_last_seq_def Let_def holds_log_def update_conv')

section \<open>Any delivery\<close>

text \<open>What happens to the server's logs over time: a log frame of some node arrives, a state frame writes an attempt's tally,
  a session ends, or the server is started again (the open logs and the session are gone, the files are there).\<close>

datatype LogEvent = Ev_Log nat LogChunk | Ev_State string nat | Ev_Session_End | Ev_Restart

fun log_event :: "(string \<Rightarrow> string option) \<Rightarrow> (string \<Rightarrow> nat \<Rightarrow> string \<Rightarrow> string option) \<Rightarrow> LogEvent \<Rightarrow> LogSession \<Rightarrow> LogSession" where
  "log_event unb64 belt (Ev_Log now l) ss = on_log unb64 belt now l ss"
| "log_event unb64 belt (Ev_State job g) ss = flush_before_state job g ss"
| "log_event unb64 belt Ev_Session_End ss = flush_all ss"
| "log_event unb64 belt Ev_Restart ss = ss \<lparr> lg_store := (lg_store ss) \<lparr> ls_tails := [] \<rparr>, lg_tallies := [] \<rparr>"

definition log_run :: "(string \<Rightarrow> string option) \<Rightarrow> (string \<Rightarrow> nat \<Rightarrow> string \<Rightarrow> string option) \<Rightarrow> LogEvent list \<Rightarrow> LogSession \<Rightarrow> LogSession" where
  "log_run unb64 belt evs ss = foldl (\<lambda>ss e. log_event unb64 belt e ss) ss evs"

definition belted :: "(string \<Rightarrow> nat \<Rightarrow> string \<Rightarrow> string option) \<Rightarrow> string \<Rightarrow> nat \<Rightarrow> LogRecord \<Rightarrow> LogRecord" where
  "belted belt job g r = r \<lparr> lo_data := unwrap_or (belt job g (lo_data r)) (lo_data r) \<rparr>"

definition from_journal :: "(string \<Rightarrow> string) \<Rightarrow> string \<Rightarrow> nat \<Rightarrow> LogRecord list \<Rightarrow> LogEvent \<Rightarrow> bool" where
  "from_journal b64 job g rs e = (case e of Ev_Log now l \<Rightarrow> (lc_job_id l, lc_generation l) = (job, g) \<longrightarrow> l \<in> log_frame b64 job g ` set rs | _ \<Rightarrow> True)"

definition server_log :: "string \<Rightarrow> nat \<Rightarrow> LogSession \<Rightarrow> LogRec list" where
  "server_log job g ss = fst (read_from job (int g) 0 (length (unwrap_or (map_of (ls_files (lg_store ss)) (log_path job (int g))) [])) (lg_store ss))"

lemma belted_seq [simp]: "lo_seq (belted belt job g r) = lo_seq r" "lo_seq \<circ> belted belt job g = lo_seq"
  by (simp_all add: belted_def fun_eq_iff)

lemma note_store [simp]: "lg_store (note_chunk now l n ss) = lg_store ss"
  by (simp add: note_chunk_def Let_def)

lemma flush_store [simp]: "lg_store (flush_before_state job g ss) = lg_store ss" "lg_store (flush_all ss) = lg_store ss"
  by (simp_all add: flush_before_state_def flush_all_def split: option.splits)

lemma on_log_store:
  "lg_store (on_log unb64 belt now l ss) = (case unb64 (lc_data l) of None \<Rightarrow> lg_store ss | Some raw \<Rightarrow>
     if MAX_LOG_CHUNK < length raw then lg_store ss
     else fst (log_append (lc_job_id l) (int (lc_generation l)) (lc_seq l) (lc_stream l)
       (unwrap_or (belt (lc_job_id l) (lc_generation l) raw) raw) (lg_store ss)))"
  by (simp add: on_log_def Let_def split: option.splits prod.splits bool.splits)

lemma holds_restart: "holds_log job g rs s \<Longrightarrow> holds_log job g rs (s \<lparr> ls_tails := [] \<rparr>)"
  by (simp add: holds_log_def)

lemma holds_other:
  assumes "(lc_job_id l, lc_generation l) \<noteq> (job, g)"
  shows "holds_log job g rs (lg_store (on_log unb64 belt now l ss)) = holds_log job g rs (lg_store ss)"
  unfolding on_log_store using append_other [OF assms] by (simp split: option.splits)

text \<open>A frame of the journal: the next record is stored, any other is refused.\<close>

lemma on_log_record:
  assumes "holds_log job g (map (belted belt job g) (take m rs)) (lg_store ss)" "numbered rs" "numbered (map (belted belt job g) rs)"
    "\<forall>d. unb64 (b64 d) = Some d" "\<forall>r \<in> set rs. length (lo_data r) \<le> MAX_LOG_CHUNK" "m \<le> length rs" "i < length rs"
  shows "holds_log job g (map (belted belt job g) (take (if i = m then Suc m else m) rs))
    (lg_store (on_log unb64 belt now (log_frame b64 job g (rs ! i)) ss))"
proof -
  let ?r = "rs ! i" and ?bs = "map (belted belt job g) rs"
  have q: "lo_seq ?r = Suc i" using numbered_seq assms(2,7) by blast
  have n: "numbered (take m ?bs)" using numbered_take assms(3) by blast
  have h: "holds_log job g (take m ?bs) (lg_store ss)" using assms(1) by (simp add: take_map)
  have l: "length (take m ?bs) = m" using assms(6) by simp
  have r: "length (lo_data ?r) \<le> MAX_LOG_CHUNK" using assms(5,7) by simp
  have b: "length rs < 2 ^ 64" using assms(2) by (simp add: numbered_def)
  have st: "lg_store (on_log unb64 belt now (log_frame b64 job g ?r) ss)
    = fst (log_append job (int g) (Suc i) (lo_stream ?r) (lo_data (belted belt job g ?r)) (lg_store ss))"
    unfolding on_log_store using assms(4) r by (simp add: log_frame_def q belted_def)
  note a = append_log [OF h n, where q = "Suc i" and st = "lo_stream ?r" and d = "lo_data (belted belt job g ?r)"]
  show ?thesis
  proof (cases "i = m")
    case True
    have "belted belt job g ?r = \<lparr> lo_seq = Suc i, lo_stream = lo_stream ?r, lo_data = lo_data (belted belt job g ?r) \<rparr>"
      using q by (simp add: belted_def)
    then have e: "take m ?bs @ [\<lparr> lo_seq = Suc i, lo_stream = lo_stream ?r, lo_data = lo_data (belted belt job g ?r) \<rparr>] = take (Suc m) ?bs"
      using assms(7) True by (simp add: take_Suc_conv_app_nth)
    have "Suc i = u64_add m 1" using True assms(7) b by (simp add: u64_add_def)
    then show ?thesis unfolding st using a(2) True e l by (simp add: take_map)
  next
    case False
    have "Suc i \<noteq> u64_add m 1 \<or> Suc i \<le> m"
    proof (cases "m < length rs")
      case True
      then show ?thesis using False b by (simp add: u64_add_def)
    next
      case False
      then show ?thesis using assms(6,7) by simp
    qed
    from a(1) [unfolded l, OF this] show ?thesis unfolding st using False by (simp add: take_map)
  qed
qed

lemma run_snoc [simp]: "log_run unb64 belt [] ss = ss"
    "log_run unb64 belt (evs @ [e]) ss = log_event unb64 belt e (log_run unb64 belt evs ss)"
  by (simp_all add: log_run_def)

lemma run_append: "log_run unb64 belt (as @ bs) ss = log_run unb64 belt bs (log_run unb64 belt as ss)"
  by (simp add: log_run_def)

lemma run_holds:
  assumes "numbered rs" "numbered (map (belted belt job g) rs)" "\<forall>d. unb64 (b64 d) = Some d"
    "\<forall>r \<in> set rs. length (lo_data r) \<le> MAX_LOG_CHUNK" "\<forall>e \<in> set evs. from_journal b64 job g rs e"
    "holds_log job g [] (lg_store ss)"
  shows "\<exists>m. m \<le> length rs \<and> holds_log job g (map (belted belt job g) (take m rs)) (lg_store (log_run unb64 belt evs ss))"
  using assms(5)
proof (induction evs rule: rev_induct)
  case Nil
  then show ?case using assms(6) by (intro exI [of _ 0]) simp
next
  case (snoc e evs)
  let ?ss = "log_run unb64 belt evs ss"
  obtain m where m: "m \<le> length rs" "holds_log job g (map (belted belt job g) (take m rs)) (lg_store ?ss)"
    using snoc by auto
  show ?case
  proof (cases "\<exists>now l. e = Ev_Log now l \<and> (lc_job_id l, lc_generation l) = (job, g)")
    case True
    then obtain now l where l: "e = Ev_Log now l" "l \<in> log_frame b64 job g ` set rs"
      using snoc.prems by (auto simp: from_journal_def)
    then obtain i where i: "i < length rs" "l = log_frame b64 job g (rs ! i)" by (auto simp: in_set_conv_nth)
    note h = on_log_record [where ?unb64.0 = unb64 and ?b64.0 = b64 and now = now, OF m(2) assms(1-4) m(1) i(1)]
    show ?thesis using h m(1) i by (auto simp: l(1) simp del: map_map split: if_splits intro: exI [of _ "Suc m"] exI [of _ m])
  next
    case False
    then have "holds_log job g (map (belted belt job g) (take m rs)) (lg_store (log_event unb64 belt e ?ss))"
      using m(2) holds_other holds_restart by (cases e) auto
    then show ?thesis using m(1) by auto
  qed
qed

lemma run_rest:
  assumes "numbered rs" "numbered (map (belted belt job g) rs)" "\<forall>d. unb64 (b64 d) = Some d"
    "\<forall>r \<in> set rs. length (lo_data r) \<le> MAX_LOG_CHUNK" "m + n \<le> length rs"
    "holds_log job g (map (belted belt job g) (take m rs)) (lg_store ss)"
  shows "holds_log job g (map (belted belt job g) (take (m + n) rs))
    (lg_store (log_run unb64 belt (map (\<lambda>r. Ev_Log now (log_frame b64 job g r)) (take n (drop m rs))) ss))"
  using assms(5)
proof (induction n)
  case (Suc n)
  then have t: "take (Suc n) (drop m rs) = take n (drop m rs) @ [rs ! (m + n)]" by (simp add: take_Suc_conv_app_nth)
  have "m + n \<le> length rs" "m + n < length rs" using Suc.prems by simp_all
  with on_log_record [where ?unb64.0 = unb64 and ?b64.0 = b64 and i = "m + n" and now = now, OF Suc.IH assms(1-4)] show ?case unfolding t by simp
qed (simp add: assms(6))

lemma wanted_drop: "numbered rs \<Longrightarrow> wanted m rs = drop m rs"
proof -
  assume n: "numbered rs"
  have "wanted m (take m rs) = []" using n unfolding wanted_def by (auto simp: filter_empty_conv in_set_conv_nth numbered_seq)
  moreover have "wanted m (drop m rs) = drop m rs" using n unfolding wanted_def by (auto simp: filter_id_conv in_set_conv_nth numbered_seq)
  ultimately show ?thesis using wanted_simps(3) [of m "take m rs" "drop m rs"] by simp
qed

lemma server_log_holds:
  assumes "holds_log job g rs (lg_store ss)" "numbered rs"
  shows "server_log job g ss = map srv_rec rs"
proof -
  let ?f = "map_of (ls_files (lg_store ss)) (log_path job (int g))"
  have f: "unwrap_or ?f [] = srv_bytes rs" using assms(1) by (simp add: holds_log_def)
  have l: "length (concat (map lo_data rs)) + 13 * length rs = length (srv_bytes rs)" by (induction rs) simp_all
  have e: "read_recs (srv_bytes rs) mx (length (srv_bytes rs)) n = ([], length (srv_bytes rs))" for mx n
    by (subst read_recs.simps) (simp add: JOURNAL_HEADER_def)
  have "rs = [] \<or> length (concat (map lo_data rs)) < length (srv_bytes rs)" using l by (cases rs) auto
  then have "read_recs (srv_bytes rs) (length (srv_bytes rs)) 0 0 = (map srv_rec rs, length (srv_bytes rs))"
    using read_srv [of rs 0 "length (srv_bytes rs)" "[]" "[]"] assms(2) by (simp add: numbered_def e)
  then show ?thesis using f by (cases ?f) (simp_all add: server_log_def read_from_def e)
qed

lemma journal_facts:
  assumes "w0 = journal_create [] cap \<lparr> jw_redactor := r, jw_late := l \<rparr>" "w = journal_writes w0 ps"
    "length (text_of w0 (\<lambda>_. True) ps) < 2 ^ 64" "\<forall>d. length d \<le> MAX_LOG_CHUNK \<longrightarrow> length (unwrap_or (belt job g d) d) < 2 ^ 32"
  shows "numbered (logged w)" "in_order (logged w)" "numbered (map (belted belt job g) (logged w))"
    "\<forall>r \<in> set (logged w). length (lo_data r) \<le> MAX_LOG_CHUNK" "jw_file w = journal_bytes (logged w)"
proof -
  let ?rs = "logged w"
  note w = journal_wrote [OF assms(1-3)]
  have n: "length (concat (map lo_data ?rs)) < 2 ^ 64" using w(2) assms(3) by linarith
  show io: "in_order ?rs" by (rule wrote_in_order [OF w(1) n])
  have l: "length ?rs < 2 ^ 64" using wrote_length [OF w(1)] n by linarith
  show d: "\<forall>r \<in> set ?rs. length (lo_data r) \<le> MAX_LOG_CHUNK" using w(1) by (simp add: wrote_def)
  show num: "numbered ?rs" using io w(1) l by (simp add: numbered_def in_order_def wrote_def)
  show "numbered (map (belted belt job g) ?rs)"
    using num d assms(4) by (auto simp: numbered_def rec_ok_def belted_def simp del: upt_Suc)
  show "jw_file w = journal_bytes ?rs" using w(1) by (simp add: wrote_def)
qed



section \<open>Examples\<close>

definition ex_session :: LogSession where
  "ex_session = \<lparr> lg_store = \<lparr> ls_files = [], ls_tails = [] \<rparr>, lg_tallies = [],
     lg_ctrl = \<lparr> c_jobs = [], c_health = (\<lambda>_. NodeHealth_default), c_events = [], c_messages = [], c_asks = [] \<rparr> \<rparr>"

definition ex_chunk :: "LogRecord \<Rightarrow> LogEvent" where
  "ex_chunk r = Ev_Log 0 (log_frame (\<lambda>d. d) ''j'' 1 r)"

text \<open>All the chunks in the wrong order, the server started again, the first two twice, and another attempt's chunk.\<close>

definition ex_events :: "LogEvent list" where
  "ex_events = (let rs = logged (journal_writes ex_journal ex_prints) in map ex_chunk (rev rs) @ [Ev_Restart] @ map ex_chunk (take 2 rs @ take 2 rs)
     @ [Ev_Log 0 (log_frame (\<lambda>d. d) ''j'' 2 \<lparr> lo_seq = 1, lo_stream = LS_Err, lo_data = ''z'' \<rparr>)])"



end
