(* ===== verification/Shipper.thy ===== *)
theory Shipper
  imports Job_Logs Node_Jobs
begin

text \<open>
  The shipper of a node's session (\<open>ship_pass\<close> of \<open>k2-node/src/session.rs\<close>): for every attempt a session follows, its log
  first, then its state, then its receipt. The attempts a session follows are an association list for the code's hash
  map, whose order is the list's; a session whose channel is gone ends there.
\<close>

section \<open>Tracks\<close>

record Track =
  tk_reader :: JournalReader
  tk_sent :: "(JobState \<times> string option) option"
  tk_hinted :: bool
  tk_fresh :: bool
  tk_ran_sent :: bool

definition new_track :: "nat \<Rightarrow> bool \<Rightarrow> Track" where
  "new_track since hinted = \<lparr> tk_reader = track_reader since, tk_sent = None, tk_hinted = hinted, tk_fresh = False, tk_ran_sent = False \<rparr>"

text \<open>A session starts from the server's resume hints and every attempt that is still open; an assign taken in it is fresh.\<close>

definition hint_tracks :: "((string \<times> nat) \<times> nat) list \<Rightarrow> ((string \<times> nat) \<times> Track) list" where
  "hint_tracks hints = foldl (\<lambda>tr (k, since). AList.update k (new_track since True) tr) [] (filter (\<lambda>h. valid_job_id (fst (fst h))) hints)"

definition session_tracks :: "((string \<times> nat) \<times> nat) list \<Rightarrow> ledger \<Rightarrow> ((string \<times> nat) \<times> Track) list" where
  "session_tracks hints l =
     foldl (\<lambda>tr r. let k = (lr_job_id r, lr_generation r) in
              case map_of tr k of Some t \<Rightarrow> tr | None \<Rightarrow> AList.update k (new_track 0 False) tr)
       (hint_tracks hints) (non_terminal l)"

definition assigned_track :: "string \<times> nat \<Rightarrow> ((string \<times> nat) \<times> Track) list \<Rightarrow> ((string \<times> nat) \<times> Track) list" where
  "assigned_track k tr = AList.update k ((new_track 0 False) \<lparr> tk_fresh := True \<rparr>) tr"

section \<open>One attempt\<close>

datatype ShipFrame = Sf_Log LogChunk | Sf_State StateUpdate | Sf_Receipt ReceiptFrame

definition unknown_frame :: "int \<Rightarrow> string \<times> nat \<Rightarrow> StateUpdate" where
  "unknown_frame now k =
     \<lparr> su_job_id = fst k, su_generation = snd k, su_state = JS_Unknown, su_reason = Some ''not_on_node'', su_detail = None, su_at = now,
       su_exit = None, su_src = None, su_log_seq = 0, su_outputs = None, su_queue = None \<rparr>"

definition running_frame :: "LedgerRow \<Rightarrow> int \<Rightarrow> StateUpdate" where
  "running_frame r started =
     \<lparr> su_job_id = lr_job_id r, su_generation = lr_generation r, su_state = JS_Running, su_reason = None, su_detail = None, su_at = started,
       su_exit = None, su_src = lr_src r, su_log_seq = 0, su_outputs = None, su_queue = None \<rparr>"

definition send_running_first :: "LedgerRow \<Rightarrow> Track \<Rightarrow> Track \<times> ShipFrame list" where
  "send_running_first r t =
     (if lr_state r = JS_Running then (t \<lparr> tk_ran_sent := True \<rparr>, [])
      else (case lr_started_at r of
              None \<Rightarrow> (t, [])
            | Some started \<Rightarrow>
                if \<not> tk_fresh t \<or> tk_ran_sent t then (t, [])
                else (t \<lparr> tk_ran_sent := True \<rparr>, [Sf_State (running_frame r started)])))"

definition send_state :: "LedgerRow \<Rightarrow> Track \<Rightarrow> Track \<times> ShipFrame list" where
  "send_state r t =
     (if tk_sent t \<noteq> Some (lr_state r, lr_reason r)
      then (case send_running_first r t of (t', fs) \<Rightarrow> (t', fs @ [Sf_State (row_state_frame r)]))
      else (t, []))"

definition ship_row :: "(string \<Rightarrow> string) \<Rightarrow> int \<Rightarrow> bool \<Rightarrow> string \<times> nat \<Rightarrow> string option \<Rightarrow> LedgerRow option \<Rightarrow> Track
    \<Rightarrow> Track option \<times> ShipFrame list" where
  "ship_row b64 now closing k file row t =
     (case row of
        None \<Rightarrow> (None, if tk_hinted t then [Sf_State (unknown_frame now k)] else [])
      | Some r \<Rightarrow>
          (let (reader, frames) = ship_frames b64 (fst k) (snd k) (unwrap_or file []) (tk_reader t);
               t1 = t \<lparr> tk_reader := reader \<rparr>; sent = Some (lr_state r, lr_reason r); logs = map Sf_Log frames
           in if is_terminal (lr_state r) then
                (if jr_last_seq reader < lr_log_seq r \<and> \<not> closing then (Some t1, logs)
                 else (let (t2, fs) = send_state r t1
                       in case lr_receipt r of
                            Some rc \<Rightarrow> (None, logs @ fs @ [Sf_Receipt \<lparr> rf_job_id = fst k, rf_generation = snd k, rf_receipt = rc \<rparr>])
                          | None \<Rightarrow> (Some (t2 \<lparr> tk_sent := sent \<rparr>), logs @ fs)))
              else (let (t2, fs) = send_state r t1 in (Some (t2 \<lparr> tk_sent := sent \<rparr>), logs @ fs))))"

section \<open>One pass\<close>

definition ship_pass :: "(string \<Rightarrow> string) \<Rightarrow> int \<Rightarrow> bool \<Rightarrow> (string \<times> nat \<Rightarrow> string option) \<Rightarrow> ledger
    \<Rightarrow> ((string \<times> nat) \<times> Track) list \<Rightarrow> ((string \<times> nat) \<times> Track) list \<times> ShipFrame list" where
  "ship_pass b64 now closing journals l tracks =
     foldl (\<lambda>(tr, out) k. case map_of tr k of
              None \<Rightarrow> (tr, out)
            | Some t \<Rightarrow> (case ship_row b64 now closing k (journals k) (ledger_get l (fst k) (snd k)) t of
                 (None, fs) \<Rightarrow> (AList.delete k tr, out @ fs)
               | (Some t', fs) \<Rightarrow> (AList.update k t' (AList.delete k tr), out @ fs)))
       (tracks, []) (map fst tracks)"

end
