(* ===== verification/Ship_Rules.thy ===== *)
theory Ship_Rules
  imports Log_Server Shipper
begin

text \<open>
  The order of what a node's session sends of one attempt: its end is reported only after every log record written before
  it, so the server that stores the frames as they come has the whole log when it hears of the end.
\<close>

section \<open>The passes of a session over one attempt\<close>

record ShipPass =
  sp_now :: int
  sp_cut :: nat
  sp_row :: "LedgerRow option"

text \<open>At a pass the journal is what its writer has written so far, \<open>sp_cut\<close> bytes of what it will write.\<close>

fun ship_passes :: "(string \<Rightarrow> string) \<Rightarrow> string \<times> nat \<Rightarrow> string \<Rightarrow> ShipPass list \<Rightarrow> Track option \<Rightarrow> ShipFrame list" where
  "ship_passes b64 k f [] ot = []"
| "ship_passes b64 k f (p # ps) None = []"
| "ship_passes b64 k f (p # ps) (Some t) =
     (case ship_row b64 (sp_now p) False k (Some (take (sp_cut p) f)) (sp_row p) t of (ot, fs) \<Rightarrow> fs @ ship_passes b64 k f ps ot)"

definition logs_of :: "ShipFrame list \<Rightarrow> LogChunk list" where
  "logs_of fs = concat (map (\<lambda>f. case f of Sf_Log l \<Rightarrow> [l] | _ \<Rightarrow> []) fs)"

lemma logs_of_simps [simp]: "logs_of [] = []" "logs_of (as @ bs) = logs_of as @ logs_of bs" "logs_of (map Sf_Log ls) = ls"
    "logs_of (Sf_Log l # fs) = l # logs_of fs" "logs_of (Sf_State su # fs) = logs_of fs" "logs_of (Sf_Receipt rc # fs) = logs_of fs"
  by (simp_all add: logs_of_def comp_def)

lemma passes_None [simp]: "ship_passes b64 k f ps None = []"
  by (cases ps) simp_all

definition track_at :: "LogRecord list \<Rightarrow> nat \<Rightarrow> nat \<Rightarrow> Track \<Rightarrow> bool" where
  "track_at rs since i t \<longleftrightarrow> tk_reader t = \<lparr> jr_offset = length (journal_bytes (take i rs)), jr_last_seq = max since i \<rparr>"

lemma state_part:
  assumes "send_state r t = (t', fs)"
  shows "tk_reader t' = tk_reader t" "\<forall>f \<in> set fs. f = Sf_State (row_state_frame r) \<or> (\<exists>s. f = Sf_State (running_frame r s))"
  using assms by (auto simp: send_state_def send_running_first_def split: if_splits option.splits prod.splits)

lemma no_logs: "\<forall>f \<in> set fs. \<exists>s. f = Sf_State s \<or> (\<exists>rc. f = Sf_Receipt rc) \<Longrightarrow> logs_of fs = []"
  by (induction fs) auto

lemma foldl_max_upt: "foldl max a [i..<m] = (if i < m then max a (m - 1) else a)"
  by (induction m) (auto simp: less_Suc_eq)

text \<open>What the reader finds at a pass, and where it stops.\<close>

lemma ship_cut:
  assumes "numbered rs" "in_order rs" "i \<le> length rs" "length (journal_bytes (take i rs)) \<le> c"
  shows "\<exists>m. i \<le> m \<and> m \<le> length rs \<and> length (journal_bytes (take m rs)) \<le> c
    \<and> ship_logs (take c (journal_bytes rs)) \<lparr> jr_offset = length (journal_bytes (take i rs)), jr_last_seq = max since i \<rparr>
      = (\<lparr> jr_offset = length (journal_bytes (take m rs)), jr_last_seq = max since m \<rparr>, drop (max since i) (take m rs))"
proof -
  let ?c = "min c (length (journal_bytes rs))"
  have ok: "\<forall>r \<in> set rs. rec_ok r" using assms(2) by (simp add: in_order_def)
  obtain m t where m: "m \<le> length rs" "take ?c (journal_bytes rs) = journal_bytes (take m rs) @ t" "torn t"
    "m < length rs \<longrightarrow> ?c < length (journal_bytes (take (Suc m) rs))"
    using cut_journal [OF ok, of ?c] by auto
  have mono: "length (journal_bytes (take a rs)) \<le> length (journal_bytes (take b rs))" if "a \<le> b" for a b
  proof -
    have "take b rs = take a rs @ take (b - a) (drop a rs)" using that by (metis le_add_diff_inverse take_add)
    then show ?thesis by simp
  qed
  have im: "i \<le> m"
  proof (rule ccontr)
    assume "\<not> i \<le> m"
    then have "m < length rs" "Suc m \<le> i" using assms(3) by simp_all
    then have "?c < length (journal_bytes (take i rs))" using m(4) mono [of "Suc m" i] by linarith
    moreover have "length (journal_bytes (take i rs)) \<le> length (journal_bytes rs)" using mono [of i "length rs"] assms(3) by simp
    ultimately show False using assms(4) by simp
  qed
  let ?ds = "drop i (take m rs)"
  have tm: "take m rs = take i rs @ ?ds" by (metis append_take_drop_id im min.absorb1 take_take)
  have nt: "numbered (take m rs)" using assms(1) by (rule numbered_take)
  have io: "in_order (take m rs)" using in_order_append [of "take m rs" "drop m rs"] assms(2) by simp
  then have iod: "in_order ?ds" using in_order_append [of "take i rs" ?ds] tm by simp
  have w: "wanted (max since i) ?ds = drop (max since i) (take m rs)"
  proof -
    have "wanted (max since i) (take i rs) = []"
      using assms(1) unfolding wanted_def by (auto simp: filter_empty_conv in_set_conv_nth numbered_seq)
    then show ?thesis using wanted_drop [OF nt, of "max since i"] tm by (metis append_Nil wanted_simps(3))
  qed
  have p: "passed (max since i) ?ds = max since m"
  proof -
    have "map lo_seq (take m rs) = [1..<Suc m]" using nt m(1) by (simp add: numbered_def min_def del: upt_Suc)
    then have "map lo_seq ?ds = [Suc i..<Suc m]" by (simp add: drop_map [symmetric] del: upt_Suc)
    then show ?thesis using im by (auto simp: passed_def foldl_max_upt max_def simp del: upt_Suc)
  qed
  have f: "take c (journal_bytes rs) = journal_bytes (take i rs) @ journal_bytes ?ds @ t"
  proof -
    have "take c (journal_bytes rs) = take ?c (journal_bytes rs)" by (simp add: min_def)
    also have "\<dots> = journal_bytes (take i rs @ ?ds) @ t" using m(2) tm by simp
    finally show ?thesis by simp
  qed
  have "length (journal_bytes (take m rs)) + length t = ?c" using arg_cong [OF m(2), of length] by simp
  then have "length (journal_bytes (take m rs)) \<le> c" by simp
  then show ?thesis
    using ship_all [OF iod m(3), of "take i rs" "max since i"] im m(1) w p unfolding f tm [symmetric] by auto
qed

text \<open>One pass over one attempt: the log records it finds, then at most its state and its receipt; a state that ends the
  attempt only when the reader has reached the row's last record.\<close>

lemma row_pass:
  assumes "numbered rs" "in_order rs" "track_at rs since i t" "i \<le> length rs" "length (journal_bytes (take i rs)) \<le> c"
    "ship_row b64 now False k (Some (take c (journal_bytes rs))) row t = (ot, out)"
  shows "\<exists>m fs. i \<le> m \<and> m \<le> length rs \<and> length (journal_bytes (take m rs)) \<le> c
    \<and> out = map (\<lambda>r. Sf_Log (log_frame b64 (fst k) (snd k) r)) (drop (max since i) (take m rs)) @ fs
    \<and> (\<forall>f \<in> set fs. (\<exists>rc. f = Sf_Receipt rc) \<or> (\<exists>s. f = Sf_State s \<and> (is_terminal (su_state s) \<longrightarrow> su_log_seq s \<le> max since m)))
    \<and> (\<forall>t'. ot = Some t' \<longrightarrow> track_at rs since m t')"
proof (cases row)
  case None
  have "drop (max since i) (take i rs) = []" by simp
  then show ?thesis using None assms
    by - (rule exI [of _ i], rule exI [of _ out], auto simp: ship_row_def unknown_frame_def split: if_splits)
next
  case (Some r)
  obtain m where m: "i \<le> m" "m \<le> length rs" "length (journal_bytes (take m rs)) \<le> c"
    "ship_logs (take c (journal_bytes rs)) (tk_reader t) = (\<lparr> jr_offset = length (journal_bytes (take m rs)), jr_last_seq = max since m \<rparr>,
       drop (max since i) (take m rs))"
    using ship_cut [OF assms(1,2,4,5), of since] assms(3) unfolding track_at_def by auto
  let ?t = "t \<lparr> tk_reader := \<lparr> jr_offset = length (journal_bytes (take m rs)), jr_last_seq = max since m \<rparr> \<rparr>"
  let ?logs = "map (\<lambda>r. Sf_Log (log_frame b64 (fst k) (snd k) r)) (drop (max since i) (take m rs))"
  obtain t2 fs where sp: "send_state r ?t = (t2, fs)" by fastforce
  note st = state_part [OF sp]
  have tr: "track_at rs since m (t2 \<lparr> tk_sent := x \<rparr>)" "track_at rs since m ?t" for x using st(1) by (simp_all add: track_at_def)
  have sf: "ship_frames b64 (fst k) (snd k) (take c (journal_bytes rs)) (tk_reader t)
      = (\<lparr> jr_offset = length (journal_bytes (take m rs)), jr_last_seq = max since m \<rparr>, map (log_frame b64 (fst k) (snd k)) (drop (max since i) (take m rs)))"
    by (simp add: ship_frames_def m(4))
  define rest where "rest = (if is_terminal (lr_state r) \<and> max since m < lr_log_seq r then []
    else fs @ (case lr_receipt r of Some rc \<Rightarrow> if is_terminal (lr_state r) then [Sf_Receipt \<lparr> rf_job_id = fst k, rf_generation = snd k, rf_receipt = rc \<rparr>] else [] | None \<Rightarrow> []))"
  have out: "out = ?logs @ rest" "\<forall>t'. ot = Some t' \<longrightarrow> track_at rs since m t'"
    using assms(6) Some tr sp sf unfolding ship_row_def rest_def by (auto simp: comp_def Let_def split: if_splits option.splits)
  have q: "is_terminal (su_state s) \<Longrightarrow> su_log_seq s \<le> max since m" if "Sf_State s \<in> set rest" for s
    using that st(2) unfolding rest_def
    by (auto simp: row_state_frame_def running_frame_def is_terminal_def split: if_splits option.splits)
  have "(\<exists>rc. f = Sf_Receipt rc) \<or> (\<exists>s. f = Sf_State s \<and> (is_terminal (su_state s) \<longrightarrow> su_log_seq s \<le> max since m))" if f: "f \<in> set rest" for f
  proof (cases f)
    case Sf_Log
    then show ?thesis using f st(2) unfolding rest_def by (auto split: if_splits option.splits)
  next
    case (Sf_State s)
    then show ?thesis using f q by blast
  qed simp
  then show ?thesis using m out by blast
qed

lemma logs_of_rest: "\<forall>f \<in> set fs. (\<exists>rc. f = Sf_Receipt rc) \<or> (\<exists>s. f = Sf_State s \<and> P s) \<Longrightarrow> logs_of fs = []"
  by (induction fs) auto

lemma split_out:
  assumes "out @ rest = as @ f # bs"
  obtains x where "out = as @ f # x" | a where "as = out @ a" "rest = a @ f # bs"
proof -
  consider us where "out = as @ us" "us @ rest = f # bs" | us where "as = out @ us" "rest = us @ f # bs"
    using assms unfolding append_eq_append_conv2 by metis
  then show thesis
  proof cases
    case (1 us)
    then show thesis using that by (cases us) auto
  qed (rule that)
qed

lemma end_after_logs:
  assumes "numbered rs" "in_order rs"
  shows "track_at rs since i t \<Longrightarrow> i \<le> length rs \<Longrightarrow> \<forall>p \<in> set ps. length (journal_bytes (take i rs)) \<le> sp_cut p \<Longrightarrow> sorted (map sp_cut ps)
    \<Longrightarrow> ship_passes b64 k (journal_bytes rs) ps (Some t) = as @ Sf_State su # bs \<Longrightarrow> is_terminal (su_state su)
    \<Longrightarrow> \<exists>m. i \<le> m \<and> m \<le> length rs \<and> logs_of as = map (log_frame b64 (fst k) (snd k)) (drop (max since i) (take m rs)) \<and> su_log_seq su \<le> max since m"
proof (induction ps arbitrary: t i as)
  case (Cons p ps)
  obtain ot out where o: "ship_row b64 (sp_now p) False k (Some (take (sp_cut p) (journal_bytes rs))) (sp_row p) t = (ot, out)" by fastforce
  have "length (journal_bytes (take i rs)) \<le> sp_cut p" using Cons.prems(3) by simp
  from row_pass [OF assms Cons.prems(1,2) this o]
  obtain m fs where m: "i \<le> m" "m \<le> length rs" "length (journal_bytes (take m rs)) \<le> sp_cut p"
    "out = map (\<lambda>r. Sf_Log (log_frame b64 (fst k) (snd k) r)) (drop (max since i) (take m rs)) @ fs"
    "\<forall>f \<in> set fs. (\<exists>rc. f = Sf_Receipt rc) \<or> (\<exists>s. f = Sf_State s \<and> (is_terminal (su_state s) \<longrightarrow> su_log_seq s \<le> max since m))"
    "\<forall>t'. ot = Some t' \<longrightarrow> track_at rs since m t'" by blast
  let ?logs = "map (log_frame b64 (fst k) (snd k)) (drop (max since i) (take m rs))"
  have out: "out = map Sf_Log ?logs @ fs" using m(4) by (simp add: comp_def)
  have e: "out @ ship_passes b64 k (journal_bytes rs) ps ot = as @ Sf_State su # bs" using Cons.prems(5) o by simp
  from e show ?case
  proof (cases rule: split_out)
    case (1 x)
    have l: "logs_of fs = []" using m(5) by (rule logs_of_rest)
    from 1 obtain a where a: "as = map Sf_Log ?logs @ a" "fs = a @ Sf_State su # x"
    proof (cases rule: split_out [where rest = fs, of "map Sf_Log ?logs" as "Sf_State su" x thesis, OF 1 [unfolded out]])
      case (1 y)
      then have "Sf_State su \<in> set (map Sf_Log ?logs)" by simp
      then show thesis by auto
    qed (rule that)
    then have "logs_of as = ?logs" using l by (simp del: map_map)
    moreover have "su_log_seq su \<le> max since m" using m(5) a(2) Cons.prems(6) by auto
    ultimately show ?thesis using m(1,2) by blast
  next
    case (2 a)
    note a = 2
    then obtain t' where t: "ot = Some t'" by (cases ot) simp_all
    have s: "\<forall>p' \<in> set ps. length (journal_bytes (take m rs)) \<le> sp_cut p'" "sorted (map sp_cut ps)"
      using m(3) Cons.prems(4) by (auto intro: order_trans)
    have "track_at rs since m t'" using m(6) t by blast
    from Cons.IH [OF this m(2) s _ Cons.prems(6), of a] a(2)
    obtain n where n: "m \<le> n" "n \<le> length rs" "logs_of a = map (log_frame b64 (fst k) (snd k)) (drop (max since m) (take n rs))" "su_log_seq su \<le> max since n"
      unfolding t by auto
    have d: "drop (max since i) (take m rs) @ drop (max since m) (take n rs) = drop (max since i) (take n rs)"
    proof (cases "since \<le> m")
      case True
      have "take n rs = take m rs @ drop m (take n rs)" using n(1) by (metis append_take_drop_id min.absorb1 take_take)
      then have "drop (max since i) (take n rs) = drop (max since i) (take m rs) @ drop m (take n rs)"
        using True m(1,2) by (metis drop_append drop0 diff_is_0_eq length_take max.bounded_iff min.absorb2)
      then show ?thesis using True by (simp add: max_def)
    next
      case False
      then show ?thesis using m(1) by (simp add: max_def)
    qed
    have "logs_of fs = []" using m(5) by (rule logs_of_rest)
    then have "logs_of as = map (log_frame b64 (fst k) (snd k)) (drop (max since i) (take n rs))"
      unfolding a(1) out using n(3) by (simp flip: d del: map_map)
    then show ?thesis using n(1,2,4) m(1) by (intro exI [of _ n]) simp
  qed
qed simp

section \<open>The server that stores what comes\<close>

definition delivered :: "nat \<Rightarrow> ShipFrame list \<Rightarrow> LogEvent list" where
  "delivered now fs = concat (map (\<lambda>f. case f of Sf_Log l \<Rightarrow> [Ev_Log now l] | Sf_State su \<Rightarrow> [Ev_State (su_job_id su) (su_generation su)]
     | Sf_Receipt rc \<Rightarrow> []) fs)"

lemma delivered_store:
  "lg_store ss = lg_store ss' \<Longrightarrow>
    lg_store (log_run unb64 belt (delivered now fs) ss) = lg_store (log_run unb64 belt (map (Ev_Log now) (logs_of fs)) ss')"
proof (induction fs arbitrary: ss ss')
  case (Cons f fs)
  show ?case
  proof (cases f)
    case (Sf_Log l)
    have "lg_store (on_log unb64 belt now l ss) = lg_store (on_log unb64 belt now l ss')" unfolding on_log_store Cons.prems ..
    from Cons.IH [OF this] show ?thesis by (simp add: Sf_Log delivered_def log_run_def)
  next
    case (Sf_State su)
    have "lg_store (flush_before_state (su_job_id su) (su_generation su) ss) = lg_store ss'" using Cons.prems by simp
    from Cons.IH [OF this] show ?thesis by (simp add: Sf_State delivered_def log_run_def)
  next
    case Sf_Receipt
    then show ?thesis using Cons.IH [OF Cons.prems] by (simp add: delivered_def)
  qed
qed (simp add: delivered_def)


section \<open>What a session follows\<close>

lemma follow_fold:
  "map_of (foldl (\<lambda>tr r. let k = (lr_job_id r, lr_generation r) in
       case map_of tr k of Some t \<Rightarrow> tr | None \<Rightarrow> AList.update k (new_track 0 False) tr) tr l) k
    = (case map_of tr k of Some t \<Rightarrow> Some t
       | None \<Rightarrow> if k \<in> (\<lambda>r. (lr_job_id r, lr_generation r)) ` set l then Some (new_track 0 False) else None)"
  by (induction l arbitrary: tr) (auto simp: Let_def update_conv' split: option.splits)

text \<open>Every attempt that is open on the node is followed: from the server's hint, else from its start.\<close>

lemma session_follows:
  "map_of (session_tracks hints l) k = (case map_of (hint_tracks hints) k of Some t \<Rightarrow> Some t
     | None \<Rightarrow> if k \<in> (\<lambda>r. (lr_job_id r, lr_generation r)) ` set (non_terminal l) then Some (new_track 0 False) else None)"
  unfolding session_tracks_def by (rule follow_fold)

section \<open>An example\<close>

text \<open>A job that prints once; the shipper looks while it runs, before the print reached the journal, and again when it is over.\<close>

definition ex_writer :: JournalWriter where
  "ex_writer = journal_writes ex_journal [(LS_Out, ''ab'')]"

definition ex_record :: LogRecord where
  "ex_record = \<lparr> lo_seq = 1, lo_stream = LS_Out, lo_data = ''ab'' \<rparr>"

definition ex_row :: "JobState \<Rightarrow> LedgerRow" where
  "ex_row s = (new_ledger_row \<lparr> as_fence = \<lparr> fe_job_id = ''j'', fe_attempt = 1, fe_generation = 1, fe_plan_digest = ''d'' \<rparr>, as_plan = blank_plan \<rparr>
     \<lparr> ck_now = 1, ck_boot_id = ''b'' \<rparr>) \<lparr> lr_state := s, lr_log_seq := 1 \<rparr>"

definition ex_passes :: "ShipPass list" where
  "ex_passes = [\<lparr> sp_now = 2, sp_cut = 0, sp_row = Some (ex_row JS_Running) \<rparr>, \<lparr> sp_now = 3, sp_cut = 100, sp_row = Some (ex_row JS_Done) \<rparr>]"

lemma ex_file: "jw_file ex_writer = rec_bytes ex_record"
proof -
  have c: "chunks_of MAX_LOG_CHUNK ''ab'' = [''ab'']"
    by (subst chunks_of.simps, subst chunks_of.simps) (simp add: MAX_LOG_CHUNK_def)
  have "journal_append LS_Out ''ab'' ex_journal = journal_record LS_Out ''ab'' (ex_journal \<lparr> jw_out_bytes := Suc (Suc 0) \<rparr>)"
    using c by (simp add: journal_append_def ex_journal_def journal_create_def redacted_def Let_def u64_add_def)
  then show ?thesis
    by (simp add: ex_writer_def journal_writes_def journal_record_def ex_journal_def journal_create_def Let_def u64_add_def rec_bytes_def ex_record_def)
qed

lemma ex_ships: "ship_passes (\<lambda>d. d) (''j'', 1) (jw_file ex_writer) ex_passes (Some (new_track 0 True))
    = [Sf_State (row_state_frame (ex_row JS_Running)), Sf_Log (log_frame (\<lambda>d. d) ''j'' 1 ex_record)]
      @ Sf_State (row_state_frame (ex_row JS_Done)) # []"
proof -
  have io: "in_order [ex_record]" by (simp add: in_order_def rec_ok_def ex_record_def)
  have l: "length (rec_bytes ex_record) = 15" by (simp add: ex_record_def)
  have a: "ship_logs (rec_bytes ex_record) \<lparr> jr_offset = 0, jr_last_seq = 0 \<rparr> = (\<lparr> jr_offset = 15, jr_last_seq = 1 \<rparr>, [ex_record])"
    using ship_all [OF io torn_Nil, of "[]" 0] l by (simp add: ex_record_def)
  have b: "ship_logs [] \<lparr> jr_offset = 0, jr_last_seq = 0 \<rparr> = (\<lparr> jr_offset = 0, jr_last_seq = 0 \<rparr>, [])"
    using ship_all [of "[]" "[]" "[]" 0] by (simp add: in_order_def)
  show ?thesis using a b l unfolding ex_file ex_passes_def
    by (simp add: ship_row_def ship_frames_def new_track_def track_reader_def reader_new_def skip_to_def send_state_def send_running_first_def
        ex_row_def new_ledger_row_def is_terminal_def)
qed


end
