(* ===== verification/Canonical.thy ===== *)
theory Canonical
  imports Rust_Str
begin

text \<open>
  Canonical JSON (\<open>k2-node-proto/src/canonical.rs\<close>), over which signatures and digests are made: a JSON value written
  with its keys in byte order and no spaces. How a scalar and a key are written is \<open>serde_json\<close>'s and a parameter; an
  object is the list of its entries, in whatever order the map keeps them.
\<close>

section \<open>Values and their text\<close>

datatype 's Json = J_Scalar 's | J_Array "'s Json list" | J_Object "(string \<times> 's Json) list"

function write_value :: "('s \<Rightarrow> string option) \<Rightarrow> (string \<Rightarrow> string option) \<Rightarrow> 's Json \<Rightarrow> string option" where
  "write_value scalar key (J_Scalar s) = scalar s"
| "write_value scalar key (J_Array items) =
     map_option (\<lambda>ts. ''['' @ join_with '','' ts @ '']'') (those (map (write_value scalar key) items))"
| "write_value scalar key (J_Object entries) =
     map_option (\<lambda>ts. ''{'' @ join_with '','' ts @ ''}'')
       (those (map (\<lambda>e. Option.bind (key (fst e)) (\<lambda>k. map_option (\<lambda>t. k @ '':'' @ t) (write_value scalar key (snd e)))) (sort_key fst entries)))"
  by pat_completeness auto
termination
proof (relation "measure (\<lambda>(scalar, key, v). size v)")
  fix entries :: "(string \<times> 'a Json) list" and e k scalar key
  assume "e \<in> set (sort_key fst entries)"
  then have "e \<in> set entries" by simp
  then have "size (snd e) < Suc (size_list (size_prod (\<lambda>_. 0) size) entries)"
    by (induction entries) (auto simp: size_prod_def split: prod.splits)
  then show "((scalar, key, snd e), scalar, key, J_Object entries) \<in> measure (\<lambda>(scalar, key, v). size v)" by simp
qed (auto simp: less_Suc_eq_le dest: size_list_estimation')

text \<open>The value with every object's entries in byte order of their keys: what the text depends on.\<close>

fun norm_json :: "'s Json \<Rightarrow> 's Json" where
  "norm_json (J_Scalar s) = J_Scalar s"
| "norm_json (J_Array items) = J_Array (map norm_json items)"
| "norm_json (J_Object entries) = J_Object (sort_key fst (map (\<lambda>e. (fst e, norm_json (snd e))) entries))"

text \<open>Writing in the order the entries have.\<close>

fun write_plain :: "('s \<Rightarrow> string option) \<Rightarrow> (string \<Rightarrow> string option) \<Rightarrow> 's Json \<Rightarrow> string option" where
  "write_plain scalar key (J_Scalar s) = scalar s"
| "write_plain scalar key (J_Array items) =
     map_option (\<lambda>ts. ''['' @ join_with '','' ts @ '']'') (those (map (write_plain scalar key) items))"
| "write_plain scalar key (J_Object entries) =
     map_option (\<lambda>ts. ''{'' @ join_with '','' ts @ ''}'')
       (those (map (\<lambda>e. Option.bind (key (fst e)) (\<lambda>k. map_option (\<lambda>t. k @ '':'' @ t) (write_plain scalar key (snd e)))) entries))"

lemma sort_entries: "sort_key fst (map (\<lambda>e. (fst e, f (snd e))) es) = map (\<lambda>e. (fst e, f (snd e))) (sort_key fst es)"
proof (induction es)
  case (Cons e es)
  have "insort_key fst (fst e, f (snd e)) (map (\<lambda>e. (fst e, f (snd e))) xs) = map (\<lambda>e. (fst e, f (snd e))) (insort_key fst e xs)" for xs
    by (induction xs) auto
  then show ?case using Cons by simp
qed simp

lemma write_norm: "write_value scalar key v = write_plain scalar key (norm_json v)"
proof (induction scalar key v rule: write_value.induct)
  case (2 scalar key items)
  then show ?case by (simp cong: map_cong)
next
  case (3 scalar key entries)
  have "map (\<lambda>e. Option.bind (key (fst e)) (\<lambda>k. map_option (\<lambda>t. k @ '':'' @ t) (write_value scalar key (snd e)))) (sort_key fst entries)
      = map (\<lambda>e. Option.bind (key (fst e)) (\<lambda>k. map_option (\<lambda>t. k @ '':'' @ t) (write_plain scalar key (snd e))))
        (map (\<lambda>e. (fst e, norm_json (snd e))) (sort_key fst entries))"
    using 3 by (auto split: Option.bind_split)
  then show ?case by (simp only: write_value.simps write_plain.simps norm_json.simps sort_entries)
qed simp

section \<open>The text determines the value\<close>

text \<open>What is relied on of a JSON writer's scalars and keys: followed by what may follow it in a value, a text tells where it
  ends and what was written.\<close>

definition follows_value :: "string \<Rightarrow> bool" where
  "follows_value x \<longleftrightarrow> x = [] \<or> hd x \<in> {CHR '','', CHR '']'', CHR ''}''}"

definition tokens_ok :: "('s \<Rightarrow> string option) \<Rightarrow> (string \<Rightarrow> string option) \<Rightarrow> bool" where
  "tokens_ok scalar key \<longleftrightarrow>
     (\<forall>a b s t x y. scalar a = Some s \<and> scalar b = Some t \<and> follows_value x \<and> follows_value y \<and> s @ x = t @ y \<longrightarrow> a = b \<and> x = y)
   \<and> (\<forall>a s. scalar a = Some s \<longrightarrow> s \<noteq> [] \<and> hd s \<notin> {CHR ''['', CHR ''{'', CHR '']''})
   \<and> (\<forall>k l s t x y. key k = Some s \<and> key l = Some t \<and> s @ '':'' @ x = t @ '':'' @ y \<longrightarrow> k = l \<and> x = y)
   \<and> (\<forall>k s. key k = Some s \<longrightarrow> s \<noteq> [] \<and> hd s \<noteq> CHR ''}'')"

lemma tokens_scalar:
  "tokens_ok scalar key \<Longrightarrow> scalar a = Some s \<Longrightarrow> scalar b = Some t \<Longrightarrow> follows_value x \<Longrightarrow> follows_value y \<Longrightarrow> s @ x = t @ y \<Longrightarrow> a = b \<and> x = y"
  unfolding tokens_ok_def by blast

lemma tokens_key:
  "tokens_ok scalar key \<Longrightarrow> key k = Some s \<Longrightarrow> key l = Some t \<Longrightarrow> s @ '':'' @ x = t @ '':'' @ y \<Longrightarrow> k = l \<and> x = y"
  unfolding tokens_ok_def by blast

lemma tokens_start:
  assumes "tokens_ok scalar key"
  shows "scalar a = Some s \<Longrightarrow> \<exists>c u. s = c # u \<and> c \<noteq> CHR ''['' \<and> c \<noteq> CHR ''{'' \<and> c \<noteq> CHR '']''"
    "key k = Some s \<Longrightarrow> \<exists>c u. s = c # u \<and> c \<noteq> CHR ''}''"
proof -
  have a: "\<forall>a s. scalar a = Some s \<longrightarrow> s \<noteq> [] \<and> hd s \<notin> {CHR ''['', CHR ''{'', CHR '']''}"
    and k: "\<forall>k s. key k = Some s \<longrightarrow> s \<noteq> [] \<and> hd s \<noteq> CHR ''}''"
    using assms unfolding tokens_ok_def by blast+
  show "\<exists>c u. s = c # u \<and> c \<noteq> CHR ''['' \<and> c \<noteq> CHR ''{'' \<and> c \<noteq> CHR '']''" if h: "scalar a = Some s"
    using a [rule_format, OF h] by (cases s) auto
  show "\<exists>c u. s = c # u \<and> c \<noteq> CHR ''}''" if h: "key k = Some s" using k [rule_format, OF h] by (cases s) auto
qed

lemma those_same: "those (map W xs) = Some ts \<Longrightarrow> length ts = length xs"
  by (induction xs arbitrary: ts) (auto split: option.splits)

lemma join_Cons: "join_with '','' (t # ts) = t @ (if ts = [] then [] else CHR '','' # join_with '','' ts)"
  by (cases ts) simp_all

lemma list_inject:
  assumes "\<And>e e' s t x y. e \<in> set as \<Longrightarrow> W e = Some s \<Longrightarrow> W e' = Some t \<Longrightarrow> follows_value x \<Longrightarrow> follows_value y \<Longrightarrow> s @ x = t @ y
      \<Longrightarrow> e = e' \<and> x = y"
    "\<And>e s. W e = Some s \<Longrightarrow> s \<noteq> [] \<and> hd s \<noteq> c" "c \<in> {CHR '']'', CHR ''}''}"
  shows "those (map W as) = Some ss \<Longrightarrow> those (map W bs) = Some ts \<Longrightarrow> join_with '','' ss @ c # x = join_with '','' ts @ c # y
    \<Longrightarrow> as = bs \<and> x = y"
  using assms(1)
proof (induction as arbitrary: bs ss ts)
  case Nil
  then show ?case using assms(2)
    by (cases bs) (auto simp: join_Cons split: option.splits if_splits, (metis hd_append2 list.sel(1))+)
next
  case (Cons a as)
  obtain s ss' where s: "W a = Some s" "those (map W as) = Some ss'" "ss = s # ss'"
    using Cons.prems(1) by (auto split: option.splits)
  show ?case
  proof (cases bs)
    case Nil
    then show ?thesis using Cons.prems(2,3) s assms(2) [OF s(1)] by (cases s) (auto simp: join_Cons)
  next
    case (Cons b bs')
    obtain t ts' where t: "W b = Some t" "those (map W bs') = Some ts'" "ts = t # ts'"
      using Cons.prems(2) Cons by (auto split: option.splits)
    let ?u = "if ss' = [] then c # x else CHR '','' # join_with '','' ss' @ c # x"
    let ?v = "if ts' = [] then c # y else CHR '','' # join_with '','' ts' @ c # y"
    have "follows_value ?u" "follows_value ?v" using assms(3) by (auto simp: follows_value_def)
    moreover have "s @ ?u = t @ ?v" using Cons.prems(3) s(3) t(3) by (simp add: join_Cons split: if_splits)
    ultimately have ab: "a = b" "?u = ?v" using Cons.prems(4) [of a s b t ?u ?v] s(1) t(1) by simp_all
    have l: "length ss' = length as" "length ts' = length bs'" using s(2) t(2) by (auto dest: those_same)
    have "as = bs' \<and> x = y"
    proof (cases "ss' = [] \<or> ts' = []")
      case True
      then show ?thesis using ab(2) assms(3) l by (auto split: if_splits)
    next
      case False
      then have e: "join_with '','' ss' @ c # x = join_with '','' ts' @ c # y" using ab(2) by simp
      show ?thesis by (rule Cons.IH [OF s(2) t(2) e Cons.prems(4)]) simp_all
    qed
    then show ?thesis using ab(1) Cons by simp
  qed
qed

lemma write_starts:
  assumes "tokens_ok scalar key" "write_plain scalar key v = Some s"
  shows "s \<noteq> []" "hd s \<noteq> CHR '']''"
  using assms(2) tokens_start(1) [OF assms(1)] by (cases v; fastforce)+

lemma plain_inject:
  assumes "tokens_ok scalar key"
  shows "write_plain scalar key a = Some s \<Longrightarrow> write_plain scalar key b = Some t \<Longrightarrow> follows_value x \<Longrightarrow> follows_value y \<Longrightarrow> s @ x = t @ y
    \<Longrightarrow> a = b \<and> x = y"
proof (induction a arbitrary: b s t x y)
  case (J_Scalar c)
  obtain h u where h: "s = h # u" "h \<noteq> CHR ''[''" "h \<noteq> CHR ''{''" using tokens_start(1) [OF assms, of c s] J_Scalar.prems(1) by auto
  show ?case
  proof (cases b)
    case (J_Scalar d)
    then show ?thesis using tokens_scalar [OF assms, of c s d t x y] J_Scalar.prems by simp
  qed (use J_Scalar.prems(2,5) h in auto)
next
  case (J_Array as)
  obtain ss where ss: "those (map (write_plain scalar key) as) = Some ss" "s = ''['' @ join_with '','' ss @ '']''"
    using J_Array.prems(1) by auto
  show ?case
  proof (cases b)
    case (J_Scalar d)
    then show ?thesis using tokens_start(1) [OF assms, of d t] J_Array.prems(2,5) ss(2) by auto
  next
    case (J_Array bs)
    then obtain ts where ts: "those (map (write_plain scalar key) bs) = Some ts" "t = ''['' @ join_with '','' ts @ '']''"
      using J_Array.prems(2) by auto
    have e: "join_with '','' ss @ CHR '']'' # x = join_with '','' ts @ CHR '']'' # y" using J_Array.prems(5) ss(2) ts(2) by simp
    have "as = bs \<and> x = y"
      by (rule list_inject [OF J_Array.IH _ _ ss(1) ts(1) e]) (assumption | simp add: write_starts [OF assms])+
    then show ?thesis using J_Array by simp
  next
    case (J_Object es)
    then show ?thesis using J_Array.prems(2,5) ss(2) by auto
  qed
next
  case (J_Object as)
  let ?W = "\<lambda>e. Option.bind (key (fst e)) (\<lambda>k. map_option (\<lambda>t. k @ '':'' @ t) (write_plain scalar key (snd e)))"
  obtain ss where ss: "those (map ?W as) = Some ss" "s = ''{'' @ join_with '','' ss @ ''}''"
    using J_Object.prems(1) by auto
  have start: "s \<noteq> [] \<and> hd s \<noteq> CHR ''}''" if "?W e = Some s" for e s
    using that tokens_start(2) [OF assms] by (fastforce simp: bind_eq_Some_conv)
  have inj: "e = e' \<and> x = y" if e: "e \<in> set as" "?W e = Some s" "?W e' = Some t" "follows_value x" "follows_value y" "s @ x = t @ y" for e e' s t x y
  proof -
    obtain k u where k: "key (fst e) = Some k" "write_plain scalar key (snd e) = Some u" "s = k @ '':'' @ u"
      using e(2) by (auto simp: bind_eq_Some_conv)
    obtain k' u' where k': "key (fst e') = Some k'" "write_plain scalar key (snd e') = Some u'" "t = k' @ '':'' @ u'"
      using e(3) by (auto simp: bind_eq_Some_conv)
    have "k @ '':'' @ (u @ x) = k' @ '':'' @ (u' @ y)" using e(6) k(3) k'(3) by simp
    then have f: "fst e = fst e'" "u @ x = u' @ y" using tokens_key [OF assms k(1) k'(1)] by blast+
    have "snd e = snd e' \<and> x = y"
      using J_Object.IH [OF e(1) _ k(2) k'(2) e(4,5) f(2)] by (simp add: snds.simps)
    then show ?thesis using f(1) by (simp add: prod_eq_iff)
  qed
  show ?case
  proof (cases b)
    case (J_Scalar d)
    then show ?thesis using tokens_start(1) [OF assms, of d t] J_Object.prems(2,5) ss(2) by auto
  next
    case (J_Array bs)
    then show ?thesis using J_Object.prems(2,5) ss(2) by auto
  next
    case (J_Object bs)
    then obtain ts where ts: "those (map ?W bs) = Some ts" "t = ''{'' @ join_with '','' ts @ ''}''"
      using J_Object.prems(2) by auto
    have e: "join_with '','' ss @ CHR ''}'' # x = join_with '','' ts @ CHR ''}'' # y" using J_Object.prems(5) ss(2) ts(2) by simp
    have "as = bs \<and> x = y"
      by (rule list_inject [OF inj start _ ss(1) ts(1) e]) (assumption | simp)+
    then show ?thesis using J_Object by simp
  qed
qed

text \<open>C31: Two values have one canonical text exactly when they differ at most in the order of the entries of their objects.\<close>

theorem canonical_exact:
  assumes "tokens_ok scalar key" "write_value scalar key a = Some s"
  shows "write_value scalar key b = Some s \<longleftrightarrow> norm_json a = norm_json b"
proof
  assume "write_value scalar key b = Some s"
  then show "norm_json a = norm_json b"
    using plain_inject [OF assms(1), of "norm_json a" s "norm_json b" s "[]" "[]"] assms(2)
    by (simp add: write_norm follows_value_def)
next
  assume "norm_json a = norm_json b"
  then show "write_value scalar key b = Some s" using assms(2) by (simp add: write_norm)
qed

end
