(* ===== verification/Envelope.thy ===== *)
theory Envelope
  imports Canonical Journal
begin

text \<open>
  Signatures and the signed frames of a session: the signed bytes and the domains of \<open>k2-node-proto/src/crypto.rs\<close>, the
  frame kinds with their direction, \<open>seal\<close> and \<open>open\<close> of \<open>frames.rs\<close>, and the two loops that use them at both ends
  (\<open>run_session\<close> of \<open>k2-node/src/session.rs\<close> and of \<open>compute_ws.rs\<close>). Base64, SHA-256, ECDSA and the JSON reader and
  writer are parameters.
\<close>

section \<open>Signed bytes\<close>

text \<open>A length is written in four bytes: \<open>be_bytes\<close> keeps it modulo \<open>2 ^ 32\<close>, as the cast does.\<close>

definition signed_bytes :: "string \<Rightarrow> string list \<Rightarrow> string" where
  "signed_bytes domain parts = domain @ [char_of (0 :: nat)] @ concat (map (\<lambda>p. be_bytes 4 (length p) @ p) parts)"

record Crypto =
  cr_b64 :: "string \<Rightarrow> string"
  cr_unb64 :: "string \<Rightarrow> string option"
  cr_sha256_hex :: "string \<Rightarrow> string"
  cr_verify :: "string \<Rightarrow> string \<Rightarrow> string \<Rightarrow> bool"

record SigningKey =
  sk_sign :: "string \<Rightarrow> string option"
  sk_spki_der :: string

definition P256_SPKI_PREFIX :: string where
  "P256_SPKI_PREFIX = map char_of [48, 89, 48, 19, 6, 7, 42, 134, 72, 206, 61, 2, 1, 6, 8, 42, 134, 72, 206, 61, 3, 1, 7, 3, 66, 0 :: nat]"

definition p256_point_from_spki :: "string \<Rightarrow> string option" where
  "p256_point_from_spki der =
     (if length der \<noteq> 91 \<or> take 26 der \<noteq> P256_SPKI_PREFIX \<or> der ! 26 \<noteq> char_of (4 :: nat) then None else Some (drop 26 der))"

definition fingerprint_of_spki_der :: "Crypto \<Rightarrow> string \<Rightarrow> string" where
  "fingerprint_of_spki_der cr der = cr_sha256_hex cr der"

definition sign_domain :: "Crypto \<Rightarrow> SigningKey \<Rightarrow> string \<Rightarrow> string list \<Rightarrow> string option" where
  "sign_domain cr key domain parts = map_option (cr_b64 cr) (sk_sign key (signed_bytes domain parts))"

definition verify_bytes :: "Crypto \<Rightarrow> string \<Rightarrow> string \<Rightarrow> string \<Rightarrow> bool" where
  "verify_bytes cr spki msg g = (case p256_point_from_spki spki of
     None \<Rightarrow> False
   | Some point \<Rightarrow> (case cr_unb64 cr g of None \<Rightarrow> False | Some s \<Rightarrow> cr_verify cr point msg s))"

definition verify_domain :: "Crypto \<Rightarrow> string \<Rightarrow> string \<Rightarrow> string list \<Rightarrow> string \<Rightarrow> bool" where
  "verify_domain cr spki domain parts g = verify_bytes cr spki (signed_bytes domain parts) g"

section \<open>Frames and their direction\<close>

definition DOMAIN_ATTACH_CONTROLLER :: string where "DOMAIN_ATTACH_CONTROLLER = ''k2-compute-attach-v1/controller''"
definition DOMAIN_ATTACH_NODE :: string where "DOMAIN_ATTACH_NODE = ''k2-compute-attach-v1/node''"
definition DOMAIN_SESSION :: string where "DOMAIN_SESSION = ''k2-compute-session-v1''"
definition DOMAIN_FRAME_C2N :: string where "DOMAIN_FRAME_C2N = ''k2-compute-frame-v1/c2n''"
definition DOMAIN_FRAME_N2C :: string where "DOMAIN_FRAME_N2C = ''k2-compute-frame-v1/n2c''"
definition MAX_FRAME_BYTES :: nat where "MAX_FRAME_BYTES = 1048576"

datatype Direction = ControllerToNode | NodeToController

fun direction_domain :: "Direction \<Rightarrow> string" where
  "direction_domain ControllerToNode = DOMAIN_FRAME_C2N"
| "direction_domain NodeToController = DOMAIN_FRAME_N2C"

datatype FrameKind =
    FK_Welcome | FK_Assign | FK_Transfer | FK_TransferFailed | FK_Cancel | FK_PolicyNarrow
  | FK_Revoked | FK_Admin | FK_UpdateOffer | FK_UpdateChunk | FK_AdminKeys | FK_ArtifactGet
  | FK_QueueGet | FK_CacheGet | FK_SecretEnv | FK_SecretRefused | FK_PkgRequest | FK_PkgRequestDecide
  | FK_GitCred | FK_GitCredRefused | FK_Offer | FK_JobsSnapshot | FK_Need | FK_State
  | FK_Log | FK_Receipt | FK_Goodbye | FK_AdminResult | FK_UpdateState | FK_Health
  | FK_ArtifactChunk | FK_ArtifactFailed | FK_QueueView | FK_CacheView | FK_SecretNeed | FK_PkgRequestFwd
  | FK_PkgRequestDone | FK_GitCredNeed

fun kind_direction :: "FrameKind \<Rightarrow> Direction" where
  "kind_direction FK_Welcome = ControllerToNode"
| "kind_direction FK_Assign = ControllerToNode"
| "kind_direction FK_Transfer = ControllerToNode"
| "kind_direction FK_TransferFailed = ControllerToNode"
| "kind_direction FK_Cancel = ControllerToNode"
| "kind_direction FK_PolicyNarrow = ControllerToNode"
| "kind_direction FK_Revoked = ControllerToNode"
| "kind_direction FK_Admin = ControllerToNode"
| "kind_direction FK_UpdateOffer = ControllerToNode"
| "kind_direction FK_UpdateChunk = ControllerToNode"
| "kind_direction FK_AdminKeys = ControllerToNode"
| "kind_direction FK_ArtifactGet = ControllerToNode"
| "kind_direction FK_QueueGet = ControllerToNode"
| "kind_direction FK_CacheGet = ControllerToNode"
| "kind_direction FK_SecretEnv = ControllerToNode"
| "kind_direction FK_SecretRefused = ControllerToNode"
| "kind_direction FK_PkgRequest = ControllerToNode"
| "kind_direction FK_PkgRequestDecide = ControllerToNode"
| "kind_direction FK_GitCred = ControllerToNode"
| "kind_direction FK_GitCredRefused = ControllerToNode"
| "kind_direction FK_Offer = NodeToController"
| "kind_direction FK_JobsSnapshot = NodeToController"
| "kind_direction FK_Need = NodeToController"
| "kind_direction FK_State = NodeToController"
| "kind_direction FK_Log = NodeToController"
| "kind_direction FK_Receipt = NodeToController"
| "kind_direction FK_Goodbye = NodeToController"
| "kind_direction FK_AdminResult = NodeToController"
| "kind_direction FK_UpdateState = NodeToController"
| "kind_direction FK_Health = NodeToController"
| "kind_direction FK_ArtifactChunk = NodeToController"
| "kind_direction FK_ArtifactFailed = NodeToController"
| "kind_direction FK_QueueView = NodeToController"
| "kind_direction FK_CacheView = NodeToController"
| "kind_direction FK_SecretNeed = NodeToController"
| "kind_direction FK_PkgRequestFwd = NodeToController"
| "kind_direction FK_PkgRequestDone = NodeToController"
| "kind_direction FK_GitCredNeed = NodeToController"

fun kind_str :: "FrameKind \<Rightarrow> string" where
  "kind_str FK_Welcome = ''welcome''"
| "kind_str FK_Assign = ''assign''"
| "kind_str FK_Transfer = ''transfer''"
| "kind_str FK_TransferFailed = ''transfer_failed''"
| "kind_str FK_Cancel = ''cancel''"
| "kind_str FK_PolicyNarrow = ''policy_narrow''"
| "kind_str FK_Revoked = ''revoked''"
| "kind_str FK_Admin = ''admin''"
| "kind_str FK_UpdateOffer = ''update_offer''"
| "kind_str FK_UpdateChunk = ''update_chunk''"
| "kind_str FK_AdminKeys = ''admin_keys''"
| "kind_str FK_ArtifactGet = ''artifact_get''"
| "kind_str FK_QueueGet = ''queue_get''"
| "kind_str FK_CacheGet = ''cache_get''"
| "kind_str FK_SecretEnv = ''secret_env''"
| "kind_str FK_SecretRefused = ''secret_refused''"
| "kind_str FK_PkgRequest = ''pkg_request''"
| "kind_str FK_PkgRequestDecide = ''pkg_request_decide''"
| "kind_str FK_GitCred = ''git_cred''"
| "kind_str FK_GitCredRefused = ''git_cred_refused''"
| "kind_str FK_Offer = ''offer''"
| "kind_str FK_JobsSnapshot = ''jobs_snapshot''"
| "kind_str FK_Need = ''need''"
| "kind_str FK_State = ''state''"
| "kind_str FK_Log = ''log''"
| "kind_str FK_Receipt = ''receipt''"
| "kind_str FK_Goodbye = ''goodbye''"
| "kind_str FK_AdminResult = ''admin_result''"
| "kind_str FK_UpdateState = ''update_state''"
| "kind_str FK_Health = ''health''"
| "kind_str FK_ArtifactChunk = ''artifact_chunk''"
| "kind_str FK_ArtifactFailed = ''artifact_failed''"
| "kind_str FK_QueueView = ''queue_view''"
| "kind_str FK_CacheView = ''cache_view''"
| "kind_str FK_SecretNeed = ''secret_need''"
| "kind_str FK_PkgRequestFwd = ''pkg_request_fwd''"
| "kind_str FK_PkgRequestDone = ''pkg_request_done''"
| "kind_str FK_GitCredNeed = ''git_cred_need''"

text \<open>A frame is its kind and its payload.\<close>

type_synonym 'p Frame = "FrameKind \<times> 'p"

definition frame_direction :: "'p Frame \<Rightarrow> Direction" where "frame_direction f = kind_direction (fst f)"

definition session_id :: "Crypto \<Rightarrow> string \<Rightarrow> string \<Rightarrow> string" where
  "session_id cr nonce_n nonce_c = cr_sha256_hex cr (signed_bytes DOMAIN_SESSION [nonce_n, nonce_c])"

section \<open>The envelope\<close>

record 's Envelope =
  ev_s :: nat
  ev_f :: "'s Json"
  ev_g :: string

record ('s, 'p) JsonCodec =
  sd_scalar :: "'s \<Rightarrow> string option"
  sd_key :: "string \<Rightarrow> string option"
  sd_to_value :: "'p Frame \<Rightarrow> 's Json option"
  sd_from_value :: "'s Json \<Rightarrow> 'p Frame option"
  sd_to_string :: "'s Envelope \<Rightarrow> string option"
  sd_from_str :: "string \<Rightarrow> 's Envelope option"

definition canonical :: "('s, 'p) JsonCodec \<Rightarrow> 's Json \<Rightarrow> string option" where
  "canonical sd v = write_value (sd_scalar sd) (sd_key sd) v"

datatype SealError = Se_Direction string | Se_Encode | Se_Canonical | Se_Sign | Se_Text | Se_TooLarge string nat

definition seal :: "('s, 'p) JsonCodec \<Rightarrow> Crypto \<Rightarrow> SigningKey \<Rightarrow> Direction \<Rightarrow> string \<Rightarrow> nat \<Rightarrow> 'p Frame \<Rightarrow> SealError + string" where
  "seal sd cr key dir session seq frame =
     (if frame_direction frame \<noteq> dir then Inl (Se_Direction (kind_str (fst frame)))
      else (case sd_to_value sd frame of
        None \<Rightarrow> Inl Se_Encode
      | Some f \<Rightarrow> (case canonical sd f of
          None \<Rightarrow> Inl Se_Canonical
        | Some body \<Rightarrow> (case sign_domain cr key (direction_domain dir) [session, digits_of seq, body] of
            None \<Rightarrow> Inl Se_Sign
          | Some g \<Rightarrow> (case sd_to_string sd \<lparr> ev_s = seq, ev_f = f, ev_g = g \<rparr> of
              None \<Rightarrow> Inl Se_Text
            | Some text \<Rightarrow> if MAX_FRAME_BYTES < length text then Inl (Se_TooLarge (kind_str (fst frame)) (length text)) else Inr text)))))"

datatype OpenError = Oe_TooLarge | Oe_Malformed | Oe_BadSignature | Oe_Sequence nat nat | Oe_WrongDirection string

definition open_frame :: "('s, 'p) JsonCodec \<Rightarrow> Crypto \<Rightarrow> string \<Rightarrow> Direction \<Rightarrow> string \<Rightarrow> nat \<Rightarrow> string \<Rightarrow> OpenError + 'p Frame" where
  "open_frame sd cr spki dir session expected text =
     (if MAX_FRAME_BYTES < length text then Inl Oe_TooLarge
      else (case sd_from_str sd text of
        None \<Rightarrow> Inl Oe_Malformed
      | Some env \<Rightarrow> (case canonical sd (ev_f env) of
          None \<Rightarrow> Inl Oe_Malformed
        | Some body \<Rightarrow>
            if \<not> verify_domain cr spki (direction_domain dir) [session, digits_of (ev_s env), body] (ev_g env) then Inl Oe_BadSignature
            else if ev_s env \<noteq> expected then Inl (Oe_Sequence expected (ev_s env))
            else (case sd_from_value sd (ev_f env) of
              None \<Rightarrow> Inl Oe_Malformed
            | Some frame \<Rightarrow> if frame_direction frame \<noteq> dir then Inl (Oe_WrongDirection (kind_str (fst frame))) else Inr frame))))"

section \<open>The two ends of a session\<close>

text \<open>The writer: a frame that can't be sealed is left out and takes no number.\<close>

fun write_frames :: "('s, 'p) JsonCodec \<Rightarrow> Crypto \<Rightarrow> SigningKey \<Rightarrow> Direction \<Rightarrow> string \<Rightarrow> nat \<Rightarrow> 'p Frame list \<Rightarrow> ('p Frame \<times> string) list" where
  "write_frames sd cr key dir session seq [] = []"
| "write_frames sd cr key dir session seq (f # fs) =
     (case seal sd cr key dir session seq f of
        Inl e \<Rightarrow> write_frames sd cr key dir session seq fs
      | Inr text \<Rightarrow> (f, text) # write_frames sd cr key dir session (u64_add seq 1) fs)"

text \<open>The reader: the first text that does not open ends the session.\<close>

fun read_frames :: "('s, 'p) JsonCodec \<Rightarrow> Crypto \<Rightarrow> string \<Rightarrow> Direction \<Rightarrow> string \<Rightarrow> nat \<Rightarrow> string list \<Rightarrow> 'p Frame list \<times> OpenError option" where
  "read_frames sd cr spki dir session expected [] = ([], None)"
| "read_frames sd cr spki dir session expected (t # ts) =
     (case open_frame sd cr spki dir session expected t of
        Inl e \<Rightarrow> ([], Some e)
      | Inr f \<Rightarrow> (case read_frames sd cr spki dir session (u64_add expected 1) ts of (fs, e) \<Rightarrow> (f # fs, e)))"

end
