(* ===== verification/Envelope_Rules.thy ===== *)
theory Envelope_Rules
  imports Envelope
begin

text \<open>
  What a session's signatures give: whatever the network does to the texts of a session, the frames a reader accepts are
  the first ones its peer sealed in that session and direction, and a network that delivers gives it all of them.
\<close>

section \<open>Signed bytes are unambiguous\<close>

lemma be_bytes_mod: "be_bytes k n = be_bytes k (n mod 256 ^ k)"
proof (induction k arbitrary: n)
  case (Suc k)
  have "n mod 256 ^ Suc k div 256 = n div 256 mod 256 ^ k" by (simp add: mod_mult2_eq)
  moreover have "n mod 256 ^ Suc k mod 256 = n mod 256" by (simp add: mod_mult2_eq)
  ultimately show ?case using Suc.IH [of "n div 256"] by simp
qed simp

lemma be_bytes_inject: "m < 256 ^ k \<Longrightarrow> n < 256 ^ k \<Longrightarrow> be_bytes k m = be_bytes k n \<longleftrightarrow> m = n"
  by (metis from_be_bytes)

lemma first_nul:
  assumes "xs @ z # ys = xs' @ z # ys'" "z \<notin> set xs" "z \<notin> set xs'"
  shows "xs = xs' \<and> ys = ys'"
proof -
  have "takeWhile (\<lambda>c. c \<noteq> z) (us @ z # vs) = us" if "z \<notin> set us" for us vs
    using that by (induction us) auto
  then have "xs = xs'" using assms by metis
  then show ?thesis using assms(1) by simp
qed

lemma parts_inject:
  "\<forall>p \<in> set ps. length p < 2 ^ 32 \<Longrightarrow> \<forall>q \<in> set qs. length q < 2 ^ 32
    \<Longrightarrow> concat (map (\<lambda>p. be_bytes 4 (length p) @ p) ps) = concat (map (\<lambda>p. be_bytes 4 (length p) @ p) qs) \<Longrightarrow> ps = qs"
proof (induction ps arbitrary: qs)
  case Nil
  then show ?case by (cases qs) (auto dest: arg_cong [of _ _ length])
next
  case (Cons p ps)
  then obtain q qs' where q: "qs = q # qs'" by (cases qs) (auto dest: arg_cong [of _ _ length])
  have e: "be_bytes 4 (length p) @ p @ concat (map (\<lambda>p. be_bytes 4 (length p) @ p) ps)
      = be_bytes 4 (length q) @ q @ concat (map (\<lambda>p. be_bytes 4 (length p) @ p) qs')" using Cons.prems(3) q by simp
  then have "be_bytes 4 (length p) = be_bytes 4 (length q)" by simp
  moreover have "length p < 256 ^ 4" "length q < 256 ^ 4" using Cons.prems(1,2) q by simp_all
  ultimately have "length p = length q" by (simp only: be_bytes_inject)
  then have "p = q" "concat (map (\<lambda>p. be_bytes 4 (length p) @ p) ps) = concat (map (\<lambda>p. be_bytes 4 (length p) @ p) qs')" using e by simp_all
  then show ?case using Cons.IH [of qs'] Cons.prems(1,2) q by simp
qed

lemma signed_split:
  assumes "signed_bytes d ps = signed_bytes e qs" "char_of (0 :: nat) \<notin> set d" "char_of (0 :: nat) \<notin> set e"
  shows "d = e" "concat (map (\<lambda>p. be_bytes 4 (length p) @ p) ps) = concat (map (\<lambda>p. be_bytes 4 (length p) @ p) qs)"
proof -
  have "d @ char_of (0 :: nat) # concat (map (\<lambda>p. be_bytes 4 (length p) @ p) ps) = e @ char_of (0 :: nat) # concat (map (\<lambda>p. be_bytes 4 (length p) @ p) qs)"
    using assms(1) unfolding signed_bytes_def append_Cons append_Nil .
  from first_nul [OF this assms(2,3)] show "d = e" "concat (map (\<lambda>p. be_bytes 4 (length p) @ p) ps) = concat (map (\<lambda>p. be_bytes 4 (length p) @ p) qs)"
    by blast+
qed

text \<open>A signature made for one domain and list of parts covers no other.\<close>

theorem signed_bytes_inject:
  assumes "char_of (0 :: nat) \<notin> set d" "char_of (0 :: nat) \<notin> set e" "\<forall>p \<in> set ps. length p < 2 ^ 32" "\<forall>q \<in> set qs. length q < 2 ^ 32"
  shows "signed_bytes d ps = signed_bytes e qs \<longleftrightarrow> d = e \<and> ps = qs"
proof
  assume "signed_bytes d ps = signed_bytes e qs"
  note sp = signed_split [OF this assms(1,2)]
  show "d = e \<and> ps = qs" using sp(1) parts_inject [OF assms(3,4) sp(2)] by blast
qed simp

section \<open>The channel\<close>

definition serde_ok :: "('s, 'p) JsonCodec \<Rightarrow> bool" where
  "serde_ok sd \<longleftrightarrow> tokens_ok (sd_scalar sd) (sd_key sd)
     \<and> (\<forall>a b. norm_json a = norm_json b \<longrightarrow> sd_from_value sd a = sd_from_value sd b)
     \<and> (\<forall>f v. sd_to_value sd f = Some v \<longrightarrow> sd_from_value sd v = Some f)
     \<and> (\<forall>e t. sd_to_string sd e = Some t \<longrightarrow> (\<exists>v. sd_from_str sd t = Some (e \<lparr> ev_f := v \<rparr>) \<and> norm_json v = norm_json (ev_f e)))
     \<and> (\<forall>t e. sd_from_str sd t = Some e \<longrightarrow> ev_s e < 2 ^ 64)"

text \<open>What the peer's key signed: the frames it sealed in this session and direction, and anything under another domain or, in
  this one, for another session id of the same length. Signatures are not forged: what verifies was signed.\<close>

definition session_messages :: "('s, 'p) JsonCodec \<Rightarrow> Direction \<Rightarrow> string \<Rightarrow> ('p Frame \<times> string) list \<Rightarrow> string set" where
  "session_messages sd dir session sent =
     {signed_bytes (direction_domain dir) [session, digits_of i, b] | i b. i < length sent
        \<and> Option.bind (sd_to_value sd (fst (sent ! i))) (canonical sd) = Some b}"

definition other_messages :: "Direction \<Rightarrow> string \<Rightarrow> string set" where
  "other_messages dir session =
     {signed_bytes d ps | d ps. char_of (0 :: nat) \<notin> set d
        \<and> (d \<noteq> direction_domain dir \<or> (\<exists>s qs. ps = s # qs \<and> s \<noteq> session \<and> length s = length session))}"

definition unforged :: "Crypto \<Rightarrow> string \<Rightarrow> string set \<Rightarrow> bool" where
  "unforged cr spki signed \<longleftrightarrow> (\<forall>m g. verify_bytes cr spki m g \<longrightarrow> m \<in> signed)"

lemma domain_plain: "char_of (0 :: nat) \<notin> set (direction_domain dir)"
  by (cases dir) (simp_all add: DOMAIN_FRAME_C2N_def DOMAIN_FRAME_N2C_def char_of_def)

text \<open>The body is the last part, so its length needs no bound.\<close>

lemma frame_message_inject:
  assumes "signed_bytes d [s, digits_of n, b] = signed_bytes d [s, digits_of i, b']" "char_of (0 :: nat) \<notin> set d"
    "length (digits_of n) < 2 ^ 32" "length (digits_of i) < 2 ^ 32"
  shows "n = i \<and> b = b'"
proof -
  have e: "be_bytes 4 (length (digits_of n)) @ digits_of n @ be_bytes 4 (length b) @ b
      = be_bytes 4 (length (digits_of i)) @ digits_of i @ be_bytes 4 (length b') @ b'"
    using assms(1) by (simp add: signed_bytes_def)
  then have "be_bytes 4 (length (digits_of n)) = be_bytes 4 (length (digits_of i))" by simp
  moreover have "length (digits_of n) < 256 ^ 4" "length (digits_of i) < 256 ^ 4" using assms(3,4) by simp_all
  ultimately have "length (digits_of n) = length (digits_of i)" by (simp only: be_bytes_inject)
  then have "digits_of n = digits_of i" "be_bytes 4 (length b) @ b = be_bytes 4 (length b') @ b'" using e by simp_all
  then have "b = b'" by simp
  moreover have "n = i" using arg_cong [OF \<open>digits_of n = digits_of i\<close>, of digits_val] by simp
  ultimately show ?thesis by simp
qed

lemma not_other:
  assumes "char_of (0 :: nat) \<notin> set (direction_domain dir)"
  shows "signed_bytes (direction_domain dir) (session # ps) \<notin> other_messages dir session"
proof
  assume "signed_bytes (direction_domain dir) (session # ps) \<in> other_messages dir session"
  then obtain d qs where m: "signed_bytes (direction_domain dir) (session # ps) = signed_bytes d qs" "char_of (0 :: nat) \<notin> set d"
    "d \<noteq> direction_domain dir \<or> (\<exists>s rs. qs = s # rs \<and> s \<noteq> session \<and> length s = length session)"
    unfolding other_messages_def mem_Collect_eq by blast
  note sp = signed_split [OF m(1) assms m(2)]
  from m(3) sp(1) obtain s rs where s: "qs = s # rs" "s \<noteq> session" "length s = length session" by blast
  have "be_bytes 4 (length session) @ session = be_bytes 4 (length s) @ s"
    using sp(2) s(3) unfolding s(1) by simp
  then show False using s(2,3) by simp
qed

lemma digits_length: "n < 10 ^ Suc k \<Longrightarrow> length (digits_of n) \<le> Suc k"
proof (induction k arbitrary: n)
  case 0
  then show ?case by (subst digits_of.simps) simp
next
  case (Suc k)
  then have "n div 10 < 10 ^ Suc k" by (simp add: less_mult_imp_div_less mult.commute)
  from Suc.IH [OF this] show ?case by (subst digits_of.simps) simp
qed

lemma digits_short: "n < 2 ^ 64 \<Longrightarrow> length (digits_of n) < 2 ^ 32"
  using digits_length [of n 19] by simp

lemma serde_facts:
  assumes "serde_ok sd"
  shows "tokens_ok (sd_scalar sd) (sd_key sd)" "norm_json a = norm_json b \<Longrightarrow> sd_from_value sd a = sd_from_value sd b"
    "sd_to_value sd f = Some v \<Longrightarrow> sd_from_value sd v = Some f" "sd_from_str sd t = Some e \<Longrightarrow> ev_s e < 2 ^ 64"
    "sd_to_string sd e = Some t \<Longrightarrow> \<exists>v. sd_from_str sd t = Some (e \<lparr> ev_f := v \<rparr>) \<and> norm_json v = norm_json (ev_f e)"
  using assms unfolding serde_ok_def by blast+

lemma canonical_same:
  assumes "serde_ok sd" "canonical sd a = Some b"
  shows "canonical sd v = Some b \<longleftrightarrow> norm_json a = norm_json v"
  using canonical_exact [OF serde_facts(1) [OF assms(1)]] assms(2) unfolding canonical_def by blast

lemma open_sent:
  assumes "serde_ok sd" "unforged cr spki (session_messages sd dir session sent \<union> other_messages dir session)"
    "length sent < 2 ^ 64" "open_frame sd cr spki dir session n t = Inr f"
  shows "n < length sent \<and> f = fst (sent ! n)"
proof -
  obtain env body where e: "sd_from_str sd t = Some env" "canonical sd (ev_f env) = Some body"
    "verify_domain cr spki (direction_domain dir) [session, digits_of (ev_s env), body] (ev_g env)" "ev_s env = n"
    "sd_from_value sd (ev_f env) = Some f"
    using assms(4) by (auto simp: open_frame_def split: if_splits option.splits)
  have "signed_bytes (direction_domain dir) [session, digits_of n, body] \<in> session_messages sd dir session sent"
    using assms(2) e(3,4) not_other [OF domain_plain] unfolding unforged_def verify_domain_def by blast
  then obtain i b where i: "signed_bytes (direction_domain dir) [session, digits_of n, body] = signed_bytes (direction_domain dir) [session, digits_of i, b]"
    "i < length sent" "Option.bind (sd_to_value sd (fst (sent ! i))) (canonical sd) = Some b"
    unfolding session_messages_def mem_Collect_eq by blast
  have "n < 2 ^ 64" "i < 2 ^ 64" using serde_facts(4) [OF assms(1) e(1)] e(4) i(2) assms(3) by simp_all
  from frame_message_inject [OF i(1) domain_plain this [THEN digits_short]] have ni: "n = i" "body = b" by blast+
  obtain v where v: "sd_to_value sd (fst (sent ! i)) = Some v" "canonical sd v = Some b"
    using i(3) by (auto simp: bind_eq_Some_conv)
  have "norm_json v = norm_json (ev_f env)" using canonical_same [OF assms(1) v(2)] e(2) ni(2) by blast
  then have "sd_from_value sd (ev_f env) = Some (fst (sent ! i))"
    using serde_facts(2) [OF assms(1)] serde_facts(3) [OF assms(1) v(1)] by metis
  then show ?thesis using e(5) ni(1) i(2) by simp
qed

lemma read_sent:
  assumes "serde_ok sd" "unforged cr spki (session_messages sd dir session sent \<union> other_messages dir session)" "length sent < 2 ^ 64"
  shows "n \<le> length sent \<Longrightarrow> \<exists>m. m \<le> length sent \<and> fst (read_frames sd cr spki dir session n ts) = map fst (drop n (take m sent))"
proof (induction ts arbitrary: n)
  case Nil
  then show ?case by (intro exI [of _ n]) simp
next
  case (Cons t ts)
  show ?case
  proof (cases "open_frame sd cr spki dir session n t")
    case (Inl e)
    then show ?thesis using Cons.prems by (intro exI [of _ n]) simp
  next
    case (Inr f)
    note f = open_sent [OF assms this]
    then have u: "u64_add n 1 = Suc n" using assms(3) by (simp add: u64_add_def)
    obtain m where m: "m \<le> length sent" "fst (read_frames sd cr spki dir session (Suc n) ts) = map fst (drop (Suc n) (take m sent))"
      using Cons.IH [of "Suc n"] f by auto
    show ?thesis
    proof (cases "n < m")
      case True
      then have "drop n (take m sent) = sent ! n # drop (Suc n) (take m sent)"
        using m(1) by (metis Cons_nth_drop_Suc length_take min.absorb2 nth_take)
      then show ?thesis using Inr u m f by (intro exI [of _ m]) (auto split: prod.splits)
    next
      case False
      have "drop n (take (Suc n) sent) = [sent ! n]" using f by (simp add: take_Suc_conv_app_nth)
      then show ?thesis using Inr u m f False by (intro exI [of _ "Suc n"]) (auto split: prod.splits)
    qed
  qed
qed

lemma write_length: "length (write_frames sd cr key dir session seq fs) \<le> length fs"
  by (induction fs arbitrary: seq) (auto split: sum.splits intro: le_SucI)

text \<open>C15: Whatever texts the network delivers, forged, repeated, left out, from other sessions or sent back by their own author:
  the frames a reader accepts are the first ones its peer sealed in this session, in their order.\<close>

theorem channel_prefix:
  assumes "serde_ok sd" "length fs < 2 ^ 64" "sent = write_frames sd cr key dir session 0 fs"
    "unforged cr spki (session_messages sd dir session sent \<union> other_messages dir session)"
  shows "\<exists>n \<le> length sent. fst (read_frames sd cr spki dir session 0 ts) = map fst (take n sent)"
proof -
  have "length sent < 2 ^ 64" using write_length [of sd cr key dir session 0 fs] assms(2,3) by simp
  from read_sent [OF assms(1,4) this, of 0 ts] show ?thesis by auto
qed

definition key_ok :: "Crypto \<Rightarrow> SigningKey \<Rightarrow> string \<Rightarrow> bool" where
  "key_ok cr key spki \<longleftrightarrow> (\<forall>m s. sk_sign key m = Some s \<longrightarrow> verify_bytes cr spki m (cr_b64 cr s))"

lemma seal_opens:
  assumes "serde_ok sd" "key_ok cr key spki" "seal sd cr key dir session seq f = Inr t"
  shows "open_frame sd cr spki dir session seq t = Inr f"
proof -
  obtain v body g where v: "frame_direction f = dir" "sd_to_value sd f = Some v" "canonical sd v = Some body"
    "sign_domain cr key (direction_domain dir) [session, digits_of seq, body] = Some g"
    "sd_to_string sd \<lparr> ev_s = seq, ev_f = v, ev_g = g \<rparr> = Some t" "length t \<le> MAX_FRAME_BYTES"
    using assms(3) by (auto simp: seal_def split: if_splits option.splits)
  obtain v' where v': "sd_from_str sd t = Some \<lparr> ev_s = seq, ev_f = v', ev_g = g \<rparr>" "norm_json v' = norm_json v"
    using serde_facts(5) [OF assms(1) v(5)] by auto
  have "canonical sd v' = Some body" using canonical_same [OF assms(1) v(3)] v'(2) by simp
  moreover have "sd_from_value sd v' = Some f" using serde_facts(2) [OF assms(1) v'(2)] serde_facts(3) [OF assms(1) v(2)] by simp
  moreover have "verify_domain cr spki (direction_domain dir) [session, digits_of seq, body] g"
    using v(4) assms(2) by (auto simp: sign_domain_def verify_domain_def key_ok_def)
  ultimately show ?thesis using v'(1) v(1,6) by (simp add: open_frame_def)
qed

text \<open>C32: A network that delivers gives the reader every sealed frame, and no error.\<close>

theorem channel_delivers:
  assumes "serde_ok sd" "key_ok cr key spki" "sent = write_frames sd cr key dir session 0 fs"
  shows "read_frames sd cr spki dir session 0 (map snd sent) = (map fst sent, None)"
proof -
  have "read_frames sd cr spki dir session n (map snd (write_frames sd cr key dir session n fs)) = (map fst (write_frames sd cr key dir session n fs), None)" for n
  proof (induction fs arbitrary: n)
    case (Cons f fs)
    then show ?case using seal_opens [OF assms(1,2)] by (auto split: sum.splits)
  qed simp
  then show ?thesis using assms(3) by simp
qed

end
