(* ===== verification/Handshake.thy ===== *)
theory Handshake
  imports Envelope_Rules Frames
begin

unbundle bit_operations_syntax

text \<open>
  The attach handshake: the node's side (\<open>attach_as\<close> of \<open>k2-node/src/session.rs\<close>, with its pin of \<open>identity.rs\<close>) and the
  server's (\<open>serve_attach\<close> of \<open>compute_ws.rs\<close>). Each definition is what one side does with one message. A server that starts
  a session knows that the node with the key it stored answered this very challenge.
\<close>

section \<open>PEM and comparison\<close>

fun find_str :: "string \<Rightarrow> string \<Rightarrow> nat option" where
  "find_str pat [] = (if pat = [] then Some 0 else None)"
| "find_str pat (c # s) = (if take (length pat) (c # s) = pat then Some 0 else map_option Suc (find_str pat s))"

definition pem_decode :: "Crypto \<Rightarrow> string \<Rightarrow> string \<Rightarrow> string option" where
  "pem_decode cr label pem =
     (let begin_line = ''-----BEGIN '' @ label @ ''-----''; end_line = ''-----END '' @ label @ ''-----''
      in Option.bind (find_str begin_line pem) (\<lambda>i. let start = i + length begin_line in
         Option.bind (find_str end_line (drop start pem)) (\<lambda>n.
           let body = concat (filter (\<lambda>g. \<not> is_whitespace (seg_cp g)) (segs (take n (drop start pem))))
           in if body = [] then None else cr_unb64 cr body)))"

definition ct_eq :: "string \<Rightarrow> string \<Rightarrow> bool" where
  "ct_eq a b = (if length a \<noteq> length b then False
     else foldl (\<lambda>diff (x, y). diff OR (of_char x XOR of_char y)) (0 :: nat) (zip a b) = 0)"

section \<open>Messages\<close>

record Hello =
  he_node_fp :: string
  he_protocol :: nat
  he_boot_id :: string
  he_ledger_id :: string
  he_nonce_n :: string
  he_node_version :: string

record Challenge =
  ch_controller_fp :: string
  ch_nonce_c :: string
  ch_sig :: string
  ch_protocol :: nat

text \<open>The enrolment messages have no payload here: an attach refuses them all.\<close>

datatype HandshakeFrame = Hs_Hello Hello | Hs_Challenge Challenge | Hs_Proof string
  | Hs_EnrollRequest | Hs_EnrollChallenge | Hs_EnrollProof | Hs_EnrollDone | Hs_Refused string string

definition MIN_PROTOCOL :: nat where "MIN_PROTOCOL = 1"

section \<open>The node\<close>

record Pin =
  pn_controller_fp :: string
  pn_controller_public_key_pem :: string

definition controller_spki :: "Crypto \<Rightarrow> Pin \<Rightarrow> string option" where
  "controller_spki cr pin = Option.bind (pem_decode cr ''PUBLIC KEY'' (pn_controller_public_key_pem pin)) (\<lambda>der.
     case p256_point_from_spki der of
       None \<Rightarrow> None
     | Some _ \<Rightarrow> if fingerprint_of_spki_der cr der \<noteq> pn_controller_fp pin then None else Some der)"

text \<open>The answer to a challenge: a proof, a refusal to pass on, a server that is too old, or an error.\<close>

datatype NodeAnswer = Na_Proof string | Na_Refused string string | Na_TooOld nat | Na_Error

definition node_challenge :: "Crypto \<Rightarrow> SigningKey \<Rightarrow> Pin \<Rightarrow> nat \<Rightarrow> string \<Rightarrow> HandshakeFrame \<Rightarrow> NodeAnswer" where
  "node_challenge cr key pin min_protocol nonce_n frame =
     (case controller_spki cr pin of
        None \<Rightarrow> Na_Error
      | Some spki \<Rightarrow> (case frame of
          Hs_Challenge ch \<Rightarrow>
            if \<not> ct_eq (ch_controller_fp ch) (pn_controller_fp pin) then Na_Error
            else if \<not> verify_domain cr spki DOMAIN_ATTACH_CONTROLLER [nonce_n, fingerprint_of_spki_der cr (sk_spki_der key), ch_nonce_c ch] (ch_sig ch)
            then Na_Error
            else if ch_protocol ch < min_protocol then Na_TooOld (ch_protocol ch)
            else (case sign_domain cr key DOMAIN_ATTACH_NODE [ch_nonce_c ch, pn_controller_fp pin, nonce_n] of
                    None \<Rightarrow> Na_Error
                  | Some g \<Rightarrow> Na_Proof g)
        | Hs_Refused code message \<Rightarrow> Na_Refused code message
        | _ \<Rightarrow> Na_Error))"

datatype 'p AttachOutcome = At_Session string 'p | At_Refused string string | At_Error

text \<open>\<open>has_t\<close> says whether a text is a JSON value with a field \<open>t\<close> (a handshake message), \<open>None\<close> if it is no JSON at all.\<close>

definition node_welcome :: "('s, 'p) JsonCodec \<Rightarrow> Crypto \<Rightarrow> (string \<Rightarrow> bool option) \<Rightarrow> (string \<Rightarrow> HandshakeFrame option) \<Rightarrow> string \<Rightarrow> string \<Rightarrow> string \<Rightarrow> string
    \<Rightarrow> 'p AttachOutcome" where
  "node_welcome sd cr has_t parse_hs spki nonce_n nonce_c text =
     (case has_t text of
        None \<Rightarrow> At_Error
      | Some True \<Rightarrow> (case parse_hs text of Some (Hs_Refused code message) \<Rightarrow> At_Refused code message | _ \<Rightarrow> At_Error)
      | Some False \<Rightarrow> (let session = session_id cr nonce_n nonce_c in
          case open_frame sd cr spki ControllerToNode session 0 text of
            Inr (FK_Welcome, w) \<Rightarrow> At_Session session w
          | _ \<Rightarrow> At_Error))"

section \<open>The server\<close>

record AttachRow =
  ar_id :: string
  ar_fingerprint :: string
  ar_public_key_pem :: string
  ar_state :: string
  ar_enrolled_at :: int

definition latest_node_by_fp :: "AttachRow list \<Rightarrow> string \<Rightarrow> AttachRow option" where
  "latest_node_by_fp rows fp = (case sort_key (\<lambda>r. - ar_enrolled_at r) (filter (\<lambda>r. ar_fingerprint r = fp) rows) of
     [] \<Rightarrow> None | r # _ \<Rightarrow> Some r)"

text \<open>A refusal is its code; \<open>None\<close> ends the connection without one.\<close>

definition attach_hello :: "Crypto \<Rightarrow> SigningKey option \<Rightarrow> AttachRow list \<Rightarrow> HandshakeFrame option \<Rightarrow> string
    \<Rightarrow> string option + (Hello \<times> AttachRow \<times> string \<times> SigningKey \<times> Challenge)" where
  "attach_hello cr controller_key rows frame nonce_c =
     (case frame of
        Some (Hs_Hello hello) \<Rightarrow>
          if he_protocol hello < MIN_PROTOCOL then Inl (Some ''node_upgrade_required'')
          else (case latest_node_by_fp rows (he_node_fp hello) of
            None \<Rightarrow> Inl (Some ''unknown_node'')
          | Some row \<Rightarrow> (case pem_decode cr ''PUBLIC KEY'' (ar_public_key_pem row) of
              None \<Rightarrow> Inl (Some ''unknown_node'')
            | Some node_spki \<Rightarrow> (case controller_key of
                None \<Rightarrow> Inl (Some ''controller_key'')
              | Some key \<Rightarrow> (case sign_domain cr key DOMAIN_ATTACH_CONTROLLER [he_nonce_n hello, he_node_fp hello, nonce_c] of
                  None \<Rightarrow> Inl None
                | Some g \<Rightarrow> Inr (hello, row, node_spki, key,
                    \<lparr> ch_controller_fp = fingerprint_of_spki_der cr (sk_spki_der key), ch_nonce_c = nonce_c, ch_sig = g, ch_protocol = PROTOCOL \<rparr>)))))
      | _ \<Rightarrow> Inl (Some ''protocol_error''))"

definition attach_proof :: "Crypto \<Rightarrow> SigningKey \<Rightarrow> AttachRow \<Rightarrow> string \<Rightarrow> Hello \<Rightarrow> string \<Rightarrow> HandshakeFrame option \<Rightarrow> string option + string" where
  "attach_proof cr key row node_spki hello nonce_c frame =
     (case frame of
        Some (Hs_Proof g) \<Rightarrow>
          if \<not> verify_domain cr node_spki DOMAIN_ATTACH_NODE [nonce_c, fingerprint_of_spki_der cr (sk_spki_der key), he_nonce_n hello] g
          then Inl (Some ''bad_proof'')
          else if ar_state row = ''revoked'' then Inl (Some ''revoked'')
          else if ar_state row = ''pending'' then Inl (Some ''pending_confirmation'')
          else Inr (session_id cr (he_nonce_n hello) nonce_c)
      | _ \<Rightarrow> Inl (Some ''protocol_error''))"

section \<open>Facts\<close>

lemma ct_eq_iff: "ct_eq a b \<longleftrightarrow> a = b"
proof -
  have f: "foldl (\<lambda>diff (x, y). diff OR (of_char x XOR of_char y)) d zs = (0 :: nat) \<longleftrightarrow> d = 0 \<and> (\<forall>(x, y) \<in> set zs. x = y)" for d and zs :: "(char \<times> char) list"
  proof (induction zs arbitrary: d)
    case (Cons z zs)
    have "(u OR (m XOR n) = 0) = (u = 0 \<and> m = n)" for u m n :: nat
      by (auto simp: bit_eq_iff bit_simps)
    then show ?case using Cons.IH by (cases z) simp
  qed simp
  have "list_all2 (=) a b = (a = b)" by (simp add: list.rel_eq)
  then show ?thesis unfolding ct_eq_def f by (auto simp: list_all2_iff)
qed

section \<open>Agreement\<close>

text \<open>The runs a node took part in: its pin, the oldest protocol it takes, its nonce and the challenge it got. Its key signs
  proofs in its runs only, and whatever else under other domains.\<close>

type_synonym NodeRun = "Pin \<times> nat \<times> string \<times> Challenge"

definition answered :: "Crypto \<Rightarrow> SigningKey \<Rightarrow> NodeRun \<Rightarrow> bool" where
  "answered cr key r = (case r of (pin, min_protocol, nonce_n, ch) \<Rightarrow>
     (case node_challenge cr key pin min_protocol nonce_n (Hs_Challenge ch) of Na_Proof _ \<Rightarrow> True | _ \<Rightarrow> False))"

definition node_proofs :: "Crypto \<Rightarrow> SigningKey \<Rightarrow> NodeRun set \<Rightarrow> string set" where
  "node_proofs cr key runs =
     {signed_bytes DOMAIN_ATTACH_NODE [ch_nonce_c ch, pn_controller_fp pin, n] | pin m n ch. (pin, m, n, ch) \<in> runs \<and> answered cr key (pin, m, n, ch)}"

definition other_domains :: "string \<Rightarrow> string set" where
  "other_domains domain = {signed_bytes d ps | d ps. char_of (0 :: nat) \<notin> set d \<and> d \<noteq> domain}"

lemma attach_domain: "char_of (0 :: nat) \<notin> set DOMAIN_ATTACH_NODE"
  by (simp add: DOMAIN_ATTACH_NODE_def char_of_def)

lemma answered_facts:
  assumes "answered cr key (pin, m, n, ch)"
  shows "\<exists>spki. controller_spki cr pin = Some spki \<and> ch_controller_fp ch = pn_controller_fp pin
    \<and> verify_domain cr spki DOMAIN_ATTACH_CONTROLLER [n, fingerprint_of_spki_der cr (sk_spki_der key), ch_nonce_c ch] (ch_sig ch) \<and> m \<le> ch_protocol ch"
  using assms by (auto simp: answered_def node_challenge_def ct_eq_iff split: option.splits if_splits)

text \<open>C16: A server starts a session only with a node it knows, neither revoked nor waiting for its confirmation, whose key
  answered this challenge: the node took part in a run with the same two nonces, for a pin of this server's key, in which
  the server's signature over the node's own nonce and fingerprint verified; both ends derive the same session.\<close>

theorem attach_agreement:
  assumes "attach_hello cr ck rows frame nonce_c = Inr (hello, row, node_spki, key, ch0)"
    "attach_proof cr key row node_spki hello nonce_c proof_frame = Inr session"
    "unforged cr node_spki (node_proofs cr node_key runs \<union> other_domains DOMAIN_ATTACH_NODE)"
    "length (he_nonce_n hello) < 2 ^ 32" "length nonce_c < 2 ^ 32" "length (fingerprint_of_spki_der cr (sk_spki_der key)) < 2 ^ 32"
    "\<forall>(pin, m, n, ch) \<in> runs. length n < 2 ^ 32 \<and> length (pn_controller_fp pin) < 2 ^ 32 \<and> length (ch_nonce_c ch) < 2 ^ 32"
  shows "row \<in> set rows \<and> ar_fingerprint row = he_node_fp hello \<and> ar_state row \<notin> {''revoked'', ''pending''}
    \<and> (\<exists>pin m ch spki. (pin, m, he_nonce_n hello, ch) \<in> runs \<and> ch_nonce_c ch = nonce_c
      \<and> pn_controller_fp pin = fingerprint_of_spki_der cr (sk_spki_der key) \<and> controller_spki cr pin = Some spki
      \<and> verify_domain cr spki DOMAIN_ATTACH_CONTROLLER [he_nonce_n hello, fingerprint_of_spki_der cr (sk_spki_der node_key), nonce_c] (ch_sig ch)
      \<and> session_id cr (he_nonce_n hello) (ch_nonce_c ch) = session)"
proof -
  have row: "latest_node_by_fp rows (he_node_fp hello) = Some row"
    using assms(1) by (auto simp: attach_hello_def split: option.splits HandshakeFrame.splits if_splits)
  then have "row \<in> set (sort_key (\<lambda>r. - ar_enrolled_at r) (filter (\<lambda>r. ar_fingerprint r = he_node_fp hello) rows))"
    unfolding latest_node_by_fp_def by (metis (no_types, lifting) list.case_eq_if list.set_sel(1) option.distinct(1) option.inject)
  then have r: "row \<in> set rows" "ar_fingerprint row = he_node_fp hello" by simp_all
  let ?fp = "fingerprint_of_spki_der cr (sk_spki_der key)" and ?n = "he_nonce_n hello"
  obtain g where g: "verify_domain cr node_spki DOMAIN_ATTACH_NODE [nonce_c, ?fp, ?n] g" "ar_state row \<notin> {''revoked'', ''pending''}"
    "session = session_id cr ?n nonce_c"
    using assms(2) by (auto simp: attach_proof_def split: option.splits HandshakeFrame.splits if_splits)
  have "signed_bytes DOMAIN_ATTACH_NODE [nonce_c, ?fp, ?n] \<notin> other_domains DOMAIN_ATTACH_NODE"
    using signed_split(1) [OF _ attach_domain] unfolding other_domains_def mem_Collect_eq by blast
  then have "signed_bytes DOMAIN_ATTACH_NODE [nonce_c, ?fp, ?n] \<in> node_proofs cr node_key runs"
    using assms(3) g(1) unfolding unforged_def verify_domain_def by blast
  then obtain pin m n ch where p: "(pin, m, n, ch) \<in> runs" "answered cr node_key (pin, m, n, ch)"
    "signed_bytes DOMAIN_ATTACH_NODE [nonce_c, ?fp, ?n] = signed_bytes DOMAIN_ATTACH_NODE [ch_nonce_c ch, pn_controller_fp pin, n]"
    unfolding node_proofs_def mem_Collect_eq by blast
  have "\<forall>p \<in> set [nonce_c, ?fp, ?n]. length p < 2 ^ 32" "\<forall>p \<in> set [ch_nonce_c ch, pn_controller_fp pin, n]. length p < 2 ^ 32"
    using assms(4-7) p(1) by auto
  from signed_bytes_inject [OF attach_domain attach_domain this] p(3)
  have e: "nonce_c = ch_nonce_c ch" "?fp = pn_controller_fp pin" "?n = n" by simp_all
  obtain spki where "controller_spki cr pin = Some spki"
    "verify_domain cr spki DOMAIN_ATTACH_CONTROLLER [n, fingerprint_of_spki_der cr (sk_spki_der node_key), ch_nonce_c ch] (ch_sig ch)"
    using answered_facts [OF p(2)] by blast
  then show ?thesis using r g(2,3) p(1) e by metis
qed

end
