(* ===== verification/Channel_Cases.thy ===== *)
theory Channel_Cases
  imports Handshake "HOL-Library.Code_Target_Numeral"
begin

text \<open>A small JSON, a key and a handshake on which the properties of \<open>Canonical\<close>, \<open>Envelope_Rules\<close> and \<open>Handshake\<close> are exercised.\<close>

section \<open>A small JSON\<close>

definition ex_scalar :: "bool \<Rightarrow> string option" where
  "ex_scalar b = Some (if b then ''true'' else ''false'')"

definition ex_key :: "string \<Rightarrow> string option" where
  "ex_key k = (if k = ''a'' then Some [CHR 34, CHR ''a'', CHR 34] else if k = ''x'' then Some [CHR 34, CHR ''x'', CHR 34] else None)"

lemma ex_tokens: "tokens_ok ex_scalar ex_key"
  unfolding tokens_ok_def ex_scalar_def ex_key_def by auto

lemma canonical_exact_witness:
  "write_value ex_scalar ex_key (J_Object [(''a'', J_Array [J_Scalar False]), (''x'', J_Scalar True)])
    = Some [CHR ''{'', CHR 34, CHR ''a'', CHR 34, CHR '':'', CHR ''['', CHR ''f'', CHR ''a'', CHR ''l'', CHR ''s'', CHR ''e'', CHR '']'', CHR '','',
        CHR 34, CHR ''x'', CHR 34, CHR '':'', CHR ''t'', CHR ''r'', CHR ''u'', CHR ''e'', CHR ''}'']"
  (is "?w = Some ?t")
proof -
  have "write_value ex_scalar ex_key (J_Object [(''x'', J_Scalar True), (''a'', J_Array [J_Scalar False])]) = Some ?t" by code_simp
  moreover have "norm_json (J_Object [(''x'', J_Scalar True), (''a'', J_Array [J_Scalar False])])
      = norm_json (J_Object [(''a'', J_Array [J_Scalar False]), (''x'', J_Scalar True)])" by code_simp
  ultimately show ?thesis using canonical_exact [OF ex_tokens] by blast
qed

section \<open>A session of one frame\<close>

fun ex_frame_of :: "bool Json \<Rightarrow> bool Frame option" where
  "ex_frame_of (J_Object [(k, J_Scalar b)]) = (if k = ''x'' then Some (FK_State, b) else None)"
| "ex_frame_of v = None"

fun ex_text_of :: "bool Json \<Rightarrow> nat \<Rightarrow> string \<Rightarrow> string option" where
  "ex_text_of (J_Object [(k, J_Scalar b)]) n g = (if k = ''x'' \<and> n < 2 ^ 64 then Some ((if b then CHR ''t'' else CHR ''f'') # digits_of n @ '' '' @ g) else None)"
| "ex_text_of v n g = None"

definition ex_read :: "string \<Rightarrow> bool Envelope option" where
  "ex_read t = (case t of [] \<Rightarrow> None | c # s \<Rightarrow> (case split_once (CHR '' '') s of
     None \<Rightarrow> None
   | Some (d, g) \<Rightarrow> (case parse_unsigned (2 ^ 64 - 1) d of
       None \<Rightarrow> None
     | Some n \<Rightarrow> Some \<lparr> ev_s = n, ev_f = J_Object [(''x'', J_Scalar (c = CHR ''t''))], ev_g = g \<rparr>)))"

definition ex_serde :: "(bool, bool) JsonCodec" where
  "ex_serde = \<lparr> sd_scalar = ex_scalar, sd_key = ex_key,
     sd_to_value = (\<lambda>f. if fst f = FK_State then Some (J_Object [(''x'', J_Scalar (snd f))]) else None),
     sd_from_value = (\<lambda>v. ex_frame_of (norm_json v)), sd_to_string = (\<lambda>e. ex_text_of (ev_f e) (ev_s e) (ev_g e)), sd_from_str = ex_read \<rparr>"

lemma ex_read_text: "ex_text_of v n g = Some t \<Longrightarrow> \<exists>b. v = J_Object [(''x'', J_Scalar b)] \<and> ex_read t = Some \<lparr> ev_s = n, ev_f = v, ev_g = g \<rparr>"
proof (induction v n g rule: ex_text_of.induct)
  case (1 k b n g)
  have "CHR '' '' \<notin> set (digits_of n)"
    using digits_of_digits [of n] by (auto simp: list_all_iff is_ascii_digit_def byte_def)
  then have sp: "split_once (CHR '' '') (digits_of n @ CHR '' '' # g) = Some (digits_of n, g)" by (simp add: split_once_Some_iff)
  have n: "n < 2 ^ 64" "k = ''x''" "t = (if b then CHR ''t'' else CHR ''f'') # digits_of n @ '' '' @ g" using 1 by (simp_all split: if_splits)
  have "parse_unsigned (2 ^ 64 - 1) (digits_of n) = Some n" using n(1) by (intro parse_digits_of) simp
  then show ?case using sp n(2,3) by (simp add: ex_read_def)
qed simp_all

lemma ex_serde_ok: "serde_ok ex_serde"
proof -
  have "ex_frame_of (norm_json v) = Some f" if "sd_to_value ex_serde f = Some v" for f v
    using that by (cases f) (auto simp: ex_serde_def split: if_splits)
  moreover have "\<exists>v. ex_read t = Some (e \<lparr> ev_f := v \<rparr>) \<and> norm_json v = norm_json (ev_f e)" if "ex_text_of (ev_f e) (ev_s e) (ev_g e) = Some t" for e t
    using ex_read_text [OF that] by (intro exI [of _ "ev_f e"]) auto
  moreover have "ev_s e < 2 ^ 64" if "ex_read t = Some e" for t e
    using that by (auto simp: ex_read_def dest!: parse_unsigned_bound split: list.splits option.splits prod.splits)
  ultimately show ?thesis using ex_tokens unfolding serde_ok_def by (auto simp: ex_serde_def)
qed

definition ex_spki :: "char \<Rightarrow> string" where
  "ex_spki c = P256_SPKI_PREFIX @ char_of (4 :: nat) # replicate 64 c"

definition ex_sealed :: string where
  "ex_sealed = signed_bytes DOMAIN_FRAME_N2C [''s'', ''0'', [CHR ''{'', CHR 34, CHR ''x'', CHR 34, CHR '':'', CHR ''t'', CHR ''r'', CHR ''u'', CHR ''e'', CHR ''}'']]"

text \<open>A signature scheme in which the key of \<open>ex_spki\<close> has signed one frame.\<close>

definition ex_crypto :: Crypto where
  "ex_crypto = \<lparr> cr_b64 = (\<lambda>s. s), cr_unb64 = Some, cr_sha256_hex = (\<lambda>s. s), cr_verify = (\<lambda>point m s. m = ex_sealed) \<rparr>"

definition ex_signer :: SigningKey where
  "ex_signer = \<lparr> sk_sign = (\<lambda>m. if m = ex_sealed then Some ''g'' else None), sk_spki_der = ex_spki CHR ''a'' \<rparr>"

lemma ex_point: "p256_point_from_spki (ex_spki c) = Some (char_of (4 :: nat) # replicate 64 c)"
  by (simp add: p256_point_from_spki_def ex_spki_def P256_SPKI_PREFIX_def)

lemma ex_digit: "digits_of 0 = ''0''"
  by code_simp

definition ex_body :: string where
  "ex_body = [CHR ''{'', CHR 34, CHR ''x'', CHR 34, CHR '':'', CHR ''t'', CHR ''r'', CHR ''u'', CHR ''e'', CHR ''}'']"

lemma ex_value: "sd_to_value ex_serde (FK_State, True) = Some (J_Object [(''x'', J_Scalar True)])"
    "canonical ex_serde (J_Object [(''x'', J_Scalar True)]) = Some ex_body"
    "sd_to_string ex_serde \<lparr> ev_s = 0, ev_f = J_Object [(''x'', J_Scalar True)], ev_g = ''g'' \<rparr> = Some ''t0 g''"
  by (simp_all add: canonical_def ex_serde_def ex_scalar_def ex_key_def ex_body_def ex_digit)

lemma ex_sign: "sign_domain ex_crypto ex_signer DOMAIN_FRAME_N2C [''s'', ''0'', ex_body] = Some ''g''"
  by (simp add: sign_domain_def ex_signer_def ex_crypto_def ex_sealed_def ex_body_def)

lemma ex_sent: "write_frames ex_serde ex_crypto ex_signer NodeToController ''s'' 0 [(FK_Welcome, True), (FK_State, True)] = [((FK_State, True), ''t0 g'')]"
  by (simp add: seal_def frame_direction_def ex_value ex_sign ex_digit MAX_FRAME_BYTES_def)

lemma channel_prefix_witness:
  "\<exists>n \<le> 1. fst (read_frames ex_serde ex_crypto (ex_spki CHR ''a'') NodeToController ''s'' 0 [''t0 g'', ''t0 g'', ''f1 g'']) = take n [(FK_State, True)]"
proof -
  let ?sent = "[((FK_State, True), ''t0 g'')]"
  have "ex_sealed \<in> session_messages ex_serde NodeToController ''s'' ?sent"
    unfolding session_messages_def ex_sealed_def
    by (intro CollectI exI [of _ "0 :: nat"] exI [of _ ex_body]) (simp add: ex_value ex_digit ex_body_def)
  then have "unforged ex_crypto (ex_spki CHR ''a'') (session_messages ex_serde NodeToController ''s'' ?sent \<union> other_messages NodeToController ''s'')"
    by (simp add: unforged_def verify_bytes_def ex_point ex_crypto_def)
  from channel_prefix [OF ex_serde_ok _ ex_sent [symmetric] this, of "[''t0 g'', ''t0 g'', ''f1 g'']"] show ?thesis
    by (simp add: take_map [symmetric] del: read_frames.simps)
qed

lemma channel_delivers_witness:
  "read_frames ex_serde ex_crypto (ex_spki CHR ''a'') NodeToController ''s'' 0 [''t0 g''] = ([(FK_State, True)], None)"
proof -
  have "key_ok ex_crypto ex_signer (ex_spki CHR ''a'')"
    by (simp add: key_ok_def ex_signer_def ex_crypto_def verify_bytes_def ex_point)
  from channel_delivers [OF ex_serde_ok this ex_sent [symmetric]] show ?thesis by simp
qed

section \<open>A handshake\<close>

text \<open>The server's key is \<open>ex_spki CHR ''c''\<close>, the node's \<open>ex_spki CHR ''a''\<close>; each signed its message of one run.\<close>

definition ex_proof :: string where
  "ex_proof = signed_bytes DOMAIN_ATTACH_NODE [''nc'', ex_spki CHR ''c'', ''nn'']"

definition ex_hands :: Crypto where
  "ex_hands = \<lparr> cr_b64 = (\<lambda>s. s), cr_unb64 = (\<lambda>s. Some (if s = ''C'' then ex_spki CHR ''c'' else if s = ''N'' then ex_spki CHR ''a'' else s)),
     cr_sha256_hex = (\<lambda>s. s), cr_verify = (\<lambda>point m s. if point = drop 26 (ex_spki CHR ''a'') then m = ex_proof
       else m = signed_bytes DOMAIN_ATTACH_CONTROLLER [''nn'', ex_spki CHR ''a'', ''nc'']) \<rparr>"

definition ex_controller :: SigningKey where
  "ex_controller = \<lparr> sk_sign = (\<lambda>m. Some ''c''), sk_spki_der = ex_spki CHR ''c'' \<rparr>"

definition ex_node :: SigningKey where
  "ex_node = \<lparr> sk_sign = (\<lambda>m. if m = ex_proof then Some ''p'' else None), sk_spki_der = ex_spki CHR ''a'' \<rparr>"

definition ex_pin :: Pin where
  "ex_pin = \<lparr> pn_controller_fp = ex_spki CHR ''c'', pn_controller_public_key_pem = ''-----BEGIN PUBLIC KEY-----C-----END PUBLIC KEY-----'' \<rparr>"

definition ex_rows :: "AttachRow list" where
  "ex_rows = [\<lparr> ar_id = ''n1'', ar_fingerprint = ex_spki CHR ''a'', ar_public_key_pem = ''-----BEGIN PUBLIC KEY-----N-----END PUBLIC KEY-----'',
     ar_state = ''active'', ar_enrolled_at = 5 \<rparr>]"

definition ex_hello :: Hello where
  "ex_hello = \<lparr> he_node_fp = ex_spki CHR ''a'', he_protocol = 8, he_boot_id = ''b'', he_ledger_id = ''l'', he_nonce_n = ''nn'', he_node_version = ''1'' \<rparr>"

definition ex_challenge :: Challenge where
  "ex_challenge = \<lparr> ch_controller_fp = ex_spki CHR ''c'', ch_nonce_c = ''nc'', ch_sig = ''c'', ch_protocol = PROTOCOL \<rparr>"

lemma ex_pem: "pem_decode ex_hands ''PUBLIC KEY'' ''-----BEGIN PUBLIC KEY-----C-----END PUBLIC KEY-----'' = Some (ex_spki CHR ''c'')"
    "pem_decode ex_hands ''PUBLIC KEY'' ''-----BEGIN PUBLIC KEY-----N-----END PUBLIC KEY-----'' = Some (ex_spki CHR ''a'')"
  by code_simp+

lemma ex_hello_answer: "attach_hello ex_hands (Some ex_controller) ex_rows (Some (Hs_Hello ex_hello)) ''nc''
    = Inr (ex_hello, hd ex_rows, ex_spki CHR ''a'', ex_controller, ex_challenge)"
  by (simp add: attach_hello_def ex_hello_def MIN_PROTOCOL_def latest_node_by_fp_def ex_rows_def ex_pem sign_domain_def ex_controller_def ex_challenge_def
      fingerprint_of_spki_der_def) (simp add: ex_hands_def)

lemma ex_apart: "drop 26 (ex_spki c) = char_of (4 :: nat) # replicate 64 c"
  by (simp add: ex_spki_def P256_SPKI_PREFIX_def)

lemma ex_answered: "answered ex_hands ex_node (ex_pin, 0, ''nn'', ex_challenge)"
proof -
  have "controller_spki ex_hands ex_pin = Some (ex_spki CHR ''c'')"
    by (simp add: controller_spki_def ex_pin_def ex_pem ex_point fingerprint_of_spki_der_def) (simp add: ex_hands_def)
  moreover have "verify_domain ex_hands (ex_spki CHR ''c'') DOMAIN_ATTACH_CONTROLLER [''nn'', ex_spki CHR ''a'', ''nc''] ''c''"
    by (simp add: verify_domain_def verify_bytes_def ex_point) (simp add: ex_hands_def ex_apart)
  ultimately show ?thesis
    by (simp add: answered_def node_challenge_def ct_eq_iff ex_challenge_def ex_node_def fingerprint_of_spki_der_def sign_domain_def ex_proof_def ex_pin_def)
      (simp add: ex_hands_def)
qed

lemma attach_agreement_witness:
  "\<exists>pin m ch spki. (pin, m, he_nonce_n ex_hello, ch) \<in> {(ex_pin, 0, ''nn'', ex_challenge)} \<and> controller_spki ex_hands pin = Some spki
    \<and> session_id ex_hands (he_nonce_n ex_hello) (ch_nonce_c ch) = session_id ex_hands ''nn'' ''nc''"
proof -
  have fp: "fingerprint_of_spki_der ex_hands (sk_spki_der ex_controller) = ex_spki CHR ''c''"
    by (simp add: fingerprint_of_spki_der_def ex_controller_def ex_hands_def)
  have v: "verify_bytes ex_hands (ex_spki CHR ''a'') m g \<longleftrightarrow> m = ex_proof" for m g
    by (simp add: verify_bytes_def ex_point) (simp add: ex_hands_def ex_apart)
  have p: "attach_proof ex_hands ex_controller (hd ex_rows) (ex_spki CHR ''a'') ex_hello ''nc'' (Some (Hs_Proof ''p'')) = Inr (session_id ex_hands ''nn'' ''nc'')"
    by (simp add: attach_proof_def verify_domain_def v fp ex_rows_def ex_hello_def ex_proof_def)
  have "ex_proof \<in> node_proofs ex_hands ex_node {(ex_pin, 0, ''nn'', ex_challenge)}"
    using ex_answered unfolding node_proofs_def ex_proof_def mem_Collect_eq
    by (intro exI [of _ ex_pin] exI [of _ 0] exI [of _ "''nn''"] exI [of _ ex_challenge]) (simp add: ex_pin_def ex_challenge_def)
  then have u: "unforged ex_hands (ex_spki CHR ''a'') (node_proofs ex_hands ex_node {(ex_pin, 0, ''nn'', ex_challenge)} \<union> other_domains DOMAIN_ATTACH_NODE)"
    by (simp add: unforged_def v)
  have l: "length (ex_spki c) = 91" for c by (simp add: ex_spki_def P256_SPKI_PREFIX_def)
  from attach_agreement [OF ex_hello_answer p u] show ?thesis
    by (simp add: fp l ex_hello_def ex_pin_def ex_challenge_def) metis
qed

end
