(* ===== verification/Artifact_Walk.thy ===== *)
theory Artifact_Walk
  imports Globs Results
begin

text \<open>
  Finding a job's artifacts (\<open>k2-node/src/artifacts.rs\<close>: \<open>walk\<close>, \<open>matches\<close>). The file system is a tree as
  \<open>read_dir\<close> and \<open>symlink_metadata\<close> show it while the walk runs: regular files with their bytes, directories (one that
  can't be listed gives nothing) with their entries in the order the system lists them, and anything else, symlinks
  included. A \<open>PathBuf\<close> is the list of its components. Names are UTF-8. The walk is proved to find exactly the
  files a declarative relation describes, as long as it is not stopped by its cap.
\<close>

section \<open>The tree\<close>

datatype FsNode = Fs_File string | Fs_Dir bool "(string \<times> FsNode) list" | Fs_Other

fun fs_entry :: "FsNode \<Rightarrow> string \<Rightarrow> FsNode option" where
  "fs_entry (Fs_Dir r es) n = map_of es n"
| "fs_entry _ n = None"

fun is_dir :: "FsNode \<Rightarrow> bool" where
  "is_dir (Fs_Dir r es) \<longleftrightarrow> True"
| "is_dir _ \<longleftrightarrow> False"

text \<open>\<open>read_dir\<close>.\<close>

fun listing :: "FsNode \<Rightarrow> (string \<times> FsNode) list" where
  "listing (Fs_Dir True es) = es"
| "listing _ = []"

fun fs_size :: "FsNode \<Rightarrow> nat" where
  "fs_size (Fs_Dir r es) = Suc (sum_list (map (\<lambda>e. Suc (fs_size (snd e))) es))"
| "fs_size _ = 0"

definition es_size :: "(string \<times> FsNode) list \<Rightarrow> nat" where
  "es_size es = sum_list (map (\<lambda>e. Suc (fs_size (snd e))) es)"

lemma es_size_simps [simp]: "es_size [] = 0" "es_size (e # es) = Suc (fs_size (snd e) + es_size es)"
  by (simp_all add: es_size_def)

lemma fs_size_dir [simp]: "fs_size (Fs_Dir r es) = Suc (es_size es)"
  by (simp add: es_size_def)

declare fs_size.simps(1) [simp del]

lemma es_size_mset: "mset xs = mset ys \<Longrightarrow> es_size xs = es_size ys"
  by (metis es_size_def mset_map sum_mset_sum_list)

lemma map_of_size: "map_of es n = Some m \<Longrightarrow> fs_size m < es_size es"
  by (induction es) (auto split: if_splits)

lemma entry_size: "fs_entry node n = Some m \<Longrightarrow> fs_size m < fs_size node"
  by (cases node) (auto dest: map_of_size simp: less_Suc_eq)

lemma listing_size: "es_size (listing node) \<le> fs_size node"
  by (cases node rule: listing.cases) auto

section \<open>The walk\<close>

definition MAX_VISITS :: nat where "MAX_VISITS = 200000"

record Hit =
  h_name :: string
  h_path :: "string list"
  h_bytes :: nat

type_synonym Walked = "Hit list \<times> nat"

definition join_name :: "string \<Rightarrow> string \<Rightarrow> string" where
  "join_name p n = (if p = [] then n else p @ ''/'' @ n)"

text \<open>A regular file becomes a hit; the size is that of its metadata.\<close>

fun push_file :: "FsNode \<Rightarrow> string \<Rightarrow> string list \<Rightarrow> Hit list \<Rightarrow> Hit list" where
  "push_file (Fs_File b) name path out = out @ [\<lparr> h_name = name, h_path = path, h_bytes = length b \<rparr>]"
| "push_file _ name path out = out"

text \<open>\<open>walk\<close> on a directory; \<open>walk_deep\<close> is its loop for a double star, \<open>walk_here\<close> the one for a segment with
  wildcards.\<close>

function walk :: "string list \<Rightarrow> FsNode \<Rightarrow> string list \<Rightarrow> string \<Rightarrow> Walked \<Rightarrow> Walked"
  and walk_deep :: "string list \<Rightarrow> (string \<times> FsNode) list \<Rightarrow> string list \<Rightarrow> string \<Rightarrow> Walked \<Rightarrow> Walked"
  and walk_here :: "string \<Rightarrow> string list \<Rightarrow> (string \<times> FsNode) list \<Rightarrow> string list \<Rightarrow> string \<Rightarrow> Walked \<Rightarrow> Walked" where
  "walk ss node dir prefix st =
     (if MAX_VISITS \<le> snd st then st
      else (case ss of
        [] \<Rightarrow> st
      | seg # rest \<Rightarrow>
          if seg = ''**'' then walk_deep ss (listing node) dir prefix (walk rest node dir prefix st)
          else if is_literal seg then
            (let st1 = (fst st, snd st + 1)
             in case fs_entry node seg of
                  None \<Rightarrow> st1
                | Some m \<Rightarrow>
                    if rest = [] then (push_file m (join_name prefix seg) (dir @ [seg]) (fst st1), snd st1)
                    else if is_dir m then walk rest m (dir @ [seg]) (join_name prefix seg) st1
                    else st1)
          else walk_here seg rest (sort_key fst (listing node)) dir prefix st))"
| "walk_deep ss [] dir prefix st = st"
| "walk_deep ss ((name, m) # es) dir prefix st =
     (let st1 = (fst st, snd st + 1)
      in if MAX_VISITS \<le> snd st1 then st1
         else walk_deep ss es dir prefix
                (if is_dir m \<and> \<not> starts_with name ''.'' then walk ss m (dir @ [name]) (join_name prefix name) st1 else st1))"
| "walk_here seg rest [] dir prefix st = st"
| "walk_here seg rest ((name, m) # es) dir prefix st =
     (let st1 = (fst st, snd st + 1)
      in if MAX_VISITS \<le> snd st1 then st1
         else walk_here seg rest es dir prefix
                (if \<not> segment_match seg name then st1
                 else if rest = [] then (push_file m (join_name prefix name) (dir @ [name]) (fst st1), snd st1)
                 else if is_dir m then walk rest m (dir @ [name]) (join_name prefix name) st1
                 else st1))"
  by pat_completeness auto

termination
proof (relation "measures [\<lambda>x. case x of Inl (ss, node, _) \<Rightarrow> fs_size node | Inr (Inl (ss, es, _)) \<Rightarrow> es_size es
      | Inr (Inr (seg, rest, es, _)) \<Rightarrow> es_size es,
    \<lambda>x. case x of Inl (ss, node, _) \<Rightarrow> Suc (length ss) | Inr (Inl (ss, es, _)) \<Rightarrow> 0 | Inr (Inr (seg, rest, es, _)) \<Rightarrow> 0]",
    goal_cases)
  case (3 ss node dir prefix st seg rest)
  then show ?case using listing_size [of node] by (auto simp: le_less)
next
  case (5 ss node dir prefix st seg rest)
  have "es_size (sort_key fst (listing node)) = es_size (listing node)" by (rule es_size_mset) simp
  then show ?case using listing_size [of node] by (auto simp: le_less)
qed (auto dest: entry_size)

declare walk.simps [simp del]

section \<open>What the walk finds\<close>

definition hit_of :: "string list \<Rightarrow> string \<Rightarrow> string list \<Rightarrow> string \<Rightarrow> Hit" where
  "hit_of dir prefix n b = \<lparr> h_name = foldl join_name prefix n, h_path = dir @ n, h_bytes = length b \<rparr>"

definition hidden :: "string \<Rightarrow> bool" where "hidden x \<longleftrightarrow> starts_with x ''.''"

text \<open>\<open>found ss node n b\<close>: under the directory \<open>node\<close> the segments lead to the regular file at \<open>n\<close> with the bytes
  \<open>b\<close>.\<close>

inductive found :: "string list \<Rightarrow> FsNode \<Rightarrow> string list \<Rightarrow> string \<Rightarrow> bool" where
  found_name: "is_literal s \<Longrightarrow> fs_entry node s = Some (Fs_File b) \<Longrightarrow> found [s] node [s] b"
| found_dir: "is_literal s \<Longrightarrow> fs_entry node s = Some m \<Longrightarrow> is_dir m \<Longrightarrow> p \<noteq> [] \<Longrightarrow> found p m n b \<Longrightarrow> found (s # p) node (s # n) b"
| found_wild: "s \<noteq> ''**'' \<Longrightarrow> \<not> is_literal s \<Longrightarrow> (x, Fs_File b) \<in> set (listing node) \<Longrightarrow> segment_match s x \<Longrightarrow> found [s] node [x] b"
| found_wild_dir: "s \<noteq> ''**'' \<Longrightarrow> \<not> is_literal s \<Longrightarrow> (x, m) \<in> set (listing node) \<Longrightarrow> segment_match s x \<Longrightarrow> is_dir m \<Longrightarrow> p \<noteq> []
    \<Longrightarrow> found p m n b \<Longrightarrow> found (s # p) node (x # n) b"
| found_zero: "found p node n b \<Longrightarrow> found (''**'' # p) node n b"
| found_deep: "(x, m) \<in> set (listing node) \<Longrightarrow> is_dir m \<Longrightarrow> \<not> hidden x \<Longrightarrow> found (''**'' # p) m n b \<Longrightarrow> found (''**'' # p) node (x # n) b"

inductive_cases found_NilE: "found [] node n b"
inductive_cases found_ConsE: "found (s # p) node n b"

lemma not_literal_stars: "\<not> is_literal ''**''" by (simp add: is_literal_def)

text \<open>How a file goes on below an entry that matched.\<close>

definition leads :: "string list \<Rightarrow> FsNode \<Rightarrow> string list \<Rightarrow> string \<Rightarrow> bool" where
  "leads p m n b \<longleftrightarrow> (if p = [] then n = [] \<and> m = Fs_File b else is_dir m \<and> found p m n b)"

lemma found_literal:
  "is_literal s \<Longrightarrow> found (s # p) node n b \<longleftrightarrow> (\<exists>m n'. n = s # n' \<and> fs_entry node s = Some m \<and> leads p m n' b)"
  by (subst found.simps) (use not_literal_stars in \<open>auto simp: leads_def split: if_splits\<close>)

lemma found_wildcard:
  "\<not> is_literal s \<Longrightarrow> s \<noteq> ''**'' \<Longrightarrow> found (s # p) node n b
     \<longleftrightarrow> (\<exists>x m n'. n = x # n' \<and> (x, m) \<in> set (listing node) \<and> segment_match s x \<and> leads p m n' b)"
  by (subst found.simps) (auto simp: leads_def split: if_splits)

lemma found_stars:
  "found (''**'' # p) node n b \<longleftrightarrow> found p node n b
     \<or> (\<exists>x m n'. n = x # n' \<and> (x, m) \<in> set (listing node) \<and> \<not> hidden x \<and> is_dir m \<and> found (''**'' # p) m n' b)"
  by (subst found.simps) (use not_literal_stars in auto)

text \<open>The hits below a directory, and what one entry of it adds.\<close>

definition hits :: "string list \<Rightarrow> FsNode \<Rightarrow> string list \<Rightarrow> string \<Rightarrow> Hit set" where
  "hits ss node dir prefix = {hit_of dir prefix n b |n b. found ss node n b}"

definition lead_hits :: "string list \<Rightarrow> (string \<times> FsNode) \<Rightarrow> string list \<Rightarrow> string \<Rightarrow> Hit set" where
  "lead_hits rest e dir prefix = {hit_of dir prefix (fst e # n) b |n b. leads rest (snd e) n b}"

definition here_hits :: "string \<Rightarrow> string list \<Rightarrow> (string \<times> FsNode) \<Rightarrow> string list \<Rightarrow> string \<Rightarrow> Hit set" where
  "here_hits seg rest e dir prefix = (if segment_match seg (fst e) then lead_hits rest e dir prefix else {})"

definition deep_hits :: "string list \<Rightarrow> (string \<times> FsNode) \<Rightarrow> string list \<Rightarrow> string \<Rightarrow> Hit set" where
  "deep_hits ss e dir prefix = (if is_dir (snd e) \<and> \<not> hidden (fst e)
     then hits ss (snd e) (dir @ [fst e]) (join_name prefix (fst e)) else {})"

lemma hits_Nil [simp]: "hits [] node dir prefix = {}"
  by (auto simp: hits_def elim: found_NilE)

lemma hit_of_Cons: "hit_of (dir @ [x]) (join_name prefix x) n b = hit_of dir prefix (x # n) b"
  by (simp add: hit_of_def)

lemma lead_hits_simps:
  "lead_hits [] (x, m) dir prefix = (case m of Fs_File b \<Rightarrow> {hit_of dir prefix [x] b} | _ \<Rightarrow> {})"
  "rest \<noteq> [] \<Longrightarrow> lead_hits rest (x, m) dir prefix
     = (if is_dir m then hits rest m (dir @ [x]) (join_name prefix x) else {})"
  by (auto simp: lead_hits_def leads_def hits_def hit_of_Cons split: FsNode.splits)

lemma hits_literal:
  assumes "is_literal seg"
  shows "hits (seg # rest) node dir prefix
     = (case fs_entry node seg of None \<Rightarrow> {} | Some m \<Rightarrow> lead_hits rest (seg, m) dir prefix)"
  unfolding hits_def lead_hits_def found_literal [OF assms] by (cases "fs_entry node seg") auto

lemma hits_wild:
  assumes "\<not> is_literal seg" "seg \<noteq> ''**''"
  shows "hits (seg # rest) node dir prefix = (\<Union>e \<in> set (listing node). here_hits seg rest e dir prefix)"
proof (intro set_eqI iffI)
  fix h assume "h \<in> hits (seg # rest) node dir prefix"
  then obtain x m n b where "h = hit_of dir prefix (x # n) b" "(x, m) \<in> set (listing node)" "segment_match seg x" "leads rest m n b"
    unfolding hits_def found_wildcard [OF assms] by blast
  then show "h \<in> (\<Union>e \<in> set (listing node). here_hits seg rest e dir prefix)"
    by (intro UN_I [of "(x, m)"]) (auto simp: here_hits_def lead_hits_def)
next
  fix h assume "h \<in> (\<Union>e \<in> set (listing node). here_hits seg rest e dir prefix)"
  then show "h \<in> hits (seg # rest) node dir prefix"
    unfolding hits_def found_wildcard [OF assms] by (fastforce simp: here_hits_def lead_hits_def split: if_splits)
qed

lemma hits_deep:
  "hits (''**'' # rest) node dir prefix
     = hits rest node dir prefix \<union> (\<Union>e \<in> set (listing node). deep_hits (''**'' # rest) e dir prefix)"
    (is "?l = ?r")
proof (intro set_eqI iffI)
  fix h assume "h \<in> ?l"
  then obtain n b where h: "h = hit_of dir prefix n b" "found (''**'' # rest) node n b" unfolding hits_def by blast
  from h(2) [unfolded found_stars [of rest node]] consider "found rest node n b"
    | x m n' where "n = x # n'" "(x, m) \<in> set (listing node)" "\<not> hidden x" "is_dir m" "found (''**'' # rest) m n' b" by blast
  then show "h \<in> ?r"
  proof cases
    case 1
    then show ?thesis using h(1) by (auto simp: hits_def)
  next
    case (2 x m n')
    then have "h \<in> deep_hits (''**'' # rest) (x, m) dir prefix" using h(1) by (auto simp: deep_hits_def hits_def hit_of_Cons)
    then show ?thesis using 2(2) by blast
  qed
next
  fix h assume "h \<in> ?r"
  then show "h \<in> ?l"
  proof
    assume "h \<in> hits rest node dir prefix"
    then show ?thesis by (auto simp: hits_def intro: found_zero)
  next
    assume "h \<in> (\<Union>e \<in> set (listing node). deep_hits (''**'' # rest) e dir prefix)"
    then obtain x m n b where "(x, m) \<in> set (listing node)" "is_dir m" "\<not> hidden x" "found (''**'' # rest) m n b" "h = hit_of dir prefix (x # n) b"
      by (auto simp: deep_hits_def hits_def hit_of_Cons split: if_splits)
    then show ?thesis by (auto simp: hits_def intro!: exI [of _ "x # n"] found_deep)
  qed
qed

text \<open>A part of the walk adds hits out of \<open>H\<close>, and all of them unless it reached the cap.\<close>

definition adds :: "Walked \<Rightarrow> Walked \<Rightarrow> Hit set \<Rightarrow> bool" where
  "adds st r H \<longleftrightarrow> snd st \<le> snd r \<and> set (fst r) \<subseteq> set (fst st) \<union> H
     \<and> (snd r < MAX_VISITS \<longrightarrow> set (fst r) = set (fst st) \<union> H)"

lemma adds_none: "snd st \<le> snd r \<Longrightarrow> fst r = fst st \<Longrightarrow> adds st r {}"
  by (simp add: adds_def)

lemma adds_capped: "snd st \<le> snd r \<Longrightarrow> MAX_VISITS \<le> snd r \<Longrightarrow> fst r = fst st \<Longrightarrow> adds st r H"
  by (auto simp: adds_def)

lemma adds_trans: "adds st r H \<Longrightarrow> adds r t K \<Longrightarrow> adds st t (H \<union> K)"
  unfolding adds_def by (auto 0 3)

lemma adds_later: "adds (fst st, v) r H \<Longrightarrow> snd st \<le> v \<Longrightarrow> adds st r H"
  by (simp add: adds_def)

lemma adds_push: "adds st (push_file m (join_name prefix x) (dir @ [x]) (fst st), Suc (snd st)) (lead_hits [] (x, m) dir prefix)"
  by (cases m) (auto simp: adds_def lead_hits_simps hit_of_def)

lemma adds_lead:
  assumes "rest \<noteq> [] \<Longrightarrow> is_dir m \<Longrightarrow> adds (fst st, Suc (snd st)) r (hits rest m (dir @ [x]) (join_name prefix x))"
  shows "adds st (if rest = [] then (push_file m (join_name prefix x) (dir @ [x]) (fst st), Suc (snd st))
      else if is_dir m then r else (fst st, Suc (snd st))) (lead_hits rest (x, m) dir prefix)"
proof (cases "rest = []")
  case True
  then show ?thesis using adds_push [of st m prefix x dir] by simp
next
  case False
  then show ?thesis using assms by (auto simp: lead_hits_simps(2) intro: adds_none adds_later)
qed

lemma walk_adds:
  "adds st (walk ss node dir prefix st) (hits ss node dir prefix)"
  "ss = ''**'' # p \<Longrightarrow> adds st (walk_deep ss es dir prefix st) (\<Union>e \<in> set es. deep_hits ss e dir prefix)"
  "adds st (walk_here seg rest es dir prefix st) (\<Union>e \<in> set es. here_hits seg rest e dir prefix)"
proof (induction ss node dir prefix st and ss es dir prefix st and seg rest es dir prefix st
    arbitrary: and p and rule: walk_walk_deep_walk_here.induct)
  case (1 ss node dir prefix st)
  show ?case
  proof (cases "MAX_VISITS \<le> snd st \<or> ss = []")
    case True
    then show ?thesis by (subst walk.simps) (auto intro: adds_capped adds_none)
  next
    case False
    then obtain seg rest where ss: "\<not> MAX_VISITS \<le> snd st" "ss = seg # rest" by (cases ss) auto
    show ?thesis
    proof (cases "seg = ''**''")
      case True
      show ?thesis using adds_trans [OF 1(1) [OF ss True] 1(2) [OF ss True ss(2) [unfolded True]]] ss True
        by (subst walk.simps) (simp add: hits_deep)
    next
      case ns: False
      show ?thesis
      proof (cases "is_literal seg")
        case True
        show ?thesis
        proof (cases "fs_entry node seg")
          case None
          then show ?thesis using ss ns True by (subst walk.simps) (simp add: hits_literal adds_none)
        next
          case (Some m)
          have "rest \<noteq> [] \<Longrightarrow> is_dir m \<Longrightarrow> adds (fst st, Suc (snd st))
              (walk rest m (dir @ [seg]) (join_name prefix seg) (fst st, Suc (snd st))) (hits rest m (dir @ [seg]) (join_name prefix seg))"
            using 1(3) [OF ss ns True refl Some] by simp
          from adds_lead [OF this] show ?thesis using Some ss ns True
            by (subst walk.simps) (simp add: hits_literal Let_def split: if_splits)
        qed
      next
        case False
        show ?thesis using 1(4) [OF ss ns False] ss ns False by (subst walk.simps) (simp add: hits_wild)
      qed
    qed
  qed
next
  case (3 ss name m es dir prefix st)
  show ?case
  proof (cases "MAX_VISITS \<le> Suc (snd st)")
    case True
    then show ?thesis by (auto intro: adds_capped)
  next
    case False
    let ?st1 = "(fst st, Suc (snd st))"
    let ?st2 = "if is_dir m \<and> \<not> starts_with name ''.'' then walk ss m (dir @ [name]) (join_name prefix name) ?st1 else ?st1"
    have "adds st ?st2 (deep_hits ss (name, m) dir prefix)"
      using 3(1) [OF refl] False by (auto simp: deep_hits_def hidden_def intro: adds_none adds_later)
    moreover have "adds ?st2 (walk_deep ss es dir prefix ?st2) (\<Union>e \<in> set es. deep_hits ss e dir prefix)"
      using 3(2) [OF refl] 3(3) False by (auto split: if_splits)
    ultimately show ?thesis using False adds_trans by (fastforce simp: Let_def)
  qed
next
  case (5 seg rest name m es dir prefix st)
  show ?case
  proof (cases "MAX_VISITS \<le> Suc (snd st)")
    case True
    then show ?thesis by (auto intro: adds_capped)
  next
    case False
    let ?st1 = "(fst st, Suc (snd st))"
    let ?st2 = "if \<not> segment_match seg name then ?st1
        else if rest = [] then (push_file m (join_name prefix name) (dir @ [name]) (fst st), Suc (snd st))
        else if is_dir m then walk rest m (dir @ [name]) (join_name prefix name) ?st1 else ?st1"
    have l: "segment_match seg name \<Longrightarrow> rest \<noteq> [] \<Longrightarrow> is_dir m \<Longrightarrow> adds ?st1
        (walk rest m (dir @ [name]) (join_name prefix name) ?st1) (hits rest m (dir @ [name]) (join_name prefix name))"
      using 5(1) [OF refl] False by simp
    have "adds st ?st2 (here_hits seg rest (name, m) dir prefix)"
      using adds_lead [of rest m st _ dir name prefix, OF l] by (auto simp: here_hits_def intro: adds_none)
    moreover have "adds ?st2 (walk_here seg rest es dir prefix ?st2) (\<Union>e \<in> set es. here_hits seg rest e dir prefix)"
      using 5(2) [OF refl] False by (auto split: if_splits)
    ultimately show ?thesis using False adds_trans by (fastforce simp: Let_def)
  qed
qed (simp_all add: adds_none)

section \<open>The walk decides the globs\<close>

fun file_at :: "FsNode \<Rightarrow> string list \<Rightarrow> string option" where
  "file_at (Fs_File b) [] = Some b"
| "file_at node [] = None"
| "file_at node (x # n) = Option.bind (fs_entry node x) (\<lambda>m. file_at m n)"

definition utf8_char :: "codepoint \<Rightarrow> string" where
  "utf8_char c = map char_of
     (if c < 0x80 then [c] else if c < 0x800 then [0xC0 + c div 64, 0x80 + c mod 64]
      else if c < 0x10000 then [0xE0 + c div 4096, 0x80 + c div 64 mod 64, 0x80 + c mod 64]
      else [0xF0 + c div 262144, 0x80 + c div 4096 mod 64, 0x80 + c div 64 mod 64, 0x80 + c mod 64])"

definition utf8_ok :: "string \<Rightarrow> bool" where "utf8_ok s \<longleftrightarrow> concat (map utf8_char (chars s)) = s"

definition name_ok :: "string \<Rightarrow> bool" where
  "name_ok x \<longleftrightarrow> x \<noteq> [] \<and> utf8_ok x \<and> STAR \<notin> set (chars x)"

text \<open>A tree whose directories can be listed and whose names are strings, none twice in a directory, none with a star.\<close>

fun fs_ok :: "FsNode \<Rightarrow> bool" where
  "fs_ok (Fs_Dir r es) \<longleftrightarrow> r \<and> distinct (map fst es) \<and> (\<forall>e \<in> set es. name_ok (fst e) \<and> fs_ok (snd e))"
| "fs_ok _ \<longleftrightarrow> True"

lemma utf8_inj: "utf8_ok x \<Longrightarrow> utf8_ok y \<Longrightarrow> chars x = chars y \<Longrightarrow> x = y"
  by (metis utf8_ok_def)

lemma literal_chars:
  assumes "is_literal s" "utf8_ok s"
  shows "STAR \<notin> set (chars s)" "ANY \<notin> set (chars s)"
proof -
  have "c \<notin> set (chars s)" if c: "utf8_char c = [b]" "b \<notin> set s" for c b
  proof
    assume "c \<in> set (chars s)"
    then have "b \<in> set (concat (map utf8_char (chars s)))" using c(1) by force
    then show False using c(2) assms(2) unfolding utf8_ok_def by metis
  qed
  moreover have "utf8_char STAR = ''*''" "utf8_char ANY = ''?''" by code_simp+
  ultimately show "STAR \<notin> set (chars s)" "ANY \<notin> set (chars s)" using assms(1) by (auto simp: is_literal_def)
qed

lemma glob_plain: "STAR \<notin> set p \<Longrightarrow> ANY \<notin> set p \<Longrightarrow> glob p n \<longleftrightarrow> n = p"
proof (induction p arbitrary: n)
  case (Cons c p)
  then show ?case by (cases n) auto
qed simp

lemma literal_glob: "is_literal s \<Longrightarrow> utf8_ok s \<Longrightarrow> utf8_ok x \<Longrightarrow> segment_glob s x \<longleftrightarrow> x = s"
  using utf8_inj [of x s] by (auto simp: segment_glob_def glob_plain literal_chars)

lemma listing_ok: "fs_ok node \<Longrightarrow> (x, m) \<in> set (listing node) \<longleftrightarrow> fs_entry node x = Some m"
  by (cases node rule: fs_ok.cases) (auto simp: map_of_eq_Some_iff)

lemma entry_ok: "fs_ok node \<Longrightarrow> fs_entry node x = Some m \<Longrightarrow> name_ok x \<and> fs_ok m"
  by (cases node) (auto dest!: map_of_SomeD)

lemma found_sound:
  "found p node n b \<Longrightarrow> fs_ok node \<Longrightarrow> list_all utf8_ok p \<Longrightarrow> path_glob p n \<and> file_at node n = Some b"
proof (induction rule: found.induct)
  case (found_name s node b)
  then have "segment_glob s s" using entry_ok literal_glob by (auto simp: name_ok_def)
  then show ?case using found_name by (auto intro: path_seg path_end simp: is_literal_def)
next
  case (found_dir s node m p n b)
  then have "segment_glob s s" using entry_ok literal_glob by (auto simp: name_ok_def)
  then show ?case using found_dir entry_ok by (auto intro: path_seg simp: is_literal_def)
next
  case (found_wild s x b node)
  then show ?case using entry_ok segment_match_glob by (auto intro!: path_seg path_end simp: listing_ok name_ok_def)
next
  case (found_wild_dir s x m node p n b)
  then show ?case using entry_ok segment_match_glob by (auto intro!: path_seg simp: listing_ok name_ok_def)
next
  case (found_zero p node n b)
  then show ?case using path_deep [of p n "[]"] by simp
next
  case (found_deep x m node p n b)
  then have "path_glob (''**'' # p) n" "fs_entry node x = Some m" using entry_ok by (auto simp: listing_ok)
  then obtain k n' where "n = k @ n'" "path_glob p n'" by (auto elim: path_glob_ConsE)
  then have "path_glob (''**'' # p) ((x # k) @ n')" by (intro path_deep)
  then show ?case using found_deep \<open>n = k @ n'\<close> \<open>fs_entry node x = Some m\<close> entry_ok by (simp add: listing_ok)
qed

lemma file_at_dir: "file_at m n = Some b \<Longrightarrow> n \<noteq> [] \<Longrightarrow> is_dir m"
  by (cases m; cases n) auto

lemma path_glob_nonempty: "path_glob p n \<Longrightarrow> p \<noteq> [] \<Longrightarrow> last p \<noteq> ''**'' \<Longrightarrow> n \<noteq> []"
  by (induction rule: path_glob.induct) (auto split: if_splits)

lemma found_complete:
  assumes "path_glob p n" "p \<noteq> []" "last p \<noteq> ''**''" "file_at node n = Some b" "fs_ok node" "list_all utf8_ok p"
    "\<forall>x \<in> set n. \<not> hidden x"
  shows "found p node n b"
  using assms
proof (induction arbitrary: node rule: path_glob.induct)
  case (path_deep p n k)
  have p: "p \<noteq> []" "last p \<noteq> ''**''" using path_deep.prems by (auto split: if_splits)
  then have n: "n \<noteq> []" using path_deep.hyps path_glob_nonempty by blast
  have "found (''**'' # p) node (k @ n) b" using path_deep.prems(3,4,6)
  proof (induction k arbitrary: node)
    case Nil
    then show ?case using path_deep.IH [of node] p path_deep.prems(5) by (auto intro: found_zero)
  next
    case (Cons x k)
    then obtain m where m: "fs_entry node x = Some m" "file_at m (k @ n) = Some b" by (auto simp: bind_Some_iff)
    then have "is_dir m" using n file_at_dir [of m "k @ n" b] by simp
    then show ?case using m Cons entry_ok [OF Cons.prems(2) m(1)] by (auto intro!: found_deep simp: listing_ok)
  qed
  then show ?case .
next
  case (path_seg s x p n)
  then obtain m where m: "fs_entry node x = Some m" "file_at m n = Some b" by (auto simp: bind_Some_iff)
  have ok: "name_ok x" "fs_ok m" using entry_ok path_seg.prems(4) m(1) by auto
  have l: "leads p m n b"
  proof (cases "p = []")
    case True
    then have "n = []" using path_seg.hyps(3) by simp
    then show ?thesis using True m(2) by (cases m) (auto simp: leads_def)
  next
    case False
    then have "n \<noteq> []" using path_glob_nonempty [OF path_seg.hyps(3)] path_seg.prems(2) by simp
    then have "is_dir m" using m(2) by (rule file_at_dir [rotated])
    then show ?thesis using False path_seg.IH [of m] path_seg.prems m(2) ok by (simp add: leads_def)
  qed
  show ?case
  proof (cases "is_literal s")
    case True
    then have "x = s" using path_seg literal_glob ok by (simp add: name_ok_def)
    then show ?thesis using True m(1) l by (simp add: found_literal)
  next
    case False
    then have "segment_match s x" using path_seg.hyps(2) segment_match_glob ok by (simp add: name_ok_def)
    then show ?thesis using False path_seg.hyps(1) path_seg.prems(4) m(1) l by (simp add: found_wildcard listing_ok)
  qed
qed simp


section \<open>All globs of a plan\<close>

record Roots =
  rt_cwd :: "string list"
  rt_cwd_node :: FsNode
  rt_target :: "(string list \<times> FsNode) option"
  rt_cwd_label :: "string option"

definition no_match_note :: "string \<Rightarrow> string option \<Rightarrow> bool \<Rightarrow> string" where
  "no_match_note g cwd_label target_too = (case cwd_label of
     None \<Rightarrow> g @ '' matched nothing''
   | Some l \<Rightarrow> g @ '' matched nothing under '' @ l @ (if target_too then '' or in the node'' @ [CHR 0x27] @ ''s cargo target dir'' else [])
       @ '' (globs are relative to the job'' @ [CHR 0x27] @ ''s working directory, not a folder its command cd'' @ [CHR 0x27] @ ''s into)'')"

text \<open>The hits of one glob and the entries it visited: the working directory, then the moved cargo target.\<close>

definition glob_hits :: "Roots \<Rightarrow> string list \<Rightarrow> Walked" where
  "glob_hits roots ss =
     (let w = walk ss (rt_cwd_node roots) (rt_cwd roots) [] ([], 0)
      in if ss \<noteq> [] \<and> hd ss = ''target'' then (case rt_target roots of
           None \<Rightarrow> w
         | Some (t, node) \<Rightarrow> if t \<noteq> rt_cwd roots @ [''target''] then walk (tl ss) node t ''target'' w else w)
         else w)"

definition push_hit :: "Hit list \<Rightarrow> Hit \<Rightarrow> Hit list" where
  "push_hit out h = (if list_ex (\<lambda>x. h_name x = h_name h) out then out else out @ [h])"

fun match_globs :: "Roots \<Rightarrow> string list \<Rightarrow> Hit list \<times> string list \<Rightarrow> Hit list \<times> string list" where
  "match_globs roots [] (out, notes) = (out, notes)"
| "match_globs roots (g # gs) (out, notes) =
     (case glob_refusal g of
        Some code \<Rightarrow> match_globs roots gs (out, notes @ [code @ '': '' @ g])
      | None \<Rightarrow>
          (let ss = segments g; (found_hits, visits) = glob_hits roots ss;
               notes1 = (if MAX_VISITS \<le> visits then notes @ [g @ '': stopped after '' @ digits_of MAX_VISITS @ '' directory entries''] else notes);
               notes2 = (if found_hits = [] then notes1 @ [no_match_note g (rt_cwd_label roots)
                           ((ss \<noteq> [] \<and> hd ss = ''target'') \<and> rt_target roots \<noteq> None)] else notes1)
           in match_globs roots gs (foldl push_hit out found_hits, notes2)))"

text \<open>A file of the job's tree with the name it is kept under.\<close>

definition job_file :: "Roots \<Rightarrow> string list \<Rightarrow> string list \<Rightarrow> string \<Rightarrow> string \<Rightarrow> bool" where
  "job_file roots ss path name b \<longleftrightarrow>
     (\<exists>n. path = rt_cwd roots @ n \<and> name = foldl join_name [] n \<and> found ss (rt_cwd_node roots) n b)
     \<or> (\<exists>t node n. ss \<noteq> [] \<and> hd ss = ''target'' \<and> rt_target roots = Some (t, node) \<and> path = t @ n
          \<and> name = foldl join_name ''target'' n \<and> found (tl ss) node n b)"

definition hit_ok :: "Roots \<Rightarrow> string list \<Rightarrow> Hit \<Rightarrow> bool" where
  "hit_ok roots globs h \<longleftrightarrow> (\<exists>g \<in> set globs. glob_refusal g = None
     \<and> (\<exists>b. job_file roots (segments g) (h_path h) (h_name h) b \<and> h_bytes h = length b))"

lemma glob_hits_ok: "h \<in> set (fst (glob_hits roots ss)) \<Longrightarrow> \<exists>b. job_file roots ss (h_path h) (h_name h) b \<and> h_bytes h = length b"
proof -
  assume h: "h \<in> set (fst (glob_hits roots ss))"
  let ?w = "walk ss (rt_cwd_node roots) (rt_cwd roots) [] ([], 0)"
  let ?H = "hits ss (rt_cwd_node roots) (rt_cwd roots) []"
  have w: "set (fst ?w) \<subseteq> ?H" using walk_adds(1) [of "([], 0)" ss] by (simp add: adds_def)
  have t: "set (fst (walk (tl ss) node t ''target'' ?w)) \<subseteq> ?H \<union> hits (tl ss) node t ''target''" for node t
    using walk_adds(1) [of ?w "tl ss" node t "''target''"] w unfolding adds_def by blast
  have "h \<in> ?H \<or> (\<exists>t node. ss \<noteq> [] \<and> hd ss = ''target'' \<and> rt_target roots = Some (t, node) \<and> h \<in> hits (tl ss) node t ''target'')"
  proof (cases "ss \<noteq> [] \<and> hd ss = ''target'' \<and> h \<notin> set (fst ?w)")
    case True
    then obtain tr node where "rt_target roots = Some (tr, node)" "h \<in> set (fst (walk (tl ss) node tr ''target'' ?w))"
      using h by (auto simp: glob_hits_def Let_def split: option.splits if_splits)
    then show ?thesis using True t by blast
  next
    case False
    then have "h \<in> set (fst ?w)" using h by (auto simp: glob_hits_def Let_def)
    then show ?thesis using w by blast
  qed
  then show ?thesis by (auto simp: hits_def hit_of_def job_file_def)
qed

lemma foldl_push_hit:
  "set (foldl push_hit out hs) \<subseteq> set out \<union> set hs \<and> (distinct (map h_name out) \<longrightarrow> distinct (map h_name (foldl push_hit out hs)))"
proof (induction hs arbitrary: out)
  case (Cons h hs)
  have "set (push_hit out h) \<subseteq> insert h (set out)" "distinct (map h_name out) \<longrightarrow> distinct (map h_name (push_hit out h))"
    by (auto simp: push_hit_def list_ex_iff)
  then show ?case using Cons [of "push_hit out h"] by auto
qed simp

lemma match_globs_ok:
  "match_globs roots gs (out, ns) = (out', ns') \<Longrightarrow> set gs \<subseteq> set globs \<Longrightarrow> list_all (hit_ok roots globs) out
     \<Longrightarrow> distinct (map h_name out) \<Longrightarrow> list_all (hit_ok roots globs) out' \<and> distinct (map h_name out')"
proof (induction roots gs "(out, ns)" arbitrary: out ns rule: match_globs.induct)
  case (2 roots g gs out ns)
  show ?case
  proof (cases "glob_refusal g")
    case None
    obtain hs v where gh: "glob_hits roots (segments g) = (hs, v)" by fastforce
    have "hit_ok roots globs h" if "h \<in> set hs" for h
      using that glob_hits_ok [of h roots "segments g"] gh None 2(4) by (auto simp: hit_ok_def)
    then have "list_all (hit_ok roots globs) (foldl push_hit out hs)"
      using foldl_push_hit [of out hs] 2(5) unfolding list_all_iff by blast
    moreover have "distinct (map h_name (foldl push_hit out hs))" using foldl_push_hit 2(6) by blast
    ultimately show ?thesis using 2(1) [OF None refl gh [symmetric] refl refl refl] 2(3,4) None gh by (simp add: Let_def)
  qed (use 2 in auto)
qed auto

section \<open>An example\<close>

definition ex_tree :: FsNode where
  "ex_tree = Fs_Dir True
     [(''target'', Fs_Dir True [(''a.xml'', Fs_File ''x''), (''ci'', Fs_Dir True [(''b.xml'', Fs_File ''yy''), (''link.xml'', Fs_Other)])])]"


text \<open>A glob that ends with a double star matches every file below, but the walk finds none for it.\<close>

lemma trailing_stars_find_nothing:
  "path_match ''target/**'' ''target/a.xml'' \<and> walk (segments ''target/**'') ex_tree [''w''] [] ([], 0) = ([], 5)"
  by code_simp

end
