(* ===== verification/Artifact_Keep.thy ===== *)
theory Artifact_Keep
  imports Artifact_Walk Envelope "HOL-Library.AList"
begin

text \<open>
  Keeping a job's artifacts on its node and sending them (\<open>k2-node/src/artifacts.rs\<close>: \<open>copy_hash\<close>, \<open>collect\<close>,
  \<open>answer\<close>, \<open>sweep\<close>; the check of names is \<open>paths.rs\<close>). What the system answers to the calls on one file is a parameter:
  the errors of creating and opening it and the reads one after the other. The kept files are an association list from
  their paths to their bytes. SHA-256, base64 and the XML reader are parameters.
\<close>

section \<open>Names and paths\<close>

definition safe_relative :: "string \<Rightarrow> string list option" where
  "safe_relative p =
     (if p = [] \<or> CHR 0x00 \<in> set p \<or> starts_with p ''/'' then None
      else if list_ex (\<lambda>c. c = ''..'') (split_on (CHR ''/'') p) then None else Some (segments p))"

text \<open>\<open>Path::join\<close>: an absolute argument replaces the path.\<close>

definition path_join :: "string list \<Rightarrow> string \<Rightarrow> string list" where
  "path_join p s = (if starts_with s ''/'' then segments s else p @ segments s)"

definition path_display :: "string list \<Rightarrow> string" where
  "path_display p = concat (map (\<lambda>c. ''/'' @ c) p)"

definition artifacts_dir :: "string list \<Rightarrow> string \<Rightarrow> nat \<Rightarrow> string list" where
  "artifacts_dir root job gen = path_join root (job @ ''-g'' @ digits_of gen)"

section \<open>Copying\<close>

text \<open>A step of reading a file: some bytes (none at the end), or an error of the read, or of the write of what was read.\<close>

datatype IoStep = Io_Bytes string | Io_ReadErr string | Io_WriteErr string

text \<open>The bytes a file reads as, if no read fails.\<close>

fun io_bytes :: "IoStep list \<Rightarrow> string option" where
  "io_bytes [] = Some []"
| "io_bytes (Io_Bytes b # steps) = (if b = [] then Some [] else map_option ((@) b) (io_bytes steps))"
| "io_bytes (s # steps) = None"

record CopyIo =
  ci_mkdir :: "string option"
  ci_open :: "string option"
  ci_create :: "string option"
  ci_steps :: "IoStep list"

text \<open>The result and what the copy holds.\<close>

fun copy_loop :: "Crypto \<Rightarrow> string list \<Rightarrow> string list \<Rightarrow> IoStep list \<Rightarrow> string \<Rightarrow> nat \<Rightarrow> (string + string \<times> nat) \<times> string" where
  "copy_loop cr src dst [] acc n_total = (Inr (cr_sha256_hex cr acc, n_total), acc)"
| "copy_loop cr src dst (Io_Bytes b # steps) acc n_total =
     (if b = [] then (Inr (cr_sha256_hex cr acc, n_total), acc)
      else copy_loop cr src dst steps (acc @ b) (u64_add n_total (length b)))"
| "copy_loop cr src dst (Io_ReadErr e # steps) acc n_total = (Inl (''read '' @ path_display src @ '': '' @ e), acc)"
| "copy_loop cr src dst (Io_WriteErr e # steps) acc n_total = (Inl (''write '' @ path_display dst @ '': '' @ e), acc)"

definition copy_hash :: "Crypto \<Rightarrow> CopyIo \<Rightarrow> string list \<Rightarrow> string list \<Rightarrow> (string + string \<times> nat) \<times> string option" where
  "copy_hash cr io src dst = (case ci_mkdir io of
     Some e \<Rightarrow> (Inl (''create '' @ path_display (butlast dst) @ '': '' @ e), None)
   | None \<Rightarrow> (case ci_open io of
       Some e \<Rightarrow> (Inl (''open '' @ path_display src @ '': '' @ e), None)
     | None \<Rightarrow> (case ci_create io of
         Some e \<Rightarrow> (Inl (''create '' @ path_display dst @ '': '' @ e), None)
       | None \<Rightarrow> (case copy_loop cr src dst (ci_steps io) [] 0 of (r, b) \<Rightarrow> (r, Some b)))))"

section \<open>Collecting\<close>

definition MAX_FILE_BYTES :: nat where "MAX_FILE_BYTES = 524288000"
definition RELAY_MAX_FILE_BYTES :: nat where "RELAY_MAX_FILE_BYTES = 104857600"
definition MAX_TOTAL_BYTES :: nat where "MAX_TOTAL_BYTES = 2147483648"
definition MAX_JUNIT_BYTES :: nat where "MAX_JUNIT_BYTES = 67108864"
definition KEEP_SECS :: int where "KEEP_SECS = 604800"

text \<open>\<open>String::from_utf8_lossy\<close>: a byte sequence that can't be continued becomes one replacement character.\<close>

definition utf8_lead :: "nat \<Rightarrow> nat \<times> nat \<times> nat" where
  "utf8_lead b =
     (if 0xC2 \<le> b \<and> b \<le> 0xDF then (1, 0x80, 0xBF) else if b = 0xE0 then (2, 0xA0, 0xBF) else if b = 0xED then (2, 0x80, 0x9F)
      else if 0xE1 \<le> b \<and> b \<le> 0xEF then (2, 0x80, 0xBF) else if b = 0xF0 then (3, 0x90, 0xBF) else if b = 0xF4 then (3, 0x80, 0x8F)
      else if 0xF1 \<le> b \<and> b \<le> 0xF3 then (3, 0x80, 0xBF) else (0, 0, 0))"

fun utf8_run :: "nat \<Rightarrow> nat \<Rightarrow> nat \<Rightarrow> string \<Rightarrow> nat" where
  "utf8_run k lo hi [] = 0"
| "utf8_run k lo hi (c # cs) = (if 0 < k \<and> lo \<le> byte c \<and> byte c \<le> hi then Suc (utf8_run (k - 1) 0x80 0xBF cs) else 0)"

fun utf8_lossy :: "string \<Rightarrow> string" where
  "utf8_lossy [] = []"
| "utf8_lossy (c # cs) =
     (if byte c < 128 then c # utf8_lossy cs
      else (let (k, lo, hi) = utf8_lead (byte c); n = utf8_run k lo hi cs
            in if 0 < k \<and> n = k then c # take k cs @ utf8_lossy (drop k cs)
               else [CHR 0xEF, CHR 0xBF, CHR 0xBD] @ utf8_lossy (drop n cs)))"

definition looks_like_junit :: "string \<Rightarrow> bool" where
  "looks_like_junit head = str_contains ''<testsuite'' (utf8_lossy (take 4096 head))"

fun junit_error_text :: "string \<Rightarrow> junit_error \<Rightarrow> string" where
  "junit_error_text source (XmlError e) = source @ '': XML error at byte '' @ e"
| "junit_error_text source NoSuite = source @ '': no <testsuite> or <testsuites> element''"

record Keeping =
  kp_artifacts :: "ArtifactInfo list"
  kp_tests :: "TestSummary option"
  kp_notes :: "string list"
  kp_total :: nat
  kp_files :: "(string list \<times> string) list"

definition kp_note :: "string \<Rightarrow> Keeping \<Rightarrow> Keeping" where
  "kp_note n k = k \<lparr> kp_notes := kp_notes k @ [n] \<rparr>"

text \<open>The JUnit part: the kept copy is read again.\<close>

definition absorb_junit :: "xml_reader \<Rightarrow> string \<Rightarrow> string \<Rightarrow> Keeping \<Rightarrow> Keeping" where
  "absorb_junit read_xml name content k =
     (if looks_like_junit content
      then (case parse_junit read_xml (utf8_lossy content) name of
          Inr t \<Rightarrow> k \<lparr> kp_tests := Some (absorb (unwrap_or (kp_tests k) TestSummary_default) t) \<rparr>
        | Inl e \<Rightarrow> kp_note (''JUnit: '' @ junit_error_text name e) k)
      else k)"

definition keep_hit :: "Crypto \<Rightarrow> xml_reader \<Rightarrow> (string list \<Rightarrow> CopyIo) \<Rightarrow> string list \<Rightarrow> Hit \<Rightarrow> Keeping \<Rightarrow> Keeping" where
  "keep_hit cr read_xml io keep h k =
     (if MAX_FILE_BYTES < h_bytes h
      then kp_note (h_name h @ '': '' @ digits_of (h_bytes h div 1048576) @ '' MB is over the '' @ digits_of (MAX_FILE_BYTES div 1048576) @ '' MB per-file cap'') k
      else if MAX_TOTAL_BYTES < u64_add (kp_total k) (h_bytes h)
      then kp_note (h_name h @ '': over the '' @ digits_of (MAX_TOTAL_BYTES div 1073741824) @ '' GB per-job cap'') k
      else (case safe_relative (h_name h) of
        None \<Rightarrow> kp_note (h_name h @ '': not a plain relative name'') k
      | Some rel \<Rightarrow>
          (let dst = keep @ rel; (r, written) = copy_hash cr (io (h_path h)) (h_path h) dst;
               k1 = (case written of None \<Rightarrow> k | Some b \<Rightarrow> k \<lparr> kp_files := AList.update dst b (kp_files k) \<rparr>)
           in case r of
                Inl e \<Rightarrow> kp_note e k1
              | Inr (sha, bytes) \<Rightarrow>
                  (let k2 = k1 \<lparr> kp_total := u64_add (kp_total k1) bytes \<rparr>;
                       k3 = (if ends_with (h_name h) ''.xml'' \<and> bytes \<le> MAX_JUNIT_BYTES
                             then (case written of Some b \<Rightarrow> absorb_junit read_xml (h_name h) b k2 | None \<Rightarrow> k2) else k2)
                   in k3 \<lparr> kp_artifacts := kp_artifacts k3 @ [\<lparr> ar_name = h_name h, ar_sha256 = sha, ar_bytes = bytes \<rparr>] \<rparr>))))"

fun keep_hits :: "Crypto \<Rightarrow> xml_reader \<Rightarrow> (string list \<Rightarrow> CopyIo) \<Rightarrow> string list \<Rightarrow> Hit list \<Rightarrow> Keeping \<Rightarrow> Keeping" where
  "keep_hits cr read_xml io keep [] k = k"
| "keep_hits cr read_xml io keep (h # hs) k =
     (if MAX_FILES \<le> length (kp_artifacts k) then kp_note (''kept the first '' @ digits_of MAX_FILES @ '' files'') k
      else keep_hits cr read_xml io keep hs (keep_hit cr read_xml io keep h k))"

text \<open>The outputs and the files under the attempt's folder, which is emptied first.\<close>

definition collect :: "Crypto \<Rightarrow> xml_reader \<Rightarrow> (string list \<Rightarrow> CopyIo) \<Rightarrow> string list \<Rightarrow> Roots \<Rightarrow> string list \<Rightarrow> Outputs \<times> (string list \<times> string) list" where
  "collect cr read_xml io globs roots keep =
     (let (hits, notes) = match_globs roots globs ([], []);
          k = keep_hits cr read_xml io keep hits
                \<lparr> kp_artifacts = [], kp_tests = None, kp_notes = notes, kp_total = 0, kp_files = [] \<rparr>
      in (capped \<lparr> ou_artifacts = kp_artifacts k, ou_tests = kp_tests k, ou_notes = kp_notes k, ou_tools_used = [],
            ou_resources = None, ou_host = None \<rparr>, kp_files k))"

section \<open>Sending\<close>

definition TRANSFER_CHUNK :: nat where "TRANSFER_CHUNK = 262144"

record ArtifactGet =
  ag_request_id :: string
  ag_job_id :: string
  ag_generation :: nat
  ag_name :: string

record ArtifactChunk =
  ac_request_id :: string
  ac_seq :: nat
  ac_data :: string
  ac_last :: bool
  ac_total_bytes :: nat
  ac_sha256 :: string

record ArtifactFailed =
  af_request_id :: string
  af_code :: string
  af_message :: string

datatype ArtifactFrame = Af_Chunk ArtifactChunk | Af_Failed ArtifactFailed

text \<open>The kept file as the system shows it: gone (or no regular file), or its length and its reads, or why it can't be opened.\<close>

datatype KeptStat = Ks_Gone | Ks_File "string + nat \<times> IoStep list"

text \<open>Fill the buffer: a read gives at most the room left.\<close>

fun fill :: "nat \<Rightarrow> string \<Rightarrow> IoStep list \<Rightarrow> string + string \<times> IoStep list" where
  "fill room acc [] = Inr (acc, [])"
| "fill room acc (Io_Bytes b # steps) =
     (if room = 0 then Inr (acc, Io_Bytes b # steps)
      else if b = [] then Inr (acc, steps)
      else if room < length b then Inr (acc @ take room b, Io_Bytes (drop room b) # steps)
      else fill (room - length b) (acc @ b) steps)"
| "fill room acc (Io_ReadErr e # steps) = (if room = 0 then Inr (acc, Io_ReadErr e # steps) else Inl e)"
| "fill room acc (Io_WriteErr e # steps) = (if room = 0 then Inr (acc, Io_WriteErr e # steps) else Inl e)"

definition io_size :: "IoStep list \<Rightarrow> nat" where
  "io_size steps = sum_list (map (\<lambda>s. case s of Io_Bytes b \<Rightarrow> length b | _ \<Rightarrow> 0) steps)"

lemma io_size_simps [simp]: "io_size [] = 0" "io_size (Io_Bytes b # steps) = length b + io_size steps"
  "io_size (Io_ReadErr e # steps) = io_size steps" "io_size (Io_WriteErr e # steps) = io_size steps"
  by (simp_all add: io_size_def)

lemma fill_size: "fill room acc steps = Inr (acc', steps') \<Longrightarrow> length acc' + io_size steps' \<le> length acc + io_size steps"
  by (induction room acc steps rule: fill.induct) (auto split: if_splits)

text \<open>The chunks of a file of \<open>whole\<close> bytes; \<open>alive\<close> says whether the session took the frame with a number.\<close>

function send_chunks :: "Crypto \<Rightarrow> (nat \<Rightarrow> bool) \<Rightarrow> ArtifactGet \<Rightarrow> ArtifactInfo \<Rightarrow> nat \<Rightarrow> IoStep list \<Rightarrow> nat \<Rightarrow> nat \<Rightarrow> ArtifactFrame list" where
  "send_chunks cr alive g info whole steps sq sent =
     (case fill TRANSFER_CHUNK [] steps of
        Inl e \<Rightarrow> [Af_Failed \<lparr> af_request_id = ag_request_id g, af_code = ''artifact_unreadable'', af_message = ''read: '' @ e \<rparr>]
      | Inr (buf, steps') \<Rightarrow>
          (let sent' = u64_add sent (length buf); last_one = (whole \<le> sent' \<or> length buf < TRANSFER_CHUNK)
           in if \<not> alive sq then []
              else Af_Chunk \<lparr> ac_request_id = ag_request_id g, ac_seq = sq, ac_data = cr_b64 cr buf, ac_last = last_one,
                     ac_total_bytes = whole, ac_sha256 = ar_sha256 info \<rparr>
                   # (if last_one then [] else send_chunks cr alive g info whole steps' (as_u32 (sq + 1)) sent')))"
  by pat_completeness auto

termination
proof (relation "measure (\<lambda>(cr, alive, g, info, whole, steps, sq, sent). io_size steps)", goal_cases)
  case (2 cr alive g info whole steps sq sent x buf steps' sent' last_one)
  then show ?case using fill_size [of TRANSFER_CHUNK "[]" steps buf steps'] by (auto simp: TRANSFER_CHUNK_def)
qed simp

declare send_chunks.simps [simp del]

definition answer :: "Crypto \<Rightarrow> (string list \<Rightarrow> KeptStat) \<Rightarrow> (nat \<Rightarrow> bool) \<Rightarrow> string list \<Rightarrow> ArtifactGet \<Rightarrow> ArtifactInfo list option \<Rightarrow> ArtifactFrame list" where
  "answer cr stat alive root g known =
     (let failed = (\<lambda>code message. [Af_Failed \<lparr> af_request_id = ag_request_id g, af_code = code, af_message = message \<rparr>])
      in case known of
           None \<Rightarrow> failed ''job_not_found'' ''this node has no record of that attempt''
         | Some infos \<Rightarrow> (case find (\<lambda>a. ar_name a = ag_name g) infos of
             None \<Rightarrow> failed ''artifact_not_found'' (''the job kept no artifact named '' @ ag_name g)
           | Some info \<Rightarrow> (case safe_relative (ar_name info) of
               None \<Rightarrow> failed ''artifact_not_found'' ''not a plain relative name''
             | Some rel \<Rightarrow> (case stat (artifacts_dir root (ag_job_id g) (ag_generation g) @ rel) of
                 Ks_Gone \<Rightarrow> failed ''artifact_gone'' ''the node no longer keeps it (artifacts are kept 7 days)''
               | Ks_File (Inl e) \<Rightarrow> failed ''artifact_unreadable'' (''open: '' @ e)
               | Ks_File (Inr (whole, steps)) \<Rightarrow>
                   if whole \<noteq> ar_bytes info then failed ''artifact_changed'' ''the kept file no longer matches its size''
                   else send_chunks cr alive g info whole steps 0 0))))"

text \<open>The folders under \<open>root\<close> with the time they were changed, if the system tells it: the old ones go.\<close>

definition old_dir :: "int \<Rightarrow> int option \<Rightarrow> bool" where
  "old_dir now mtime = (case mtime of None \<Rightarrow> False | Some d \<Rightarrow> KEEP_SECS < i64_sub now d)"

definition artifacts_sweep :: "int \<Rightarrow> (string \<times> int option) list \<Rightarrow> (string \<times> int option) list" where
  "artifacts_sweep now dirs = filter (\<lambda>e. \<not> old_dir now (snd e)) dirs"

end
