(* ===== verification/Artifact_Pull.thy ===== *)
theory Artifact_Pull
  imports Artifact_Keep Handshake Job_Logs
begin

text \<open>
  Fetching a kept file to the server (\<open>compute_ws.rs\<close>: \<open>Pull\<close>, \<open>on_artifact_chunk\<close>, \<open>fetch_artifact\<close>,
  \<open>fetch_artifact_wait\<close>, the cache and its sweep). The files of the cache are an association list from paths to their
  bytes and times; \<open>PULLS\<close>, \<open>VERIFIED\<close> and \<open>BG_PULLS\<close> are association lists too. What the system and the clock
  answer comes with each step. A wait is one poll of its loop. The hasher is the bytes it was given.
\<close>

section \<open>The state\<close>

type_synonym FetchError = "string \<times> string"

record CacheFile =
  cf_bytes :: string
  cf_mtime :: nat

record Pull =
  pu_node_id :: string
  pu_tmp :: "string list"
  pu_dst :: "string list"
  pu_file :: bool
  pu_hasher :: "string option"
  pu_expect_sha :: string
  pu_expect_bytes :: nat
  pu_got :: nat
  pu_next_seq :: nat
  pu_done :: "(FetchError + unit) option"

record BgPull =
  bg_done :: "(FetchError + string list) option"
  bg_at :: nat

record PullState =
  ps_pulls :: "(string \<times> Pull) list"
  ps_files :: "(string list \<times> CacheFile) list"
  ps_verified :: "(string list \<times> nat \<times> nat) list"
  ps_bg :: "(string list \<times> BgPull) list"

definition artifact_cache_path :: "string list \<Rightarrow> string \<Rightarrow> int \<Rightarrow> string \<Rightarrow> string list" where
  "artifact_cache_path compute_dir job_id generation sha256 =
     path_join (path_join (compute_dir @ [''artifacts'']) (job_id @ ''-g'' @ show_int generation)) sha256"

section \<open>The caps\<close>

definition artifact_pull_cap :: "string option \<Rightarrow> bool \<Rightarrow> nat" where
  "artifact_pull_cap route over_relay =
     (if route = Some ''relay'' \<and> \<not> over_relay then RELAY_MAX_FILE_BYTES else MAX_FILE_BYTES)"

definition pull_cap_refusal :: "string option \<Rightarrow> bool \<Rightarrow> nat \<Rightarrow> FetchError option" where
  "pull_cap_refusal route over_relay bytes =
     (let cap = artifact_pull_cap route over_relay; mb = digits_of (bytes div 1048576); capmb = digits_of (cap div 1048576)
      in if bytes \<le> cap then None
         else if route = Some ''relay'' \<and> \<not> over_relay
         then Some (''relay_cap'', mb @ '' MB is over the relay cap of '' @ capmb @ '' MB; fetch it again with --over-relay (up to ''
                @ digits_of (MAX_FILE_BYTES div 1048576) @ '' MB through the relay), or over the LAN or a tailnet route'')
         else Some (''relay_cap'', mb @ '' MB is over the artifact cap of '' @ capmb @ '' MB''))"

section \<open>The cache\<close>

definition cache_stamp :: "PullState \<Rightarrow> string list \<Rightarrow> (nat \<times> nat) option" where
  "cache_stamp st p = map_option (\<lambda>f. (length (cf_bytes f), cf_mtime f)) (map_of (ps_files st) p)"

definition note_verified :: "string list \<Rightarrow> PullState \<Rightarrow> PullState" where
  "note_verified p st = (case cache_stamp st p of
     None \<Rightarrow> st
   | Some s \<Rightarrow> st \<lparr> ps_verified := AList.update p s (if 4096 < length (ps_verified st) then [] else ps_verified st) \<rparr>)"

definition file_sha256 :: "Crypto \<Rightarrow> PullState \<Rightarrow> string list \<Rightarrow> (string \<times> nat) option" where
  "file_sha256 cr st p = map_option (\<lambda>f. (cr_sha256_hex cr (cf_bytes f), length (cf_bytes f))) (map_of (ps_files st) p)"

definition cache_holds :: "Crypto \<Rightarrow> string list \<Rightarrow> ArtifactInfo \<Rightarrow> PullState \<Rightarrow> PullState \<times> bool" where
  "cache_holds cr dst info st =
     (let s = cache_stamp st dst
      in if (case s of Some (n, t) \<Rightarrow> n = ar_bytes info | None \<Rightarrow> False) \<and> map_of (ps_verified st) dst = s then (st, True)
         else (let ok = (case file_sha256 cr st dst of Some (sha, n) \<Rightarrow> sha = ar_sha256 info \<and> n = ar_bytes info | None \<Rightarrow> False)
               in (if ok then note_verified dst st else st, ok)))"

section \<open>Frames of a pull\<close>

definition finish_pull :: "string \<Rightarrow> Pull \<Rightarrow> FetchError + unit \<Rightarrow> PullState \<Rightarrow> PullState" where
  "finish_pull rid p r st = st \<lparr>
     ps_pulls := AList.update rid (p \<lparr> pu_file := False, pu_done := Some r \<rparr>) (ps_pulls st),
     ps_files := (case r of Inl e \<Rightarrow> AList.delete (pu_tmp p) (ps_files st) | Inr u \<Rightarrow> ps_files st) \<rparr>"

definition live_pull :: "string \<Rightarrow> string \<Rightarrow> PullState \<Rightarrow> Pull option" where
  "live_pull node_id rid st = (case map_of (ps_pulls st) rid of
     Some p \<Rightarrow> if pu_node_id p = node_id \<and> pu_done p = None then Some p else None | None \<Rightarrow> None)"

text \<open>Whether a write succeeds, why a rename fails, and the time of the file system.\<close>

record WriteIo =
  wi_write :: bool
  wi_rename :: "string option"
  wi_now :: nat

text \<open>Bytes written to an open file: nowhere once its name is gone.\<close>

definition write_all :: "nat \<Rightarrow> string list \<Rightarrow> string \<Rightarrow> (string list \<times> CacheFile) list \<Rightarrow> (string list \<times> CacheFile) list" where
  "write_all now p data files = (case map_of files p of
     None \<Rightarrow> files | Some f \<Rightarrow> AList.update p (f \<lparr> cf_bytes := cf_bytes f @ data, cf_mtime := now \<rparr>) files)"

definition rename_file :: "WriteIo \<Rightarrow> string list \<Rightarrow> string list \<Rightarrow> (string list \<times> CacheFile) list \<Rightarrow> string + (string list \<times> CacheFile) list" where
  "rename_file io p q files = (case wi_rename io of
     Some e \<Rightarrow> Inl e
   | None \<Rightarrow> (case map_of files p of
       None \<Rightarrow> Inl ''No such file or directory (os error 2)''
     | Some f \<Rightarrow> Inr (AList.update q f (AList.delete p files))))"

definition bad_transfer :: "string \<Rightarrow> FetchError + unit" where
  "bad_transfer why = Inl (''artifact_transfer'', why)"

text \<open>The last chunk: the hash decides.\<close>

definition finish_last :: "Crypto \<Rightarrow> WriteIo \<Rightarrow> string \<Rightarrow> Pull \<Rightarrow> PullState \<Rightarrow> PullState" where
  "finish_last cr io rid p0 st =
     (let sha = (case pu_hasher p0 of Some h \<Rightarrow> cr_sha256_hex cr h | None \<Rightarrow> []); p = p0 \<lparr> pu_hasher := None \<rparr>
      in if pu_got p \<noteq> pu_expect_bytes p \<or> \<not> ct_eq sha (pu_expect_sha p)
         then finish_pull rid p (Inl (''artifact_changed'', ''the bytes don'' @ [CHR 0x27] @ ''t match the hash the node reported'')) st
         else (case rename_file io (pu_tmp p) (pu_dst p) (ps_files st) of
             Inl e \<Rightarrow> finish_pull rid p (Inl (''local_write'', ''cache: '' @ e)) st
           | Inr files \<Rightarrow> finish_pull rid p (Inr ()) (note_verified (pu_dst p) (st \<lparr> ps_files := files \<rparr>))))"

definition on_artifact_chunk :: "Crypto \<Rightarrow> WriteIo \<Rightarrow> string \<Rightarrow> ArtifactChunk \<Rightarrow> PullState \<Rightarrow> PullState" where
  "on_artifact_chunk cr io node_id c st = (let rid = ac_request_id c in
     case live_pull node_id rid st of
       None \<Rightarrow> st
     | Some p \<Rightarrow>
         if ac_seq c \<noteq> pu_next_seq p \<or> ac_sha256 c \<noteq> pu_expect_sha p \<or> ac_total_bytes c \<noteq> pu_expect_bytes p
         then finish_pull rid p (bad_transfer ''chunk out of order or for another file'') st
         else (case cr_unb64 cr (ac_data c) of
           None \<Rightarrow> finish_pull rid p (bad_transfer (''chunk isn'' @ [CHR 0x27] @ ''t base64'')) st
         | Some data \<Rightarrow>
             if TRANSFER_CHUNK < length data \<or> pu_expect_bytes p < u64_add (pu_got p) (length data)
             then finish_pull rid p (bad_transfer ''more bytes than the node reported'') st
             else if \<not> (pu_file p \<and> wi_write io)
             then finish_pull rid p (Inl (''local_write'', ''can'' @ [CHR 0x27] @ ''t write the controller'' @ [CHR 0x27] @ ''s artifact cache'')) st
             else (let p1 = p \<lparr> pu_hasher := map_option (\<lambda>h. h @ data) (pu_hasher p), pu_got := u64_add (pu_got p) (length data),
                                pu_next_seq := as_u32 (pu_next_seq p + 1) \<rparr>;
                       st1 = st \<lparr> ps_files := write_all (wi_now io) (pu_tmp p) data (ps_files st) \<rparr>
                   in if ac_last c then finish_last cr io rid p1 st1
                      else st1 \<lparr> ps_pulls := AList.update rid p1 (ps_pulls st1) \<rparr>)))"

definition code_char :: "string \<Rightarrow> bool" where
  "code_char g \<longleftrightarrow> (case g of [c] \<Rightarrow> is_ascii_alphanumeric c \<or> c = CHR ''_'' | _ \<Rightarrow> False)"

definition on_artifact_failed :: "string \<Rightarrow> ArtifactFailed \<Rightarrow> PullState \<Rightarrow> PullState" where
  "on_artifact_failed node_id f st = (case live_pull node_id (af_request_id f) st of
     None \<Rightarrow> st
   | Some p \<Rightarrow> finish_pull (af_request_id f) p
       (Inl (concat (take 48 (filter code_char (segs (af_code f)))), concat (take 300 (segs (af_message f))))) st)"

definition on_artifact_frame :: "Crypto \<Rightarrow> WriteIo \<Rightarrow> string \<Rightarrow> ArtifactFrame \<Rightarrow> PullState \<Rightarrow> PullState" where
  "on_artifact_frame cr io node_id f st = (case f of
     Af_Chunk c \<Rightarrow> on_artifact_chunk cr io node_id c st | Af_Failed e \<Rightarrow> on_artifact_failed node_id e st)"

section \<open>Fetching\<close>

record FetchEnv =
  fe_online :: bool
  fe_route :: "string option"
  fe_features :: "string list option"
  fe_mkdir :: "string option"
  fe_random_id :: "string + string"
  fe_create :: "string option"
  fe_now :: nat

record FetchJob =
  fj_id :: string
  fj_generation :: int
  fj_node_id :: string

datatype Begun = Begun_Ready "string list" | Begun_Failed FetchError | Begun_Waits string "string list" ArtifactGet

definition part_path :: "string list \<Rightarrow> string \<Rightarrow> string list" where
  "part_path dst rid = path_join (butlast dst) (''.'' @ rid @ ''.part'')"

definition FEATURE_ARTIFACTS :: string where "FEATURE_ARTIFACTS = ''artifacts''"

definition as_gen :: "int \<Rightarrow> nat" where "as_gen g = nat (g mod 2 ^ 32)"

definition fetch_begin :: "Crypto \<Rightarrow> FetchEnv \<Rightarrow> string list \<Rightarrow> FetchJob \<Rightarrow> ArtifactInfo \<Rightarrow> bool \<Rightarrow> PullState \<Rightarrow> PullState \<times> Begun" where
  "fetch_begin cr env compute_dir job info over_relay st0 =
     (let dst = artifact_cache_path compute_dir (fj_id job) (fj_generation job) (ar_sha256 info); (st, held) = cache_holds cr dst info st0
      in if held then (st, Begun_Ready dst)
         else if \<not> fe_online env
         then (st, Begun_Failed (''node_offline'', ''the job'' @ [CHR 0x27] @ ''s node is offline; artifacts stay on it for 7 days, fetch again when it'' @ [CHR 0x27] @ ''s back''))
         else if \<not> (case fe_features env of Some fs \<Rightarrow> FEATURE_ARTIFACTS \<in> set fs | None \<Rightarrow> False)
         then (st, Begun_Failed (''node_upgrade_required'', ''that node'' @ [CHR 0x27] @ ''s k2-node can'' @ [CHR 0x27] @ ''t send artifacts; update it there (sudo k2-node setup)''))
         else (case pull_cap_refusal (fe_route env) over_relay (ar_bytes info) of
           Some e \<Rightarrow> (st, Begun_Failed e)
         | None \<Rightarrow> (case fe_mkdir env of
             Some e \<Rightarrow> (st, Begun_Failed (''local_write'', ''cache dir: '' @ e))
           | None \<Rightarrow> (case fe_random_id env of
               Inl e \<Rightarrow> (st, Begun_Failed (''internal'', e))
             | Inr rid \<Rightarrow> (case fe_create env of
                 Some e \<Rightarrow> (st, Begun_Failed (''local_write'', ''cache file: '' @ e))
               | None \<Rightarrow>
                   (st \<lparr> ps_files := AList.update (part_path dst rid) \<lparr> cf_bytes = [], cf_mtime = fe_now env \<rparr> (ps_files st),
                         ps_pulls := AList.update rid
                           \<lparr> pu_node_id = fj_node_id job, pu_tmp = part_path dst rid, pu_dst = dst, pu_file = True, pu_hasher = Some [],
                             pu_expect_sha = ar_sha256 info, pu_expect_bytes = ar_bytes info, pu_got = 0, pu_next_seq = 0, pu_done = None \<rparr>
                           (ps_pulls st) \<rparr>,
                    Begun_Waits rid dst \<lparr> ag_request_id = rid, ag_job_id = fj_id job, ag_generation = as_gen (fj_generation job), ag_name = ar_name info \<rparr>))))))"

text \<open>One turn of the wait: how the pull ended, if the wait is over.\<close>

definition fetch_poll :: "string \<Rightarrow> bool \<Rightarrow> bool \<Rightarrow> nat \<Rightarrow> nat \<Rightarrow> PullState \<Rightarrow> (FetchError + unit) option" where
  "fetch_poll rid sent online now deadline st = (case Option.bind (map_of (ps_pulls st) rid) pu_done of
     Some d \<Rightarrow> Some d
   | None \<Rightarrow>
       if \<not> sent \<or> deadline \<le> now then Some (Inl (''artifact_timeout'', ''the node didn'' @ [CHR 0x27] @ ''t send the file in time; try again''))
       else if \<not> online then Some (Inl (''node_offline'', ''the node went offline during the transfer; fetch again when it'' @ [CHR 0x27] @ ''s back''))
       else None)"

definition fetch_end :: "string \<Rightarrow> string list \<Rightarrow> PullState \<Rightarrow> PullState" where
  "fetch_end rid dst st = st \<lparr> ps_pulls := AList.delete rid (ps_pulls st), ps_files := AList.delete (part_path dst rid) (ps_files st) \<rparr>"

definition fetch_result :: "string list \<Rightarrow> FetchError + unit \<Rightarrow> FetchError + string list" where
  "fetch_result dst r = (case r of Inl e \<Rightarrow> Inl e | Inr u \<Rightarrow> Inr dst)"

section \<open>Fetching in the background\<close>

datatype Fetched = Fetched_Ready "string list" | Fetched_Pending nat

definition pull_progress :: "string list \<Rightarrow> PullState \<Rightarrow> nat" where
  "pull_progress dst st = foldr max (map (\<lambda>e. pu_got (snd e)) (filter (\<lambda>e. pu_dst (snd e) = dst) (ps_pulls st))) 0"

text \<open>\<open>None\<close>: the caller waits; the flag says that it has to start the pull's thread.\<close>

definition wait_begin :: "Crypto \<Rightarrow> nat \<Rightarrow> string list \<Rightarrow> ArtifactInfo \<Rightarrow> PullState \<Rightarrow> PullState \<times> Fetched option \<times> bool" where
  "wait_begin cr now dst info st0 =
     (let in_flight = (map_of (ps_bg st0) dst \<noteq> None);
          (st, held) = (if in_flight then (st0, False) else cache_holds cr dst info st0)
      in if held then (st, Some (Fetched_Ready dst), False)
         else (let bg = filter (\<lambda>e. bg_done (snd e) = None \<or> now - bg_at (snd e) < 3600) (ps_bg st)
               in if map_of bg dst \<noteq> None then (st \<lparr> ps_bg := bg \<rparr>, None, False)
                  else (st \<lparr> ps_bg := AList.update dst \<lparr> bg_done = None, bg_at = now \<rparr> bg \<rparr>, None, True)))"

definition bg_settle :: "nat \<Rightarrow> string list \<Rightarrow> FetchError + string list \<Rightarrow> PullState \<Rightarrow> PullState" where
  "bg_settle now dst r st = (case map_of (ps_bg st) dst of
     None \<Rightarrow> st | Some b \<Rightarrow> st \<lparr> ps_bg := AList.update dst \<lparr> bg_done = Some r, bg_at = now \<rparr> (ps_bg st) \<rparr>)"

definition wait_poll :: "nat \<Rightarrow> nat \<Rightarrow> string list \<Rightarrow> PullState \<Rightarrow> PullState \<times> (FetchError + Fetched) option" where
  "wait_poll now deadline dst st = (case Option.bind (map_of (ps_bg st) dst) bg_done of
     Some r \<Rightarrow> (st \<lparr> ps_bg := AList.delete dst (ps_bg st) \<rparr>, Some (map_sum id Fetched_Ready r))
   | None \<Rightarrow> if deadline \<le> now then (st, Some (Inr (Fetched_Pending (pull_progress dst st)))) else (st, None))"

text \<open>Folders of attempts that are too old go with their files.\<close>

definition sweep_artifact_cache :: "string list \<Rightarrow> (string \<Rightarrow> bool) \<Rightarrow> PullState \<Rightarrow> PullState" where
  "sweep_artifact_cache compute_dir old st = (let root = compute_dir @ [''artifacts''] in
     st \<lparr> ps_files := filter (\<lambda>e. \<not> (length root < length (fst e) \<and> take (length root) (fst e) = root \<and> old (fst e ! length root))) (ps_files st) \<rparr>)"

end
