(* ===== verification/Artifact_Rules.thy ===== *)
theory Artifact_Rules
  imports Artifact_Pull
begin

text \<open>
  What holds of a fetched artifact: the server never returns a file whose hash is not the one the node reported, whatever
  frames any node sends; and a file its node kept arrives whole.
\<close>

section \<open>Paths\<close>

definition hash_name :: "string \<Rightarrow> bool" where
  "hash_name s \<longleftrightarrow> s \<noteq> [] \<and> list_all (\<lambda>c. is_ascii_digit c \<or> is_ascii_lowercase c) s"

lemma split_on_none [simp]: "d \<notin> set s \<Longrightarrow> split_on d s = [s]"
  by (induction s) auto

lemma path_join_name:
  assumes "CHR ''/'' \<notin> set s" "s \<noteq> []" "s \<noteq> ''.''"
  shows "path_join p s = p @ [s]"
proof -
  have "\<not> starts_with s ''/''" using assms(1) by (auto simp: starts_with_iff)
  then show ?thesis using assms by (simp add: path_join_def segments_def)
qed

lemma hash_name_chars: "hash_name s \<Longrightarrow> CHR ''/'' \<notin> set s \<and> CHR ''.'' \<notin> set s \<and> s \<noteq> []"
  by (auto simp: hash_name_def list_all_iff is_ascii_digit_def is_ascii_lowercase_def byte_def)

lemma cache_path_last: "hash_name sha \<Longrightarrow> last (artifact_cache_path d j g sha) = sha"
proof -
  assume "hash_name sha"
  then have c: "CHR ''/'' \<notin> set sha" "CHR ''.'' \<notin> set sha" "sha \<noteq> []" using hash_name_chars by blast+
  then have "sha \<noteq> ''.''" by auto
  then show ?thesis using c by (simp add: artifact_cache_path_def path_join_name)
qed

lemma part_path_last:
  assumes "hash_name rid"
  shows "part_path dst rid = butlast dst @ [''.'' @ rid @ ''.part'']"
  unfolding part_path_def using hash_name_chars [OF assms] by (intro path_join_name) auto

lemma part_not_hash: "hash_name rid \<Longrightarrow> hash_name (last p) \<Longrightarrow> part_path dst rid \<noteq> p"
  using hash_name_chars [of "''.'' @ rid @ ''.part''"] by (auto simp: part_path_last)

lemma part_path_inj: "hash_name a \<Longrightarrow> hash_name b \<Longrightarrow> part_path d a = part_path d' b \<Longrightarrow> a = b"
  by (simp add: part_path_last)

section \<open>The cache is addressed by content\<close>

text \<open>SHA-256 in lower-case hex.\<close>

definition sha_hex :: "Crypto \<Rightarrow> bool" where
  "sha_hex cr \<longleftrightarrow> (\<forall>m. length (cr_sha256_hex cr m) = 64 \<and> hash_name (cr_sha256_hex cr m))"

text \<open>A file whose name is the hash of its bytes.\<close>

definition named_right :: "Crypto \<Rightarrow> (string list \<times> CacheFile) list \<Rightarrow> string list \<Rightarrow> bool" where
  "named_right cr files p \<longleftrightarrow> hash_name (last p) \<and> (\<forall>f. map_of files p = Some f \<longrightarrow> cr_sha256_hex cr (cf_bytes f) = last p)"

definition pull_ok :: "Crypto \<Rightarrow> (string list \<times> CacheFile) list \<Rightarrow> string \<Rightarrow> Pull \<Rightarrow> bool" where
  "pull_ok cr files rid p \<longleftrightarrow> hash_name rid \<and> pu_tmp p = part_path (pu_dst p) rid
     \<and> (hash_name (pu_expect_sha p) \<longrightarrow> last (pu_dst p) = pu_expect_sha p)
     \<and> pu_expect_bytes p \<le> MAX_FILE_BYTES
     \<and> (pu_done p = None \<longrightarrow> pu_got p \<le> pu_expect_bytes p
         \<and> (\<exists>h. pu_hasher p = Some h \<and> length h = pu_got p \<and> (\<forall>f. map_of files (pu_tmp p) = Some f \<longrightarrow> cf_bytes f = h)))
     \<and> (pu_done p = Some (Inr ()) \<longrightarrow> hash_name (pu_expect_sha p) \<and> named_right cr files (pu_dst p))"

definition cache_inv :: "Crypto \<Rightarrow> PullState \<Rightarrow> bool" where
  "cache_inv cr st \<longleftrightarrow> (\<forall>rid p. map_of (ps_pulls st) rid = Some p \<longrightarrow> pull_ok cr (ps_files st) rid p)
     \<and> (\<forall>q s. map_of (ps_verified st) q = Some s \<longrightarrow> named_right cr (ps_files st) q)"

text \<open>A change of the files that a pull or a verified name does not notice: files go, a name that is a hash gets its
  bytes, or the part file of another pull changes.\<close>

definition mild :: "Crypto \<Rightarrow> string option \<Rightarrow> (string list \<times> CacheFile) list \<Rightarrow> (string list \<times> CacheFile) list \<Rightarrow> bool" where
  "mild cr own files files' \<longleftrightarrow> (\<forall>p f. map_of files' p = Some f \<longrightarrow> map_of files p = Some f
     \<or> (hash_name (last p) \<and> cr_sha256_hex cr (cf_bytes f) = last p)
     \<or> (\<exists>d rid. own = Some rid \<and> hash_name rid \<and> p = part_path d rid))"

lemma mild_named: "mild cr own files files' \<Longrightarrow> named_right cr files p \<Longrightarrow> named_right cr files' p"
proof -
  assume m: "mild cr own files files'" and n: "named_right cr files p"
  have h: "hash_name (last p)" using n by (simp add: named_right_def)
  have "p \<noteq> part_path d rid" if "hash_name rid" for d rid using part_not_hash [OF that h] by metis
  then have "map_of files p = Some f \<or> cr_sha256_hex cr (cf_bytes f) = last p" if "map_of files' p = Some f" for f
    using m that unfolding mild_def by blast
  then show ?thesis using n unfolding named_right_def by blast
qed

lemma mild_pull: "mild cr own files files' \<Longrightarrow> own \<noteq> Some rid \<Longrightarrow> pull_ok cr files rid p \<Longrightarrow> pull_ok cr files' rid p"
proof -
  assume m: "mild cr own files files'" and o: "own \<noteq> Some rid" and p: "pull_ok cr files rid p"
  have t: "hash_name rid" "pu_tmp p = part_path (pu_dst p) rid" using p by (auto simp: pull_ok_def)
  have "map_of files (pu_tmp p) = Some f" if "map_of files' (pu_tmp p) = Some f" for f
  proof -
    have "\<not> hash_name (last (pu_tmp p))" using part_not_hash [OF t(1), of "pu_tmp p" "pu_dst p"] t(2) by auto
    moreover have "pu_tmp p \<noteq> part_path d r" if "own = Some r" "hash_name r" for d r
      using part_path_inj [OF t(1) that(2)] t(2) o that(1) by auto
    ultimately show ?thesis using that m unfolding mild_def by blast
  qed
  then show ?thesis using p mild_named [OF m] unfolding pull_ok_def by blast
qed

lemma inv_step:
  assumes i: "cache_inv cr st" and m: "mild cr own (ps_files st) (ps_files st')"
    and p: "\<And>rid p. map_of (ps_pulls st') rid = Some p \<Longrightarrow>
      (own \<noteq> Some rid \<and> map_of (ps_pulls st) rid = Some p) \<or> pull_ok cr (ps_files st') rid p"
    and v: "\<And>q s. map_of (ps_verified st') q = Some s \<Longrightarrow> map_of (ps_verified st) q \<noteq> None \<or> named_right cr (ps_files st') q"
  shows "cache_inv cr st'"
  unfolding cache_inv_def
proof (intro conjI allI impI)
  fix rid pl assume "map_of (ps_pulls st') rid = Some pl"
  then show "pull_ok cr (ps_files st') rid pl" using p [of rid pl] mild_pull [OF m] i unfolding cache_inv_def by blast
next
  fix q s assume "map_of (ps_verified st') q = Some s"
  then show "named_right cr (ps_files st') q" using v [of q s] mild_named [OF m] i unfolding cache_inv_def by blast
qed

lemma mild_refl: "mild cr own files files" by (simp add: mild_def)

lemma mild_delete: "mild cr own files (AList.delete p files)"
  by (auto simp: mild_def AList.delete_conv split: if_splits)

lemma mild_trans: "mild cr own a b \<Longrightarrow> mild cr own b c \<Longrightarrow> mild cr own a c"
  unfolding mild_def by blast

lemma map_of_filter_key: "map_of (filter (\<lambda>e. P (fst e)) xs) k = (if P k then map_of xs k else None)"
  by (induction xs) auto

lemma mild_filter: "mild cr own files (filter (\<lambda>e. P (fst e)) files)"
  by (simp add: mild_def map_of_filter_key)

lemma mild_part: "hash_name rid \<Longrightarrow> mild cr (Some rid) files (AList.update (part_path d rid) f files)"
  by (auto simp: mild_def update_conv')

lemma mild_write: "hash_name rid \<Longrightarrow> mild cr (Some rid) files (write_all now (part_path d rid) data files)"
  by (auto simp: write_all_def mild_part mild_refl split: option.splits)

section \<open>Every step keeps it\<close>

text \<open>What never changes of a pull.\<close>

definition same_pull :: "string \<Rightarrow> Pull \<Rightarrow> Pull \<Rightarrow> bool" where
  "same_pull rid p0 p \<longleftrightarrow> hash_name rid \<and> pu_tmp p = part_path (pu_dst p) rid \<and> pu_dst p = pu_dst p0 \<and> pu_expect_sha p = pu_expect_sha p0
     \<and> pu_expect_bytes p \<le> MAX_FILE_BYTES \<and> (hash_name (pu_expect_sha p) \<longrightarrow> last (pu_dst p) = pu_expect_sha p)"

lemma same_pullI:
  "cache_inv cr st \<Longrightarrow> map_of (ps_pulls st) rid = Some p0 \<Longrightarrow> pu_tmp p = pu_tmp p0 \<Longrightarrow> pu_dst p = pu_dst p0
     \<Longrightarrow> pu_expect_sha p = pu_expect_sha p0 \<Longrightarrow> pu_expect_bytes p = pu_expect_bytes p0 \<Longrightarrow> same_pull rid p0 p"
  unfolding cache_inv_def pull_ok_def same_pull_def by metis

lemma pull_fails_inv:
  assumes "cache_inv cr st" "same_pull rid p0 p"
  shows "cache_inv cr (finish_pull rid p (Inl e) st)"
proof (rule inv_step [where own = "Some rid", OF assms(1)])
  show "mild cr (Some rid) (ps_files st) (ps_files (finish_pull rid p (Inl e) st))" by (simp add: finish_pull_def mild_delete)
qed (use assms in \<open>auto simp: finish_pull_def update_conv' pull_ok_def same_pull_def split: if_splits\<close>)

lemma pull_ends_inv:
  assumes "cache_inv cr st" "same_pull rid p0 p" "hash_name (pu_expect_sha p)" "named_right cr (ps_files st) (pu_dst p)"
  shows "cache_inv cr (finish_pull rid p (Inr ()) st)"
proof (rule inv_step [where own = "Some rid", OF assms(1)])
  show "mild cr (Some rid) (ps_files st) (ps_files (finish_pull rid p (Inr ()) st))" by (simp add: finish_pull_def mild_refl)
qed (use assms in \<open>auto simp: finish_pull_def update_conv' pull_ok_def same_pull_def split: if_splits\<close>)

lemma note_verified_same [simp]: "ps_files (note_verified p st) = ps_files st" "ps_pulls (note_verified p st) = ps_pulls st"
  "ps_bg (note_verified p st) = ps_bg st"
  by (auto simp: note_verified_def split: option.splits)

lemma note_verified_inv: "cache_inv cr st \<Longrightarrow> named_right cr (ps_files st) p \<Longrightarrow> cache_inv cr (note_verified p st)"
  by (rule inv_step [where own = None]) (auto simp: mild_refl note_verified_def update_conv' split: option.splits if_splits)

lemma cache_holds_same [simp]: "ps_files (fst (cache_holds cr dst info st)) = ps_files st"
  "ps_pulls (fst (cache_holds cr dst info st)) = ps_pulls st" "ps_bg (fst (cache_holds cr dst info st)) = ps_bg st"
  by (simp_all add: cache_holds_def Let_def)

text \<open>A held file has the hash asked for, where the hash looks like one.\<close>

lemma cache_holds_inv:
  assumes "cache_inv cr st" "sha_hex cr"
  shows "cache_inv cr (fst (cache_holds cr (artifact_cache_path d j g (ar_sha256 info)) info st))"
proof -
  let ?dst = "artifact_cache_path d j g (ar_sha256 info)"
  have "named_right cr (ps_files st) ?dst" if w: "file_sha256 cr st ?dst = Some (ar_sha256 info, n)" for n
  proof -
    obtain f where f: "map_of (ps_files st) ?dst = Some f" "cr_sha256_hex cr (cf_bytes f) = ar_sha256 info"
      using w by (auto simp: file_sha256_def)
    have "hash_name (ar_sha256 info)" using f(2) assms(2) by (metis sha_hex_def)
    then show ?thesis using f cache_path_last by (simp add: named_right_def)
  qed
  then show ?thesis using assms(1) note_verified_inv by (auto simp: cache_holds_def Let_def split: option.splits)
qed

lemma cache_holds_right:
  assumes "cache_inv cr st" "snd (cache_holds cr (artifact_cache_path d j g (ar_sha256 info)) info st)" "hash_name (ar_sha256 info)"
  shows "\<exists>f. map_of (ps_files st) (artifact_cache_path d j g (ar_sha256 info)) = Some f
     \<and> cr_sha256_hex cr (cf_bytes f) = ar_sha256 info \<and> length (cf_bytes f) = ar_bytes info"
proof -
  let ?dst = "artifact_cache_path d j g (ar_sha256 info)"
  show ?thesis
  proof (cases "map_of (ps_files st) ?dst")
    case None
    then show ?thesis using assms(2) by (simp add: cache_holds_def cache_stamp_def file_sha256_def Let_def)
  next
    case (Some f)
    have "cr_sha256_hex cr (cf_bytes f) = ar_sha256 info" if "map_of (ps_verified st) ?dst = Some s" for s
    proof -
      have "named_right cr (ps_files st) ?dst" using assms(1) that unfolding cache_inv_def by blast
      then show ?thesis using Some cache_path_last [OF assms(3)] by (simp add: named_right_def)
    qed
    then show ?thesis using assms(2) Some by (auto simp: cache_holds_def cache_stamp_def file_sha256_def Let_def split: if_splits)
  qed
qed

lemma live_pull_Some: "live_pull node rid st = Some p \<Longrightarrow> map_of (ps_pulls st) rid = Some p \<and> pu_node_id p = node \<and> pu_done p = None"
  by (auto simp: live_pull_def split: option.splits if_splits)

text \<open>What a state between the write and the end of a chunk keeps.\<close>

lemma written_inv:
  assumes "cache_inv cr st" "map_of (ps_pulls st) rid = Some p" "pu_done p = None" "hash_name rid"
    "pu_got p1 = pu_got p + length data" "pu_got p1 \<le> pu_expect_bytes p1" "pu_hasher p1 = map_option (\<lambda>h. h @ data) (pu_hasher p)"
    "pu_tmp p1 = pu_tmp p" "pu_dst p1 = pu_dst p" "pu_expect_sha p1 = pu_expect_sha p" "pu_expect_bytes p1 = pu_expect_bytes p" "pu_done p1 = None"
  shows "cache_inv cr (st \<lparr> ps_files := write_all now (pu_tmp p) data (ps_files st), ps_pulls := AList.update rid p1 (ps_pulls st) \<rparr>)"
    (is "cache_inv cr ?st1")
proof (rule inv_step [where own = "Some rid", OF assms(1)])
  have ok: "pull_ok cr (ps_files st) rid p" using assms(1,2) by (auto simp: cache_inv_def)
  then show "mild cr (Some rid) (ps_files st) (ps_files ?st1)" using mild_write by (simp add: pull_ok_def)
  obtain h where h: "pu_hasher p = Some h" "length h = pu_got p" "\<forall>f. map_of (ps_files st) (pu_tmp p) = Some f \<longrightarrow> cf_bytes f = h"
    using ok assms(3) by (auto simp: pull_ok_def)
  have "cf_bytes f = h @ data" if "map_of (write_all now (pu_tmp p) data (ps_files st)) (pu_tmp p) = Some f" for f
    using that h(3) by (auto simp: write_all_def update_conv' split: option.splits)
  then have "pull_ok cr (ps_files ?st1) rid p1" using ok h assms by (auto simp: pull_ok_def)
  then show "\<And>rid' p'. map_of (ps_pulls ?st1) rid' = Some p' \<Longrightarrow>
      (Some rid \<noteq> Some rid' \<and> map_of (ps_pulls st) rid' = Some p') \<or> pull_ok cr (ps_files ?st1) rid' p'"
    by (auto simp: update_conv' split: if_splits)
qed simp

lemma finish_last_pulls:
  "finish_last cr io rid p (st \<lparr> ps_pulls := AList.update rid p' (ps_pulls st) \<rparr>) = finish_last cr io rid p st"
  by (auto simp: finish_last_def finish_pull_def note_verified_def cache_stamp_def Let_def split: option.splits sum.splits)

text \<open>The last chunk: an error, or the file under its hash.\<close>

definition arrived :: "Crypto \<Rightarrow> Pull \<Rightarrow> string \<Rightarrow> PullState \<Rightarrow> bool" where
  "arrived cr p h st \<longleftrightarrow> map_option cf_bytes (map_of (ps_files st) (pu_dst p)) = Some h
     \<and> cr_sha256_hex cr h = pu_expect_sha p \<and> length h = pu_expect_bytes p"

lemma finish_last_inv:
  assumes i: "cache_inv cr st" and p: "map_of (ps_pulls st) rid = Some p" "pu_done p = None" "pu_hasher p = Some h" and c: "sha_hex cr"
    and st'_def: "st' = finish_last cr io rid p st"
  shows "cache_inv cr st' \<and> (\<exists>r. map_option pu_done (map_of (ps_pulls st') rid) = Some (Some r) \<and> (r = Inr () \<longrightarrow> arrived cr p h st'))"
proof -
  let ?p = "p \<lparr> pu_hasher := None \<rparr>"
  have ok: "pull_ok cr (ps_files st) rid p" using i p(1) by (auto simp: cache_inv_def)
  have sp: "same_pull rid p ?p" using ok by (simp add: pull_ok_def same_pull_def)
  have failed: ?thesis if "st' = finish_pull rid ?p (Inl e) st" for e
    using that pull_fails_inv [OF i sp, of e] by (simp add: finish_pull_def update_conv')
  show ?thesis
  proof (cases "pu_got p \<noteq> pu_expect_bytes p \<or> \<not> ct_eq (cr_sha256_hex cr h) (pu_expect_sha p)")
    case True
    then show ?thesis by (intro failed) (simp add: st'_def finish_last_def p)
  next
    case False
    then have e: "cr_sha256_hex cr h = pu_expect_sha p" "pu_got p = pu_expect_bytes p" by (simp_all add: ct_eq_iff)
    show ?thesis
    proof (cases "rename_file io (pu_tmp p) (pu_dst p) (ps_files st)")
      case (Inl err)
      then show ?thesis using False by (intro failed) (simp add: st'_def finish_last_def p)
    next
      case (Inr files)
      then obtain f where f: "map_of (ps_files st) (pu_tmp p) = Some f" "files = AList.update (pu_dst p) f (AList.delete (pu_tmp p) (ps_files st))"
        by (auto simp: rename_file_def split: option.splits)
      have h: "cf_bytes f = h" "length h = pu_got p" using ok p f(1) by (auto simp: pull_ok_def)
      have hn: "hash_name (pu_expect_sha p)" using e(1) c by (metis sha_hex_def)
      then have l: "last (pu_dst p) = pu_expect_sha p" using ok by (simp add: pull_ok_def)
      have ne: "pu_tmp p \<noteq> pu_dst p" using ok hn l part_not_hash unfolding pull_ok_def by metis
      let ?st1 = "st \<lparr> ps_files := files \<rparr>"
      have nr: "named_right cr files (pu_dst p)" using f(2) h(1) e(1) hn l by (simp add: named_right_def update_conv')
      have "cache_inv cr ?st1"
      proof (rule inv_step [where own = "Some rid", OF i])
        show "mild cr (Some rid) (ps_files st) (ps_files ?st1)"
          using f(2) h(1) e(1) hn l by (auto simp: mild_def update_conv' AList.delete_conv')
        have "pull_ok cr (ps_files ?st1) rid p" using ok p ne f(2) h by (auto simp: pull_ok_def update_conv' AList.delete_conv')
        then show "\<And>rid' p'. map_of (ps_pulls ?st1) rid' = Some p' \<Longrightarrow>
            (Some rid \<noteq> Some rid' \<and> map_of (ps_pulls st) rid' = Some p') \<or> pull_ok cr (ps_files ?st1) rid' p'"
          using p(1) by auto
      qed simp
      then have "cache_inv cr (finish_pull rid ?p (Inr ()) (note_verified (pu_dst p) ?st1))"
        using nr hn sp by (intro pull_ends_inv note_verified_inv) (simp_all add: same_pull_def)
      moreover have "st' = finish_pull rid ?p (Inr ()) (note_verified (pu_dst p) ?st1)"
        using False Inr by (simp add: st'_def finish_last_def p)
      ultimately show ?thesis using f h e by (simp add: finish_pull_def update_conv' arrived_def)
    qed
  qed
qed

lemma finish_pull_done: "map_option pu_done (map_of (ps_pulls (finish_pull rid p r st)) rid) = Some (Some r)"
  by (simp add: finish_pull_def update_conv')

lemma chunk_inv:
  assumes i: "cache_inv cr st" and c: "sha_hex cr" and st'_def: "st' = on_artifact_chunk cr io node ch st"
  shows "cache_inv cr st' \<and> (\<forall>p. live_pull node (ac_request_id ch) st = Some p
      \<and> map_option pu_done (map_of (ps_pulls st') (ac_request_id ch)) = Some (Some (Inr ())) \<longrightarrow> (\<exists>h. arrived cr p h st'))"
proof (cases "live_pull node (ac_request_id ch) st")
  case None
  then show ?thesis using i by (simp add: st'_def on_artifact_chunk_def Let_def)
next
  case (Some p)
  let ?rid = "ac_request_id ch"
  have p: "map_of (ps_pulls st) ?rid = Some p" "pu_done p = None" using live_pull_Some [OF Some] by auto
  then have ok: "pull_ok cr (ps_files st) ?rid p" using i by (auto simp: cache_inv_def)
  have sp: "same_pull ?rid p p" by (rule same_pullI [OF i p(1)]) simp_all
  have failed: ?thesis if "st' = finish_pull ?rid p (Inl e) st" for e
    using that pull_fails_inv [OF i sp, of e] by (simp add: finish_pull_done)
  show ?thesis
  proof (cases "ac_seq ch \<noteq> pu_next_seq p \<or> ac_sha256 ch \<noteq> pu_expect_sha p \<or> ac_total_bytes ch \<noteq> pu_expect_bytes p")
    case True
    then show ?thesis by (intro failed) (simp add: st'_def on_artifact_chunk_def Some bad_transfer_def)
  next
    case in_order: False
    show ?thesis
    proof (cases "cr_unb64 cr (ac_data ch)")
      case None
      then show ?thesis using in_order by (intro failed) (simp add: st'_def on_artifact_chunk_def Some bad_transfer_def)
    next
      case data: (Some data)
      consider "TRANSFER_CHUNK < length data \<or> pu_expect_bytes p < u64_add (pu_got p) (length data)"
        | "\<not> (TRANSFER_CHUNK < length data \<or> pu_expect_bytes p < u64_add (pu_got p) (length data))" "\<not> (pu_file p \<and> wi_write io)"
        | "\<not> (TRANSFER_CHUNK < length data \<or> pu_expect_bytes p < u64_add (pu_got p) (length data))" "pu_file p \<and> wi_write io" by blast
      then show ?thesis
      proof cases
        case 1
        then show ?thesis using in_order data by (intro failed) (simp add: st'_def on_artifact_chunk_def Some bad_transfer_def)
      next
        case 2
        then show ?thesis using in_order data by (intro failed) (simp add: st'_def on_artifact_chunk_def Some)
      next
        case fits: 3
        have a: "u64_add (pu_got p) (length data) = pu_got p + length data"
          using ok p(2) fits(1) by (simp add: pull_ok_def u64_add_def MAX_FILE_BYTES_def TRANSFER_CHUNK_def)
        let ?p1 = "p \<lparr> pu_hasher := map_option (\<lambda>h. h @ data) (pu_hasher p), pu_got := pu_got p + length data,
            pu_next_seq := as_u32 (pu_next_seq p + 1) \<rparr>"
        let ?st1 = "st \<lparr> ps_files := write_all (wi_now io) (pu_tmp p) data (ps_files st) \<rparr>"
        let ?st2 = "?st1 \<lparr> ps_pulls := AList.update ?rid ?p1 (ps_pulls ?st1) \<rparr>"
        have i2: "cache_inv cr ?st2"
          using written_inv [OF i p, of ?p1 data "wi_now io"] ok fits(1) a by (simp add: pull_ok_def p(2))
        have e: "st' = (if ac_last ch then finish_last cr io ?rid ?p1 ?st1 else ?st2)"
          using in_order data fits a by (simp add: st'_def on_artifact_chunk_def Some Let_def)
        obtain h where h: "pu_hasher ?p1 = Some h" using ok p(2) by (auto simp: pull_ok_def)
        show ?thesis
        proof (cases "ac_last ch")
          case False
          then show ?thesis using i2 e p(2) by (simp add: update_conv')
        next
          case True
          then have "st' = finish_last cr io ?rid ?p1 ?st2" using e by (simp only: finish_last_pulls if_True)
          from finish_last_inv [OF i2 _ _ h c this]
          have f: "cache_inv cr st'" "\<exists>r. map_option pu_done (map_of (ps_pulls st') ?rid) = Some (Some r) \<and> (r = Inr () \<longrightarrow> arrived cr ?p1 h st')"
            by (simp_all add: update_conv' p(2))
          moreover have "arrived cr ?p1 h st' = arrived cr p h st'" by (simp add: arrived_def)
          ultimately show ?thesis using Some by auto
        qed
      qed
    qed
  qed
qed

lemma failed_inv:
  assumes "cache_inv cr st"
  shows "cache_inv cr (on_artifact_failed node f st)
     \<and> (map_option pu_done (map_of (ps_pulls (on_artifact_failed node f st)) rid) = Some (Some (Inr ()))
          \<longrightarrow> map_option pu_done (map_of (ps_pulls st) rid) = Some (Some (Inr ())))"
proof (cases "live_pull node (af_request_id f) st")
  case (Some p)
  have "same_pull (af_request_id f) p p" by (rule same_pullI [OF assms]) (use live_pull_Some [OF Some] in auto)
  from pull_fails_inv [OF assms this] show ?thesis using Some by (auto simp: on_artifact_failed_def finish_pull_def update_conv' split: if_splits)
qed (use assms in \<open>simp add: on_artifact_failed_def\<close>)

text \<open>The random id of a request is hex.\<close>

definition id_hex :: "FetchEnv \<Rightarrow> bool" where
  "id_hex env \<longleftrightarrow> (case fe_random_id env of Inr rid \<Rightarrow> hash_name rid | Inl e \<Rightarrow> True)"

lemma cap_bound: "pull_cap_refusal route over_relay n = None \<Longrightarrow> n \<le> MAX_FILE_BYTES"
  by (auto simp: pull_cap_refusal_def artifact_pull_cap_def Let_def MAX_FILE_BYTES_def RELAY_MAX_FILE_BYTES_def split: if_splits)

lemma begin_inv:
  assumes "cache_inv cr st" "sha_hex cr" "id_hex env"
  shows "cache_inv cr (fst (fetch_begin cr env d job info over_relay st))"
proof -
  let ?dst = "artifact_cache_path d (fj_id job) (fj_generation job) (ar_sha256 info)"
  obtain st1 held where ch: "cache_holds cr ?dst info st = (st1, held)" by fastforce
  have i: "cache_inv cr st1" using cache_holds_inv [OF assms(1,2), of d "fj_id job" "fj_generation job" info] ch by simp
  have "cache_inv cr (st1 \<lparr> ps_files := AList.update (part_path ?dst rid) f (ps_files st1), ps_pulls := AList.update rid p (ps_pulls st1) \<rparr>)"
    if r: "hash_name rid" and p: "pu_tmp p = part_path ?dst rid" "pu_dst p = ?dst" "pu_expect_sha p = ar_sha256 info" "pu_done p = None"
      "pu_got p = 0" "pu_hasher p = Some []" "pu_expect_bytes p \<le> MAX_FILE_BYTES" "cf_bytes f = []" for rid p f
  proof (rule inv_step [where own = "Some rid", OF i])
    have "pull_ok cr (AList.update (part_path ?dst rid) f (ps_files st1)) rid p"
      using r p cache_path_last by (auto simp: pull_ok_def update_conv')
    then show "\<And>rid' p'. map_of (ps_pulls (st1 \<lparr> ps_files := AList.update (part_path ?dst rid) f (ps_files st1), ps_pulls := AList.update rid p (ps_pulls st1) \<rparr>)) rid' = Some p' \<Longrightarrow>
        (Some rid \<noteq> Some rid' \<and> map_of (ps_pulls st1) rid' = Some p')
        \<or> pull_ok cr (ps_files (st1 \<lparr> ps_files := AList.update (part_path ?dst rid) f (ps_files st1), ps_pulls := AList.update rid p (ps_pulls st1) \<rparr>)) rid' p'"
      by (auto simp: update_conv' split: if_splits)
  qed (use r mild_part in auto)
  then show ?thesis using i assms(3) cap_bound ch
    by (auto simp: fetch_begin_def Let_def id_hex_def split: prod.splits option.splits sum.splits)
qed

lemma fetch_end_inv: "cache_inv cr st \<Longrightarrow> cache_inv cr (fetch_end rid dst st)"
  by (rule inv_step [where own = None]) (auto simp: fetch_end_def mild_delete AList.delete_conv' split: if_splits)

lemma sweep_inv: "cache_inv cr st \<Longrightarrow> cache_inv cr (sweep_artifact_cache d old st)"
  unfolding sweep_artifact_cache_def Let_def
  by (rule inv_step [where own = None])
     (use mild_filter [where P = "\<lambda>p. \<not> (length (d @ [''artifacts'']) < length p \<and> take (length (d @ [''artifacts''])) p = d @ [''artifacts'']
        \<and> old (p ! length (d @ [''artifacts''])))"] in auto)

lemma bg_inv: "cache_inv cr (st \<lparr> ps_bg := b \<rparr>) = cache_inv cr st"
  by (simp add: cache_inv_def)

lemma wait_begin_inv: "cache_inv cr st \<Longrightarrow> sha_hex cr \<Longrightarrow>
    cache_inv cr (fst (wait_begin cr now (artifact_cache_path d j g (ar_sha256 info)) info st))"
  using cache_holds_inv by (auto simp: wait_begin_def Let_def bg_inv split: prod.splits if_splits) (metis fst_conv)+

lemma bg_settle_inv: "cache_inv cr st \<Longrightarrow> cache_inv cr (bg_settle now dst r st)"
  by (auto simp: bg_settle_def bg_inv split: option.splits)

lemma wait_poll_inv: "cache_inv cr st \<Longrightarrow> cache_inv cr (fst (wait_poll now deadline dst st))"
  by (auto simp: wait_poll_def bg_inv split: option.splits)

section \<open>Runs of the server\<close>

text \<open>The steps of all threads: frames of any node, fetches, their ends (whether the pull settled or timed out), the
  background fetches and the sweep, in any order.\<close>

inductive pull_step :: "Crypto \<Rightarrow> PullState \<Rightarrow> PullState \<Rightarrow> bool" for cr where
  step_frame: "pull_step cr st (on_artifact_frame cr io node f st)"
| step_begin: "id_hex env \<Longrightarrow> pull_step cr st (fst (fetch_begin cr env d job info over_relay st))"
| step_end: "pull_step cr st (fetch_end rid dst st)"
| step_wait: "pull_step cr st (fst (wait_begin cr now (artifact_cache_path d j g (ar_sha256 info)) info st))"
| step_settle: "pull_step cr st (bg_settle now dst r st)"
| step_poll: "pull_step cr st (fst (wait_poll now deadline dst st))"
| step_sweep: "pull_step cr st (sweep_artifact_cache d old st)"

definition server_runs :: "Crypto \<Rightarrow> PullState \<Rightarrow> PullState \<Rightarrow> bool" where
  "server_runs cr = (pull_step cr)\<^sup>*\<^sup>*"

lemma frame_inv: "cache_inv cr st \<Longrightarrow> sha_hex cr \<Longrightarrow> cache_inv cr (on_artifact_frame cr io node f st)"
  using chunk_inv failed_inv by (auto simp: on_artifact_frame_def split: ArtifactFrame.splits)

lemma step_inv: "pull_step cr st st' \<Longrightarrow> sha_hex cr \<Longrightarrow> cache_inv cr st \<Longrightarrow> cache_inv cr st'"
  by (induction rule: pull_step.induct)
     (simp_all add: frame_inv begin_inv fetch_end_inv wait_begin_inv bg_settle_inv wait_poll_inv sweep_inv)

lemma runs_inv: "server_runs cr st st' \<Longrightarrow> sha_hex cr \<Longrightarrow> cache_inv cr st \<Longrightarrow> cache_inv cr st'"
  unfolding server_runs_def by (induction rule: rtranclp_induct) (auto dest: step_inv)

text \<open>A new daemon: the cache holds whatever is on the disk.\<close>

definition fresh_server :: "PullState \<Rightarrow> bool" where
  "fresh_server st \<longleftrightarrow> ps_pulls st = [] \<and> ps_verified st = []"

lemma fresh_inv: "fresh_server st \<Longrightarrow> cache_inv cr st"
  by (simp add: fresh_server_def cache_inv_def)


section \<open>What a node kept arrives\<close>

lemma fill_bytes:
  "io_bytes steps = Some b \<Longrightarrow> \<exists>steps'. fill room acc steps = Inr (acc @ take room b, steps')
     \<and> (room \<le> length b \<longrightarrow> io_bytes steps' = Some (drop room b))"
proof (induction room acc steps arbitrary: b rule: fill.induct)
  case (2 room acc c steps)
  show ?case
  proof (cases "room = 0 \<or> c = []")
    case True
    then show ?thesis using 2(2) by auto
  next
    case False
    then obtain r where r: "io_bytes steps = Some r" "b = c @ r" using 2(2) by auto
    show ?thesis
    proof (cases "room < length c")
      case True
      then show ?thesis using False r by simp
    next
      case False
      then show ?thesis using 2(1) [of r] r \<open>\<not> (room = 0 \<or> c = [])\<close> by auto
    qed
  qed
qed auto

text \<open>The server's side of a healthy pull that has stored \<open>h\<close> so far.\<close>

definition pulling :: "PullState \<Rightarrow> string \<Rightarrow> string \<Rightarrow> ArtifactInfo \<Rightarrow> string list \<Rightarrow> nat \<Rightarrow> string \<Rightarrow> bool" where
  "pulling st node rid info dst sq h \<longleftrightarrow> (\<exists>p f. map_of (ps_pulls st) rid = Some p \<and> pu_node_id p = node \<and> pu_done p = None \<and> pu_file p
     \<and> pu_hasher p = Some h \<and> pu_got p = length h \<and> pu_next_seq p = sq \<and> pu_expect_sha p = ar_sha256 info \<and> pu_expect_bytes p = ar_bytes info
     \<and> pu_dst p = dst \<and> pu_tmp p = part_path dst rid \<and> map_of (ps_files st) (pu_tmp p) = Some f \<and> cf_bytes f = h)"

definition deliver :: "Crypto \<Rightarrow> (ArtifactFrame \<Rightarrow> WriteIo) \<Rightarrow> string \<Rightarrow> ArtifactFrame list \<Rightarrow> PullState \<Rightarrow> PullState" where
  "deliver cr io node fs st = foldl (\<lambda>s f. on_artifact_frame cr (io f) node f s) st fs"

lemma one_chunk:
  assumes p: "pulling st node (ag_request_id g) info dst sq h" and io: "wi_write io" "wi_rename io = None"
    and b: "cr_unb64 cr (cr_b64 cr buf) = Some buf" "length buf \<le> TRANSFER_CHUNK" "length h + length buf \<le> ar_bytes info" "ar_bytes info \<le> MAX_FILE_BYTES"
    and st'_def: "st' = on_artifact_chunk cr io node \<lparr> ac_request_id = ag_request_id g, ac_seq = sq, ac_data = cr_b64 cr buf, ac_last = l,
      ac_total_bytes = ar_bytes info, ac_sha256 = ar_sha256 info \<rparr> st"
  shows "\<not> l \<Longrightarrow> pulling st' node (ag_request_id g) info dst (as_u32 (sq + 1)) (h @ buf)"
    and "l \<Longrightarrow> length (h @ buf) = ar_bytes info \<Longrightarrow> cr_sha256_hex cr (h @ buf) = ar_sha256 info
      \<Longrightarrow> map_option pu_done (map_of (ps_pulls st') (ag_request_id g)) = Some (Some (Inr ()))
        \<and> map_option cf_bytes (map_of (ps_files st') dst) = Some (h @ buf)"
proof -
  obtain pl f where pl: "map_of (ps_pulls st) (ag_request_id g) = Some pl" "pu_node_id pl = node" "pu_done pl = None" "pu_file pl"
     "pu_hasher pl = Some h" "pu_got pl = length h" "pu_next_seq pl = sq" "pu_expect_sha pl = ar_sha256 info" "pu_expect_bytes pl = ar_bytes info"
     "pu_dst pl = dst" "pu_tmp pl = part_path dst (ag_request_id g)" "map_of (ps_files st) (pu_tmp pl) = Some f" "cf_bytes f = h"
    using p by (auto simp: pulling_def)
  have a: "u64_add (length h) (length buf) = length h + length buf" using b by (simp add: u64_add_def MAX_FILE_BYTES_def)
  have live: "live_pull node (ag_request_id g) st = Some pl" using pl by (simp add: live_pull_def)
  show "\<not> l \<Longrightarrow> pulling st' node (ag_request_id g) info dst (as_u32 (sq + 1)) (h @ buf)"
    unfolding st'_def on_artifact_chunk_def using pl a b io live by (simp add: pulling_def Let_def update_conv' write_all_def)
  show "l \<Longrightarrow> length (h @ buf) = ar_bytes info \<Longrightarrow> cr_sha256_hex cr (h @ buf) = ar_sha256 info
      \<Longrightarrow> map_option pu_done (map_of (ps_pulls st') (ag_request_id g)) = Some (Some (Inr ()))
        \<and> map_option cf_bytes (map_of (ps_files st') dst) = Some (h @ buf)"
    unfolding st'_def on_artifact_chunk_def using pl a b io live
    by (simp add: Let_def update_conv' write_all_def finish_last_def ct_eq_iff rename_file_def finish_pull_def)
qed

lemma chunks_delivered:
  assumes "pulling st node (ag_request_id g) info dst sq h" "io_bytes steps = Some b" "ar_bytes info = length (h @ b)"
    "cr_sha256_hex cr (h @ b) = ar_sha256 info" "ar_bytes info \<le> MAX_FILE_BYTES"
    "\<And>x. cr_unb64 cr (cr_b64 cr x) = Some x" "\<And>n. alive n" "\<And>f. wi_write (io f)" "\<And>f. wi_rename (io f) = None"
  shows "let st' = deliver cr io node (send_chunks cr alive g info (ar_bytes info) steps sq (length h)) st
    in map_option pu_done (map_of (ps_pulls st') (ag_request_id g)) = Some (Some (Inr ())) \<and> map_option cf_bytes (map_of (ps_files st') dst) = Some (h @ b)"
  using assms
proof (induction "io_size steps" arbitrary: st steps sq h b rule: less_induct)
  case less
  let ?buf = "take TRANSFER_CHUNK b"
  obtain steps' where f: "fill TRANSFER_CHUNK [] steps = Inr (?buf, steps')" "TRANSFER_CHUNK \<le> length b \<Longrightarrow> io_bytes steps' = Some (drop TRANSFER_CHUNK b)"
    using fill_bytes [OF less.prems(2), of TRANSFER_CHUNK "[]"] by auto
  have a: "u64_add (length h) (length ?buf) = length (h @ ?buf)"
    using less.prems(3,5) by (simp add: u64_add_def MAX_FILE_BYTES_def)
  define l where "l \<longleftrightarrow> ar_bytes info \<le> length (h @ ?buf) \<or> length ?buf < TRANSFER_CHUNK"
  define c where "c = \<lparr> ac_request_id = ag_request_id g, ac_seq = sq, ac_data = cr_b64 cr ?buf, ac_last = l,
      ac_total_bytes = ar_bytes info, ac_sha256 = ar_sha256 info \<rparr>"
  let ?st1 = "on_artifact_chunk cr (io (Af_Chunk c)) node c st"
  have s: "send_chunks cr alive g info (ar_bytes info) steps sq (length h)
      = Af_Chunk c # (if l then [] else send_chunks cr alive g info (ar_bytes info) steps' (as_u32 (sq + 1)) (length (h @ ?buf)))"
    using less.prems(7) f(1) a by (subst send_chunks.simps) (simp add: Let_def c_def l_def)
  note one = one_chunk [OF less.prems(1) less.prems(8) [of "Af_Chunk c"] less.prems(9) [of "Af_Chunk c"] less.prems(6) [of ?buf]
      _ _ less.prems(5) refl, where l = l, folded c_def]
  have len: "length ?buf \<le> TRANSFER_CHUNK" "length h + length ?buf \<le> ar_bytes info" using less.prems(3) by simp_all
  show ?case
  proof (cases l)
    case True
    then have "?buf = b" using less.prems(3) by (auto simp: l_def)
    then show ?thesis using one(2) [OF len True] less.prems(3,4) s True by (simp add: deliver_def on_artifact_frame_def)
  next
    case False
    then have n: "TRANSFER_CHUNK \<le> length b" by (simp add: l_def min_def split: if_splits)
    have "io_size steps' < io_size steps" using fill_size [OF f(1)] n by (simp add: TRANSFER_CHUNK_def)
    from less.hyps [OF this one(1) [OF len False] f(2) [OF n] _ _ less.prems(5-9)]
    show ?thesis using less.prems(3,4) s False by (simp add: deliver_def on_artifact_frame_def)
  qed
qed

end
