(* ===== verification/Artifact_Kept.thy ===== *)
theory Artifact_Kept
  imports Artifact_Rules
begin

text \<open>
  What \<open>collect\<close> keeps: regular files of the job's tree that match a glob of the plan, within the caps, each under a
  name of its own with its hash; and the way of such a file to the server.
\<close>

section \<open>Names\<close>

text \<open>What the system guarantees of a name in a directory.\<close>

definition plain :: "string \<Rightarrow> bool" where
  "plain x \<longleftrightarrow> x \<noteq> [] \<and> x \<noteq> ''.'' \<and> x \<noteq> ''..'' \<and> CHR ''/'' \<notin> set x \<and> CHR 0x00 \<notin> set x"

fun fs_plain :: "FsNode \<Rightarrow> bool" where
  "fs_plain (Fs_Dir r es) \<longleftrightarrow> (\<forall>e \<in> set es. plain (fst e) \<and> fs_plain (snd e))"
| "fs_plain _ \<longleftrightarrow> True"

lemma entry_plain: "fs_plain node \<Longrightarrow> fs_entry node x = Some m \<Longrightarrow> plain x \<and> fs_plain m"
  by (cases node) (auto dest!: map_of_SomeD)

lemma listing_plain: "fs_plain node \<Longrightarrow> (x, m) \<in> set (listing node) \<Longrightarrow> plain x \<and> fs_plain m"
  by (cases node rule: listing.cases) auto

lemma found_plain: "found ss node n b \<Longrightarrow> fs_plain node \<Longrightarrow> n \<noteq> [] \<and> list_all plain n"
  by (induction rule: found.induct) (auto dest: entry_plain listing_plain)

lemma split_on_snoc: "d \<notin> set x \<Longrightarrow> split_on d (a @ d # x) = split_on d a @ [x]"
  by (induction a) (auto split: list.splits)

lemma split_join: "n \<noteq> [] \<Longrightarrow> list_all plain n \<Longrightarrow> split_on (CHR ''/'') (foldl join_name [] n) = n"
proof (induction n rule: rev_induct)
  case (snoc x n)
  show ?case
  proof (cases "n = []")
    case True
    then show ?thesis using snoc by (simp add: join_name_def plain_def)
  next
    case False
    then have n: "split_on (CHR ''/'') (foldl join_name [] n) = n" using snoc by simp
    then have "foldl join_name [] n \<noteq> []" using False snoc.prems(2) by (auto simp: plain_def)
    then have "foldl join_name [] (n @ [x]) = foldl join_name [] n @ CHR ''/'' # x" by (simp add: join_name_def [of "foldl join_name [] n"])
    then show ?thesis using snoc.prems(2) n by (simp add: plain_def split_on_snoc)
  qed
qed simp

lemma set_join: "set (foldl join_name a n) \<subseteq> set a \<union> \<Union> (set ` set n) \<union> {CHR ''/''}"
proof (induction n arbitrary: a)
  case (Cons x n)
  have "set (join_name a x) \<subseteq> set a \<union> set x \<union> {CHR ''/''}" by (auto simp: join_name_def)
  then show ?case using Cons [of "join_name a x"] by fastforce
qed auto

lemma join_safe:
  assumes "n \<noteq> []" "list_all plain n"
  shows "safe_relative (foldl join_name [] n) = Some n"
proof -
  let ?s = "foldl join_name [] n"
  have s: "split_on (CHR ''/'') ?s = n" using split_join assms by blast
  have "?s \<noteq> []" "\<not> starts_with ?s ''/''"
    using s assms by (auto simp: starts_with_iff plain_def)
  moreover have "CHR 0x00 \<notin> set ?s" using set_join [of "[]" n] assms(2) by (auto simp: plain_def list_all_iff)
  moreover have "filter (\<lambda>s. s \<noteq> [] \<and> s \<noteq> ''.'') n = n" using assms(2) by (auto simp: plain_def list_all_iff intro: filter_True)
  ultimately show ?thesis using s assms(2) by (auto simp: safe_relative_def segments_def plain_def list_all_iff list_ex_iff)
qed

definition roots_plain :: "Roots \<Rightarrow> bool" where
  "roots_plain roots \<longleftrightarrow> fs_plain (rt_cwd_node roots) \<and> (case rt_target roots of Some (t, node) \<Rightarrow> fs_plain node | None \<Rightarrow> True)"

lemma job_file_safe:
  assumes "job_file roots ss path name b" "roots_plain roots"
  shows "\<exists>n. safe_relative name = Some n \<and> name = foldl join_name [] n"
proof -
  have t: "foldl join_name ''target'' n = foldl join_name [] (''target'' # n)" for n by (simp add: join_name_def)
  have "plain ''target''" by (simp add: plain_def)
  have "\<exists>n. n \<noteq> [] \<and> list_all plain n \<and> name = foldl join_name [] n"
    using assms(1) unfolding job_file_def
  proof (elim disjE exE conjE)
    fix n assume h: "name = foldl join_name [] n" "found ss (rt_cwd_node roots) n b"
    then have "n \<noteq> [] \<and> list_all plain n" using found_plain [OF h(2)] assms(2) by (simp add: roots_plain_def)
    then show ?thesis using h(1) by blast
  next
    fix tr node n assume h: "rt_target roots = Some (tr, node)" "name = foldl join_name ''target'' n" "found (tl ss) node n b"
    then have "list_all plain n" using found_plain assms(2) by (auto simp: roots_plain_def)
    then show ?thesis using h(2) t \<open>plain ''target''\<close> by (intro exI [of _ "''target'' # n"]) simp
  qed
  then show ?thesis using join_safe by blast
qed

section \<open>Copying\<close>

lemma copy_loop_ok:
  "copy_loop cr src dst steps acc n = (Inr (sha, m), c) \<Longrightarrow> \<exists>b. io_bytes steps = Some b \<and> c = acc @ b \<and> sha = cr_sha256_hex cr c
     \<and> (n + length b < 2 ^ 64 \<longrightarrow> m = n + length b)"
proof (induction cr src dst steps acc n rule: copy_loop.induct)
  case (2 cr src dst b steps acc n)
  show ?case
  proof (cases "b = []")
    case False
    then obtain r where "io_bytes steps = Some r" "c = (acc @ b) @ r" "sha = cr_sha256_hex cr c"
        "u64_add n (length b) + length r < 2 ^ 64 \<longrightarrow> m = u64_add n (length b) + length r"
      using 2 by auto
    then show ?thesis using False by (auto simp: u64_add_def)
  qed (use 2(2) in auto)
qed auto

lemma copy_hash_ok:
  "copy_hash cr io src dst = (Inr (sha, m), w) \<Longrightarrow> \<exists>b. io_bytes (ci_steps io) = Some b \<and> w = Some b \<and> sha = cr_sha256_hex cr b
     \<and> (length b < 2 ^ 64 \<longrightarrow> m = length b)"
  using copy_loop_ok by (fastforce simp: copy_hash_def split: option.splits prod.splits)

section \<open>Collecting\<close>

text \<open>A read of a file of the job's tree that succeeds gives its bytes.\<close>

definition reads_right :: "Roots \<Rightarrow> (string list \<Rightarrow> CopyIo) \<Rightarrow> bool" where
  "reads_right roots io \<longleftrightarrow> (\<forall>ss path name b x. job_file roots ss path name b \<longrightarrow> io_bytes (ci_steps (io path)) = Some x \<longrightarrow> x = b)"

definition kept_right :: "Crypto \<Rightarrow> string list \<Rightarrow> Roots \<Rightarrow> string list \<Rightarrow> (string list \<times> string) list \<Rightarrow> ArtifactInfo \<Rightarrow> bool" where
  "kept_right cr globs roots keep files a \<longleftrightarrow> (\<exists>g \<in> set globs. glob_refusal g = None \<and> (\<exists>path rel b. job_file roots (segments g) path (ar_name a) b
     \<and> safe_relative (ar_name a) = Some rel \<and> map_of files (keep @ rel) = Some b
     \<and> ar_sha256 a = cr_sha256_hex cr b \<and> ar_bytes a = length b \<and> length b \<le> MAX_FILE_BYTES))"

definition keeping_ok :: "Crypto \<Rightarrow> string list \<Rightarrow> Roots \<Rightarrow> string list \<Rightarrow> Hit list \<Rightarrow> Keeping \<Rightarrow> bool" where
  "keeping_ok cr globs roots keep hs k \<longleftrightarrow> list_all (kept_right cr globs roots keep (kp_files k)) (kp_artifacts k)
     \<and> kp_total k = sum_list (map ar_bytes (kp_artifacts k)) \<and> kp_total k \<le> MAX_TOTAL_BYTES \<and> length (kp_artifacts k) \<le> MAX_FILES
     \<and> distinct (map ar_name (kp_artifacts k) @ map h_name hs)"

text \<open>Another name's file stays.\<close>

lemma kept_right_update:
  assumes "kept_right cr globs roots keep files a" "roots_plain roots" "safe_relative name = Some rel" "name = foldl join_name [] rel" "ar_name a \<noteq> name"
  shows "kept_right cr globs roots keep (AList.update (keep @ rel) c files) a"
proof -
  have "rel' \<noteq> rel" if "job_file roots ss path (ar_name a) b" "safe_relative (ar_name a) = Some rel'" for ss path b rel'
    using job_file_safe [OF that(1) assms(2)] that(2) assms(4,5) by auto
  then show ?thesis using assms(1) unfolding kept_right_def by (fastforce simp: update_conv')
qed

lemma kp_note_simps [simp]: "kp_artifacts (kp_note n k) = kp_artifacts k" "kp_total (kp_note n k) = kp_total k" "kp_files (kp_note n k) = kp_files k"
  by (simp_all add: kp_note_def)

lemma absorb_junit_same [simp]: "kp_artifacts (absorb_junit x n c k) = kp_artifacts k" "kp_total (absorb_junit x n c k) = kp_total k"
  "kp_files (absorb_junit x n c k) = kp_files k"
  by (auto simp: absorb_junit_def split: sum.splits)

lemma keeping_less: "keeping_ok cr globs roots keep (h # hs) k \<Longrightarrow> kp_artifacts k' = kp_artifacts k \<Longrightarrow> kp_total k' = kp_total k
    \<Longrightarrow> kp_files k' = kp_files k \<Longrightarrow> keeping_ok cr globs roots keep hs k'"
  by (auto simp: keeping_ok_def)

lemma keep_hit_ok:
  assumes k: "keeping_ok cr globs roots keep (h # hs) k" "length (kp_artifacts k) < MAX_FILES"
    and h: "hit_ok roots globs h" and r: "roots_plain roots" "reads_right roots io"
  shows "keeping_ok cr globs roots keep hs (keep_hit cr read_xml io keep h k)"
proof -
  obtain g b where g: "g \<in> set globs" "glob_refusal g = None" "job_file roots (segments g) (h_path h) (h_name h) b" "h_bytes h = length b"
    using h by (auto simp: hit_ok_def)
  obtain rel where rel: "safe_relative (h_name h) = Some rel" "h_name h = foldl join_name [] rel" using job_file_safe [OF g(3) r(1)] by auto
  show ?thesis
  proof (cases "MAX_FILE_BYTES < h_bytes h \<or> MAX_TOTAL_BYTES < u64_add (kp_total k) (h_bytes h)")
    case True
    then show ?thesis using keeping_less [OF k(1)] by (auto simp: keep_hit_def)
  next
    case small: False
    obtain res w where c: "copy_hash cr (io (h_path h)) (h_path h) (keep @ rel) = (res, w)" by fastforce
    let ?files = "case w of None \<Rightarrow> kp_files k | Some x \<Rightarrow> AList.update (keep @ rel) x (kp_files k)"
    have others: "list_all (kept_right cr globs roots keep ?files) (kp_artifacts k)"
      unfolding list_all_iff
    proof
      fix a assume a: "a \<in> set (kp_artifacts k)"
      then have "kept_right cr globs roots keep (kp_files k) a" "ar_name a \<noteq> h_name h"
        using k(1) by (force simp: keeping_ok_def list_all_iff)+
      then show "kept_right cr globs roots keep ?files a" using kept_right_update [OF _ r(1) rel] by (cases w) auto
    qed
    show ?thesis
    proof (cases res)
      case (Inl e)
      then show ?thesis using small rel c others k(1) by (auto simp: keep_hit_def Let_def keeping_ok_def split: option.splits)
    next
      case (Inr sm)
      obtain sha m where sm: "sm = (sha, m)" by fastforce
      obtain x where x: "io_bytes (ci_steps (io (h_path h))) = Some x" "w = Some x" "sha = cr_sha256_hex cr x" "length x < 2 ^ 64 \<longrightarrow> m = length x"
        using copy_hash_ok c Inr sm by blast
      have b: "x = b" using r(2) g(3) x(1) unfolding reads_right_def by blast
      have le: "length b \<le> MAX_FILE_BYTES" using small g(4) by simp
      then have m: "m = length b" using x(4) b by (simp add: MAX_FILE_BYTES_def)
      have "kp_total k \<le> MAX_TOTAL_BYTES" using k(1) by (simp add: keeping_ok_def)
      then have tot: "u64_add (kp_total k) (length b) = kp_total k + length b"
        using le by (simp add: u64_add_def MAX_FILE_BYTES_def MAX_TOTAL_BYTES_def)
      then have cap: "kp_total k + length b \<le> MAX_TOTAL_BYTES" using small g(4) by simp
      let ?k' = "keep_hit cr read_xml io keep h k"
      have f: "kp_artifacts ?k' = kp_artifacts k @ [\<lparr> ar_name = h_name h, ar_sha256 = sha, ar_bytes = m \<rparr>]"
          "kp_total ?k' = kp_total k + length b" "kp_files ?k' = ?files"
        using small rel c Inr sm x m tot by (simp_all add: keep_hit_def Let_def)
      have "kept_right cr globs roots keep ?files \<lparr> ar_name = h_name h, ar_sha256 = sha, ar_bytes = m \<rparr>"
        unfolding kept_right_def using g rel x b m le by (auto simp: update_conv' intro!: bexI [of _ g])
      then show ?thesis using f others k cap m by (auto simp: keeping_ok_def)
    qed
  qed
qed

lemma keep_hits_ok:
  "keeping_ok cr globs roots keep hs k \<Longrightarrow> list_all (hit_ok roots globs) hs \<Longrightarrow> roots_plain roots \<Longrightarrow> reads_right roots io
     \<Longrightarrow> keeping_ok cr globs roots keep [] (keep_hits cr read_xml io keep hs k)"
proof (induction hs arbitrary: k)
  case (Cons h hs)
  show ?case
  proof (cases "MAX_FILES \<le> length (kp_artifacts k)")
    case True
    then show ?thesis using Cons.prems(1) by (simp add: keeping_ok_def)
  next
    case False
    then show ?thesis using Cons keep_hit_ok [OF Cons.prems(1)] by simp
  qed
qed simp

text \<open>C21: What a node keeps of a job are regular files of the job's tree that match one of the plan's globs: at most 1000, each
  under a name of its own, each within 500 MB, 2 GB together; each is stored whole under its name, and its reported hash and
  length are those of its bytes.\<close>

theorem collect_within:
  assumes "roots_plain roots" "reads_right roots io"
  shows "case collect cr read_xml io globs roots keep of (o1, files) \<Rightarrow>
      length (ou_artifacts o1) \<le> MAX_FILES \<and> distinct (map ar_name (ou_artifacts o1))
      \<and> sum_list (map ar_bytes (ou_artifacts o1)) \<le> MAX_TOTAL_BYTES
      \<and> list_all (kept_right cr globs roots keep files) (ou_artifacts o1)"
proof -
  obtain hs ns where m: "match_globs roots globs ([], []) = (hs, ns)" by fastforce
  from match_globs_ok [OF this subset_refl] have hs: "list_all (hit_ok roots globs) hs" "distinct (map h_name hs)" by simp_all
  have "keeping_ok cr globs roots keep hs \<lparr> kp_artifacts = [], kp_tests = None, kp_notes = ns, kp_total = 0, kp_files = [] \<rparr>"
    using hs(2) by (simp add: keeping_ok_def)
  from keep_hits_ok [OF this hs(1) assms, of read_xml] show ?thesis using m
    by (simp add: collect_def Let_def capped_def keeping_ok_def)
qed

section \<open>From the job's tree to the server\<close>

text \<open>The node's files as they were kept: a read gives their bytes.\<close>

definition still_kept :: "(string list \<times> string) list \<Rightarrow> (string list \<Rightarrow> KeptStat) \<Rightarrow> bool" where
  "still_kept files stat \<longleftrightarrow> (\<forall>p b. map_of files p = Some b \<longrightarrow> (\<exists>steps. stat p = Ks_File (Inr (length b, steps)) \<and> io_bytes steps = Some b))"

lemma find_distinct: "a \<in> set xs \<Longrightarrow> distinct (map f xs) \<Longrightarrow> find (\<lambda>x. f x = f a) xs = Some a"
  by (induction xs) (auto simp: rev_image_eqI)


end
