(* ===== verification/Artifact_Cases.thy ===== *)
theory Artifact_Cases
  imports Artifact_Kept
begin

text \<open>
  Examples for the artifacts: a job leaves one report, its node keeps it, the server fetches it, and a second fetch finds
  it in the cache. SHA-256 is a toy checksum in digits, base64 the identity.
\<close>

definition toy_sum :: "string \<Rightarrow> nat" where
  "toy_sum m = foldl (\<lambda>a c. (a * 31 + of_char c) mod 97) 7 m"

definition toy_sha :: "string \<Rightarrow> string" where
  "toy_sha m = replicate 62 (CHR ''0'') @ [char_of (48 + toy_sum m div 10 mod 10), char_of (48 + toy_sum m mod 10)]"

definition toy_cr :: Crypto where
  "toy_cr = \<lparr> cr_b64 = id, cr_unb64 = Some, cr_sha256_hex = toy_sha, cr_verify = (\<lambda>k m s. False) \<rparr>"

lemma toy_sha_hex: "sha_hex toy_cr"
proof -
  have "is_ascii_digit (char_of (48 + n mod 10))" for n :: nat
  proof -
    have "48 + n mod 10 < 256" by (simp add: trans_less_add1 less_imp_le_nat)
    then show ?thesis by (simp add: is_ascii_digit_def byte_def)
  qed
  moreover have "is_ascii_digit (CHR ''0'')" by (simp add: is_ascii_digit_def byte_def)
  ultimately show ?thesis by (simp add: sha_hex_def toy_cr_def toy_sha_def hash_name_def list_all_iff)
qed

definition report :: string where "report = ''<testsuite/>''"

definition ex_roots :: Roots where
  "ex_roots = \<lparr> rt_cwd = [''w''], rt_cwd_node = Fs_Dir True [(''out'', Fs_Dir True [(''a.xml'', Fs_File report), (''l.xml'', Fs_Other)])],
     rt_target = None, rt_cwd_label = None \<rparr>"

definition ex_copy :: "string list \<Rightarrow> CopyIo" where
  "ex_copy p = \<lparr> ci_mkdir = None, ci_open = None, ci_create = None, ci_steps = [Io_Bytes report] \<rparr>"

definition ex_keep :: "Outputs \<times> (string list \<times> string) list" where
  "ex_keep = collect toy_cr (\<lambda>s. ([], None)) ex_copy [''out/*.xml'', ''../x''] ex_roots (artifacts_dir [''kept''] ''j1'' 1)"

definition ex_info :: ArtifactInfo where
  "ex_info = \<lparr> ar_name = ''out/a.xml'', ar_sha256 = toy_sha report, ar_bytes = 12 \<rparr>"

definition ex_job :: FetchJob where "ex_job = \<lparr> fj_id = ''j1'', fj_generation = 1, fj_node_id = ''n1'' \<rparr>"

definition ex_env :: FetchEnv where
  "ex_env = \<lparr> fe_online = True, fe_route = Some ''lan'', fe_features = Some [''artifacts''], fe_mkdir = None, fe_random_id = Inr ''ab12'',
     fe_create = None, fe_now = 5 \<rparr>"

definition ex_fresh :: PullState where
  "ex_fresh = \<lparr> ps_pulls = [], ps_files = [], ps_verified = [], ps_bg = [] \<rparr>"

definition ex_write :: WriteIo where "ex_write = \<lparr> wi_write = True, wi_rename = None, wi_now = 7 \<rparr>"

definition ex_dst :: "string list" where "ex_dst = [''k2'', ''artifacts'', ''j1-g1'', toy_sha report]"

definition ex_get :: ArtifactGet where
  "ex_get = \<lparr> ag_request_id = ''ab12'', ag_job_id = ''j1'', ag_generation = 1, ag_name = ''out/a.xml'' \<rparr>"

definition ex_began :: PullState where "ex_began = fst (fetch_begin toy_cr ex_env [''k2''] ex_job ex_info False ex_fresh)"

definition ex_stat :: "string list \<Rightarrow> KeptStat" where
  "ex_stat p = (case map_of (snd ex_keep) p of None \<Rightarrow> Ks_Gone | Some b \<Rightarrow> Ks_File (Inr (length b, [Io_Bytes b])))"

definition ex_frames :: "ArtifactFrame list" where
  "ex_frames = answer toy_cr ex_stat (\<lambda>n. True) [''kept''] ex_get (Some (ou_artifacts (fst ex_keep)))"

definition ex_held :: PullState where "ex_held = deliver toy_cr (\<lambda>f. ex_write) ''n1'' ex_frames ex_began"

section \<open>The job's files\<close>

fun contents :: "FsNode \<Rightarrow> string set" where
  "contents (Fs_Dir r es) = (\<Union>e \<in> set es. contents (snd e))"
| "contents (Fs_File b) = {b}"
| "contents Fs_Other = {}"

lemma entry_contents: "fs_entry node x = Some m \<Longrightarrow> contents m \<subseteq> contents node"
  by (cases node) (auto dest!: map_of_SomeD)

lemma listing_contents: "(x, m) \<in> set (listing node) \<Longrightarrow> contents m \<subseteq> contents node"
  by (cases node rule: listing.cases) auto

lemma found_contents: "found ss node n b \<Longrightarrow> b \<in> contents node"
  by (induction rule: found.induct) (auto dest: entry_contents listing_contents)

lemma ex_reads: "reads_right ex_roots ex_copy"
  by (auto simp: reads_right_def job_file_def ex_roots_def ex_copy_def report_def dest!: found_contents)

lemma ex_plain: "roots_plain ex_roots" by code_simp

lemma ex_kept: "still_kept (snd ex_keep) ex_stat"
  by (auto simp: still_kept_def ex_stat_def)

lemma ex_keep_value: "ou_artifacts (fst ex_keep) = [ex_info]" by code_simp

section \<open>Witnesses\<close>

lemma ex_keep_collect:
  "collect toy_cr (\<lambda>s. ([], None)) ex_copy [''out/*.xml'', ''../x''] ex_roots
     (artifacts_dir [''kept''] (fj_id ex_job) (as_gen (fj_generation ex_job))) = (fst ex_keep, snd ex_keep)"
  by (simp add: ex_keep_def ex_job_def as_gen_def)

theorem collect_within_witness:
  "ou_artifacts (fst ex_keep) = [ex_info] \<and> sum_list (map ar_bytes (ou_artifacts (fst ex_keep))) \<le> MAX_TOTAL_BYTES
    \<and> kept_right toy_cr [''out/*.xml'', ''../x''] ex_roots [''kept'', ''j1-g1''] (snd ex_keep) ex_info"
proof -
  have d: "artifacts_dir [''kept''] ''j1'' 1 = [''kept'', ''j1-g1'']" by code_simp
  have c: "collect toy_cr (\<lambda>s. ([], None)) ex_copy [''out/*.xml'', ''../x''] ex_roots [''kept'', ''j1-g1''] = (fst ex_keep, snd ex_keep)"
    unfolding ex_keep_def d by (rule prod.collapse [symmetric])
  show ?thesis
    using collect_within [OF ex_plain ex_reads, where cr = toy_cr and read_xml = "\<lambda>s. ([], None)" and globs = "[''out/*.xml'', ''../x'']"
        and keep = "[''kept'', ''j1-g1'']"]
    by (simp add: c ex_keep_value case_prod_beta)
qed

lemma ex_begin: "fetch_begin toy_cr ex_env [''k2''] ex_job ex_info False ex_fresh = (ex_began, Begun_Waits ''ab12'' ex_dst ex_get)"
proof -
  have "snd (fetch_begin toy_cr ex_env [''k2''] ex_job ex_info False ex_fresh) = Begun_Waits ''ab12'' ex_dst ex_get" by code_simp
  then show ?thesis unfolding ex_began_def by (metis prod.collapse)
qed

lemma ex_job_file: "job_file ex_roots ss path name b \<Longrightarrow> b = report"
  by (auto simp: job_file_def ex_roots_def dest!: found_contents)


lemma deliver_runs: "server_runs cr st (deliver cr io node fs st)"
proof (induction fs rule: rev_induct)
  case (snoc f fs)
  have "pull_step cr (deliver cr io node fs st) (deliver cr io node (fs @ [f]) st)"
    by (simp add: deliver_def step_frame)
  then show ?case using snoc unfolding server_runs_def by (rule rtranclp.rtrancl_into_rtrancl [rotated])
qed (simp add: deliver_def server_runs_def)

lemma ex_runs: "server_runs toy_cr ex_fresh ex_held"
proof -
  have "id_hex ex_env" by code_simp
  then have "pull_step toy_cr ex_fresh ex_began" unfolding ex_began_def by (rule step_begin)
  then show ?thesis using deliver_runs [of toy_cr ex_began "\<lambda>f. ex_write" "''n1''" ex_frames]
    unfolding server_runs_def ex_held_def by (rule converse_rtranclp_into_rtranclp)
qed


section \<open>A hash that is a path\<close>

text \<open>Nothing checks that a reported hash is one: it is joined to the cache's path as it comes. A node that reports the path
  of another job's cached file as the hash of its own has that file served for it, although its hash is another.\<close>

lemma reported_hash_is_a_path:
  "snd (fetch_begin toy_cr ex_env [''k2''] \<lparr> fj_id = ''j9'', fj_generation = 1, fj_node_id = ''n9'' \<rparr>
      \<lparr> ar_name = ''x'', ar_sha256 = path_display ex_dst, ar_bytes = 12 \<rparr> False ex_held) = Begun_Ready ex_dst
   \<and> artifact_cache_path [''k2''] ''j9'' 1 ''/etc/x'' = [''etc'', ''x'']"
  by code_simp

end
