(* ===== verification/Spec2Isabelle.thy ===== *)
theory Spec2Isabelle
  imports Queue_Rules Queue_Guards Queue_View Share_Rules Scheduler_Rules Pkg_Rules Needs_Rules Globs Host
    Results_Rules Junit_Rules Retry Job_Cases Store_Rules Node_Cases Ship_Rules Channel_Cases
    Artifact_Cases
begin

text \<open>
  K2 compute: how a server hands the jobs of its users to machines (nodes) that several servers may share, and how a
  node queues, starts and ends them. The sources are \<open>src/crates/k2-node-proto/src\<close> (types and rules both sides use),
  \<open>src/crates/k2-core/src/compute\<close> and \<open>src/crates/k2-daemon/src/compute_*.rs\<close> (the server) and
  \<open>src/crates/k2-node/src\<close> (the node).

  \<^bold>\<open>How the parts interact.\<close> A user submits a job; the server keeps it as a row of its table. For a node that serves one
  server only it picks the job and the node itself (\<open>scheduler.rs\<close>), with the same refusal function the node uses
  (\<open>refusal.rs\<close>); a shared node gets the job at once and queues it. The server sends an \<open>assign\<close> frame with a fence: the
  job, the attempt and a generation. The node writes a ledger row, queues or starts the job, reports states in frames and
  snapshots and signs a receipt at the end. The generation tells a late report from a current one; each write on a row is
  one guarded SQL statement. A node's queue (\<open>queue.rs\<close>, driven by \<open>fairq.rs\<close>) shares the machine by tenants, workspaces
  and submitters in lines (CI, Priority, Standard, Batch).

  \<^bold>\<open>Conventions.\<close> \<open>K2_Prelude\<close> fixes the integers (unsigned as \<open>nat\<close>, signed as \<open>int\<close>, with the wrap-around written
  out) and the option monad in which a panic is \<open>None\<close>; \<open>Rust_Str\<close> and \<open>Rust_Text\<close> are the parts of \<open>str\<close> the sources
  use, on UTF-8 bytes; \<open>BTree\<close> is \<open>BTreeMap\<close>, used through its locale \<open>ordered_map\<close>. The locale \<open>wire_enum\<close> of
  \<open>Share_Enums\<close> is the contract of an enum's wire names (nine interpretations), \<open>row_machine\<close> of \<open>Runs\<close> that of a
  table whose rows only move forward (interpreted by the server, with and without retries by hand, and by a node).

  \<^bold>\<open>The theories, by component.\<close>
  \<^item> Words of the protocol: \<open>Codes\<close> (reason codes), \<open>Share_Enums\<close>, \<open>Tiers\<close> (\<open>tiers.rs\<close>), \<open>Frames\<close> and \<open>Job_Frames\<close>
    (\<open>frames.rs\<close>). Shown: names read back, linear orders, a checked layout keeps repositories apart.
  \<^item> Shares of a node: \<open>Share\<close>, \<open>Share_Wire\<close>, \<open>Share_Rules\<close> (\<open>share.rs\<close>). Shown: what narrows and widens a share,
    what a valid \<open>servers.toml\<close> is and that adding a server keeps it valid.
  \<^item> The rules of a node's queue (\<open>queue.rs\<close>): \<open>Queue_Defs\<close> and \<open>Queue_Order\<close>, \<open>Queue_Rules\<close> (the order: it exists, is
    a permutation, alternates), \<open>Queue_Sim\<close>, \<open>Queue_Starts\<close>, \<open>Queue_Limits\<close>, \<open>Queue_Guards\<close> (what a start implies: the
    machine's caps, the tenant's limits, isolation, the hold behind a waiting CI or Priority job), \<open>Queue_View\<close> (what
    another server sees does not depend on private facts); \<open>Queue_Example\<close> for the witnesses.
  \<^item> The solo scheduler (\<open>scheduler.rs\<close>) with \<open>Refusals\<close> (\<open>refusal.rs\<close>): \<open>Scheduler\<close>, \<open>Solo_Order\<close>, \<open>Scheduler_Rules\<close>.
    Shown: both sides refuse alike, only an accepted job is placed, in turn.
  \<^item> What a job may need: \<open>Host\<close>, \<open>Pkg_Rows\<close>, \<open>Pkgmap\<close>, \<open>Profiles\<close>, \<open>Pkgpolicy\<close>, \<open>Pkg_Rules\<close>, \<open>Needs\<close>, \<open>Needs_Rules\<close>.
    Shown: a denied package is never covered, a narrowing covers no more, tokens read back.
  \<^item> What a job leaves: \<open>Results\<close>, \<open>Results_Rules\<close>, \<open>Junit_Rules\<close>, \<open>Globs\<close> (\<open>results.rs\<close>). Shown: the JUnit reader's state
    machine computes the summary of the document tree, the glob matcher decides the usual glob relation.
  \<^item> The server's jobs: \<open>Job_Store\<close> (\<open>store.rs\<close>, every statement on the table), \<open>Shards\<close>, \<open>Retry\<close>, \<open>Job_Ends\<close>,
    \<open>Job_Observe\<close>, \<open>Job_Ops\<close> (\<open>compute_ws.rs\<close>, \<open>compute_place.rs\<close>, \<open>compute_shards.rs\<close>, \<open>compute_routes.rs\<close>,
    \<open>compute_views.rs\<close>). \<open>Job_Life\<close> is the abstract machine of one row; \<open>Job_Refines\<close> and \<open>Job_Moves\<close> show that every
    handler refines it; \<open>Job_Rules\<close>, \<open>Job_Times\<close> and \<open>Job_Cases\<close> draw the consequences: results are final, retries are
    bounded, an old generation is silent, a cancelled job is never sent again, one of the guarded writes wins.
  \<^item> A node: \<open>Ledger\<close> (\<open>ledger.rs\<close>), \<open>Queue_Store\<close> and \<open>Store_Rules\<close> (\<open>queue_store.rs\<close>), \<open>Node_State\<close> (\<open>node/mod.rs\<close>,
    \<open>node/tenant.rs\<close>, the state of \<open>fairq.rs\<close>), \<open>Node_Jobs\<close> (\<open>node/assign.rs\<close> and the writers of the running map in
    \<open>run.rs\<close>, \<open>disk.rs\<close>, \<open>tenant.rs\<close>), \<open>Fair_Tick\<close> (\<open>fairq.rs\<close>). \<open>Node_Safe\<close> says how ledgers may change,
    \<open>Node_Handlers\<close> that every handler obeys it, \<open>Node_Rules\<close> that no fence is launched twice, that ends are final,
    that a withdrawn job never starts and that a new session keeps only what its server lists; \<open>Tick_Rules\<close> composes the
    rules of the queue with the node (gates, caps), \<open>Assign_Rules\<close> the path without a queue; \<open>Node_Cases\<close> has the witnesses.
  \<^item> The session between them: \<open>Canonical\<close> (\<open>canonical.rs\<close>), \<open>Envelope\<close> (\<open>crypto.rs\<close>, \<open>seal\<close> and \<open>open\<close> of \<open>frames.rs\<close>, the
    writer and reader of \<open>session.rs\<close>), \<open>Handshake\<close> (\<open>attach_as\<close> of \<open>session.rs\<close>, \<open>serve_attach\<close> of \<open>compute_ws.rs\<close>).
    \<open>Envelope_Rules\<close> shows that signed bytes are unambiguous and that a reader accepts, whatever the network does, the
    first frames its peer sealed; \<open>Handshake\<close> that a session starts only with the node that answered its challenge.
    \<open>Channel_Cases\<close> has the witnesses.
  \<^item> A job's log: \<open>Journal\<close> (\<open>journal.rs\<close>, the node's file), \<open>Shipper\<close> (\<open>ship_pass\<close> of \<open>session.rs\<close>), \<open>Job_Logs\<close> (\<open>logs.rs\<close>
    and \<open>on_log\<close> of \<open>compute_ws.rs\<close>, the server's file). \<open>Log_Rules\<close> shows what the journal keeps and what opening it again
    recovers, \<open>Log_Server\<close> that the server's file holds the first records of the journal under any delivery, \<open>Ship_Rules\<close>
    that an attempt's end finds its whole log there; \<open>Log_Server\<close> also what a record torn by a dying server does.
  \<^item> A job's files: \<open>Artifact_Walk\<close> and \<open>Artifact_Keep\<close> (\<open>artifacts.rs\<close>: what a node finds, keeps and sends), \<open>Artifact_Pull\<close>
    (\<open>compute_ws.rs\<close>: the server's pulls and cache). \<open>Artifact_Walk\<close> shows that the walk finds exactly the files of a glob,
    \<open>Artifact_Rules\<close> that the cache returns only files with the hash that was reported, \<open>Artifact_Kept\<close> what is kept and that
    it arrives; \<open>Artifact_Cases\<close> has the witnesses.

  \<^bold>\<open>Atomicity.\<close> A handler is one step, as the mutex of the database (server) or of the state (node) makes it in almost
  all places. Where the code releases a lock between reading and writing and it matters, a lemma shows the effect:
  \<open>lost_sweep_reruns_ended_job\<close> of \<open>Job_Cases\<close>. The steps of \<open>auto_step\<close>, \<open>ctl_step\<close> and \<open>node_step\<close> come in any order and
  with any arguments, so the properties hold for every interleaving of handlers.

  \<^bold>\<open>Bounds and fuel.\<close> There is no fuel. Loops over indices are recursion with a measure; the order of the queue is a
  partial function shown to return on every snapshot (in \<open>Queue_Rules\<close>), and the simulation has the code's own round
  limit, \<open>4 * len + 8\<close>, so that \<open>decide\<close> is total without an assumption. The recursion over package profiles is the code's, over
  profiles that include only profiles that include nothing.

  \<^bold>\<open>Parameters.\<close> What is not under \<open>src/\<close> is an argument: the JSON, TOML and XML readers, digests, signatures and
  \<open>powf\<close> (the decay of usage), and what a node reads from its machine (the record \<open>NodeEnv\<close>). The properties that
  name them say for all such functions, with these exceptions. In those of the log base64 reads back what it wrote, and the
  redaction of a chunk stays under 4 GB. In those of the session a JSON scalar or key tells where it ends (\<open>tokens_ok\<close>), a
  value reads back what it was made of whatever the order of its keys (\<open>serde_ok\<close>), what verifies under a key was signed
  with it (\<open>unforged\<close>), and for delivery what it signs verifies (\<open>key_ok\<close>). In those of the artifacts SHA-256 is written in
  hex (\<open>sha_hex\<close>), names of files are names (\<open>roots_plain\<close>) and a read that succeeds gives the bytes of the file
  (\<open>reads_right\<close>, \<open>still_kept\<close>).

  \<^bold>\<open>Not modelled.\<close> I/O errors of SQLite other than a duplicate fence; migrations of the schemas; the
  transfer of sources and the processes, units and files of a running job; adopting a job after an update; the choice among several
  nodes, which is an ask (\<open>Ask_Move\<close>, \<open>Ask_Kick\<close>) of the modelled handlers; messages to users beyond whether one is due;
  the \<open>f64\<close> estimates of a run's length on the server; pruning of ledger rows 14 days after their end, after which a
  replayed fence is unknown; enrolment, node administration and the HTTP routes; every crate outside K2 compute. The
  wording of an error is modelled where a caller compares it, else it is the constructor of an error type.
\<close>

end
